(* ===== verification/Prelude.thy ===== *)
theory Prelude imports Main "HOL-Library.Monad_Syntax" "HOL-Library.List_Lexorder" "HOL-Library.Char_ord" "HOL-Library.Sublist" begin

text \<open>
  What every component of the model shares.

  \<^item> Go strings are byte sequences, modelled as \<open>string\<close> (a list of 8-bit characters), ordered
    bytewise as Go orders them. \<open>strings.TrimSpace\<close>, \<open>ToLower\<close> and \<open>ToUpper\<close> are modelled on their
    ASCII part: a byte above 127 is neither white space nor a letter with another case.
  \<^item> \<open>internal/assert\<close>: a failed assertion panics. A function that asserts returns an \<open>option\<close>,
    \<open>None\<close> for the panic, and is written in the option monad; its freedom from panics is proved.
  \<^item> An operating error is a value: a sum with the error on the left.
\<close>

named_theorems go_simps \<open>equations of the modelled Go library functions\<close>
named_theorems panics_iff \<open>when a computation that may panic returns a given value\<close>

subsection \<open>Assertions\<close>

type_synonym 'a panics = "'a option"

text \<open>\<open>assert.That\<close> and \<open>assert.Thatf\<close> (internal/assert/assert.go).\<close>

definition assert_That :: "bool \<Rightarrow> unit panics" where
  "assert_That condition = (if condition then Some () else None)"

lemma assert_That_Some [simp, panics_iff]: "assert_That c = Some u \<longleftrightarrow> c"
  by (simp add: assert_That_def)

lemma assert_That_None [simp, panics_iff]: "assert_That c = None \<longleftrightarrow> \<not> c"
  by (simp add: assert_That_def)

lemma assert_That_bind [simp]: "c \<Longrightarrow> assert_That c \<bind> f = f ()"
  by (simp add: assert_That_def)

lemma assert_That_fails [simp]: "\<not> c \<Longrightarrow> assert_That c \<bind> f = None"
  by (simp add: assert_That_def)

lemmas panics_bind [panics_iff] = bind_eq_Some_conv

subsection \<open>Strings\<close>

definition ascii_space :: "char \<Rightarrow> bool" where
  "ascii_space c \<longleftrightarrow> (let n = (of_char c :: nat) in n = 32 \<or> (9 \<le> n \<and> n \<le> 13))"

definition strings_TrimSpace :: "string \<Rightarrow> string" where
  "strings_TrimSpace s = rev (dropWhile ascii_space (rev (dropWhile ascii_space s)))"

definition lower_char :: "char \<Rightarrow> char" where
  "lower_char c = (let n = (of_char c :: nat) in if 65 \<le> n \<and> n \<le> 90 then char_of (n + 32) else c)"

definition upper_char :: "char \<Rightarrow> char" where
  "upper_char c = (let n = (of_char c :: nat) in if 97 \<le> n \<and> n \<le> 122 then char_of (n - 32) else c)"

definition strings_ToLower :: "string \<Rightarrow> string" where
  "strings_ToLower = map lower_char"

definition strings_ToUpper :: "string \<Rightarrow> string" where
  "strings_ToUpper = map upper_char"

abbreviation strings_HasPrefix :: "string \<Rightarrow> string \<Rightarrow> bool" where
  "strings_HasPrefix s p \<equiv> prefix p s"

abbreviation strings_HasSuffix :: "string \<Rightarrow> string \<Rightarrow> bool" where
  "strings_HasSuffix s p \<equiv> suffix p s"

definition strings_Contains :: "string \<Rightarrow> string \<Rightarrow> bool" where
  "strings_Contains s sub \<longleftrightarrow> list_ex (\<lambda>t. prefix sub t) (suffixes s)"

definition strings_TrimPrefix :: "string \<Rightarrow> string \<Rightarrow> string" where
  "strings_TrimPrefix s p = (if prefix p s then drop (length p) s else s)"

definition strings_TrimSuffix :: "string \<Rightarrow> string \<Rightarrow> string" where
  "strings_TrimSuffix s p = (if suffix p s then take (length s - length p) s else s)"

text \<open>\<open>strings.Split\<close> with a one-byte separator.\<close>

fun strings_Split :: "string \<Rightarrow> char \<Rightarrow> string list" where
  "strings_Split [] sep = [[]]"
| "strings_Split (c # cs) sep =
     (if c = sep then [] # strings_Split cs sep
      else (case strings_Split cs sep of [] \<Rightarrow> [[c]] | p # ps \<Rightarrow> (c # p) # ps))"

fun strings_Join :: "string list \<Rightarrow> string \<Rightarrow> string" where
  "strings_Join [] sep = []"
| "strings_Join [x] sep = x"
| "strings_Join (x # y # ys) sep = x @ sep @ strings_Join (y # ys) sep"

lemma strings_Split_not_Nil [simp]: "strings_Split s sep \<noteq> []"
  by (induction s) (auto split: list.splits)

lemma strings_Join_Cons: "ps \<noteq> [] \<Longrightarrow> strings_Join (p # ps) sep = p @ sep @ strings_Join ps sep"
  by (cases ps) auto

lemma strings_Join_Cons_char: "strings_Join ((c # p) # ps) sep = c # strings_Join (p # ps) sep"
  by (cases ps) auto

text \<open>Splitting and joining with the same separator is the identity, and no part holds it.\<close>

lemma Join_Split [simp]: "strings_Join (strings_Split s sep) [sep] = s"
proof (induction s)
  case (Cons c cs)
  show ?case
  proof (cases "strings_Split cs sep")
    case (Cons p ps)
    with \<open>strings_Join (strings_Split cs sep) [sep] = cs\<close> show ?thesis
      by (auto simp: strings_Join_Cons strings_Join_Cons_char)
  qed simp
qed simp

lemma Split_no_sep: "p \<in> set (strings_Split s sep) \<Longrightarrow> sep \<notin> set p"
  by (induction s arbitrary: p) (auto split: list.splits if_splits)

lemma Split_Join:
  "ps \<noteq> [] \<Longrightarrow> (\<And>p. p \<in> set ps \<Longrightarrow> sep \<notin> set p) \<Longrightarrow> strings_Split (strings_Join ps [sep]) sep = ps"
proof (induction ps)
  case (Cons p ps)
  have single: "strings_Split p sep = [p]" if "sep \<notin> set p" for p
    using that by (induction p) auto
  have app: "strings_Split (p @ sep # s) sep = p # strings_Split s sep" if "sep \<notin> set p" for p s
    using that by (induction p) auto
  show ?case
    using Cons by (cases "ps = []") (simp_all add: single strings_Join_Cons app)
qed simp

subsubsection \<open>Decimal rendering\<close>

text \<open>\<open>strconv.Itoa\<close>, also \<open>%d\<close> of \<open>fmt\<close>.\<close>

fun digits_of :: "nat \<Rightarrow> string" where
  "digits_of n = (if n < 10 then [char_of (48 + n)] else digits_of (n div 10) @ [char_of (48 + n mod 10)])"

declare digits_of.simps [simp del]

definition strconv_Itoa :: "int \<Rightarrow> string" where
  "strconv_Itoa i = (if i < 0 then ''-'' @ digits_of (nat (- i)) else digits_of (nat i))"

lemma digits_of_not_Nil [simp]: "digits_of n \<noteq> []"
  by (subst digits_of.simps) simp

lemma Itoa_not_Nil [simp]: "strconv_Itoa i \<noteq> []"
  by (simp add: strconv_Itoa_def)

subsubsection \<open>Trimming\<close>

lemma dropWhile_rev_idem:
  "dropWhile P (rev (dropWhile P (rev (dropWhile P xs)))) = rev (dropWhile P (rev (dropWhile P xs)))"
proof -
  have hd: "ys = [] \<or> \<not> P (hd ys)" if "ys = dropWhile P xs" for ys
    using that hd_dropWhile by blast
  define ys where "ys = dropWhile P xs"
  have pre: "prefix (rev (dropWhile P (rev ys))) ys"
    by (metis rev_rev_ident suffix_dropWhile suffix_to_prefix)
  show ?thesis
  proof (cases "rev (dropWhile P (rev ys))")
    case Nil
    then show ?thesis unfolding ys_def [symmetric] by (simp only: dropWhile.simps)
  next
    case (Cons z zs)
    with pre have "hd ys = z" by (auto simp: prefix_def)
    with hd[OF ys_def] pre Cons have "\<not> P z" by auto
    with Cons show ?thesis by (simp add: ys_def)
  qed
qed

lemma TrimSpace_idem [simp]: "strings_TrimSpace (strings_TrimSpace s) = strings_TrimSpace s"
  unfolding strings_TrimSpace_def by (simp add: dropWhile_rev_idem)

lemma TrimSpace_Nil [simp]: "strings_TrimSpace [] = []"
  by (simp add: strings_TrimSpace_def)

lemma TrimSpace_eq_Nil: "strings_TrimSpace s = [] \<longleftrightarrow> (\<forall>c \<in> set s. ascii_space c)"
  unfolding strings_TrimSpace_def
  by (metis dropWhile_eq_Nil_conv rev.simps(1) rev_is_rev_conv set_rev
      in_set_conv_decomp set_dropWhileD dropWhile_eq_self_iff hd_dropWhile)

subsection \<open>Machine integers\<close>

text \<open>A sum of \<open>int\<close> or \<open>int64\<close> values that may leave the type.\<close>

definition wrap_int64 :: "int \<Rightarrow> int" where
  "wrap_int64 x = (x + 2 ^ 63) mod 2 ^ 64 - 2 ^ 63"

lemma wrap_int64_id: "- (2 ^ 63) \<le> x \<Longrightarrow> x < 2 ^ 63 \<Longrightarrow> wrap_int64 x = x"
  by (simp add: wrap_int64_def)

subsection \<open>First occurrence wins\<close>

text \<open>
  The pattern by which the code removes duplicates: walk a slice, keep an element whose key has
  not been seen, remember the key. \<open>dedupe_by key seen xs\<close> is that loop with the \<open>seen\<close> map as a
  list of keys.
\<close>

fun dedupe_by :: "('a \<Rightarrow> 'k) \<Rightarrow> 'k list \<Rightarrow> 'a list \<Rightarrow> 'a list" where
  "dedupe_by key seen [] = []"
| "dedupe_by key seen (x # xs) =
     (if key x \<in> set seen then dedupe_by key seen xs
      else x # dedupe_by key (key x # seen) xs)"

lemma dedupe_by_subset: "set (dedupe_by key seen xs) \<subseteq> set xs"
  by (induction xs arbitrary: seen) auto

lemma dedupe_by_keys:
  "key ` set (dedupe_by key seen xs) = key ` set xs - set seen"
  by (induction xs arbitrary: seen) auto

lemma dedupe_by_distinct: "distinct (map key (dedupe_by key seen xs))"
proof (induction xs arbitrary: seen)
  case (Cons x xs)
  have "key x \<notin> key ` set (dedupe_by key (key x # seen) xs)"
    by (simp add: dedupe_by_keys)
  with Cons show ?case by simp
qed simp

lemma dedupe_by_length: "length (dedupe_by key seen xs) \<le> length xs"
  by (induction xs arbitrary: seen) (auto intro: le_SucI)

lemma dedupe_by_subseq: "subseq (dedupe_by key seen xs) xs"
  by (induction xs arbitrary: seen) auto

text \<open>The element kept for a key is the first one of the slice that has it.\<close>

lemma dedupe_by_first:
  "k \<notin> set seen \<Longrightarrow> find (\<lambda>y. key y = k) (dedupe_by key seen xs) = find (\<lambda>y. key y = k) xs"
  by (induction xs arbitrary: seen) auto

lemma dedupe_by_id: "distinct (map key xs) \<Longrightarrow> key ` set xs \<inter> set seen = {} \<Longrightarrow> dedupe_by key seen xs = xs"
  by (induction xs arbitrary: seen) auto

lemma dedupe_by_idem: "dedupe_by key [] (dedupe_by key seen xs) = dedupe_by key seen xs"
  by (rule dedupe_by_id) (simp_all add: dedupe_by_distinct)

text \<open>Searching by a key that is unique.\<close>

lemma find_distinct: "distinct (map f xs) \<Longrightarrow> x \<in> set xs \<Longrightarrow> find (\<lambda>y. f y = f x) xs = Some x"
  by (induction xs) (auto simp: image_iff)

lemmas dedupe_facts = dedupe_by_keys dedupe_by_distinct dedupe_by_first dedupe_by_subseq

end
