(* ===== verification/Proto.thy ===== *)
theory Proto imports Prelude "HOL-Library.Word" begin

text \<open>
  The messages of the plugin protocol (proto/scanner.proto, generated into
  internal/proto/scanner.pb.go) that the scan workflow reads and writes. A pointer field is an
  \<open>option\<close>, a map field a partial function, \<open>int32\<close> and \<open>int64\<close> are words, a timestamp is its
  count of nanoseconds.
\<close>

type_synonym timestamp = int
type_synonym strmap = "string \<rightharpoonup> string"

record pb_Relationship =
  rel_TargetId :: string
  rel_TargetType :: string
  rel_TargetService :: string
  rel_RelationshipType :: string
  rel_Properties :: strmap

record pb_Resource =
  res_Provider :: string
  res_Service :: string
  res_Type :: string
  res_Id :: string
  res_Name :: string
  res_Region :: string
  res_AccountId :: string
  res_ParentId :: string
  res_Arn :: string
  res_Tags :: strmap
  res_CreatedAt :: "timestamp option"
  res_ModifiedAt :: "timestamp option"
  res_DiscoveredAt :: "timestamp option"
  res_Relationships :: "pb_Relationship option list"
  res_RawData :: string
  res_Attributes :: string

record pb_ScanStats =
  stats_TotalResources :: "32 word"
  stats_FailedResources :: "32 word"
  stats_DurationMs :: "64 word"
  stats_ServiceCounts :: "string \<rightharpoonup> 32 word"

record pb_BatchScanRequest =
  req_Services :: "string list"
  req_Region :: string
  req_Filters :: strmap
  req_IncludeRelationships :: bool
  req_Concurrency :: "32 word"

record pb_BatchScanResponse =
  resp_Resources :: "pb_Resource option list"
  resp_Stats :: "pb_ScanStats option"
  resp_Errors :: "string list"

record pb_ResourceRef =
  ref_Id :: string
  ref_Name :: string
  ref_Type :: string
  ref_Service :: string
  ref_Region :: string
  ref_AccountId :: string
  ref_BasicAttributes :: strmap

definition pb_Resource_zero :: pb_Resource where
  "pb_Resource_zero = \<lparr>res_Provider = [], res_Service = [], res_Type = [], res_Id = [], res_Name = [],
     res_Region = [], res_AccountId = [], res_ParentId = [], res_Arn = [], res_Tags = Map.empty,
     res_CreatedAt = None, res_ModifiedAt = None, res_DiscoveredAt = None, res_Relationships = [],
     res_RawData = [], res_Attributes = []\<rparr>"

end
