(* ===== verification/Scan_Errors.thy ===== *)
theory Scan_Errors imports Prelude begin

text \<open>
  internal/shared/scan_errors.go: an entry of \<open>BatchScanResponse.Errors\<close> is a notice or an error,
  told apart by its prefix. Providers build entries with the constructors; the core splits a
  response with \<open>SplitScanErrors\<close>, and any entry that is left an error makes the scan partial.
\<close>

definition scanNoticeUnsupportedTypePrefix :: string where
  "scanNoticeUnsupportedTypePrefix = ''unsupported_type:''"

definition scanNoticeAccessDeniedPrefix :: string where
  "scanNoticeAccessDeniedPrefix = ''access_denied:''"

definition scanNoticeNotEnabledPrefix :: string where
  "scanNoticeNotEnabledPrefix = ''not_enabled:''"

definition scanErrorServicePrefix :: string where
  "scanErrorServicePrefix = ''service:''"

lemmas scan_prefix_defs = scanNoticeUnsupportedTypePrefix_def scanNoticeAccessDeniedPrefix_def
  scanNoticeNotEnabledPrefix_def scanErrorServicePrefix_def

text \<open>An \<open>error\<close> argument is printed with \<open>%v\<close>, so it is its text.\<close>

definition UnsupportedTypeNotice :: "string \<Rightarrow> string \<Rightarrow> string" where
  "UnsupportedTypeNotice typeName reason = scanNoticeUnsupportedTypePrefix @ typeName @ '': '' @ reason"

definition AccessDeniedNotice :: "string \<Rightarrow> string \<Rightarrow> string" where
  "AccessDeniedNotice target err = scanNoticeAccessDeniedPrefix @ target @ '': '' @ err"

definition NotEnabledNotice :: "string \<Rightarrow> string \<Rightarrow> string" where
  "NotEnabledNotice target detail = scanNoticeNotEnabledPrefix @ target @ '': '' @ detail"

definition ServiceScanError :: "string \<Rightarrow> string \<Rightarrow> string" where
  "ServiceScanError service err = scanErrorServicePrefix @ service @ '': '' @ err"

definition IsCoverageNotice :: "string \<Rightarrow> bool" where
  "IsCoverageNotice entry \<longleftrightarrow> strings_HasPrefix entry scanNoticeAccessDeniedPrefix \<or>
     strings_HasPrefix entry scanNoticeNotEnabledPrefix"

definition IsScanNotice :: "string \<Rightarrow> bool" where
  "IsScanNotice entry \<longleftrightarrow> strings_HasPrefix entry scanNoticeUnsupportedTypePrefix \<or> IsCoverageNotice entry"

text \<open>The loop of \<open>SplitScanErrors\<close>, with the two slices it appends to.\<close>

fun split_scan_errors_loop :: "string list \<Rightarrow> string list \<Rightarrow> string list \<Rightarrow> string list \<times> string list" where
  "split_scan_errors_loop [] errs notices = (errs, notices)"
| "split_scan_errors_loop (entry # entries) errs notices =
     (if IsScanNotice entry then split_scan_errors_loop entries errs (notices @ [entry])
      else split_scan_errors_loop entries (errs @ [entry]) notices)"

definition SplitScanErrors :: "string list \<Rightarrow> string list \<times> string list" where
  "SplitScanErrors entries = split_scan_errors_loop entries [] []"

lemma split_scan_errors_loop:
  "split_scan_errors_loop es errs notices =
     (errs @ filter (\<lambda>e. \<not> IsScanNotice e) es, notices @ filter IsScanNotice es)"
  by (induction es arbitrary: errs notices) auto

lemma SplitScanErrors_filter [simp]:
  "SplitScanErrors es = (filter (\<lambda>e. \<not> IsScanNotice e) es, filter IsScanNotice es)"
  by (simp add: SplitScanErrors_def split_scan_errors_loop)

lemma ServiceScanError_is_error [simp]: "\<not> IsScanNotice (ServiceScanError service err)"
  by (simp add: IsScanNotice_def IsCoverageNotice_def ServiceScanError_def scan_prefix_defs)

lemma coverage_is_notice: "IsCoverageNotice e \<Longrightarrow> IsScanNotice e"
  by (simp add: IsScanNotice_def)

text \<open>
  The entries a provider builds with the helpers are classified as documented, whatever their
  arguments: an unsupported type is a notice but not a coverage notice, an access denial and a
  disabled feature are coverage notices, and a service failure is an error that
  \<open>SplitScanErrors\<close> never moves among the notices.
\<close>

lemma scan_entry_classification:
  "IsScanNotice (UnsupportedTypeNotice t r) \<and> \<not> IsCoverageNotice (UnsupportedTypeNotice t r) \<and>
   IsCoverageNotice (AccessDeniedNotice t e) \<and> IsScanNotice (AccessDeniedNotice t e) \<and>
   IsCoverageNotice (NotEnabledNotice t d) \<and> IsScanNotice (NotEnabledNotice t d) \<and>
   fst (SplitScanErrors (xs @ ServiceScanError s e # ys)) =
     fst (SplitScanErrors xs) @ ServiceScanError s e # fst (SplitScanErrors ys) \<and>
   snd (SplitScanErrors (xs @ ServiceScanError s e # ys)) = snd (SplitScanErrors (xs @ ys))"
  by (simp add: IsScanNotice_def IsCoverageNotice_def UnsupportedTypeNotice_def AccessDeniedNotice_def
      NotEnabledNotice_def ServiceScanError_def scan_prefix_defs)

end
