(* ===== verification/Paging.thy ===== *)
theory Paging imports Prelude begin

text \<open>
  internal/shared/paging: the \<open>Guard\<close> that bounds a provider's pagination loop, and the loops that
  use it. A loop is written once, \<open>page_loop\<close>, over the guard's \<open>Next\<close> as an argument; the laws a
  guard owes the loop are the locale \<open>page_guard\<close>, and the loop's termination, its bound on
  requests and the completeness of what it lists are proved inside it. The server is a parameter:
  a function of the request count and the cursor.
\<close>

subsection \<open>Guard\<close>

definition PagesMax :: int where
  "PagesMax = 10000"

datatype page_error =
    ErrPageLimit string int
  | ErrTokenRepeated string int

record Guard =
  guard_label :: string
  guard_pagesMax :: int
  guard_pages :: int
  guard_tokenPrevious :: string

definition paging_New :: "string \<Rightarrow> int \<Rightarrow> Guard panics" where
  "paging_New label pagesMax = do {
     assert_That (pagesMax > 0);
     Some \<lparr>guard_label = label, guard_pagesMax = pagesMax, guard_pages = 0, guard_tokenPrevious = []\<rparr>
   }"

definition Guard_Next :: "Guard \<Rightarrow> string \<Rightarrow> (Guard \<times> page_error option) panics" where
  "Guard_Next g token = do {
     assert_That (token \<noteq> []);
     assert_That (guard_pages g < guard_pagesMax g);
     let g = g\<lparr>guard_pages := guard_pages g + 1\<rparr>;
     assert_That (guard_pages g \<le> guard_pagesMax g);
     if guard_pages g \<ge> guard_pagesMax g
     then Some (g, Some (ErrPageLimit (guard_label g) (guard_pagesMax g)))
     else if token = guard_tokenPrevious g
     then Some (g, Some (ErrTokenRepeated (guard_label g) (guard_pages g)))
     else Some (g\<lparr>guard_tokenPrevious := token\<rparr>, None)
   }"

definition Guard_Pages :: "Guard \<Rightarrow> int" where
  "Guard_Pages g = guard_pages g"

subsection \<open>The page loop\<close>

text \<open>
  One reply of the server: the items it carried, the error of the call (items that arrived with an
  error are still delivered, as \<open>iterator.Pager\<close> does), and the cursor of the next page, \<open>None\<close> when
  the listing ends.
\<close>

record ('a, 'e) page_reply =
  reply_items :: "'a list"
  reply_err :: "'e option"
  reply_next :: "string option"

datatype 'e list_error = CallError 'e | GuardError page_error

text \<open>
  \<open>for { fetch; visit items; if err return; if no next return; if guard.Next(next) fails return }\<close>.
  The result is the items visited, the error returned and the number of requests made. \<open>None\<close> is a
  panic of the guard or a loop that never returns.
\<close>

partial_function (option) page_loop ::
  "('g \<Rightarrow> string \<Rightarrow> ('g \<times> page_error option) panics) \<Rightarrow> (nat \<Rightarrow> string \<Rightarrow> ('a, 'e) page_reply) \<Rightarrow>
   'g \<Rightarrow> nat \<Rightarrow> string \<Rightarrow> 'a list \<Rightarrow> ('a list \<times> 'e list_error option \<times> nat) option" where
  "page_loop nxt fetch g n cursor items =
     (case reply_err (fetch n cursor) of
        Some e \<Rightarrow> Some (items @ reply_items (fetch n cursor), Some (CallError e), Suc n)
      | None \<Rightarrow>
         (case reply_next (fetch n cursor) of
            None \<Rightarrow> Some (items @ reply_items (fetch n cursor), None, Suc n)
          | Some token \<Rightarrow> do {
              (g', err) \<leftarrow> nxt g token;
              (case err of
                 Some pe \<Rightarrow> Some (items @ reply_items (fetch n cursor), Some (GuardError pe), Suc n)
               | None \<Rightarrow> page_loop nxt fetch g' (Suc n) token (items @ reply_items (fetch n cursor)))
            }))"

declare page_loop.simps [code]

text \<open>What the server really holds from a cursor on: every page up to one that ends the listing.\<close>

inductive listing :: "(nat \<Rightarrow> string \<Rightarrow> ('a, 'e) page_reply) \<Rightarrow> nat \<Rightarrow> string \<Rightarrow> string list \<Rightarrow> 'a list \<Rightarrow> bool"
  for fetch where
  last: "reply_err (fetch n c) = None \<Longrightarrow> reply_next (fetch n c) = None \<Longrightarrow>
     listing fetch n c [] (reply_items (fetch n c))"
| more: "reply_err (fetch n c) = None \<Longrightarrow> reply_next (fetch n c) = Some t \<Longrightarrow>
     listing fetch (Suc n) t ts xs \<Longrightarrow> listing fetch n c (t # ts) (reply_items (fetch n c) @ xs)"

inductive_cases listingE: "listing fetch n c ts xs"

text \<open>A server that never sends an empty continuation token: a client maps one to the end.\<close>

definition tokens_nonempty :: "(nat \<Rightarrow> string \<Rightarrow> ('a, 'e) page_reply) \<Rightarrow> bool" where
  "tokens_nonempty fetch \<longleftrightarrow> (\<forall>n c. reply_next (fetch n c) \<noteq> Some [])"

lemma listing_tokens: "listing fetch n c ts xs \<Longrightarrow> tokens_nonempty fetch \<Longrightarrow> [] \<notin> set ts"
  by (induction rule: listing.induct) (auto simp: tokens_nonempty_def)

subsection \<open>What a guard owes the loop\<close>

locale page_guard =
  fixes nxt :: "'g \<Rightarrow> string \<Rightarrow> ('g \<times> page_error option) panics"
    and invar :: "'g \<Rightarrow> bool"
    and room :: "'g \<Rightarrow> nat"
  assumes step: "invar g \<Longrightarrow> token \<noteq> [] \<Longrightarrow> \<exists>g' err. nxt g token = Some (g', err) \<and>
      (err = None \<longrightarrow> invar g' \<and> room g = Suc (room g'))"
    and room_pos: "invar g \<Longrightarrow> 0 < room g"
begin

text \<open>The loop returns, without a panic, after at most \<open>room\<close> requests.\<close>

lemma loop_returns:
  assumes "tokens_nonempty fetch" "invar g"
  shows "\<exists>xs err m. page_loop nxt fetch g n c acc = Some (xs, err, m) \<and> n < m \<and> m \<le> n + room g"
  using assms(2)
proof (induction "room g" arbitrary: g n c acc rule: less_induct)
  case less
  show ?case
  proof (cases "reply_err (fetch n c)")
    case (Some e)
    with room_pos[OF less.prems] show ?thesis by (auto simp: page_loop.simps[of nxt fetch g n c acc])
  next
    case ok: None
    show ?thesis
    proof (cases "reply_next (fetch n c)")
      case None
      with ok room_pos[OF less.prems] show ?thesis
        by (auto simp: page_loop.simps[of nxt fetch g n c acc])
    next
      case (Some t)
      with assms(1) have "t \<noteq> []" by (auto simp: tokens_nonempty_def)
      from step[OF less.prems this] obtain g' err where s: "nxt g t = Some (g', err)"
        and go: "err = None \<longrightarrow> invar g' \<and> room g = Suc (room g')" by blast
      show ?thesis
      proof (cases err)
        case None
        with go have "invar g'" "room g = Suc (room g')" by auto
        with less.hyps[of g' "Suc n" t "acc @ reply_items (fetch n c)"] s None ok Some
        show ?thesis by (auto simp: page_loop.simps[of nxt fetch g n c acc])
      next
        case (Some pe)
        with s ok \<open>reply_next (fetch n c) = Some t\<close> room_pos[OF less.prems] show ?thesis
          by (auto simp: page_loop.simps[of nxt fetch g n c acc])
      qed
    qed
  qed
qed

text \<open>A loop that reports no error has listed everything the server holds.\<close>

lemma loop_complete:
  assumes "tokens_nonempty fetch" "invar g" "page_loop nxt fetch g n c acc = Some (xs, None, m)"
  shows "\<exists>ts ys. listing fetch n c ts ys \<and> xs = acc @ ys \<and> m = n + Suc (length ts)"
  using assms(2,3)
proof (induction "room g" arbitrary: g n c acc rule: less_induct)
  case less
  have ok: "reply_err (fetch n c) = None"
    using less.prems(2) by (auto simp: page_loop.simps[of nxt fetch g n c acc] split: option.splits)
  show ?case
  proof (cases "reply_next (fetch n c)")
    case None
    with ok less.prems(2) listing.last[of fetch n c, OF ok None] show ?thesis
      by (auto simp: page_loop.simps[of nxt fetch g n c acc])
  next
    case (Some t)
    with assms(1) have "t \<noteq> []" by (auto simp: tokens_nonempty_def)
    from step[OF less.prems(1) this] obtain g' err where s: "nxt g t = Some (g', err)"
      and go: "err = None \<longrightarrow> invar g' \<and> room g = Suc (room g')" by blast
    from s ok Some less.prems(2) have "err = None"
      and rec: "page_loop nxt fetch g' (Suc n) t (acc @ reply_items (fetch n c)) = Some (xs, None, m)"
      by (auto simp: page_loop.simps[of nxt fetch g n c acc] split: option.splits)
    with go have "invar g'" "room g' < room g" by auto
    from less.hyps[OF this(2,1) rec] obtain ts ys where "listing fetch (Suc n) t ts ys"
      "xs = (acc @ reply_items (fetch n c)) @ ys" "m = Suc n + Suc (length ts)" by blast
    with listing.more[of fetch n c, OF ok Some] show ?thesis by fastforce
  qed
qed

end

text \<open>
  A guard that fails only on a repeated token or an exhausted allowance lists an honest server
  completely.
\<close>

locale exact_page_guard = page_guard nxt invar room
  for nxt :: "'g \<Rightarrow> string \<Rightarrow> ('g \<times> page_error option) panics"
    and invar :: "'g \<Rightarrow> bool"
    and room :: "'g \<Rightarrow> nat" +
  fixes prev :: "'g \<Rightarrow> string"
  assumes advance: "invar g \<Longrightarrow> token \<noteq> [] \<Longrightarrow> token \<noteq> prev g \<Longrightarrow> 1 < room g \<Longrightarrow>
      \<exists>g'. nxt g token = Some (g', None) \<and> prev g' = token"
begin

lemma loop_honest:
  assumes "listing fetch n c ts xs" "invar g" "distinct_adj (prev g # ts)" "[] \<notin> set ts" "length ts < room g"
  shows "page_loop nxt fetch g n c acc = Some (acc @ xs, None, n + Suc (length ts))"
  using assms
proof (induction arbitrary: g acc rule: listing.induct)
  case (last n c)
  then show ?case by (simp add: page_loop.simps[of nxt fetch g n c acc])
next
  case (more n c t ts xs)
  have "t \<noteq> []" "t \<noteq> prev g" "1 < room g" using more.prems by auto
  from advance[OF more.prems(1) this] obtain g' where s: "nxt g t = Some (g', None)" "prev g' = t" by blast
  with step[OF more.prems(1) \<open>t \<noteq> []\<close>] have "invar g'" "room g = Suc (room g')" by auto
  moreover have "distinct_adj (prev g' # ts)" using more.prems(2) s(2) by simp
  ultimately have "page_loop nxt fetch g' (Suc n) t (acc @ reply_items (fetch n c)) =
      Some ((acc @ reply_items (fetch n c)) @ xs, None, Suc n + Suc (length ts))"
    using more.prems by (intro more.IH) auto
  with more.hyps s show ?case by (simp add: page_loop.simps[of nxt fetch g n c acc])
qed

end

subsection \<open>The code's guard provides it\<close>

definition guard_ready :: "Guard \<Rightarrow> bool" where
  "guard_ready g \<longleftrightarrow> 0 \<le> guard_pages g \<and> guard_pages g < guard_pagesMax g"

definition guard_room :: "Guard \<Rightarrow> nat" where
  "guard_room g = nat (guard_pagesMax g - guard_pages g)"

interpretation pg: exact_page_guard Guard_Next guard_ready guard_room guard_tokenPrevious
  by unfold_locales (auto simp: Guard_Next_def guard_ready_def guard_room_def Let_def)

lemma paging_New_ready:
  "0 < k \<Longrightarrow> \<exists>g. paging_New l k = Some g \<and> guard_ready g \<and> guard_room g = nat k \<and> guard_tokenPrevious g = []"
  by (simp add: paging_New_def guard_ready_def guard_room_def)

subsection \<open>The clients of the guard\<close>

text \<open>
  \<open>listPages\<close> of plugins/gcp-provider/paging.go: the pager returns the page's items, the
  continuation token and an error. Its error wins over the token.
\<close>

record ('a, 'e) pager_reply =
  pager_page :: "'a list"
  pager_token :: string
  pager_err :: "'e option"

definition pager_fetch :: "(nat \<Rightarrow> string \<Rightarrow> ('a, 'e) pager_reply) \<Rightarrow> nat \<Rightarrow> string \<Rightarrow> ('a, 'e) page_reply" where
  "pager_fetch pager n cursor = (let r = pager n cursor in
     \<lparr>reply_items = pager_page r, reply_err = pager_err r,
      reply_next = (if pager_token r = [] then None else Some (pager_token r))\<rparr>)"

definition gcp_listPages :: "string \<Rightarrow> (nat \<Rightarrow> string \<Rightarrow> ('a, 'e) pager_reply) \<Rightarrow>
    ('a list \<times> 'e list_error option \<times> nat) option" where
  "gcp_listPages label pager = do {
     guard \<leftarrow> paging_New label PagesMax;
     page_loop Guard_Next (pager_fetch pager) guard 0 [] []
   }"

text \<open>\<open>guardNextLink\<close> of plugins/azure-provider/paging.go: a nil or empty link needs no check.\<close>

definition azure_guardNextLink :: "Guard \<Rightarrow> string option \<Rightarrow> (Guard \<times> page_error option) panics" where
  "azure_guardNextLink guard nextLink =
     (case nextLink of None \<Rightarrow> Some (guard, None)
      | Some link \<Rightarrow> if link = [] then Some (guard, None) else Guard_Next guard link)"

lemma pager_tokens [simp]: "tokens_nonempty (pager_fetch pager)"
  by (simp add: tokens_nonempty_def pager_fetch_def Let_def)

text \<open>
  C3. A Google Cloud listing always returns, whatever the server sends (a token repeated for ever
  included): no assertion of the guard fails, between one and 10000 requests are made, and if no
  error is reported then the items visited are exactly what the server holds, page after page up to
  the one that ends the listing. Nothing is silently cut short.
\<close>

theorem gcp_listPages_total_complete:
  "\<exists>xs err m. gcp_listPages label pager = Some (xs, err, m) \<and> 0 < m \<and> m \<le> 10000 \<and>
     (err = None \<longrightarrow> (\<exists>ts. listing (pager_fetch pager) 0 [] ts xs \<and> m = Suc (length ts)))"
proof -
  from paging_New_ready[of PagesMax label] obtain g where g: "paging_New label PagesMax = Some g"
    "guard_ready g" "guard_room g = 10000" by (auto simp: PagesMax_def)
  from pg.loop_returns[OF pager_tokens g(2), of pager 0 "[]" "[]"] obtain xs err m where
    r: "page_loop Guard_Next (pager_fetch pager) g 0 [] [] = Some (xs, err, m)" "0 < m" "m \<le> 10000"
    using g(3) by auto
  moreover have "\<exists>ts. listing (pager_fetch pager) 0 [] ts xs \<and> m = Suc (length ts)" if "err = None"
    using pg.loop_complete[OF pager_tokens g(2)] r(1) that by fastforce
  ultimately show ?thesis using g(1) by (auto simp: gcp_listPages_def)
qed

theorem gcp_listPages_total_complete_witness:
  "\<exists>xs err m. gcp_listPages ''vms'' (\<lambda>n c. \<lparr>pager_page = [n], pager_token = ''t'', pager_err = None :: unit option\<rparr>)
     = Some (xs, err, m) \<and> 0 < m \<and> m \<le> 10000"
  using gcp_listPages_total_complete[of "''vms''" "\<lambda>n c. \<lparr>pager_page = [n], pager_token = ''t'', pager_err = None :: unit option\<rparr>"]
  by blast

text \<open>
  An honest server, whose listing has fewer than 10001 pages, no error and no two equal
  consecutive tokens, is listed without an error and in order, with one request per page.
\<close>

lemma gcp_listPages_honest:
  assumes "listing (pager_fetch pager) 0 [] ts xs" "distinct_adj ts" "length ts < 10000"
  shows "gcp_listPages label pager = Some (xs, None, Suc (length ts))"
proof -
  have ne: "[] \<notin> set ts"
    using assms(1) by (rule listing_tokens) simp
  from paging_New_ready[of PagesMax label] obtain g where g: "paging_New label PagesMax = Some g"
    "guard_ready g" "guard_room g = 10000" "guard_tokenPrevious g = []" by (auto simp: PagesMax_def)
  have "distinct_adj (guard_tokenPrevious g # ts)"
    using assms(2) ne g(4) by (cases ts) auto
  from pg.loop_honest[OF assms(1) g(2) this ne] assms(3) g show ?thesis
    by (simp add: gcp_listPages_def)
qed

definition two_pages :: "nat \<Rightarrow> string \<Rightarrow> (nat, unit) pager_reply" where
  "two_pages n c = \<lparr>pager_page = [n, n], pager_token = (if n = 0 then ''a'' else []), pager_err = None\<rparr>"

lemma gcp_listPages_honest_instance:
  "gcp_listPages ''disks'' two_pages = Some ([0, 0, 1, 1], None, 2)"
proof -
  have "listing (pager_fetch two_pages) 0 [] [''a''] ([0, 0] @ [1, 1])"
    using listing.more[of "pager_fetch two_pages" 0 "[]" "''a''" "[]" "[1, 1]"]
      listing.last[of "pager_fetch two_pages" 1 "''a''"]
    by (simp add: pager_fetch_def two_pages_def)
  from gcp_listPages_honest[OF this] show ?thesis by simp
qed

end
