(* ===== verification/Scan_Executor.thy ===== *)
theory Scan_Executor imports Proto Scan_Errors "HOL-Library.Multiset" begin

text \<open>
  internal/scanexec/executor.go: one provider scan over the scopes of a plan. \<open>dispatchScopes\<close> runs a
  pool of workers, so it is a step relation whose states hold the dispatcher, the workers and the
  results channel; everything after the channel is closed (\<open>collectScopeResults\<close>,
  \<open>aggregateScopes\<close>, the rest of \<open>Execute\<close>) is sequential and written as functions. The provider's
  answer to a scope is a parameter. The observer is the list of events it is called with.
\<close>

record Plan =
  plan_Provider :: string
  plan_Scopes :: "string list"
  plan_Services :: "string list"
  plan_Filters :: strmap
  plan_IncludeRelationships :: bool
  plan_MaxConcurrency :: int
  plan_ScopeTimeout :: int

datatype Status = StatusUnset | StatusComplete | StatusPartial | StatusFailed

record ScopeResult =
  sr_Scope :: string
  sr_Resources :: "pb_Resource option list"
  sr_Stats :: "pb_ScanStats option"
  sr_Errors :: "string list"
  sr_Notices :: "string list"
  sr_Unreachable :: bool
  sr_Duration :: int

record Outcome =
  out_Status :: Status
  out_Resources :: "pb_Resource option list"
  out_Scopes :: "ScopeResult list"
  out_Stats :: "pb_ScanStats option"
  out_Duration :: int

datatype EventKind = EventScopeStarted | EventScopeCompleted | EventScopeFailed

record Event =
  ev_Kind :: EventKind
  ev_Provider :: string
  ev_Scope :: string
  ev_Completed :: nat
  ev_Total :: nat
  ev_Message :: string

datatype exec_error =
    BatchScannerRequired
  | PlanHasNoScopes
  | ContextError string
  | PartialError "string list"

definition PartialError_text :: "string list \<Rightarrow> string" where
  "PartialError_text failedScopes = ''scan completed with '' @ strconv_Itoa (int (length failedScopes)) @
     '' failed scope(s): '' @ strings_Join failedScopes '', ''"

definition ScopeResult_zero :: ScopeResult where
  "ScopeResult_zero = \<lparr>sr_Scope = [], sr_Resources = [], sr_Stats = None, sr_Errors = [], sr_Notices = [],
     sr_Unreachable = False, sr_Duration = 0\<rparr>"

definition Outcome_failed :: Outcome where
  "Outcome_failed = \<lparr>out_Status = StatusFailed, out_Resources = [], out_Scopes = [], out_Stats = None,
     out_Duration = 0\<rparr>"

subsection \<open>One scope\<close>

text \<open>
  What a \<open>BatchScan\<close> call returned: a transport error, or a response that may be nil, and how long
  it took. \<open>cloneFilters\<close> copies a map, so the clone is the map.
\<close>

datatype scan_answer = Answer "string + pb_BatchScanResponse option" int

definition cloneFilters :: "strmap \<Rightarrow> strmap" where
  "cloneFilters filters = filters"

definition scope_request :: "Plan \<Rightarrow> string \<Rightarrow> nat \<Rightarrow> pb_BatchScanRequest" where
  "scope_request plan scope concurrency =
     \<lparr>req_Services = plan_Services plan, req_Region = scope, req_Filters = cloneFilters (plan_Filters plan),
      req_IncludeRelationships = plan_IncludeRelationships plan, req_Concurrency = word_of_nat concurrency\<rparr>"

fun scanScope :: "string \<Rightarrow> scan_answer \<Rightarrow> ScopeResult" where
  "scanScope scope (Answer (Inl err) duration) =
     ScopeResult_zero\<lparr>sr_Scope := scope, sr_Duration := duration, sr_Errors := [err], sr_Unreachable := True\<rparr>"
| "scanScope scope (Answer (Inr None) duration) =
     ScopeResult_zero\<lparr>sr_Scope := scope, sr_Duration := duration,
       sr_Errors := [''provider returned an empty scan response''], sr_Unreachable := True\<rparr>"
| "scanScope scope (Answer (Inr (Some response)) duration) =
     (let (errs, notices) = SplitScanErrors (resp_Errors response) in
      ScopeResult_zero\<lparr>sr_Scope := scope, sr_Duration := duration, sr_Resources := resp_Resources response,
        sr_Stats := resp_Stats response, sr_Errors := errs, sr_Notices := notices\<rparr>)"

lemma scanScope_Scope [simp]: "sr_Scope (scanScope scope a) = scope"
  by (induction scope a rule: scanScope.induct) auto

lemma scanScope_no_errors:
  "sr_Errors (scanScope scope a) = [] \<Longrightarrow> \<exists>response d. a = Answer (Inr (Some response)) d \<and>
     (\<forall>e \<in> set (resp_Errors response). IsScanNotice e) \<and>
     sr_Resources (scanScope scope a) = resp_Resources response"
  by (induction scope a rule: scanScope.induct)
    (auto simp: ScopeResult_zero_def filter_empty_conv)

lemma scanScope_unreachable: "sr_Unreachable (scanScope scope a) \<Longrightarrow> sr_Errors (scanScope scope a) \<noteq> []"
  by (induction scope a rule: scanScope.induct) (auto simp: ScopeResult_zero_def)

subsection \<open>The worker pool\<close>

datatype worker = Idle | Busy nat | Exited

text \<open>
  The dispatcher's loop variable and whether it has announced that scope to the observer; the
  workers; the buffered results channel; whether the channel is closed; the observer's log.
\<close>

record pool =
  next_index :: nat
  announced :: bool
  workers :: "worker list"
  channel :: "(nat \<times> ScopeResult) list"
  channel_closed :: bool
  events :: "Event list"

definition pool_init :: "nat \<Rightarrow> pool" where
  "pool_init concurrency = \<lparr>next_index = 0, announced = False, workers = replicate concurrency Idle,
     channel = [], channel_closed = False, events = []\<rparr>"

definition started_event :: "Plan \<Rightarrow> nat \<Rightarrow> Event" where
  "started_event plan index = \<lparr>ev_Kind = EventScopeStarted, ev_Provider = plan_Provider plan,
     ev_Scope = plan_Scopes plan ! index, ev_Completed = 0, ev_Total = length (plan_Scopes plan), ev_Message = []\<rparr>"

text \<open>
  \<open>jobs\<close> is unbuffered: a send and a worker's receive are one step. The channel of results has room
  for one result per scope, and a worker sends only while there is room. \<open>answers\<close> says which
  answers the provider may give for the scope at an index.
\<close>

inductive pool_step :: "Plan \<Rightarrow> (nat \<Rightarrow> scan_answer \<Rightarrow> bool) \<Rightarrow> pool \<Rightarrow> pool \<Rightarrow> bool"
  for plan answers where
  announce: "next_index s < length (plan_Scopes plan) \<Longrightarrow> \<not> announced s \<Longrightarrow>
     pool_step plan answers s (s\<lparr>announced := True, events := events s @ [started_event plan (next_index s)]\<rparr>)"
| take_job: "next_index s < length (plan_Scopes plan) \<Longrightarrow> announced s \<Longrightarrow>
     w < length (workers s) \<Longrightarrow> workers s ! w = Idle \<Longrightarrow>
     pool_step plan answers s (s\<lparr>workers := (workers s)[w := Busy (next_index s)],
       next_index := Suc (next_index s), announced := False\<rparr>)"
| report: "w < length (workers s) \<Longrightarrow> workers s ! w = Busy i \<Longrightarrow>
     length (channel s) < length (plan_Scopes plan) \<Longrightarrow> answers i a \<Longrightarrow>
     pool_step plan answers s (s\<lparr>workers := (workers s)[w := Idle],
       channel := channel s @ [(i, scanScope (plan_Scopes plan ! i) a)]\<rparr>)"
| exit_worker: "next_index s = length (plan_Scopes plan) \<Longrightarrow>
     w < length (workers s) \<Longrightarrow> workers s ! w = Idle \<Longrightarrow>
     pool_step plan answers s (s\<lparr>workers := (workers s)[w := Exited]\<rparr>)"
| close_channel: "next_index s = length (plan_Scopes plan) \<Longrightarrow>
     (\<forall>x \<in> set (workers s). x = Exited) \<Longrightarrow> \<not> channel_closed s \<Longrightarrow>
     pool_step plan answers s (s\<lparr>channel_closed := True\<rparr>)"

inductive pool_reachable :: "Plan \<Rightarrow> (nat \<Rightarrow> scan_answer \<Rightarrow> bool) \<Rightarrow> nat \<Rightarrow> pool \<Rightarrow> bool"
  for plan answers concurrency where
  start: "pool_reachable plan answers concurrency (pool_init concurrency)"
| step: "pool_reachable plan answers concurrency s \<Longrightarrow> pool_step plan answers s t \<Longrightarrow>
     pool_reachable plan answers concurrency t"

inductive_cases pool_stepE: "pool_step plan answers s t"

text \<open>The results that \<open>dispatchScopes\<close> may deliver before it closes the channel.\<close>

definition dispatchScopes :: "Plan \<Rightarrow> (nat \<Rightarrow> scan_answer \<Rightarrow> bool) \<Rightarrow> nat \<Rightarrow> (nat \<times> ScopeResult) list \<Rightarrow> bool" where
  "dispatchScopes plan answers concurrency results \<longleftrightarrow>
     (\<exists>s. pool_reachable plan answers concurrency s \<and> channel_closed s \<and> channel s = results)"

subsection \<open>The scheduler's invariant\<close>

text \<open>The indices in the workers' hands.\<close>

fun in_hand :: "worker list \<Rightarrow> nat multiset" where
  "in_hand [] = {#}"
| "in_hand (Busy i # ws) = add_mset i (in_hand ws)"
| "in_hand (_ # ws) = in_hand ws"

lemma in_hand_append: "in_hand (xs @ ys) = in_hand xs + in_hand ys"
  by (induction xs rule: in_hand.induct) auto

lemma in_hand_update:
  "w < length ws \<Longrightarrow> in_hand (ws[w := x]) + in_hand [ws ! w] = in_hand ws + in_hand [x]"
proof -
  assume w: "w < length ws"
  have "in_hand (ws[w := x]) = in_hand (take w ws) + (in_hand [x] + in_hand (drop (Suc w) ws))"
    using w by (metis append_Cons append_Nil in_hand_append upd_conv_take_nth_drop)
  moreover have "in_hand ws = in_hand (take w ws) + (in_hand [ws ! w] + in_hand (drop (Suc w) ws))"
    using w by (metis append_Cons append_Nil id_take_nth_drop in_hand_append)
  ultimately show ?thesis by (simp add: ac_simps)
qed

lemma in_hand_replicate [simp]: "in_hand (replicate n Idle) = {#}"
  by (induction n) auto

lemma in_hand_exited: "\<forall>x \<in> set ws. x = Exited \<Longrightarrow> in_hand ws = {#}"
  by (induction ws rule: in_hand.induct) auto

text \<open>
  Every index dispatched so far is in exactly one place: a worker's hands or the channel. Each
  result is filed under the scope it was scanned for, with an answer the provider could give. A
  worker exits, and the channel closes, only after the last index was handed out.
\<close>

definition pool_inv :: "Plan \<Rightarrow> (nat \<Rightarrow> scan_answer \<Rightarrow> bool) \<Rightarrow> nat \<Rightarrow> pool \<Rightarrow> bool" where
  "pool_inv plan answers concurrency s \<longleftrightarrow>
     next_index s \<le> length (plan_Scopes plan) \<and> length (workers s) = concurrency \<and>
     in_hand (workers s) + mset (map fst (channel s)) = mset [0..<next_index s] \<and>
     (\<forall>(i, r) \<in> set (channel s). \<exists>a. answers i a \<and> r = scanScope (plan_Scopes plan ! i) a) \<and>
     (Exited \<in> set (workers s) \<longrightarrow> next_index s = length (plan_Scopes plan)) \<and>
     (channel_closed s \<longrightarrow> next_index s = length (plan_Scopes plan) \<and> (\<forall>x \<in> set (workers s). x = Exited))"

lemma pool_inv_init: "pool_inv plan answers concurrency (pool_init concurrency)"
  by (auto simp: pool_inv_def pool_init_def)

lemma pool_inv_step:
  assumes "pool_step plan answers s t" "pool_inv plan answers c s"
  shows "pool_inv plan answers c t"
  using assms(1)
proof cases
  case announce
  with assms(2) show ?thesis by (auto simp: pool_inv_def)
next
  case (take_job w)
  with assms(2) in_hand_update[of w "workers s" "Busy (next_index s)"] show ?thesis
    by (auto simp: pool_inv_def dest!: set_update_subset_insert[THEN subsetD])
next
  case (report w i a)
  have "Busy i \<in> set (workers s)" using report by (metis nth_mem)
  then have open_: "\<not> channel_closed s" using assms(2) by (auto simp: pool_inv_def)
  have "in_hand ((workers s)[w := Idle]) + {#i#} = in_hand (workers s)"
    using in_hand_update[of w "workers s" Idle] report by simp
  then have "in_hand (workers t) + mset (map fst (channel t)) = mset [0..<next_index t]"
    using assms(2) report by (simp add: pool_inv_def) (metis union_mset_add_mset_left)
  moreover have "Exited \<in> set (workers t) \<longrightarrow> Exited \<in> set (workers s)"
    using report by (auto dest!: set_update_subset_insert[THEN subsetD])
  ultimately show ?thesis using assms(2) report open_ by (auto simp: pool_inv_def)
next
  case (exit_worker w)
  with assms(2) in_hand_update[of w "workers s" Exited] show ?thesis
    by (auto simp: pool_inv_def dest!: set_update_subset_insert[THEN subsetD])
next
  case close_channel
  with assms(2) show ?thesis by (auto simp: pool_inv_def)
qed

lemma pool_reachable_inv: "pool_reachable plan answers c s \<Longrightarrow> pool_inv plan answers c s"
  by (induction rule: pool_reachable.induct) (auto intro: pool_inv_init pool_inv_step)

text \<open>What a closed channel holds: one result per scope, in any order.\<close>

lemma dispatched_results:
  assumes "dispatchScopes plan answers c results"
  shows "mset (map fst results) = mset [0..<length (plan_Scopes plan)]"
    and "\<forall>(i, r) \<in> set results. \<exists>a. answers i a \<and> r = scanScope (plan_Scopes plan ! i) a"
proof -
  from assms obtain s where s: "pool_reachable plan answers c s" "channel_closed s" "channel s = results"
    by (auto simp: dispatchScopes_def)
  from pool_reachable_inv[OF s(1)] s(2,3) in_hand_exited[of "workers s"]
  show "mset (map fst results) = mset [0..<length (plan_Scopes plan)]"
    and "\<forall>(i, r) \<in> set results. \<exists>a. answers i a \<and> r = scanScope (plan_Scopes plan ! i) a"
    by (auto simp: pool_inv_def)
qed

subsection \<open>The scheduler finishes\<close>

text \<open>The steps left: every scope is announced, taken and reported, every worker exits, one close.\<close>

fun worker_left :: "worker \<Rightarrow> nat" where
  "worker_left Idle = 1"
| "worker_left (Busy _) = 2"
| "worker_left Exited = 0"

definition pool_left :: "Plan \<Rightarrow> pool \<Rightarrow> nat" where
  "pool_left plan s = 3 * (length (plan_Scopes plan) - next_index s) - (if announced s then 1 else 0) +
     sum_list (map worker_left (workers s)) + (if channel_closed s then 0 else 1)"

lemma worker_left_update:
  "w < length ws \<Longrightarrow> sum_list (map worker_left (ws[w := x])) + worker_left (ws ! w) =
     sum_list (map worker_left ws) + worker_left x"
  by (induction ws arbitrary: w) (auto split: nat.splits)

lemma pool_step_left: "pool_step plan answers s t \<Longrightarrow> pool_left plan t < pool_left plan s"
proof (induction rule: pool_step.induct)
  case (take_job s w)
  with worker_left_update[of w "workers s" "Busy (next_index s)"] show ?case by (simp add: pool_left_def)
next
  case (report w s i a)
  with worker_left_update[of w "workers s" Idle] show ?case by (simp add: pool_left_def)
next
  case (exit_worker s w)
  with worker_left_update[of w "workers s" Exited] show ?case by (simp add: pool_left_def)
qed (auto simp: pool_left_def)

lemma idle_busy_or_exited:
  "(\<exists>w < length ws. ws ! w = Idle) \<or> (\<exists>w < length ws. \<exists>i. ws ! w = Busy i) \<or> (\<forall>x \<in> set ws. x = Exited)"
proof (cases "\<forall>x \<in> set ws. x = Exited")
  case False
  then obtain w where "w < length ws" "ws ! w \<noteq> Exited" by (metis in_set_conv_nth)
  then show ?thesis by (cases "ws ! w") auto
qed simp

lemma pool_can_step:
  assumes "pool_reachable plan answers c s" "0 < c" "\<not> channel_closed s" "\<And>i. \<exists>a. answers i a"
  shows "\<exists>t. pool_step plan answers s t"
proof -
  let ?n = "length (plan_Scopes plan)"
  note inv = pool_reachable_inv[OF assms(1)]
  consider (idle) w where "w < length (workers s)" "workers s ! w = Idle"
    | (busy) w i where "w < length (workers s)" "workers s ! w = Busy i"
    | (exited) "\<forall>x \<in> set (workers s). x = Exited"
    using idle_busy_or_exited[of "workers s"] by blast
  then show ?thesis
  proof cases
    case idle
    show ?thesis
    proof (cases "next_index s < ?n")
      case True
      with idle show ?thesis by (cases "announced s") (blast intro: pool_step.intros)+
    next
      case False
      with inv have "next_index s = ?n" by (simp add: pool_inv_def)
      with idle show ?thesis by (blast intro: pool_step.exit_worker)
    qed
  next
    case busy
    then have "in_hand ((workers s)[w := Idle]) + {#i#} = in_hand (workers s)"
      using in_hand_update[of w "workers s" Idle] by simp
    then have "0 < size (in_hand (workers s))" by (metis size_single size_union zero_less_Suc add_Suc_right One_nat_def)
    moreover have "size (in_hand (workers s) + mset (map fst (channel s))) = size (mset [0..<next_index s])"
      using inv unfolding pool_inv_def by metis
    ultimately have "length (channel s) < next_index s" by simp
    with inv have "length (channel s) < ?n" by (simp add: pool_inv_def)
    with busy assms(4) show ?thesis by (blast intro: pool_step.report)
  next
    case exited
    have "workers s \<noteq> []" using inv assms(2) by (auto simp: pool_inv_def)
    with exited have "Exited \<in> set (workers s)" by (metis list.set_intros(1) neq_Nil_conv)
    with inv have "next_index s = ?n" by (simp add: pool_inv_def)
    with exited assms(3) show ?thesis by (blast intro: pool_step.close_channel)
  qed
qed

lemma pool_step_wf: "wfP (\<lambda>t s. pool_step plan answers s t)"
  by (rule wfp_if_convertible_to_nat[where f = "pool_left plan"]) (rule pool_step_left)

lemma dispatch_exists:
  assumes "0 < c" "\<And>i. \<exists>a. answers i a"
  shows "\<exists>results. dispatchScopes plan answers c results"
proof -
  have "\<exists>results. dispatchScopes plan answers c results" if "pool_reachable plan answers c s" for s
    using that
  proof (induction "pool_left plan s" arbitrary: s rule: less_induct)
    case less
    show ?case
    proof (cases "channel_closed s")
      case True
      with less.prems show ?thesis unfolding dispatchScopes_def by blast
    next
      case False
      from pool_can_step[OF less.prems assms(1) False assms(2)] obtain t where "pool_step plan answers s t" by blast
      with less show ?thesis by (meson pool_step_left pool_reachable.step)
    qed
  qed
  then show ?thesis using pool_reachable.start by blast
qed

subsection \<open>Collecting the results\<close>

fun collect_loop :: "nat \<Rightarrow> (nat \<times> ScopeResult) list \<Rightarrow> ScopeResult list \<Rightarrow> nat \<Rightarrow> (ScopeResult list \<times> nat) panics" where
  "collect_loop n [] collected received = Some (collected, received)"
| "collect_loop n ((index, result) # results) collected received = do {
     assert_That (index < n);
     collect_loop n results (collected[index := result]) (Suc received)
   }"

definition collectScopeResults :: "(nat \<times> ScopeResult) list \<Rightarrow> string list \<Rightarrow> ScopeResult list panics" where
  "collectScopeResults results scopes = do {
     (collected, received) \<leftarrow> collect_loop (length scopes) results (replicate (length scopes) ScopeResult_zero) 0;
     assert_That (received = length scopes);
     assert_That (list_all2 (\<lambda>result scope. sr_Scope result = scope) collected scopes);
     Some collected
   }"

lemma collect_loop_spec:
  "distinct (map fst rs) \<Longrightarrow> fst ` set rs \<subseteq> {..<n} \<Longrightarrow> length col = n \<Longrightarrow>
   \<exists>col'. collect_loop n rs col k = Some (col', k + length rs) \<and> length col' = n \<and>
     (\<forall>(i, r) \<in> set rs. col' ! i = r) \<and> (\<forall>i < n. i \<notin> fst ` set rs \<longrightarrow> col' ! i = col ! i)"
proof (induction rs arbitrary: col k)
  case (Cons p rs)
  obtain i r where p: "p = (i, r)" by force
  from Cons.prems p obtain col' where "collect_loop n rs (col[i := r]) (Suc k) = Some (col', Suc k + length rs)"
    "length col' = n" "\<forall>(i, r) \<in> set rs. col' ! i = r" "\<forall>j < n. j \<notin> fst ` set rs \<longrightarrow> col' ! j = col[i := r] ! j"
    using Cons.IH[of "col[i := r]" "Suc k"] by auto
  with Cons.prems p show ?case by auto
qed simp

text \<open>Whatever the schedule, the collected list holds each scope's own answer, in requested order.\<close>

lemma collect_dispatched:
  assumes "dispatchScopes plan answers c results"
  shows "\<exists>reply. (\<forall>i < length (plan_Scopes plan). answers i (reply i)) \<and>
     collectScopeResults results (plan_Scopes plan) =
       Some (map (\<lambda>i. scanScope (plan_Scopes plan ! i) (reply i)) [0..<length (plan_Scopes plan)])"
proof -
  let ?n = "length (plan_Scopes plan)"
  note d = dispatched_results[OF assms]
  have dist: "distinct (map fst results)" using mset_eq_imp_distinct_iff[OF d(1)] by simp
  have keys: "fst ` set results = {..<?n}" using mset_eq_setD[OF d(1)] by (simp add: atLeast0LessThan)
  have len: "length results = ?n" using mset_eq_length[OF d(1)] by simp
  from collect_loop_spec[OF dist, of ?n "replicate ?n ScopeResult_zero" 0] keys len obtain col where
    col: "collect_loop ?n results (replicate ?n ScopeResult_zero) 0 = Some (col, ?n)" "length col = ?n"
      "\<forall>(i, r) \<in> set results. col ! i = r" by auto
  have "\<exists>a. answers i a \<and> col ! i = scanScope (plan_Scopes plan ! i) a" if "i < ?n" for i
  proof -
    from that keys obtain r where "(i, r) \<in> set results" by (metis imageE lessThan_iff prod.collapse)
    with d(2) col(3) show ?thesis by fastforce
  qed
  then obtain reply where reply: "\<And>i. i < ?n \<Longrightarrow> answers i (reply i) \<and> col ! i = scanScope (plan_Scopes plan ! i) (reply i)"
    by metis
  have "col = map (\<lambda>i. scanScope (plan_Scopes plan ! i) (reply i)) [0..<?n]"
    using reply col(2) by (intro nth_equalityI) auto
  moreover have "list_all2 (\<lambda>r s. sr_Scope r = s) col (plan_Scopes plan)"
    using reply col(2) by (auto simp: list_all2_conv_all_nth)
  ultimately show ?thesis using col(1) reply by (auto simp: collectScopeResults_def)
qed

subsection \<open>Aggregation\<close>

definition resource_key :: "pb_Resource \<Rightarrow> string" where
  "resource_key r = strings_Join [res_Provider r, res_AccountId r, res_Type r, res_Id r] [CHR 0x00]"

fun dedupe_loop :: "string list \<Rightarrow> pb_Resource option list \<Rightarrow> pb_Resource option list" where
  "dedupe_loop seen [] = []"
| "dedupe_loop seen (None # resources) = dedupe_loop seen resources"
| "dedupe_loop seen (Some resource # resources) =
     (let key = resource_key resource in
      if key \<in> set seen then dedupe_loop seen resources
      else Some resource # dedupe_loop (key # seen) resources)"

definition dedupeResources :: "pb_Resource option list \<Rightarrow> pb_Resource option list" where
  "dedupeResources resources = dedupe_loop [] resources"

definition merge_service_counts :: "(string \<rightharpoonup> 32 word) \<Rightarrow> (string \<rightharpoonup> 32 word) \<Rightarrow> (string \<rightharpoonup> 32 word)" where
  "merge_service_counts acc counts = (\<lambda>service. case counts service of
       None \<Rightarrow> acc service
     | Some k \<Rightarrow> Some ((case acc service of None \<Rightarrow> 0 | Some n \<Rightarrow> n) + k))"

definition merge_stats :: "pb_ScanStats \<Rightarrow> pb_ScanStats option \<Rightarrow> pb_ScanStats" where
  "merge_stats acc stats = (case stats of None \<Rightarrow> acc
     | Some s \<Rightarrow> acc\<lparr>stats_FailedResources := stats_FailedResources acc + stats_FailedResources s,
         stats_DurationMs := stats_DurationMs acc + stats_DurationMs s,
         stats_ServiceCounts := merge_service_counts (stats_ServiceCounts acc) (stats_ServiceCounts s)\<rparr>)"

definition completed_event :: "Plan \<Rightarrow> nat \<Rightarrow> ScopeResult \<Rightarrow> Event" where
  "completed_event plan index result =
     \<lparr>ev_Kind = (if sr_Errors result \<noteq> [] then EventScopeFailed else EventScopeCompleted),
      ev_Provider = plan_Provider plan, ev_Scope = sr_Scope result, ev_Completed = index + 1,
      ev_Total = length (plan_Scopes plan),
      ev_Message = (if sr_Errors result \<noteq> [] then strings_Join (sr_Errors result) ''; '' else [])\<rparr>"

text \<open>The loop's variables: the merged resources and stats, the failed scopes, the count of
  unreachable ones, the events sent.\<close>

record aggregate =
  agg_Resources :: "pb_Resource option list"
  agg_Stats :: pb_ScanStats
  agg_failed :: "string list"
  agg_unreachable :: nat
  agg_events :: "Event list"

definition aggregate_scope :: "Plan \<Rightarrow> nat \<Rightarrow> ScopeResult \<Rightarrow> aggregate \<Rightarrow> aggregate" where
  "aggregate_scope plan index result a =
     \<lparr>agg_Resources = agg_Resources a @ sr_Resources result,
      agg_Stats = merge_stats (agg_Stats a) (sr_Stats result),
      agg_failed = (if sr_Errors result \<noteq> [] then agg_failed a @ [sr_Scope result] else agg_failed a),
      agg_unreachable = (if sr_Unreachable result then agg_unreachable a + 1 else agg_unreachable a),
      agg_events = agg_events a @ [completed_event plan index result]\<rparr>"

fun aggregate_loop :: "Plan \<Rightarrow> nat \<Rightarrow> ScopeResult list \<Rightarrow> aggregate \<Rightarrow> aggregate" where
  "aggregate_loop plan index [] a = a"
| "aggregate_loop plan index (result # results) a =
     aggregate_loop plan (Suc index) results (aggregate_scope plan index result a)"

definition aggregate_zero :: aggregate where
  "aggregate_zero = \<lparr>agg_Resources = [], agg_Stats = \<lparr>stats_TotalResources = 0, stats_FailedResources = 0,
     stats_DurationMs = 0, stats_ServiceCounts = Map.empty\<rparr>, agg_failed = [], agg_unreachable = 0, agg_events = []\<rparr>"

definition assertMergedTotal :: "ScopeResult list \<Rightarrow> pb_Resource option list \<Rightarrow> unit panics" where
  "assertMergedTotal scopes merged =
     assert_That (sum_list (map (\<lambda>scope. length (sr_Resources scope)) scopes) = length merged)"

definition aggregateScopes :: "Plan \<Rightarrow> ScopeResult list \<Rightarrow> aggregate panics" where
  "aggregateScopes plan scopes = do {
     let a = aggregate_loop plan 0 scopes aggregate_zero;
     assertMergedTotal scopes (agg_Resources a);
     let merged = length (agg_Resources a);
     let resources = dedupeResources (agg_Resources a);
     assert_That (length resources \<le> merged);
     assert_That (agg_unreachable a \<le> length (agg_failed a));
     Some (a\<lparr>agg_Resources := resources,
             agg_Stats := (agg_Stats a)\<lparr>stats_TotalResources := word_of_nat (length resources)\<rparr>\<rparr>)
   }"

subsection \<open>Execute\<close>

definition exec_concurrency :: "Plan \<Rightarrow> nat" where
  "exec_concurrency plan = (let
     concurrency = plan_MaxConcurrency plan;
     concurrency = (if concurrency \<le> 0 then 1 else concurrency);
     concurrency = (if concurrency > int (length (plan_Scopes plan)) then int (length (plan_Scopes plan)) else concurrency)
   in nat concurrency)"

definition exec_timeout :: "Plan \<Rightarrow> int" where
  "exec_timeout plan = (if plan_ScopeTimeout plan \<le> 0 then 5 * 60 * 1000000000 else plan_ScopeTimeout plan)"

text \<open>
  \<open>Execute\<close> given what the results channel delivered, the error of the context once the scopes
  are aggregated, and the elapsed time.
\<close>

definition Execute :: "bool \<Rightarrow> Plan \<Rightarrow> (nat \<times> ScopeResult) list \<Rightarrow> string option \<Rightarrow> int \<Rightarrow>
    (Outcome \<times> exec_error option) panics" where
  "Execute scanner_nil plan results ctx_err elapsed =
     (if scanner_nil then Some (Outcome_failed, Some BatchScannerRequired)
      else if plan_Scopes plan = [] then Some (Outcome_failed, Some PlanHasNoScopes)
      else do {
        assert_That (exec_concurrency plan > 0);
        assert_That (exec_concurrency plan \<le> length (plan_Scopes plan));
        scopes \<leftarrow> collectScopeResults results (plan_Scopes plan);
        a \<leftarrow> aggregateScopes plan scopes;
        let outcome = \<lparr>out_Status = StatusUnset, out_Resources = agg_Resources a, out_Scopes = scopes,
          out_Stats = Some (agg_Stats a), out_Duration = elapsed\<rparr>;
        (case ctx_err of
           Some e \<Rightarrow> Some (outcome\<lparr>out_Status := StatusFailed\<rparr>, Some (ContextError e))
         | None \<Rightarrow>
             if agg_failed a \<noteq> [] then
               (let failed = sort (agg_failed a) in
                if agg_unreachable a = length (plan_Scopes plan)
                then Some (outcome\<lparr>out_Status := StatusFailed\<rparr>, Some (PartialError failed))
                else Some (outcome\<lparr>out_Status := StatusPartial\<rparr>, Some (PartialError failed)))
             else Some (outcome\<lparr>out_Status := StatusComplete\<rparr>, None))
      })"

subsection \<open>What the aggregation computes\<close>

lemma dedupe_loop_dedupe_by:
  "dedupe_loop seen rs = map Some (dedupe_by resource_key seen (List.map_filter id rs))"
  by (induction seen rs rule: dedupe_loop.induct) (auto simp: Let_def map_filter_simps)

lemma length_map_filter_id: "length (List.map_filter id rs) \<le> length rs"
  by (induction rs) (auto simp: map_filter_simps split: option.splits)

lemma dedupeResources_length: "length (dedupeResources rs) \<le> length rs"
  using dedupe_by_length[of resource_key "[]" "List.map_filter id rs"] length_map_filter_id[of rs]
  by (simp add: dedupeResources_def dedupe_loop_dedupe_by)

lemma aggregate_loop_fields:
  "agg_Resources (aggregate_loop plan k rs a) = agg_Resources a @ concat (map sr_Resources rs)"
  "agg_failed (aggregate_loop plan k rs a) = agg_failed a @ map sr_Scope (filter (\<lambda>r. sr_Errors r \<noteq> []) rs)"
  "agg_unreachable (aggregate_loop plan k rs a) = agg_unreachable a + length (filter sr_Unreachable rs)"
  by (induction rs arbitrary: a k) (auto simp: aggregate_scope_def)

lemma unreachable_le_failed:
  "(\<And>r. r \<in> set rs \<Longrightarrow> sr_Unreachable r \<Longrightarrow> sr_Errors r \<noteq> []) \<Longrightarrow>
   length (filter sr_Unreachable rs) \<le> length (filter (\<lambda>r. sr_Errors r \<noteq> []) rs)"
  by (induction rs) (auto intro: le_SucI)

lemma all_unreachable: "length (filter sr_Unreachable rs) = length rs \<longleftrightarrow> (\<forall>r \<in> set rs. sr_Unreachable r)"
  by (metis filter_id_conv filter_True length_filter_less nat_neq_iff)

lemma aggregateScopes_returns:
  assumes "\<And>r. r \<in> set rs \<Longrightarrow> sr_Unreachable r \<Longrightarrow> sr_Errors r \<noteq> []"
  shows "\<exists>a. aggregateScopes plan rs = Some a \<and>
     agg_Resources a = dedupeResources (concat (map sr_Resources rs)) \<and>
     agg_failed a = map sr_Scope (filter (\<lambda>r. sr_Errors r \<noteq> []) rs) \<and>
     agg_unreachable a = length (filter sr_Unreachable rs)"
  using unreachable_le_failed[OF assms]
  by (simp add: aggregateScopes_def assertMergedTotal_def aggregate_loop_fields aggregate_zero_def
      length_concat comp_def dedupeResources_length Let_def)

lemma exec_concurrency_bounds:
  "plan_Scopes plan \<noteq> [] \<Longrightarrow> 0 < exec_concurrency plan \<and> exec_concurrency plan \<le> length (plan_Scopes plan)"
  by (simp add: exec_concurrency_def Let_def) (auto simp: Suc_le_eq)

text \<open>
  C5. The scheduler never deadlocks and never runs for ever: from every reachable state of the pool,
  as long as the provider answers every scope, either the results channel is closed or some step is
  possible, every sequence of steps is finite, and some closed state is reached.
\<close>

theorem dispatch_finishes:
  assumes "pool_reachable plan answers c s" "0 < c" "\<And>i. \<exists>a. answers i a"
  shows "(channel_closed s \<or> (\<exists>t. pool_step plan answers s t)) \<and>
     wfP (\<lambda>t s. pool_step plan answers s t) \<and> (\<exists>results. dispatchScopes plan answers c results)"
  using pool_can_step[OF assms(1,2) _ assms(3)] pool_step_wf[of plan answers]
    dispatch_exists[OF assms(2), of answers plan] assms(3) by blast

text \<open>
  C1. The outcome of a scan does not depend on the schedule. For every interleaving of the workers
  and whatever the provider answered, \<open>collectScopeResults\<close> does not panic (no result is missing,
  misfiled or duplicated) and returns the scopes in requested order, each with the result of its own
  answer; a provider that answers scopes deterministically gives every run the same list.
\<close>

theorem scan_schedule_independent:
  assumes "dispatchScopes plan answers c results"
  shows "\<exists>reply. (\<forall>i < length (plan_Scopes plan). answers i (reply i)) \<and>
     collectScopeResults results (plan_Scopes plan) =
       Some (map (\<lambda>i. scanScope (plan_Scopes plan ! i) (reply i)) [0..<length (plan_Scopes plan)])"
  using assms by (rule collect_dispatched)

text \<open>What an execution returns, whatever the schedule.\<close>

lemma execution_outcome:
  assumes "plan_Scopes plan \<noteq> []" "dispatchScopes plan answers (exec_concurrency plan) results"
  shows "\<exists>out err. Execute False plan results ctx elapsed = Some (out, err) \<and>
     map sr_Scope (out_Scopes out) = plan_Scopes plan \<and>
     out_Resources out = dedupeResources (concat (map sr_Resources (out_Scopes out))) \<and>
     (out_Status out = StatusComplete \<longleftrightarrow> ctx = None \<and> (\<forall>r \<in> set (out_Scopes out). sr_Errors r = [])) \<and>
     (out_Status out = StatusFailed \<longleftrightarrow> ctx \<noteq> None \<or> (\<forall>r \<in> set (out_Scopes out). sr_Unreachable r)) \<and>
     out_Status out \<noteq> StatusUnset \<and> (err = None \<longleftrightarrow> out_Status out = StatusComplete) \<and>
     (ctx = None \<and> err \<noteq> None \<longrightarrow>
        err = Some (PartialError (sort (map sr_Scope (filter (\<lambda>r. sr_Errors r \<noteq> []) (out_Scopes out))))))"
proof -
  from collect_dispatched[OF assms(2)] obtain reply where
    coll: "collectScopeResults results (plan_Scopes plan) =
       Some (map (\<lambda>i. scanScope (plan_Scopes plan ! i) (reply i)) [0..<length (plan_Scopes plan)])" by blast
  define rs where "rs = map (\<lambda>i. scanScope (plan_Scopes plan ! i) (reply i)) [0..<length (plan_Scopes plan)]"
  have scopes: "map sr_Scope rs = plan_Scopes plan" by (simp add: rs_def comp_def map_nth)
  have len: "length rs = length (plan_Scopes plan)" by (simp add: rs_def)
  have ne: "rs \<noteq> []" using assms(1) len by auto
  have unr: "sr_Errors r \<noteq> []" if "r \<in> set rs" "sr_Unreachable r" for r
    using that scanScope_unreachable by (auto simp: rs_def)
  from aggregateScopes_returns[OF unr] obtain a where a: "aggregateScopes plan rs = Some a"
    "agg_Resources a = dedupeResources (concat (map sr_Resources rs))"
    "agg_failed a = map sr_Scope (filter (\<lambda>r. sr_Errors r \<noteq> []) rs)"
    "agg_unreachable a = length (filter sr_Unreachable rs)" by blast
  have failed: "agg_failed a = [] \<longleftrightarrow> (\<forall>r \<in> set rs. sr_Errors r = [])" by (auto simp: a(3) filter_empty_conv)
  have all_unr: "agg_unreachable a = length (plan_Scopes plan) \<longleftrightarrow> (\<forall>r \<in> set rs. sr_Unreachable r)"
    using all_unreachable[of rs] by (simp add: a(4) len)
  from ne unr have ex: "(\<forall>r \<in> set rs. sr_Unreachable r) \<Longrightarrow> \<not> (\<forall>r \<in> set rs. sr_Errors r = [])" by fastforce
  show ?thesis
  proof (cases ctx)
    case (Some e)
    with assms(1) exec_concurrency_bounds[OF assms(1)] coll a scopes show ?thesis
      by (simp add: Execute_def flip: rs_def)
  next
    case None
    with assms(1) exec_concurrency_bounds[OF assms(1)] coll a scopes failed all_unr ex show ?thesis
      by (simp add: Execute_def flip: rs_def) (auto simp: Let_def)
  qed
qed


text \<open>The identity by which resources are merged, and when the joined key is that identity.\<close>

definition resource_identity :: "pb_Resource \<Rightarrow> string list" where
  "resource_identity r = [res_Provider r, res_AccountId r, res_Type r, res_Id r]"

definition identity_nul_free :: "pb_Resource \<Rightarrow> bool" where
  "identity_nul_free r \<longleftrightarrow> (\<forall>part \<in> set (resource_identity r). CHR 0x00 \<notin> set part)"

lemma resource_key_identity:
  assumes "identity_nul_free x" "identity_nul_free y"
  shows "resource_key x = resource_key y \<longleftrightarrow> resource_identity x = resource_identity y"
proof -
  have "strings_Split (resource_key r) (CHR 0x00) = resource_identity r" if "identity_nul_free r" for r
    using that unfolding resource_key_def resource_identity_def identity_nul_free_def by (intro Split_Join) auto
  with assms show ?thesis by (metis resource_identity_def resource_key_def)
qed

lemma find_cong_on: "(\<And>x. x \<in> set xs \<Longrightarrow> P x = Q x) \<Longrightarrow> find P xs = find Q xs"
  by (induction xs) auto

lemma in_map_filter_id [simp]: "r \<in> set (List.map_filter id rs) \<longleftrightarrow> Some r \<in> set rs"
  by (induction rs) (auto simp: map_filter_simps split: option.splits)

text \<open>
  Where no identity field holds a NUL byte, deduplication drops the nil entries, leaves no two
  resources with the same provider, account, type and id, and keeps for each identity the first
  resource of the merged list, which is the one from the earliest requested scope.
\<close>

lemma dedupeResources_first_wins:
  assumes "\<And>r. Some r \<in> set rs \<Longrightarrow> identity_nul_free r"
  shows "\<exists>xs. dedupeResources rs = map Some xs \<and> distinct (map resource_identity xs) \<and>
     (\<forall>i. find (\<lambda>r. resource_identity r = i) xs =
          find (\<lambda>r. resource_identity r = i) (List.map_filter id rs))"
proof (intro exI conjI allI)
  let ?ys = "List.map_filter id rs"
  define xs where "xs = dedupe_by resource_key [] ?ys"
  show "dedupeResources rs = map Some xs" by (simp add: dedupeResources_def dedupe_loop_dedupe_by xs_def)
  have sub: "set xs \<subseteq> set ?ys" unfolding xs_def by (rule dedupe_by_subset)
  have inj: "resource_key x = resource_key y \<longleftrightarrow> resource_identity x = resource_identity y"
    if "x \<in> set ?ys" "y \<in> set ?ys" for x y
    using that assms by (intro resource_key_identity) auto
  have "distinct (map resource_key xs)" unfolding xs_def by (rule dedupe_by_distinct)
  then have d: "distinct xs" and io: "inj_on resource_key (set xs)" by (simp_all only: distinct_map)
  have "inj_on resource_identity (set xs)"
    by (rule inj_onI) (metis io inj_onD inj subsetD[OF sub])
  with d show "distinct (map resource_identity xs)" by (simp only: distinct_map)
  fix i
  show "find (\<lambda>r. resource_identity r = i) xs = find (\<lambda>r. resource_identity r = i) ?ys"
  proof (cases "\<exists>y \<in> set ?ys. resource_identity y = i")
    case True
    then obtain y where y: "y \<in> set ?ys" "resource_identity y = i" by blast
    have eq: "find (\<lambda>r. resource_identity r = i) zs = find (\<lambda>r. resource_key r = resource_key y) zs"
      if "set zs \<subseteq> set ?ys" for zs
      using that inj y by (intro find_cong_on) auto
    show ?thesis using dedupe_by_first[of "resource_key y" "[]" resource_key ?ys] eq[OF sub] eq[of ?ys]
      by (simp add: xs_def)
  next
    case False
    with sub have "find (\<lambda>r. resource_identity r = i) xs = None" "find (\<lambda>r. resource_identity r = i) ?ys = None"
      by (auto simp: find_None_iff)
    then show ?thesis by simp
  qed
qed

text \<open>
  C8. A scan that claims completeness observed everything: every scope of the plan was answered with
  a response, every entry of that response is a notice, and every resource of the response is in the
  outcome under its identity.
\<close>

theorem complete_scan_observed_everything:
  assumes "plan_Scopes plan \<noteq> []" "dispatchScopes plan answers (exec_concurrency plan) results"
    and "Execute False plan results ctx elapsed = Some (out, err)" "out_Status out = StatusComplete"
    and "i < length (plan_Scopes plan)"
  shows "\<exists>response d. answers i (Answer (Inr (Some response)) d) \<and>
     (\<forall>e \<in> set (resp_Errors response). IsScanNotice e) \<and>
     (\<forall>r. Some r \<in> set (resp_Resources response) \<longrightarrow>
        (\<exists>r'. Some r' \<in> set (out_Resources out) \<and> resource_key r' = resource_key r))"
proof -
  from collect_dispatched[OF assms(2)] obtain reply where r: "\<forall>i < length (plan_Scopes plan). answers i (reply i)"
    and coll: "collectScopeResults results (plan_Scopes plan) =
       Some (map (\<lambda>i. scanScope (plan_Scopes plan ! i) (reply i)) [0..<length (plan_Scopes plan)])" by blast
  from assms(1,3) coll have scopes: "out_Scopes out =
      map (\<lambda>i. scanScope (plan_Scopes plan ! i) (reply i)) [0..<length (plan_Scopes plan)]"
    by (auto simp: Execute_def panics_iff Let_def split: option.splits if_splits)
  from execution_outcome[OF assms(1,2), of ctx elapsed] assms(3,4)
  have noerr: "\<forall>x \<in> set (out_Scopes out). sr_Errors x = []"
    and res: "out_Resources out = dedupeResources (concat (map sr_Resources (out_Scopes out)))" by auto
  let ?s = "scanScope (plan_Scopes plan ! i) (reply i)"
  have mem: "?s \<in> set (out_Scopes out)" using assms(5) scopes by auto
  with noerr have e: "sr_Errors ?s = []" by blast
  from scanScope_no_errors[OF e] obtain response d where a: "reply i = Answer (Inr (Some response)) d"
    and notices: "\<forall>e \<in> set (resp_Errors response). IsScanNotice e"
    and rr: "sr_Resources ?s = resp_Resources response" by blast
  have "\<exists>r'. Some r' \<in> set (out_Resources out) \<and> resource_key r' = resource_key r"
    if "Some r \<in> set (resp_Resources response)" for r
  proof -
    have "Some r \<in> set (sr_Resources ?s)" using that rr by (simp only:)
    with mem have "Some r \<in> set (concat (map sr_Resources (out_Scopes out)))" by (simp only: set_concat set_map) blast
    then have "resource_key r \<in> resource_key ` set (dedupe_by resource_key []
        (List.map_filter id (concat (map sr_Resources (out_Scopes out)))))"
      by (simp only: dedupe_by_keys in_map_filter_id) (auto intro!: rev_image_eqI)
    then show ?thesis unfolding res dedupeResources_def dedupe_loop_dedupe_by by force
  qed
  with r a notices assms(5) show ?thesis by metis
qed

subsection \<open>Witnesses\<close>

definition demo_plan :: Plan where
  "demo_plan = \<lparr>plan_Provider = ''aws'', plan_Scopes = [''eu'', ''us''], plan_Services = [''s3''],
     plan_Filters = Map.empty, plan_IncludeRelationships = False, plan_MaxConcurrency = 4, plan_ScopeTimeout = 0\<rparr>"

definition demo_bucket :: pb_Resource where
  "demo_bucket = pb_Resource_zero\<lparr>res_Provider := ''aws'', res_Type := ''Bucket'', res_Id := ''b''\<rparr>"

definition demo_reply :: "string list \<Rightarrow> nat \<Rightarrow> scan_answer" where
  "demo_reply entries i = Answer (Inr (Some \<lparr>resp_Resources = [Some demo_bucket, None], resp_Stats = None,
     resp_Errors = (if i = 0 then [''access_denied:kms: no''] else entries)\<rparr>)) 7"

abbreviation demo_answers :: "string list \<Rightarrow> nat \<Rightarrow> scan_answer \<Rightarrow> bool" where
  "demo_answers entries i a \<equiv> a = demo_reply entries i"

lemma demo_concurrency: "exec_concurrency demo_plan = 2"
  by (simp add: exec_concurrency_def demo_plan_def)

lemma demo_dispatch: "\<exists>results. dispatchScopes demo_plan (demo_answers entries) (exec_concurrency demo_plan) results"
  by (rule dispatch_exists) (auto simp: demo_concurrency)

theorem scan_schedule_independent_witness:
  "\<exists>results. dispatchScopes demo_plan (demo_answers []) 2 results \<and>
     collectScopeResults results [''eu'', ''us''] =
       Some [scanScope ''eu'' (demo_reply [] 0), scanScope ''us'' (demo_reply [] 1)]"
proof -
  from demo_dispatch obtain results where d: "dispatchScopes demo_plan (demo_answers []) 2 results"
    unfolding demo_concurrency by blast
  from scan_schedule_independent[OF d] show ?thesis
    using d by (auto simp: demo_plan_def upt_rec)
qed

theorem dispatch_finishes_witness:
  "(\<exists>t. pool_step demo_plan (demo_answers []) (pool_init 2) t) \<and>
   (\<exists>results. dispatchScopes demo_plan (demo_answers []) 2 results)"
  using dispatch_finishes[OF pool_reachable.start, of 2 "demo_answers []" demo_plan]
  by (auto simp: pool_init_def)


lemma dedupeResources_first_wins_witness:
  "\<exists>xs. dedupeResources [None, Some demo_bucket, Some (demo_bucket\<lparr>res_Name := ''later''\<rparr>)] = map Some xs \<and>
     distinct (map resource_identity xs)"
proof -
  have h: "identity_nul_free r" if "Some r \<in> set [None, Some demo_bucket, Some (demo_bucket\<lparr>res_Name := ''later''\<rparr>)]" for r
  proof -
    from that have "r = demo_bucket \<or> r = demo_bucket\<lparr>res_Name := ''later''\<rparr>" by auto
    then show ?thesis
      by (elim disjE) (simp_all add: identity_nul_free_def resource_identity_def demo_bucket_def pb_Resource_zero_def)
  qed
  from dedupeResources_first_wins[OF h] show ?thesis by blast
qed

theorem complete_scan_observed_everything_witness:
  "\<exists>results out err response d. dispatchScopes demo_plan (demo_answers []) 2 results \<and>
     Execute False demo_plan results None 9 = Some (out, err) \<and> out_Status out = StatusComplete \<and>
     demo_answers [] 1 (Answer (Inr (Some response)) d) \<and>
     (\<exists>r'. Some r' \<in> set (out_Resources out) \<and> resource_key r' = resource_key demo_bucket)"
proof -
  from demo_dispatch obtain results where d: "dispatchScopes demo_plan (demo_answers []) (exec_concurrency demo_plan) results"
    by blast
  have ne: "plan_Scopes demo_plan \<noteq> []" and l: "1 < length (plan_Scopes demo_plan)" by (simp_all add: demo_plan_def)
  from collect_dispatched[OF d] have coll: "collectScopeResults results (plan_Scopes demo_plan) =
      Some (map (\<lambda>i. scanScope (plan_Scopes demo_plan ! i) (demo_reply [] i)) [0..<length (plan_Scopes demo_plan)])"
    by (smt (verit, best) atLeastLessThan_iff map_cong set_upt)
  have "\<exists>out err. Execute False demo_plan results None 9 = Some (out, err) \<and> out_Status out = StatusComplete"
    unfolding Execute_def coll
    by (simp add: demo_plan_def demo_concurrency[unfolded demo_plan_def] upt_rec demo_reply_def aggregateScopes_def
        assertMergedTotal_def aggregate_scope_def aggregate_zero_def dedupeResources_def resource_key_def
        ScopeResult_zero_def IsScanNotice_def IsCoverageNotice_def scan_prefix_defs Let_def)
  then obtain out err where x: "Execute False demo_plan results None 9 = Some (out, err)" "out_Status out = StatusComplete"
    by blast
  from complete_scan_observed_everything[OF ne d x l] d x show ?thesis
    unfolding demo_concurrency by (fastforce simp: demo_reply_def)
qed

end
