(* ===== verification/Sha256.thy ===== *)
theory Sha256 imports Prelude "HOL-Library.Word" begin

text \<open>
  The digest the program takes from Go's crypto/sha256 and prints with encoding/hex: FIPS 180-4
  SHA-256 on 32-bit words. A finding's fingerprint, a scan's scope key and the checksum of a
  downloaded pack are this function. Nothing in the development assumes it is free of collisions.
\<close>

unbundle bit_operations_syntax

text \<open>
  The round constants are the first 32 bits of the fractional parts of the cube roots of the first 64
  primes, the initial state those of the square roots of the first 8.
\<close>

definition sha256_K :: "32 word list" where
  "sha256_K = [
     1116352408, 1899447441, 3049323471, 3921009573, 961987163, 1508970993, 2453635748, 2870763221,
     3624381080, 310598401, 607225278, 1426881987, 1925078388, 2162078206, 2614888103, 3248222580,
     3835390401, 4022224774, 264347078, 604807628, 770255983, 1249150122, 1555081692, 1996064986,
     2554220882, 2821834349, 2952996808, 3210313671, 3336571891, 3584528711, 113926993, 338241895,
     666307205, 773529912, 1294757372, 1396182291, 1695183700, 1986661051, 2177026350, 2456956037,
     2730485921, 2820302411, 3259730800, 3345764771, 3516065817, 3600352804, 4094571909, 275423344,
     430227734, 506948616, 659060556, 883997877, 958139571, 1322822218, 1537002063, 1747873779,
     1955562222, 2024104815, 2227730452, 2361852424, 2428436474, 2756734187, 3204031479, 3329325298]"

definition sha256_init :: "32 word list" where
  "sha256_init = [1779033703, 3144134277, 1013904242, 2773480762,
                  1359893119, 2600822924, 528734635, 1541459225]"

definition small_sigma0 :: "32 word \<Rightarrow> 32 word" where
  "small_sigma0 x = word_rotr 7 x XOR word_rotr 18 x XOR drop_bit 3 x"

definition small_sigma1 :: "32 word \<Rightarrow> 32 word" where
  "small_sigma1 x = word_rotr 17 x XOR word_rotr 19 x XOR drop_bit 10 x"

definition big_sigma0 :: "32 word \<Rightarrow> 32 word" where
  "big_sigma0 x = word_rotr 2 x XOR word_rotr 13 x XOR word_rotr 22 x"

definition big_sigma1 :: "32 word \<Rightarrow> 32 word" where
  "big_sigma1 x = word_rotr 6 x XOR word_rotr 11 x XOR word_rotr 25 x"

text \<open>The message schedule: 16 words of the block extended to 64.\<close>

fun sha256_schedule :: "nat \<Rightarrow> 32 word list \<Rightarrow> 32 word list" where
  "sha256_schedule 0 ws = ws"
| "sha256_schedule (Suc k) ws = (let t = length ws in
     sha256_schedule k (ws @ [small_sigma1 (ws ! (t - 2)) + ws ! (t - 7) + small_sigma0 (ws ! (t - 15)) + ws ! (t - 16)]))"

fun sha256_round :: "32 word list \<Rightarrow> 32 word \<times> 32 word \<Rightarrow> 32 word list" where
  "sha256_round [a, b, c, d, e, f, g, h] (k, w) = (let
      t1 = h + big_sigma1 e + ((e AND f) XOR (NOT e AND g)) + k + w;
      t2 = big_sigma0 a + ((a AND b) XOR (a AND c) XOR (b AND c))
    in [t1 + t2, a, b, c, d + t1, e, f, g])"
| "sha256_round st _ = st"

fun words_of_bytes :: "8 word list \<Rightarrow> 32 word list" where
  "words_of_bytes (a # b # c # d # bs) =
     (push_bit 24 (ucast a) OR push_bit 16 (ucast b) OR push_bit 8 (ucast c) OR ucast d) # words_of_bytes bs"
| "words_of_bytes _ = []"

definition sha256_block :: "32 word list \<Rightarrow> 8 word list \<Rightarrow> 32 word list" where
  "sha256_block st block = map2 (+) st (foldl sha256_round st (zip sha256_K (sha256_schedule 48 (words_of_bytes block))))"

definition bytes_of_word :: "nat \<Rightarrow> nat \<Rightarrow> 8 word list" where
  "bytes_of_word n x = map (\<lambda>i. word_of_nat (x div 256 ^ (n - 1 - i))) [0..<n]"

definition sha256_pad :: "8 word list \<Rightarrow> 8 word list" where
  "sha256_pad msg = msg @ [0x80] @ replicate ((119 - length msg mod 64) mod 64) 0 @ bytes_of_word 8 (8 * length msg)"

function sha256_blocks :: "32 word list \<Rightarrow> 8 word list \<Rightarrow> 32 word list" where
  "sha256_blocks st bs = (if length bs < 64 then st
     else sha256_blocks (sha256_block st (take 64 bs)) (drop 64 bs))"
  by auto
termination by (relation "measure (\<lambda>(st, bs). length bs)") auto

declare sha256_blocks.simps [simp del]

definition sha256_sum :: "string \<Rightarrow> 8 word list" where
  "sha256_sum s = concat (map (\<lambda>w. bytes_of_word 4 (unat w)) (sha256_blocks sha256_init (sha256_pad (map of_char s))))"

definition hex_digit :: "nat \<Rightarrow> char" where
  "hex_digit n = ''0123456789abcdef'' ! n"

definition hex_EncodeToString :: "8 word list \<Rightarrow> string" where
  "hex_EncodeToString bs = concat (map (\<lambda>b. [hex_digit (unat b div 16), hex_digit (unat b mod 16)]) bs)"

definition sha256_hex :: "string \<Rightarrow> string" where
  "sha256_hex s = hex_EncodeToString (sha256_sum s)"

subsection \<open>The shape of a digest\<close>

lemma sha256_round_length [simp]: "length (sha256_round st kw) = length st"
  by (cases "(st, kw)" rule: sha256_round.cases) (auto simp: Let_def)

lemma foldl_round_length [simp]: "length (foldl sha256_round st kws) = length st"
  by (induction kws arbitrary: st) auto

lemma sha256_blocks_length [simp]: "length (sha256_blocks st bs) = length st"
proof (induction st bs rule: sha256_blocks.induct)
  case (1 st bs)
  then show ?case
    by (subst sha256_blocks.simps) (auto simp: sha256_block_def)
qed

lemma length_concat_const: "(\<And>x. x \<in> set xs \<Longrightarrow> length (f x) = n) \<Longrightarrow> length (concat (map f xs)) = n * length xs"
  by (induction xs) auto

lemma sha256_hex_length [simp]: "length (sha256_hex s) = 64"
  by (simp add: sha256_hex_def hex_EncodeToString_def sha256_sum_def bytes_of_word_def sha256_init_def
      length_concat_const[where n = 2] length_concat_const[where n = 4])

lemma hex_digit_lower: "n < 16 \<Longrightarrow> hex_digit n \<in> set ''0123456789abcdef''"
  unfolding hex_digit_def by (rule nth_mem) simp

lemma unat_byte_div_16: "unat (b :: 8 word) div 16 < 16"
proof -
  have "unat b < 256" by (rule order_less_le_trans[OF unsigned_less]) simp
  then show ?thesis by simp
qed

lemma sha256_hex_chars: "set (sha256_hex s) \<subseteq> set ''0123456789abcdef''"
  unfolding sha256_hex_def hex_EncodeToString_def
proof
  fix x assume "x \<in> set (concat (map (\<lambda>b. [hex_digit (unat b div 16), hex_digit (unat b mod 16)]) (sha256_sum s)))"
  then obtain b :: "8 word" where "x = hex_digit (unat b div 16) \<or> x = hex_digit (unat b mod 16)" by auto
  then show "x \<in> set ''0123456789abcdef''"
    by (elim disjE) (simp_all only: hex_digit_lower[OF unat_byte_div_16] hex_digit_lower[of "unat b mod 16"] mod_less_divisor zero_less_numeral)
qed

lemma sha256_hex_not_Nil [simp]: "sha256_hex s \<noteq> []"
  using sha256_hex_length[of s] by (metis list.size(3) zero_neq_numeral)

end
