(* ===== verification/Data_Types.thy ===== *)
theory Data_Types imports Proto begin

text \<open>
  The records that travel between the storage layer, the compliance executor and the workflows:
  internal/data/history.go (a stored scan, a stored observation) and pkg/query/compliance (a row a
  control produced, the result of one control). \<open>time.Time\<close> is its instant, a nil pointer \<open>None\<close>;
  an \<open>error\<close> is its text.
\<close>

record ScanRecord =
  scan_ID :: string
  scan_Provider :: string
  scan_ServicesJSON :: string
  scan_ScopesJSON :: string
  scan_ScopeKey :: string
  scan_Status :: string
  scan_SnapshotComplete :: bool
  scan_StartedAt :: timestamp
  scan_EndedAt :: timestamp
  scan_TotalResources :: int
  scan_NewResources :: int
  scan_UpdatedResources :: int
  scan_DeletedResources :: int

record Observation =
  obs_ScanID :: string
  obs_Provider :: string
  obs_ResourceID :: string
  obs_Name :: string
  obs_Type :: string
  obs_Service :: string
  obs_Location :: string
  obs_AccountID :: string
  obs_ARN :: string
  obs_ParentID :: string
  obs_Tags :: string
  obs_Attributes :: string
  obs_RawData :: string
  obs_SemanticHash :: string
  obs_ObservedAt :: timestamp
  obs_CreatedAt :: "timestamp option"
  obs_ModifiedAt :: "timestamp option"

text \<open>One row a control's query produced.\<close>

record ComplianceResult =
  cr_ResourceID :: string
  cr_ResourceName :: string
  cr_ResourceType :: string
  cr_Region :: string
  cr_ControlID :: string
  cr_ControlName :: string
  cr_Status :: string
  cr_Severity :: string
  cr_Details :: string
  cr_Remediation :: "string option"
  cr_Timestamp :: timestamp

text \<open>The result of one control.\<close>

record SimpleQueryResult =
  sq_PackRef :: string
  sq_ControlID :: string
  sq_Title :: string
  sq_Description :: string
  sq_Passed :: bool
  sq_ResourceCount :: int
  sq_FailedResources :: "string list"
  sq_Rows :: "ComplianceResult list"
  sq_Error :: "string option"

end
