(* ===== verification/Keyed_Table.thy ===== *)
theory Keyed_Table imports Prelude "HOL-Library.AList" begin

text \<open>
  A database table under its primary key: rows in insertion order, at most one per key. An
  \<open>INSERT ... ON CONFLICT\<close> puts a proposed row through a merge function that sees the stored row, if
  any. The locale below is the contract under which proposals may be folded per key before they are
  written: writing the folded proposals leaves the table the one-by-one writes leave.
\<close>

type_synonym ('k, 'r) table = "('k \<times> 'r) list"

definition table_ok :: "('k, 'r) table \<Rightarrow> bool" where
  "table_ok t \<longleftrightarrow> distinct (map fst t)"

definition put :: "('r option \<Rightarrow> 'p \<Rightarrow> 'r) \<Rightarrow> 'k \<times> 'p \<Rightarrow> ('k, 'r) table \<Rightarrow> ('k, 'r) table" where
  "put merge kp t = AList.update (fst kp) (merge (map_of t (fst kp)) (snd kp)) t"

fun put_all :: "('r option \<Rightarrow> 'p \<Rightarrow> 'r) \<Rightarrow> ('k \<times> 'p) list \<Rightarrow> ('k, 'r) table \<Rightarrow> ('k, 'r) table" where
  "put_all merge [] t = t"
| "put_all merge (kp # kps) t = put_all merge kps (put merge kp t)"

definition fold_merge :: "('p \<Rightarrow> 'p \<Rightarrow> 'p) \<Rightarrow> 'p option \<Rightarrow> 'p \<Rightarrow> 'p" where
  "fold_merge combine old p = (case old of None \<Rightarrow> p | Some q \<Rightarrow> combine q p)"

lemma fold_merge_simps [simp]:
  "fold_merge combine None p = p" "fold_merge combine (Some q) p = combine q p"
  by (simp_all add: fold_merge_def)

abbreviation coalesce :: "('p \<Rightarrow> 'p \<Rightarrow> 'p) \<Rightarrow> ('k \<times> 'p) list \<Rightarrow> ('k, 'p) table" where
  "coalesce combine kps \<equiv> put_all (fold_merge combine) kps []"

lemma put_all_append [simp]: "put_all m (xs @ ys) t = put_all m ys (put_all m xs t)"
  by (induction xs arbitrary: t) auto

lemma keys_put: "fst ` set (put m kp t) = insert (fst kp) (fst ` set t)"
  by (simp add: put_def dom_update)

lemma keys_put_all: "fst ` set (put_all m kps t) = fst ` set kps \<union> fst ` set t"
  by (induction kps arbitrary: t) (auto simp: keys_put)

lemma table_ok_Nil [simp]: "table_ok []"
  by (simp add: table_ok_def)

lemma table_ok_put [simp]: "table_ok t \<Longrightarrow> table_ok (put m kp t)"
  by (simp add: table_ok_def put_def distinct_update)

lemma table_ok_put_all [simp]: "table_ok t \<Longrightarrow> table_ok (put_all m kps t)"
  by (induction kps arbitrary: t) auto

lemma map_of_put: "map_of (put m kp t) = (map_of t)(fst kp \<mapsto> m (map_of t (fst kp)) (snd kp))"
  by (simp add: put_def update_conv')

lemma map_of_put_all_notin: "k \<notin> fst ` set kps \<Longrightarrow> map_of (put_all m kps t) k = map_of t k"
  by (induction kps arbitrary: t) (auto simp: map_of_put)

lemma map_of_put_all_distinct:
  "distinct (map fst kps) \<Longrightarrow> (k, p) \<in> set kps \<Longrightarrow> map_of (put_all m kps t) k = Some (m (map_of t k) p)"
proof (induction kps arbitrary: t)
  case (Cons kp kps)
  show ?case
  proof (cases "kp = (k, p)")
    case True
    with Cons.prems have "k \<notin> fst ` set kps" by auto
    with True show ?thesis by (simp add: map_of_put_all_notin map_of_put)
  next
    case False
    with Cons.prems have "(k, p) \<in> set kps" "fst kp \<noteq> k" by (auto simp: rev_image_eqI)
    with Cons show ?thesis by (simp add: map_of_put)
  qed
qed simp

lemma update_new: "k \<notin> fst ` set t \<Longrightarrow> AList.update k v t = t @ [(k, v)]"
  by (induction t) auto

lemma update_twice: "AList.update k v (AList.update k w t) = AList.update k v t"
  by (induction t) auto

lemma set_update_subset: "set (AList.update k v t) \<subseteq> insert (k, v) (set t)"
  by (induction t) auto

lemma update_swap: "k \<noteq> k' \<Longrightarrow> k \<in> fst ` set t \<Longrightarrow>
    AList.update k v (AList.update k' v' t) = AList.update k' v' (AList.update k v t)"
  by (induction t) auto

lemma put_put_all_swap:
  "fst kp \<notin> fst ` set kps \<Longrightarrow> fst kp \<in> fst ` set t \<Longrightarrow> put m kp (put_all m kps t) = put_all m kps (put m kp t)"
proof (induction kps arbitrary: t)
  case (Cons kq kps)
  have "put m kp (put m kq t) = put m kq (put m kp t)"
  proof -
    from Cons.prems have ne: "fst kp \<noteq> fst kq" and m: "fst kp \<in> fst ` set t" by auto
    then show ?thesis by (simp add: put_def update_conv' update_swap[OF ne m])
  qed
  with Cons show ?case by (simp add: keys_put)
qed simp

lemma keys_put_order: "map fst (put m kp t) = (if fst kp \<in> fst ` set t then map fst t else map fst t @ [fst kp])"
  by (simp add: put_def update_keys)

lemma put_all_rows:
  assumes "\<And>k r. (k, r) \<in> set t \<Longrightarrow> Q r" "\<And>k p. (k, p) \<in> set kps \<Longrightarrow> P p"
    "\<And>p. P p \<Longrightarrow> Q (m None p)" "\<And>r p. Q r \<Longrightarrow> P p \<Longrightarrow> Q (m (Some r) p)"
    and "(k, r) \<in> set (put_all m kps t)"
  shows "Q r"
  using assms(1,2,5)
proof (induction kps arbitrary: t)
  case (Cons kp kps)
  have P: "P (snd kp)" using Cons.prems(2)[of "fst kp" "snd kp"] by simp
  have "Q (m (map_of t (fst kp)) (snd kp))"
    using assms(3,4) P Cons.prems(1) by (cases "map_of t (fst kp)") (auto dest: map_of_SomeD)
  moreover have "set (put m kp t) \<subseteq> insert (fst kp, m (map_of t (fst kp)) (snd kp)) (set t)"
    unfolding put_def by (rule set_update_subset)
  ultimately have "Q r'" if "(k', r') \<in> set (put m kp t)" for k' r'
    using that Cons.prems(1) by auto
  moreover have "P p'" if "(k', p') \<in> set kps" for k' p' using that Cons.prems(2)[of k' p'] by simp
  moreover have "(k, r) \<in> set (put_all m kps (put m kp t))" using Cons.prems(3) by simp
  ultimately show ?case by (rule Cons.IH)
qed simp

text \<open>A table mapped row by row is the table of the mapped writes.\<close>

lemma update_map_prod:
  "inj h \<Longrightarrow> map (map_prod h F) (AList.update k v t) = AList.update (h k) (F v) (map (map_prod h F) t)"
  by (induction t) (auto dest: injD)

lemma map_of_map_prod: "inj h \<Longrightarrow> map_of (map (map_prod h F) t) (h k) = map_option F (map_of t k)"
  by (induction t) (auto dest: injD)

lemma put_all_map:
  assumes "inj h" "\<And>old p. F (m old p) = m' (map_option F old) (G p)"
  shows "map (map_prod h F) (put_all m kps t) = put_all m' (map (map_prod h G) kps) (map (map_prod h F) t)"
proof (induction kps arbitrary: t)
  case (Cons kp kps)
  have "map (map_prod h F) (put m kp t) = put m' (map_prod h G kp) (map (map_prod h F) t)"
    using assms by (simp add: put_def update_map_prod map_of_map_prod)
  with Cons show ?case by simp
qed simp

lemma map_lookup_keys:
  "table_ok t \<Longrightarrow> map (\<lambda>k. (k, f k (the (map_of t k)))) (map fst t) = map (\<lambda>(k, r). (k, f k r)) t"
  unfolding table_ok_def by (auto simp: comp_def)

subsection \<open>Folding proposals before writing them\<close>

locale foldable_writes =
  fixes merge :: "'r option \<Rightarrow> 'p \<Rightarrow> 'r" and combine :: "'p \<Rightarrow> 'p \<Rightarrow> 'p" and compat :: "'p \<Rightarrow> 'p \<Rightarrow> bool"
  assumes merge_combine: "compat p q \<Longrightarrow> merge (Some (merge old p)) q = merge old (combine p q)"
    and compat_combine: "compat p r \<Longrightarrow> compat q r \<Longrightarrow> compat (combine p q) r"
begin

lemma coalesced_compat:
  assumes "\<And>p. (k, p) \<in> set kps \<Longrightarrow> compat p r" "map_of (coalesce combine kps) k = Some q"
  shows "compat q r"
  using assms
proof (induction kps arbitrary: q rule: rev_induct)
  case (snoc kp kps)
  obtain k' p where kp: "kp = (k', p)" by (cases kp)
  show ?case
  proof (cases "k' = k")
    case True
    with kp have p: "compat p r" using snoc.prems(1) by auto
    show ?thesis
    proof (cases "map_of (coalesce combine kps) k")
      case None
      with snoc.prems(2) kp True p show ?thesis by (auto simp: map_of_put)
    next
      case (Some q')
      with snoc have "compat q' r" by auto
      from this p have "compat (combine q' p) r" by (rule compat_combine)
      with Some snoc.prems(2) kp True show ?thesis by (auto simp: map_of_put)
    qed
  next
    case False
    with snoc kp show ?thesis by (auto simp: map_of_put)
  qed
qed simp

theorem coalesce_writes:
  assumes "\<And>k p q. (k, p) \<in> set kps \<Longrightarrow> (k, q) \<in> set kps \<Longrightarrow> compat p q"
  shows "put_all merge (coalesce combine kps) t = put_all merge kps t"
  using assms
proof (induction kps rule: rev_induct)
  case (snoc kp kps)
  obtain k p where kp: "kp = (k, p)" by (cases kp)
  let ?C = "coalesce combine kps"
  have ih: "put_all merge ?C t = put_all merge kps t"
  proof (rule snoc.IH)
    fix k p q
    assume "(k, p) \<in> set kps" "(k, q) \<in> set kps"
    then show "compat p q" using snoc.prems[of k p q] by auto
  qed
  show ?case
  proof (cases "map_of ?C k")
    case None
    then have "k \<notin> fst ` set ?C" by (simp add: map_of_eq_None_iff)
    then have "coalesce combine (kps @ [kp]) = ?C @ [(k, p)]"
      using None kp by (simp add: put_def update_new)
    with ih kp show ?thesis by simp
  next
    case (Some q)
    have "compat q p" using Some by (rule coalesced_compat[rotated]) (auto intro: snoc.prems simp: kp)
    from Some obtain C1 C2 where C: "?C = C1 @ (k, q) # C2" by (metis map_of_SomeD split_list)
    have ok: "table_ok ?C" by simp
    with C have n: "k \<notin> fst ` set C1" "k \<notin> fst ` set C2" by (auto simp: table_ok_def)
    have "AList.update k w (C1 @ (k, q) # C2) = C1 @ (k, w) # C2" for w
      using n(1) by (induction C1) auto
    then have C': "put_all (fold_merge combine) (kps @ [kp]) [] = C1 @ (k, combine q p) # C2"
      using Some kp C by (simp add: put_def)
    define t1 where "t1 = put_all merge C1 t"
    have "put_all merge (kps @ [kp]) t = put merge (k, p) (put_all merge C2 (put merge (k, q) t1))"
      using ih by (simp add: C kp t1_def)
    also have "\<dots> = put_all merge C2 (put merge (k, p) (put merge (k, q) t1))"
      using n(2) by (intro put_put_all_swap) (auto simp: keys_put)
    also have "put merge (k, p) (put merge (k, q) t1) = put merge (k, combine q p) t1"
      using merge_combine[OF \<open>compat q p\<close>] by (simp add: put_def update_conv' update_twice)
    also have "put_all merge C2 (put merge (k, combine q p) t1) = put_all merge (coalesce combine (kps @ [kp])) t"
      unfolding C' by (simp add: t1_def)
    finally show ?thesis by (rule sym)
  qed
qed simp

end

end
