(* ===== verification/Findings.thy ===== *)
theory Findings imports Data_Types Sha256 Keyed_Table "HOL-Library.Product_Lexorder" begin

text \<open>
  internal/app/findings/findings.go: the durable findings of compliance runs. The tables the
  code writes are \<open>table\<close>s under their primary keys. One SQL statement is one function, with what
  DuckDB does for the clauses the code uses: \<open>ON CONFLICT DO UPDATE\<close> refuses a statement that
  proposes one key twice, \<open>ON CONFLICT DO NOTHING\<close> keeps the row that is there. A driver failure
  (a lost connection) returns from every function at once and the transaction is rolled back, so it
  has no branch here. Instants have the resolution the database stores.
\<close>

subsection \<open>Data\<close>

record Finding =
  fnd_Fingerprint :: string
  fnd_PackRef :: string
  fnd_ControlID :: string
  fnd_Provider :: string
  fnd_ResourceID :: string
  fnd_ScopeKey :: string
  fnd_Title :: string
  fnd_Severity :: string
  fnd_Details :: string
  fnd_Remediation :: string
  fnd_Status :: string
  fnd_FirstSeenScan :: string
  fnd_LastSeenScan :: string
  fnd_FirstSeenAt :: timestamp
  fnd_LastSeenAt :: timestamp
  fnd_ResolvedAt :: "timestamp option"
  fnd_OccurrenceCount :: int

record Evaluation =
  eval_ID :: string
  eval_ScanID :: string
  eval_Status :: string
  eval_Error :: string
  eval_Opened :: int
  eval_Recurred :: int
  eval_Resolved :: int
  eval_Findings :: "Finding list"

record ListFilter =
  lf_Status :: string
  lf_Provider :: string
  lf_ControlID :: string
  lf_MinSeverity :: string
  lf_ScanID :: string
  lf_PackRef :: string

text \<open>A row of \<open>findings\<close> without its key; of \<open>finding_occurrences\<close>; of \<open>finding_suppressions\<close>.\<close>

record finding_row =
  row_pack_ref :: string
  row_control_id :: string
  row_provider :: string
  row_resource_id :: string
  row_scope_key :: string
  row_title :: string
  row_severity :: string
  row_details :: string
  row_remediation :: "string option"
  row_status :: string
  row_first_seen_scan :: string
  row_last_seen_scan :: string
  row_first_seen_at :: timestamp
  row_last_seen_at :: timestamp
  row_resolved_at :: "timestamp option"
  row_occurrence_count :: int

record occurrence_row =
  occ_scan_id :: string
  occ_result_status :: string
  occ_severity :: string
  occ_details :: string
  occ_observed_at :: timestamp

record suppression_row =
  sup_id :: string
  sup_fingerprint :: string
  sup_reason :: string
  sup_actor :: string
  sup_created_at :: timestamp
  sup_expires_at :: "timestamp option"
  sup_revoked_at :: "timestamp option"

record finding_store =
  findings :: "(string, finding_row) table"
  occurrences :: "(string \<times> string, occurrence_row) table"
  suppressions :: "suppression_row list"

subsection \<open>Pure helpers\<close>

definition severityRank :: "string \<Rightarrow> int" where
  "severityRank v = (let u = strings_ToUpper v in
     if u = ''CRITICAL'' then 4 else if u = ''HIGH'' then 3 else if u = ''MEDIUM'' then 2
     else if u = ''LOW'' then 1 else 0)"

definition nullString :: "string \<Rightarrow> string option" where
  "nullString v = (if strings_TrimSpace v = [] then None else Some v)"

definition findingFingerprint :: "string \<Rightarrow> string \<Rightarrow> string \<Rightarrow> string \<Rightarrow> string \<Rightarrow> string" where
  "findingFingerprint packRef controlID provider resourceID scopeKey =
     sha256_hex (strings_Join [packRef, controlID, provider, resourceID, scopeKey] [CHR 0x00])"

definition strings_Repeat :: "string \<Rightarrow> nat \<Rightarrow> string" where
  "strings_Repeat s n = concat (replicate n s)"

definition placeholders :: "int \<Rightarrow> int \<Rightarrow> string panics" where
  "placeholders n width = do {
     assert_That (n > 0);
     assert_That (width > 0);
     let group = strings_TrimSuffix (strings_Repeat ''?, '' (nat width)) '', '';
     let group = (if width > 1 then ''('' @ group @ '')'' else group);
     Some (strings_TrimSuffix (strings_Repeat (group @ '', '') (nat n)) '', '')
   }"

definition findingBatchCountMax :: nat where
  "findingBatchCountMax = 256"

subsection \<open>Folding the failing rows of one result\<close>

record findingRecord =
  rec_finding :: Finding
  rec_occurrenceStatus :: string
  rec_occurrenceFirst :: Finding
  rec_rowCount :: int

definition row_fails :: "ComplianceResult \<Rightarrow> bool" where
  "row_fails row \<longleftrightarrow> strings_ToUpper (cr_Status row) \<in> {''FAIL'', ''WARNING''}"

definition row_fingerprint :: "ScanRecord \<Rightarrow> SimpleQueryResult \<Rightarrow> ComplianceResult \<Rightarrow> string" where
  "row_fingerprint scan result row = findingFingerprint (sq_PackRef result) (cr_ControlID row)
     (scan_Provider scan) (cr_ResourceID row) (scan_ScopeKey scan)"

definition row_finding :: "ScanRecord \<Rightarrow> SimpleQueryResult \<Rightarrow> ComplianceResult \<Rightarrow> Finding" where
  "row_finding scan result row =
     \<lparr>fnd_Fingerprint = row_fingerprint scan result row, fnd_PackRef = sq_PackRef result,
      fnd_ControlID = cr_ControlID row, fnd_Provider = scan_Provider scan, fnd_ResourceID = cr_ResourceID row,
      fnd_ScopeKey = scan_ScopeKey scan, fnd_Title = cr_ControlName row,
      fnd_Severity = strings_ToUpper (cr_Severity row), fnd_Details = cr_Details row,
      fnd_Remediation = (case cr_Remediation row of None \<Rightarrow> [] | Some r \<Rightarrow> r), fnd_Status = ''open'',
      fnd_FirstSeenScan = scan_ID scan, fnd_LastSeenScan = scan_ID scan,
      fnd_FirstSeenAt = scan_StartedAt scan, fnd_LastSeenAt = scan_StartedAt scan,
      fnd_ResolvedAt = None, fnd_OccurrenceCount = 0\<rparr>"

lemma row_finding_Fingerprint [simp]: "fnd_Fingerprint (row_finding scan result row) = row_fingerprint scan result row"
  by (simp add: row_finding_def)

fun fold_rows_loop :: "ScanRecord \<Rightarrow> SimpleQueryResult \<Rightarrow> ComplianceResult list \<Rightarrow>
    Finding list \<times> (string, findingRecord) table \<times> string list \<Rightarrow>
    Finding list \<times> (string, findingRecord) table \<times> string list" where
  "fold_rows_loop scan result [] acc = acc"
| "fold_rows_loop scan result (row # rows) (found, records, order) =
     (if \<not> row_fails row then fold_rows_loop scan result rows (found, records, order)
      else (let fingerprint = row_fingerprint scan result row; finding = row_finding scan result row in
        fold_rows_loop scan result rows (found @ [finding],
          (case map_of records fingerprint of
             Some record \<Rightarrow> (AList.update fingerprint
               (record\<lparr>rec_finding := finding, rec_rowCount := rec_rowCount record + 1\<rparr>) records, order)
           | None \<Rightarrow> (AList.update fingerprint \<lparr>rec_finding = finding,
               rec_occurrenceStatus = strings_ToUpper (cr_Status row), rec_occurrenceFirst = finding,
               rec_rowCount = 1\<rparr> records, order @ [fingerprint])))))"

definition foldFailingRows :: "Evaluation \<Rightarrow> ScanRecord \<Rightarrow> SimpleQueryResult \<Rightarrow>
    (Evaluation \<times> (string, findingRecord) table \<times> string list) panics" where
  "foldFailingRows evaluation scan result = (case fold_rows_loop scan result (sq_Rows result)
       (eval_Findings evaluation, [], []) of (found, records, order) \<Rightarrow> do {
     assert_That (length order = length records);
     Some (evaluation\<lparr>eval_Findings := found\<rparr>, records, order)
   })"

subsection \<open>The statements\<close>

text \<open>
  The loops \<open>for start := 0; start < len(order); start += findingBatchCountMax\<close> see the chunks of
  \<open>order\<close> one after the other.
\<close>

function batches :: "string list \<Rightarrow> nat \<Rightarrow> string list list" where
  "batches order start = (if start < length order
     then take (min (start + findingBatchCountMax) (length order) - start) (drop start order)
          # batches order (start + findingBatchCountMax)
     else [])"
  by auto
termination by (relation "measure (\<lambda>(order, start). length order - start)") (auto simp: findingBatchCountMax_def)

declare batches.simps [simp del]

definition existingFingerprints :: "(string, finding_row) table \<Rightarrow> string list \<Rightarrow> string set \<Rightarrow> string set panics" where
  "existingFingerprints t fingerprints existing = (if fingerprints = [] then Some existing else do {
     assert_That (length fingerprints \<le> findingBatchCountMax);
     Some (existing \<union> set (filter (\<lambda>fp. fp \<in> set fingerprints) (map fst t)))
   })"

fun existing_loop :: "(string, finding_row) table \<Rightarrow> string list list \<Rightarrow> string set \<Rightarrow> string set panics" where
  "existing_loop t [] existing = Some existing"
| "existing_loop t (chunk # chunks) existing = existingFingerprints t chunk existing \<bind> existing_loop t chunks"

text \<open>What \<open>INSERT INTO findings ... ON CONFLICT DO UPDATE ... WHERE\<close> stores for one proposed row.\<close>

definition merge_finding :: "finding_row option \<Rightarrow> finding_row \<Rightarrow> finding_row" where
  "merge_finding old excluded = (case old of
     None \<Rightarrow> excluded
   | Some stored \<Rightarrow> if row_last_seen_at excluded \<ge> row_last_seen_at stored
       then stored\<lparr>row_title := row_title excluded, row_severity := row_severity excluded,
              row_details := row_details excluded, row_remediation := row_remediation excluded,
              row_status := ''open'', row_last_seen_scan := row_last_seen_scan excluded,
              row_last_seen_at := row_last_seen_at excluded, row_resolved_at := None,
              row_occurrence_count := row_occurrence_count stored + row_occurrence_count excluded\<rparr>
       else stored)"

definition merge_occurrence :: "occurrence_row option \<Rightarrow> occurrence_row \<Rightarrow> occurrence_row" where
  "merge_occurrence old excluded = (case old of None \<Rightarrow> excluded | Some stored \<Rightarrow> stored)"

definition proposed_row :: "Finding \<Rightarrow> int \<Rightarrow> finding_row" where
  "proposed_row f rowCount =
     \<lparr>row_pack_ref = fnd_PackRef f, row_control_id = fnd_ControlID f, row_provider = fnd_Provider f,
      row_resource_id = fnd_ResourceID f, row_scope_key = fnd_ScopeKey f, row_title = fnd_Title f,
      row_severity = fnd_Severity f, row_details = fnd_Details f,
      row_remediation = nullString (fnd_Remediation f), row_status = ''open'',
      row_first_seen_scan = fnd_FirstSeenScan f, row_last_seen_scan = fnd_LastSeenScan f,
      row_first_seen_at = fnd_FirstSeenAt f, row_last_seen_at = fnd_LastSeenAt f,
      row_resolved_at = None, row_occurrence_count = rowCount\<rparr>"

fun upsert_args :: "(string, findingRecord) table \<Rightarrow> string list \<Rightarrow> (string \<times> finding_row) list panics" where
  "upsert_args records [] = Some []"
| "upsert_args records (fingerprint # chunk) = do {
     record \<leftarrow> map_of records fingerprint;
     assert_That (rec_rowCount record > 0);
     rest \<leftarrow> upsert_args records chunk;
     Some ((fnd_Fingerprint (rec_finding record), proposed_row (rec_finding record) (rec_rowCount record)) # rest)
   }"

definition upsertFindings :: "(string, findingRecord) table \<Rightarrow> string list \<Rightarrow> (string, finding_row) table \<Rightarrow>
    (string + (string, finding_row) table) panics" where
  "upsertFindings records chunk t = do {
     assert_That (chunk \<noteq> []);
     assert_That (length chunk \<le> findingBatchCountMax);
     args \<leftarrow> upsert_args records chunk;
     Some (if distinct (map fst args) then Inr (put_all merge_finding args t)
           else Inl ''ON CONFLICT DO UPDATE can not update the same row twice in the same command'')
   }"

definition proposed_occurrence :: "ScanRecord \<Rightarrow> string \<Rightarrow> Finding \<Rightarrow> occurrence_row" where
  "proposed_occurrence scan status f =
     \<lparr>occ_scan_id = scan_ID scan, occ_result_status = status, occ_severity = fnd_Severity f,
      occ_details = fnd_Details f, occ_observed_at = scan_StartedAt scan\<rparr>"

fun occurrence_args :: "string \<Rightarrow> ScanRecord \<Rightarrow> (string, findingRecord) table \<Rightarrow> string list \<Rightarrow>
    ((string \<times> string) \<times> occurrence_row) list panics" where
  "occurrence_args evaluationID scan records [] = Some []"
| "occurrence_args evaluationID scan records (fingerprint # chunk) = do {
     record \<leftarrow> map_of records fingerprint;
     rest \<leftarrow> occurrence_args evaluationID scan records chunk;
     Some (((evaluationID, fingerprint),
            proposed_occurrence scan (rec_occurrenceStatus record) (rec_occurrenceFirst record)) # rest)
   }"

definition insertOccurrences :: "string \<Rightarrow> ScanRecord \<Rightarrow> (string, findingRecord) table \<Rightarrow> string list \<Rightarrow>
    (string \<times> string, occurrence_row) table \<Rightarrow> (string \<times> string, occurrence_row) table panics" where
  "insertOccurrences evaluationID scan records chunk t = do {
     assert_That (chunk \<noteq> []);
     assert_That (length chunk \<le> findingBatchCountMax);
     assert_That (evaluationID \<noteq> []);
     args \<leftarrow> occurrence_args evaluationID scan records chunk;
     Some (put_all merge_occurrence args t)
   }"

subsection \<open>Recording one result\<close>

fun count_loop :: "string set \<Rightarrow> (string, findingRecord) table \<Rightarrow> string list \<Rightarrow> Evaluation \<times> string set \<Rightarrow>
    (Evaluation \<times> string set) panics" where
  "count_loop existing records [] acc = Some acc"
| "count_loop existing records (fingerprint # order) (evaluation, observed) = do {
     record \<leftarrow> map_of records fingerprint;
     count_loop existing records order
       (if fingerprint \<in> existing
        then evaluation\<lparr>eval_Recurred := eval_Recurred evaluation + rec_rowCount record\<rparr>
        else evaluation\<lparr>eval_Opened := eval_Opened evaluation + 1,
               eval_Recurred := eval_Recurred evaluation + (rec_rowCount record - 1)\<rparr>,
        insert fingerprint observed)
   }"

fun write_loop :: "string \<Rightarrow> ScanRecord \<Rightarrow> (string, findingRecord) table \<Rightarrow> string list list \<Rightarrow> finding_store \<Rightarrow>
    (string + finding_store) panics" where
  "write_loop evaluationID scan records [] st = Some (Inr st)"
| "write_loop evaluationID scan records (chunk # chunks) st = do {
     upserted \<leftarrow> upsertFindings records chunk (findings st);
     (case upserted of
        Inl err \<Rightarrow> Some (Inl err)
      | Inr t \<Rightarrow> do {
          occs \<leftarrow> insertOccurrences evaluationID scan records chunk (occurrences st);
          write_loop evaluationID scan records chunks (st\<lparr>findings := t, occurrences := occs\<rparr>)
        })
   }"

definition recordResult :: "Evaluation \<Rightarrow> ScanRecord \<Rightarrow> SimpleQueryResult \<Rightarrow> finding_store \<Rightarrow>
    (string + Evaluation \<times> finding_store \<times> string set) panics" where
  "recordResult evaluation scan result st = do {
     assert_That (sq_Error result = None);
     (evaluation, records, order) \<leftarrow> foldFailingRows evaluation scan result;
     existing \<leftarrow> existing_loop (findings st) (batches order 0) {};
     (evaluation, observed) \<leftarrow> count_loop existing records order (evaluation, {});
     written \<leftarrow> write_loop (eval_ID evaluation) scan records (batches order 0) st;
     (case written of
        Inl err \<Rightarrow> Some (Inl err)
      | Inr st \<Rightarrow> do {
          assert_That (card observed = length records);
          Some (Inr (evaluation, st, observed))
        })
   }"

subsection \<open>Resolving what a result no longer observes\<close>

definition resolve_candidate :: "string \<Rightarrow> string \<Rightarrow> ScanRecord \<Rightarrow> finding_row \<Rightarrow> bool" where
  "resolve_candidate packRef controlID scan r \<longleftrightarrow> row_pack_ref r = packRef \<and> row_control_id r = controlID \<and>
     row_scope_key r = scan_ScopeKey scan \<and> row_status r = ''open'' \<and> row_last_seen_at r \<le> scan_StartedAt scan"

text \<open>\<open>UPDATE findings SET status = 'resolved', resolved_at = ? WHERE fingerprint = ?\<close>\<close>

definition resolve_update :: "timestamp \<Rightarrow> string \<Rightarrow> (string, finding_row) table \<Rightarrow> (string, finding_row) table" where
  "resolve_update at fingerprint t = map (\<lambda>(fp, r). (fp,
     if fp = fingerprint then r\<lparr>row_status := ''resolved'', row_resolved_at := Some at\<rparr> else r)) t"

fun resolve_loop :: "timestamp \<Rightarrow> string set \<Rightarrow> string list \<Rightarrow> (string, finding_row) table \<Rightarrow> int \<Rightarrow>
    (string, finding_row) table \<times> int" where
  "resolve_loop at observed [] t resolved = (t, resolved)"
| "resolve_loop at observed (fingerprint # candidates) t resolved =
     (if fingerprint \<in> observed then resolve_loop at observed candidates t resolved
      else resolve_loop at observed candidates (resolve_update at fingerprint t)
             (resolved + int (length (filter (\<lambda>(fp, r). fp = fingerprint) t))))"

definition resolveAbsent :: "string \<Rightarrow> string \<Rightarrow> ScanRecord \<Rightarrow> string set \<Rightarrow> (string, finding_row) table \<Rightarrow>
    (string, finding_row) table \<times> int" where
  "resolveAbsent packRef controlID scan observed t = resolve_loop (scan_StartedAt scan) observed
     (map fst (filter (\<lambda>(fp, r). resolve_candidate packRef controlID scan r) t)) t 0"

subsection \<open>Recording a run\<close>

fun record_loop :: "ScanRecord \<Rightarrow> SimpleQueryResult list \<Rightarrow> Evaluation \<times> finding_store \<times> nat \<times> nat \<Rightarrow>
    (string + Evaluation \<times> finding_store \<times> nat \<times> nat) panics" where
  "record_loop scan [] acc = Some (Inr acc)"
| "record_loop scan (result # results) (evaluation, st, successfulControls, failedControls) =
     (case sq_Error result of
        Some err \<Rightarrow> record_loop scan results
          (evaluation\<lparr>eval_Error := err\<rparr>, st, successfulControls, failedControls + 1)
      | None \<Rightarrow> do {
          recorded \<leftarrow> recordResult evaluation scan result st;
          (case recorded of
             Inl err \<Rightarrow> Some (Inl err)
           | Inr (evaluation, st, observed) \<Rightarrow>
               (case resolveAbsent (sq_PackRef result) (sq_ControlID result) scan observed (findings st) of
                  (t, resolved) \<Rightarrow> record_loop scan results
                    (evaluation\<lparr>eval_Resolved := eval_Resolved evaluation + resolved\<rparr>,
                     st\<lparr>findings := t\<rparr>, successfulControls + 1, failedControls)))
        })"

definition assertEvaluationTotals :: "Evaluation \<Rightarrow> unit panics" where
  "assertEvaluationTotals evaluation = do {
     assert_That (eval_Opened evaluation \<ge> 0);
     assert_That (eval_Recurred evaluation \<ge> 0);
     assert_That (eval_Opened evaluation + eval_Recurred evaluation = int (length (eval_Findings evaluation)))
   }"

definition recordResults :: "Evaluation \<Rightarrow> ScanRecord \<Rightarrow> SimpleQueryResult list \<Rightarrow> finding_store \<Rightarrow>
    (string + Evaluation \<times> finding_store) panics" where
  "recordResults evaluation scan results st = do {
     looped \<leftarrow> record_loop scan results (evaluation, st, 0, 0);
     (case looped of
        Inl err \<Rightarrow> Some (Inl err)
      | Inr (evaluation, st, successfulControls, failedControls) \<Rightarrow> do {
          assert_That (successfulControls + failedControls = length results);
          let evaluation = (if failedControls > 0
            then evaluation\<lparr>eval_Status := (if successfulControls = 0 then ''failed'' else ''partial'')\<rparr>
            else evaluation);
          assertEvaluationTotals evaluation;
          Some (Inr (evaluation, st))
        })
   }"

definition Evaluation_new :: "string \<Rightarrow> ScanRecord \<Rightarrow> Evaluation" where
  "Evaluation_new uuid scan = \<lparr>eval_ID = uuid, eval_ScanID = scan_ID scan, eval_Status = ''completed'',
     eval_Error = [], eval_Opened = 0, eval_Recurred = 0, eval_Resolved = 0, eval_Findings = []\<rparr>"

subsection \<open>The chunks are the order\<close>

lemma batches_concat: "concat (batches order start) = drop start order"
proof (induction order start rule: batches.induct)
  case (1 order start)
  show ?case
  proof (cases "start < length order")
    case True
    have "take (min (start + findingBatchCountMax) (length order) - start) (drop start order)
        = take findingBatchCountMax (drop start order)"
      by (cases "start + findingBatchCountMax \<le> length order") (simp_all add: min_def)
    with True 1 show ?thesis
      by (subst batches.simps) (simp add: append_take_drop_id[of findingBatchCountMax "drop start order", simplified drop_drop] add.commute)
  next
    case False
    then show ?thesis by (subst batches.simps) simp
  qed
qed

lemma batches_step: "chunk \<in> set (batches order start) \<Longrightarrow> start < length order \<and>
    (chunk = take (min (start + findingBatchCountMax) (length order) - start) (drop start order) \<or>
     chunk \<in> set (batches order (start + findingBatchCountMax)))"
  by (subst (asm) batches.simps) (simp split: if_splits)

lemma batches_bounds: "chunk \<in> set (batches order start) \<Longrightarrow> chunk \<noteq> [] \<and> length chunk \<le> findingBatchCountMax"
proof (induction order start rule: batches.induct)
  case (1 order start)
  have pos: "0 < findingBatchCountMax" by (simp add: findingBatchCountMax_def)
  from batches_step[OF 1(2)] show ?case
  proof (elim conjE disjE)
    assume "start < length order"
      "chunk = take (min (start + findingBatchCountMax) (length order) - start) (drop start order)"
    with pos show ?thesis by (simp only: length_0_conv[symmetric] length_take length_drop) linarith
  qed (rule 1(1))
qed

subsection \<open>Folding the rows of a result\<close>

definition failing_rows :: "SimpleQueryResult \<Rightarrow> ComplianceResult list" where
  "failing_rows result = filter row_fails (sq_Rows result)"

definition merge_record :: "ScanRecord \<Rightarrow> SimpleQueryResult \<Rightarrow> findingRecord option \<Rightarrow> ComplianceResult \<Rightarrow> findingRecord" where
  "merge_record scan result old row = (case old of
     None \<Rightarrow> \<lparr>rec_finding = row_finding scan result row, rec_occurrenceStatus = strings_ToUpper (cr_Status row),
               rec_occurrenceFirst = row_finding scan result row, rec_rowCount = 1\<rparr>
   | Some record \<Rightarrow> record\<lparr>rec_finding := row_finding scan result row, rec_rowCount := rec_rowCount record + 1\<rparr>)"

definition folded_records :: "ScanRecord \<Rightarrow> SimpleQueryResult \<Rightarrow> ComplianceResult list \<Rightarrow> (string, findingRecord) table" where
  "folded_records scan result rows =
     put_all (merge_record scan result) (map (\<lambda>r. (row_fingerprint scan result r, r)) rows) []"

lemma fold_rows_loop:
  "fold_rows_loop scan result rows (found, records, map fst records) =
     (let recs = put_all (merge_record scan result)
            (map (\<lambda>r. (row_fingerprint scan result r, r)) (filter row_fails rows)) records
      in (found @ map (row_finding scan result) (filter row_fails rows), recs, map fst recs))"
proof (induction rows arbitrary: found records)
  case (Cons row rows)
  let ?fp = "row_fingerprint scan result row"
  show ?case
  proof (cases "row_fails row")
    case True
    have keys: "map fst (put (merge_record scan result) (?fp, row) records) =
        (case map_of records ?fp of None \<Rightarrow> map fst records @ [?fp] | Some _ \<Rightarrow> map fst records)"
      by (auto simp: keys_put_order map_of_eq_None_iff split: option.split dest: map_of_SomeD intro: rev_image_eqI)
    show ?thesis
    proof (cases "map_of records ?fp")
      case None
      with True Cons[of "found @ [row_finding scan result row]" "put (merge_record scan result) (?fp, row) records"] keys
      show ?thesis by (simp add: put_def merge_record_def Let_def)
    next
      case (Some r)
      with True Cons[of "found @ [row_finding scan result row]" "put (merge_record scan result) (?fp, row) records"] keys
      show ?thesis by (simp add: put_def merge_record_def Let_def)
    qed
  qed (simp add: Cons)
qed (simp add: Let_def)

lemma foldFailingRows_eq: "foldFailingRows evaluation scan result =
    Some (evaluation\<lparr>eval_Findings := eval_Findings evaluation @ map (row_finding scan result) (failing_rows result)\<rparr>,
          folded_records scan result (failing_rows result), map fst (folded_records scan result (failing_rows result)))"
  using fold_rows_loop[of scan result "sq_Rows result" "eval_Findings evaluation" "[]"]
  by (simp add: foldFailingRows_def folded_records_def failing_rows_def Let_def)

lemma folded_records_ok [simp]: "table_ok (folded_records scan result rows)"
  by (simp add: folded_records_def)

lemma folded_records_keys: "fst ` set (folded_records scan result rows) = row_fingerprint scan result ` set rows"
  by (simp add: folded_records_def keys_put_all image_image)

lemma folded_records_snoc: "folded_records scan result (rows @ [row]) =
    put (merge_record scan result) (row_fingerprint scan result row, row) (folded_records scan result rows)"
  by (simp add: folded_records_def)

lemma folded_records_row:
  "(fp, r) \<in> set (folded_records scan result rows) \<Longrightarrow>
     fnd_Fingerprint (rec_finding r) = fp \<and> rec_rowCount r > 0"
proof (induction rows arbitrary: fp r rule: rev_induct)
  case (snoc row rows)
  let ?t = "folded_records scan result rows"
  have "map_of (folded_records scan result (rows @ [row])) fp = Some r"
    using snoc.prems by (metis folded_records_ok map_of_is_SomeI table_ok_def)
  then show ?case
  proof (cases "fp = row_fingerprint scan result row")
    case True
    with \<open>map_of _ fp = Some r\<close> snoc.IH show ?thesis
      by (cases "map_of ?t fp") (auto simp: folded_records_snoc map_of_put merge_record_def dest!: map_of_SomeD snoc.IH)
  next
    case False
    with \<open>map_of _ fp = Some r\<close> have "map_of ?t fp = Some r" by (simp add: folded_records_snoc map_of_put)
    then show ?thesis by (rule snoc.IH[OF map_of_SomeD])
  qed
qed (simp add: folded_records_def)

lemma folded_records_total: "sum_list (map (rec_rowCount \<circ> snd) (folded_records scan result rows)) = int (length rows)"
proof (induction rows rule: rev_induct)
  case (snoc row rows)
  have upd: "sum_list (map (rec_rowCount \<circ> snd) (put (merge_record scan result) (fp, row) t)) =
      sum_list (map (rec_rowCount \<circ> snd) t) + 1" for fp t
    by (induction t) (auto simp: put_def merge_record_def)
  show ?case using snoc by (simp only: folded_records_snoc upd) simp
qed (simp add: folded_records_def)

subsection \<open>What one result leaves behind\<close>

abbreviation record_row :: "findingRecord \<Rightarrow> finding_row" where
  "record_row r \<equiv> proposed_row (rec_finding r) (rec_rowCount r)"

abbreviation record_occurrence :: "ScanRecord \<Rightarrow> findingRecord \<Rightarrow> occurrence_row" where
  "record_occurrence scan r \<equiv> proposed_occurrence scan (rec_occurrenceStatus r) (rec_occurrenceFirst r)"

definition records_ok :: "(string, findingRecord) table \<Rightarrow> bool" where
  "records_ok records \<longleftrightarrow> table_ok records \<and>
     (\<forall>(fp, r) \<in> set records. fnd_Fingerprint (rec_finding r) = fp \<and> rec_rowCount r > 0)"

lemma folded_records_records_ok [simp]: "records_ok (folded_records scan result rows)"
  using folded_records_row by (fastforce simp: records_ok_def)

lemma records_ok_lookup:
  "records_ok records \<Longrightarrow> fp \<in> set (map fst records) \<Longrightarrow>
     \<exists>r. map_of records fp = Some r \<and> fnd_Fingerprint (rec_finding r) = fp \<and> rec_rowCount r > 0"
  unfolding records_ok_def by (cases "map_of records fp") (auto simp: map_of_eq_None_iff dest!: map_of_SomeD)

lemma upsert_args_eq:
  "records_ok records \<Longrightarrow> set chunk \<subseteq> set (map fst records) \<Longrightarrow>
     upsert_args records chunk = Some (map (\<lambda>fp. (fp, record_row (the (map_of records fp)))) chunk)"
proof (induction chunk)
  case (Cons fp chunk)
  from Cons.prems records_ok_lookup[of records fp] obtain r where
    "map_of records fp = Some r" "fnd_Fingerprint (rec_finding r) = fp" "rec_rowCount r > 0" by auto
  with Cons show ?case by simp
qed simp

lemma occurrence_args_eq:
  "records_ok records \<Longrightarrow> set chunk \<subseteq> set (map fst records) \<Longrightarrow>
     occurrence_args eid scan records chunk =
       Some (map (\<lambda>fp. ((eid, fp), record_occurrence scan (the (map_of records fp)))) chunk)"
proof (induction chunk)
  case (Cons fp chunk)
  from Cons.prems records_ok_lookup[of records fp] obtain r where "map_of records fp = Some r" by auto
  with Cons show ?case by simp
qed simp

lemma existing_loop_eq:
  "(\<And>c. c \<in> set chunks \<Longrightarrow> length c \<le> findingBatchCountMax) \<Longrightarrow>
     existing_loop t chunks existing = Some (existing \<union> (set (concat chunks) \<inter> fst ` set t))"
proof (induction chunks arbitrary: existing)
  case (Cons c chunks)
  have "existingFingerprints t c existing = Some (existing \<union> (set c \<inter> fst ` set t))"
    using Cons.prems[of c] by (auto simp: existingFingerprints_def)
  with Cons show ?case by (simp add: Int_Un_distrib2 Un_assoc)
qed simp

lemma write_loop_eq:
  assumes "records_ok records" "eid \<noteq> []" "distinct (concat chunks)"
    "set (concat chunks) \<subseteq> set (map fst records)"
    "\<And>c. c \<in> set chunks \<Longrightarrow> c \<noteq> [] \<and> length c \<le> findingBatchCountMax"
  shows "write_loop eid scan records chunks st = Some (Inr (st\<lparr>
     findings := put_all merge_finding
       (map (\<lambda>fp. (fp, record_row (the (map_of records fp)))) (concat chunks)) (findings st),
     occurrences := put_all merge_occurrence
       (map (\<lambda>fp. ((eid, fp), record_occurrence scan (the (map_of records fp)))) (concat chunks)) (occurrences st)\<rparr>))"
  using assms
proof (induction chunks arbitrary: st)
  case (Cons c chunks)
  have c: "c \<noteq> []" "length c \<le> findingBatchCountMax" "set c \<subseteq> set (map fst records)" "distinct c"
    using Cons.prems by auto
  have "upsertFindings records c (findings st) = Some (Inr (put_all merge_finding
      (map (\<lambda>fp. (fp, record_row (the (map_of records fp)))) c) (findings st)))"
    using c Cons.prems(1) by (simp add: upsertFindings_def upsert_args_eq comp_def)
  moreover have "insertOccurrences eid scan records c (occurrences st) = Some (put_all merge_occurrence
      (map (\<lambda>fp. ((eid, fp), record_occurrence scan (the (map_of records fp)))) c) (occurrences st))"
    using c Cons.prems(1,2) by (simp add: insertOccurrences_def occurrence_args_eq)
  moreover have "distinct (concat chunks)" "set (concat chunks) \<subseteq> set (map fst records)"
    using Cons.prems(3,4) by auto
  ultimately show ?case using Cons.IH[of "st\<lparr>findings := _, occurrences := _\<rparr>"] Cons.prems(1,2,5) by simp
qed simp

lemma count_loop_eq:
  assumes "records_ok records" "distinct order" "set order \<subseteq> set (map fst records)"
  shows "count_loop existing records order (evaluation, observed) = Some
    (evaluation\<lparr>eval_Opened := eval_Opened evaluation + int (length (filter (\<lambda>fp. fp \<notin> existing) order)),
       eval_Recurred := eval_Recurred evaluation
         + sum_list (map (\<lambda>fp. rec_rowCount (the (map_of records fp))) order)
         - int (length (filter (\<lambda>fp. fp \<notin> existing) order))\<rparr>, observed \<union> set order)"
  using assms
proof (induction order arbitrary: evaluation observed)
  case (Cons fp order)
  from Cons.prems records_ok_lookup[of records fp] obtain r where "map_of records fp = Some r" by auto
  with Cons show ?case by (auto simp: algebra_simps)
qed simp

definition finding_proposals :: "ScanRecord \<Rightarrow> SimpleQueryResult \<Rightarrow> ComplianceResult list \<Rightarrow> (string \<times> finding_row) list" where
  "finding_proposals scan result rows =
     map (\<lambda>r. (row_fingerprint scan result r, proposed_row (row_finding scan result r) 1)) rows"

definition occurrence_proposals :: "string \<Rightarrow> ScanRecord \<Rightarrow> SimpleQueryResult \<Rightarrow> ComplianceResult list \<Rightarrow>
    ((string \<times> string) \<times> occurrence_row) list" where
  "occurrence_proposals eid scan result rows = map (\<lambda>r. ((eid, row_fingerprint scan result r),
     proposed_occurrence scan (strings_ToUpper (cr_Status r)) (row_finding scan result r))) rows"

definition combine_finding :: "finding_row \<Rightarrow> finding_row \<Rightarrow> finding_row" where
  "combine_finding p q = q\<lparr>row_occurrence_count := row_occurrence_count p + row_occurrence_count q\<rparr>"

definition combine_occurrence :: "occurrence_row \<Rightarrow> occurrence_row \<Rightarrow> occurrence_row" where
  "combine_occurrence p q = p"

text \<open>Two proposals of one result for one fingerprint: they differ in what an upsert overwrites.\<close>

definition same_finding :: "finding_row \<Rightarrow> finding_row \<Rightarrow> bool" where
  "same_finding p q \<longleftrightarrow> p\<lparr>row_title := row_title q, row_severity := row_severity q, row_details := row_details q,
     row_remediation := row_remediation q, row_occurrence_count := row_occurrence_count q\<rparr> = q \<and>
     row_status q = ''open'' \<and> row_resolved_at q = None"

interpretation finding_writes: foldable_writes merge_finding combine_finding same_finding
proof
  fix p q old
  assume "same_finding p q"
  then show "merge_finding (Some (merge_finding old p)) q = merge_finding old (combine_finding p q)"
    by (cases p; cases q; cases old) (auto simp: same_finding_def merge_finding_def combine_finding_def)
next
  fix p q r
  assume "same_finding p r" "same_finding q r"
  then show "same_finding (combine_finding p q) r"
    by (cases p; cases q; cases r) (auto simp: same_finding_def combine_finding_def)
qed

interpretation occurrence_writes: foldable_writes merge_occurrence combine_occurrence "\<lambda>p q. True"
  by unfold_locales (auto simp: merge_occurrence_def combine_occurrence_def split: option.splits)

lemma record_rows_coalesce:
  "map (\<lambda>(fp, r). (fp, record_row r)) (folded_records scan result rows) =
     coalesce combine_finding (finding_proposals scan result rows)"
proof -
  have "map (map_prod id record_row) (folded_records scan result rows) =
      put_all (fold_merge combine_finding)
        (map (map_prod id (\<lambda>r. proposed_row (row_finding scan result r) 1)) (map (\<lambda>r. (row_fingerprint scan result r, r)) rows))
        (map (map_prod id record_row) [])"
    unfolding folded_records_def
    by (rule put_all_map) (auto simp: merge_record_def combine_finding_def proposed_row_def split: option.splits)
  then show ?thesis by (simp add: finding_proposals_def comp_def map_prod_def)
qed

lemma record_occurrences_coalesce:
  "map (\<lambda>(fp, r). ((eid, fp), record_occurrence scan r)) (folded_records scan result rows) =
     coalesce combine_occurrence (occurrence_proposals eid scan result rows)"
proof -
  have "map (map_prod (Pair eid) (record_occurrence scan)) (folded_records scan result rows) =
      put_all (fold_merge combine_occurrence)
        (map (map_prod (Pair eid) (\<lambda>r. proposed_occurrence scan (strings_ToUpper (cr_Status r)) (row_finding scan result r)))
          (map (\<lambda>r. (row_fingerprint scan result r, r)) rows))
        (map (map_prod (Pair eid) (record_occurrence scan)) [])"
    unfolding folded_records_def
    by (rule put_all_map) (auto simp: merge_record_def combine_occurrence_def inj_def split: option.splits)
  then show ?thesis by (simp add: occurrence_proposals_def comp_def map_prod_def)
qed

definition new_fingerprints :: "(string, finding_row) table \<Rightarrow> string list \<Rightarrow> nat" where
  "new_fingerprints t fps = card (set fps - fst ` set t)"

lemma recordResult_eq:
  assumes "sq_Error result = None" "eval_ID evaluation \<noteq> []"
  shows "recordResult evaluation scan result st =
    (let rows = failing_rows result; fps = map (row_fingerprint scan result) rows;
         new = int (new_fingerprints (findings st) fps) in
     Some (Inr (evaluation\<lparr>eval_Findings := eval_Findings evaluation @ map (row_finding scan result) rows,
         eval_Opened := eval_Opened evaluation + new,
         eval_Recurred := eval_Recurred evaluation + (int (length rows) - new)\<rparr>,
       st\<lparr>findings := put_all merge_finding (coalesce combine_finding (finding_proposals scan result rows)) (findings st),
         occurrences := put_all merge_occurrence
           (coalesce combine_occurrence (occurrence_proposals (eval_ID evaluation) scan result rows)) (occurrences st)\<rparr>,
       set fps)))"
proof -
  let ?rows = "failing_rows result"
  let ?recs = "folded_records scan result ?rows"
  let ?order = "map fst ?recs"
  have ok: "records_ok ?recs" and tok: "table_ok ?recs" by simp_all
  then have d: "distinct ?order" by (simp add: table_ok_def)
  have keys: "set ?order = row_fingerprint scan result ` set ?rows" by (simp add: folded_records_keys)
  have conc: "concat (batches ?order 0) = ?order" by (simp add: batches_concat)
  have ex: "existing_loop (findings st) (batches ?order 0) {} = Some (set ?order \<inter> fst ` set (findings st))"
    using existing_loop_eq[of "batches ?order 0"] batches_bounds conc by fastforce
  have new: "length (filter (\<lambda>fp. fp \<notin> set ?order \<inter> fst ` set (findings st)) ?order) =
      new_fingerprints (findings st) (map (row_fingerprint scan result) ?rows)"
    unfolding new_fingerprints_def using d keys
    by (subst distinct_card[symmetric]) (auto intro!: arg_cong[where f = card])
  have total: "sum_list (map (\<lambda>fp. rec_rowCount (the (map_of ?recs fp))) ?order) = int (length ?rows)"
  proof -
    have "map (\<lambda>fp. rec_rowCount (the (map_of ?recs fp))) ?order = map (rec_rowCount \<circ> snd) ?recs"
      using tok by (auto simp: table_ok_def)
    then show ?thesis using folded_records_total by metis
  qed
  have rows1: "map (\<lambda>fp. (fp, record_row (the (map_of ?recs fp)))) ?order =
      coalesce combine_finding (finding_proposals scan result ?rows)"
    using map_lookup_keys[OF tok, of "\<lambda>_ r. record_row r"] record_rows_coalesce[of scan result ?rows]
    unfolding table_ok_def[symmetric] by (auto simp: comp_def table_ok_def)
  have rows2: "map (\<lambda>fp. ((eval_ID evaluation, fp), record_occurrence scan (the (map_of ?recs fp)))) ?order =
      coalesce combine_occurrence (occurrence_proposals (eval_ID evaluation) scan result ?rows)"
  proof -
    have "map (\<lambda>fp. ((eval_ID evaluation, fp), record_occurrence scan (the (map_of ?recs fp)))) ?order =
        map (\<lambda>(fp, r). ((eval_ID evaluation, fp), record_occurrence scan r)) ?recs"
      using tok unfolding table_ok_def by (auto simp: comp_def)
    then show ?thesis using record_occurrences_coalesce by metis
  qed
  have bounds: "\<And>c. c \<in> set (batches ?order 0) \<Longrightarrow> c \<noteq> [] \<and> length c \<le> findingBatchCountMax"
    by (rule batches_bounds)
  have card: "card (set ?order) = length ?recs" using distinct_card[OF d] by simp
  let ?new = "int (new_fingerprints (findings st) (map (row_fingerprint scan result) ?rows))"
  let ?E1 = "evaluation\<lparr>eval_Findings := eval_Findings evaluation @ map (row_finding scan result) ?rows\<rparr>"
  have cl: "count_loop (set ?order \<inter> fst ` set (findings st)) ?recs ?order (?E1, {}) =
      Some (?E1\<lparr>eval_Opened := eval_Opened evaluation + ?new,
        eval_Recurred := eval_Recurred evaluation + (int (length ?rows) - ?new)\<rparr>, set ?order)"
    by (simp only: count_loop_eq[OF ok d order_refl] new total) simp
  have wl: "write_loop (eval_ID evaluation) scan ?recs (batches ?order 0) st = Some (Inr (st\<lparr>
      findings := put_all merge_finding (coalesce combine_finding (finding_proposals scan result ?rows)) (findings st),
      occurrences := put_all merge_occurrence
        (coalesce combine_occurrence (occurrence_proposals (eval_ID evaluation) scan result ?rows)) (occurrences st)\<rparr>))"
    using write_loop_eq[OF ok assms(2), of "batches ?order 0" scan st, unfolded conc, OF d order_refl bounds]
    unfolding rows1 rows2 by blast
  have keys': "set ?order = set (map (row_fingerprint scan result) ?rows)" using keys by simp
  show ?thesis
    unfolding recordResult_def foldFailingRows_eq
    using assms by (simp add: ex cl wl card Let_def del: set_map) (simp add: keys' del: set_map)
qed

subsection \<open>The per-row loop the batched code replaces\<close>

fun per_row_loop :: "ScanRecord \<Rightarrow> SimpleQueryResult \<Rightarrow> ComplianceResult list \<Rightarrow>
    Evaluation \<times> finding_store \<times> string set \<Rightarrow> Evaluation \<times> finding_store \<times> string set" where
  "per_row_loop scan result [] acc = acc"
| "per_row_loop scan result (row # rows) (evaluation, st, observed) =
     (if \<not> row_fails row then per_row_loop scan result rows (evaluation, st, observed)
      else (let fp = row_fingerprint scan result row; f = row_finding scan result row;
                seen = map_of (findings st) fp \<noteq> None in
        per_row_loop scan result rows
          (evaluation\<lparr>eval_Findings := eval_Findings evaluation @ [f],
             eval_Opened := eval_Opened evaluation + (if seen then 0 else 1),
             eval_Recurred := eval_Recurred evaluation + (if seen then 1 else 0)\<rparr>,
           st\<lparr>findings := put merge_finding (fp, proposed_row f 1) (findings st),
             occurrences := put merge_occurrence ((eval_ID evaluation, fp),
               proposed_occurrence scan (strings_ToUpper (cr_Status row)) f) (occurrences st)\<rparr>,
           insert fp observed)))"

lemma new_fingerprints_Nil [simp]: "new_fingerprints t [] = 0"
  by (simp add: new_fingerprints_def)

lemma new_fingerprints_Cons:
  "new_fingerprints t (fp # fps) =
     (if map_of t fp \<noteq> None then 0 else 1) + new_fingerprints (put m (fp, p) t) fps"
proof (cases "map_of t fp")
  case None
  then have "fp \<notin> fst ` set t" by (simp add: map_of_eq_None_iff)
  then have "set (fp # fps) - fst ` set t = insert fp (set fps - insert fp (fst ` set t))" by auto
  with None show ?thesis unfolding new_fingerprints_def keys_put by simp
next
  case (Some r)
  then have "fp \<in> fst ` set t" by (force dest: map_of_SomeD)
  with Some show ?thesis unfolding new_fingerprints_def keys_put by (simp add: insert_absorb insert_Diff_if)
qed

lemma new_fingerprints_le: "new_fingerprints t fps \<le> length fps"
  unfolding new_fingerprints_def by (meson List.finite_set card_length card_mono Diff_subset le_trans)

lemma per_row_loop_eq:
  "per_row_loop scan result rows (evaluation, st, observed) =
    (let fails = filter row_fails rows; fps = map (row_fingerprint scan result) fails;
         new = int (new_fingerprints (findings st) fps) in
     (evaluation\<lparr>eval_Findings := eval_Findings evaluation @ map (row_finding scan result) fails,
         eval_Opened := eval_Opened evaluation + new,
         eval_Recurred := eval_Recurred evaluation + (int (length fails) - new)\<rparr>,
       st\<lparr>findings := put_all merge_finding (finding_proposals scan result fails) (findings st),
         occurrences := put_all merge_occurrence
           (occurrence_proposals (eval_ID evaluation) scan result fails) (occurrences st)\<rparr>,
       observed \<union> set fps))"
proof (induction rows arbitrary: evaluation st observed)
  case (Cons row rows)
  show ?case
  proof (cases "row_fails row")
    case True
    let ?fp = "row_fingerprint scan result row" and ?f = "row_finding scan result row"
    show ?thesis
      using True new_fingerprints_Cons[of "findings st" ?fp _ merge_finding "proposed_row ?f 1"]
      by (simp add: Cons.IH Let_def finding_proposals_def occurrence_proposals_def)
  qed (simp add: Cons.IH)
qed (simp add: Let_def finding_proposals_def occurrence_proposals_def)

lemma finding_proposals_same:
  assumes "\<And>r r'. r \<in> set rows \<Longrightarrow> r' \<in> set rows \<Longrightarrow>
      row_fingerprint scan result r = row_fingerprint scan result r' \<Longrightarrow>
      cr_ControlID r = cr_ControlID r' \<and> cr_ResourceID r = cr_ResourceID r'"
    and "(k, p) \<in> set (finding_proposals scan result rows)" "(k, q) \<in> set (finding_proposals scan result rows)"
  shows "same_finding p q"
proof -
  from assms(2,3) obtain r r' where r: "r \<in> set rows" "r' \<in> set rows"
    and fp: "row_fingerprint scan result r = row_fingerprint scan result r'"
    and p: "p = proposed_row (row_finding scan result r) 1" and q: "q = proposed_row (row_finding scan result r') 1"
    unfolding finding_proposals_def by auto
  from assms(1)[OF r fp] have "cr_ControlID r = cr_ControlID r'" "cr_ResourceID r = cr_ResourceID r'" by simp_all
  then show ?thesis unfolding p q same_finding_def proposed_row_def row_finding_def by simp
qed

text \<open>
  C9. The batched code is the per-row loop. For a successful result in which rows with one
  fingerprint are rows of one control and one resource, folding the rows, reading existence in
  chunks of 256 and writing multi-row statements leaves the same findings, occurrences, totals,
  reported findings and observed set as checking, counting, upserting and inserting row by row; no
  assertion fails and no statement proposes a key twice.
\<close>

theorem recordResult_is_per_row_loop:
  assumes "sq_Error result = None" "eval_ID evaluation \<noteq> []"
    and "\<And>r r'. r \<in> set (sq_Rows result) \<Longrightarrow> r' \<in> set (sq_Rows result) \<Longrightarrow>
      row_fingerprint scan result r = row_fingerprint scan result r' \<Longrightarrow>
      cr_ControlID r = cr_ControlID r' \<and> cr_ResourceID r = cr_ResourceID r'"
  shows "recordResult evaluation scan result st =
    Some (Inr (per_row_loop scan result (sq_Rows result) (evaluation, st, {})))"
proof -
  have "same_finding p q" if "(k, p) \<in> set (finding_proposals scan result (failing_rows result))"
    "(k, q) \<in> set (finding_proposals scan result (failing_rows result))" for k p q
    by (rule finding_proposals_same[OF _ that]) (use assms(3) in \<open>auto simp: failing_rows_def\<close>)
  then show ?thesis
    unfolding recordResult_eq[OF assms(1,2)] per_row_loop_eq failing_rows_def[symmetric] Let_def
    by (simp add: finding_writes.coalesce_writes occurrence_writes.coalesce_writes)
qed

subsection \<open>Resolution\<close>

definition resolved_row :: "timestamp \<Rightarrow> finding_row \<Rightarrow> finding_row" where
  "resolved_row at r = r\<lparr>row_status := ''resolved'', row_resolved_at := Some at\<rparr>"

definition resolve_where :: "timestamp \<Rightarrow> string set \<Rightarrow> (string, finding_row) table \<Rightarrow> (string, finding_row) table" where
  "resolve_where at fps t = map (\<lambda>(fp, r). (fp, if fp \<in> fps then resolved_row at r else r)) t"

lemma resolve_update_where: "resolve_update at fp t = resolve_where at {fp} t"
  by (auto simp: resolve_update_def resolve_where_def resolved_row_def)

lemma resolve_where_keys [simp]: "map fst (resolve_where at fps t) = map fst t"
  by (auto simp: resolve_where_def)

lemma resolved_row_twice [simp]: "resolved_row at (resolved_row at r) = resolved_row at r"
  by (simp add: resolved_row_def)

lemma resolve_where_where: "resolve_where at fps (resolve_where at fps' t) = resolve_where at (fps \<union> fps') t"
  by (auto simp: resolve_where_def)

lemma resolve_where_none [simp]: "resolve_where at {} t = t"
  by (auto simp: resolve_where_def)

lemma map_of_resolve_where:
  "map_of (resolve_where at fps t) fp = map_option (\<lambda>r. if fp \<in> fps then resolved_row at r else r) (map_of t fp)"
  by (induction t) (auto simp: resolve_where_def)

lemma length_filter_key: "distinct (map fst t) \<Longrightarrow> fp \<in> fst ` set t \<Longrightarrow> length (filter (\<lambda>(k, r). k = fp) t) = 1"
proof (induction t)
  case (Cons x t)
  then show ?case by (cases "fst x = fp") (auto simp: filter_empty_conv rev_image_eqI case_prod_unfold)
qed simp

lemma resolve_loop_eq:
  "table_ok t \<Longrightarrow> set cs \<subseteq> fst ` set t \<Longrightarrow> resolve_loop at observed cs t n =
     (resolve_where at (set cs - observed) t, n + int (length (filter (\<lambda>fp. fp \<notin> observed) cs)))"
proof (induction cs arbitrary: t n)
  case (Cons fp cs)
  show ?case
  proof (cases "fp \<in> observed")
    case True
    then have "set (fp # cs) - observed = set cs - observed" by auto
    with True Cons show ?thesis by simp
  next
    case False
    let ?t = "resolve_where at {fp} t"
    have ok: "table_ok ?t" using Cons.prems by (simp add: table_ok_def)
    have "set (map fst ?t) = set (map fst t)" by (simp only: resolve_where_keys)
    with Cons.prems(2) have sub: "set cs \<subseteq> fst ` set ?t" by (simp only: set_map[symmetric]) simp
    have one: "length (filter (\<lambda>(k, r). k = fp) t) = 1"
      using Cons.prems by (intro length_filter_key) (auto simp: table_ok_def)
    have un: "set cs - observed \<union> {fp} = set (fp # cs) - observed" using False by auto
    show ?thesis
      using False by (simp only: resolve_loop.simps if_False Cons.IH[OF ok sub] resolve_update_where
          resolve_where_where un one) simp
  qed
qed simp

lemma resolveAbsent_eq:
  assumes "table_ok t"
  shows "resolveAbsent packRef controlID scan observed t =
    (let gone = filter (\<lambda>(fp, r). resolve_candidate packRef controlID scan r \<and> fp \<notin> observed) t in
     (resolve_where (scan_StartedAt scan) (fst ` set gone) t, int (length gone)))"
proof -
  let ?c = "filter (\<lambda>(fp, r). resolve_candidate packRef controlID scan r) t"
  have sub: "set (map fst ?c) \<subseteq> fst ` set t" by auto
  have "set (map fst ?c) - observed =
      fst ` set (filter (\<lambda>(fp, r). resolve_candidate packRef controlID scan r \<and> fp \<notin> observed) t)" by force
  moreover have "length (filter (\<lambda>fp. fp \<notin> observed) (map fst ?c)) =
      length (filter (\<lambda>(fp, r). resolve_candidate packRef controlID scan r \<and> fp \<notin> observed) t)"
    by (induction t) auto
  ultimately show ?thesis
    unfolding resolveAbsent_def resolve_loop_eq[OF assms sub] by (simp only: Let_def add_0)
qed

lemma map_of_resolveAbsent:
  assumes "table_ok t"
  shows "map_of (fst (resolveAbsent packRef controlID scan observed t)) fp =
    map_option (\<lambda>r. if resolve_candidate packRef controlID scan r \<and> fp \<notin> observed
       then resolved_row (scan_StartedAt scan) r else r) (map_of t fp)"
proof (cases "map_of t fp")
  case (Some r)
  have "fp \<in> fst ` set (filter (\<lambda>(fp, r). resolve_candidate packRef controlID scan r \<and> fp \<notin> observed) t) \<longleftrightarrow>
      resolve_candidate packRef controlID scan r \<and> fp \<notin> observed"
  proof
    assume "fp \<in> fst ` set (filter (\<lambda>(fp, r). resolve_candidate packRef controlID scan r \<and> fp \<notin> observed) t)"
    then obtain r' where r': "(fp, r') \<in> set t" "resolve_candidate packRef controlID scan r'" "fp \<notin> observed" by auto
    with assms Some have "r' = r" by (simp add: table_ok_def)
    with r' show "resolve_candidate packRef controlID scan r \<and> fp \<notin> observed" by simp
  next
    assume "resolve_candidate packRef controlID scan r \<and> fp \<notin> observed"
    with map_of_SomeD[OF Some] show "fp \<in> fst ` set (filter (\<lambda>(fp, r). resolve_candidate packRef controlID scan r \<and> fp \<notin> observed) t)"
      by (intro rev_image_eqI[of "(fp, r)"]) simp_all
  qed
  with Some show ?thesis by (simp add: resolveAbsent_eq[OF assms] Let_def map_of_resolve_where)
qed (simp add: resolveAbsent_eq[OF assms] Let_def map_of_resolve_where)

lemma table_ok_resolveAbsent [simp]: "table_ok t \<Longrightarrow> table_ok (fst (resolveAbsent p c scan observed t))"
  by (simp add: resolveAbsent_eq Let_def table_ok_def)

subsection \<open>What a run does to the store\<close>

definition proposal_of :: "ScanRecord \<Rightarrow> finding_row \<Rightarrow> bool" where
  "proposal_of scan p \<longleftrightarrow> row_status p = ''open'' \<and> row_resolved_at p = None \<and>
     row_last_seen_at p = scan_StartedAt scan \<and> row_last_seen_scan p = scan_ID scan \<and> row_occurrence_count p > 0"

lemma coalesced_proposal:
  "kp \<in> set (coalesce combine_finding (finding_proposals scan result rows)) \<Longrightarrow> proposal_of scan (snd kp)"
  by (cases kp, simp only: snd_conv, rule put_all_rows[where P = "proposal_of scan" and Q = "proposal_of scan"])
    (auto simp: finding_proposals_def proposal_of_def proposed_row_def row_finding_def combine_finding_def)

text \<open>How a run at the instant \<open>at\<close> may change a table.\<close>

definition row_advances :: "timestamp \<Rightarrow> finding_row \<Rightarrow> finding_row \<Rightarrow> bool" where
  "row_advances at r r' \<longleftrightarrow> row_last_seen_at r \<le> row_last_seen_at r' \<and>
     row_occurrence_count r \<le> row_occurrence_count r' \<and>
     row_first_seen_at r' = row_first_seen_at r \<and> row_first_seen_scan r' = row_first_seen_scan r \<and>
     (row_last_seen_at r > at \<longrightarrow> r' = r)"

definition table_advances :: "timestamp \<Rightarrow> (string, finding_row) table \<Rightarrow> (string, finding_row) table \<Rightarrow> bool" where
  "table_advances at t t' \<longleftrightarrow>
     (\<forall>fp r. map_of t fp = Some r \<longrightarrow> (\<exists>r'. map_of t' fp = Some r' \<and> row_advances at r r'))"

lemma row_advances_refl [simp]: "row_advances at r r"
  by (simp add: row_advances_def)

lemma row_advances_trans: "row_advances at r r' \<Longrightarrow> row_advances at r' r'' \<Longrightarrow> row_advances at r r''"
  by (auto simp: row_advances_def)

lemma table_advances_refl [simp]: "table_advances at t t"
  by (simp add: table_advances_def)

lemma table_advances_trans: "table_advances at t t' \<Longrightarrow> table_advances at t' t'' \<Longrightarrow> table_advances at t t''"
  unfolding table_advances_def by (meson row_advances_trans)

lemma merge_finding_advances:
  "proposal_of scan p \<Longrightarrow> row_advances (scan_StartedAt scan) r (merge_finding (Some r) p)"
  by (auto simp: merge_finding_def proposal_of_def row_advances_def)

lemma put_all_advances:
  "(\<And>kp. kp \<in> set ps \<Longrightarrow> proposal_of scan (snd kp)) \<Longrightarrow>
     table_advances (scan_StartedAt scan) t (put_all merge_finding ps t)"
proof (induction ps arbitrary: t)
  case (Cons kp ps)
  have "table_advances (scan_StartedAt scan) t (put merge_finding kp t)"
    using merge_finding_advances[OF Cons.prems[of kp]] by (auto simp: table_advances_def map_of_put)
  moreover have "table_advances (scan_StartedAt scan) (put merge_finding kp t) (put_all merge_finding (kp # ps) t)"
    using Cons by simp
  ultimately show ?case by (rule table_advances_trans)
qed simp

lemma resolveAbsent_advances:
  "table_ok t \<Longrightarrow> table_advances (scan_StartedAt scan) t (fst (resolveAbsent packRef controlID scan observed t))"
  by (auto simp: table_advances_def map_of_resolveAbsent resolve_candidate_def resolved_row_def row_advances_def)

definition totals_ok :: "Evaluation \<Rightarrow> bool" where
  "totals_ok evaluation \<longleftrightarrow> eval_Opened evaluation \<ge> 0 \<and> eval_Recurred evaluation \<ge> 0 \<and>
     eval_Opened evaluation + eval_Recurred evaluation = int (length (eval_Findings evaluation))"

lemma recordResult_step:
  assumes "sq_Error result = None" "eval_ID evaluation \<noteq> []" "table_ok (findings st)" "totals_ok evaluation"
  obtains evaluation' st' observed where
    "recordResult evaluation scan result st = Some (Inr (evaluation', st', observed))"
    "totals_ok evaluation'" "eval_ID evaluation' = eval_ID evaluation" "eval_Status evaluation' = eval_Status evaluation"
    "eval_Findings evaluation' = eval_Findings evaluation @ map (row_finding scan result) (failing_rows result)"
    "table_ok (findings st')" "table_advances (scan_StartedAt scan) (findings st) (findings st')"
    "suppressions st' = suppressions st"
proof (rule that)
  show "recordResult evaluation scan result st = Some (Inr (
      evaluation\<lparr>eval_Findings := eval_Findings evaluation @ map (row_finding scan result) (failing_rows result),
         eval_Opened := eval_Opened evaluation
           + int (new_fingerprints (findings st) (map (row_fingerprint scan result) (failing_rows result))),
         eval_Recurred := eval_Recurred evaluation + (int (length (failing_rows result))
           - int (new_fingerprints (findings st) (map (row_fingerprint scan result) (failing_rows result))))\<rparr>,
      st\<lparr>findings := put_all merge_finding
           (coalesce combine_finding (finding_proposals scan result (failing_rows result))) (findings st),
         occurrences := put_all merge_occurrence (coalesce combine_occurrence
           (occurrence_proposals (eval_ID evaluation) scan result (failing_rows result))) (occurrences st)\<rparr>,
      set (map (row_fingerprint scan result) (failing_rows result))))"
    using recordResult_eq[OF assms(1,2), of scan st] by (simp only: Let_def)
qed (use assms(3,4) new_fingerprints_le[of "findings st" "map (row_fingerprint scan result) (failing_rows result)"]
  in \<open>simp_all add: totals_ok_def put_all_advances coalesced_proposal\<close>)

lemma record_loop_step:
  assumes "eval_ID evaluation \<noteq> []" "table_ok (findings st)" "totals_ok evaluation"
  shows "\<exists>evaluation' st'. record_loop scan results (evaluation, st, s, f) = Some (Inr (evaluation', st',
       s + length (filter (\<lambda>r. sq_Error r = None) results), f + length (filter (\<lambda>r. sq_Error r \<noteq> None) results))) \<and>
     totals_ok evaluation' \<and> eval_ID evaluation' = eval_ID evaluation \<and> eval_Status evaluation' = eval_Status evaluation \<and>
     eval_Findings evaluation' = eval_Findings evaluation @
       concat (map (\<lambda>r. map (row_finding scan r) (failing_rows r)) (filter (\<lambda>r. sq_Error r = None) results)) \<and>
     table_ok (findings st') \<and> table_advances (scan_StartedAt scan) (findings st) (findings st') \<and>
     suppressions st' = suppressions st"
  using assms
proof (induction results arbitrary: evaluation st s f)
  case (Cons result results)
  show ?case
  proof (cases "sq_Error result")
    case (Some err)
    with Cons.IH[of "evaluation\<lparr>eval_Error := err\<rparr>" st s "f + 1"] Cons.prems show ?thesis
      by (auto simp: totals_ok_def)
  next
    case None
    from recordResult_step[OF None Cons.prems] obtain evaluation' st' observed where
      r: "recordResult evaluation scan result st = Some (Inr (evaluation', st', observed))"
      "totals_ok evaluation'" "eval_ID evaluation' = eval_ID evaluation" "eval_Status evaluation' = eval_Status evaluation"
      "eval_Findings evaluation' = eval_Findings evaluation @ map (row_finding scan result) (failing_rows result)"
      "table_ok (findings st')" "table_advances (scan_StartedAt scan) (findings st) (findings st')"
      "suppressions st' = suppressions st" .
    obtain t n where t: "resolveAbsent (sq_PackRef result) (sq_ControlID result) scan observed (findings st') = (t, n)"
      by (cases "resolveAbsent (sq_PackRef result) (sq_ControlID result) scan observed (findings st')")
    have tok: "table_ok t" "table_advances (scan_StartedAt scan) (findings st') t"
      using table_ok_resolveAbsent[OF r(6), of "sq_PackRef result" "sq_ControlID result" scan observed]
        resolveAbsent_advances[OF r(6), of scan "sq_PackRef result" "sq_ControlID result" observed] t by simp_all
    let ?E = "evaluation'\<lparr>eval_Resolved := eval_Resolved evaluation' + n\<rparr>" and ?st = "st'\<lparr>findings := t\<rparr>"
    have adv: "table_advances (scan_StartedAt scan) (findings st) t" using r(7) tok(2) by (rule table_advances_trans)
    have "eval_ID ?E \<noteq> []" "table_ok (findings ?st)" "totals_ok ?E"
      using Cons.prems(1) r(2,3) tok(1) by (simp_all add: totals_ok_def)
    from Cons.IH[OF this, of "s + 1" f] obtain E'' st'' where x:
      "record_loop scan results (?E, ?st, s + 1, f) = Some (Inr (E'', st'',
         s + 1 + length (filter (\<lambda>r. sq_Error r = None) results), f + length (filter (\<lambda>r. sq_Error r \<noteq> None) results)))"
      "totals_ok E''" "eval_ID E'' = eval_ID ?E" "eval_Status E'' = eval_Status ?E"
      "eval_Findings E'' = eval_Findings ?E @
         concat (map (\<lambda>r. map (row_finding scan r) (failing_rows r)) (filter (\<lambda>r. sq_Error r = None) results))"
      "table_ok (findings st'')" "table_advances (scan_StartedAt scan) (findings ?st) (findings st'')"
      "suppressions st'' = suppressions ?st" by blast
    have "table_advances (scan_StartedAt scan) (findings st) (findings st'')"
      using table_advances_trans[OF adv, of "findings st''"] x(7) by simp
    with None r t x show ?thesis by (intro exI[of _ E''] exI[of _ st'']) simp
  qed
qed simp

text \<open>An evaluation always runs to its end.\<close>

lemma recordResults_runs:
  fixes results :: "SimpleQueryResult list"
  defines "ok \<equiv> length (filter (\<lambda>r. sq_Error r = None) results)" and "bad \<equiv> length (filter (\<lambda>r. sq_Error r \<noteq> None) results)"
  assumes "uuid \<noteq> []" "table_ok (findings st)"
  obtains E st' where
    "recordResults (Evaluation_new uuid scan) scan results st =
       Some (Inr (if bad > 0 then E\<lparr>eval_Status := (if ok = 0 then ''failed'' else ''partial'')\<rparr> else E, st'))"
    "totals_ok E" "eval_Status E = ''completed''"
    "eval_Findings E = concat (map (\<lambda>r. map (row_finding scan r) (failing_rows r)) (filter (\<lambda>r. sq_Error r = None) results))"
    "table_ok (findings st')"
proof -
  have "eval_ID (Evaluation_new uuid scan) \<noteq> []" "totals_ok (Evaluation_new uuid scan)"
    using assms(3) by (simp_all add: Evaluation_new_def totals_ok_def)
  from record_loop_step[OF this(1) assms(4) this(2), of scan results 0 0] obtain E st' where r:
    "record_loop scan results (Evaluation_new uuid scan, st, 0, 0) = Some (Inr (E, st', ok, bad))"
    "totals_ok E" "eval_Status E = ''completed''"
    "eval_Findings E = concat (map (\<lambda>r. map (row_finding scan r) (failing_rows r)) (filter (\<lambda>r. sq_Error r = None) results))"
    "table_ok (findings st')"
    by (auto simp: Evaluation_new_def ok_def bad_def)
  have sum: "ok + bad = length results" unfolding ok_def bad_def by (induction results) auto
  have "totals_ok (if bad > 0 then E\<lparr>eval_Status := (if ok = 0 then ''failed'' else ''partial'')\<rparr> else E)"
    using r(2) by (simp add: totals_ok_def)
  then have "assertEvaluationTotals (if bad > 0 then E\<lparr>eval_Status := (if ok = 0 then ''failed'' else ''partial'')\<rparr> else E) = Some ()"
    by (simp add: assertEvaluationTotals_def totals_ok_def)
  then have "recordResults (Evaluation_new uuid scan) scan results st =
      Some (Inr (if bad > 0 then E\<lparr>eval_Status := (if ok = 0 then ''failed'' else ''partial'')\<rparr> else E, st'))"
    unfolding recordResults_def r(1) using sum by (simp add: Let_def)
  with r that show ?thesis by blast
qed

text \<open>
  \<open>recordResults\<close> never panics and never fails on a statement, its totals account for every
  failing row of every successful control exactly once, and the status of the evaluation says how
  many controls could be evaluated: completed when none failed, failed when all of one or more did,
  partial otherwise.
\<close>

lemma recordResults_totals:
  assumes "uuid \<noteq> []" "table_ok (findings st)"
  shows "\<exists>evaluation st'. recordResults (Evaluation_new uuid scan) scan results st = Some (Inr (evaluation, st')) \<and>
     eval_Findings evaluation =
       concat (map (\<lambda>r. map (row_finding scan r) (failing_rows r)) (filter (\<lambda>r. sq_Error r = None) results)) \<and>
     eval_Opened evaluation + eval_Recurred evaluation = int (length (eval_Findings evaluation)) \<and>
     0 \<le> eval_Opened evaluation \<and> 0 \<le> eval_Recurred evaluation \<and>
     (eval_Status evaluation = ''completed'' \<longleftrightarrow> (\<forall>r \<in> set results. sq_Error r = None)) \<and>
     (eval_Status evaluation = ''failed'' \<longleftrightarrow> results \<noteq> [] \<and> (\<forall>r \<in> set results. sq_Error r \<noteq> None)) \<and>
     eval_Status evaluation \<in> {''completed'', ''failed'', ''partial''} \<and> table_ok (findings st')"
proof -
  let ?ok = "length (filter (\<lambda>r. sq_Error r = None) results)" and ?bad = "length (filter (\<lambda>r. sq_Error r \<noteq> None) results)"
  obtain E st' where rr: "recordResults (Evaluation_new uuid scan) scan results st =
       Some (Inr (if ?bad > 0 then E\<lparr>eval_Status := (if ?ok = 0 then ''failed'' else ''partial'')\<rparr> else E, st'))"
    and r: "totals_ok E" "eval_Status E = ''completed''"
    "eval_Findings E = concat (map (\<lambda>r. map (row_finding scan r) (failing_rows r)) (filter (\<lambda>r. sq_Error r = None) results))"
    "table_ok (findings st')"
    by (rule recordResults_runs[OF assms, of scan results])
  have bad: "?bad > 0 \<longleftrightarrow> (\<exists>r \<in> set results. sq_Error r \<noteq> None)" by (auto simp: filter_empty_conv)
  have ok: "?ok = 0 \<longleftrightarrow> (\<forall>r \<in> set results. sq_Error r \<noteq> None)" by (auto simp: filter_empty_conv)
  let ?E = "if ?bad > 0 then E\<lparr>eval_Status := (if ?ok = 0 then ''failed'' else ''partial'')\<rparr> else E"
  have t: "totals_ok ?E" using r(1) by (simp add: totals_ok_def)
  have st: "eval_Status ?E = (if ?bad > 0 then if ?ok = 0 then ''failed'' else ''partial'' else ''completed'')"
    using r(2) by simp
  show ?thesis
  proof (intro exI conjI)
    show "recordResults (Evaluation_new uuid scan) scan results st = Some (Inr (?E, st'))" by (rule rr)
    show "eval_Findings ?E = concat (map (\<lambda>r. map (row_finding scan r) (failing_rows r)) (filter (\<lambda>r. sq_Error r = None) results))"
      using r(3) by simp
    show "eval_Status ?E = ''completed'' \<longleftrightarrow> (\<forall>r \<in> set results. sq_Error r = None)"
      unfolding st using bad by auto
    show "eval_Status ?E = ''failed'' \<longleftrightarrow> results \<noteq> [] \<and> (\<forall>r \<in> set results. sq_Error r \<noteq> None)"
      unfolding st using bad ok by auto
    show "eval_Status ?E \<in> {''completed'', ''failed'', ''partial''}" unfolding st by simp
  qed (use t r(4) in \<open>simp_all add: totals_ok_def\<close>)
qed

text \<open>
  C11. Evaluating scans out of order is safe. Whatever is evaluated, no finding disappears, no
  \<open>last_seen_at\<close> and no occurrence count goes down, the first sighting is never rewritten, and a
  finding last seen after the start of the evaluated scan is left exactly as it was: an older
  snapshot neither reopens nor resolves what a newer one has settled.
\<close>

theorem recordResults_advances:
  assumes "recordResults (Evaluation_new uuid scan) scan results st = Some (Inr (evaluation, st'))"
    "uuid \<noteq> []" "table_ok (findings st)" "map_of (findings st) fp = Some r"
  shows "\<exists>r'. map_of (findings st') fp = Some r' \<and> row_last_seen_at r \<le> row_last_seen_at r' \<and>
     row_occurrence_count r \<le> row_occurrence_count r' \<and> row_first_seen_at r' = row_first_seen_at r \<and>
     row_first_seen_scan r' = row_first_seen_scan r \<and> (row_last_seen_at r > scan_StartedAt scan \<longrightarrow> r' = r)"
proof -
  have "eval_ID (Evaluation_new uuid scan) \<noteq> []" "totals_ok (Evaluation_new uuid scan)"
    using assms(2) by (simp_all add: Evaluation_new_def totals_ok_def)
  from record_loop_step[OF this(1) assms(3) this(2), of scan results 0 0] obtain E' st'' s f where
    x: "record_loop scan results (Evaluation_new uuid scan, st, 0, 0) = Some (Inr (E', st'', s, f))"
    "table_advances (scan_StartedAt scan) (findings st) (findings st'')" by blast
  from assms(1) have "st' = st''" unfolding recordResults_def x(1) by (auto simp: panics_iff Let_def)
  with x(2) assms(4) show ?thesis unfolding table_advances_def row_advances_def by blast
qed

lemma recorded_row:
  assumes "sq_Error result = None" "eval_ID evaluation \<noteq> []"
    "recordResult evaluation scan result st = Some (Inr (evaluation', st', observed))"
  shows "observed = row_fingerprint scan result ` set (failing_rows result)"
    "fp \<in> observed \<Longrightarrow> \<exists>p. proposal_of scan p \<and> map_of (findings st') fp = Some (merge_finding (map_of (findings st) fp) p)"
    "fp \<notin> observed \<Longrightarrow> map_of (findings st') fp = map_of (findings st) fp"
    "table_ok (findings st) \<Longrightarrow> table_ok (findings st')"
proof -
  let ?ps = "coalesce combine_finding (finding_proposals scan result (failing_rows result))"
  have st': "findings st' = put_all merge_finding ?ps (findings st)"
    and obs: "observed = set (map (row_fingerprint scan result) (failing_rows result))"
    using recordResult_eq[OF assms(1,2), of scan st] assms(3) by (auto simp: Let_def)
  show "observed = row_fingerprint scan result ` set (failing_rows result)" using obs by simp
  have keys: "fst ` set ?ps = observed"
    by (simp add: keys_put_all finding_proposals_def image_image obs)
  have dist: "distinct (map fst ?ps)" using table_ok_put_all[OF table_ok_Nil] unfolding table_ok_def .
  show "\<exists>p. proposal_of scan p \<and> map_of (findings st') fp = Some (merge_finding (map_of (findings st) fp) p)"
    if "fp \<in> observed"
  proof -
    from that keys obtain p where p: "(fp, p) \<in> set ?ps" by fastforce
    with coalesced_proposal[OF p] map_of_put_all_distinct[OF dist p] show ?thesis by (auto simp: st')
  qed
  show "map_of (findings st') fp = map_of (findings st) fp" if "fp \<notin> observed"
    using that keys by (simp add: st' map_of_put_all_notin)
  show "table_ok (findings st')" if "table_ok (findings st)" using that by (simp add: st')
qed

text \<open>
  C12. What one evaluated control leaves behind. Every fingerprint it observed is stored, and is open
  with this scan as its last sighting unless a newer scan has seen it. Every finding of the control,
  pack and scope that is still open was observed or was last seen by a newer scan. A finding that
  was neither observed nor a candidate is untouched.
\<close>

theorem evaluated_control_lifecycle:
  assumes "sq_Error result = None" "eval_ID evaluation \<noteq> []" "table_ok (findings st)"
    and "recordResult evaluation scan result st = Some (Inr (evaluation', st', observed))"
    and "resolveAbsent (sq_PackRef result) (sq_ControlID result) scan observed (findings st') = (t, n)"
  shows "(\<forall>fp \<in> observed. \<exists>r. map_of t fp = Some r \<and> (row_last_seen_at r > scan_StartedAt scan \<or>
       row_status r = ''open'' \<and> row_resolved_at r = None \<and>
       row_last_seen_at r = scan_StartedAt scan \<and> row_last_seen_scan r = scan_ID scan)) \<and>
     (\<forall>fp r. map_of t fp = Some r \<and> row_pack_ref r = sq_PackRef result \<and> row_control_id r = sq_ControlID result \<and>
       row_scope_key r = scan_ScopeKey scan \<and> row_status r = ''open'' \<longrightarrow>
       fp \<in> observed \<or> row_last_seen_at r > scan_StartedAt scan) \<and>
     (\<forall>fp r. fp \<notin> observed \<and> map_of (findings st) fp = Some r \<and>
       \<not> resolve_candidate (sq_PackRef result) (sq_ControlID result) scan r \<longrightarrow> map_of t fp = Some r)"
proof -
  note row = recorded_row[OF assms(1,2,4)]
  have t: "map_of t fp = map_option (\<lambda>r. if resolve_candidate (sq_PackRef result) (sq_ControlID result) scan r \<and>
      fp \<notin> observed then resolved_row (scan_StartedAt scan) r else r) (map_of (findings st') fp)" for fp
    using map_of_resolveAbsent[OF row(4)[OF assms(3)], of "sq_PackRef result" "sq_ControlID result" scan observed fp]
    by (simp add: assms(5))
  have observed: "\<exists>r. map_of t fp = Some r \<and> (row_last_seen_at r > scan_StartedAt scan \<or>
       row_status r = ''open'' \<and> row_resolved_at r = None \<and>
       row_last_seen_at r = scan_StartedAt scan \<and> row_last_seen_scan r = scan_ID scan)" if "fp \<in> observed" for fp
  proof -
    from row(2)[OF that] obtain p where "proposal_of scan p"
      "map_of (findings st') fp = Some (merge_finding (map_of (findings st) fp) p)" by blast
    with that show ?thesis
      by (cases "map_of (findings st) fp") (auto simp: t merge_finding_def proposal_of_def)
  qed
  have open_kept: "fp \<in> observed \<or> row_last_seen_at r > scan_StartedAt scan"
    if "map_of t fp = Some r" "row_pack_ref r = sq_PackRef result" "row_control_id r = sq_ControlID result"
      "row_scope_key r = scan_ScopeKey scan" "row_status r = ''open''" for fp r
  proof (rule ccontr)
    assume c: "\<not> (fp \<in> observed \<or> row_last_seen_at r > scan_StartedAt scan)"
    from that(1) obtain r0 where r0: "map_of (findings st') fp = Some r0"
      "r = (if resolve_candidate (sq_PackRef result) (sq_ControlID result) scan r0 \<and> fp \<notin> observed
        then resolved_row (scan_StartedAt scan) r0 else r0)" by (auto simp: t)
    with that(5) have "r = r0" by (auto simp: resolved_row_def)
    have "resolve_candidate (sq_PackRef result) (sq_ControlID result) scan r0 \<and> fp \<notin> observed"
      using that c \<open>r = r0\<close> by (simp add: resolve_candidate_def)
    with r0(2) have "r = resolved_row (scan_StartedAt scan) r0" by (simp only: if_True simp_thms)
    with that(5) show False by (simp add: resolved_row_def)
  qed
  show ?thesis using observed open_kept row(3) by (auto simp: t)
qed

subsection \<open>Listing and suppressing\<close>

text \<open>The rank in the \<open>ORDER BY\<close> of the listing query, which compares the stored severity as it is.\<close>

definition severity_case :: "string \<Rightarrow> int" where
  "severity_case v = (if v = ''CRITICAL'' then 4 else if v = ''HIGH'' then 3 else if v = ''MEDIUM'' then 2
     else if v = ''LOW'' then 1 else 0)"

definition suppression_active :: "timestamp \<Rightarrow> string \<Rightarrow> suppression_row \<Rightarrow> bool" where
  "suppression_active now fp s \<longleftrightarrow> sup_fingerprint s = fp \<and> sup_revoked_at s = None \<and>
     (case sup_expires_at s of None \<Rightarrow> True | Some e \<Rightarrow> e > now)"

definition listed_finding :: "timestamp \<Rightarrow> suppression_row list \<Rightarrow> string \<times> finding_row \<Rightarrow> Finding" where
  "listed_finding now sups kr = (case kr of (fp, r) \<Rightarrow>
     \<lparr>fnd_Fingerprint = fp, fnd_PackRef = row_pack_ref r, fnd_ControlID = row_control_id r,
      fnd_Provider = row_provider r, fnd_ResourceID = row_resource_id r, fnd_ScopeKey = row_scope_key r,
      fnd_Title = row_title r, fnd_Severity = row_severity r, fnd_Details = row_details r,
      fnd_Remediation = (case row_remediation r of None \<Rightarrow> [] | Some m \<Rightarrow> m),
      fnd_Status = (if row_status r = ''open'' \<and> list_ex (suppression_active now fp) sups then ''suppressed''
        else row_status r),
      fnd_FirstSeenScan = row_first_seen_scan r, fnd_LastSeenScan = row_last_seen_scan r,
      fnd_FirstSeenAt = row_first_seen_at r, fnd_LastSeenAt = row_last_seen_at r,
      fnd_ResolvedAt = row_resolved_at r, fnd_OccurrenceCount = row_occurrence_count r\<rparr>)"

definition list_where :: "ListFilter \<Rightarrow> finding_row \<Rightarrow> bool" where
  "list_where flt r \<longleftrightarrow> (lf_Provider flt = [] \<or> row_provider r = lf_Provider flt) \<and>
     (lf_ControlID flt = [] \<or> row_control_id r = lf_ControlID flt) \<and>
     (lf_ScanID flt = [] \<or> row_last_seen_scan r = lf_ScanID flt) \<and>
     (lf_PackRef flt = [] \<or> row_pack_ref r = lf_PackRef flt)"

definition list_query :: "timestamp \<Rightarrow> ListFilter \<Rightarrow> finding_store \<Rightarrow> Finding list" where
  "list_query now flt st = map (listed_finding now (suppressions st))
     (sort_key (\<lambda>(fp, r). (- severity_case (row_severity r), row_provider r, row_resource_id r))
       (filter (\<lambda>(fp, r). list_where flt r) (findings st)))"

fun list_loop :: "ListFilter \<Rightarrow> Finding list \<Rightarrow> Finding list \<Rightarrow> Finding list" where
  "list_loop flt [] result = result"
| "list_loop flt (item # items) result =
     (if lf_Status flt \<noteq> [] \<and> fnd_Status item \<noteq> lf_Status flt then list_loop flt items result
      else if lf_MinSeverity flt \<noteq> [] \<and> severityRank (fnd_Severity item) < severityRank (lf_MinSeverity flt)
      then list_loop flt items result
      else list_loop flt items (result @ [item]))"

definition List_findings :: "timestamp \<Rightarrow> ListFilter \<Rightarrow> finding_store \<Rightarrow> Finding list" where
  "List_findings now flt st = list_loop flt (list_query now flt st) []"

definition Suppress :: "timestamp \<Rightarrow> string \<Rightarrow> string \<Rightarrow> string \<Rightarrow> string \<Rightarrow> timestamp option \<Rightarrow> finding_store \<Rightarrow>
    string + finding_store" where
  "Suppress now uuid fingerprint reason actor until st =
     (if strings_TrimSpace reason = [] then Inl ''suppression reason is required''
      else if fingerprint \<notin> set (map fst (findings st)) then Inl (''finding '' @ fingerprint @ '' not found'')
      else Inr (st\<lparr>suppressions := suppressions st @ [\<lparr>sup_id = uuid, sup_fingerprint = fingerprint,
        sup_reason = reason, sup_actor = actor, sup_created_at = now, sup_expires_at = until, sup_revoked_at = None\<rparr>]\<rparr>))"

definition Unsuppress :: "timestamp \<Rightarrow> string \<Rightarrow> finding_store \<Rightarrow> finding_store" where
  "Unsuppress now fingerprint st = st\<lparr>suppressions := map (\<lambda>s.
     if sup_fingerprint s = fingerprint \<and> sup_revoked_at s = None then s\<lparr>sup_revoked_at := Some now\<rparr> else s)
     (suppressions st)\<rparr>"

lemma list_loop_filter: "list_loop flt items result = result @ filter (\<lambda>item.
    (lf_Status flt = [] \<or> fnd_Status item = lf_Status flt) \<and>
    (lf_MinSeverity flt = [] \<or> severityRank (fnd_Severity item) \<ge> severityRank (lf_MinSeverity flt))) items"
  by (induction items arbitrary: result) auto

lemma severity_case_rank: "strings_ToUpper v = v \<Longrightarrow> severity_case v = severityRank v"
  by (simp add: severity_case_def severityRank_def)

lemma listed_finding_fields [simp]:
  "fnd_Severity (listed_finding now sups (fp, r)) = row_severity r"
  "fnd_Fingerprint (listed_finding now sups (fp, r)) = fp"
  by (simp_all add: listed_finding_def)

lemma listed_finding_Status: "fnd_Status (listed_finding now sups (fp, r)) =
    (if row_status r = ''open'' \<and> list_ex (suppression_active now fp) sups then ''suppressed'' else row_status r)"
  by (simp add: listed_finding_def)

text \<open>
  A listing is worst first: where severities are stored in upper case, as every writer stores
  them, the severity ranks of the listed findings never increase; every one has at least the
  requested minimum; and the listing is exactly the stored findings that satisfy the filter, with
  the status a viewer sees.
\<close>

lemma List_findings_sorted_complete:
  assumes "\<And>fp r. (fp, r) \<in> set (findings st) \<Longrightarrow> strings_ToUpper (row_severity r) = row_severity r"
  shows "sorted_wrt (\<lambda>f g. severityRank (fnd_Severity f) \<ge> severityRank (fnd_Severity g)) (List_findings now flt st) \<and>
     set (List_findings now flt st) = {f. \<exists>(fp, r) \<in> set (findings st). f = listed_finding now (suppressions st) (fp, r) \<and>
       list_where flt r \<and> (lf_Status flt = [] \<or> fnd_Status f = lf_Status flt) \<and>
       (lf_MinSeverity flt = [] \<or> severityRank (row_severity r) \<ge> severityRank (lf_MinSeverity flt))}"
proof
  let ?key = "\<lambda>(fp, r). (- severity_case (row_severity r), row_provider r, row_resource_id r)"
  let ?rows = "sort_key ?key (filter (\<lambda>(fp, r). list_where flt r) (findings st))"
  have "sorted_wrt (\<lambda>x y. ?key x \<le> ?key y) ?rows"
    using sorted_sort_key[of ?key "filter (\<lambda>(fp, r). list_where flt r) (findings st)"]
    by (simp add: sorted_wrt_map)
  then have "sorted_wrt (\<lambda>f g. severityRank (row_severity (snd f)) \<ge> severityRank (row_severity (snd g))) ?rows"
    by (rule sorted_wrt_mono_rel[rotated]) (use assms in \<open>auto simp: less_eq_prod_def severity_case_rank\<close>)
  then have "sorted_wrt (\<lambda>f g. severityRank (fnd_Severity f) \<ge> severityRank (fnd_Severity g)) (list_query now flt st)"
    unfolding list_query_def sorted_wrt_map by (rule sorted_wrt_mono_rel[rotated]) auto
  then show "sorted_wrt (\<lambda>f g. severityRank (fnd_Severity f) \<ge> severityRank (fnd_Severity g)) (List_findings now flt st)"
    by (simp add: List_findings_def list_loop_filter sorted_wrt_filter)
qed (auto simp: List_findings_def list_loop_filter list_query_def)

lemma listed_finding_suppression_cong:
  "list_ex (suppression_active now fp) sups = list_ex (suppression_active now fp) sups' \<Longrightarrow>
     listed_finding now sups (fp, r) = listed_finding now sups' (fp, r)"
  by (simp add: listed_finding_def)

text \<open>A listing depends on the suppressions only through which findings have an active one.\<close>

lemma List_findings_cong:
  assumes "findings st' = findings st"
    and "\<And>k. list_ex (suppression_active at k) (suppressions st') = list_ex (suppression_active at k) (suppressions st)"
  shows "List_findings at flt st' = List_findings at flt st"
proof -
  have "listed_finding at (suppressions st') kr = listed_finding at (suppressions st) kr" for kr
    by (cases kr) (simp only: listed_finding_suppression_cong[OF assms(2)])
  then have "listed_finding at (suppressions st') = listed_finding at (suppressions st)" ..
  then show ?thesis by (simp only: List_findings_def list_query_def assms(1))
qed

text \<open>The part of a listing without one finding does not depend on that finding's suppressions.\<close>

lemma list_loop_split: "filter p (list_loop flt items []) = list_loop flt (filter p items) []"
  by (simp add: list_loop_filter conj_commute)

lemma List_findings_others:
  assumes "findings st' = findings st"
    and "\<And>k. k \<noteq> fp \<Longrightarrow> list_ex (suppression_active at k) (suppressions st') = list_ex (suppression_active at k) (suppressions st)"
  shows "filter (\<lambda>f. fnd_Fingerprint f \<noteq> fp) (List_findings at flt st') = filter (\<lambda>f. fnd_Fingerprint f \<noteq> fp) (List_findings at flt st)"
proof -
  have "filter (\<lambda>f. fnd_Fingerprint f \<noteq> fp) (map (listed_finding at (suppressions st')) rows) =
      filter (\<lambda>f. fnd_Fingerprint f \<noteq> fp) (map (listed_finding at (suppressions st)) rows)" for rows
  proof (induction rows)
    case (Cons kr rows)
    obtain k r where "kr = (k, r)" by (cases kr)
    with Cons listed_finding_suppression_cong[OF assms(2), of k r] show ?case by simp
  qed simp
  then show ?thesis by (simp only: List_findings_def list_loop_split list_query_def assms(1))
qed

text \<open>What a viewer asks for apart from the status, and whether a suppression still holds.\<close>

definition asked_for :: "ListFilter \<Rightarrow> finding_row \<Rightarrow> bool" where
  "asked_for flt r \<longleftrightarrow> list_where flt r \<and> (lf_MinSeverity flt = [] \<or> severityRank (row_severity r) \<ge> severityRank (lf_MinSeverity flt))"

definition unexpired :: "timestamp option \<Rightarrow> timestamp \<Rightarrow> bool" where
  "unexpired until at \<longleftrightarrow> (case until of None \<Rightarrow> True | Some deadline \<Rightarrow> at < deadline)"

lemma listed_status:
  assumes "map_of (findings st) fp = Some r" "table_ok (findings st)"
  shows "(\<exists>f \<in> set (List_findings at flt st). fnd_Fingerprint f = fp \<and> fnd_Status f = status) \<longleftrightarrow>
    asked_for flt r \<and> (lf_Status flt = [] \<or> status = lf_Status flt) \<and>
    status = fnd_Status (listed_finding at (suppressions st) (fp, r))"
proof -
  have row: "(fp, r') \<in> set (findings st) \<longleftrightarrow> r' = r" for r'
    using assms map_of_is_SomeI[of "findings st" fp r'] by (auto simp: table_ok_def dest: map_of_SomeD)
  show ?thesis
    by (auto simp: List_findings_def list_loop_filter list_query_def asked_for_def row)
qed

text \<open>
  C14. Suppression is visible, limited in time and reversible. After \<open>Suppress\<close> with a reason, an open finding is
  in exactly the listings that ask for it with the status it then has: suppressed strictly before
  \<open>expires_at\<close> (always, without one), and from \<open>expires_at\<close> on its own status again unless another suppression
  of it is still active; from then on every listing is the one there would have been without. The findings
  themselves and the listings of other findings are untouched at any time. \<open>Unsuppress\<close> leads to the same
  listings as if the suppression had never been, and, at any time at which no older suppression of the finding
  was active, back to the very listings there were before: it revokes the older ones too.
\<close>

theorem Suppress_roundtrip:
  assumes "strings_TrimSpace reason \<noteq> []" "map_of (findings st) fp = Some r" "row_status r = ''open''" "table_ok (findings st)"
  shows "\<exists>st'. Suppress now uuid fp reason actor until st = Inr st' \<and> findings st' = findings st \<and>
     (\<forall>at flt status. (\<exists>f \<in> set (List_findings at flt st'). fnd_Fingerprint f = fp \<and> fnd_Status f = status) \<longleftrightarrow>
        asked_for flt r \<and> (lf_Status flt = [] \<or> status = lf_Status flt) \<and>
        status = (if unexpired until at \<or> list_ex (suppression_active at fp) (suppressions st) then ''suppressed'' else ''open'')) \<and>
     (\<forall>at flt. \<not> unexpired until at \<longrightarrow> List_findings at flt st' = List_findings at flt st) \<and>
     (\<forall>at flt. filter (\<lambda>f. fnd_Fingerprint f \<noteq> fp) (List_findings at flt st') =
        filter (\<lambda>f. fnd_Fingerprint f \<noteq> fp) (List_findings at flt st)) \<and>
     (\<forall>at flt t. List_findings at flt (Unsuppress t fp st') = List_findings at flt (Unsuppress t fp st)) \<and>
     (\<forall>at flt t. \<not> list_ex (suppression_active at fp) (suppressions st) \<longrightarrow>
        List_findings at flt (Unsuppress t fp st') = List_findings at flt st)"
proof -
  define s where "s = \<lparr>sup_id = uuid, sup_fingerprint = fp, sup_reason = reason, sup_actor = actor, sup_created_at = now,
    sup_expires_at = until, sup_revoked_at = None\<rparr>"
  define st' where "st' = st\<lparr>suppressions := suppressions st @ [s]\<rparr>"
  have mem: "fp \<in> set (map fst (findings st))" using map_of_SomeD[OF assms(2)] by force
  have fs: "findings st' = findings st" "\<And>t. findings (Unsuppress t fp st') = findings st" "\<And>t. findings (Unsuppress t fp st) = findings st"
    by (simp_all add: st'_def Unsuppress_def)
  have active: "suppression_active at k s \<longleftrightarrow> k = fp \<and> unexpired until at" for at k
    by (auto simp: s_def suppression_active_def unexpired_def split: option.split)
  have now: "list_ex (suppression_active at k) (suppressions st') \<longleftrightarrow>
      k = fp \<and> unexpired until at \<or> list_ex (suppression_active at k) (suppressions st)" for at k
    by (auto simp: st'_def active)
  have revoked: "list_ex (suppression_active at k) (suppressions (Unsuppress t fp x)) \<longleftrightarrow>
      k \<noteq> fp \<and> list_ex (suppression_active at k) (suppressions x)" for at k t x
    by (auto simp: Unsuppress_def list_ex_iff suppression_active_def)
  have suppressed: "Suppress now uuid fp reason actor until st = Inr st'"
    using mem assms(1) by (simp add: Suppress_def st'_def s_def)
  have status: "(\<exists>f \<in> set (List_findings at flt st'). fnd_Fingerprint f = fp \<and> fnd_Status f = status) \<longleftrightarrow>
      asked_for flt r \<and> (lf_Status flt = [] \<or> status = lf_Status flt) \<and>
      status = (if unexpired until at \<or> list_ex (suppression_active at fp) (suppressions st) then ''suppressed'' else ''open'')" for at flt status
    using listed_status[of st' fp r at flt status] assms(2-4) by (simp add: fs now listed_finding_Status)
  have expired: "List_findings at flt st' = List_findings at flt st" if "\<not> unexpired until at" for at flt
    by (rule List_findings_cong[OF fs(1)]) (use that in \<open>simp add: now\<close>)
  have others: "filter (\<lambda>f. fnd_Fingerprint f \<noteq> fp) (List_findings at flt st') =
      filter (\<lambda>f. fnd_Fingerprint f \<noteq> fp) (List_findings at flt st)" for at flt
    by (rule List_findings_others[OF fs(1)]) (simp add: now)
  have undone: "List_findings at flt (Unsuppress t fp st') = List_findings at flt (Unsuppress t fp st)" for at flt t
    by (rule List_findings_cong) (auto simp: fs revoked now)
  have restored: "List_findings at flt (Unsuppress t fp st') = List_findings at flt st"
    if "\<not> list_ex (suppression_active at fp) (suppressions st)" for at flt t
    by (rule List_findings_cong[OF fs(2)]) (use that in \<open>auto simp: revoked now\<close>)
  show ?thesis using suppressed fs(1) status expired others undone restored by blast
qed

subsection \<open>Witnesses\<close>

definition demo_scan :: ScanRecord where
  "demo_scan = \<lparr>scan_ID = ''s2'', scan_Provider = ''aws'', scan_ServicesJSON = [], scan_ScopesJSON = [],
     scan_ScopeKey = ''k'', scan_Status = ''completed'', scan_SnapshotComplete = True, scan_StartedAt = 20,
     scan_EndedAt = 21, scan_TotalResources = 1, scan_NewResources = 0, scan_UpdatedResources = 0,
     scan_DeletedResources = 0\<rparr>"

definition demo_row :: "string \<Rightarrow> string \<Rightarrow> ComplianceResult" where
  "demo_row status details = \<lparr>cr_ResourceID = ''b'', cr_ResourceName = ''b'', cr_ResourceType = ''Bucket'',
     cr_Region = [], cr_ControlID = ''c1'', cr_ControlName = ''C'', cr_Status = status, cr_Severity = ''high'',
     cr_Details = details, cr_Remediation = None, cr_Timestamp = 0\<rparr>"

definition demo_result :: SimpleQueryResult where
  "demo_result = \<lparr>sq_PackRef = ''p'', sq_ControlID = ''c1'', sq_Title = [], sq_Description = [], sq_Passed = False,
     sq_ResourceCount = 3, sq_FailedResources = [],
     sq_Rows = [demo_row ''fail'' ''one'', demo_row ''PASS'' [], demo_row ''Warning'' ''two''], sq_Error = None\<rparr>"

definition demo_stored :: finding_row where
  "demo_stored = \<lparr>row_pack_ref = ''p'', row_control_id = ''c1'', row_provider = ''aws'', row_resource_id = ''gone'',
     row_scope_key = ''k'', row_title = ''C'', row_severity = ''HIGH'', row_details = [], row_remediation = None,
     row_status = ''open'', row_first_seen_scan = ''s1'', row_last_seen_scan = ''s1'', row_first_seen_at = 10,
     row_last_seen_at = 10, row_resolved_at = None, row_occurrence_count = 1\<rparr>"

definition demo_store :: finding_store where
  "demo_store = \<lparr>findings = [(''old'', demo_stored)], occurrences = [], suppressions = []\<rparr>"

lemma demo_result_Error [simp]: "sq_Error demo_result = None"
  by (simp add: demo_result_def)

lemma demo_store_ok [simp]: "table_ok (findings demo_store)"
  by (simp add: demo_store_def table_ok_def)

lemma demo_evaluation_ID [simp]: "eval_ID (Evaluation_new ''e'' demo_scan) = ''e''"
  by (simp add: Evaluation_new_def)

theorem recordResult_is_per_row_loop_witness:
  "recordResult (Evaluation_new ''e'' demo_scan) demo_scan demo_result demo_store =
     Some (Inr (per_row_loop demo_scan demo_result (sq_Rows demo_result) (Evaluation_new ''e'' demo_scan, demo_store, {})))"
proof (rule recordResult_is_per_row_loop)
  fix r r'
  assume "r \<in> set (sq_Rows demo_result)" "r' \<in> set (sq_Rows demo_result)"
  then show "cr_ControlID r = cr_ControlID r' \<and> cr_ResourceID r = cr_ResourceID r'"
    by (auto simp: demo_result_def demo_row_def)
qed simp_all

theorem recordResults_advances_witness:
  "\<exists>evaluation st' r'. recordResults (Evaluation_new ''e'' demo_scan) demo_scan [demo_result] demo_store =
     Some (Inr (evaluation, st')) \<and> map_of (findings st') ''old'' = Some r' \<and> row_first_seen_at r' = 10"
proof -
  have "''e'' \<noteq> []" by simp
  then obtain E st' where
    x: "recordResults (Evaluation_new ''e'' demo_scan) demo_scan [demo_result] demo_store = Some (Inr (E, st'))"
    by (rule recordResults_runs[OF _ demo_store_ok, of _ demo_scan "[demo_result]"])
  have "map_of (findings demo_store) ''old'' = Some demo_stored" by (simp add: demo_store_def)
  from recordResults_advances[OF x _ demo_store_ok this] x show ?thesis by (auto simp: demo_stored_def)
qed

theorem evaluated_control_lifecycle_witness:
  "\<exists>E st' observed t n. recordResult (Evaluation_new ''e'' demo_scan) demo_scan demo_result demo_store = Some (Inr (E, st', observed)) \<and>
     resolveAbsent ''p'' ''c1'' demo_scan observed (findings st') = (t, n) \<and>
     (\<forall>fp \<in> observed. \<exists>r. map_of t fp = Some r \<and> (row_last_seen_at r > 20 \<or> row_status r = ''open''))"
proof -
  have ne: "eval_ID (Evaluation_new ''e'' demo_scan) \<noteq> []" by simp
  from recordResult_eq[OF demo_result_Error ne, of demo_scan demo_store] obtain E st' observed where
    x: "recordResult (Evaluation_new ''e'' demo_scan) demo_scan demo_result demo_store = Some (Inr (E, st', observed))"
    by (simp add: Let_def)
  obtain t n where y: "resolveAbsent (sq_PackRef demo_result) (sq_ControlID demo_result) demo_scan observed (findings st') = (t, n)"
    by (cases "resolveAbsent (sq_PackRef demo_result) (sq_ControlID demo_result) demo_scan observed (findings st')")
  have s: "scan_StartedAt demo_scan = 20" by (simp add: demo_scan_def)
  from evaluated_control_lifecycle[OF demo_result_Error ne demo_store_ok x y, unfolded s] x y show ?thesis
    by (intro exI[of _ E] exI[of _ st'] exI[of _ observed] exI[of _ t] exI[of _ n])
      (auto simp: demo_result_def)
qed

definition demo_filter :: ListFilter where
  "demo_filter = \<lparr>lf_Status = [], lf_Provider = [], lf_ControlID = [], lf_MinSeverity = [], lf_ScanID = [], lf_PackRef = []\<rparr>"

theorem Suppress_roundtrip_witness:
  "\<exists>st'. Suppress 25 ''id'' ''old'' ''accepted'' ''me'' (Some 30) demo_store = Inr st' \<and>
     (\<exists>f \<in> set (List_findings 29 demo_filter st'). fnd_Fingerprint f = ''old'' \<and> fnd_Status f = ''suppressed'') \<and>
     (\<exists>f \<in> set (List_findings 30 demo_filter st'). fnd_Fingerprint f = ''old'' \<and> fnd_Status f = ''open'')"
proof -
  have a: "strings_TrimSpace ''accepted'' \<noteq> []" by (simp add: strings_TrimSpace_def ascii_space_def)
  have b: "map_of (findings demo_store) ''old'' = Some demo_stored" "row_status demo_stored = ''open''" "suppressions demo_store = []"
    by (simp_all add: demo_store_def demo_stored_def)
  have c: "asked_for demo_filter demo_stored" "lf_Status demo_filter = []" by (simp_all add: asked_for_def list_where_def demo_filter_def)
  from Suppress_roundtrip[OF a b(1,2) demo_store_ok, of 25 "''id''" "''me''" "Some 30"] obtain st' where
    s: "Suppress 25 ''id'' ''old'' ''accepted'' ''me'' (Some 30) demo_store = Inr st'"
      "\<And>at flt status. (\<exists>f \<in> set (List_findings at flt st'). fnd_Fingerprint f = ''old'' \<and> fnd_Status f = status) \<longleftrightarrow>
        asked_for flt demo_stored \<and> (lf_Status flt = [] \<or> status = lf_Status flt) \<and>
        status = (if unexpired (Some 30) at \<or> list_ex (suppression_active at ''old'') (suppressions demo_store) then ''suppressed'' else ''open'')"
    by blast
  then show ?thesis by (simp add: b(3) c unexpired_def)
qed

end
