(* ===== verification/Filepath.thy ===== *)
theory Filepath imports Prelude begin

text \<open>
  The lexical part of Go's path/filepath on Unix that the program relies on when it confines names to
  a directory: \<open>Clean\<close>, \<open>Join\<close>, \<open>IsAbs\<close>, \<open>Rel\<close> (between two absolute paths, or two
  relative ones that do not climb: the only ones the program gives it) and \<open>Base\<close>. A clean absolute path is \<open>abs_path\<close> of its components, none of which is
  empty, a dot or a double dot, and the lemmas reduce the functions to operations on components.
\<close>

definition filepath_IsAbs :: "string \<Rightarrow> bool" where
  "filepath_IsAbs p \<longleftrightarrow> strings_HasPrefix p ''/''"

fun clean_loop :: "bool \<Rightarrow> string list \<Rightarrow> string list \<Rightarrow> string list" where
  "clean_loop rooted stack [] = stack"
| "clean_loop rooted stack (c # cs) =
     (if c = [] \<or> c = ''.'' then clean_loop rooted stack cs
      else if c = ''..'' then
        (if stack \<noteq> [] \<and> last stack \<noteq> ''..'' then clean_loop rooted (butlast stack) cs
         else if rooted then clean_loop rooted stack cs
         else clean_loop rooted (stack @ [c]) cs)
      else clean_loop rooted (stack @ [c]) cs)"

definition filepath_Clean :: "string \<Rightarrow> string" where
  "filepath_Clean p = (let rooted = filepath_IsAbs p;
       stack = clean_loop rooted [] (strings_Split p (CHR ''/'')) in
     if rooted then ''/'' @ strings_Join stack ''/''
     else if stack = [] then ''.'' else strings_Join stack ''/'')"

definition filepath_Join :: "string list \<Rightarrow> string" where
  "filepath_Join elems = (case dropWhile (\<lambda>e. e = []) elems of
     [] \<Rightarrow> [] | es \<Rightarrow> filepath_Clean (strings_Join es ''/''))"

definition path_Base :: "string \<Rightarrow> string" where
  "path_Base p = (if p = [] then ''.''
     else (let trimmed = rev (dropWhile (\<lambda>c. c = CHR ''/'') (rev p)) in
       if trimmed = [] then ''/'' else last (strings_Split trimmed (CHR ''/''))))"

definition filepath_Dir :: "string \<Rightarrow> string" where
  "filepath_Dir p = filepath_Clean (rev (dropWhile (\<lambda>c. c \<noteq> CHR ''/'') (rev p)))"

definition abs_path :: "string list \<Rightarrow> string" where
  "abs_path cs = ''/'' @ strings_Join cs ''/''"

definition normal_comp :: "string \<Rightarrow> bool" where
  "normal_comp c \<longleftrightarrow> c \<noteq> [] \<and> c \<noteq> ''.'' \<and> c \<noteq> ''..'' \<and> CHR ''/'' \<notin> set c"

definition abs_comps :: "string \<Rightarrow> string list" where
  "abs_comps p = clean_loop True [] (strings_Split p (CHR ''/''))"

fun strip_common :: "string list \<Rightarrow> string list \<Rightarrow> string list \<times> string list" where
  "strip_common (b # bs) (t # ts) = (if b = t then strip_common bs ts else (b # bs, t # ts))"
| "strip_common bs ts = (bs, ts)"

text \<open>\<open>filepath.Rel\<close> of two absolute paths, or of two relative ones without a double dot.\<close>

definition filepath_Rel :: "string \<Rightarrow> string \<Rightarrow> string" where
  "filepath_Rel base targ = (case strip_common (abs_comps base) (abs_comps targ) of
     (bs, ts) \<Rightarrow> if bs = [] \<and> ts = [] then ''.''
       else strings_Join (replicate (length bs) ''..'' @ ts) ''/'')"

lemma clean_loop_append: "clean_loop r st (xs @ ys) = clean_loop r (clean_loop r st xs) ys"
  by (induction r st xs rule: clean_loop.induct) auto

lemma clean_loop_normal: "list_all normal_comp cs \<Longrightarrow> clean_loop r st cs = st @ cs"
  by (induction cs arbitrary: st) (auto simp: normal_comp_def)

lemma clean_loop_rooted_normal:
  "list_all normal_comp st \<Longrightarrow> (\<And>c. c \<in> set cs \<Longrightarrow> CHR ''/'' \<notin> set c) \<Longrightarrow>
     list_all normal_comp (clean_loop True st cs)"
proof (induction cs arbitrary: st)
  case (Cons c cs)
  have "list_all normal_comp (butlast st)" using Cons.prems(1) by (auto simp: list_all_iff dest: in_set_butlastD)
  moreover have "normal_comp c" if "c \<noteq> []" "c \<noteq> ''.''" "c \<noteq> ''..''" using that Cons.prems(2) by (auto simp: normal_comp_def)
  ultimately show ?case using Cons by auto
qed simp

lemma abs_comps_normal: "list_all normal_comp (abs_comps p)"
  unfolding abs_comps_def by (rule clean_loop_rooted_normal) (auto dest: Split_no_sep)

lemma Split_append: "strings_Split (s @ c # t) c = strings_Split s c @ strings_Split t c"
  by (induction s c rule: strings_Split.induct) (auto split: list.splits)

lemma Split_abs_path: "list_all normal_comp cs \<Longrightarrow>
    strings_Split (abs_path cs) (CHR ''/'') = (if cs = [] then [[], []] else [] # cs)"
  using Split_append[of "[]" "CHR ''/''" "strings_Join cs ''/''"] Split_Join[of cs "CHR ''/''"]
  by (auto simp: abs_path_def list_all_iff normal_comp_def)

lemma abs_comps_abs_path [simp]: "list_all normal_comp cs \<Longrightarrow> abs_comps (abs_path cs) = cs"
  by (simp add: abs_comps_def Split_abs_path clean_loop_normal)

lemma Clean_abs: "filepath_IsAbs p \<Longrightarrow> filepath_Clean p = abs_path (abs_comps p)"
  by (simp add: filepath_Clean_def abs_comps_def abs_path_def Let_def)

lemma IsAbs_abs_path [simp]: "filepath_IsAbs (abs_path cs)"
  by (simp add: filepath_IsAbs_def abs_path_def)

lemma clean_abs_iff:
  "filepath_IsAbs d \<and> filepath_Clean d = d \<longleftrightarrow> (\<exists>cs. list_all normal_comp cs \<and> d = abs_path cs)"
  by (metis Clean_abs IsAbs_abs_path abs_comps_abs_path abs_comps_normal)

text \<open>Joining a relative name to a clean absolute directory walks its components from there.\<close>

lemma Join_abs_path:
  assumes "list_all normal_comp ds" "rel \<noteq> []"
  shows "filepath_Join [abs_path ds, rel] = abs_path (clean_loop True ds (strings_Split rel (CHR ''/'')))"
proof -
  have "filepath_Join [abs_path ds, rel] = filepath_Clean (abs_path ds @ ''/'' @ rel)"
    by (simp add: filepath_Join_def abs_path_def)
  also have "\<dots> = abs_path (abs_comps (abs_path ds @ CHR ''/'' # rel))"
    by (subst Clean_abs) (auto simp: filepath_IsAbs_def abs_path_def)
  also have "abs_comps (abs_path ds @ CHR ''/'' # rel) =
      clean_loop True (abs_comps (abs_path ds)) (strings_Split rel (CHR ''/''))"
    by (simp add: abs_comps_def Split_append clean_loop_append)
  finally show ?thesis using assms(1) by simp
qed

lemma strip_common_spec:
  "strip_common bs ts = (b', t') \<Longrightarrow> \<exists>common. bs = common @ b' \<and> ts = common @ t' \<and> (b' = [] \<or> t' = [] \<or> hd b' \<noteq> hd t')"
proof (induction bs ts rule: strip_common.induct)
  case (1 b bs t ts)
  show ?case
  proof (cases "b = t")
    case True
    with 1 obtain common where "bs = common @ b'" "ts = common @ t'" "b' = [] \<or> t' = [] \<or> hd b' \<noteq> hd t'" by auto
    with True show ?thesis by (intro exI[of _ "b # common"]) simp
  next
    case False
    with 1 show ?thesis by auto
  qed
qed auto

lemma strip_common_prefix: "strip_common bs (bs @ ts) = ([], ts)"
  by (induction bs) auto

text \<open>The parent of a path below a directory.\<close>

lemma strings_Join_snoc: "ps \<noteq> [] \<Longrightarrow> strings_Join (ps @ [p]) sep = strings_Join ps sep @ sep @ p"
proof (induction ps)
  case (Cons q ps)
  then show ?case by (cases "ps = []") (simp_all add: strings_Join_Cons)
qed simp

lemma Dir_abs_path:
  assumes "list_all normal_comp (cs @ [c])"
  shows "filepath_Dir (abs_path (cs @ [c])) = abs_path cs"
proof -
  have c: "CHR ''/'' \<notin> set c" using assms by (simp add: normal_comp_def)
  define d where "d = (if cs = [] then ''/'' else abs_path cs @ ''/'')"
  obtain d' where d': "d = d' @ ''/''" unfolding d_def by (cases "cs = []") auto
  have eq: "abs_path (cs @ [c]) = d @ c"
    by (cases "cs = []") (simp_all add: d_def abs_path_def strings_Join_snoc)
  have "dropWhile (\<lambda>e. e \<noteq> CHR ''/'') (rev (d @ c)) = rev d"
    using c unfolding d' by (simp add: dropWhile_append3) (metis)
  then have "filepath_Dir (abs_path (cs @ [c])) = filepath_Clean d"
    unfolding filepath_Dir_def eq by simp
  also have "\<dots> = abs_path cs"
  proof (cases "cs = []")
    case True
    then show ?thesis by (simp add: d_def filepath_Clean_def filepath_IsAbs_def abs_path_def)
  next
    case False
    have "abs_comps (abs_path cs @ ''/'') = abs_comps (abs_path cs)"
      using Split_append[of "abs_path cs" "CHR ''/''" "[]"] by (simp add: abs_comps_def clean_loop_append)
    moreover have "filepath_IsAbs (abs_path cs @ ''/'')" by (simp add: filepath_IsAbs_def abs_path_def)
    moreover have "list_all normal_comp cs" using assms by simp
    ultimately show ?thesis using False by (simp add: d_def Clean_abs)
  qed
  finally show ?thesis .
qed

lemma Clean_abs_clean: "filepath_IsAbs p \<Longrightarrow> filepath_IsAbs (filepath_Clean p) \<and> filepath_Clean (filepath_Clean p) = filepath_Clean p"
  by (simp add: Clean_abs abs_comps_normal)

lemma Join_abs: "filepath_IsAbs d \<Longrightarrow> filepath_Join (d # es) = filepath_Clean (strings_Join (d # es) ''/'') \<and>
    filepath_IsAbs (strings_Join (d # es) ''/'')"
  by (cases es) (auto simp: filepath_Join_def filepath_IsAbs_def)

lemma Join_abs_clean: "filepath_IsAbs d \<Longrightarrow> filepath_IsAbs (filepath_Join (d # es)) \<and>
    filepath_Clean (filepath_Join (d # es)) = filepath_Join (d # es)"
  using Join_abs[of d es] Clean_abs_clean by simp

end
