(* ===== verification/Archive.thy ===== *)
theory Archive imports Filepath begin

text \<open>
  internal/archive: extraction of untrusted archives. The archive readers of the standard library
  are their outputs: the headers or the read error \<open>Next\<close> gives, and for each entry the bytes its
  reader gives before it ends or fails. The operating system is the list of calls made on it, with
  an oracle that says which calls fail; a call is in the list whether it fails or not, and a write
  with all the bytes handed to it. \<open>int64\<close> sums that could leave the type are written with their
  wrap-around.
\<close>

datatype archive_error =
    LimitsNotPositive
  | UnknownFormat
  | NegativeSize int
  | EntryTooLarge int int
  | TotalTooLarge
  | EntryOverLimit int
  | TooManyEntries int
  | UnsupportedType string
  | SizeOverflow string
  | InvalidName string
  | AbsoluteName string
  | Escapes string
  | NegativeStrip int
  | InvalidBinaryName string
  | BinaryNotFound string
  | SystemError string
  | AboutEntry archive_error string
  | Joined "archive_error list"

definition errors_Join :: "archive_error option list \<Rightarrow> archive_error option" where
  "errors_Join errs = (case List.map_filter id errs of [] \<Rightarrow> None | es \<Rightarrow> Some (Joined es))"

lemma errors_Join_None [simp]: "errors_Join errs = None \<longleftrightarrow> (\<forall>e \<in> set errs. e = None)"
  by (induction errs) (auto simp: errors_Join_def map_filter_simps split: option.splits list.splits)

datatype os_call =
    OsMkdirAll string
  | OsOpenFile string nat
  | OsWrite string string
  | OsClose string
  | OsRename string string
  | OsRemove string

type_synonym os_oracle = "os_call \<Rightarrow> string option"

subsection \<open>The byte budget\<close>

record Limits =
  lim_BytesMax :: int
  lim_EntryCountMax :: int
  lim_EntryBytesMax :: int

definition limits_validate :: "Limits \<Rightarrow> archive_error option" where
  "limits_validate l = (if lim_BytesMax l \<le> 0 \<or> lim_EntryCountMax l \<le> 0 \<or> lim_EntryBytesMax l \<le> 0
     then Some LimitsNotPositive else None)"

record budget =
  b_bytesMax :: int
  b_remaining :: int
  b_entryMax :: int
  b_written :: int
  b_skipped :: int
  b_charged :: bool

definition newBudget :: "Limits \<Rightarrow> budget" where
  "newBudget limits = \<lparr>b_bytesMax = lim_BytesMax limits, b_remaining = lim_BytesMax limits,
     b_entryMax = lim_EntryBytesMax limits, b_written = 0, b_skipped = 0, b_charged = False\<rparr>"

definition assertBalanced :: "budget \<Rightarrow> unit panics" where
  "assertBalanced b = do {
     assert_That (b_written b \<le> b_bytesMax b);
     assert_That (b_remaining b \<ge> 0);
     assert_That (wrap_int64 (b_written b + b_skipped b + b_remaining b) = b_bytesMax b)
   }"

definition admit :: "budget \<Rightarrow> int \<Rightarrow> archive_error option" where
  "admit b sz = (if sz < 0 then Some (NegativeSize sz)
     else if sz > b_entryMax b then Some (EntryTooLarge sz (b_entryMax b))
     else if sz > b_remaining b then Some TotalTooLarge else None)"

definition skip :: "budget \<Rightarrow> int \<Rightarrow> (budget \<times> archive_error option) panics" where
  "skip b sz = (case admit b sz of
     Some err \<Rightarrow> Some (b, Some err)
   | None \<Rightarrow> do {
       let b = b\<lparr>b_remaining := b_remaining b - sz, b_skipped := b_skipped b + sz\<rparr>;
       assert_That (b_remaining b \<ge> 0);
       Some (b, None)
     })"

text \<open>What an opened entry reads as: its bytes, the error after them, the error of closing it.\<close>

record body =
  body_bytes :: string
  body_err :: "string option"
  body_close :: "string option"

definition copy_room :: "budget \<Rightarrow> int" where
  "copy_room b = wrap_int64 (min (b_entryMax b) (b_remaining b) + 1)"

definition copied :: "budget \<Rightarrow> body \<Rightarrow> string" where
  "copied b src = take (nat (copy_room b)) (body_bytes src)"

definition copy_err :: "os_oracle \<Rightarrow> budget \<Rightarrow> string \<Rightarrow> body \<Rightarrow> string option" where
  "copy_err os b dst src = (case os (OsWrite dst (copied b src)) of
     Some e \<Rightarrow> Some e
   | None \<Rightarrow> if int (length (body_bytes src)) < copy_room b then body_err src else None)"

definition budget_copy :: "os_oracle \<Rightarrow> budget \<Rightarrow> string \<Rightarrow> body \<Rightarrow> (budget \<times> archive_error option) panics" where
  "budget_copy os b dst src = (let n = int (length (copied b src)); c = b\<lparr>b_charged := True\<rparr> in
     case copy_err os b dst src of
       Some e \<Rightarrow> Some (c, Some (SystemError e))
     | None \<Rightarrow>
         if n > b_entryMax b then Some (c, Some (EntryOverLimit (b_entryMax b)))
         else if n > b_remaining b then Some (c, Some TotalTooLarge)
         else do {
           let c = c\<lparr>b_remaining := b_remaining b - n, b_written := b_written b + n\<rparr>;
           assert_That (b_remaining c \<ge> 0);
           Some (c, None)
         })"

subsection \<open>Walking the entries\<close>

datatype kind = kindFile | kindDir

record entry =
  e_name :: string
  e_kind :: kind
  e_size :: int
  e_open :: "string + body"

text \<open>
  A visitor takes an entry, the budget and its own state, and returns whether the walk is done, its
  error, and both states.
\<close>

type_synonym 'st visitor = "entry \<Rightarrow> budget \<Rightarrow> 'st \<Rightarrow> (bool \<times> archive_error option \<times> budget \<times> 'st) panics"

datatype typeflag = TypeReg | TypeDir | TypeXGlobalHeader | TypeOther

datatype tar_next = Header string int typeflag body | NextFails string

fun walkTar :: "'st visitor \<Rightarrow> int \<Rightarrow> tar_next list \<Rightarrow> int \<Rightarrow> budget \<Rightarrow> 'st \<Rightarrow>
    (archive_error option \<times> budget \<times> 'st) panics" where
  "walkTar visit entryCountMax [] cnt b st = Some (None, b, st)"
| "walkTar visit entryCountMax (NextFails err # nexts) cnt b st = Some (Some (SystemError err), b, st)"
| "walkTar visit entryCountMax (Header name sz flag src # nexts) cnt b st =
     (if cnt \<ge> entryCountMax then Some (Some (TooManyEntries entryCountMax), b, st)
      else if flag = TypeXGlobalHeader then walkTar visit entryCountMax nexts (cnt + 1) b st
      else if flag = TypeOther then Some (Some (UnsupportedType name), b, st)
      else (case admit b sz of
          Some err \<Rightarrow> Some (Some (AboutEntry err name), b, st)
        | None \<Rightarrow> do {
            (stop, err, b, st) \<leftarrow> visit \<lparr>e_name = name, e_kind = (if flag = TypeReg then kindFile else kindDir),
              e_size = sz, e_open = Inr src\<rparr> (b\<lparr>b_charged := False\<rparr>) st;
            if err \<noteq> None \<or> stop then Some (err, b, st)
            else if \<not> b_charged b then do {
              (b, err) \<leftarrow> skip b sz;
              if err \<noteq> None then Some (err, b, st)
              else walkTar visit entryCountMax nexts (cnt + 1) b st
            }
            else walkTar visit entryCountMax nexts (cnt + 1) b st
          }))"

datatype zip_mode = ModeRegular | ModeDir | ModeOther

record zip_file =
  zf_Name :: string
  zf_Mode :: zip_mode
  zf_UncompressedSize64 :: int
  zf_Open :: "string + body"

fun walkZip_loop :: "'st visitor \<Rightarrow> zip_file list \<Rightarrow> budget \<Rightarrow> 'st \<Rightarrow>
    (archive_error option \<times> budget \<times> 'st) panics" where
  "walkZip_loop visit [] b st = Some (None, b, st)"
| "walkZip_loop visit (f # fs) b st =
     (if zf_Mode f = ModeOther then Some (Some (UnsupportedType (zf_Name f)), b, st)
      else if zf_UncompressedSize64 f > 2 ^ 63 - 1 then Some (Some (SizeOverflow (zf_Name f)), b, st)
      else (case admit b (zf_UncompressedSize64 f) of
          Some err \<Rightarrow> Some (Some (AboutEntry err (zf_Name f)), b, st)
        | None \<Rightarrow> do {
            (stop, err, b, st) \<leftarrow> visit \<lparr>e_name = zf_Name f,
              e_kind = (if zf_Mode f = ModeRegular then kindFile else kindDir),
              e_size = zf_UncompressedSize64 f, e_open = zf_Open f\<rparr> b st;
            if err \<noteq> None \<or> stop then Some (err, b, st) else walkZip_loop visit fs b st
          }))"

definition walkZipFiles :: "'st visitor \<Rightarrow> int \<Rightarrow> zip_file list \<Rightarrow> budget \<Rightarrow> 'st \<Rightarrow>
    (archive_error option \<times> budget \<times> 'st) panics" where
  "walkZipFiles visit entryCountMax files b st =
     (if int (length files) > entryCountMax then Some (Some (TooManyEntries entryCountMax), b, st)
      else walkZip_loop visit files b st)"

text \<open>
  An archive file under a format: opening it may fail; closing its readers may fail after the walk.
\<close>

datatype archive_file =
    TarGz "string + tar_next list \<times> string option list"
  | ZipArchive "string + zip_file list \<times> string option list"
  | OtherFormat

definition close_errors :: "string option list \<Rightarrow> archive_error option list" where
  "close_errors = map (map_option SystemError)"

definition walk :: "archive_file \<Rightarrow> Limits \<Rightarrow> 'st visitor \<Rightarrow> 'st \<Rightarrow> (archive_error option \<times> 'st) panics" where
  "walk arch limits visit st = (case limits_validate limits of
     Some err \<Rightarrow> Some (Some err, st)
   | None \<Rightarrow> (let b = newBudget limits in
       case arch of
         OtherFormat \<Rightarrow> Some (Some UnknownFormat, st)
       | TarGz (Inl err) \<Rightarrow> do { assertBalanced b; Some (Some (SystemError err), st) }
       | TarGz (Inr (nexts, closing)) \<Rightarrow> do {
           (err, b, st) \<leftarrow> walkTar visit (lim_EntryCountMax limits) nexts 0 b st;
           assertBalanced b;
           Some (errors_Join (err # close_errors closing), st)
         }
       | ZipArchive (Inl err) \<Rightarrow> do { assertBalanced b; Some (Some (SystemError err), st) }
       | ZipArchive (Inr (files, closing)) \<Rightarrow> do {
           (err, b, st) \<leftarrow> walkZipFiles visit (lim_EntryCountMax limits) files b st;
           assertBalanced b;
           Some (errors_Join (err # close_errors closing), st)
         }))"

subsection \<open>Writing entries\<close>

definition confine :: "string \<Rightarrow> string \<Rightarrow> nat \<Rightarrow> archive_error + string option" where
  "confine destDir name stripComponents =
     (if CHR 0x5C \<in> set name \<or> CHR 0x00 \<in> set name then Inl (InvalidName name)
      else if filepath_IsAbs name then Inl (AbsoluteName name)
      else (let parts = strings_Split name (CHR ''/'') in
        if length parts \<le> stripComponents then Inr None
        else (let relative = strings_Join (drop stripComponents parts) ''/'' in
          if relative = [] then Inr None
          else (let target = filepath_Join [destDir, relative]; rel = filepath_Rel destDir target in
            if rel = ''.'' then Inr None
            else if rel = ''..'' \<or> strings_HasPrefix rel ''../'' then Inl (Escapes name)
            else Inr (Some target)))))"

text \<open>Modes as octal: 644 for a file, 755 for a binary.\<close>

definition writeEntry :: "os_oracle \<Rightarrow> string \<Rightarrow> nat \<Rightarrow> entry \<Rightarrow> budget \<Rightarrow> os_call list \<Rightarrow>
    (archive_error option \<times> budget \<times> os_call list) panics" where
  "writeEntry os target mode e b st = (case e_open e of
     Inl err \<Rightarrow> Some (Some (SystemError err), b, st)
   | Inr src \<Rightarrow> (let st = st @ [OsOpenFile target mode] in
       case os (OsOpenFile target mode) of
         Some err \<Rightarrow> Some (errors_Join [Some (SystemError err), map_option SystemError (body_close src)], b, st)
       | None \<Rightarrow> do {
           (c, copyErr) \<leftarrow> budget_copy os b target src;
           Some (errors_Join [copyErr, map_option SystemError (os (OsClose target)), map_option SystemError (body_close src)],
                 c, st @ [OsWrite target (copied b src), OsClose target])
         }))"

definition extract_visit :: "os_oracle \<Rightarrow> string \<Rightarrow> nat \<Rightarrow> os_call list visitor" where
  "extract_visit os destDir stripComponents e b st = (case confine destDir (e_name e) stripComponents of
     Inl err \<Rightarrow> Some (False, Some err, b, st)
   | Inr None \<Rightarrow> Some (False, None, b, st)
   | Inr (Some target) \<Rightarrow>
       if e_kind e = kindDir then Some (False, None, b, st)
       else (let mk = OsMkdirAll (filepath_Dir target) in
         case os mk of
           Some err \<Rightarrow> Some (False, Some (SystemError err), b, st @ [mk])
         | None \<Rightarrow> do {
             (err, b, st) \<leftarrow> writeEntry os target 644 e b (st @ [mk]);
             Some (False, err, b, st)
           }))"

definition assertDestination :: "string \<Rightarrow> unit panics" where
  "assertDestination dest = do {
     assert_That (filepath_IsAbs dest);
     assert_That (filepath_Clean dest = dest)
   }"

definition ExtractTree :: "os_oracle \<Rightarrow> archive_file \<Rightarrow> string \<Rightarrow> int \<Rightarrow> Limits \<Rightarrow> (archive_error option \<times> os_call list) panics" where
  "ExtractTree os arch destDir stripComponents limits = do {
     assertDestination destDir;
     if stripComponents < 0 then Some (Some (NegativeStrip stripComponents), [])
     else (case os (OsMkdirAll destDir) of
         Some err \<Rightarrow> Some (Some (SystemError err), [OsMkdirAll destDir])
       | None \<Rightarrow> walk arch limits (extract_visit os destDir (nat stripComponents)) [OsMkdirAll destDir])
   }"

definition removeIfExists :: "os_oracle \<Rightarrow> string \<Rightarrow> archive_error option" where
  "removeIfExists os name = map_option SystemError (os (OsRemove name))"

definition writeAtomic :: "os_oracle \<Rightarrow> string \<Rightarrow> entry \<Rightarrow> budget \<Rightarrow> os_call list \<Rightarrow>
    (archive_error option \<times> budget \<times> os_call list) panics" where
  "writeAtomic os destPath e b st = (let tmp = destPath @ ''.partial'' in do {
     (err, b, st) \<leftarrow> writeEntry os tmp 755 e b st;
     if err \<noteq> None then Some (errors_Join [err, removeIfExists os tmp], b, st @ [OsRemove tmp])
     else (let st = st @ [OsRename tmp destPath] in
       case os (OsRename tmp destPath) of
         Some err \<Rightarrow> Some (errors_Join [Some (SystemError err), removeIfExists os tmp], b, st @ [OsRemove tmp])
       | None \<Rightarrow> Some (None, b, st))
   })"

definition binary_matches :: "string \<Rightarrow> entry \<Rightarrow> bool" where
  "binary_matches name e \<longleftrightarrow> e_kind e = kindFile \<and> (path_Base (e_name e) = name \<or> path_Base (e_name e) = name @ ''.exe'')"

text \<open>The closure's variable \<open>found\<close> is the first part of the visitor's state.\<close>

definition binary_visit :: "os_oracle \<Rightarrow> string \<Rightarrow> string \<Rightarrow> (bool \<times> os_call list) visitor" where
  "binary_visit os name destPath e b s =
     (if \<not> binary_matches name e then Some (False, None, b, s)
      else do {
        (err, b, st) \<leftarrow> writeAtomic os destPath e b (snd s);
        Some (True, err, b, (True, st))
      })"

definition ExtractFile :: "os_oracle \<Rightarrow> archive_file \<Rightarrow> string \<Rightarrow> string \<Rightarrow> Limits \<Rightarrow> (archive_error option \<times> os_call list) panics" where
  "ExtractFile os arch name destPath limits = do {
     assertDestination destPath;
     if name = [] \<or> CHR ''/'' \<in> set name \<or> CHR 0x5C \<in> set name then Some (Some (InvalidBinaryName name), [])
     else do {
       (err, found, st) \<leftarrow> walk arch limits (binary_visit os name destPath) (False, []);
       if err \<noteq> None then Some (err, st)
       else if \<not> found then Some (Some (BinaryNotFound name), st)
       else Some (None, st)
     }
   }"

subsection \<open>The books of the budget\<close>

definition balanced :: "budget \<Rightarrow> bool" where
  "balanced b \<longleftrightarrow> 0 \<le> b_written b \<and> 0 \<le> b_skipped b \<and> 0 \<le> b_remaining b \<and> 0 < b_entryMax b \<and>
     b_written b + b_skipped b + b_remaining b = b_bytesMax b \<and> b_bytesMax b < 2 ^ 63 - 1 \<and> b_entryMax b < 2 ^ 63 - 1"

definition same_limits :: "budget \<Rightarrow> budget \<Rightarrow> bool" where
  "same_limits b b' \<longleftrightarrow> b_bytesMax b' = b_bytesMax b \<and> b_entryMax b' = b_entryMax b"

lemma same_limits_refl [simp]: "same_limits b b"
  by (simp add: same_limits_def)

lemma same_limits_trans: "same_limits a b \<Longrightarrow> same_limits b c \<Longrightarrow> same_limits a c"
  by (simp add: same_limits_def)

lemma assertBalanced_ok: "balanced b \<Longrightarrow> assertBalanced b = Some ()"
  by (simp add: assertBalanced_def balanced_def wrap_int64_id)

lemma skip_ok:
  "balanced b \<Longrightarrow> admit b sz = None \<Longrightarrow> \<exists>b'. skip b sz = Some (b', None) \<and> balanced b' \<and> same_limits b b' \<and> b_written b' = b_written b"
  by (auto simp: skip_def admit_def balanced_def same_limits_def split: if_splits)

lemma copy_room_eq: "balanced b \<Longrightarrow> copy_room b = min (b_entryMax b) (b_remaining b) + 1"
  unfolding copy_room_def by (rule wrap_int64_id) (auto simp: balanced_def)

lemma copied_length: "balanced b \<Longrightarrow> int (length (copied b src)) \<le> min (b_entryMax b) (b_remaining b) + 1"
  by (auto simp: copied_def copy_room_eq balanced_def)

lemma budget_copy_ok:
  assumes "balanced b"
  obtains b' err where "budget_copy os b dst src = Some (b', err)" "balanced b'" "same_limits b b'"
    "err \<noteq> None \<Longrightarrow> b_written b' = b_written b"
    "err = None \<Longrightarrow> copied b src = body_bytes src \<and> b_written b' = b_written b + int (length (body_bytes src)) \<and>
       int (length (body_bytes src)) \<le> b_entryMax b \<and> body_err src = None"
proof -
  let ?n = "int (length (copied b src))"
  show thesis
  proof (cases "copy_err os b dst src")
    case (Some e)
    with assms show ?thesis
      by (intro that[of "b\<lparr>b_charged := True\<rparr>" "Some (SystemError e)"])
        (simp_all add: budget_copy_def balanced_def same_limits_def Let_def)
  next
    case None
    consider (entry) "?n > b_entryMax b" | (total) "?n \<le> b_entryMax b" "?n > b_remaining b"
      | (fits) "?n \<le> b_entryMax b" "?n \<le> b_remaining b" by linarith
    then show ?thesis
    proof cases
      case entry
      with None assms show ?thesis
        by (intro that[of "b\<lparr>b_charged := True\<rparr>" "Some (EntryOverLimit (b_entryMax b))"])
          (simp_all add: budget_copy_def balanced_def same_limits_def Let_def)
    next
      case total
      with None assms show ?thesis
        by (intro that[of "b\<lparr>b_charged := True\<rparr>" "Some TotalTooLarge"])
          (simp_all add: budget_copy_def balanced_def same_limits_def Let_def)
    next
      case fits
      with assms have "?n < copy_room b" by (simp add: copy_room_eq)
      then have full: "copied b src = body_bytes src" unfolding copied_def by simp
      with None \<open>?n < copy_room b\<close> have "body_err src = None" by (auto simp: copy_err_def split: option.splits if_splits)
      with None fits full assms show ?thesis
        by (intro that[of "b\<lparr>b_charged := True, b_remaining := b_remaining b - ?n, b_written := b_written b + ?n\<rparr>" None])
          (simp_all add: budget_copy_def balanced_def same_limits_def Let_def)
    qed
  qed
qed

subsection \<open>The contract of a visitor\<close>

text \<open>
  \<open>running\<close> holds between entries, \<open>final\<close> of every state a walk may end in. The client, the walk,
  promises a balanced budget and an admitted entry; the visitor must not panic, must keep the books,
  and must keep \<open>running\<close> unless it stops or fails.
\<close>

locale archive_visitor =
  fixes visit :: "'st visitor" and running :: "budget \<Rightarrow> 'st \<Rightarrow> bool" and final :: "int \<Rightarrow> 'st \<Rightarrow> bool"
  assumes visits: "balanced b \<Longrightarrow> running b st \<Longrightarrow>
      \<exists>stop err b' st'. visit e b st = Some (stop, err, b', st') \<and> balanced b' \<and> same_limits b b' \<and>
        (b_charged b' \<or> b_remaining b' = b_remaining b) \<and>
        (if err = None \<and> \<not> stop then running b' st' else final (b_bytesMax b) st')"
    and frame: "running b st \<Longrightarrow> b_written b' = b_written b \<Longrightarrow> running b' st"
    and running_final: "balanced b \<Longrightarrow> running b st \<Longrightarrow> final (b_bytesMax b) st"
begin

lemma walkTar_safe:
  "balanced b \<Longrightarrow> running b st \<Longrightarrow> \<exists>err b' st'. walkTar visit m nexts n b st = Some (err, b', st') \<and>
     balanced b' \<and> final (b_bytesMax b) st'"
proof (induction nexts arbitrary: n b st)
  case Nil
  with running_final show ?case by simp
next
  case (Cons x nexts)
  show ?case
  proof (cases x)
    case (NextFails err)
    with Cons.prems running_final show ?thesis by simp
  next
    case (Header name sz flag src)
    let ?e = "\<lparr>e_name = name, e_kind = (if flag = TypeReg then kindFile else kindDir), e_size = sz, e_open = Inr src\<rparr>"
    let ?b = "b\<lparr>b_charged := False\<rparr>"
    have b: "balanced ?b" "running ?b st"
      using Cons.prems frame[of b st ?b] by (simp_all add: balanced_def)
    show ?thesis
    proof (cases "n < m \<and> flag \<noteq> TypeXGlobalHeader \<and> flag \<noteq> TypeOther \<and> admit b sz = None")
      case False
      with Header Cons running_final show ?thesis by (auto split: option.splits)
    next
      case True
      from visits[OF b, of ?e] obtain stop err b' st' where v: "visit ?e ?b st = Some (stop, err, b', st')"
        and b': "balanced b'" "same_limits ?b b'" "b_charged b' \<or> b_remaining b' = b_remaining ?b"
        and st': "if err = None \<and> \<not> stop then running b' st' else final (b_bytesMax ?b) st'" by blast
      have eq: "b_bytesMax b' = b_bytesMax b" "b_entryMax b' = b_entryMax b" using b'(2) by (simp_all add: same_limits_def)
      show ?thesis
      proof (cases "err = None \<and> \<not> stop")
        case False
        with True Header v b' st' show ?thesis by (intro exI[of _ err] exI[of _ b'] exI[of _ st']) auto
      next
        case go: True
        show ?thesis
        proof (cases "b_charged b'")
          case ch: True
          from Cons.IH[OF b'(1), of st' "n + 1"] go st' obtain err2 b2 st2 where
            "walkTar visit m nexts (n + 1) b' st' = Some (err2, b2, st2)" "balanced b2" "final (b_bytesMax b') st2" by auto
          with True Header v go ch eq show ?thesis by simp
        next
          case ch: False
          have "admit b' sz = None" using True b'(3) ch eq by (simp add: admit_def split: if_splits)
          from skip_ok[OF b'(1) this] obtain b2 where b2: "skip b' sz = Some (b2, None)" "balanced b2"
            "same_limits b' b2" "b_written b2 = b_written b'" by blast
          have "running b2 st'" using go st' frame[of b' st' b2] b2(4) by simp
          from Cons.IH[OF b2(2) this, of "n + 1"] obtain err3 b3 st3 where
            "walkTar visit m nexts (n + 1) b2 st' = Some (err3, b3, st3)" "balanced b3" "final (b_bytesMax b2) st3" by blast
          with True Header v go ch b2 eq show ?thesis by (simp add: same_limits_def)
        qed
      qed
    qed
  qed
qed

lemma walkZip_loop_safe:
  "balanced b \<Longrightarrow> running b st \<Longrightarrow> \<exists>err b' st'. walkZip_loop visit fs b st = Some (err, b', st') \<and>
     balanced b' \<and> final (b_bytesMax b) st'"
proof (induction fs arbitrary: b st)
  case Nil
  with running_final show ?case by simp
next
  case (Cons f fs)
  let ?e = "\<lparr>e_name = zf_Name f, e_kind = (if zf_Mode f = ModeRegular then kindFile else kindDir),
    e_size = zf_UncompressedSize64 f, e_open = zf_Open f\<rparr>"
  show ?case
  proof (cases "zf_Mode f \<noteq> ModeOther \<and> \<not> zf_UncompressedSize64 f > 2 ^ 63 - 1 \<and> admit b (zf_UncompressedSize64 f) = None")
    case False
    with Cons running_final show ?thesis by (auto split: option.splits)
  next
    case True
    from visits[OF Cons.prems, of ?e] obtain stop err b' st' where v: "visit ?e b st = Some (stop, err, b', st')"
      and b': "balanced b'" "same_limits b b'"
      and st': "if err = None \<and> \<not> stop then running b' st' else final (b_bytesMax b) st'" by blast
    show ?thesis
    proof (cases "err = None \<and> \<not> stop")
      case False
      with True v b' st' show ?thesis by (intro exI[of _ err] exI[of _ b'] exI[of _ st']) auto
    next
      case go: True
      from Cons.IH[OF b'(1), of st'] go st' obtain err2 b2 st2 where
        "walkZip_loop visit fs b' st' = Some (err2, b2, st2)" "balanced b2" "final (b_bytesMax b') st2" by auto
      with True v go b'(2) show ?thesis by (simp add: same_limits_def)
    qed
  qed
qed

lemma walk_safe:
  assumes "lim_BytesMax limits < 2 ^ 63 - 1" "lim_EntryBytesMax limits < 2 ^ 63 - 1"
    and start: "\<And>b. b_written b = 0 \<Longrightarrow> running b st" and finish: "0 < lim_BytesMax limits \<Longrightarrow> final (lim_BytesMax limits) st"
  shows "\<exists>err st'. walk arch limits visit st = Some (err, st') \<and>
     (if lim_BytesMax limits > 0 then final (lim_BytesMax limits) st' else st' = st)"
proof (cases "limits_validate limits")
  case (Some err)
  with finish show ?thesis by (simp add: walk_def)
next
  case None
  then have pos: "lim_BytesMax limits > 0" "lim_EntryCountMax limits > 0" "lim_EntryBytesMax limits > 0"
    by (simp_all add: limits_validate_def split: if_splits)
  let ?b = "newBudget limits"
  have b: "balanced ?b" using pos assms(1,2) by (simp add: balanced_def newBudget_def)
  have r: "running ?b st" by (rule start) (simp add: newBudget_def)
  have bm: "b_bytesMax ?b = lim_BytesMax limits" by (simp add: newBudget_def)
  show ?thesis
  proof (cases arch)
    case (TarGz x)
    show ?thesis
    proof (cases x)
      case (Inl e)
      with TarGz None pos finish show ?thesis by (simp add: walk_def assertBalanced_ok[OF b])
    next
      case (Inr y)
      obtain nexts closing where y: "y = (nexts, closing)" by (cases y)
      from walkTar_safe[OF b r, of "lim_EntryCountMax limits" nexts 0] obtain err b' st' where
        "walkTar visit (lim_EntryCountMax limits) nexts 0 ?b st = Some (err, b', st')" "balanced b'"
        "final (b_bytesMax ?b) st'" by blast
      with TarGz Inr y None pos bm show ?thesis by (simp add: walk_def assertBalanced_ok)
    qed
  next
    case (ZipArchive x)
    show ?thesis
    proof (cases x)
      case (Inl e)
      with ZipArchive None pos finish show ?thesis by (simp add: walk_def assertBalanced_ok[OF b])
    next
      case (Inr y)
      obtain files closing where y: "y = (files, closing)" by (cases y)
      from walkZip_loop_safe[OF b r, of files] obtain err b' st' where
        "walkZip_loop visit files ?b st = Some (err, b', st')" "balanced b'" "final (b_bytesMax ?b) st'" by blast
      with ZipArchive Inr y None pos bm finish show ?thesis
        by (simp add: walk_def walkZipFiles_def assertBalanced_ok b Let_def)
    qed
  qed (use None pos finish in \<open>simp add: walk_def\<close>)
qed

end

subsection \<open>Confinement\<close>

lemma strings_Join_dotdot_prefix:
  "bs \<noteq> [] \<Longrightarrow> strings_Join (map (\<lambda>_. ''..'') bs @ ts) ''/'' = ''..'' \<or>
     strings_HasPrefix (strings_Join (map (\<lambda>_. ''..'') bs @ ts) ''/'') ''../''"
  by (cases bs; cases "map (\<lambda>_. ''..'') (tl bs) @ ts") auto

lemma Rel_down:
  assumes "list_all normal_comp ds" "list_all normal_comp ts"
    "filepath_Rel (abs_path ds) (abs_path ts) \<noteq> ''.''" "filepath_Rel (abs_path ds) (abs_path ts) \<noteq> ''..''"
    "\<not> strings_HasPrefix (filepath_Rel (abs_path ds) (abs_path ts)) ''../''"
  shows "\<exists>ext. ext \<noteq> [] \<and> ts = ds @ ext"
proof -
  obtain bs us where s: "strip_common ds ts = (bs, us)" by (cases "strip_common ds ts")
  from strip_common_spec[OF s] obtain c where c: "ds = c @ bs" "ts = c @ us" by blast
  have rel: "filepath_Rel (abs_path ds) (abs_path ts) =
      (if bs = [] \<and> us = [] then ''.'' else strings_Join (map (\<lambda>_. ''..'') bs @ us) ''/'')"
    using assms(1,2) by (simp add: filepath_Rel_def s map_replicate_const)
  have "bs = []" using assms(3-5) strings_Join_dotdot_prefix[of bs us] by (auto simp: rel split: if_splits)
  with c rel assms(3) show ?thesis by (cases us) auto
qed

lemma confine_within:
  assumes "list_all normal_comp ds" "confine (abs_path ds) name k = Inr (Some target)"
  shows "\<exists>ext. ext \<noteq> [] \<and> list_all normal_comp ext \<and> target = abs_path (ds @ ext)"
proof -
  define relative where "relative = strings_Join (drop k (strings_Split name (CHR ''/''))) ''/''"
  define rel where "rel = filepath_Rel (abs_path ds) (filepath_Join [abs_path ds, relative])"
  from assms(2) have t: "relative \<noteq> []" "target = filepath_Join [abs_path ds, relative]" "rel \<noteq> ''.''" "rel \<noteq> ''..''"
    "\<not> strings_HasPrefix rel ''../''"
    by (auto simp: confine_def Let_def relative_def rel_def split: if_splits)
  define ts where "ts = clean_loop True ds (strings_Split relative (CHR ''/''))"
  have target: "filepath_Join [abs_path ds, relative] = abs_path ts"
    unfolding ts_def by (rule Join_abs_path[OF assms(1) t(1)])
  have ts: "list_all normal_comp ts" unfolding ts_def
    by (rule clean_loop_rooted_normal[OF assms(1)]) (rule Split_no_sep)
  from Rel_down[OF assms(1) ts] t(3-5) obtain ext where "ext \<noteq> []" "ts = ds @ ext"
    unfolding rel_def target by blast
  with ts t(2) target show ?thesis by (auto intro!: exI[of _ ext])
qed

subsection \<open>What extraction writes\<close>

fun call_bytes :: "os_call \<Rightarrow> int" where
  "call_bytes (OsWrite p content) = int (length content)"
| "call_bytes _ = 0"

definition bytes_written :: "os_call list \<Rightarrow> int" where
  "bytes_written calls = sum_list (map call_bytes calls)"

lemma bytes_written_simps [simp]:
  "bytes_written [] = 0" "bytes_written (xs @ ys) = bytes_written xs + bytes_written ys"
  "bytes_written (c # xs) = call_bytes c + bytes_written xs"
  by (simp_all add: bytes_written_def)

definition file_calls :: "string \<Rightarrow> os_call list \<Rightarrow> bool" where
  "file_calls target calls \<longleftrightarrow>
     (\<forall>c \<in> set calls. (\<exists>mode. c = OsOpenFile target mode) \<or> (\<exists>content. c = OsWrite target content) \<or> c = OsClose target)"

lemma writeEntry_ok:
  assumes "balanced b"
  obtains err b' calls where "writeEntry os target mode e b st = Some (err, b', st @ calls)"
    "balanced b'" "same_limits b b'" "b_charged b' \<or> b_remaining b' = b_remaining b" "file_calls target calls"
    "bytes_written calls \<le> b_remaining b + 1"
    "err = None \<Longrightarrow> \<exists>src. e_open e = Inr src \<and> body_err src = None \<and>
       int (length (body_bytes src)) \<le> b_entryMax b \<and> b_written b' = b_written b + bytes_written calls \<and>
       calls = [OsOpenFile target mode, OsWrite target (body_bytes src), OsClose target]"
proof (cases "e_open e")
  case (Inl err)
  with assms show ?thesis
    by (intro that[of "Some (SystemError err)" b "[]"]) (simp_all add: writeEntry_def file_calls_def balanced_def)
next
  case (Inr src)
  show ?thesis
  proof (cases "os (OsOpenFile target mode)")
    case (Some err)
    with Inr assms show ?thesis
      by (intro that[of "errors_Join [Some (SystemError err), map_option SystemError (body_close src)]" b "[OsOpenFile target mode]"])
        (auto simp: writeEntry_def file_calls_def balanced_def Let_def)
  next
    case None
    from budget_copy_ok[OF assms, of os target src] obtain b' copyErr where
      c: "budget_copy os b target src = Some (b', copyErr)" "balanced b'" "same_limits b b'"
      and ok: "copyErr = None \<Longrightarrow> copied b src = body_bytes src \<and> b_written b' = b_written b + int (length (body_bytes src)) \<and>
         int (length (body_bytes src)) \<le> b_entryMax b \<and> body_err src = None" by blast
    have charged: "b_charged b'" using c(1)
      by (auto simp: budget_copy_def Let_def panics_iff split: option.splits if_splits)
    let ?calls = "[OsOpenFile target mode, OsWrite target (copied b src), OsClose target]"
    let ?err = "errors_Join [copyErr, map_option SystemError (os (OsClose target)), map_option SystemError (body_close src)]"
    have "writeEntry os target mode e b st = Some (?err, b', st @ ?calls)"
      using Inr None c(1) by (simp add: writeEntry_def Let_def)
    moreover have "bytes_written ?calls \<le> b_remaining b + 1" using copied_length[OF assms, of src] by simp
    moreover have "copyErr = None" if "?err = None" using that by simp
    ultimately show ?thesis
      using c(2,3) charged ok Inr by (intro that[of ?err b' ?calls]) (auto simp: file_calls_def)
  qed
qed

lemma writeEntry_success:
  assumes "balanced b" "writeEntry os target mode e b st = Some (None, b', st')"
  shows "\<exists>src. e_open e = Inr src \<and> body_err src = None \<and> int (length (body_bytes src)) \<le> b_entryMax b \<and>
     st' = st @ [OsOpenFile target mode, OsWrite target (body_bytes src), OsClose target]"
proof (rule writeEntry_ok[OF assms(1), of os target mode e st])
  fix err b1 calls
  assume w: "writeEntry os target mode e b st = Some (err, b1, st @ calls)"
    and ok: "err = None \<Longrightarrow> \<exists>src. e_open e = Inr src \<and> body_err src = None \<and>
       int (length (body_bytes src)) \<le> b_entryMax b \<and> b_written b1 = b_written b + bytes_written calls \<and>
       calls = [OsOpenFile target mode, OsWrite target (body_bytes src), OsClose target]"
  from w assms(2) have e: "err = None" and st': "st' = st @ calls" by simp_all
  from ok[OF e] st' show ?thesis by blast
qed

definition below :: "string list \<Rightarrow> string \<Rightarrow> bool" where
  "below ds p \<longleftrightarrow> (\<exists>ext. ext \<noteq> [] \<and> list_all normal_comp ext \<and> p = abs_path (ds @ ext))"

fun call_within :: "string list \<Rightarrow> os_call \<Rightarrow> bool" where
  "call_within ds (OsMkdirAll p) \<longleftrightarrow> p = abs_path ds \<or> below ds p"
| "call_within ds (OsOpenFile p mode) \<longleftrightarrow> below ds p"
| "call_within ds (OsWrite p content) \<longleftrightarrow> below ds p"
| "call_within ds (OsClose p) \<longleftrightarrow> below ds p"
| "call_within ds (OsRename a b) \<longleftrightarrow> False"
| "call_within ds (OsRemove p) \<longleftrightarrow> False"

definition extract_running :: "string list \<Rightarrow> budget \<Rightarrow> os_call list \<Rightarrow> bool" where
  "extract_running ds b st \<longleftrightarrow> list_all (call_within ds) st \<and> bytes_written st = b_written b"

definition extract_final :: "string list \<Rightarrow> int \<Rightarrow> os_call list \<Rightarrow> bool" where
  "extract_final ds bytesMax st \<longleftrightarrow> list_all (call_within ds) st \<and> bytes_written st \<le> bytesMax + 1"

lemma file_calls_within: "below ds p \<Longrightarrow> file_calls p calls \<Longrightarrow> list_all (call_within ds) calls"
  by (auto simp: file_calls_def list_all_iff)

lemma Dir_below:
  assumes "list_all normal_comp ds" "below ds p"
  shows "filepath_Dir p = abs_path ds \<or> below ds (filepath_Dir p)"
proof -
  from assms(2) obtain ext where e: "ext \<noteq> []" "list_all normal_comp ext" "p = abs_path (ds @ ext)" by (auto simp: below_def)
  then have p: "p = abs_path ((ds @ butlast ext) @ [last ext])" by simp
  have "list_all normal_comp ((ds @ butlast ext) @ [last ext])"
    using assms(1) e by (auto simp: list_all_iff dest: in_set_butlastD)
  from Dir_abs_path[OF this] p have "filepath_Dir p = abs_path (ds @ butlast ext)" by simp
  moreover have "list_all normal_comp (butlast ext)" using e(2) by (auto simp: list_all_iff dest: in_set_butlastD)
  ultimately show ?thesis by (cases "butlast ext = []") (auto simp: below_def)
qed

lemma extract_visit_ok:
  assumes ds: "list_all normal_comp ds" and b: "balanced b" and r: "extract_running ds b st"
  shows "\<exists>stop err b' st'. extract_visit os (abs_path ds) k e b st = Some (stop, err, b', st') \<and> balanced b' \<and>
     same_limits b b' \<and> (b_charged b' \<or> b_remaining b' = b_remaining b) \<and>
     (if err = None \<and> \<not> stop then extract_running ds b' st' else extract_final ds (b_bytesMax b) st')"
proof -
  have fin: "extract_final ds (b_bytesMax b) st" using r b by (auto simp: extract_final_def extract_running_def balanced_def)
  show ?thesis
  proof (cases "confine (abs_path ds) (e_name e) k")
    case (Inl err)
    with b fin show ?thesis by (auto simp: extract_visit_def)
  next
    case (Inr target)
    show ?thesis
    proof (cases "target = None \<or> e_kind e = kindDir")
      case True
      with Inr have "extract_visit os (abs_path ds) k e b st = Some (False, None, b, st)"
        by (auto simp: extract_visit_def split: option.split)
      with b r show ?thesis by auto
    next
      case False
      then obtain p where p: "target = Some p" "e_kind e \<noteq> kindDir" by auto
      with confine_within[OF ds, of "e_name e" k p] Inr have below: "below ds p" by (auto simp: below_def)
      let ?mk = "OsMkdirAll (filepath_Dir p)"
      have mk: "call_within ds ?mk" using Dir_below[OF ds below] by simp
      show ?thesis
      proof (cases "os ?mk")
        case (Some err)
        with Inr p have "extract_visit os (abs_path ds) k e b st = Some (False, Some (SystemError err), b, st @ [?mk])"
          by (simp add: extract_visit_def Let_def)
        moreover have "extract_final ds (b_bytesMax b) (st @ [?mk])" using fin mk by (simp add: extract_final_def)
        ultimately show ?thesis using b by auto
      next
        case None
        from writeEntry_ok[OF b, of os p 644 e "st @ [?mk]"] obtain err b' calls where
          w: "writeEntry os p 644 e b (st @ [?mk]) = Some (err, b', (st @ [?mk]) @ calls)" "balanced b'" "same_limits b b'"
            "b_charged b' \<or> b_remaining b' = b_remaining b" "file_calls p calls" "bytes_written calls \<le> b_remaining b + 1"
          and ok: "err = None \<Longrightarrow> b_written b' = b_written b + bytes_written calls" by blast
        have within: "list_all (call_within ds) ((st @ [?mk]) @ calls)"
          using r mk file_calls_within[OF below w(5)] by (simp add: extract_running_def)
        have "extract_final ds (b_bytesMax b) ((st @ [?mk]) @ calls)"
          using within r w(6) b by (simp add: extract_final_def extract_running_def balanced_def)
        moreover have "extract_running ds b' ((st @ [?mk]) @ calls)" if "err = None"
          using within r ok[OF that] by (simp add: extract_running_def)
        moreover have "extract_visit os (abs_path ds) k e b st = Some (False, err, b', (st @ [?mk]) @ calls)"
          using Inr p None w(1) by (simp add: extract_visit_def Let_def)
        ultimately show ?thesis using w(2-4) by auto
      qed
    qed
  qed
qed

text \<open>
  The destination directory and the strip count vary, so the interpretation is on the visitor of an
  arbitrary clean absolute directory, given by its components.
\<close>

definition clean_dir :: "string list \<Rightarrow> string" where
  "clean_dir ds = abs_path (if list_all normal_comp ds then ds else [])"

interpretation tree_visitor: archive_visitor "extract_visit os (clean_dir ds) k"
    "extract_running (if list_all normal_comp ds then ds else [])" "extract_final (if list_all normal_comp ds then ds else [])"
  for os ds k
proof
  have ds: "list_all normal_comp (if list_all normal_comp ds then ds else [])" by simp
  show "balanced b \<Longrightarrow> extract_running (if list_all normal_comp ds then ds else []) b st \<Longrightarrow>
      \<exists>stop err b' st'. extract_visit os (clean_dir ds) k e b st = Some (stop, err, b', st') \<and> balanced b' \<and>
        same_limits b b' \<and> (b_charged b' \<or> b_remaining b' = b_remaining b) \<and>
        (if err = None \<and> \<not> stop then extract_running (if list_all normal_comp ds then ds else []) b' st'
         else extract_final (if list_all normal_comp ds then ds else []) (b_bytesMax b) st')" for b st e
    unfolding clean_dir_def by (rule extract_visit_ok[OF ds])
qed (auto simp: extract_running_def extract_final_def balanced_def)

lemma ExtractTree_within:
  assumes "filepath_IsAbs dest" "filepath_Clean dest = dest"
    and "lim_BytesMax limits < 2 ^ 63 - 1" "lim_EntryBytesMax limits < 2 ^ 63 - 1"
  shows "\<exists>err calls. ExtractTree os arch dest strip limits = Some (err, calls) \<and>
     list_all (call_within (abs_comps dest)) calls \<and> bytes_written calls \<le> max 0 (lim_BytesMax limits) + 1"
proof -
  define ds where "ds = abs_comps dest"
  have ds: "list_all normal_comp ds" unfolding ds_def by (rule abs_comps_normal)
  have dest: "dest = abs_path ds" using assms(1,2) Clean_abs ds_def by metis
  have cd: "clean_dir ds = dest" using ds dest by (simp add: clean_dir_def)
  let ?start = "[OsMkdirAll dest]"
  have start: "list_all (call_within ds) ?start" "bytes_written ?start = 0" using dest by simp_all
  have "\<exists>err st'. walk arch limits (extract_visit os (clean_dir ds) (nat strip)) ?start = Some (err, st') \<and>
     (if lim_BytesMax limits > 0 then extract_final (if list_all normal_comp ds then ds else []) (lim_BytesMax limits) st'
      else st' = ?start)"
    by (rule tree_visitor.walk_safe[OF assms(3,4)])
      (use start ds in \<open>simp_all add: extract_running_def extract_final_def\<close>)
  then obtain err calls where w: "walk arch limits (extract_visit os dest (nat strip)) ?start = Some (err, calls)"
    "list_all (call_within ds) calls" "bytes_written calls \<le> max 0 (lim_BytesMax limits) + 1"
    using ds start by (auto simp: cd extract_final_def split: if_splits)
  have ad: "assertDestination dest = Some ()" using assms(1,2) by (simp add: assertDestination_def)
  show ?thesis
    using w start unfolding ds_def[symmetric] by (cases "os (OsMkdirAll dest)") (auto simp: ExtractTree_def ad)
qed

text \<open>
  C15. Extraction is confined and bounded. Whatever the archive holds and whichever system calls
  fail, \<open>ExtractTree\<close> to an absolute clean directory does not panic, makes no directory and opens no
  file but the destination and paths strictly below it (the destination followed by components none
  of which is empty, a dot or a double dot), never renames or removes anything, and hands the system
  at most one byte more than \<open>BytesMax\<close>.
\<close>

theorem ExtractTree_confined:
  assumes "filepath_IsAbs dest" "filepath_Clean dest = dest"
    and "lim_BytesMax limits < 2 ^ 63 - 1" "lim_EntryBytesMax limits < 2 ^ 63 - 1"
  shows "\<exists>err calls. ExtractTree os arch dest strip limits = Some (err, calls) \<and>
     list_all (call_within (abs_comps dest)) calls \<and> bytes_written calls \<le> max 0 (lim_BytesMax limits) + 1"
  by (rule ExtractTree_within[OF assms])

subsection \<open>What a successful extraction means\<close>

fun tar_entries :: "tar_next list \<Rightarrow> entry list" where
  "tar_entries [] = []"
| "tar_entries (NextFails err # nexts) = []"
| "tar_entries (Header name sz flag src # nexts) =
     (if flag = TypeReg \<or> flag = TypeDir
      then \<lparr>e_name = name, e_kind = (if flag = TypeReg then kindFile else kindDir), e_size = sz, e_open = Inr src\<rparr>
             # tar_entries nexts
      else tar_entries nexts)"

definition zip_entry :: "zip_file \<Rightarrow> entry" where
  "zip_entry f = \<lparr>e_name = zf_Name f, e_kind = (if zf_Mode f = ModeRegular then kindFile else kindDir),
     e_size = zf_UncompressedSize64 f, e_open = zf_Open f\<rparr>"

definition archive_entries :: "archive_file \<Rightarrow> entry list" where
  "archive_entries arch = (case arch of
     TarGz (Inr (nexts, _)) \<Rightarrow> tar_entries nexts
   | ZipArchive (Inr (files, _)) \<Rightarrow> map zip_entry files
   | _ \<Rightarrow> [])"

text \<open>Everything the archive holds is of a supported kind and the reader reached its end.\<close>

definition archive_supported :: "archive_file \<Rightarrow> bool" where
  "archive_supported arch = (case arch of
     TarGz (Inr (nexts, _)) \<Rightarrow> list_all (\<lambda>x. case x of Header _ _ flag _ \<Rightarrow> flag \<noteq> TypeOther | NextFails _ \<Rightarrow> False) nexts
   | ZipArchive (Inr (files, _)) \<Rightarrow> list_all (\<lambda>f. zf_Mode f \<noteq> ModeOther) files
   | _ \<Rightarrow> False)"

text \<open>
  A visitor that handles every entry it is given: a walk that ends without an error has handled all
  of them.
\<close>

locale handling_visitor = archive_visitor +
  fixes handled :: "entry \<Rightarrow> 'a \<Rightarrow> bool"
  assumes handles: "balanced b \<Longrightarrow> running b st \<Longrightarrow> visit e b st = Some (stop, None, b', st') \<Longrightarrow> \<not> stop \<and> handled e st'"
    and keeps: "visit e b st = Some (stop, err, b', st') \<Longrightarrow> handled e' st \<Longrightarrow> handled e' st'"
begin

lemma walkTar_handles:
  "walkTar visit m nexts n b st = Some (None, b', st') \<Longrightarrow> balanced b \<Longrightarrow> running b st \<Longrightarrow>
     (\<forall>e \<in> set (tar_entries nexts) \<union> E. e \<in> E \<longrightarrow> handled e st) \<Longrightarrow>
     (\<forall>e \<in> set (tar_entries nexts) \<union> E. handled e st') \<and>
     list_all (\<lambda>x. case x of Header _ _ flag _ \<Rightarrow> flag \<noteq> TypeOther | NextFails _ \<Rightarrow> False) nexts"
proof (induction nexts arbitrary: n b st E)
  case (Cons x nexts)
  from Cons.prems(1) obtain name sz flag src where x: "x = Header name sz flag src" by (cases x) auto
  let ?e = "\<lparr>e_name = name, e_kind = (if flag = TypeReg then kindFile else kindDir), e_size = sz, e_open = Inr src\<rparr>"
  let ?b = "b\<lparr>b_charged := False\<rparr>"
  show ?case
  proof (cases "flag = TypeXGlobalHeader")
    case True
    with Cons.prems(1) x have "walkTar visit m nexts (n + 1) b st = Some (None, b', st')" by (simp split: if_splits)
    from Cons.IH[OF this Cons.prems(2,3), of E] Cons.prems(4) x True show ?thesis by simp
  next
    case False
    from Cons.prems(1) x False have nm: "\<not> n \<ge> m" and other: "flag \<noteq> TypeOther" and adm: "admit b sz = None"
      by (auto split: if_splits option.splits)
    have b: "balanced ?b" "running ?b st"
      using Cons.prems(2,3) frame[of b st ?b] by (simp_all add: balanced_def)
    from visits[OF b, of ?e] obtain stop err b1 st1 where v: "visit ?e ?b st = Some (stop, err, b1, st1)"
      and b1: "balanced b1" "same_limits ?b b1" "b_charged b1 \<or> b_remaining b1 = b_remaining ?b"
      and st1: "if err = None \<and> \<not> stop then running b1 st1 else final (b_bytesMax ?b) st1" by blast
    have err: "err = None"
      using Cons.prems(1) x False nm other adm v by (auto split: if_splits)
    from handles[OF b v[unfolded err]] have stop: "\<not> stop" and h: "handled ?e st1" by auto
    have kept: "handled e st1" if "e \<in> E" for e using keeps[OF v] that Cons.prems(4) by auto
    have run1: "running b1 st1" using st1 err stop by simp
    obtain b2 where b2: "walkTar visit m nexts (n + 1) b2 st1 = Some (None, b', st')" "balanced b2" "running b2 st1"
    proof (cases "b_charged b1")
      case True
      with Cons.prems(1) x False nm other adm v err stop b1(1) run1 show ?thesis by (intro that[of b1]) auto
    next
      case ch: False
      have "admit b1 sz = None" using adm b1(2,3) ch by (simp add: admit_def same_limits_def split: if_splits)
      from skip_ok[OF b1(1) this] obtain b2 where s: "skip b1 sz = Some (b2, None)" "balanced b2" "b_written b2 = b_written b1" by blast
      from frame[OF run1 s(3)] Cons.prems(1) x False nm other adm v err stop ch s(1,2) show ?thesis
        by (intro that[of b2]) auto
    qed
    from Cons.IH[OF b2, of "insert ?e E"] h kept have r: "(\<forall>e \<in> set (tar_entries nexts) \<union> insert ?e E. handled e st') \<and>
      list_all (\<lambda>x. case x of Header _ _ flag _ \<Rightarrow> flag \<noteq> TypeOther | NextFails _ \<Rightarrow> False) nexts" by simp
    have "flag = TypeReg \<or> flag = TypeDir" using False other by (cases flag) auto
    with r x other show ?thesis by auto
  qed
qed auto

lemma walkZip_handles:
  "walkZip_loop visit fs b st = Some (None, b', st') \<Longrightarrow> balanced b \<Longrightarrow> running b st \<Longrightarrow> (\<forall>e \<in> E. handled e st) \<Longrightarrow>
     (\<forall>e \<in> set (map zip_entry fs) \<union> E. handled e st') \<and> list_all (\<lambda>f. zf_Mode f \<noteq> ModeOther) fs"
proof (induction fs arbitrary: b st E)
  case (Cons f fs)
  let ?e = "zip_entry f"
  from Cons.prems(1) have m: "zf_Mode f \<noteq> ModeOther" and sz: "\<not> zf_UncompressedSize64 f > 2 ^ 63 - 1"
    and adm: "admit b (zf_UncompressedSize64 f) = None" by (auto split: if_splits option.splits)
  from visits[OF Cons.prems(2,3), of ?e] obtain stop err b1 st1 where v: "visit ?e b st = Some (stop, err, b1, st1)"
    and b1: "balanced b1" and st1: "if err = None \<and> \<not> stop then running b1 st1 else final (b_bytesMax b) st1" by blast
  have err: "err = None"
    using Cons.prems(1) m sz adm v by (auto simp: zip_entry_def split: if_splits)
  from handles[OF Cons.prems(2,3) v[unfolded err]] have stop: "\<not> stop" and h: "handled ?e st1" by auto
  have "\<forall>e \<in> insert ?e E. handled e st1" using keeps[OF v] h Cons.prems(4) by auto
  moreover have "walkZip_loop visit fs b1 st1 = Some (None, b', st')"
    using Cons.prems(1) m sz adm v err stop by (auto simp: zip_entry_def)
  moreover have "running b1 st1" using st1 err stop by simp
  ultimately show ?case using Cons.IH[of b1 st1 "insert ?e E"] b1 m by auto
qed simp

lemma walk_handles:
  assumes "walk arch limits visit st = Some (None, st')"
    "lim_BytesMax limits < 2 ^ 63 - 1" "lim_EntryBytesMax limits < 2 ^ 63 - 1" "\<And>b. b_written b = 0 \<Longrightarrow> running b st"
  shows "archive_supported arch \<and> (\<forall>e \<in> set (archive_entries arch). handled e st')"
proof -
  let ?b = "newBudget limits"
  have v: "limits_validate limits = None" using assms(1) by (auto simp: walk_def split: option.splits)
  then have b: "balanced ?b" using assms(2,3)
    by (simp add: balanced_def newBudget_def limits_validate_def split: if_splits)
  have r: "running ?b st" by (rule assms(4)) (simp add: newBudget_def)
  show ?thesis
  proof (cases arch)
    case (TarGz x)
    with assms(1) v obtain nexts closing b' where x: "x = Inr (nexts, closing)"
      "walkTar visit (lim_EntryCountMax limits) nexts 0 ?b st = Some (None, b', st')"
      by (cases x) (auto simp: walk_def panics_iff)
    from walkTar_handles[OF x(2) b r, of "{}"] TarGz x(1) show ?thesis
      by (simp add: archive_supported_def archive_entries_def)
  next
    case (ZipArchive x)
    with assms(1) v obtain files closing b' where x: "x = Inr (files, closing)"
      "walkZip_loop visit files ?b st = Some (None, b', st')"
      by (cases x) (auto simp: walk_def walkZipFiles_def panics_iff Let_def split: if_splits)
    from walkZip_handles[OF x(2) b r, of "{}"] ZipArchive x(1) show ?thesis
      by (simp add: archive_supported_def archive_entries_def)
  qed (use assms(1) v in \<open>simp add: walk_def\<close>)
qed

end

definition extracted :: "string \<Rightarrow> nat \<Rightarrow> entry \<Rightarrow> os_call list \<Rightarrow> bool" where
  "extracted destDir k e calls \<longleftrightarrow> (case confine destDir (e_name e) k of
     Inl err \<Rightarrow> False
   | Inr None \<Rightarrow> True
   | Inr (Some target) \<Rightarrow> e_kind e = kindFile \<longrightarrow>
       (\<exists>src. e_open e = Inr src \<and> body_err src = None \<and> OsWrite target (body_bytes src) \<in> set calls))"

lemma extracted_mono: "extracted destDir k e calls \<Longrightarrow> set calls \<subseteq> set calls' \<Longrightarrow> extracted destDir k e calls'"
  unfolding extracted_def by (auto split: sum.splits option.splits)

lemma writeEntry_calls: "writeEntry os target mode e b st = Some (err, b', st') \<Longrightarrow> set st \<subseteq> set st'"
  by (auto simp: writeEntry_def panics_iff Let_def split: sum.splits option.splits)

lemma extract_visit_calls:
  "extract_visit os destDir k e b st = Some (stop, err, b', st') \<Longrightarrow> set st \<subseteq> set st' \<and> \<not> stop"
  by (auto simp: extract_visit_def panics_iff Let_def split: sum.splits option.splits if_splits dest!: writeEntry_calls)

lemma extract_visit_extracted:
  assumes "balanced b" "extract_visit os destDir k e b st = Some (stop, None, b', st')"
  shows "extracted destDir k e st'"
proof (cases "confine destDir (e_name e) k")
  case (Inr t)
  show ?thesis
  proof (cases "t = None \<or> e_kind e = kindDir")
    case True
    with Inr show ?thesis by (cases t) (auto simp: extracted_def)
  next
    case False
    then obtain p where p: "t = Some p" "e_kind e \<noteq> kindDir" by auto
    let ?mk = "OsMkdirAll (filepath_Dir p)"
    have os: "os ?mk = None"
      using assms(2) Inr p by (cases "os ?mk") (simp_all add: extract_visit_def Let_def)
    have "writeEntry os p 644 e b (st @ [?mk]) = Some (None, b', st')"
      using assms(2) Inr p os by (auto simp: extract_visit_def Let_def panics_iff)
    from writeEntry_success[OF assms(1) this] obtain src where "e_open e = Inr src" "body_err src = None"
      and st': "st' = (st @ [?mk]) @ [OsOpenFile p 644, OsWrite p (body_bytes src), OsClose p]" by blast
    then show ?thesis by (simp add: extracted_def Inr p(1) st')
  qed
qed (use assms in \<open>simp add: extract_visit_def\<close>)

interpretation tree_handler: handling_visitor "extract_visit os (clean_dir ds) k"
    "extract_running (if list_all normal_comp ds then ds else [])" "extract_final (if list_all normal_comp ds then ds else [])"
    "extracted (clean_dir ds) k"
  for os ds k
proof
  fix e e' b st stop err b' st'
  assume v: "extract_visit os (clean_dir ds) k e b st = Some (stop, err, b', st')"
  from extracted_mono[OF _ conjunct1[OF extract_visit_calls[OF v]]]
  show "extracted (clean_dir ds) k e' st \<Longrightarrow> extracted (clean_dir ds) k e' st'" .
qed (use extract_visit_extracted extract_visit_calls in blast)

text \<open>
  C16. A successful extraction is complete. When \<open>ExtractTree\<close> returns without an error the archive
  held only regular files, directories and PAX headers and was read to its end, no entry was outside
  the destination, and every regular file that does not strip to nothing was read without an error
  and written, whole, to the path its name is confined to.
\<close>

theorem ExtractTree_complete:
  assumes "ExtractTree os arch dest strip limits = Some (None, calls)"
    and "lim_BytesMax limits < 2 ^ 63 - 1" "lim_EntryBytesMax limits < 2 ^ 63 - 1"
  shows "archive_supported arch \<and> (\<forall>e \<in> set (archive_entries arch). \<exists>t. confine dest (e_name e) (nat strip) = Inr t \<and>
     (\<forall>target. t = Some target \<and> e_kind e = kindFile \<longrightarrow>
        (\<exists>src. e_open e = Inr src \<and> body_err src = None \<and> OsWrite target (body_bytes src) \<in> set calls)))"
proof -
  define ds where "ds = abs_comps dest"
  have ds: "list_all normal_comp ds" unfolding ds_def by (rule abs_comps_normal)
  from assms(1) have "filepath_IsAbs dest" "filepath_Clean dest = dest"
    by (auto simp: ExtractTree_def assertDestination_def panics_iff)
  then have dest: "dest = clean_dir ds" using Clean_abs[of dest] ds by (simp add: ds_def clean_dir_def)
  from assms(1) have w: "walk arch limits (extract_visit os (clean_dir ds) (nat strip)) [OsMkdirAll dest] = Some (None, calls)"
    by (auto simp: ExtractTree_def panics_iff dest[symmetric] split: if_splits option.splits)
  have start: "extract_running (if list_all normal_comp ds then ds else []) b [OsMkdirAll dest]" if "b_written b = 0" for b
    using that ds by (simp add: extract_running_def dest clean_dir_def)
  from tree_handler.walk_handles[OF w assms(2,3) start] show ?thesis
    unfolding dest[symmetric] extracted_def by (fastforce split: sum.splits option.splits)
qed

subsection \<open>Installing one binary\<close>

definition installed_from :: "string \<Rightarrow> body \<Rightarrow> os_call list" where
  "installed_from dest src = [OsOpenFile (dest @ ''.partial'') 755, OsWrite (dest @ ''.partial'') (body_bytes src),
     OsClose (dest @ ''.partial''), OsRename (dest @ ''.partial'') dest]"

definition install_calls :: "string \<Rightarrow> entry \<Rightarrow> archive_error option \<Rightarrow> os_call list \<Rightarrow> bool" where
  "install_calls dest e err calls \<longleftrightarrow>
     (err = None \<longrightarrow> (\<exists>src. e_open e = Inr src \<and> body_err src = None \<and> calls = installed_from dest src)) \<and>
     (OsRename (dest @ ''.partial'') dest \<in> set calls \<longrightarrow> (\<exists>src. e_open e = Inr src \<and> body_err src = None \<and>
        OsWrite (dest @ ''.partial'') (body_bytes src) \<in> set calls)) \<and>
     (\<forall>c \<in> set calls. c = OsRename (dest @ ''.partial'') dest \<or> c = OsRemove (dest @ ''.partial'') \<or>
        file_calls (dest @ ''.partial'') [c])"

lemma writeAtomic_ok:
  assumes "balanced b"
  shows "\<exists>err b' calls. writeAtomic os dest e b [] = Some (err, b', calls) \<and> balanced b' \<and> install_calls dest e err calls"
proof -
  let ?tmp = "dest @ ''.partial''"
  show ?thesis
  proof (rule writeEntry_ok[OF assms, of os ?tmp 755 e "[]"])
    fix err b' calls
    assume w: "writeEntry os ?tmp 755 e b [] = Some (err, b', [] @ calls)" and b': "balanced b'" and f: "file_calls ?tmp calls"
    have files: "\<forall>c \<in> set calls. file_calls ?tmp [c]" "OsRename ?tmp dest \<notin> set calls"
      using f by (auto simp: file_calls_def)
    show ?thesis
    proof (cases err)
      case (Some x)
      with w have "writeAtomic os dest e b [] = Some (errors_Join [err, removeIfExists os ?tmp], b', calls @ [OsRemove ?tmp])"
        by (simp add: writeAtomic_def Let_def)
      with b' files Some show ?thesis by (auto simp: install_calls_def)
    next
      case None
      from writeEntry_success[OF assms w[unfolded None]] obtain src where src: "e_open e = Inr src" "body_err src = None"
        "calls = [OsOpenFile ?tmp 755, OsWrite ?tmp (body_bytes src), OsClose ?tmp]" by auto
      show ?thesis
      proof (cases "os (OsRename ?tmp dest)")
        case (Some x)
        with w None have "writeAtomic os dest e b [] = Some (errors_Join [Some (SystemError x), removeIfExists os ?tmp], b',
            (calls @ [OsRename ?tmp dest]) @ [OsRemove ?tmp])" by (simp add: writeAtomic_def Let_def)
        with b' files src show ?thesis by (auto simp: install_calls_def)
      next
        case None
        with w \<open>err = None\<close> have "writeAtomic os dest e b [] = Some (None, b', calls @ [OsRename ?tmp dest])"
          by (simp add: writeAtomic_def Let_def)
        with b' files src show ?thesis by (auto simp: install_calls_def installed_from_def)
      qed
    qed
  qed
qed

definition first_install :: "os_oracle \<Rightarrow> string \<Rightarrow> string \<Rightarrow> entry list \<Rightarrow> archive_error option \<Rightarrow> bool \<times> os_call list \<Rightarrow> bool" where
  "first_install os name dest es err s \<longleftrightarrow> (if fst s
     then (\<exists>e. find (binary_matches name) es = Some e \<and> install_calls dest e err (snd s))
     else snd s = [] \<and> (err = None \<longrightarrow> find (binary_matches name) es = None))"

lemma binary_visit_skip: "\<not> binary_matches name e \<Longrightarrow> binary_visit os name dest e b s = Some (False, None, b, s)"
  by (simp add: binary_visit_def)

lemma binary_visit_hit: "binary_matches name e \<Longrightarrow>
    binary_visit os name dest e b s = writeAtomic os dest e b (snd s) \<bind> (\<lambda>(err, b, st). Some (True, err, b, (True, st)))"
  by (simp add: binary_visit_def)

lemma walkZip_loop_step:
  "zf_Mode f \<noteq> ModeOther \<Longrightarrow> \<not> zf_UncompressedSize64 f > 2 ^ 63 - 1 \<Longrightarrow> admit b (zf_UncompressedSize64 f) = None \<Longrightarrow>
     walkZip_loop visit (f # fs) b st = visit (zip_entry f) b st \<bind>
       (\<lambda>(stop, err, b, st). if err \<noteq> None \<or> stop then Some (err, b, st) else walkZip_loop visit fs b st)"
  by (simp add: zip_entry_def)

lemma walkTar_first:
  "balanced b \<Longrightarrow> \<exists>err b' s. walkTar (binary_visit os name dest) m nexts n b (False, []) = Some (err, b', s) \<and>
     balanced b' \<and> first_install os name dest (tar_entries nexts) err s"
proof (induction nexts arbitrary: n b)
  case (Cons x nexts)
  show ?case
  proof (cases x)
    case (NextFails err)
    with Cons.prems show ?thesis by (simp add: first_install_def)
  next
    case (Header nm sz flag src)
    let ?e = "\<lparr>e_name = nm, e_kind = (if flag = TypeReg then kindFile else kindDir), e_size = sz, e_open = Inr src\<rparr>"
    let ?b = "b\<lparr>b_charged := False\<rparr>"
    have b: "balanced ?b" using Cons.prems by (simp add: balanced_def)
    consider (limit) "\<not> n < m \<or> (flag \<noteq> TypeXGlobalHeader \<and> (flag = TypeOther \<or> admit b sz \<noteq> None))"
      | (global) "n < m" "flag = TypeXGlobalHeader"
      | (skipped) "n < m" "flag = TypeReg \<or> flag = TypeDir" "admit b sz = None" "\<not> binary_matches name ?e"
      | (found) "n < m" "flag = TypeReg \<or> flag = TypeDir" "admit b sz = None" "binary_matches name ?e"
      by (cases flag) blast+
    then show ?thesis
    proof cases
      case limit
      with Header Cons.prems show ?thesis by (auto simp: first_install_def split: option.splits)
    next
      case global
      with Header Cons.IH[OF Cons.prems, of "n + 1"] show ?thesis by simp
    next
      case skipped
      have "admit ?b sz = None" using skipped(3) by (simp add: admit_def split: if_splits)
      from skip_ok[OF b this] obtain b2 where b2: "skip ?b sz = Some (b2, None)" "balanced b2" by blast
      have "walkTar (binary_visit os name dest) m (x # nexts) n b (False, []) =
          walkTar (binary_visit os name dest) m nexts (n + 1) b2 (False, [])"
        using skipped Header b2(1) by (auto simp: binary_visit_skip)
      moreover have "find (binary_matches name) (tar_entries (x # nexts)) = find (binary_matches name) (tar_entries nexts)"
        using skipped(2,4) Header by auto
      ultimately show ?thesis using Cons.IH[OF b2(2), of "n + 1"] by (simp only: first_install_def)
    next
      case found
      from writeAtomic_ok[OF b, of os dest ?e] obtain err b' calls where
        "writeAtomic os dest ?e ?b [] = Some (err, b', calls)" "balanced b'" "install_calls dest ?e err calls" by blast
      moreover have "find (binary_matches name) (tar_entries (x # nexts)) = Some ?e"
        using found(2,4) Header by auto
      moreover have "walkTar (binary_visit os name dest) m (x # nexts) n b (False, []) = Some (err, b', (True, calls))"
        using found Header calculation(1) by (auto simp: binary_visit_hit)
      ultimately show ?thesis by (auto simp: first_install_def)
    qed
  qed
qed (simp add: first_install_def)

lemma walkZip_first:
  "balanced b \<Longrightarrow> \<exists>err b' s. walkZip_loop (binary_visit os name dest) fs b (False, []) = Some (err, b', s) \<and>
     balanced b' \<and> first_install os name dest (map zip_entry fs) err s"
proof (induction fs arbitrary: b)
  case (Cons f fs)
  let ?e = "zip_entry f"
  consider (limit) "zf_Mode f = ModeOther \<or> zf_UncompressedSize64 f > 2 ^ 63 - 1 \<or> admit b (zf_UncompressedSize64 f) \<noteq> None"
    | (skipped) "zf_Mode f \<noteq> ModeOther" "\<not> zf_UncompressedSize64 f > 2 ^ 63 - 1" "admit b (zf_UncompressedSize64 f) = None"
        "\<not> binary_matches name ?e"
    | (found) "zf_Mode f \<noteq> ModeOther" "\<not> zf_UncompressedSize64 f > 2 ^ 63 - 1" "admit b (zf_UncompressedSize64 f) = None"
        "binary_matches name ?e" by blast
  then show ?case
  proof cases
    case limit
    with Cons.prems show ?thesis by (auto simp: first_install_def split: option.splits)
  next
    case skipped
    then have "walkZip_loop (binary_visit os name dest) (f # fs) b (False, []) =
        walkZip_loop (binary_visit os name dest) fs b (False, [])"
      by (simp add: walkZip_loop_step[OF skipped(1-3)] binary_visit_skip[OF skipped(4)] del: walkZip_loop.simps)
    moreover have "find (binary_matches name) (map zip_entry (f # fs)) = find (binary_matches name) (map zip_entry fs)"
      using skipped(4) by simp
    ultimately show ?thesis using Cons.IH[OF Cons.prems] by (simp only: first_install_def)
  next
    case found
    from writeAtomic_ok[OF Cons.prems, of os dest ?e] obtain err b' calls where
      "writeAtomic os dest ?e b [] = Some (err, b', calls)" "balanced b'" "install_calls dest ?e err calls" by blast
    moreover from this(1) have "walkZip_loop (binary_visit os name dest) (f # fs) b (False, []) = Some (err, b', (True, calls))"
      by (simp add: walkZip_loop_step[OF found(1-3)] binary_visit_hit[OF found(4)] del: walkZip_loop.simps)
    moreover have "find (binary_matches name) (map zip_entry (f # fs)) = Some ?e" using found(4) by simp
    ultimately show ?thesis by (auto simp: first_install_def)
  qed
qed (simp add: first_install_def)

lemma walk_first:
  assumes "lim_BytesMax limits < 2 ^ 63 - 1" "lim_EntryBytesMax limits < 2 ^ 63 - 1"
  obtains err s walk_err where "walk arch limits (binary_visit os name dest) (False, []) = Some (err, s)"
    "first_install os name dest (archive_entries arch) walk_err s" "err = None \<Longrightarrow> walk_err = None"
proof (cases "limits_validate limits")
  case (Some e)
  then show ?thesis by (intro that[of "Some e" "(False, [])" "Some e"]) (simp_all add: walk_def first_install_def)
next
  case None
  let ?b = "newBudget limits"
  have b: "balanced ?b" using None assms
    by (simp add: balanced_def newBudget_def limits_validate_def split: if_splits)
  note result = that
  have failed: thesis if "walk arch limits (binary_visit os name dest) (False, []) = Some (Some e, (False, []))" for e
    by (rule result[OF that, of "Some e"]) (simp_all add: first_install_def)
  show ?thesis
  proof (cases arch)
    case (TarGz x)
    show ?thesis
    proof (cases x)
      case (Inr y)
      obtain nexts closing where y: "y = (nexts, closing)" by (cases y)
      from walkTar_first[OF b, of os name dest "lim_EntryCountMax limits" nexts 0] obtain err b' s where
        "walkTar (binary_visit os name dest) (lim_EntryCountMax limits) nexts 0 ?b (False, []) = Some (err, b', s)"
        "balanced b'" "first_install os name dest (tar_entries nexts) err s" by blast
      with TarGz Inr y None show ?thesis
        by (intro that[of "errors_Join (err # close_errors closing)" s err])
          (auto simp: walk_def assertBalanced_ok archive_entries_def)
    qed (use TarGz None b failed in \<open>simp add: walk_def assertBalanced_ok\<close>)
  next
    case (ZipArchive x)
    show ?thesis
    proof (cases x)
      case (Inr y)
      obtain files closing where y: "y = (files, closing)" by (cases y)
      show ?thesis
      proof (cases "int (length files) > lim_EntryCountMax limits")
        case True
        with ZipArchive Inr y None b show ?thesis
          by (intro that[of "errors_Join (Some (TooManyEntries (lim_EntryCountMax limits)) # close_errors closing)" "(False, [])"
                "Some (TooManyEntries (lim_EntryCountMax limits))"])
            (auto simp: walk_def walkZipFiles_def assertBalanced_ok first_install_def Let_def)
      next
        case False
        from walkZip_first[OF b, of os name dest files] obtain err b' s where
          "walkZip_loop (binary_visit os name dest) files ?b (False, []) = Some (err, b', s)"
          "balanced b'" "first_install os name dest (map zip_entry files) err s" by blast
        with ZipArchive Inr y None False show ?thesis
          by (intro that[of "errors_Join (err # close_errors closing)" s err])
            (auto simp: walk_def walkZipFiles_def assertBalanced_ok archive_entries_def Let_def)
      qed
    qed (use ZipArchive None b failed in \<open>simp add: walk_def assertBalanced_ok\<close>)
  qed (use None failed in \<open>simp add: walk_def\<close>)
qed

text \<open>
  C17. Installing one binary is all or nothing. \<open>ExtractFile\<close> to an absolute clean path does not
  panic; on success the calls are exactly the writing of the whole first regular entry whose base
  name is the requested one (or that with .exe) to a temporary sibling, and its renaming to the
  destination; in every case nothing but the sibling is written or removed, and the rename to the
  destination is attempted only after a matching entry was read to its end without an error.
\<close>

theorem ExtractFile_all_or_nothing:
  assumes "filepath_IsAbs dest" "filepath_Clean dest = dest"
    and "lim_BytesMax limits < 2 ^ 63 - 1" "lim_EntryBytesMax limits < 2 ^ 63 - 1"
  shows "\<exists>err calls. ExtractFile os arch name dest limits = Some (err, calls) \<and>
     (err = None \<longrightarrow> (\<exists>e src. find (binary_matches name) (archive_entries arch) = Some e \<and> e_open e = Inr src \<and>
        body_err src = None \<and> calls = installed_from dest src)) \<and>
     (\<forall>c \<in> set calls. c = OsRename (dest @ ''.partial'') dest \<or> c = OsRemove (dest @ ''.partial'') \<or>
        file_calls (dest @ ''.partial'') [c]) \<and>
     (OsRename (dest @ ''.partial'') dest \<in> set calls \<longrightarrow> (\<exists>e src. find (binary_matches name) (archive_entries arch) = Some e \<and>
        e_open e = Inr src \<and> body_err src = None \<and> OsWrite (dest @ ''.partial'') (body_bytes src) \<in> set calls))"
proof (cases "name = [] \<or> CHR ''/'' \<in> set name \<or> CHR 0x5C \<in> set name")
  case True
  with assms(1,2) show ?thesis by (simp add: ExtractFile_def assertDestination_def)
next
  case False
  from walk_first[OF assms(3,4), of arch os name dest] obtain err found calls walk_err where
    w: "walk arch limits (binary_visit os name dest) (False, []) = Some (err, (found, calls))"
    and f: "first_install os name dest (archive_entries arch) walk_err (found, calls)" and e: "err = None \<Longrightarrow> walk_err = None"
    by (metis surj_pair)
  have x: "ExtractFile os arch name dest limits =
      Some (if err = None \<and> \<not> found then Some (BinaryNotFound name) else err, calls)"
    using False w assms(1,2) by (auto simp: ExtractFile_def assertDestination_def)
  show ?thesis
  proof (cases found)
    case True
    with f obtain en where "find (binary_matches name) (archive_entries arch) = Some en" "install_calls dest en walk_err calls"
      by (auto simp: first_install_def)
    with x True e show ?thesis unfolding install_calls_def by auto
  next
    case False
    with f x show ?thesis by (auto simp: first_install_def)
  qed
qed

text \<open>
  The bound on the limits is needed: where both limits are the largest \<open>int64\<close>, which \<open>validate\<close>
  accepts, \<open>limit+1\<close> wraps to a negative count, nothing is copied and the copy succeeds.
\<close>

lemma copy_at_int64_limit:
  assumes "b_entryMax b = 2 ^ 63 - 1" "b_remaining b = 2 ^ 63 - 1" "os (OsWrite dst []) = None"
  shows "copied b src = [] \<and> budget_copy os b dst src = Some (b\<lparr>b_charged := True\<rparr>, None)"
proof -
  have r: "copy_room b = - (2 ^ 63)" using assms(1,2) by (simp add: copy_room_def wrap_int64_def)
  then have "copied b src = []" by (simp add: copied_def)
  with r assms show ?thesis by (simp add: budget_copy_def copy_err_def)
qed

subsection \<open>Witnesses\<close>

definition demo_body :: body where
  "demo_body = \<lparr>body_bytes = ''hi'', body_err = None, body_close = None\<rparr>"

definition demo_limits :: Limits where
  "demo_limits = \<lparr>lim_BytesMax = 10, lim_EntryCountMax = 5, lim_EntryBytesMax = 4\<rparr>"

definition demo_tar :: archive_file where
  "demo_tar = TarGz (Inr ([Header ''g'' 0 TypeXGlobalHeader demo_body, Header ''bin/tool'' 2 TypeReg demo_body], [None]))"

lemma demo_dest: "filepath_IsAbs ''/opt'' \<and> filepath_Clean ''/opt'' = ''/opt''"
  by (simp add: filepath_IsAbs_def filepath_Clean_def Let_def)

lemma demo_limits_small: "lim_BytesMax demo_limits < 2 ^ 63 - 1" "lim_EntryBytesMax demo_limits < 2 ^ 63 - 1"
  by (simp_all add: demo_limits_def)

theorem ExtractTree_confined_witness:
  "\<exists>err calls. ExtractTree (\<lambda>_. None) demo_tar ''/opt'' 1 demo_limits = Some (err, calls) \<and>
     list_all (call_within (abs_comps ''/opt'')) calls \<and> bytes_written calls \<le> 11"
  using ExtractTree_confined[of "''/opt''" demo_limits "\<lambda>_. None" demo_tar 1] demo_dest demo_limits_small
  by (simp add: demo_limits_def)

lemma demo_extraction: "ExtractTree (\<lambda>_. None) demo_tar ''/opt'' 1 demo_limits =
    Some (None, [OsMkdirAll ''/opt'', OsMkdirAll ''/opt'', OsOpenFile ''/opt/tool'' 644, OsWrite ''/opt/tool'' ''hi'', OsClose ''/opt/tool''])"
  by code_simp

theorem ExtractTree_complete_witness:
  "\<exists>t. confine ''/opt'' ''bin/tool'' (nat 1) = Inr t \<and> archive_supported demo_tar"
  using ExtractTree_complete[OF demo_extraction demo_limits_small]
  by (auto simp: demo_tar_def archive_entries_def)

theorem ExtractFile_all_or_nothing_witness:
  "\<exists>err calls. ExtractFile (\<lambda>_. None) demo_tar ''tool'' ''/opt'' demo_limits = Some (err, calls) \<and>
     (\<forall>c \<in> set calls. c = OsRename ''/opt.partial'' ''/opt'' \<or> c = OsRemove ''/opt.partial'' \<or> file_calls ''/opt.partial'' [c])"
  using ExtractFile_all_or_nothing[of "''/opt''" demo_limits "\<lambda>_. None" demo_tar "''tool''"] demo_dest demo_limits_small
  by (auto simp: demo_limits_def)


end
