(* ===== verification/Sql_Guard.thy ===== *)
theory Sql_Guard imports Filepath begin

text \<open>
  internal/data/session.go: the lexical guard in front of read-only SQL, the row cap of its results,
  the resolution of a local target, the sandbox statements and the search for the graph extension.
  \<open>sqlTokens\<close> advances an index; here the rest of the statement is the argument, and the tokens, the
  current word and the semicolon count are accumulators. \<open>unicode.IsLetter\<close> is applied to a byte, so
  it asks whether a Latin-1 character is a letter.
\<close>

definition latin1_letter :: "char \<Rightarrow> bool" where
  "latin1_letter c \<longleftrightarrow> (let n = (of_char c :: nat) in
     (65 \<le> n \<and> n \<le> 90) \<or> (97 \<le> n \<and> n \<le> 122) \<or> n = 170 \<or> n = 181 \<or> n = 186 \<or> (192 \<le> n \<and> n \<noteq> 215 \<and> n \<noteq> 247))"

definition word_char :: "char \<Rightarrow> bool" where
  "word_char c \<longleftrightarrow> latin1_letter c \<or> c = CHR ''_''"

definition sql_quote :: "char \<Rightarrow> bool" where
  "sql_quote c \<longleftrightarrow> c = CHR 0x27 \<or> c = CHR 0x22"

abbreviation newline :: char where
  "newline \<equiv> CHR 0x0A"

datatype sql_error =
    UnterminatedQuote
  | UnterminatedComment
  | EmptyQuery
  | NotOneStatement
  | NotReadOnly string
  | ForbiddenOperation string

text \<open>The loop over a quoted part: what is left after its closing quote, if it is closed.\<close>

fun skip_quoted :: "char \<Rightarrow> string \<Rightarrow> string option" where
  "skip_quoted q [] = None"
| "skip_quoted q [c] = (if c = q then Some [] else None)"
| "skip_quoted q (c # d # cs) =
     (if c = q then (if d = q then skip_quoted q cs else Some (d # cs)) else skip_quoted q (d # cs))"

text \<open>What is left after the first \<open>*/\<close>.\<close>

fun skip_block :: "string \<Rightarrow> string option" where
  "skip_block (c # d # cs) = (if c = CHR ''*'' \<and> d = CHR ''/'' then Some cs else skip_block (d # cs))"
| "skip_block _ = None"

definition flush :: "string list \<Rightarrow> string \<Rightarrow> string list" where
  "flush tokens current = (if current = [] then tokens else tokens @ [strings_ToLower current])"

lemma skip_quoted_length: "skip_quoted q s = Some r \<Longrightarrow> length r < length s"
  by (induction q s rule: skip_quoted.induct) (auto split: if_splits)

lemma skip_block_length: "skip_block s = Some r \<Longrightarrow> length r < length s"
  by (induction s rule: skip_block.induct) (auto split: if_splits)

lemma flush_simps [simp]: "flush tokens [] = tokens" "current \<noteq> [] \<Longrightarrow> flush tokens current = tokens @ [strings_ToLower current]"
  by (simp_all add: flush_def)

function sql_loop :: "string \<Rightarrow> string list \<Rightarrow> string \<Rightarrow> nat \<Rightarrow> sql_error + string list \<times> nat" where
  "sql_loop [] tokens current semicolons = Inr (flush tokens current, semicolons)"
| "sql_loop (c # cs) tokens current semicolons =
     (if sql_quote c then (case skip_quoted c cs of
          None \<Rightarrow> Inl UnterminatedQuote
        | Some rest \<Rightarrow> sql_loop rest (flush tokens current) [] semicolons)
      else if c = CHR ''-'' \<and> strings_HasPrefix cs ''-'' then
        sql_loop (dropWhile (\<lambda>d. d \<noteq> newline) (tl cs)) (flush tokens current) [] semicolons
      else if c = CHR ''/'' \<and> strings_HasPrefix cs ''*'' then (case skip_block (tl cs) of
          None \<Rightarrow> Inl UnterminatedComment
        | Some rest \<Rightarrow> sql_loop rest (flush tokens current) [] semicolons)
      else if c = CHR '';'' then sql_loop cs (flush tokens current) [] (semicolons + 1)
      else if word_char c then sql_loop cs tokens (current @ [c]) semicolons
      else sql_loop cs (flush tokens current) [] semicolons)"
  by pat_completeness auto
termination
proof (relation "measure (\<lambda>(s, _). length s)")
  fix c :: char and cs tokens current semicolons rest
  show "skip_quoted c cs = Some rest \<Longrightarrow> ((rest, flush tokens current, [], semicolons), c # cs, tokens, current, semicolons)
      \<in> measure (\<lambda>(s, _). length s)"
    using skip_quoted_length by fastforce
  have "length (tl cs) \<le> length cs" by simp
  then show "((dropWhile (\<lambda>d. d \<noteq> newline) (tl cs), flush tokens current, [], semicolons), c # cs, tokens, current, semicolons)
      \<in> measure (\<lambda>(s, _). length s)"
    using length_dropWhile_le[of "\<lambda>d. d \<noteq> newline" "tl cs"] by simp
  show "skip_block (tl cs) = Some rest \<Longrightarrow> ((rest, flush tokens current, [], semicolons), c # cs, tokens, current, semicolons)
      \<in> measure (\<lambda>(s, _). length s)"
    using skip_block_length[of "tl cs" rest] \<open>length (tl cs) \<le> length cs\<close> by simp
qed auto

definition sqlTokens :: "string \<Rightarrow> sql_error + string list \<times> nat" where
  "sqlTokens statement = sql_loop statement [] [] 0"

definition hasOnlyTrailingSemicolon :: "string \<Rightarrow> bool" where
  "hasOnlyTrailingSemicolon statement \<longleftrightarrow> (let trimmed = strings_TrimSpace statement in
     strings_HasSuffix trimmed '';'' \<and> \<not> strings_Contains (strings_TrimSuffix trimmed '';'') '';'')"

definition allowed_leading :: "string list" where
  "allowed_leading = [''select'', ''with'', ''explain'', ''describe'', ''show'', ''summarize'', ''from'']"

definition forbidden_words :: "string list" where
  "forbidden_words = [''insert'', ''update'', ''delete'', ''merge'', ''create'', ''drop'', ''alter'', ''truncate'',
     ''copy'', ''attach'', ''detach'', ''install'', ''load'', ''call'', ''set'', ''use'', ''vacuum'']"

definition ValidateReadOnlyStatement :: "string \<Rightarrow> sql_error option" where
  "ValidateReadOnlyStatement statement = (case sqlTokens statement of
     Inl err \<Rightarrow> Some err
   | Inr (tokens, semicolons) \<Rightarrow>
       if tokens = [] then Some EmptyQuery
       else if semicolons > 1 \<or> (semicolons = 1 \<and> \<not> hasOnlyTrailingSemicolon statement) then Some NotOneStatement
       else if hd tokens \<notin> set allowed_leading then Some (NotReadOnly (hd tokens))
       else (case find (\<lambda>token. token \<in> set forbidden_words) tokens of
           Some token \<Rightarrow> Some (ForbiddenOperation token)
         | None \<Rightarrow> None))"

subsection \<open>Running a read-only query\<close>

text \<open>A value a driver scans: only byte slices are told apart.\<close>

datatype 'v sql_value = SqlBytes string | SqlString string | SqlOther 'v

definition scanned_value :: "'v sql_value \<Rightarrow> 'v sql_value" where
  "scanned_value v = (case v of SqlBytes b \<Rightarrow> SqlString b | _ \<Rightarrow> v)"

datatype read_error = RowLimitExceeded int | ScanFailed string | RowsFailed string

text \<open>
  The rows a cursor gives, each scanning to values or failing, and the error \<open>rows.Err\<close> reports once
  the cursor ends.
\<close>

fun scan_rows_loop :: "int \<Rightarrow> (string + 'v sql_value list) list \<Rightarrow> string option \<Rightarrow> 'v sql_value list list \<Rightarrow>
    read_error + 'v sql_value list list" where
  "scan_rows_loop maxRows [] rowsErr out = (case rowsErr of Some e \<Rightarrow> Inl (RowsFailed e) | None \<Rightarrow> Inr out)"
| "scan_rows_loop maxRows (r # rs) rowsErr out =
     (if int (length out) \<ge> maxRows then Inl (RowLimitExceeded maxRows)
      else (case r of
          Inl e \<Rightarrow> Inl (ScanFailed e)
        | Inr values \<Rightarrow> scan_rows_loop maxRows rs rowsErr (out @ [map scanned_value values])))"

definition scanResultRows :: "(string + 'v sql_value list) list \<Rightarrow> string option \<Rightarrow> int \<Rightarrow> read_error + 'v sql_value list list" where
  "scanResultRows rows rowsErr maxRows = scan_rows_loop maxRows rows rowsErr []"

definition MaxReadOnlyRows :: int where
  "MaxReadOnlyRows = 1000000"

datatype sandbox_statement = DisableExternalAccess | LockConfiguration

definition sandboxStatements :: "sandbox_statement list" where
  "sandboxStatements = [DisableExternalAccess, LockConfiguration]"

text \<open>The statements \<open>Sandbox\<close> has run and the error it returns; \<open>fails\<close> says which fail.\<close>

fun sandbox_loop :: "(sandbox_statement \<Rightarrow> string option) \<Rightarrow> sandbox_statement list \<Rightarrow> sandbox_statement list \<Rightarrow>
    string option \<times> sandbox_statement list" where
  "sandbox_loop fails [] executed = (None, executed)"
| "sandbox_loop fails (s # ss) executed =
     (case fails s of Some e \<Rightarrow> (Some e, executed) | None \<Rightarrow> sandbox_loop fails ss (executed @ [s]))"

definition resolveLocalTarget :: "string + string \<Rightarrow> string \<Rightarrow> string + string" where
  "resolveLocalTarget userHomeDir target =
     (if target = ''~'' \<or> strings_HasPrefix target ''~/'' then (case userHomeDir of
          Inl err \<Rightarrow> Inl (''resolve home directory: '' @ err)
        | Inr home \<Rightarrow> if target = ''~'' then Inr home
            else Inr (filepath_Join [home, strings_TrimPrefix target ''~/'']))
      else if strings_HasPrefix target ''~'' then Inl (''unsupported home-directory syntax '' @ target)
      else Inr target)"

text \<open>
  The search for the graph extension. The environment is a parameter: the working directory, the
  variable, the home directory, and what \<open>os.Stat\<close> says of a path (an error, or whether it is a
  regular file).
\<close>

definition filepath_Abs :: "string \<Rightarrow> string \<Rightarrow> string" where
  "filepath_Abs cwd p = (if filepath_IsAbs p then filepath_Clean p else filepath_Join [cwd, p])"

definition requireRegularFile :: "(string \<Rightarrow> string + bool) \<Rightarrow> string \<Rightarrow> string + string" where
  "requireRegularFile stat path = (case stat path of
     Inl err \<Rightarrow> Inl (''graph extension not found at '' @ path @ '': '' @ err)
   | Inr regular \<Rightarrow> if regular then Inr path else Inl (''graph extension at '' @ path @ '' is not a regular file''))"

definition graphExtensionFile :: string where
  "graphExtensionFile = ''corkscrew_graph.duckdb_extension''"

definition installedGraphExtensionPath :: "string + string \<Rightarrow> string + string" where
  "installedGraphExtensionPath userHomeDir = (case userHomeDir of
     Inl err \<Rightarrow> Inl (''resolve home directory for graph extension: '' @ err)
   | Inr home \<Rightarrow> if \<not> filepath_IsAbs home then Inl (''home directory '' @ home @ '' is not absolute'')
       else Inr (filepath_Join [home, ''.corkscrew'', ''extensions'', graphExtensionFile]))"

definition ResolveGraphExtension :: "string \<Rightarrow> string \<Rightarrow> string + string \<Rightarrow> (string \<Rightarrow> string + bool) \<Rightarrow> string \<Rightarrow> string + string" where
  "ResolveGraphExtension cwd env userHomeDir stat explicitPath =
     (if strings_TrimSpace explicitPath \<noteq> [] then requireRegularFile stat (filepath_Abs cwd (strings_TrimSpace explicitPath))
      else if strings_TrimSpace env \<noteq> [] then
        (if \<not> filepath_IsAbs (strings_TrimSpace env) then Inl (''CORKSCREW_GRAPH_EXTENSION must be an absolute path, got '' @ env)
         else requireRegularFile stat (filepath_Clean (strings_TrimSpace env)))
      else (case installedGraphExtensionPath userHomeDir of
          Inl err \<Rightarrow> Inl err
        | Inr installed \<Rightarrow> (case requireRegularFile stat installed of
            Inl err \<Rightarrow> Inl (''could not find '' @ graphExtensionFile @ '' at '' @ installed)
          | Inr _ \<Rightarrow> Inr installed)))"

subsection \<open>What the tokens are\<close>

text \<open>
  A reading cuts a statement into lexemes from left to right: quoted parts (a doubled quote inside
  stands for itself), comments, semicolons, maximal words, and single other characters.
\<close>

datatype lexeme = Masked string | Semicolon | Word string | Other char

inductive quoted_body :: "char \<Rightarrow> string \<Rightarrow> bool" for q where
  qb_end: "quoted_body q []"
| qb_char: "c \<noteq> q \<Longrightarrow> quoted_body q b \<Longrightarrow> quoted_body q (c # b)"
| qb_twice: "quoted_body q b \<Longrightarrow> quoted_body q (q # q # b)"

definition starts_with :: "(char \<Rightarrow> bool) \<Rightarrow> string \<Rightarrow> bool" where
  "starts_with P s \<longleftrightarrow> s \<noteq> [] \<and> P (hd s)"

inductive reads :: "string \<Rightarrow> lexeme list \<Rightarrow> bool" where
  r_end: "reads [] []"
| r_quoted: "sql_quote q \<Longrightarrow> quoted_body q b \<Longrightarrow> \<not> starts_with (\<lambda>c. c = q) s \<Longrightarrow> reads s ls \<Longrightarrow>
     reads (q # b @ q # s) (Masked (q # b @ [q]) # ls)"
| r_line: "newline \<notin> set b \<Longrightarrow> s = [] \<or> starts_with (\<lambda>c. c = newline) s \<Longrightarrow> reads s ls \<Longrightarrow>
     reads (''--'' @ b @ s) (Masked (''--'' @ b) # ls)"
| r_block: "skip_block (b @ ''*/'') = Some [] \<Longrightarrow> reads s ls \<Longrightarrow>
     reads (''/*'' @ b @ ''*/'' @ s) (Masked (''/*'' @ b @ ''*/'') # ls)"
| r_semicolon: "reads s ls \<Longrightarrow> reads (CHR '';'' # s) (Semicolon # ls)"
| r_word: "w \<noteq> [] \<Longrightarrow> list_all word_char w \<Longrightarrow> \<not> starts_with word_char s \<Longrightarrow> reads s ls \<Longrightarrow>
     reads (w @ s) (Word w # ls)"
| r_other: "\<not> sql_quote c \<Longrightarrow> \<not> (c = CHR ''-'' \<and> strings_HasPrefix s ''-'') \<Longrightarrow>
     \<not> (c = CHR ''/'' \<and> strings_HasPrefix s ''*'') \<Longrightarrow> c \<noteq> CHR '';'' \<Longrightarrow> \<not> word_char c \<Longrightarrow> reads s ls \<Longrightarrow>
     reads (c # s) (Other c # ls)"

fun words_of :: "lexeme list \<Rightarrow> string list" where
  "words_of [] = []"
| "words_of (Word w # ls) = strings_ToLower w # words_of ls"
| "words_of (_ # ls) = words_of ls"

fun semicolons_of :: "lexeme list \<Rightarrow> nat" where
  "semicolons_of [] = 0"
| "semicolons_of (Semicolon # ls) = Suc (semicolons_of ls)"
| "semicolons_of (_ # ls) = semicolons_of ls"

fun lexeme_text :: "lexeme \<Rightarrow> string" where
  "lexeme_text (Masked s) = s"
| "lexeme_text Semicolon = '';''"
| "lexeme_text (Word w) = w"
| "lexeme_text (Other c) = [c]"

lemma reads_text: "reads s ls \<Longrightarrow> concat (map lexeme_text ls) = s"
  by (induction rule: reads.induct) auto

lemma word_char_no_quote: "word_char c \<Longrightarrow> \<not> sql_quote c \<and> c \<noteq> CHR ''-'' \<and> c \<noteq> CHR ''/'' \<and> c \<noteq> CHR '';''"
  by (auto simp: word_char_def latin1_letter_def sql_quote_def Let_def)

lemma skip_quoted_body: "skip_quoted q s = Some r \<Longrightarrow>
    \<exists>b. quoted_body q b \<and> s = b @ q # r \<and> \<not> starts_with (\<lambda>c. c = q) r"
proof (induction q s rule: skip_quoted.induct)
  case (2 q c)
  then show ?case by (intro exI[of _ "[]"]) (auto simp: starts_with_def intro: quoted_body.intros split: if_splits)
next
  case (3 q c d cs)
  consider (twice) "c = q" "d = q" | (ends) "c = q" "d \<noteq> q" | (other) "c \<noteq> q" by blast
  then show ?case
  proof cases
    case twice
    with 3 obtain b where "quoted_body q b" "cs = b @ q # r" "\<not> starts_with (\<lambda>c. c = q) r" by auto
    with twice show ?thesis by (intro exI[of _ "q # q # b"]) (auto intro: quoted_body.intros)
  next
    case ends
    with 3 show ?thesis by (intro exI[of _ "[]"]) (auto simp: starts_with_def intro: quoted_body.intros)
  next
    case other
    with 3 obtain b where "quoted_body q b" "d # cs = b @ q # r" "\<not> starts_with (\<lambda>c. c = q) r" by auto
    with other show ?thesis by (intro exI[of _ "c # b"]) (auto intro: quoted_body.intros)
  qed
qed simp

lemma skip_quoted_reads: "quoted_body q b \<Longrightarrow> \<not> starts_with (\<lambda>c. c = q) r \<Longrightarrow> skip_quoted q (b @ q # r) = Some r"
proof (induction rule: quoted_body.induct)
  case qb_end
  then show ?case by (cases r) (auto simp: starts_with_def)
next
  case (qb_char c b)
  then show ?case by (cases "b @ q # r") auto
qed simp

lemma skip_block_split: "skip_block s = Some r \<Longrightarrow> \<exists>b. s = b @ ''*/'' @ r \<and> skip_block (b @ ''*/'') = Some []"
proof (induction s rule: skip_block.induct)
  case (1 c d cs)
  show ?case
  proof (cases "c = CHR ''*'' \<and> d = CHR ''/''")
    case True
    with 1 show ?thesis by (intro exI[of _ "[]"]) simp
  next
    case False
    with 1 obtain b where b: "d # cs = b @ ''*/'' @ r" "skip_block (b @ ''*/'') = Some []" by auto
    with False show ?thesis by (intro exI[of _ "c # b"]) (cases b; auto)
  qed
qed simp_all

lemma skip_block_append: "skip_block s = Some r \<Longrightarrow> skip_block (s @ t) = Some (r @ t)"
  by (induction s rule: skip_block.induct) (auto split: if_splits)

lemma sql_loop_word: "list_all word_char w \<Longrightarrow> sql_loop (w @ s) tokens current n = sql_loop s tokens (current @ w) n"
  by (induction w arbitrary: current) (auto dest!: word_char_no_quote)

lemma sql_loop_flush:
  "\<not> starts_with word_char s \<Longrightarrow> sql_loop s tokens current n = sql_loop s (flush tokens current) [] n"
  by (cases s) (auto simp: starts_with_def split: option.split)

lemma reads_sql_loop: "reads s ls \<Longrightarrow> sql_loop s tokens [] n = Inr (tokens @ words_of ls, n + semicolons_of ls)"
proof (induction s ls arbitrary: tokens n rule: reads.induct)
  case (r_quoted q b s ls)
  then show ?case by (simp add: skip_quoted_reads)
next
  case (r_line b s ls)
  have "dropWhile (\<lambda>d. d \<noteq> newline) (b @ s) = s"
  proof -
    have "dropWhile (\<lambda>d. d \<noteq> newline) (b @ s) = dropWhile (\<lambda>d. d \<noteq> newline) s"
      using r_line(1) by (intro dropWhile_append2) auto
    also have "\<dots> = s" using r_line(2) by (cases s) (auto simp: starts_with_def)
    finally show ?thesis .
  qed
  with r_line show ?case by (simp add: sql_quote_def)
next
  case (r_block b s ls)
  have "skip_block ((b @ ''*/'') @ s) = Some ([] @ s)" using r_block(1) by (rule skip_block_append)
  with r_block show ?case by (simp add: sql_quote_def)
next
  case (r_semicolon s ls)
  then show ?case by (simp add: sql_quote_def)
next
  case (r_word w s ls)
  have "sql_loop (w @ s) tokens [] n = sql_loop s (tokens @ [strings_ToLower w]) [] n"
    using sql_loop_word[OF r_word(2), of s tokens "[]" n] sql_loop_flush[OF r_word(3), of tokens w n] r_word(1) by simp
  with r_word(5) show ?case by simp
next
  case (r_other c s ls)
  then show ?case by (auto split: option.split)
qed simp

lemma sql_loop_reads:
  "sql_loop s tokens [] n = Inr (tokens', n') \<Longrightarrow>
     \<exists>ls. reads s ls \<and> tokens' = tokens @ words_of ls \<and> n' = n + semicolons_of ls"
proof (induction "length s" arbitrary: s tokens n rule: less_induct)
  case less
  show ?case
  proof (cases s)
    case Nil
    with less.prems show ?thesis by (auto intro!: exI[of _ "[]"] reads.intros)
  next
    case (Cons c cs)
    consider (quoted) "sql_quote c"
      | (line) d where "c = CHR ''-''" "cs = CHR ''-'' # d"
      | (block) d where "c = CHR ''/''" "cs = CHR ''*'' # d"
      | (semi) "c = CHR '';''" | (word) "word_char c"
      | (other) "\<not> sql_quote c" "\<not> (c = CHR ''-'' \<and> strings_HasPrefix cs ''-'')"
        "\<not> (c = CHR ''/'' \<and> strings_HasPrefix cs ''*'')" "c \<noteq> CHR '';''" "\<not> word_char c"
      by (cases cs) auto
    then show ?thesis
    proof cases
      case quoted
      with less.prems Cons obtain r where r: "skip_quoted c cs = Some r" "sql_loop r tokens [] n = Inr (tokens', n')"
        by (auto split: option.splits)
      from skip_quoted_length[OF r(1)] less.hyps[of r, OF _ r(2)] Cons obtain ls where
        "reads r ls" "tokens' = tokens @ words_of ls" "n' = n + semicolons_of ls" by auto
      with skip_quoted_body[OF r(1)] quoted Cons show ?thesis by (force intro: r_quoted)
    next
      case (line d)
      define r where "r = dropWhile (\<lambda>e. e \<noteq> newline) d"
      have l: "sql_loop r tokens [] n = Inr (tokens', n')"
        using less.prems Cons line by (simp add: sql_quote_def r_def)
      have "length r < length s" using Cons line length_dropWhile_le[of "\<lambda>e. e \<noteq> newline" d] by (simp add: r_def)
      from less.hyps[OF this l] obtain ls where ls: "reads r ls" "tokens' = tokens @ words_of ls" "n' = n + semicolons_of ls" by blast
      have "reads (''--'' @ takeWhile (\<lambda>e. e \<noteq> newline) d @ r) (Masked (''--'' @ takeWhile (\<lambda>e. e \<noteq> newline) d) # ls)"
      proof (rule r_line[OF _ _ ls(1)])
        show "newline \<notin> set (takeWhile (\<lambda>e. e \<noteq> newline) d)" by (auto dest: set_takeWhileD)
        show "r = [] \<or> starts_with (\<lambda>c. c = newline) r"
          unfolding r_def starts_with_def using hd_dropWhile[of "\<lambda>e. e \<noteq> newline" d] by auto
      qed
      with ls Cons line show ?thesis by (auto simp: r_def)
    next
      case (block d)
      with less.prems Cons obtain r where r: "skip_block d = Some r" "sql_loop r tokens [] n = Inr (tokens', n')"
        by (auto simp: sql_quote_def split: option.splits)
      from skip_block_length[OF r(1)] less.hyps[of r, OF _ r(2)] Cons block obtain ls where
        "reads r ls" "tokens' = tokens @ words_of ls" "n' = n + semicolons_of ls" by auto
      moreover from skip_block_split[OF r(1)] obtain b where "d = b @ ''*/'' @ r" "skip_block (b @ ''*/'') = Some []" by blast
      ultimately show ?thesis using Cons block r_block[of b r ls] by auto
    next
      case semi
      with less.prems Cons have "sql_loop cs tokens [] (n + 1) = Inr (tokens', n')" by (simp add: sql_quote_def)
      from less.hyps[OF _ this] Cons obtain ls where "reads cs ls" "tokens' = tokens @ words_of ls" "n' = n + 1 + semicolons_of ls" by auto
      with semi Cons show ?thesis by (intro exI[of _ "Semicolon # ls"]) (simp add: r_semicolon)
    next
      case word
      define w where "w = takeWhile word_char s"
      define r where "r = dropWhile word_char s"
      have s: "s = w @ r" by (simp add: w_def r_def)
      have w: "w \<noteq> []" "list_all word_char w" using word Cons by (auto simp: w_def list_all_iff dest: set_takeWhileD)
      have nr: "\<not> starts_with word_char r" unfolding starts_with_def r_def using hd_dropWhile by blast
      have "sql_loop r (tokens @ [strings_ToLower w]) [] n = Inr (tokens', n')"
        using less.prems sql_loop_word[OF w(2), of r tokens "[]" n] sql_loop_flush[OF nr, of tokens w n] w(1) by (simp add: s)
      moreover have "length r < length s" using s w(1) by simp
      ultimately obtain ls where "reads r ls" "tokens' = tokens @ strings_ToLower w # words_of ls" "n' = n + semicolons_of ls"
        using less.hyps[of r] by fastforce
      with w nr s show ?thesis using r_word[of w r ls] by (intro exI[of _ "Word w # ls"]) simp
    next
      case other
      with less.prems Cons have "sql_loop cs tokens [] n = Inr (tokens', n')" by simp
      from less.hyps[OF _ this] Cons obtain ls where "reads cs ls" "tokens' = tokens @ words_of ls" "n' = n + semicolons_of ls" by auto
      with other Cons show ?thesis by (intro exI[of _ "Other c # ls"]) (simp add: r_other)
    qed
  qed
qed

text \<open>
  C18. The scanner computes the lexical reading of a statement: it succeeds exactly when the statement
  can be cut into closed quoted parts, closed comments, semicolons, maximal words and other
  characters, and then its tokens are the words in lower case and its count the number of semicolons,
  for that reading and for no other.
\<close>

theorem sqlTokens_reading:
  "sqlTokens s = Inr (tokens, n) \<longleftrightarrow>
     (\<exists>ls. reads s ls) \<and> (\<forall>ls. reads s ls \<longrightarrow> tokens = words_of ls \<and> n = semicolons_of ls)"
proof
  assume a: "sqlTokens s = Inr (tokens, n)"
  then obtain ls where "reads s ls" using sql_loop_reads[of s "[]" 0 tokens n] by (auto simp: sqlTokens_def)
  moreover have "tokens = words_of ls' \<and> n = semicolons_of ls'" if "reads s ls'" for ls'
    using reads_sql_loop[OF that, of "[]" 0] a by (simp add: sqlTokens_def)
  ultimately show "(\<exists>ls. reads s ls) \<and> (\<forall>ls. reads s ls \<longrightarrow> tokens = words_of ls \<and> n = semicolons_of ls)" by blast
next
  assume "(\<exists>ls. reads s ls) \<and> (\<forall>ls. reads s ls \<longrightarrow> tokens = words_of ls \<and> n = semicolons_of ls)"
  then obtain ls where "reads s ls" "tokens = words_of ls" "n = semicolons_of ls" by blast
  with reads_sql_loop[of s ls "[]" 0] show "sqlTokens s = Inr (tokens, n)" by (simp add: sqlTokens_def)
qed

lemma Contains_single: "strings_Contains s [c] \<longleftrightarrow> c \<in> set s"
  by (induction s) (auto simp: strings_Contains_def)

lemma TrimSpace_split: "\<exists>l w. s = l @ strings_TrimSpace s @ w \<and> (\<forall>c \<in> set l \<union> set w. ascii_space c)"
proof -
  let ?d = "dropWhile ascii_space s"
  have s: "s = takeWhile ascii_space s @ ?d" by simp
  have "rev ?d = takeWhile ascii_space (rev ?d) @ dropWhile ascii_space (rev ?d)" by simp
  then have "?d = strings_TrimSpace s @ rev (takeWhile ascii_space (rev ?d))"
    unfolding strings_TrimSpace_def by (metis rev_append rev_rev_ident)
  with s have "s = takeWhile ascii_space s @ strings_TrimSpace s @ rev (takeWhile ascii_space (rev ?d))" by metis
  moreover have "\<forall>c \<in> set (takeWhile ascii_space s) \<union> set (rev (takeWhile ascii_space (rev ?d))). ascii_space c"
    by (auto dest: set_takeWhileD)
  ultimately show ?thesis by blast
qed

lemma TrimSpace_ends:
  assumes "\<not> ascii_space e" "\<forall>c \<in> set w. ascii_space c"
  shows "strings_TrimSpace (pre @ e # w) = dropWhile ascii_space pre @ [e]"
proof -
  have d: "dropWhile ascii_space (pre @ e # w) = dropWhile ascii_space pre @ e # w"
    using assms(1) by (induction pre) auto
  have "dropWhile ascii_space (rev w @ e # rev (dropWhile ascii_space pre)) = e # rev (dropWhile ascii_space pre)"
    using assms by (subst dropWhile_append2) auto
  with d show ?thesis by (simp add: strings_TrimSpace_def)
qed

lemma semicolon_not_space: "\<not> ascii_space (CHR '';'')"
  by (simp add: ascii_space_def)

lemma hasOnlyTrailingSemicolon_iff:
  "hasOnlyTrailingSemicolon s \<longleftrightarrow> (\<exists>pre w. s = pre @ CHR '';'' # w \<and> CHR '';'' \<notin> set pre \<and> (\<forall>c \<in> set w. ascii_space c))"
proof
  assume h: "hasOnlyTrailingSemicolon s"
  then obtain u where u: "strings_TrimSpace s = u @ '';''" "CHR '';'' \<notin> set u"
    by (auto simp: hasOnlyTrailingSemicolon_def Let_def suffix_def strings_TrimSuffix_def Contains_single)
  from TrimSpace_split[of s] obtain l w where "s = l @ strings_TrimSpace s @ w" "\<forall>c \<in> set l \<union> set w. ascii_space c" by blast
  with u semicolon_not_space show "\<exists>pre w. s = pre @ CHR '';'' # w \<and> CHR '';'' \<notin> set pre \<and> (\<forall>c \<in> set w. ascii_space c)"
    by (intro exI[of _ "l @ u"] exI[of _ w]) auto
next
  assume "\<exists>pre w. s = pre @ CHR '';'' # w \<and> CHR '';'' \<notin> set pre \<and> (\<forall>c \<in> set w. ascii_space c)"
  then obtain pre w where s: "s = pre @ CHR '';'' # w" "CHR '';'' \<notin> set pre" "\<forall>c \<in> set w. ascii_space c" by blast
  from TrimSpace_ends[OF semicolon_not_space s(3), of pre] s(2) show "hasOnlyTrailingSemicolon s"
    by (auto simp: s(1) hasOnlyTrailingSemicolon_def Let_def suffix_def strings_TrimSuffix_def Contains_single dest: set_dropWhileD)
qed

text \<open>
  C19. What the guard accepts, in terms of the reading: a statement is accepted exactly when it has a
  reading whose first word is a read-oriented keyword, which has no forbidden word, and which has
  either no semicolon, or one that is the only one in the whole text and is followed by white space
  only.
\<close>

theorem ValidateReadOnlyStatement_accepts:
  "ValidateReadOnlyStatement s = None \<longleftrightarrow> (\<exists>ls. reads s ls \<and> words_of ls \<noteq> [] \<and> hd (words_of ls) \<in> set allowed_leading \<and>
     set (words_of ls) \<inter> set forbidden_words = {} \<and> (semicolons_of ls = 0 \<or> semicolons_of ls = 1 \<and>
       (\<exists>pre w. s = pre @ CHR '';'' # w \<and> CHR '';'' \<notin> set pre \<and> (\<forall>c \<in> set w. ascii_space c))))"
proof -
  have find: "find (\<lambda>token. token \<in> set forbidden_words) ts = None \<longleftrightarrow> set ts \<inter> set forbidden_words = {}" for ts
    by (auto simp: find_None_iff)
  have accept: "ValidateReadOnlyStatement s = None \<longleftrightarrow> (\<exists>tokens n. sqlTokens s = Inr (tokens, n) \<and> tokens \<noteq> [] \<and>
      hd tokens \<in> set allowed_leading \<and> set tokens \<inter> set forbidden_words = {} \<and>
      (n = 0 \<or> n = 1 \<and> hasOnlyTrailingSemicolon s))"
    by (auto simp: ValidateReadOnlyStatement_def find[symmetric] split: sum.splits if_splits option.splits)
  have tokens: "sqlTokens s = Inr (words_of ls, semicolons_of ls)" if "reads s ls" for ls
    using reads_sql_loop[OF that, of "[]" 0] by (simp add: sqlTokens_def)
  have reading: "\<exists>ls. reads s ls \<and> ts = words_of ls \<and> n = semicolons_of ls" if "sqlTokens s = Inr (ts, n)" for ts n
    using sql_loop_reads[of s "[]" 0 ts n] that by (simp add: sqlTokens_def)
  have all: "(\<exists>tokens n. sqlTokens s = Inr (tokens, n) \<and> Q tokens n) \<longleftrightarrow>
      (\<exists>ls. reads s ls \<and> Q (words_of ls) (semicolons_of ls))" for Q
  proof
    assume "\<exists>tokens n. sqlTokens s = Inr (tokens, n) \<and> Q tokens n"
    then obtain ts n where "sqlTokens s = Inr (ts, n)" "Q ts n" by blast
    with reading[OF this(1)] show "\<exists>ls. reads s ls \<and> Q (words_of ls) (semicolons_of ls)" by auto
  next
    assume "\<exists>ls. reads s ls \<and> Q (words_of ls) (semicolons_of ls)"
    with tokens show "\<exists>tokens n. sqlTokens s = Inr (tokens, n) \<and> Q tokens n" by blast
  qed
  show ?thesis unfolding accept hasOnlyTrailingSemicolon_iff[symmetric]
    by (rule all[of "\<lambda>ts n. ts \<noteq> [] \<and> hd ts \<in> set allowed_leading \<and> set ts \<inter> set forbidden_words = {} \<and>
      (n = 0 \<or> n = 1 \<and> hasOnlyTrailingSemicolon s)"])
qed

text \<open>
  The lexical rules above are not all of DuckDB's: it also has dollar-quoted strings. A quote inside
  one opens a masked part for the scanner, and whatever follows is hidden from the guard.
\<close>

definition dollar_quoted_attack :: string where
  "dollar_quoted_attack = ''select $$'' @ CHR 0x27 # ''$$; commit; drop table t --'' @ [CHR 0x27]"

lemma guard_admits_dollar_quoted: "ValidateReadOnlyStatement dollar_quoted_attack = None"
  by code_simp

lemma scan_rows_loop_Inr:
  "scan_rows_loop maxRows rows rowsErr out = Inr res \<longleftrightarrow> rowsErr = None \<and> (\<exists>vs. rows = map Inr vs \<and>
     res = out @ map (map scanned_value) vs) \<and> (rows = [] \<or> int (length out + length rows) \<le> maxRows)"
proof (induction rows arbitrary: out)
  case (Cons r rows)
  show ?case
  proof (cases r)
    case (Inr vals)
    have "(\<exists>vs. r # rows = map Inr vs \<and> res = out @ map (map scanned_value) vs) \<longleftrightarrow>
        (\<exists>vs. rows = map Inr vs \<and> res = (out @ [map scanned_value vals]) @ map (map scanned_value) vs)"
      using Inr by (auto simp: Cons_eq_map_conv intro: exI[of _ "vals # _"])
    with Inr Cons[of "out @ [map scanned_value vals]"] show ?thesis by auto
  qed (auto simp: Cons_eq_map_conv)
qed (auto split: option.splits)

text \<open>
  The row cap. With a cap that is not negative, a result is returned exactly when every row of
  the cursor scans, the cursor ends without an error and there are at most \<open>maxRows\<close> rows; then it is
  all of them, in order, with byte slices as strings. No returned result exceeds the cap.
\<close>

lemma scanResultRows_cap:
  assumes "0 \<le> maxRows"
  shows "scanResultRows rows rowsErr maxRows = Inr res \<longleftrightarrow> rowsErr = None \<and> int (length rows) \<le> maxRows \<and>
     (\<exists>vs. rows = map Inr vs \<and> res = map (map scanned_value) vs)"
  using assms by (auto simp: scanResultRows_def scan_rows_loop_Inr)

text \<open>
  The extension a session loads unsigned comes from a place the operator chose. Any path that is
  returned is absolute, clean and a regular file; without an explicit path it is the same whatever
  the working directory is, and is the cleaned value of the environment variable or the installed
  file below the home directory.
\<close>

lemma ResolveGraphExtension_trusted:
  assumes "ResolveGraphExtension cwd env home stat explicit = Inr p" "filepath_IsAbs cwd"
  shows "filepath_IsAbs p \<and> filepath_Clean p = p \<and> stat p = Inr True \<and>
     (strings_TrimSpace explicit = [] \<longrightarrow> (\<forall>cwd'. ResolveGraphExtension cwd' env home stat explicit = Inr p) \<and>
       (strings_TrimSpace env \<noteq> [] \<and> p = filepath_Clean (strings_TrimSpace env) \<or>
        (\<exists>h. home = Inr h \<and> p = filepath_Join [h, ''.corkscrew'', ''extensions'', graphExtensionFile])))"
proof -
  have regular: "q = p' \<and> stat q = Inr True" if "requireRegularFile stat p' = Inr q" for p' q
    using that by (auto simp: requireRegularFile_def split: sum.splits if_splits)
  show ?thesis
  proof (cases "strings_TrimSpace explicit = []")
    case False
    with assms(1) regular have p: "p = filepath_Abs cwd (strings_TrimSpace explicit)" "stat p = Inr True"
      by (auto simp: ResolveGraphExtension_def)
    with False Join_abs_clean[OF assms(2)] Clean_abs_clean show ?thesis by (auto simp: filepath_Abs_def)
  next
    case ex: True
    show ?thesis
    proof (cases "strings_TrimSpace env = []")
      case False
      with ex assms(1) regular have p: "p = filepath_Clean (strings_TrimSpace env)" "stat p = Inr True"
        "filepath_IsAbs (strings_TrimSpace env)" by (auto simp: ResolveGraphExtension_def split: if_splits)
      with ex False assms(1) Clean_abs_clean[OF p(3)] show ?thesis by (auto simp: ResolveGraphExtension_def)
    next
      case True
      with ex assms(1) obtain h where h: "home = Inr h" "filepath_IsAbs h"
        and p: "p = filepath_Join [h, ''.corkscrew'', ''extensions'', graphExtensionFile]"
        and r: "\<exists>q. requireRegularFile stat p = Inr q"
        by (auto simp: ResolveGraphExtension_def installedGraphExtensionPath_def split: sum.splits if_splits)
      with regular Join_abs_clean[OF h(2), of "[''.corkscrew'', ''extensions'', graphExtensionFile]"] ex True assms(1)
      show ?thesis by (auto simp: ResolveGraphExtension_def)
    qed
  qed
qed

subsection \<open>Witnesses\<close>

lemma demo_tokens: "sqlTokens ''select 1; '' = Inr ([''select''], 1)"
  by code_simp

theorem sqlTokens_reading_witness:
  "\<exists>ls. reads ''select 1; '' ls \<and> words_of ls = [''select''] \<and> semicolons_of ls = 1"
  using sqlTokens_reading[of "''select 1; ''" "[''select'']" 1] demo_tokens by auto

lemma demo_valid: "ValidateReadOnlyStatement ''select 1; '' = None"
  by code_simp

theorem ValidateReadOnlyStatement_accepts_witness:
  "\<exists>ls. reads ''select 1; '' ls \<and> hd (words_of ls) \<in> set allowed_leading \<and> set (words_of ls) \<inter> set forbidden_words = {}"
  using ValidateReadOnlyStatement_accepts[of "''select 1; ''"] demo_valid by auto

lemma ResolveGraphExtension_trusted_instance:
  "ResolveGraphExtension ''/w'' ''/opt//x '' (Inl ''no'') (\<lambda>_. Inr True) '' '' = Inr ''/opt/x'' \<and>
     (\<forall>cwd'. ResolveGraphExtension cwd' ''/opt//x '' (Inl ''no'') (\<lambda>_. Inr True) '' '' = Inr ''/opt/x'')"
proof -
  have r: "ResolveGraphExtension ''/w'' ''/opt//x '' (Inl ''no'') (\<lambda>_. Inr True) '' '' = Inr ''/opt/x''" by code_simp
  have a: "filepath_IsAbs ''/w''" "strings_TrimSpace '' '' = []" by code_simp+
  from ResolveGraphExtension_trusted[OF r a(1)] a(2) r show ?thesis by blast
qed

end
