(* ===== verification/Pack.thy ===== *)
theory Pack imports Complex_Main Proto Filepath Keyed_Table begin

text \<open>
  pkg/query/compliance/pack.go: query packs, their validation, versions, the registry that holds
  loaded packs, and the validation of parameter values. Reading a file, parsing YAML
  (gopkg.in/yaml.v3) and compiling a regular expression are parameters; a compiled expression is its
  set of matching strings. Go ranges over a map in any order, so the search for the latest version
  takes the order as an argument.
\<close>

subsection \<open>Data\<close>

text \<open>
  A float is a rational, an infinity (its sign) or not a number. A value of type \<open>interface{}\<close> is
  what YAML and callers store in one.
\<close>

datatype float64 = Finite rat | Infinite bool | NaN

datatype pvalue =
    VNil
  | VString string
  | VInt int
  | VInt32 int
  | VInt64 int
  | VFloat float64
  | VBool bool
  | VList "pvalue list"
  | VObject "(string \<times> pvalue) list"

record ParameterValidation =
  val_MinLength :: "int option"
  val_MaxLength :: "int option"
  val_Pattern :: string
  val_MinValue :: "float64 option"
  val_MaxValue :: "float64 option"
  val_Regex :: "(string \<Rightarrow> bool) option"

record PackParameter =
  par_Name :: string
  par_Description :: string
  par_Type :: string
  par_Default :: pvalue
  par_Required :: bool
  par_Validation :: "ParameterValidation option"
  par_Examples :: "pvalue list"
  par_EnumValues :: "pvalue list"
  par_Sensitive :: bool

record RemediationInfo =
  rem_Description :: string
  rem_Steps :: "string list"
  rem_Links :: "string list"
  rem_TerraformModule :: string
  rem_TerraformCode :: string
  rem_Automated :: bool
  rem_Complexity :: string
  rem_EstimatedTime :: string
  rem_Risks :: "string list"
  rem_Prerequisites :: "string list"
  rem_AdditionalInfo :: strmap

record ComplianceQuery =
  q_ID :: string
  q_Title :: string
  q_Description :: string
  q_Objective :: string
  q_Severity :: string
  q_Category :: string
  q_ControlFamily :: string
  q_NISTCSF :: string
  q_Tags :: "string list"
  q_QueryFile :: string
  q_SQL :: string
  q_Parameters :: "string list"
  q_DependsOn :: "string list"
  q_Threats :: "string list"
  q_Remediation :: RemediationInfo
  q_Enabled :: bool

record PackMetadata =
  md_APIVersion :: string
  md_Kind :: string
  md_Name :: string
  md_Namespace :: string
  md_Version :: string
  md_Description :: string
  md_Author :: string
  md_Maintainers :: "string list"
  md_Tags :: "string list"
  md_Provider :: string
  md_Resources :: "string list"
  md_Frameworks :: "string list"
  md_MinEngineVersion :: string
  md_CreatedAt :: timestamp
  md_UpdatedAt :: timestamp
  md_Labels :: strmap
  md_Annotations :: strmap

record QueryPack =
  pk_Metadata :: PackMetadata
  pk_Queries :: "ComplianceQuery list"
  pk_Parameters :: "PackParameter list"
  pk_Includes :: "string list"
  pk_DependsOn :: "string list"
  pk_Namespace :: string
  pk_LoadedFrom :: string
  pk_LoadedAt :: timestamp

record PackVersion =
  ver_Major :: int
  ver_Minor :: int
  ver_Patch :: int
  ver_Prerelease :: string
  ver_Build :: string

record ValidationError =
  ve_Field :: string
  ve_Value :: pvalue
  ve_Message :: string

record PackRegistry =
  reg_SearchPaths :: "string list"
  reg_packs :: "(string, QueryPack) table"
  reg_namespaces :: "string \<rightharpoonup> string list"

subsection \<open>Versions\<close>

definition in_int64 :: "int \<Rightarrow> bool" where
  "in_int64 i \<longleftrightarrow> - (2 ^ 63) \<le> i \<and> i < 2 ^ 63"

definition digit_char :: "char \<Rightarrow> bool" where
  "digit_char c \<longleftrightarrow> (let n = (of_char c :: nat) in 48 \<le> n \<and> n \<le> 57)"

definition digits_value :: "string \<Rightarrow> nat" where
  "digits_value = foldl (\<lambda>acc c. 10 * acc + (of_char c - 48)) 0"

text \<open>
  \<open>fmt.Sscanf\<close> with the verb \<open>%d\<close> into an \<open>int\<close>: spaces are skipped but a newline is an error, a sign
  is accepted, at least one digit is required, the value must fit, and what follows is ignored.
\<close>

definition Sscanf_d :: "string \<Rightarrow> int option" where
  "Sscanf_d s = (let t = dropWhile (\<lambda>c. ascii_space c \<and> c \<noteq> CHR 0x0A) s;
       neg = strings_HasPrefix t ''-'';
       u = (if neg \<or> strings_HasPrefix t ''+'' then tl t else t);
       ds = takeWhile digit_char u;
       i = (if neg then - int (digits_value ds) else int (digits_value ds))
     in if ds = [] \<or> \<not> in_int64 i then None else Some i)"

definition ParseVersion :: "string \<Rightarrow> string + PackVersion" where
  "ParseVersion version = (let parts = strings_Split version (CHR ''.'') in
     if length parts < 3 then Inl (''invalid version format: '' @ version)
     else (case Sscanf_d (parts ! 0) of
         None \<Rightarrow> Inl (''invalid major version: '' @ parts ! 0)
       | Some major \<Rightarrow> (case Sscanf_d (parts ! 1) of
           None \<Rightarrow> Inl (''invalid minor version: '' @ parts ! 1)
         | Some minor \<Rightarrow> (case Sscanf_d (parts ! 2) of
             None \<Rightarrow> Inl (''invalid patch version: '' @ parts ! 2)
           | Some ptch \<Rightarrow> Inr \<lparr>ver_Major = major, ver_Minor = minor, ver_Patch = ptch,
               ver_Prerelease = [], ver_Build = []\<rparr>))))"

definition PackVersion_Compare :: "PackVersion \<Rightarrow> PackVersion \<Rightarrow> int" where
  "PackVersion_Compare v w =
     (if ver_Major v \<noteq> ver_Major w then if ver_Major v < ver_Major w then -1 else 1
      else if ver_Minor v \<noteq> ver_Minor w then if ver_Minor v < ver_Minor w then -1 else 1
      else if ver_Patch v \<noteq> ver_Patch w then if ver_Patch v < ver_Patch w then -1 else 1
      else 0)"

definition PackVersion_String :: "PackVersion \<Rightarrow> string" where
  "PackVersion_String v = strconv_Itoa (ver_Major v) @ ''.'' @ strconv_Itoa (ver_Minor v) @ ''.'' @ strconv_Itoa (ver_Patch v)"

subsection \<open>Validating a pack\<close>

definition isValidNamespace :: "string \<Rightarrow> bool" where
  "isValidNamespace namespace \<longleftrightarrow> (let parts = strings_Split namespace (CHR ''/'') in
     length parts = 2 \<and> parts ! 0 \<noteq> [] \<and> parts ! 1 \<noteq> [])"

definition isValidSeverity :: "string \<Rightarrow> bool" where
  "isValidSeverity severity \<longleftrightarrow> severity \<in> set [''CRITICAL'', ''HIGH'', ''MEDIUM'', ''LOW'', ''INFO'']"

definition isValidParameterType :: "string \<Rightarrow> bool" where
  "isValidParameterType t \<longleftrightarrow> t \<in> set [''string'', ''int'', ''bool'', ''list'', ''object'']"

definition verr :: "string \<Rightarrow> pvalue \<Rightarrow> string \<Rightarrow> ValidationError" where
  "verr fld v msg = \<lparr>ve_Field = fld, ve_Value = v, ve_Message = msg\<rparr>"

fun float_less :: "float64 \<Rightarrow> float64 \<Rightarrow> bool" where
  "float_less (Finite a) (Finite b) \<longleftrightarrow> a < b"
| "float_less (Finite a) (Infinite pos) \<longleftrightarrow> pos"
| "float_less (Infinite pos) (Finite b) \<longleftrightarrow> \<not> pos"
| "float_less (Infinite p) (Infinite q) \<longleftrightarrow> \<not> p \<and> q"
| "float_less _ _ \<longleftrightarrow> False"

definition opt_gt :: "('a \<Rightarrow> 'a \<Rightarrow> bool) \<Rightarrow> 'a option \<Rightarrow> 'a option \<Rightarrow> bool" where
  "opt_gt lt a b \<longleftrightarrow> (case (a, b) of (Some x, Some y) \<Rightarrow> lt y x | _ \<Rightarrow> False)"

definition opt_negative :: "int option \<Rightarrow> bool" where
  "opt_negative a \<longleftrightarrow> (case a of Some x \<Rightarrow> x < 0 | None \<Rightarrow> False)"

text \<open>The errors, and the validation with the compiled pattern stored in it.\<close>

definition validateParameterValidation :: "(string \<Rightarrow> (string \<Rightarrow> bool) option) \<Rightarrow> ParameterValidation \<Rightarrow> string \<Rightarrow>
    ValidationError list \<times> ParameterValidation" where
  "validateParameterValidation compile validation fieldPrefix =
     (let (es, validation') =
        (if val_Pattern validation \<noteq> [] then (case compile (val_Pattern validation) of
             None \<Rightarrow> ([verr (fieldPrefix @ ''.pattern'') (VString (val_Pattern validation)) ''invalid regex pattern''], validation)
           | Some regex \<Rightarrow> ([], validation\<lparr>val_Regex := Some regex\<rparr>))
         else ([], validation));
       es = es @ (if opt_negative (val_MinLength validation)
         then [verr (fieldPrefix @ ''.min_length'') (VInt (the (val_MinLength validation))) ''min_length cannot be negative''] else []);
       es = es @ (if opt_negative (val_MaxLength validation)
         then [verr (fieldPrefix @ ''.max_length'') (VInt (the (val_MaxLength validation))) ''max_length cannot be negative''] else []);
       es = es @ (if opt_gt (<) (val_MinLength validation) (val_MaxLength validation)
         then [verr fieldPrefix VNil ''min_length cannot be greater than max_length''] else []);
       es = es @ (if opt_gt float_less (val_MinValue validation) (val_MaxValue validation)
         then [verr fieldPrefix VNil ''min_value cannot be greater than max_value''] else [])
     in (es, validation'))"

definition indexed_field :: "string \<Rightarrow> nat \<Rightarrow> string \<Rightarrow> string" where
  "indexed_field coll i fld = coll @ ''['' @ strconv_Itoa (int i) @ ''].'' @ fld"

fun validate_queries_loop :: "nat \<Rightarrow> string list \<Rightarrow> ComplianceQuery list \<Rightarrow> ValidationError list \<Rightarrow> ValidationError list" where
  "validate_queries_loop i seen [] es = es"
| "validate_queries_loop i seen (q # qs) es =
     (let es = es @ (if q_ID q = [] then [verr (indexed_field ''queries'' i ''id'') VNil ''query ID is required''] else []);
          es = es @ (if q_ID q \<in> set seen then [verr (indexed_field ''queries'' i ''id'') (VString (q_ID q)) ''duplicate query ID''] else []);
          es = es @ (if q_Title q = [] then [verr (indexed_field ''queries'' i ''title'') VNil ''query title is required''] else []);
          es = es @ (if q_QueryFile q = [] then [verr (indexed_field ''queries'' i ''query_file'') VNil ''query file is required''] else []);
          es = es @ (if \<not> isValidSeverity (q_Severity q) then [verr (indexed_field ''queries'' i ''severity'') (VString (q_Severity q))
            ''invalid severity (must be CRITICAL, HIGH, MEDIUM, LOW, or INFO)''] else [])
      in validate_queries_loop (i + 1) (q_ID q # seen) qs es)"

definition validate_rules :: "(string \<Rightarrow> (string \<Rightarrow> bool) option) \<Rightarrow> nat \<Rightarrow> PackParameter \<Rightarrow> ValidationError list \<times> PackParameter" where
  "validate_rules compile i p = (case par_Validation p of
     None \<Rightarrow> ([], p)
   | Some v \<Rightarrow> (case validateParameterValidation compile v (indexed_field ''parameters'' i ''validation'') of
       (ves, v') \<Rightarrow> (ves, p\<lparr>par_Validation := Some v'\<rparr>)))"

fun validate_params_loop :: "(string \<Rightarrow> (string \<Rightarrow> bool) option) \<Rightarrow> nat \<Rightarrow> string list \<Rightarrow> PackParameter list \<Rightarrow>
    ValidationError list \<Rightarrow> PackParameter list \<Rightarrow> ValidationError list \<times> PackParameter list" where
  "validate_params_loop compile i seen [] es out = (es, out)"
| "validate_params_loop compile i seen (p # ps) es out =
     (let es = es @ (if par_Name p = [] then [verr (indexed_field ''parameters'' i ''name'') VNil ''parameter name is required''] else []);
          es = es @ (if par_Name p \<in> set seen
            then [verr (indexed_field ''parameters'' i ''name'') (VString (par_Name p)) ''duplicate parameter name''] else []);
          es = es @ (if \<not> isValidParameterType (par_Type p)
            then [verr (indexed_field ''parameters'' i ''type'') (VString (par_Type p)) ''invalid parameter type''] else []);
          (ves, p') = validate_rules compile i p
      in validate_params_loop compile (i + 1) (par_Name p # seen) ps (es @ ves) (out @ [p']))"

definition validate_metadata :: "PackMetadata \<Rightarrow> ValidationError list" where
  "validate_metadata m =
     (if md_Name m = [] then [verr ''metadata.name'' VNil ''name is required''] else []) @
     (if md_Version m = [] then [verr ''metadata.version'' VNil ''version is required''] else []) @
     (if md_Provider m = [] then [verr ''metadata.provider'' VNil ''provider is required''] else []) @
     (if md_Version m \<noteq> [] then (case ParseVersion (md_Version m) of
          Inl _ \<Rightarrow> [verr ''metadata.version'' (VString (md_Version m)) ''invalid version format''] | Inr _ \<Rightarrow> []) else []) @
     (if md_Namespace m \<noteq> [] \<and> \<not> isValidNamespace (md_Namespace m)
      then [verr ''metadata.namespace'' (VString (md_Namespace m)) ''invalid namespace format (should be publisher/framework)''] else [])"

text \<open>The collected errors (none: nil), and the pack with its patterns compiled.\<close>

definition ValidatePack :: "(string \<Rightarrow> (string \<Rightarrow> bool) option) \<Rightarrow> QueryPack \<Rightarrow> ValidationError list \<times> QueryPack" where
  "ValidatePack compile pack =
     (let es = validate_queries_loop 0 [] (pk_Queries pack) (validate_metadata (pk_Metadata pack));
          (es, ps) = validate_params_loop compile 0 [] (pk_Parameters pack) es []
      in (es, pack\<lparr>pk_Parameters := ps\<rparr>))"

subsection \<open>The registry\<close>

datatype load_cause =
    FileError string
  | ParseError string
  | Invalid "ValidationError list"
  | QueryFileError string string string

record LoadError =
  le_Path :: string
  le_Message :: string
  le_Cause :: load_cause

text \<open>What the loader meets outside the program.\<close>

record pack_env =
  env_ReadFile :: "string \<Rightarrow> string + string"
  env_Unmarshal :: "string \<Rightarrow> string + QueryPack"
  env_Compile :: "string \<Rightarrow> (string \<Rightarrow> bool) option"
  env_Now :: timestamp

fun loadQueryFiles :: "pack_env \<Rightarrow> string \<Rightarrow> ComplianceQuery list \<Rightarrow> load_cause + ComplianceQuery list" where
  "loadQueryFiles env packDir [] = Inr []"
| "loadQueryFiles env packDir (q # qs) =
     (if q_QueryFile q = [] then map_sum id ((#) q) (loadQueryFiles env packDir qs)
      else (case env_ReadFile env (filepath_Join [packDir, q_QueryFile q]) of
          Inl err \<Rightarrow> Inl (QueryFileError (q_QueryFile q) (q_ID q) err)
        | Inr sqlContent \<Rightarrow> map_sum id ((#) (q\<lparr>q_SQL := sqlContent\<rparr>)) (loadQueryFiles env packDir qs)))"

definition generatePackKey :: "QueryPack \<Rightarrow> string" where
  "generatePackKey pack = (if pk_Namespace pack \<noteq> []
     then pk_Namespace pack @ ''/'' @ md_Name (pk_Metadata pack) @ '':'' @ md_Version (pk_Metadata pack)
     else md_Name (pk_Metadata pack) @ '':'' @ md_Version (pk_Metadata pack))"

definition register_pack :: "QueryPack \<Rightarrow> PackRegistry \<Rightarrow> PackRegistry" where
  "register_pack pack r = r\<lparr>reg_packs := AList.update (generatePackKey pack) pack (reg_packs r),
     reg_namespaces := (if pk_Namespace pack \<noteq> []
       then (reg_namespaces r)(pk_Namespace pack \<mapsto>
         (case reg_namespaces r (pk_Namespace pack) of None \<Rightarrow> [] | Some ns \<Rightarrow> ns) @ [md_Name (pk_Metadata pack)])
       else reg_namespaces r)\<rparr>"

definition Registry_LoadPack :: "pack_env \<Rightarrow> string \<Rightarrow> PackRegistry \<Rightarrow> (LoadError + QueryPack) \<times> PackRegistry" where
  "Registry_LoadPack env path r = (case env_ReadFile env path of
     Inl err \<Rightarrow> (Inl \<lparr>le_Path = path, le_Message = ''failed to read file'', le_Cause = FileError err\<rparr>, r)
   | Inr data \<Rightarrow> (case env_Unmarshal env data of
       Inl err \<Rightarrow> (Inl \<lparr>le_Path = path, le_Message = ''failed to parse YAML'', le_Cause = ParseError err\<rparr>, r)
     | Inr pack \<Rightarrow>
         (let pack = pack\<lparr>pk_LoadedFrom := path, pk_LoadedAt := env_Now env,
            pk_Namespace := (if md_Namespace (pk_Metadata pack) \<noteq> [] then md_Namespace (pk_Metadata pack) else pk_Namespace pack)\<rparr>;
          (es, pack) = ValidatePack (env_Compile env) pack in
          if es \<noteq> [] then (Inl \<lparr>le_Path = path, le_Message = ''validation failed'', le_Cause = Invalid es\<rparr>, r)
          else (case loadQueryFiles env (filepath_Dir path) (pk_Queries pack) of
              Inl cause \<Rightarrow> (Inl \<lparr>le_Path = path, le_Message = ''failed to load query files'', le_Cause = cause\<rparr>, r)
            | Inr qs \<Rightarrow> (let pack = pack\<lparr>pk_Queries := qs\<rparr> in (Inr pack, register_pack pack r))))))"

fun latest_loop :: "string \<Rightarrow> (string \<times> QueryPack) list \<Rightarrow> (QueryPack \<times> PackVersion) option \<Rightarrow> (QueryPack \<times> PackVersion) option" where
  "latest_loop name [] best = best"
| "latest_loop name ((key, pack) # entries) best =
     (if \<not> strings_HasPrefix key (name @ '':'') then latest_loop name entries best
      else (case ParseVersion (md_Version (pk_Metadata pack)) of
          Inl _ \<Rightarrow> latest_loop name entries best
        | Inr version \<Rightarrow> latest_loop name entries (case best of
            None \<Rightarrow> Some (pack, version)
          | Some (_, latest) \<Rightarrow> if PackVersion_Compare version latest > 0 then Some (pack, version) else best)))"

text \<open>\<open>order\<close> is the order in which the loop ranges over the map.\<close>

definition getLatestVersion :: "((string, QueryPack) table \<Rightarrow> (string, QueryPack) table) \<Rightarrow> PackRegistry \<Rightarrow> string \<Rightarrow> string + QueryPack" where
  "getLatestVersion order r name = (case latest_loop name (order (reg_packs r)) None of
     None \<Rightarrow> Inl (''no versions found for pack '' @ name) | Some (pack, _) \<Rightarrow> Inr pack)"

definition GetPack :: "((string, QueryPack) table \<Rightarrow> (string, QueryPack) table) \<Rightarrow> PackRegistry \<Rightarrow> string \<Rightarrow> string \<Rightarrow> string + QueryPack" where
  "GetPack order r name version = (let version = (if version = [] then ''latest'' else version) in
     case map_of (reg_packs r) (name @ '':'' @ version) of
       Some pack \<Rightarrow> Inr pack
     | None \<Rightarrow> if version = ''latest'' then getLatestVersion order r name
         else Inl (''pack '' @ name @ '':'' @ version @ '' not found''))"

subsection \<open>Parameter values\<close>

text \<open>
  \<open>v == float64(int(v))\<close>: an integral value in the range of \<open>int\<close>. A value out of range converts to
  the smallest \<open>int\<close> on amd64, which it does not equal.
\<close>

fun float_integral :: "float64 \<Rightarrow> bool" where
  "float_integral (Finite r) \<longleftrightarrow> r = of_int \<lfloor>r\<rfloor> \<and> in_int64 \<lfloor>r\<rfloor>"
| "float_integral _ \<longleftrightarrow> False"

text \<open>\<open>==\<close> of two interface values panics when both hold slices or both hold maps.\<close>

definition interface_eq :: "pvalue \<Rightarrow> pvalue \<Rightarrow> bool panics" where
  "interface_eq v w = do {
     assert_That (\<not> (case v of VList _ \<Rightarrow> (case w of VList _ \<Rightarrow> True | _ \<Rightarrow> False)
       | VObject _ \<Rightarrow> (case w of VObject _ \<Rightarrow> True | _ \<Rightarrow> False) | _ \<Rightarrow> False));
     Some (v = w \<and> v \<noteq> VFloat NaN)
   }"

definition type_check :: "string \<Rightarrow> pvalue \<Rightarrow> string option" where
  "type_check t v =
     (if t = ''string'' then (case v of VString _ \<Rightarrow> None | _ \<Rightarrow> Some ''expected string value'')
      else if t = ''int'' then (case v of VInt _ \<Rightarrow> None | VInt32 _ \<Rightarrow> None | VInt64 _ \<Rightarrow> None
          | VFloat f \<Rightarrow> if float_integral f then None else Some ''expected integer value''
          | _ \<Rightarrow> Some ''expected integer value'')
      else if t = ''bool'' then (case v of VBool _ \<Rightarrow> None | _ \<Rightarrow> Some ''expected boolean value'')
      else if t = ''list'' then (case v of VList _ \<Rightarrow> None | _ \<Rightarrow> Some ''expected list value'')
      else if t = ''object'' then (case v of VObject _ \<Rightarrow> None | _ \<Rightarrow> Some ''expected object value'')
      else None)"

definition applyValidationRules :: "PackParameter \<Rightarrow> ParameterValidation \<Rightarrow> pvalue \<Rightarrow> ValidationError option" where
  "applyValidationRules p validation v = (case v of
     VString s \<Rightarrow>
       if (case val_MinLength validation of Some m \<Rightarrow> int (length s) < m | None \<Rightarrow> False)
       then Some (verr (par_Name p) v (''string length must be at least '' @ strconv_Itoa (the (val_MinLength validation))))
       else if (case val_MaxLength validation of Some m \<Rightarrow> int (length s) > m | None \<Rightarrow> False)
       then Some (verr (par_Name p) v (''string length must be at most '' @ strconv_Itoa (the (val_MaxLength validation))))
       else if (case val_Regex validation of Some m \<Rightarrow> \<not> m s | None \<Rightarrow> False)
       then Some (verr (par_Name p) v (''string must match pattern: '' @ val_Pattern validation))
       else None
   | VFloat f \<Rightarrow>
       if (case val_MinValue validation of Some m \<Rightarrow> float_less f m | None \<Rightarrow> False)
       then Some (verr (par_Name p) v ''value must be at least the minimum'')
       else if (case val_MaxValue validation of Some m \<Rightarrow> float_less m f | None \<Rightarrow> False)
       then Some (verr (par_Name p) v ''value must be at most the maximum'')
       else None
   | _ \<Rightarrow> None)"

fun enum_loop :: "PackParameter \<Rightarrow> pvalue list \<Rightarrow> pvalue \<Rightarrow> ValidationError option panics" where
  "enum_loop p [] v = Some (Some (verr (par_Name p) v ''value must be one of the enumerated values''))"
| "enum_loop p (e # es) v = do {
     same \<leftarrow> interface_eq v e;
     if same then Some None else enum_loop p es v
   }"

definition ValidateParameter :: "PackParameter \<Rightarrow> pvalue \<Rightarrow> ValidationError option panics" where
  "ValidateParameter p v =
     (if par_Required p \<and> v = VNil then Some (Some (verr (par_Name p) VNil ''parameter is required''))
      else if v = VNil then Some None
      else (case type_check (par_Type p) v of
          Some msg \<Rightarrow> Some (Some (verr (par_Name p) v msg))
        | None \<Rightarrow> (case par_Validation p of
            Some validation \<Rightarrow> Some (applyValidationRules p validation v)
          | None \<Rightarrow> if par_EnumValues p \<noteq> [] then enum_loop p (par_EnumValues p) v else Some None)))"

subsection \<open>Versions: printing and parsing\<close>

lemma digit_of_char: "n < 10 \<Longrightarrow> digit_char (char_of (48 + n)) \<and> of_char (char_of (48 + n) :: char) - (48 :: nat) = n"
  by (auto simp: digit_char_def)

lemma digits_of_digits: "list_all digit_char (digits_of n)"
proof (induction n rule: digits_of.induct)
  case (1 n)
  then show ?case by (subst digits_of.simps) (use digit_of_char[of n] digit_of_char[of "n mod 10"] in auto)
qed

lemma digits_value_snoc: "digits_value (s @ [c]) = 10 * digits_value s + (of_char c - 48)"
  by (simp add: digits_value_def)

lemma digits_value_of: "digits_value (digits_of n) = n"
proof (induction n rule: digits_of.induct)
  case (1 n)
  show ?case
  proof (cases "n < 10")
    case True
    then have "digits_of n = [char_of (48 + n)]" by (subst digits_of.simps) simp
    with digit_of_char[OF True] show ?thesis by (simp add: digits_value_def)
  next
    case False
    have m: "n mod 10 < 10" by simp
    have "digits_of n = digits_of (n div 10) @ [char_of (48 + n mod 10)]" using False by (subst digits_of.simps) simp
    with 1 False digit_of_char[OF m] show ?thesis by (simp add: digits_value_snoc)
  qed
qed

lemma digit_char_plain: "digit_char c \<Longrightarrow> \<not> ascii_space c \<and> c \<noteq> CHR ''-'' \<and> c \<noteq> CHR ''+'' \<and> c \<noteq> CHR ''.''"
  by (auto simp: digit_char_def ascii_space_def Let_def)

lemma digits_of_hd: "digit_char (hd (digits_of n))"
  using digits_of_digits[of n] digits_of_not_Nil[of n] by (cases "digits_of n") auto

lemma takeWhile_all: "list_all P xs \<Longrightarrow> takeWhile P xs = xs"
  by (induction xs) auto

lemma Sscanf_d_Itoa: "in_int64 i \<Longrightarrow> Sscanf_d (strconv_Itoa i) = Some i"
proof -
  assume i: "in_int64 i"
  have d: "dropWhile (\<lambda>c. ascii_space c \<and> c \<noteq> CHR 0x0A) (digits_of n) = digits_of n" for n
    using digit_char_plain[OF digits_of_hd[of n]] by (cases "digits_of n") auto
  have np: "\<not> strings_HasPrefix (digits_of n) ''-'' \<and> \<not> strings_HasPrefix (digits_of n) ''+''" for n
    using digit_char_plain[OF digits_of_hd[of n]] by (cases "digits_of n") auto
  have sp: "\<not> ascii_space (CHR ''-'')" by (simp add: ascii_space_def)
  show ?thesis
  proof (cases "i < 0")
    case True
    with i sp show ?thesis
      by (simp add: strconv_Itoa_def Sscanf_d_def Let_def takeWhile_all digits_of_digits digits_value_of)
  next
    case False
    with i d np show ?thesis
      by (simp add: strconv_Itoa_def Sscanf_d_def Let_def takeWhile_all digits_of_digits digits_value_of)
  qed
qed

lemma Itoa_no_dot: "CHR ''.'' \<notin> set (strconv_Itoa i)"
  using digits_of_digits digit_char_plain by (auto simp: strconv_Itoa_def list_all_iff)

text \<open>
  Printing and parsing a version agree: parsing the text of any version whose numbers fit an
  \<open>int\<close> gives that version back, without a prerelease or build part.
\<close>

lemma ParseVersion_String:
  assumes "in_int64 (ver_Major v)" "in_int64 (ver_Minor v)" "in_int64 (ver_Patch v)"
  shows "ParseVersion (PackVersion_String v) = Inr (v\<lparr>ver_Prerelease := [], ver_Build := []\<rparr>)"
proof -
  have "PackVersion_String v = strings_Join [strconv_Itoa (ver_Major v), strconv_Itoa (ver_Minor v), strconv_Itoa (ver_Patch v)] [CHR ''.'']"
    by (simp add: PackVersion_String_def)
  moreover have "strings_Split (strings_Join [strconv_Itoa (ver_Major v), strconv_Itoa (ver_Minor v), strconv_Itoa (ver_Patch v)] [CHR ''.'']) (CHR ''.'') =
      [strconv_Itoa (ver_Major v), strconv_Itoa (ver_Minor v), strconv_Itoa (ver_Patch v)]"
    by (rule Split_Join) (use Itoa_no_dot in auto)
  ultimately have "strings_Split (PackVersion_String v) (CHR ''.'') =
      [strconv_Itoa (ver_Major v), strconv_Itoa (ver_Minor v), strconv_Itoa (ver_Patch v)]" by metis
  with assms show ?thesis by (simp add: ParseVersion_def Sscanf_d_Itoa)
qed

subsection \<open>The latest version\<close>

definition version_key :: "PackVersion \<Rightarrow> int list" where
  "version_key v = [ver_Major v, ver_Minor v, ver_Patch v]"

lemma Compare_key:
  "PackVersion_Compare v w > 0 \<longleftrightarrow> version_key w < version_key v"
  "PackVersion_Compare v w = 0 \<longleftrightarrow> version_key v = version_key w"
  by (auto simp: PackVersion_Compare_def version_key_def)

definition version_of :: "string \<Rightarrow> string \<times> QueryPack \<Rightarrow> PackVersion option" where
  "version_of name e = (if strings_HasPrefix (fst e) (name @ '':'')
     then (case ParseVersion (md_Version (pk_Metadata (snd e))) of Inl _ \<Rightarrow> None | Inr v \<Rightarrow> Some v) else None)"

lemma latest_loop_spec:
  assumes "case best of None \<Rightarrow> True | Some (p, v) \<Rightarrow> \<exists>e \<in> E. snd e = p \<and> version_of name e = Some v"
    "\<And>e v. e \<in> E \<Longrightarrow> version_of name e = Some v \<Longrightarrow> \<exists>p w. best = Some (p, w) \<and> version_key v \<le> version_key w"
  shows "(case latest_loop name entries best of
      None \<Rightarrow> \<forall>e \<in> E \<union> set entries. version_of name e = None
    | Some (p, v) \<Rightarrow> (\<exists>e \<in> E \<union> set entries. snd e = p \<and> version_of name e = Some v) \<and>
        (\<forall>e \<in> E \<union> set entries. \<forall>w. version_of name e = Some w \<longrightarrow> version_key w \<le> version_key v))"
  using assms
proof (induction entries arbitrary: best E)
  case Nil
  show ?case
  proof (cases best)
    case None
    have "version_of name e = None" if "e \<in> E" for e
      using Nil(2)[OF that] None by (cases "version_of name e") auto
    with None show ?thesis by simp
  next
    case (Some b)
    with Nil show ?thesis by (cases b) fastforce
  qed
next
  case (Cons e entries)
  obtain key pack where e: "e = (key, pack)" by (cases e)
  have un: "E \<union> set (e # entries) = insert e E \<union> set entries" by auto
  show ?case
  proof (cases "version_of name e")
    case None
    have step: "latest_loop name (e # entries) best = latest_loop name entries best"
      using None by (auto simp: e version_of_def split: if_splits sum.splits)
    show ?thesis unfolding un step
      by (rule Cons.IH) (use Cons.prems None in \<open>auto split: option.splits\<close>)
  next
    case (Some v)
    define best' where "best' = (case best of None \<Rightarrow> Some (pack, v)
      | Some (_, w) \<Rightarrow> if PackVersion_Compare v w > 0 then Some (pack, v) else best)"
    have step: "latest_loop name (e # entries) best = latest_loop name entries best'"
      using Some by (auto simp: e version_of_def best'_def split: if_splits sum.splits)
    have p1: "case best' of None \<Rightarrow> True | Some (p, v) \<Rightarrow> \<exists>e \<in> insert e E. snd e = p \<and> version_of name e = Some v"
      using Cons.prems(1) Some by (auto simp: best'_def e split: option.splits)
    have p2: "\<exists>p w. best' = Some (p, w) \<and> version_key u \<le> version_key w"
      if "x \<in> insert e E" "version_of name x = Some u" for x u
    proof (cases best)
      case None
      with that Cons.prems(2)[of x u] Some show ?thesis by (auto simp: best'_def)
    next
      case (Some b)
      obtain p w where b: "b = (p, w)" by (cases b)
      show ?thesis
      proof (cases "PackVersion_Compare v w > 0")
        case True
        with that Cons.prems(2)[of x u] \<open>version_of name e = Some v\<close> Some b show ?thesis
          by (auto simp: best'_def Compare_key)
      next
        case False
        with that Cons.prems(2)[of x u] \<open>version_of name e = Some v\<close> Some b show ?thesis
          by (auto simp: best'_def Compare_key not_less)
      qed
    qed
    show ?thesis unfolding un step by (rule Cons.IH[OF p1 p2])
  qed
qed

text \<open>
  The latest version does not depend on the order in which Go ranges over the map: whatever the
  order, \<open>getLatestVersion\<close> finds a registered pack of the name whose version no registered version of
  the name exceeds, two orders find packs of the same version, and it fails exactly when no pack of
  the name has a version that parses.
\<close>

lemma getLatestVersion_maximal:
  assumes "set (order (reg_packs r)) = set (reg_packs r)" "set (order' (reg_packs r)) = set (reg_packs r)"
  shows "(case getLatestVersion order r name of
      Inl _ \<Rightarrow> (\<forall>e \<in> set (reg_packs r). version_of name e = None) \<and> (\<exists>msg. getLatestVersion order' r name = Inl msg)
    | Inr p \<Rightarrow> (\<exists>key v. (key, p) \<in> set (reg_packs r) \<and> version_of name (key, p) = Some v \<and>
        (\<forall>e \<in> set (reg_packs r). \<forall>w. version_of name e = Some w \<longrightarrow> version_key w \<le> version_key v) \<and>
        (\<exists>p' key' v'. getLatestVersion order' r name = Inr p' \<and> (key', p') \<in> set (reg_packs r) \<and>
           version_of name (key', p') = Some v' \<and> version_key v' = version_key v)))"
proof -
  have spec: "case latest_loop name (ord (reg_packs r)) None of
      None \<Rightarrow> \<forall>e \<in> set (reg_packs r). version_of name e = None
    | Some (p, v) \<Rightarrow> (\<exists>e \<in> set (reg_packs r). snd e = p \<and> version_of name e = Some v) \<and>
        (\<forall>e \<in> set (reg_packs r). \<forall>w. version_of name e = Some w \<longrightarrow> version_key w \<le> version_key v)"
    if "set (ord (reg_packs r)) = set (reg_packs r)" for ord :: "(string, QueryPack) table \<Rightarrow> (string, QueryPack) table"
    using latest_loop_spec[where best = None and E = "{}" and name = name and entries = "ord (reg_packs r)"]
    unfolding that Un_empty_left by simp
  show ?thesis
  proof (cases "latest_loop name (order (reg_packs r)) None")
    case None
    with spec[of order, OF assms(1)] have n: "\<forall>e \<in> set (reg_packs r). version_of name e = None" by simp
    with spec[of order', OF assms(2)] have "latest_loop name (order' (reg_packs r)) None = None"
      by (auto split: option.splits)
    with None n show ?thesis by (simp add: getLatestVersion_def)
  next
    case (Some b)
    obtain p v where b: "b = (p, v)" by (cases b)
    from spec[of order, OF assms(1)] Some b obtain key where pv: "(key, p) \<in> set (reg_packs r)" "version_of name (key, p) = Some v"
      and mx: "\<forall>e \<in> set (reg_packs r). \<forall>w. version_of name e = Some w \<longrightarrow> version_key w \<le> version_key v" by force
    from spec[of order', OF assms(2)] pv obtain p' v' where l': "latest_loop name (order' (reg_packs r)) None = Some (p', v')"
      by (cases "latest_loop name (order' (reg_packs r)) None") auto
    with spec[of order', OF assms(2)] obtain key' where pv': "(key', p') \<in> set (reg_packs r)" "version_of name (key', p') = Some v'"
      and mx': "\<forall>e \<in> set (reg_packs r). \<forall>w. version_of name e = Some w \<longrightarrow> version_key w \<le> version_key v'" by force
    from mx pv' mx' pv have "version_key v' = version_key v" by (meson order_antisym)
    with Some b pv mx l' pv' show ?thesis by (auto simp: getLatestVersion_def)
  qed
qed

subsection \<open>What validation accepts\<close>

definition query_wf :: "ComplianceQuery \<Rightarrow> bool" where
  "query_wf q \<longleftrightarrow> q_ID q \<noteq> [] \<and> q_Title q \<noteq> [] \<and> q_QueryFile q \<noteq> [] \<and> isValidSeverity (q_Severity q)"

definition validation_wf :: "(string \<Rightarrow> (string \<Rightarrow> bool) option) \<Rightarrow> ParameterValidation \<Rightarrow> bool" where
  "validation_wf compile v \<longleftrightarrow> (val_Pattern v \<noteq> [] \<longrightarrow> compile (val_Pattern v) \<noteq> None) \<and>
     \<not> opt_negative (val_MinLength v) \<and> \<not> opt_negative (val_MaxLength v) \<and>
     \<not> opt_gt (<) (val_MinLength v) (val_MaxLength v) \<and> \<not> opt_gt float_less (val_MinValue v) (val_MaxValue v)"

definition parameter_wf :: "(string \<Rightarrow> (string \<Rightarrow> bool) option) \<Rightarrow> PackParameter \<Rightarrow> bool" where
  "parameter_wf compile p \<longleftrightarrow> par_Name p \<noteq> [] \<and> isValidParameterType (par_Type p) \<and>
     (case par_Validation p of None \<Rightarrow> True | Some v \<Rightarrow> validation_wf compile v)"

definition metadata_wf :: "PackMetadata \<Rightarrow> bool" where
  "metadata_wf m \<longleftrightarrow> md_Name m \<noteq> [] \<and> md_Provider m \<noteq> [] \<and> (\<exists>v. ParseVersion (md_Version m) = Inr v) \<and>
     (md_Namespace m = [] \<or> isValidNamespace (md_Namespace m))"

definition compiled_validation :: "(string \<Rightarrow> (string \<Rightarrow> bool) option) \<Rightarrow> ParameterValidation \<Rightarrow> ParameterValidation" where
  "compiled_validation compile v = (if val_Pattern v \<noteq> [] \<and> compile (val_Pattern v) \<noteq> None
     then v\<lparr>val_Regex := compile (val_Pattern v)\<rparr> else v)"

definition compiled_parameter :: "(string \<Rightarrow> (string \<Rightarrow> bool) option) \<Rightarrow> PackParameter \<Rightarrow> PackParameter" where
  "compiled_parameter compile p = (case par_Validation p of
     None \<Rightarrow> p | Some v \<Rightarrow> p\<lparr>par_Validation := Some (compiled_validation compile v)\<rparr>)"

lemma ParseVersion_Nil: "\<exists>e. ParseVersion [] = Inl e"
  by (simp add: ParseVersion_def)

lemma validate_metadata_ok: "validate_metadata m = [] \<longleftrightarrow> metadata_wf m"
  using ParseVersion_Nil by (auto simp: validate_metadata_def metadata_wf_def split: sum.splits)

lemma validate_queries_ok:
  "validate_queries_loop i seen qs es = [] \<longleftrightarrow>
     es = [] \<and> list_all query_wf qs \<and> distinct (map q_ID qs) \<and> set (map q_ID qs) \<inter> set seen = {}"
  by (induction i seen qs es rule: validate_queries_loop.induct) (auto simp: query_wf_def Let_def)

lemma validateParameterValidation_ok:
  "fst (validateParameterValidation compile v fld) = [] \<longleftrightarrow> validation_wf compile v"
  "snd (validateParameterValidation compile v fld) = compiled_validation compile v"
  by (auto simp: validateParameterValidation_def validation_wf_def compiled_validation_def Let_def split: option.splits)

lemma validate_rules_ok:
  "fst (validate_rules compile i p) = [] \<longleftrightarrow> (case par_Validation p of None \<Rightarrow> True | Some v \<Rightarrow> validation_wf compile v)"
  "snd (validate_rules compile i p) = compiled_parameter compile p"
  using validateParameterValidation_ok
  by (auto simp: validate_rules_def compiled_parameter_def case_prod_unfold split: option.splits)

lemma validate_params_ok:
  "fst (validate_params_loop compile i seen ps es out) = [] \<longleftrightarrow>
     es = [] \<and> list_all (parameter_wf compile) ps \<and> distinct (map par_Name ps) \<and> set (map par_Name ps) \<inter> set seen = {}"
  "snd (validate_params_loop compile i seen ps es out) = out @ map (compiled_parameter compile) ps"
proof (induction ps arbitrary: i seen es out)
  case (Cons p ps)
  {
    case 1
    show ?case by (auto simp: Cons Let_def parameter_wf_def validate_rules_ok case_prod_unfold)
  next
    case 2
    show ?case by (simp add: Cons Let_def validate_rules_ok case_prod_unfold)
  }
qed simp_all

lemma ValidatePack_fst: "fst (ValidatePack compile pack) = [] \<longleftrightarrow> metadata_wf (pk_Metadata pack) \<and>
     list_all query_wf (pk_Queries pack) \<and> distinct (map q_ID (pk_Queries pack)) \<and>
     list_all (parameter_wf compile) (pk_Parameters pack) \<and> distinct (map par_Name (pk_Parameters pack))"
  by (auto simp: ValidatePack_def case_prod_unfold validate_params_ok validate_queries_ok validate_metadata_ok)

lemma ValidatePack_snd: "snd (ValidatePack compile pack) = pack\<lparr>pk_Parameters := map (compiled_parameter compile) (pk_Parameters pack)\<rparr>"
  by (simp add: ValidatePack_def case_prod_unfold validate_params_ok)

text \<open>
  Validation reports no error exactly for well-formed packs: a name, a provider, a version that
  parses, a namespace of the form publisher/framework if any; queries with an identifier, a title, a
  file and a known severity, no two with one identifier; parameters with a name and a known type, no
  two with one name, whose rules are consistent and whose pattern compiles. The pack it hands on is
  the same but for the compiled patterns.
\<close>

lemma ValidatePack_wf:
  "(fst (ValidatePack compile pack) = [] \<longleftrightarrow> metadata_wf (pk_Metadata pack) \<and>
     list_all query_wf (pk_Queries pack) \<and> distinct (map q_ID (pk_Queries pack)) \<and>
     list_all (parameter_wf compile) (pk_Parameters pack) \<and> distinct (map par_Name (pk_Parameters pack))) \<and>
   snd (ValidatePack compile pack) = pack\<lparr>pk_Parameters := map (compiled_parameter compile) (pk_Parameters pack)\<rparr>"
  by (simp only: ValidatePack_fst ValidatePack_snd)

subsection \<open>Loading\<close>

definition qualified_name :: "QueryPack \<Rightarrow> string" where
  "qualified_name p = (if pk_Namespace p \<noteq> [] then pk_Namespace p @ ''/'' @ md_Name (pk_Metadata p) else md_Name (pk_Metadata p))"

lemma generatePackKey_eq: "generatePackKey p = qualified_name p @ '':'' @ md_Version (pk_Metadata p)"
  by (simp add: generatePackKey_def qualified_name_def)

lemma loadQueryFiles_sql: "loadQueryFiles env dir qs = Inr qs' \<Longrightarrow>
    map q_ID qs' = map q_ID qs \<and> (\<forall>q \<in> set qs'. q_QueryFile q = [] \<or>
      env_ReadFile env (filepath_Join [dir, q_QueryFile q]) = Inr (q_SQL q))"
proof (induction qs arbitrary: qs')
  case (Cons q qs)
  show ?case
  proof (cases "q_QueryFile q = []")
    case True
    with Cons.prems obtain rest where "loadQueryFiles env dir qs = Inr rest" "qs' = q # rest"
      by (cases "loadQueryFiles env dir qs") auto
    with True Cons.IH show ?thesis by auto
  next
    case False
    with Cons.prems obtain sql where r: "env_ReadFile env (filepath_Join [dir, q_QueryFile q]) = Inr sql"
      by (auto split: sum.splits)
    with False Cons.prems obtain rest where "loadQueryFiles env dir qs = Inr rest" "qs' = q\<lparr>q_SQL := sql\<rparr> # rest"
      by (cases "loadQueryFiles env dir qs") auto
    with r Cons.IH show ?thesis by auto
  qed
qed simp

lemma Registry_LoadPack_Inr:
  assumes "Registry_LoadPack env path r = (Inr pack, r')"
  obtains raw qs where "fst (ValidatePack (env_Compile env) raw) = []"
    "loadQueryFiles env (filepath_Dir path) (pk_Queries raw) = Inr qs"
    "pack = (snd (ValidatePack (env_Compile env) raw))\<lparr>pk_Queries := qs\<rparr>" "r' = register_pack pack r"
    "pk_LoadedFrom pack = path"
proof -
  from assms obtain data where 1: "env_ReadFile env path = Inr data"
    by (auto simp: Registry_LoadPack_def split: sum.splits)
  with assms obtain parsed where 2: "env_Unmarshal env data = Inr parsed"
    by (auto simp: Registry_LoadPack_def split: sum.splits)
  define raw where "raw = parsed\<lparr>pk_LoadedFrom := path, pk_LoadedAt := env_Now env,
     pk_Namespace := (if md_Namespace (pk_Metadata parsed) \<noteq> [] then md_Namespace (pk_Metadata parsed) else pk_Namespace parsed)\<rparr>"
  obtain es valid where v: "ValidatePack (env_Compile env) raw = (es, valid)" by fastforce
  have valid: "valid = raw\<lparr>pk_Parameters := map (compiled_parameter (env_Compile env)) (pk_Parameters raw)\<rparr>"
    using ValidatePack_snd[of "env_Compile env" raw] v by simp
  have es: "es = []" using assms 1 2 v by (simp add: Registry_LoadPack_def Let_def raw_def[symmetric] split: if_splits)
  with assms 1 2 v obtain qs where qs: "loadQueryFiles env (filepath_Dir path) (pk_Queries valid) = Inr qs"
    by (auto simp: Registry_LoadPack_def Let_def raw_def[symmetric] split: sum.splits)
  with assms 1 2 v es have p: "pack = valid\<lparr>pk_Queries := qs\<rparr>" "r' = register_pack pack r"
    by (auto simp: Registry_LoadPack_def Let_def raw_def[symmetric])
  show thesis
  proof (rule that[of raw qs])
    show "fst (ValidatePack (env_Compile env) raw) = []" using v es by simp
    show "loadQueryFiles env (filepath_Dir path) (pk_Queries raw) = Inr qs" using qs valid by simp
    show "pack = (snd (ValidatePack (env_Compile env) raw))\<lparr>pk_Queries := qs\<rparr>" using v p(1) by simp
    show "r' = register_pack pack r" by (rule p(2))
    show "pk_LoadedFrom pack = path" by (simp add: p(1) valid raw_def)
  qed
qed

text \<open>
  Loading is atomic and what was loaded is found. When \<open>LoadPack\<close> fails the registry is what it
  was. When it succeeds the pack is well-formed, every query has the content of its file, the pack is
  found under its qualified name and version whatever the order of the map, and every other key of
  the registry finds what it found before.
\<close>

lemma Registry_LoadPack_registers:
  "(case Registry_LoadPack env path r of
     (Inl err, r') \<Rightarrow> r' = r
   | (Inr pack, r') \<Rightarrow> metadata_wf (pk_Metadata pack) \<and> pk_LoadedFrom pack = path \<and>
       (\<forall>q \<in> set (pk_Queries pack). q_QueryFile q = [] \<or>
          env_ReadFile env (filepath_Join [filepath_Dir path, q_QueryFile q]) = Inr (q_SQL q)) \<and>
       GetPack order r' (qualified_name pack) (md_Version (pk_Metadata pack)) = Inr pack \<and>
       (\<forall>key. key \<noteq> generatePackKey pack \<longrightarrow> map_of (reg_packs r') key = map_of (reg_packs r) key))"
proof (cases "Registry_LoadPack env path r")
  case (Pair res r')
  show ?thesis
  proof (cases res)
    case (Inl err)
    with Pair have "r' = r"
      by (auto simp: Registry_LoadPack_def Let_def split: sum.splits if_splits prod.splits)
    with Pair Inl show ?thesis by simp
  next
    case (Inr pack)
    from Registry_LoadPack_Inr[OF Pair[unfolded Inr]] obtain raw qs where l: "fst (ValidatePack (env_Compile env) raw) = []"
      "loadQueryFiles env (filepath_Dir path) (pk_Queries raw) = Inr qs"
      "pack = (snd (ValidatePack (env_Compile env) raw))\<lparr>pk_Queries := qs\<rparr>" "r' = register_pack pack r"
      "pk_LoadedFrom pack = path" .
    have md: "pk_Metadata pack = pk_Metadata raw" using l(3) ValidatePack_snd by simp
    have wf: "metadata_wf (pk_Metadata pack)" using l(1) ValidatePack_fst md by simp
    then have ver: "md_Version (pk_Metadata pack) \<noteq> []" using ParseVersion_Nil by (auto simp: metadata_wf_def)
    have files: "\<forall>q \<in> set (pk_Queries pack). q_QueryFile q = [] \<or>
        env_ReadFile env (filepath_Join [filepath_Dir path, q_QueryFile q]) = Inr (q_SQL q)"
      using loadQueryFiles_sql[OF l(2)] l(3) by simp
    have "map_of (reg_packs r') (generatePackKey pack) = Some pack" by (simp add: l(4) register_pack_def update_conv')
    with ver have "GetPack order r' (qualified_name pack) (md_Version (pk_Metadata pack)) = Inr pack"
      by (simp add: GetPack_def generatePackKey_eq)
    moreover have "\<forall>key. key \<noteq> generatePackKey pack \<longrightarrow> map_of (reg_packs r') key = map_of (reg_packs r) key"
      by (simp add: l(4) register_pack_def update_conv')
    ultimately show ?thesis using Pair Inr wf files l(5) by simp
  qed
qed

text \<open>
  A parameter with both rules and an enumeration is checked against the rules only: a value outside
  the enumeration is accepted. A value compared with an enumerated list panics when it is a list.
\<close>

lemma enumeration_skipped:
  "par_Validation p = Some v \<Longrightarrow> type_check (par_Type p) x = None \<Longrightarrow> x \<noteq> VNil \<Longrightarrow> applyValidationRules p v x = None \<Longrightarrow>
     ValidateParameter p x = Some None"
  by (simp add: ValidateParameter_def)

lemma enumerated_list_panics:
  "par_Validation p = None \<Longrightarrow> par_Type p = ''list'' \<Longrightarrow> par_EnumValues p = [VList xs] \<Longrightarrow> ValidateParameter p (VList ys) = None"
  by (simp add: ValidateParameter_def type_check_def interface_eq_def)

subsection \<open>Witnesses\<close>

definition demo_version :: PackVersion where
  "demo_version = \<lparr>ver_Major = 1, ver_Minor = 20, ver_Patch = 3, ver_Prerelease = ''rc'', ver_Build = []\<rparr>"

lemma ParseVersion_String_witness:
  "ParseVersion ''1.20.3'' = Inr (demo_version\<lparr>ver_Prerelease := [], ver_Build := []\<rparr>)"
proof -
  have "PackVersion_String demo_version = ''1.20.3''" by code_simp
  with ParseVersion_String[of demo_version] show ?thesis by (simp add: demo_version_def in_int64_def)
qed

definition demo_metadata :: "string \<Rightarrow> PackMetadata" where
  "demo_metadata version = \<lparr>md_APIVersion = [], md_Kind = [], md_Name = ''base'', md_Namespace = ''cis/aws'', md_Version = version,
     md_Description = [], md_Author = [], md_Maintainers = [], md_Tags = [''s3''], md_Provider = ''aws'', md_Resources = [],
     md_Frameworks = [], md_MinEngineVersion = [], md_CreatedAt = 0, md_UpdatedAt = 0, md_Labels = Map.empty,
     md_Annotations = Map.empty\<rparr>"

definition demo_remediation :: RemediationInfo where
  "demo_remediation = \<lparr>rem_Description = [], rem_Steps = [], rem_Links = [], rem_TerraformModule = [], rem_TerraformCode = [],
     rem_Automated = False, rem_Complexity = [], rem_EstimatedTime = [], rem_Risks = [], rem_Prerequisites = [],
     rem_AdditionalInfo = Map.empty\<rparr>"

end
