(* ===== verification/Pack_Loader.thy ===== *)
theory Pack_Loader imports Pack Sha256 begin

text \<open>
  pkg/query/compliance/loader.go: the loader that finds a pack's manifest, loads the packs it depends
  on, reads its query files, validates it and caches what it read. Files, the packs embedded in the
  binary, the clock and the YAML parser are parameters, fixed during one load. Maps that are only
  looked up are partial functions. \<open>loading\<close> and \<open>loadPath\<close> are arguments and results of the recursion, as
  the map the code shares between calls and the slice it extends.
\<close>

subsection \<open>Data\<close>

record PackDependency =
  dep_Name :: string
  dep_Namespace :: string
  dep_Version :: string
  dep_Required :: bool

record QuerySpec =
  qs_ID :: string
  qs_Title :: string
  qs_Description :: string
  qs_Objective :: string
  qs_Severity :: string
  qs_Category :: string
  qs_ControlFamily :: string
  qs_NISTCSF :: string
  qs_Tags :: "string list"
  qs_QueryFile :: string
  qs_Parameters :: "string list"
  qs_DependsOn :: "string list"
  qs_Threats :: "string list"
  qs_Remediation :: RemediationInfo
  qs_Enabled :: bool

record PackSpec =
  sp_Queries :: "QuerySpec list"
  sp_Parameters :: "PackParameter list"
  sp_Includes :: "string list"
  sp_DependsOn :: "PackDependency list"
  sp_Resources :: "string list"

record PackManifest =
  mf_APIVersion :: string
  mf_Kind :: string
  mf_Metadata :: PackMetadata
  mf_Spec :: PackSpec
  mf_LoadedFrom :: string
  mf_LoadedAt :: timestamp

record CachedPack =
  cp_Pack :: QueryPack
  cp_LoadedAt :: timestamp
  cp_ModTime :: "timestamp option"
  cp_FileHash :: string
  cp_FilePath :: string
  cp_Dependencies :: "string list"

record PackLoader =
  pl_searchPaths :: "string list"
  pl_cache :: "string \<rightharpoonup> CachedPack"
  pl_dependencyGraph :: "string \<rightharpoonup> string list"
  pl_loadedPacks :: "string \<rightharpoonup> QueryPack"
  pl_manifestCache :: "string \<rightharpoonup> PackManifest"
  pl_sqlCache :: "string \<rightharpoonup> string"
  pl_enableEmbeddedPacks :: bool
  pl_cacheExpiry :: int

datatype file_error = NotExist | FileFailure string

datatype manifest_error = ManifestRead file_error | ManifestParse string

datatype find_error =
    LoadManifest string manifest_error
  | LoadEmbeddedManifest string manifest_error
  | ManifestNotFound string

text \<open>\<open>DependencyError\<close> is \<open>Circular\<close>; the others are \<open>LoaderError\<close> by their message.\<close>

datatype loader_error =
    Circular string "string list"
  | ChainTooDeep string "string list"
  | ManifestUnavailable string find_error
  | RequiredDependency string string loader_error
  | ConversionFailed string string string string file_error
  | ValidationFailed string string "ValidationError list"

record loader_env =
  lenv_ReadFile :: "string \<Rightarrow> file_error + string"
  lenv_Stat :: "string \<Rightarrow> timestamp option"
  lenv_Embedded :: "string \<Rightarrow> file_error + string"
  lenv_Unmarshal :: "string \<Rightarrow> string + PackManifest"
  lenv_Compile :: "string \<Rightarrow> (string \<Rightarrow> bool) option"
  lenv_Now :: timestamp

definition NewPackLoader :: "string \<Rightarrow> PackLoader" where
  "NewPackLoader homeDir = \<lparr>pl_searchPaths = [filepath_Join [homeDir, ''.corkscrew'', ''query-packs''],
       ''/etc/corkscrew/query-packs'', ''./query-packs''],
     pl_cache = Map.empty, pl_dependencyGraph = Map.empty, pl_loadedPacks = Map.empty,
     pl_manifestCache = Map.empty, pl_sqlCache = Map.empty,
     pl_enableEmbeddedPacks = True, pl_cacheExpiry = 30 * 60 * 10 ^ 9\<rparr>"

definition WithSearchPaths :: "string list \<Rightarrow> PackLoader \<Rightarrow> PackLoader" where
  "WithSearchPaths paths l = l\<lparr>pl_searchPaths := paths\<rparr>"

definition WithCacheExpiry :: "int \<Rightarrow> PackLoader \<Rightarrow> PackLoader" where
  "WithCacheExpiry duration l = l\<lparr>pl_cacheExpiry := duration\<rparr>"

definition WithEmbeddedPacks :: "bool \<Rightarrow> PackLoader \<Rightarrow> PackLoader" where
  "WithEmbeddedPacks enabled l = l\<lparr>pl_enableEmbeddedPacks := enabled\<rparr>"

subsection \<open>Finding a manifest\<close>

definition getManifestPath :: "string \<Rightarrow> string \<Rightarrow> string" where
  "getManifestPath searchPath namespace =
     filepath_Join ([searchPath] @ strings_Split namespace (CHR ''/'') @ [''manifest.yaml''])"

definition parsed_manifest :: "loader_env \<Rightarrow> string \<Rightarrow> file_error + string \<Rightarrow> manifest_error + PackManifest" where
  "parsed_manifest env path read = (case read of
     Inl err \<Rightarrow> Inl (ManifestRead err)
   | Inr data \<Rightarrow> (case lenv_Unmarshal env data of
       Inl err \<Rightarrow> Inl (ManifestParse err)
     | Inr manifest \<Rightarrow> Inr (manifest\<lparr>mf_LoadedFrom := path, mf_LoadedAt := lenv_Now env\<rparr>)))"

definition loadManifestFromFile :: "loader_env \<Rightarrow> string \<Rightarrow> manifest_error + PackManifest" where
  "loadManifestFromFile env path = parsed_manifest env path (lenv_ReadFile env path)"

definition loadManifestFromEmbedded :: "loader_env \<Rightarrow> string \<Rightarrow> manifest_error + PackManifest" where
  "loadManifestFromEmbedded env path = parsed_manifest env path (lenv_Embedded env path)"

fun search_loop :: "loader_env \<Rightarrow> string \<Rightarrow> string list \<Rightarrow> (find_error + PackManifest \<times> string) option" where
  "search_loop env namespace [] = None"
| "search_loop env namespace (searchPath # paths) =
     (let manifestPath = getManifestPath searchPath namespace in
      case loadManifestFromFile env manifestPath of
        Inr manifest \<Rightarrow> Some (Inr (manifest, manifestPath))
      | Inl err \<Rightarrow> if err \<noteq> ManifestRead NotExist then Some (Inl (LoadManifest manifestPath err))
          else search_loop env namespace paths)"

definition embedded_manifest :: "string \<Rightarrow> string" where
  "embedded_manifest namespace = ''packs/'' @ namespace @ ''/manifest.yaml''"

text \<open>The search without the manifest cache, and with it.\<close>

definition locate :: "loader_env \<Rightarrow> string list \<Rightarrow> bool \<Rightarrow> string \<Rightarrow> find_error + PackManifest \<times> string" where
  "locate env searchPaths embedded namespace = (case search_loop env namespace searchPaths of
     Some found \<Rightarrow> found
   | None \<Rightarrow> if embedded then (let embeddedPath = embedded_manifest namespace in
         case loadManifestFromEmbedded env embeddedPath of
           Inr manifest \<Rightarrow> Inr (manifest\<lparr>mf_LoadedFrom := embeddedPath\<rparr>, embeddedPath)
         | Inl err \<Rightarrow> if err \<noteq> ManifestRead NotExist then Inl (LoadEmbeddedManifest embeddedPath err)
             else Inl (ManifestNotFound namespace))
       else Inl (ManifestNotFound namespace))"

definition findPackManifest :: "loader_env \<Rightarrow> string \<Rightarrow> PackLoader \<Rightarrow> (find_error + PackManifest \<times> string) \<times> PackLoader" where
  "findPackManifest env namespace l = (case pl_manifestCache l namespace of
     Some manifest \<Rightarrow> (Inr (manifest, mf_LoadedFrom manifest), l)
   | None \<Rightarrow> (case locate env (pl_searchPaths l) (pl_enableEmbeddedPacks l) namespace of
       Inl err \<Rightarrow> (Inl err, l)
     | Inr (manifest, manifestPath) \<Rightarrow>
         (Inr (manifest, manifestPath), l\<lparr>pl_manifestCache := (pl_manifestCache l)(namespace \<mapsto> manifest)\<rparr>)))"

subsection \<open>From a manifest to a pack\<close>

definition embedded_path :: "string \<Rightarrow> bool" where
  "embedded_path p = strings_HasPrefix p ''packs/''"

definition read_source :: "loader_env \<Rightarrow> string \<Rightarrow> string \<Rightarrow> file_error + string" where
  "read_source env manifestPath sqlPath =
     (if embedded_path manifestPath then lenv_Embedded env sqlPath else lenv_ReadFile env sqlPath)"

definition loadSQLFile :: "loader_env \<Rightarrow> string \<Rightarrow> string \<Rightarrow> (string \<rightharpoonup> string) \<Rightarrow> (file_error + string) \<times> (string \<rightharpoonup> string)" where
  "loadSQLFile env queryFile manifestPath sqlCache =
     (let sqlPath = filepath_Join [filepath_Dir manifestPath, queryFile] in
      case sqlCache sqlPath of
        Some sql \<Rightarrow> (Inr sql, sqlCache)
      | None \<Rightarrow> (case read_source env manifestPath sqlPath of
          Inl err \<Rightarrow> (Inl err, sqlCache)
        | Inr data \<Rightarrow> (Inr data, sqlCache(sqlPath \<mapsto> data))))"

definition query_of_spec :: "QuerySpec \<Rightarrow> string \<Rightarrow> ComplianceQuery" where
  "query_of_spec s sql = \<lparr>q_ID = qs_ID s, q_Title = qs_Title s, q_Description = qs_Description s, q_Objective = qs_Objective s,
     q_Severity = qs_Severity s, q_Category = qs_Category s, q_ControlFamily = qs_ControlFamily s, q_NISTCSF = qs_NISTCSF s,
     q_Tags = qs_Tags s, q_QueryFile = qs_QueryFile s, q_SQL = sql, q_Parameters = qs_Parameters s, q_DependsOn = qs_DependsOn s,
     q_Threats = qs_Threats s, q_Remediation = qs_Remediation s, q_Enabled = qs_Enabled s\<rparr>"

fun convert_queries :: "loader_env \<Rightarrow> string \<Rightarrow> QuerySpec list \<Rightarrow> ComplianceQuery list \<Rightarrow> (string \<rightharpoonup> string) \<Rightarrow>
    ((string \<times> string \<times> file_error) + ComplianceQuery list) \<times> (string \<rightharpoonup> string)" where
  "convert_queries env manifestPath [] acc sqlCache = (Inr acc, sqlCache)"
| "convert_queries env manifestPath (s # ss) acc sqlCache =
     (if qs_QueryFile s \<noteq> [] then
        (case loadSQLFile env (qs_QueryFile s) manifestPath sqlCache of
           (Inl err, sqlCache) \<Rightarrow> (Inl (qs_QueryFile s, qs_ID s, err), sqlCache)
         | (Inr sql, sqlCache) \<Rightarrow> convert_queries env manifestPath ss (acc @ [query_of_spec s sql]) sqlCache)
      else convert_queries env manifestPath ss (acc @ [query_of_spec s []]) sqlCache)"

definition dependency_name :: "PackDependency \<Rightarrow> string" where
  "dependency_name d = (if dep_Namespace d \<noteq> [] then dep_Namespace d @ ''/'' @ dep_Name d else dep_Name d)"

definition manifest_pack :: "loader_env \<Rightarrow> PackManifest \<Rightarrow> string \<Rightarrow> ComplianceQuery list \<Rightarrow> QueryPack" where
  "manifest_pack env m manifestPath qs = \<lparr>pk_Metadata = mf_Metadata m, pk_Queries = qs, pk_Parameters = sp_Parameters (mf_Spec m),
     pk_Includes = sp_Includes (mf_Spec m), pk_DependsOn = map dependency_name (sp_DependsOn (mf_Spec m)),
     pk_Namespace = (if md_Namespace (mf_Metadata m) \<noteq> [] then md_Namespace (mf_Metadata m) else []),
     pk_LoadedFrom = manifestPath, pk_LoadedAt = lenv_Now env\<rparr>"

definition manifestToPack :: "loader_env \<Rightarrow> PackManifest \<Rightarrow> string \<Rightarrow> PackLoader \<Rightarrow>
    ((string \<times> string \<times> file_error) + QueryPack) \<times> PackLoader" where
  "manifestToPack env m manifestPath l =
     (case convert_queries env manifestPath (sp_Queries (mf_Spec m)) [] (pl_sqlCache l) of
        (Inl err, sqlCache) \<Rightarrow> (Inl err, l\<lparr>pl_sqlCache := sqlCache\<rparr>)
      | (Inr qs, sqlCache) \<Rightarrow> (Inr (manifest_pack env m manifestPath qs), l\<lparr>pl_sqlCache := sqlCache\<rparr>))"

subsection \<open>The cache of loaded packs\<close>

definition cachePack :: "loader_env \<Rightarrow> string \<Rightarrow> QueryPack \<Rightarrow> string \<Rightarrow> QueryPack list \<Rightarrow> PackLoader \<Rightarrow> PackLoader" where
  "cachePack env namespace pack manifestPath dependencies l =
     (let modTime = (if embedded_path manifestPath then None else lenv_Stat env manifestPath);
          fileHash = (if modTime = None then []
            else (case lenv_ReadFile env manifestPath of Inr data \<Rightarrow> sha256_hex data | Inl _ \<Rightarrow> []));
          depNames = map pk_Namespace dependencies
      in l\<lparr>pl_cache := (pl_cache l)(namespace \<mapsto> \<lparr>cp_Pack = pack, cp_LoadedAt = lenv_Now env, cp_ModTime = modTime,
             cp_FileHash = fileHash, cp_FilePath = manifestPath, cp_Dependencies = depNames\<rparr>),
           pl_loadedPacks := (pl_loadedPacks l)(namespace \<mapsto> pack),
           pl_dependencyGraph := (pl_dependencyGraph l)(namespace \<mapsto> depNames)\<rparr>)"

definition isCacheValid :: "loader_env \<Rightarrow> string \<Rightarrow> PackLoader \<Rightarrow> bool" where
  "isCacheValid env namespace l = (case pl_cache l namespace of
     None \<Rightarrow> False
   | Some cached \<Rightarrow>
       if lenv_Now env - cp_LoadedAt cached > pl_cacheExpiry l then False
       else if \<not> embedded_path (cp_FilePath cached) then (case lenv_Stat env (cp_FilePath cached) of
           None \<Rightarrow> True
         | Some modTime \<Rightarrow>
             if cp_ModTime cached \<noteq> Some modTime then False
             else (case lenv_ReadFile env (cp_FilePath cached) of
                 Inr data \<Rightarrow> sha256_hex data = cp_FileHash cached
               | Inl _ \<Rightarrow> True))
       else True)"

definition InvalidateCache :: "string \<Rightarrow> PackLoader \<Rightarrow> PackLoader" where
  "InvalidateCache namespace l =
     (if namespace = [] then l\<lparr>pl_cache := Map.empty, pl_loadedPacks := Map.empty, pl_manifestCache := Map.empty,
        pl_sqlCache := Map.empty, pl_dependencyGraph := Map.empty\<rparr>
      else l\<lparr>pl_cache := (pl_cache l)(namespace := None), pl_loadedPacks := (pl_loadedPacks l)(namespace := None),
        pl_manifestCache := (pl_manifestCache l)(namespace := None),
        pl_dependencyGraph := (pl_dependencyGraph l)(namespace := None),
        pl_sqlCache := (\<lambda>path. if strings_Contains path namespace then None else pl_sqlCache l path)\<rparr>)"

subsection \<open>Loading with dependencies\<close>

definition packDepthMax :: nat where
  "packDepthMax = 32"

definition dependency_namespace :: "PackDependency \<Rightarrow> string" where
  "dependency_namespace d = (if dep_Namespace d = [] then dep_Name d else dep_Namespace d)"

text \<open>From the conversion of the manifest to the end of \<open>loadPackInternal\<close>.\<close>

definition finish_load :: "loader_env \<Rightarrow> string \<Rightarrow> PackManifest \<Rightarrow> string \<Rightarrow> QueryPack list \<Rightarrow> PackLoader \<Rightarrow>
    (loader_error + QueryPack) \<times> PackLoader" where
  "finish_load env namespace m manifestPath loadedDependencies l =
     (case manifestToPack env m manifestPath l of
        (Inl (queryFile, queryID, err), l) \<Rightarrow> (Inl (ConversionFailed namespace manifestPath queryFile queryID err), l)
      | (Inr pack, l) \<Rightarrow> (case ValidatePack (lenv_Compile env) pack of (es, pack) \<Rightarrow>
          if es \<noteq> [] then (Inl (ValidationFailed namespace manifestPath es), l)
          else (Inr pack, cachePack env namespace pack manifestPath loadedDependencies l)))"

function loadPackInternal :: "loader_env \<Rightarrow> string \<Rightarrow> string list \<Rightarrow> string list \<Rightarrow> PackLoader \<Rightarrow>
    ((loader_error + QueryPack) \<times> string list \<times> PackLoader) panics"
and load_dependencies :: "loader_env \<Rightarrow> string \<Rightarrow> PackDependency list \<Rightarrow> string list \<Rightarrow> string list \<Rightarrow> QueryPack list \<Rightarrow> PackLoader \<Rightarrow>
    ((loader_error + QueryPack list) \<times> string list \<times> PackLoader) panics" where
  "loadPackInternal env namespace loading loadPath l = do {
     assert_That (length loadPath \<le> packDepthMax);
     if namespace \<in> set loading then Some (Inl (Circular namespace (loadPath @ [namespace])), loading, l)
     else if length loadPath \<ge> packDepthMax then Some (Inl (ChainTooDeep namespace (loadPath @ [namespace])), loading, l)
     else if pl_loadedPacks l namespace \<noteq> None \<and> isCacheValid env namespace l
     then Some (Inr (the (pl_loadedPacks l namespace)), loading, l)
     else do {
       assert_That (length (loadPath @ [namespace]) \<le> packDepthMax);
       (case findPackManifest env namespace l of
          (Inl err, l) \<Rightarrow> Some (Inl (ManifestUnavailable namespace err), removeAll namespace (namespace # loading), l)
        | (Inr (manifest, manifestPath), l) \<Rightarrow> do {
            (deps, loading, l) \<leftarrow> load_dependencies env namespace (sp_DependsOn (mf_Spec manifest)) (namespace # loading)
              (loadPath @ [namespace]) [] l;
            (case deps of
               Inl err \<Rightarrow> Some (Inl err, removeAll namespace loading, l)
             | Inr loadedDependencies \<Rightarrow>
                 (case finish_load env namespace manifest manifestPath loadedDependencies l of
                    (res, l) \<Rightarrow> Some (res, removeAll namespace loading, l)))
          })
     }
   }"
| "load_dependencies env namespace [] loading loadPath acc l = Some (Inr acc, loading, l)"
| "load_dependencies env namespace (dep # deps) loading loadPath acc l = do {
     (res, loading, l) \<leftarrow> loadPackInternal env (dependency_namespace dep) loading loadPath l;
     (case res of
        Inl err \<Rightarrow> if dep_Required dep then Some (Inl (RequiredDependency namespace (dependency_namespace dep) err), loading, l)
          else load_dependencies env namespace deps loading loadPath acc l
      | Inr depPack \<Rightarrow> load_dependencies env namespace deps loading loadPath (acc @ [depPack]) l)
   }"
  by pat_completeness auto
termination
  by (relation "measures [case_sum (\<lambda>(_, _, _, p, _). 33 - length p) (\<lambda>(_, _, _, _, p, _, _). 33 - length p),
      case_sum (\<lambda>_. 0) (\<lambda>(_, _, ds, _, _, _, _). Suc (length ds))]") (auto simp: packDepthMax_def)

declare loadPackInternal.simps [simp del]

definition LoadPack :: "loader_env \<Rightarrow> string \<Rightarrow> PackLoader \<Rightarrow> ((loader_error + QueryPack) \<times> PackLoader) panics" where
  "LoadPack env namespace l = do {
     (res, _, l) \<leftarrow> loadPackInternal env namespace [] [] l;
     Some (res, l)
   }"

subsection \<open>Discovery and manifest validation\<close>

text \<open>
  What a walk over a directory visits without an error: each path and whether it is a directory. A
  search path that does not exist has no walk.
\<close>

type_synonym dir_walk = "string \<Rightarrow> (string \<times> bool) list option"

definition manifest_entry :: "string \<times> bool \<Rightarrow> bool" where
  "manifest_entry e \<longleftrightarrow> \<not> snd e \<and> path_Base (fst e) = ''manifest.yaml''"

definition discoverFromPath :: "dir_walk \<Rightarrow> string \<Rightarrow> string list" where
  "discoverFromPath walk_dir searchPath = (case walk_dir searchPath of
     None \<Rightarrow> []
   | Some entries \<Rightarrow> filter (\<lambda>namespace. namespace \<noteq> ''.'')
       (map (\<lambda>e. filepath_Rel searchPath (filepath_Dir (fst e))) (filter manifest_entry entries)))"

definition discoverFromEmbedded :: "(string \<times> bool) list \<Rightarrow> string list" where
  "discoverFromEmbedded entries = filter (\<lambda>relPath. relPath \<noteq> [] \<and> relPath \<noteq> ''.'')
     (map (\<lambda>e. strings_TrimPrefix (filepath_Dir (fst e)) ''packs/'') (filter manifest_entry entries))"

definition DiscoverPacks :: "dir_walk \<Rightarrow> (string \<times> bool) list \<Rightarrow> PackLoader \<Rightarrow> string list" where
  "DiscoverPacks walk_dir embedded l = sort (dedupe_by id []
     (concat (map (discoverFromPath walk_dir) (pl_searchPaths l)) @
      (if pl_enableEmbeddedPacks l then discoverFromEmbedded embedded else [])))"

definition spec_error :: "nat \<Rightarrow> string \<Rightarrow> string" where
  "spec_error i msg = ''spec.queries['' @ strconv_Itoa (int i) @ '']'' @ msg"

fun validate_specs_loop :: "nat \<Rightarrow> string list \<Rightarrow> QuerySpec list \<Rightarrow> string option" where
  "validate_specs_loop i seen [] = None"
| "validate_specs_loop i seen (q # qs) =
     (if qs_ID q = [] then Some (spec_error i ''.id is required'')
      else if qs_ID q \<in> set seen then Some (spec_error i (''.id '' @ qs_ID q @ '' is duplicate''))
      else if qs_Title q = [] then Some (spec_error i ''.title is required'')
      else if qs_QueryFile q = [] then Some (spec_error i ''.query_file is required'')
      else if \<not> isValidSeverity (qs_Severity q) then Some (spec_error i (''.severity '' @ qs_Severity q @ '' is invalid''))
      else validate_specs_loop (i + 1) (qs_ID q # seen) qs)"

definition ValidateManifest :: "PackManifest \<Rightarrow> string option" where
  "ValidateManifest m =
     (if mf_APIVersion m = [] then Some ''apiVersion is required''
      else if mf_Kind m \<noteq> ''QueryPack'' then Some ''kind must be QueryPack''
      else if md_Name (mf_Metadata m) = [] then Some ''metadata.name is required''
      else if md_Version (mf_Metadata m) = [] then Some ''metadata.version is required''
      else if md_Provider (mf_Metadata m) = [] then Some ''metadata.provider is required''
      else (case ParseVersion (md_Version (mf_Metadata m)) of
          Inl err \<Rightarrow> Some (''invalid version format: '' @ err)
        | Inr _ \<Rightarrow> validate_specs_loop 0 [] (sp_Queries (mf_Spec m))))"


subsection \<open>Which root a query file is read from\<close>

lemma IsAbs_simps [simp]: "\<not> filepath_IsAbs []" "filepath_IsAbs (c # cs) \<longleftrightarrow> c = CHR ''/''"
  by (auto simp: filepath_IsAbs_def)

lemma IsAbs_append: "d \<noteq> [] \<Longrightarrow> filepath_IsAbs (d @ e) = filepath_IsAbs d"
  by (cases d) auto

lemma clean_loop_set: "x \<in> set (clean_loop r st cs) \<Longrightarrow> x \<in> set st \<or> (x \<in> set cs \<and> x \<noteq> [])"
  by (induction r st cs rule: clean_loop.induct) (auto split: if_splits dest: in_set_butlastD)

lemma Join_head: "\<forall>c \<in> set cs. c \<noteq> [] \<and> CHR ''/'' \<notin> set c \<Longrightarrow> cs \<noteq> [] \<Longrightarrow>
    strings_Join cs ''/'' \<noteq> [] \<and> \<not> filepath_IsAbs (strings_Join cs ''/'')"
  by (cases cs; cases "tl cs"; cases "hd cs") auto

lemma clean_relative:
  "\<forall>c \<in> set (clean_loop False [] (strings_Split p (CHR ''/''))). c \<noteq> [] \<and> CHR ''/'' \<notin> set c"
  using clean_loop_set[of _ False "[]" "strings_Split p (CHR ''/'')"] Split_no_sep[of _ p "CHR ''/''"] by auto

lemma Clean_shape: "filepath_Clean p \<noteq> [] \<and> filepath_IsAbs (filepath_Clean p) = filepath_IsAbs p"
proof (cases "filepath_IsAbs p")
  case True
  then show ?thesis by (simp add: filepath_Clean_def Let_def)
next
  case False
  then show ?thesis
    using Join_head[OF clean_relative[of p]]
    by (cases "clean_loop False [] (strings_Split p (CHR ''/'')) = []") (simp_all add: filepath_Clean_def Let_def)
qed

lemma IsAbs_Clean [simp]: "filepath_IsAbs (filepath_Clean p) = filepath_IsAbs p"
  using Clean_shape by blast

lemma Clean_not_Nil [simp]: "filepath_Clean p \<noteq> []"
  using Clean_shape by blast

lemma IsAbs_Dir [simp]: "filepath_IsAbs (filepath_Dir p) = filepath_IsAbs p"
proof -
  define d where "d = rev (dropWhile (\<lambda>c. c \<noteq> CHR ''/'') (rev p))"
  have "prefix d p" unfolding d_def by (metis rev_rev_ident suffix_dropWhile suffix_to_prefix)
  then obtain e where e: "p = d @ e" by (auto simp: prefix_def)
  have "d = [] \<Longrightarrow> CHR ''/'' \<notin> set p" by (auto simp: d_def dropWhile_eq_Nil_conv)
  then have "filepath_IsAbs d = filepath_IsAbs p"
    using e by (cases "d = []"; cases p) (auto simp: IsAbs_append)
  then show ?thesis by (simp add: filepath_Dir_def d_def)
qed

lemma Dir_not_Nil [simp]: "filepath_Dir p \<noteq> []"
  by (simp add: filepath_Dir_def)

lemma IsAbs_Join2:
  assumes "d \<noteq> []"
  shows "filepath_IsAbs (filepath_Join [d, e]) = filepath_IsAbs d"
proof -
  have "filepath_Join [d, e] = filepath_Clean (d @ ''/'' @ e)" using assms by (simp add: filepath_Join_def)
  then show ?thesis using assms by (simp add: IsAbs_append)
qed

lemma IsAbs_sqlPath: "filepath_IsAbs (filepath_Join [filepath_Dir manifestPath, queryFile]) = filepath_IsAbs manifestPath"
  by (simp add: IsAbs_Join2)

lemma abs_not_embedded: "filepath_IsAbs p \<Longrightarrow> \<not> embedded_path p"
  by (cases p) (auto simp: embedded_path_def)

lemma parsed_manifest_from: "parsed_manifest env p r = Inr m \<Longrightarrow> mf_LoadedFrom m = p"
  by (auto simp: parsed_manifest_def split: sum.splits)

lemma search_loop_from:
  "search_loop env ns paths = Some (Inr (m, p)) \<Longrightarrow> mf_LoadedFrom m = p \<and> (\<exists>sp \<in> set paths. p = getManifestPath sp ns)"
  by (induction paths) (auto simp: Let_def loadManifestFromFile_def split: sum.splits if_splits dest: parsed_manifest_from)

lemma locate_from:
  assumes "locate env paths emb ns = Inr (m, p)"
  shows "mf_LoadedFrom m = p \<and> ((\<exists>sp \<in> set paths. p = getManifestPath sp ns) \<or> p = embedded_manifest ns)"
  using assms search_loop_from[of env ns paths m p]
  by (auto simp: locate_def Let_def split: option.splits sum.splits if_splits)

text \<open>
  The texts of queries are cached by path alone, but the same path may name a file on disk and another in the
  binary. The cache is right as long as no pack found on disk and no embedded one read the same path.
\<close>

definition query_path :: "string \<Rightarrow> QuerySpec \<Rightarrow> string" where
  "query_path manifestPath s = filepath_Join [filepath_Dir manifestPath, qs_QueryFile s]"

definition sources_apart :: "loader_env \<Rightarrow> string list \<Rightarrow> bool \<Rightarrow> bool" where
  "sources_apart env paths emb \<longleftrightarrow> (\<forall>ns m p s ns' m' p' s'. locate env paths emb ns = Inr (m, p) \<and> s \<in> set (sp_Queries (mf_Spec m)) \<and>
     locate env paths emb ns' = Inr (m', p') \<and> s' \<in> set (sp_Queries (mf_Spec m')) \<and> query_path p s = query_path p' s' \<longrightarrow>
     (embedded_path p \<longleftrightarrow> embedded_path p'))"

text \<open>Packs searched for in absolute directories are apart from the embedded ones.\<close>

lemma absolute_sources_apart:
  assumes "list_all filepath_IsAbs paths"
  shows "sources_apart env paths emb"
proof -
  have "filepath_IsAbs (query_path p s) \<longleftrightarrow> \<not> embedded_path p" if "locate env paths emb ns = Inr (m, p)" for ns m p s
  proof -
    have "filepath_IsAbs p \<longleftrightarrow> \<not> embedded_path p"
      using locate_from[OF that] assms Join_abs_clean abs_not_embedded[of p]
      by (auto simp: getManifestPath_def list_all_iff embedded_manifest_def embedded_path_def)
    then show ?thesis by (simp add: query_path_def IsAbs_sqlPath)
  qed
  then show ?thesis unfolding sources_apart_def by metis
qed

text \<open>So are those in a relative directory other than \<open>packs\<close>, if no namespace and no query file climbs out of its pack.\<close>

definition climbs :: "string \<Rightarrow> bool" where
  "climbs p \<longleftrightarrow> ''..'' \<in> set (strings_Split p (CHR ''/''))"

definition proper_comp :: "string \<Rightarrow> bool" where
  "proper_comp c \<longleftrightarrow> c \<noteq> [] \<and> c \<noteq> ''.''"

definition apart_path :: "string \<Rightarrow> bool" where
  "apart_path sp \<longleftrightarrow> filepath_IsAbs sp \<or> \<not> climbs sp \<and>
     (case filter proper_comp (strings_Split sp (CHR ''/'')) of [] \<Rightarrow> False | dir # rest \<Rightarrow> dir \<noteq> ''packs'')"

lemma clean_loop_level: "''..'' \<notin> set cs \<Longrightarrow> clean_loop r st cs = st @ filter proper_comp cs"
  by (induction r st cs rule: clean_loop.induct) (auto simp: proper_comp_def)

text \<open>A relative path that does not climb, cleaned, starts with its first proper component.\<close>

lemma Clean_level:
  assumes "\<not> filepath_IsAbs p" "\<not> climbs p" "filter proper_comp (strings_Split p (CHR ''/'')) = dir # rest"
  shows "filepath_Clean p = strings_Join (dir # rest) ''/''"
  using assms clean_loop_level[of "strings_Split p (CHR ''/'')" False "[]"] by (simp add: filepath_Clean_def climbs_def Let_def)

lemma climbs_append [simp]: "climbs (p @ CHR ''/'' # q) \<longleftrightarrow> climbs p \<or> climbs q"
  by (simp add: climbs_def Split_append)

text \<open>\<open>under dir p\<close>: the path lies below the directory \<open>dir\<close>.\<close>

definition under :: "string \<Rightarrow> string \<Rightarrow> bool" where
  "under dir p \<longleftrightarrow> proper_comp dir \<and> CHR ''/'' \<notin> set dir \<and> (\<exists>r. p = dir @ CHR ''/'' # r \<and> \<not> climbs p)"

lemma Split_single: "CHR ''/'' \<notin> set c \<Longrightarrow> strings_Split c (CHR ''/'') = [c]"
  using Split_Join[of "[c]" "CHR ''/''"] by simp

lemma Join_slashless: "CHR ''/'' \<notin> set dir \<Longrightarrow> \<forall>c \<in> set cs. CHR ''/'' \<notin> set c \<Longrightarrow>
    strings_Split (strings_Join (dir # cs) ''/'') (CHR ''/'') = dir # cs"
  by (rule Split_Join) auto

lemma under_Join:
  assumes "proper_comp dir" "\<forall>c \<in> set (dir # cs). CHR ''/'' \<notin> set c" "''..'' \<notin> set (dir # cs)" "cs \<noteq> []"
  shows "under dir (strings_Join (dir # cs) ''/'')"
proof -
  have "strings_Join (dir # cs) ''/'' = dir @ CHR ''/'' # strings_Join cs ''/''" using assms(4) by (simp add: strings_Join_Cons)
  moreover have "\<not> climbs (strings_Join (dir # cs) ''/'')"
    using assms(2,3) Join_slashless[of dir cs] by (simp only: climbs_def) simp
  ultimately show ?thesis using assms(1,2) unfolding under_def by simp
qed

lemma under_Split:
  assumes "under dir p"
  shows "\<exists>cs. strings_Split p (CHR ''/'') = dir # cs \<and> cs \<noteq> [] \<and> ''..'' \<notin> set (dir # cs) \<and> \<not> filepath_IsAbs p"
proof -
  obtain r where r: "p = dir @ CHR ''/'' # r" "CHR ''/'' \<notin> set dir" "\<not> climbs p" "dir \<noteq> []"
    using assms by (auto simp: under_def proper_comp_def)
  then have s: "strings_Split p (CHR ''/'') = dir # strings_Split r (CHR ''/'')" by (simp add: Split_append Split_single)
  have "\<not> filepath_IsAbs p" using r(1,2,4) by (cases dir) auto
  then show ?thesis using s r(3) by (auto simp: climbs_def)
qed

text \<open>The directory of a path below \<open>dir\<close>, and a name in it that does not climb, are below it too.\<close>

lemma Dir_under:
  assumes "under dir p"
  shows "\<exists>cs. filepath_Dir p = strings_Join (dir # cs) ''/'' \<and> ''..'' \<notin> set (dir # cs) \<and> (\<forall>c \<in> set cs. proper_comp c \<and> CHR ''/'' \<notin> set c)"
proof -
  obtain cs where s: "strings_Split p (CHR ''/'') = dir # cs" "cs \<noteq> []" "''..'' \<notin> set (dir # cs)" "\<not> filepath_IsAbs p"
    using under_Split[OF assms] by blast
  have proper: "proper_comp dir" "CHR ''/'' \<in> set p" using assms by (auto simp: under_def)
  then obtain d e where de: "p = d @ CHR ''/'' # e" "CHR ''/'' \<notin> set e" using split_list_last by metis
  have parent: "filepath_Dir p = filepath_Clean (d @ ''/'')"
  proof -
    have "dropWhile (\<lambda>c. c \<noteq> CHR ''/'') (rev e @ CHR ''/'' # rev d) = CHR ''/'' # rev d"
      using de(2) by (subst dropWhile_append2) auto
    then show ?thesis by (simp add: filepath_Dir_def de(1))
  qed
  have "strings_Split d (CHR ''/'') @ [e] = dir # cs" using s(1) de by (simp add: Split_append Split_single)
  then have d: "strings_Split d (CHR ''/'') = dir # butlast cs" using s(2) by (metis butlast.simps(2) butlast_snoc)
  have sd: "strings_Split (d @ ''/'') (CHR ''/'') = dir # butlast cs @ [[]]" using d Split_append[of d "CHR ''/''" "[]"] by simp
  have up: "''..'' \<notin> set (butlast cs)" using s(3) by (auto dest: in_set_butlastD)
  have "\<not> climbs (d @ ''/'')" unfolding climbs_def sd using s(3) up by simp
  moreover have "\<not> filepath_IsAbs (d @ ''/'')"
  proof -
    have "d \<noteq> []" using s(4) de by auto
    then show ?thesis using s(4) de(1) by (simp add: IsAbs_append)
  qed
  moreover have "filter proper_comp (strings_Split (d @ ''/'') (CHR ''/'')) = dir # filter proper_comp (butlast cs)"
    using proper(1) unfolding sd by (simp add: proper_comp_def)
  ultimately have "filepath_Dir p = strings_Join (dir # filter proper_comp (butlast cs)) ''/''"
    unfolding parent by (intro Clean_level)
  moreover have "CHR ''/'' \<notin> set c" if "c \<in> set cs" for c using Split_no_sep[of c p "CHR ''/''"] s(1) that by simp
  ultimately show ?thesis using s(3) up by (intro exI[of _ "filter proper_comp (butlast cs)"]) (auto dest: in_set_butlastD)
qed

lemma query_under:
  assumes "under dir p" "\<not> climbs (qs_QueryFile s)"
  shows "\<exists>cs. query_path p s = strings_Join (dir # cs) ''/'' \<and> (\<forall>c \<in> set cs. CHR ''/'' \<notin> set c)"
proof -
  obtain cs where cs: "filepath_Dir p = strings_Join (dir # cs) ''/''" "''..'' \<notin> set (dir # cs)"
      "\<forall>c \<in> set cs. proper_comp c \<and> CHR ''/'' \<notin> set c"
    using Dir_under[OF assms(1)] by blast
  have proper: "proper_comp dir" "CHR ''/'' \<notin> set dir" using assms(1) by (auto simp: under_def)
  let ?d = "strings_Join (dir # cs) ''/''" and ?q = "qs_QueryFile s"
  have sd: "strings_Split ?d (CHR ''/'') = dir # cs" using proper(2) cs(3) by (intro Join_slashless) auto
  have q: "query_path p s = filepath_Clean (?d @ CHR ''/'' # ?q)"
    using Dir_not_Nil[of p] unfolding query_path_def cs(1) by (simp add: filepath_Join_def)
  have "\<not> filepath_IsAbs (?d @ CHR ''/'' # ?q)"
    using Dir_not_Nil[of p] IsAbs_Dir[of p] under_Split[OF assms(1)] unfolding cs(1) by (auto simp: IsAbs_append)
  moreover have "\<not> climbs (?d @ CHR ''/'' # ?q)" using assms(2) cs(2) unfolding climbs_append by (simp add: climbs_def sd)
  moreover have "filter proper_comp (strings_Split (?d @ CHR ''/'' # ?q) (CHR ''/'')) =
      dir # cs @ filter proper_comp (strings_Split ?q (CHR ''/''))"
    using proper(1) cs(3) unfolding Split_append sd by (simp add: filter_id_conv)
  ultimately have "query_path p s = strings_Join (dir # cs @ filter proper_comp (strings_Split ?q (CHR ''/''))) ''/''"
    unfolding q by (rule Clean_level)
  moreover have "CHR ''/'' \<notin> set c" if "c \<in> set (strings_Split ?q (CHR ''/''))" for c using Split_no_sep[OF that] .
  ultimately show ?thesis using cs(3) by (intro exI[of _ "cs @ filter proper_comp (strings_Split ?q (CHR ''/''))"]) auto
qed

lemma manifest_under:
  assumes "apart_path sp" "\<not> filepath_IsAbs sp" "\<not> climbs ns"
  shows "\<exists>dir. dir \<noteq> ''packs'' \<and> under dir (getManifestPath sp ns)"
proof -
  obtain dir rest where sp: "\<not> climbs sp" "filter proper_comp (strings_Split sp (CHR ''/'')) = dir # rest" "dir \<noteq> ''packs''"
    using assms(1,2) by (auto simp: apart_path_def split: list.splits)
  have ne: "sp \<noteq> []" using sp(2) by (auto simp: proper_comp_def split: if_splits)
  have mf: "strings_Split ''manifest.yaml'' (CHR ''/'') = [''manifest.yaml'']" by (rule Split_single) simp
  have "strings_Join (strings_Split ns (CHR ''/'') @ [''manifest.yaml'']) ''/'' = ns @ ''/manifest.yaml''"
    by (subst strings_Join_snoc) simp_all
  then have g: "getManifestPath sp ns = filepath_Clean (sp @ CHR ''/'' # ns @ CHR ''/'' # ''manifest.yaml'')"
    using ne by (simp add: getManifestPath_def filepath_Join_def strings_Join_Cons)
  let ?cs = "rest @ filter proper_comp (strings_Split ns (CHR ''/'')) @ [''manifest.yaml'']"
  have "filter proper_comp (strings_Split (sp @ CHR ''/'' # ns @ CHR ''/'' # ''manifest.yaml'') (CHR ''/'')) = dir # ?cs"
    using sp(2) unfolding Split_append mf by (simp add: proper_comp_def)
  moreover have "\<not> climbs (sp @ CHR ''/'' # ns @ CHR ''/'' # ''manifest.yaml'')"
    using sp(1) assms(3) mf by (simp only: climbs_append) (simp add: climbs_def)
  ultimately have e: "getManifestPath sp ns = strings_Join (dir # ?cs) ''/''"
    unfolding g using assms(2) ne by (intro Clean_level) (simp_all add: IsAbs_append)
  have t: "c \<in> set (strings_Split sp (CHR ''/'')) \<and> proper_comp c" if "c \<in> set (dir # rest)" for c
  proof -
    have "c \<in> set (filter proper_comp (strings_Split sp (CHR ''/'')))" using that unfolding sp(2) .
    then show ?thesis by simp
  qed
  then have "\<forall>c \<in> set (dir # rest). CHR ''/'' \<notin> set c \<and> c \<noteq> ''..''" using sp(1) Split_no_sep by (metis climbs_def)
  moreover have "\<forall>c \<in> set (strings_Split ns (CHR ''/'')). CHR ''/'' \<notin> set c \<and> c \<noteq> ''..''" using assms(3) Split_no_sep by (metis climbs_def)
  ultimately have "under dir (strings_Join (dir # ?cs) ''/'')" using t by (intro under_Join) auto
  with e sp(3) show ?thesis by auto
qed

lemma under_not_embedded: "under dir p \<Longrightarrow> embedded_path p \<Longrightarrow> dir = ''packs''"
proof -
  assume "under dir p" "embedded_path p"
  then obtain r z where "CHR ''/'' \<notin> set dir" "p = dir @ CHR ''/'' # r" "p = ''packs'' @ CHR ''/'' # z"
    by (auto simp: under_def embedded_path_def prefix_def)
  moreover have "takeWhile (\<lambda>c. c \<noteq> CHR ''/'') (x @ CHR ''/'' # y) = x" if "CHR ''/'' \<notin> set x" for x y :: string
    using that by (subst takeWhile_append2) auto
  moreover have "CHR ''/'' \<notin> set ''packs''" by simp
  ultimately show ?thesis by metis
qed

lemma level_sources_apart:
  assumes "list_all apart_path paths"
    and "\<And>ns m p. locate env paths emb ns = Inr (m, p) \<Longrightarrow> \<not> climbs ns \<and> list_all (\<lambda>s. \<not> climbs (qs_QueryFile s)) (sp_Queries (mf_Spec m))"
  shows "sources_apart env paths emb"
proof -
  have place: "filepath_IsAbs (query_path p s) \<and> \<not> embedded_path p \<or>
      (\<exists>dir cs. query_path p s = strings_Join (dir # cs) ''/'' \<and> (\<forall>c \<in> set (dir # cs). CHR ''/'' \<notin> set c) \<and>
        \<not> filepath_IsAbs (query_path p s) \<and> (embedded_path p \<longleftrightarrow> dir = ''packs''))"
    if l: "locate env paths emb ns = Inr (m, p)" and s: "s \<in> set (sp_Queries (mf_Spec m))" for ns m p s
  proof (cases "filepath_IsAbs p")
    case True
    then show ?thesis using abs_not_embedded by (simp add: query_path_def IsAbs_sqlPath)
  next
    case rel: False
    have lev: "\<not> climbs ns" "\<not> climbs (qs_QueryFile s)" using assms(2)[OF l] s by (auto simp: list_all_iff)
    have "\<exists>dir. under dir p \<and> (embedded_path p \<longleftrightarrow> dir = ''packs'')"
      using conjunct2[OF locate_from[OF l]]
    proof
      assume "\<exists>sp \<in> set paths. p = getManifestPath sp ns"
      then obtain sp where sp: "sp \<in> set paths" "p = getManifestPath sp ns" by blast
      have "\<not> filepath_IsAbs sp" using rel sp(2) Join_abs_clean[of sp] by (auto simp: getManifestPath_def)
      moreover have "apart_path sp" using assms(1) sp(1) by (simp add: list_all_iff)
      ultimately obtain dir where "dir \<noteq> ''packs''" "under dir p" using manifest_under[OF _ _ lev(1)] sp(2) by blast
      then show ?thesis using under_not_embedded by blast
    next
      assume p: "p = embedded_manifest ns"
      then have e: "p = ''packs'' @ CHR ''/'' # ns @ CHR ''/'' # ''manifest.yaml''" by (simp add: embedded_manifest_def)
      have "\<not> climbs ''packs''" "\<not> climbs ''manifest.yaml''" by (simp_all add: climbs_def Split_single)
      then have "\<not> climbs p" unfolding e climbs_append using lev(1) by simp
      then have "under ''packs'' p" unfolding under_def e by (simp add: proper_comp_def)
      moreover have "embedded_path p" by (simp add: e embedded_path_def)
      ultimately show ?thesis by blast
    qed
    then obtain dir where dir: "under dir p" "embedded_path p \<longleftrightarrow> dir = ''packs''" by blast
    moreover from this obtain cs where "query_path p s = strings_Join (dir # cs) ''/''" "\<forall>c \<in> set cs. CHR ''/'' \<notin> set c"
      using query_under[OF _ lev(2)] by blast
    moreover have "\<not> filepath_IsAbs (query_path p s)" using rel by (simp add: query_path_def IsAbs_sqlPath)
    ultimately show ?thesis by (intro disjI2 exI[of _ dir] exI[of _ cs]) (auto simp: under_def)
  qed
  have "embedded_path p \<longleftrightarrow> embedded_path p'"
    if h: "locate env paths emb ns = Inr (m, p)" "s \<in> set (sp_Queries (mf_Spec m))"
      "locate env paths emb ns' = Inr (m', p')" "s' \<in> set (sp_Queries (mf_Spec m'))" "query_path p s = query_path p' s'"
    for ns m p s ns' m' p' s'
  proof (cases "filepath_IsAbs (query_path p s)")
    case True
    with place[OF h(1,2)] place[OF h(3,4)] h(5) show ?thesis by auto
  next
    case False
    from False place[OF h(1,2)] obtain dir cs where d: "query_path p s = strings_Join (dir # cs) ''/''"
      "\<forall>c \<in> set (dir # cs). CHR ''/'' \<notin> set c" "embedded_path p \<longleftrightarrow> dir = ''packs''" by blast
    from False place[OF h(3,4)] obtain dir' cs' where d': "query_path p' s' = strings_Join (dir' # cs') ''/''"
      "\<forall>c \<in> set (dir' # cs'). CHR ''/'' \<notin> set c" "embedded_path p' \<longleftrightarrow> dir' = ''packs''" unfolding h(5) by blast
    have "strings_Split (query_path p s) (CHR ''/'') = dir # cs" unfolding d(1) using d(2) by (intro Join_slashless) auto
    moreover have "strings_Split (query_path p' s') (CHR ''/'') = dir' # cs'" unfolding d'(1) using d'(2) by (intro Join_slashless) auto
    ultimately show ?thesis using d(3) d'(3) h(5) by simp
  qed
  then show ?thesis unfolding sources_apart_def by blast
qed

text \<open>The directories of a new loader are like that, whatever the home directory.\<close>

lemma NewPackLoader_apart:
  assumes "homeDir = [] \<or> filepath_IsAbs homeDir"
  shows "list_all apart_path (pl_searchPaths (NewPackLoader homeDir))"
proof -
  have "apart_path (filepath_Join [homeDir, ''.corkscrew'', ''query-packs''])"
  proof (cases "homeDir = []")
    case True
    have "apart_path (filepath_Join [[], ''.corkscrew'', ''query-packs''])" by code_simp
    with True show ?thesis by simp
  qed (use assms Join_abs_clean in \<open>auto simp: apart_path_def\<close>)
  moreover have "apart_path ''/etc/corkscrew/query-packs''" "apart_path ''./query-packs''" by code_simp+
  ultimately show ?thesis by (simp add: NewPackLoader_def)
qed

subsection \<open>The caches are transparent\<close>

text \<open>The pack a namespace stands for, read without any cache, and whether its dependencies load.\<close>

definition read_query :: "loader_env \<Rightarrow> string \<Rightarrow> QuerySpec \<Rightarrow> ComplianceQuery option" where
  "read_query env manifestPath s = (if qs_QueryFile s = [] then Some (query_of_spec s [])
     else (case read_source env manifestPath (query_path manifestPath s) of
         Inr sql \<Rightarrow> Some (query_of_spec s sql) | Inl _ \<Rightarrow> None))"

definition build_pack :: "loader_env \<Rightarrow> PackManifest \<Rightarrow> string \<Rightarrow> QueryPack option" where
  "build_pack env m manifestPath = (case those (map (read_query env manifestPath) (sp_Queries (mf_Spec m))) of
     None \<Rightarrow> None
   | Some qs \<Rightarrow> (case ValidatePack (lenv_Compile env) (manifest_pack env m manifestPath qs) of
       (es, pack) \<Rightarrow> if es = [] then Some pack else None))"

primrec loadable :: "loader_env \<Rightarrow> string list \<Rightarrow> bool \<Rightarrow> nat \<Rightarrow> string \<Rightarrow> bool" where
  "loadable env paths emb 0 ns = False"
| "loadable env paths emb (Suc n) ns = (case locate env paths emb ns of
     Inl _ \<Rightarrow> False
   | Inr (m, p) \<Rightarrow> \<not> Option.is_none (build_pack env m p) \<and>
       list_all (\<lambda>d. dep_Required d \<longrightarrow> loadable env paths emb n (dependency_namespace d)) (sp_DependsOn (mf_Spec m)))"

lemma loadable_Suc [simp]: "loadable env paths emb (Suc n) ns \<longleftrightarrow> (case locate env paths emb ns of
     Inl _ \<Rightarrow> False
   | Inr (m, p) \<Rightarrow> build_pack env m p \<noteq> None \<and>
       list_all (\<lambda>d. dep_Required d \<longrightarrow> loadable env paths emb n (dependency_namespace d)) (sp_DependsOn (mf_Spec m)))"
  by (simp add: Option.is_none_def split: sum.split)

declare loadable.simps(2) [simp del]

definition stamp :: "timestamp \<Rightarrow> QueryPack \<Rightarrow> QueryPack" where
  "stamp t pack = pack\<lparr>pk_LoadedAt := t\<rparr>"

definition stands_for :: "loader_env \<Rightarrow> string list \<Rightarrow> bool \<Rightarrow> string \<Rightarrow> QueryPack \<Rightarrow> bool" where
  "stands_for env paths emb ns pack \<longleftrightarrow> (case locate env paths emb ns of
     Inl _ \<Rightarrow> False | Inr (m, p) \<Rightarrow> map_option (stamp 0) (build_pack env m p) = Some (stamp 0 pack))"

definition sql_ok :: "loader_env \<Rightarrow> string list \<Rightarrow> bool \<Rightarrow> (string \<rightharpoonup> string) \<Rightarrow> bool" where
  "sql_ok env paths emb c \<longleftrightarrow> (\<forall>ns m p s sql. locate env paths emb ns = Inr (m, p) \<longrightarrow> s \<in> set (sp_Queries (mf_Spec m)) \<longrightarrow>
     c (query_path p s) = Some sql \<longrightarrow> read_source env p (query_path p s) = Inr sql)"

definition same_manifest :: "PackManifest \<Rightarrow> PackManifest \<Rightarrow> bool" where
  "same_manifest m m' \<longleftrightarrow> m\<lparr>mf_LoadedAt := 0\<rparr> = m'\<lparr>mf_LoadedAt := 0\<rparr>"

definition manifests_ok :: "loader_env \<Rightarrow> string list \<Rightarrow> bool \<Rightarrow> (string \<rightharpoonup> PackManifest) \<Rightarrow> bool" where
  "manifests_ok env paths emb c \<longleftrightarrow> (\<forall>ns m. c ns = Some m \<longrightarrow> (\<exists>m'. locate env paths emb ns = Inr (m', mf_LoadedFrom m) \<and> same_manifest m m'))"

definition packs_ok :: "loader_env \<Rightarrow> string list \<Rightarrow> bool \<Rightarrow> (string \<rightharpoonup> QueryPack) \<Rightarrow> bool" where
  "packs_ok env paths emb c \<longleftrightarrow> (\<forall>ns pack. c ns = Some pack \<longrightarrow> (\<exists>n. loadable env paths emb n ns) \<and> stands_for env paths emb ns pack)"

definition loader_ok :: "loader_env \<Rightarrow> string list \<Rightarrow> bool \<Rightarrow> PackLoader \<Rightarrow> bool" where
  "loader_ok env paths emb l \<longleftrightarrow> pl_searchPaths l = paths \<and> pl_enableEmbeddedPacks l = emb \<and> sql_ok env paths emb (pl_sqlCache l) \<and>
     manifests_ok env paths emb (pl_manifestCache l) \<and> packs_ok env paths emb (pl_loadedPacks l)"

lemma same_manifest_refl [simp]: "same_manifest m m"
  by (simp add: same_manifest_def)

lemma same_manifestD: "same_manifest m m' \<Longrightarrow> mf_Spec m = mf_Spec m' \<and> mf_Metadata m = mf_Metadata m' \<and> mf_LoadedFrom m = mf_LoadedFrom m'"
  unfolding same_manifest_def by (cases m; cases m') simp

lemma build_pack_same: "same_manifest m m' \<Longrightarrow> build_pack env m p = build_pack env m' p"
  by (drule same_manifestD) (simp add: build_pack_def manifest_pack_def cong: option.case_cong)

lemma loadable_mono: "loadable env paths emb n ns \<Longrightarrow> n \<le> n' \<Longrightarrow> loadable env paths emb n' ns"
proof (induction n arbitrary: ns n')
  case (Suc n)
  then obtain k where k: "n' = Suc k" "n \<le> k" by (cases n') auto
  have "loadable env paths emb k ns'" if "loadable env paths emb n ns'" for ns'
    using Suc.IH[OF that k(2)] .
  with Suc.prems k(1) show ?case by (auto simp: list_all_iff split: sum.splits)
qed simp

lemma loadable_common:
  "(\<And>d. d \<in> set ds \<Longrightarrow> dep_Required d \<Longrightarrow> \<exists>n. loadable env paths emb n (dependency_namespace d)) \<Longrightarrow>
     \<exists>n. list_all (\<lambda>d. dep_Required d \<longrightarrow> loadable env paths emb n (dependency_namespace d)) ds"
proof (induction ds)
  case (Cons d ds)
  then obtain n where n: "list_all (\<lambda>d. dep_Required d \<longrightarrow> loadable env paths emb n (dependency_namespace d)) ds" by auto
  obtain k where k: "dep_Required d \<longrightarrow> loadable env paths emb k (dependency_namespace d)" using Cons.prems by fastforce
  have "list_all (\<lambda>d. dep_Required d \<longrightarrow> loadable env paths emb (max k n) (dependency_namespace d)) (d # ds)"
    using n k loadable_mono[of env paths emb k _ "max k n"] loadable_mono[of env paths emb n _ "max k n"]
    by (auto simp: list_all_iff)
  then show ?case by blast
qed simp

text \<open>One query file.\<close>

lemma loadSQLFile_ok:
  assumes "sql_ok env paths emb c" "sources_apart env paths emb" "locate env paths emb ns = Inr (m, p)" "s \<in> set (sp_Queries (mf_Spec m))"
  shows "\<exists>c'. loadSQLFile env (qs_QueryFile s) p c = (read_source env p (query_path p s), c') \<and> sql_ok env paths emb c'"
proof (cases "c (query_path p s)")
  case None
  show ?thesis
  proof (cases "read_source env p (query_path p s)")
    case (Inl err)
    with None assms(1) show ?thesis by (simp add: loadSQLFile_def Let_def query_path_def)
  next
    case (Inr data)
    have "read_source env p' (query_path p' s') = Inr data"
      if "locate env paths emb ns' = Inr (m', p')" "s' \<in> set (sp_Queries (mf_Spec m'))" "query_path p' s' = query_path p s" for ns' m' p' s'
    proof -
      have "embedded_path p' \<longleftrightarrow> embedded_path p" using assms(2-4) that unfolding sources_apart_def by blast
      with Inr that(3) show ?thesis by (simp add: read_source_def)
    qed
    then have "sql_ok env paths emb (c(query_path p s \<mapsto> data))"
      using assms(1) unfolding sql_ok_def by (metis fun_upd_apply option.inject)
    with None Inr show ?thesis by (simp add: loadSQLFile_def Let_def query_path_def)
  qed
next
  case (Some sql)
  with assms have "read_source env p (query_path p s) = Inr sql" unfolding sql_ok_def by blast
  with Some assms(1) show ?thesis by (simp add: loadSQLFile_def Let_def query_path_def)
qed

lemma convert_queries_ok:
  assumes "sql_ok env paths emb c" "sources_apart env paths emb" "locate env paths emb ns = Inr (m, p)" "set ss \<subseteq> set (sp_Queries (mf_Spec m))"
  shows "\<exists>r c'. convert_queries env p ss acc c = (r, c') \<and> sql_ok env paths emb c' \<and>
    (case those (map (read_query env p) ss) of Some qs \<Rightarrow> r = Inr (acc @ qs) | None \<Rightarrow> isl r)"
  using assms(1,4)
proof (induction ss arbitrary: acc c)
  case (Cons s ss)
  show ?case
  proof (cases "qs_QueryFile s = []")
    case True
    then show ?thesis
      using Cons.IH[OF Cons.prems(1), of "acc @ [query_of_spec s []]"] Cons.prems(2)
      by (auto simp: read_query_def split: option.splits)
  next
    case False
    obtain c' where c': "loadSQLFile env (qs_QueryFile s) p c = (read_source env p (query_path p s), c')" "sql_ok env paths emb c'"
      using loadSQLFile_ok[OF Cons.prems(1) assms(2,3)] Cons.prems(2) by auto
    show ?thesis
    proof (cases "read_source env p (query_path p s)")
      case (Inl err)
      with c' False show ?thesis by (simp add: read_query_def)
    next
      case (Inr sql)
      with c' False show ?thesis
        using Cons.IH[OF c'(2), of "acc @ [query_of_spec s sql]"] Cons.prems(2)
        by (auto simp: read_query_def split: option.splits)
    qed
  qed
qed simp

lemma manifestToPack_ok:
  assumes "loader_ok env paths emb l" "sources_apart env paths emb" "locate env paths emb ns = Inr (m0, p)" "same_manifest m m0"
  shows "\<exists>r l'. manifestToPack env m p l = (r, l') \<and> loader_ok env paths emb l' \<and>
    (case those (map (read_query env p) (sp_Queries (mf_Spec m))) of
       Some qs \<Rightarrow> r = Inr (manifest_pack env m p qs) | None \<Rightarrow> isl r)"
proof -
  have "sql_ok env paths emb (pl_sqlCache l)" using assms(1) by (simp add: loader_ok_def)
  from convert_queries_ok[OF this assms(2,3), of "sp_Queries (mf_Spec m)" "[]"] same_manifestD[OF assms(4)] obtain r c' where
    r: "convert_queries env p (sp_Queries (mf_Spec m)) [] (pl_sqlCache l) = (r, c')" "sql_ok env paths emb c'"
      "case those (map (read_query env p) (sp_Queries (mf_Spec m))) of Some qs \<Rightarrow> r = Inr ([] @ qs) | None \<Rightarrow> isl r" by auto
  have "loader_ok env paths emb (l\<lparr>pl_sqlCache := c'\<rparr>)" using assms(1) r(2) by (simp add: loader_ok_def)
  with r(1,3) show ?thesis by (cases r) (auto simp: manifestToPack_def split: option.splits)
qed

lemma finish_load_ok:
  assumes "loader_ok env paths emb l" "locate env paths emb ns = Inr (m, p)" "sources_apart env paths emb"
    and "same_manifest m' m"
    and "list_all (\<lambda>d. dep_Required d \<longrightarrow> loadable env paths emb n (dependency_namespace d)) (sp_DependsOn (mf_Spec m))"
  shows "\<exists>r l'. finish_load env ns m' p deps l = (r, l') \<and> loader_ok env paths emb l' \<and>
    (case build_pack env m p of Some pack \<Rightarrow> r = Inr pack | None \<Rightarrow> isl r)"
proof -
  obtain r l' where r: "manifestToPack env m' p l = (r, l')" "loader_ok env paths emb l'"
      "case those (map (read_query env p) (sp_Queries (mf_Spec m'))) of
         Some qs \<Rightarrow> r = Inr (manifest_pack env m' p qs) | None \<Rightarrow> isl r"
    using manifestToPack_ok[OF assms(1,3,2,4)] by blast
  have build: "build_pack env m p = build_pack env m' p" using build_pack_same[OF assms(4)] by simp
  show ?thesis
  proof (cases "those (map (read_query env p) (sp_Queries (mf_Spec m')))")
    case None
    with r have "isl r" by simp
    then obtain x where "r = Inl x" by (cases r) auto
    with None r build show ?thesis by (cases x) (simp add: finish_load_def build_pack_def)
  next
    case (Some qs)
    obtain es pack where v: "ValidatePack (lenv_Compile env) (manifest_pack env m' p qs) = (es, pack)" by fastforce
    show ?thesis
    proof (cases "es = []")
      case True
      have b: "build_pack env m p = Some pack" using Some v True build by (simp add: build_pack_def)
      then have "loadable env paths emb (Suc n) ns" using assms(2,5) by simp
      moreover have "stands_for env paths emb ns pack" using assms(2) b by (simp add: stands_for_def)
      ultimately have "packs_ok env paths emb ((pl_loadedPacks l')(ns \<mapsto> pack))"
        using r(2) unfolding loader_ok_def packs_ok_def by (metis fun_upd_apply option.inject)
      then have "loader_ok env paths emb (cachePack env ns pack p deps l')"
        using r(2) by (simp add: loader_ok_def cachePack_def Let_def)
      with Some r v True b show ?thesis by (simp add: finish_load_def)
    next
      case False
      with Some r v build show ?thesis by (simp add: finish_load_def build_pack_def)
    qed
  qed
qed

lemma findPackManifest_ok:
  assumes "loader_ok env paths emb l"
  shows "\<exists>r l'. findPackManifest env ns l = (r, l') \<and> loader_ok env paths emb l' \<and>
    (case locate env paths emb ns of Inl _ \<Rightarrow> isl r | Inr (m, p) \<Rightarrow> \<exists>m'. r = Inr (m', p) \<and> same_manifest m' m)"
proof (cases "pl_manifestCache l ns")
  case (Some m)
  then obtain m' where "locate env paths emb ns = Inr (m', mf_LoadedFrom m)" "same_manifest m m'"
    using assms(1) unfolding loader_ok_def manifests_ok_def by blast
  with Some assms(1) show ?thesis by (auto simp: findPackManifest_def)
next
  case None
  have cfg: "pl_searchPaths l = paths" "pl_enableEmbeddedPacks l = emb" using assms(1) by (simp_all add: loader_ok_def)
  show ?thesis
  proof (cases "locate env paths emb ns")
    case (Inl e)
    with None cfg assms(1) show ?thesis by (simp add: findPackManifest_def)
  next
    case (Inr mp)
    obtain m p where mp: "mp = (m, p)" by fastforce
    have mfrom: "mf_LoadedFrom m = p" using locate_from Inr mp by blast
    have "manifests_ok env paths emb ((pl_manifestCache l)(ns \<mapsto> m))"
      using assms(1) Inr mp mfrom unfolding loader_ok_def manifests_ok_def
      by (metis fun_upd_apply option.inject same_manifest_refl)
    then have "loader_ok env paths emb (l\<lparr>pl_manifestCache := (pl_manifestCache l)(ns \<mapsto> m)\<rparr>)"
      using assms(1) by (simp add: loader_ok_def)
    with None cfg Inr mp show ?thesis by (simp add: findPackManifest_def)
  qed
qed

subsection \<open>The recursion\<close>

text \<open>What a load at the end of \<open>path\<close> guarantees, and what loading a list of dependencies there guarantees.\<close>

definition load_good :: "loader_env \<Rightarrow> string list \<Rightarrow> bool \<Rightarrow> string list \<Rightarrow> string \<Rightarrow> loader_error + QueryPack \<Rightarrow> bool" where
  "load_good env paths emb path ns r \<longleftrightarrow>
     (\<forall>p. r = Inr p \<longrightarrow> (\<exists>n. loadable env paths emb n ns) \<and> stands_for env paths emb ns p) \<and>
     (\<forall>n. loadable env paths emb n ns \<longrightarrow> n + length path \<le> packDepthMax \<longrightarrow>
        (\<forall>x \<in> set path. \<not> loadable env paths emb n x) \<longrightarrow> \<not> isl r)"

definition load_claim :: "loader_env \<Rightarrow> string list \<Rightarrow> bool \<Rightarrow> string list \<Rightarrow> bool" where
  "load_claim env paths emb path \<longleftrightarrow> (\<forall>ns loading l. loader_ok env paths emb l \<longrightarrow> set loading = set path \<longrightarrow>
     (\<exists>r loading' l'. loadPackInternal env ns loading path l = Some (r, loading', l') \<and>
        set loading' = set path \<and> loader_ok env paths emb l' \<and> load_good env paths emb path ns r))"

definition deps_claim :: "loader_env \<Rightarrow> string list \<Rightarrow> bool \<Rightarrow> string list \<Rightarrow> bool" where
  "deps_claim env paths emb path \<longleftrightarrow> (\<forall>parent ds acc loading l. loader_ok env paths emb l \<longrightarrow> set loading = set path \<longrightarrow>
     (\<exists>r loading' l'. load_dependencies env parent ds loading path acc l = Some (r, loading', l') \<and>
        set loading' = set path \<and> loader_ok env paths emb l' \<and>
        (\<not> isl r \<longrightarrow> (\<forall>d \<in> set ds. dep_Required d \<longrightarrow> (\<exists>n. loadable env paths emb n (dependency_namespace d)))) \<and>
        (\<forall>n. list_all (\<lambda>d. dep_Required d \<longrightarrow> loadable env paths emb n (dependency_namespace d)) ds \<longrightarrow>
           n + length path \<le> packDepthMax \<longrightarrow> (\<forall>x \<in> set path. \<not> loadable env paths emb n x) \<longrightarrow> \<not> isl r)))"

lemma deps_claim_step:
  assumes "load_claim env paths emb path"
  shows "deps_claim env paths emb path"
proof -
  have "\<exists>r loading' l'. load_dependencies env parent ds loading path acc l = Some (r, loading', l') \<and>
      set loading' = set path \<and> loader_ok env paths emb l' \<and>
      (\<not> isl r \<longrightarrow> (\<forall>d \<in> set ds. dep_Required d \<longrightarrow> (\<exists>n. loadable env paths emb n (dependency_namespace d)))) \<and>
      (\<forall>n. list_all (\<lambda>d. dep_Required d \<longrightarrow> loadable env paths emb n (dependency_namespace d)) ds \<longrightarrow>
         n + length path \<le> packDepthMax \<longrightarrow> (\<forall>x \<in> set path. \<not> loadable env paths emb n x) \<longrightarrow> \<not> isl r)"
    if "loader_ok env paths emb l" "set loading = set path" for parent ds acc loading l
    using that
  proof (induction ds arbitrary: acc loading l)
    case Nil
    then show ?case by simp
  next
    case (Cons d ds)
    obtain r loading' l' where r: "loadPackInternal env (dependency_namespace d) loading path l = Some (r, loading', l')"
        "set loading' = set path" "loader_ok env paths emb l'"
        "\<forall>p. r = Inr p \<longrightarrow> (\<exists>n. loadable env paths emb n (dependency_namespace d)) \<and> stands_for env paths emb (dependency_namespace d) p"
        "\<forall>n. loadable env paths emb n (dependency_namespace d) \<longrightarrow> n + length path \<le> packDepthMax \<longrightarrow>
           (\<forall>x \<in> set path. \<not> loadable env paths emb n x) \<longrightarrow> \<not> isl r"
      using assms Cons.prems unfolding load_claim_def load_good_def by blast
    show ?case
    proof (cases r)
      case (Inl err)
      show ?thesis
      proof (cases "dep_Required d")
        case True
        with Inl r show ?thesis by simp
      next
        case False
        from Cons.IH[OF r(3,2), of acc] False Inl r(1) show ?thesis by simp
      qed
    next
      case (Inr pk)
      with r(4) have d: "\<exists>n. loadable env paths emb n (dependency_namespace d)" by blast
      obtain q loading2 l2 where q: "load_dependencies env parent ds loading' path (acc @ [pk]) l' = Some (q, loading2, l2)"
          "set loading2 = set path" "loader_ok env paths emb l2"
          "\<not> isl q \<longrightarrow> (\<forall>d \<in> set ds. dep_Required d \<longrightarrow> (\<exists>n. loadable env paths emb n (dependency_namespace d)))"
          "\<forall>n. list_all (\<lambda>d. dep_Required d \<longrightarrow> loadable env paths emb n (dependency_namespace d)) ds \<longrightarrow>
             n + length path \<le> packDepthMax \<longrightarrow> (\<forall>x \<in> set path. \<not> loadable env paths emb n x) \<longrightarrow> \<not> isl q"
        using Cons.IH[OF r(3,2), of "acc @ [pk]"] by blast
      have "load_dependencies env parent (d # ds) loading path acc l = Some (q, loading2, l2)"
        using q(1) r(1) Inr by simp
      moreover have "\<not> isl q \<longrightarrow> (\<forall>e \<in> set (d # ds). dep_Required e \<longrightarrow> (\<exists>n. loadable env paths emb n (dependency_namespace e)))"
        using q(4) d by (metis set_ConsD)
      moreover have "\<forall>n. list_all (\<lambda>d. dep_Required d \<longrightarrow> loadable env paths emb n (dependency_namespace d)) (d # ds) \<longrightarrow>
          n + length path \<le> packDepthMax \<longrightarrow> (\<forall>x \<in> set path. \<not> loadable env paths emb n x) \<longrightarrow> \<not> isl q"
        using q(5) unfolding list.pred_inject by blast
      ultimately show ?thesis using q(2,3) by blast
    qed
  qed
  then show ?thesis unfolding deps_claim_def by blast
qed

lemma load_good_error:
  "(\<And>n. loadable env paths emb n ns \<Longrightarrow> n + length path \<le> packDepthMax \<Longrightarrow> \<forall>x \<in> set path. \<not> loadable env paths emb n x \<Longrightarrow> False) \<Longrightarrow>
     load_good env paths emb path ns (Inl e)"
  by (auto simp: load_good_def)

lemma loadable_pos: "loadable env paths emb n ns \<Longrightarrow> 0 < n"
  by (cases n) auto

text \<open>The least height at which a namespace is loadable is one above its dependencies, and above its own.\<close>

lemma loadable_least:
  assumes "loadable env paths emb n ns" "locate env paths emb ns = Inr (m, p)" "\<forall>x \<in> set path. \<not> loadable env paths emb n x"
  shows "build_pack env m p \<noteq> None \<and> (\<exists>j < n. (\<forall>x \<in> set (path @ [ns]). \<not> loadable env paths emb j x) \<and>
    list_all (\<lambda>d. dep_Required d \<longrightarrow> loadable env paths emb j (dependency_namespace d)) (sp_DependsOn (mf_Spec m)))"
proof -
  define k where "k = (LEAST k. loadable env paths emb k ns)"
  have k: "loadable env paths emb k ns" "k \<le> n"
    unfolding k_def using LeastI[of "\<lambda>k. loadable env paths emb k ns" n] Least_le[of "\<lambda>k. loadable env paths emb k ns" n] assms(1) by auto
  then obtain j where j: "k = Suc j" by (cases k) auto
  have "\<not> loadable env paths emb j ns" using not_less_Least[of j "\<lambda>k. loadable env paths emb k ns"] j k_def by simp
  moreover have "\<forall>x \<in> set path. \<not> loadable env paths emb j x"
    using assms(3) k(2) j loadable_mono[of env paths emb j _ n] by auto
  ultimately show ?thesis using k j assms(2) by (auto intro!: exI[of _ j])
qed

lemma removeAll_added: "set xs = insert ns (set path) \<Longrightarrow> ns \<notin> set path \<Longrightarrow> set (removeAll ns xs) = set path"
  by auto

text \<open>The branch in which the manifest is read.\<close>

lemma load_uncached:
  assumes "sources_apart env paths emb" "deps_claim env paths emb (path @ [ns])" "length path < packDepthMax"
    and ok: "loader_ok env paths emb l" and loading: "set loading = set path" and new: "ns \<notin> set path"
    and uncached: "\<not> (pl_loadedPacks l ns \<noteq> None \<and> isCacheValid env ns l)"
  shows "\<exists>r loading' l'. loadPackInternal env ns loading path l = Some (r, loading', l') \<and>
    set loading' = set path \<and> loader_ok env paths emb l' \<and> load_good env paths emb path ns r"
proof -
  have c: "(pl_loadedPacks l ns \<noteq> None \<and> isCacheValid env ns l) = False" using uncached by blast
  have start: "loadPackInternal env ns loading path l = (case findPackManifest env ns l of
      (Inl err, l) \<Rightarrow> Some (Inl (ManifestUnavailable ns err), removeAll ns (ns # loading), l)
    | (Inr (m, p), l) \<Rightarrow> do {
        (deps, loading, l) \<leftarrow> load_dependencies env ns (sp_DependsOn (mf_Spec m)) (ns # loading) (path @ [ns]) [] l;
        (case deps of Inl err \<Rightarrow> Some (Inl err, removeAll ns loading, l)
         | Inr ds \<Rightarrow> (case finish_load env ns m p ds l of (res, l) \<Rightarrow> Some (res, removeAll ns loading, l)))
      })"
    using assms(3) new loading by (subst loadPackInternal.simps) (simp add: Suc_leI c del: not_None_eq)
  obtain f l1 where f: "findPackManifest env ns l = (f, l1)" "loader_ok env paths emb l1"
      "case locate env paths emb ns of Inl _ \<Rightarrow> isl f | Inr (m, p) \<Rightarrow> \<exists>m'. f = Inr (m', p) \<and> same_manifest m' m"
    using findPackManifest_ok[OF ok] by blast
  show ?thesis
  proof (cases "locate env paths emb ns")
    case (Inl e)
    then have "\<not> loadable env paths emb n ns" for n by (cases n) simp_all
    moreover from Inl f(3) obtain err where "f = Inl err" by (cases f) auto
    ultimately show ?thesis using start f(1,2) removeAll_added[of "ns # loading" ns path] loading new
      by (auto intro!: load_good_error)
  next
    case (Inr mp)
    obtain m p where mp: "locate env paths emb ns = Inr (m, p)" using Inr by (cases mp) auto
    with f(3) obtain m' where m': "f = Inr (m', p)" "same_manifest m' m" by auto
    have spec: "mf_Spec m' = mf_Spec m" using same_manifestD[OF m'(2)] by simp
    have "set (ns # loading) = set (path @ [ns])" using loading by simp
    then obtain r2 loading2 l2 where r2:
      "load_dependencies env ns (sp_DependsOn (mf_Spec m)) (ns # loading) (path @ [ns]) [] l1 = Some (r2, loading2, l2)"
      "set loading2 = set (path @ [ns])" "loader_ok env paths emb l2"
      "\<not> isl r2 \<longrightarrow> (\<forall>d \<in> set (sp_DependsOn (mf_Spec m)). dep_Required d \<longrightarrow> (\<exists>n. loadable env paths emb n (dependency_namespace d)))"
      "\<forall>n. list_all (\<lambda>d. dep_Required d \<longrightarrow> loadable env paths emb n (dependency_namespace d)) (sp_DependsOn (mf_Spec m)) \<longrightarrow>
         n + length (path @ [ns]) \<le> packDepthMax \<longrightarrow> (\<forall>x \<in> set (path @ [ns]). \<not> loadable env paths emb n x) \<longrightarrow> \<not> isl r2"
      using assms(2) f(2) unfolding deps_claim_def by blast
    have rest: "set (removeAll ns loading2) = set path" using removeAll_added[OF _ new] r2(2) by simp
    have complete: "\<not> isl r2 \<and> build_pack env m p \<noteq> None"
      if "loadable env paths emb n ns" "n + length path \<le> packDepthMax" "\<forall>x \<in> set path. \<not> loadable env paths emb n x" for n
      using loadable_least[OF that(1) mp that(3)] r2(5) that(2) by fastforce
    show ?thesis
    proof (cases r2)
      case (Inl err)
      then have "load_good env paths emb path ns (Inl err)" using complete by (intro load_good_error) auto
      with Inl show ?thesis using start f(1) m'(1) spec r2(1,3) rest by auto
    next
      case (Inr ds)
      then obtain n where n: "list_all (\<lambda>d. dep_Required d \<longrightarrow> loadable env paths emb n (dependency_namespace d)) (sp_DependsOn (mf_Spec m))"
        using r2(4) loadable_common[of "sp_DependsOn (mf_Spec m)" env paths emb] by auto
      obtain r3 l3 where r3: "finish_load env ns m' p ds l2 = (r3, l3)" "loader_ok env paths emb l3"
          "case build_pack env m p of Some pack \<Rightarrow> r3 = Inr pack | None \<Rightarrow> isl r3"
        using finish_load_ok[OF r2(3) mp assms(1) m'(2) n] by blast
      have eq: "loadPackInternal env ns loading path l = Some (r3, removeAll ns loading2, l3)"
        using start f(1) m'(1) spec r2(1) Inr r3(1) by simp
      have "loadable env paths emb (Suc n) ns \<and> stands_for env paths emb ns pack" if "r3 = Inr pack" for pack
      proof -
        have "build_pack env m p = Some pack" using that r3(3) by (cases "build_pack env m p") auto
        then show ?thesis using mp n by (simp add: stands_for_def)
      qed
      moreover have "\<not> isl r3" if "build_pack env m p \<noteq> None" using that r3(3) by auto
      ultimately have "load_good env paths emb path ns r3"
        using complete unfolding load_good_def by blast
      then show ?thesis using eq rest r3(2) by blast
    qed
  qed
qed

lemma load_claim_step:
  assumes "sources_apart env paths emb" "length path < packDepthMax \<Longrightarrow> \<forall>ns. deps_claim env paths emb (path @ [ns])"
    and "length path \<le> packDepthMax"
  shows "load_claim env paths emb path"
proof -
  have "\<exists>r loading' l'. loadPackInternal env ns loading path l = Some (r, loading', l') \<and>
      set loading' = set path \<and> loader_ok env paths emb l' \<and> load_good env paths emb path ns r"
    if ok: "loader_ok env paths emb l" and loading: "set loading = set path" for ns loading l
  proof (cases "ns \<in> set path")
    case True
    then have "load_good env paths emb path ns (Inl (Circular ns (path @ [ns])))" by (intro load_good_error) auto
    with True ok loading assms(3) show ?thesis by (simp add: loadPackInternal.simps)
  next
    case new: False
    show ?thesis
    proof (cases "length path < packDepthMax")
      case False
      then have "load_good env paths emb path ns (Inl (ChainTooDeep ns (path @ [ns])))"
        using loadable_pos by (intro load_good_error) fastforce
      with False new ok loading assms(3) show ?thesis by (simp add: loadPackInternal.simps)
    next
      case short: True
      show ?thesis
      proof (cases "pl_loadedPacks l ns \<noteq> None \<and> isCacheValid env ns l")
        case True
        then obtain pack where pack: "pl_loadedPacks l ns = Some pack" by blast
        with ok have "(\<exists>n. loadable env paths emb n ns) \<and> stands_for env paths emb ns pack"
          unfolding loader_ok_def packs_ok_def by blast
        then have "load_good env paths emb path ns (Inr pack)" by (simp add: load_good_def)
        with True pack short new ok loading show ?thesis by (simp add: loadPackInternal.simps)
      next
        case False
        show ?thesis by (rule load_uncached[OF assms(1) _ short ok loading new False]) (use assms(2) short in blast)
      qed
    qed
  qed
  then show ?thesis unfolding load_claim_def by blast
qed

lemma load_claim_all:
  assumes "sources_apart env paths emb" "length path \<le> packDepthMax"
  shows "load_claim env paths emb path"
  using assms(2)
proof (induction "packDepthMax - length path" arbitrary: path)
  case 0
  then show ?case by (intro load_claim_step[OF assms(1)]) auto
next
  case (Suc k)
  have "deps_claim env paths emb (path @ [ns])" if "length path < packDepthMax" for ns
    by (rule deps_claim_step, rule Suc.hyps(1)) (use Suc.hyps(2) that in auto)
  then show ?case using Suc.prems by (intro load_claim_step[OF assms(1)]) auto
qed

text \<open>No loader and no files make a load panic.\<close>

lemma load_returns:
  assumes "length path \<le> packDepthMax"
  shows "\<exists>r. loadPackInternal env ns loading path l = Some r"
  using assms
proof (induction "packDepthMax - length path" arbitrary: ns path loading l rule: less_induct)
  case less
  show ?case
  proof (cases "length path < packDepthMax")
    case True
    have rec: "\<exists>r. loadPackInternal env ns' loading' (path @ [ns]) l' = Some r" for ns' loading' l'
      using True by (intro less.hyps) auto
    have deps: "\<exists>r. load_dependencies env p ds loading' (path @ [ns]) acc l' = Some r" for p ds loading' acc l'
    proof (induction ds arbitrary: loading' acc l')
      case (Cons d ds)
      obtain r loading2 l2 where "loadPackInternal env (dependency_namespace d) loading' (path @ [ns]) l' = Some (r, loading2, l2)"
        using rec by (metis prod_cases3)
      with Cons.IH show ?case by (cases r) auto
    qed simp
    have "\<exists>r. do {
        (deps, loading, l) \<leftarrow> load_dependencies env ns ds loading' (path @ [ns]) [] l';
        (case deps of Inl err \<Rightarrow> Some (Inl err, removeAll ns loading, l)
         | Inr ds \<Rightarrow> (case finish_load env ns m p ds l of (res, l) \<Rightarrow> Some (res, removeAll ns loading, l)))
      } = Some r" for ds loading' l' m p
    proof -
      obtain deps loading2 l2 where "load_dependencies env ns ds loading' (path @ [ns]) [] l' = Some (deps, loading2, l2)"
        using deps by (metis prod_cases3)
      then show ?thesis by (cases deps) (auto split: prod.split)
    qed
    with True less.prems show ?thesis
      by (subst loadPackInternal.simps) (auto simp: Suc_leI split: prod.split sum.split)
  next
    case False
    with less.prems show ?thesis by (simp add: loadPackInternal.simps)
  qed
qed

lemma LoadPack_returns: "\<exists>r l'. LoadPack env ns l = Some (r, l')"
proof -
  obtain r loading l' where "loadPackInternal env ns [] [] l = Some (r, loading, l')"
    using load_returns[of "[]" env ns "[]" l] by (metis list.size(3) prod_cases3 zero_le)
  then show ?thesis by (simp add: LoadPack_def)
qed

lemma LoadPack_facts:
  assumes "sources_apart env paths emb" "loader_ok env paths emb l"
  shows "\<exists>r l'. LoadPack env ns l = Some (r, l') \<and> loader_ok env paths emb l' \<and>
    (\<forall>pack. r = Inr pack \<longrightarrow> (\<exists>n. loadable env paths emb n ns) \<and> stands_for env paths emb ns pack) \<and>
    (loadable env paths emb packDepthMax ns \<longrightarrow> (\<exists>pack. r = Inr pack))"
proof -
  have claim: "load_claim env paths emb []" using load_claim_all[OF assms(1), of "[]"] by simp
  obtain r loading' l' where r: "loadPackInternal env ns [] [] l = Some (r, loading', l')" "loader_ok env paths emb l'"
      "load_good env paths emb [] ns r"
    using claim[unfolded load_claim_def, rule_format, OF assms(2) refl, of ns] by blast
  have "\<exists>pack. r = Inr pack" if "loadable env paths emb packDepthMax ns"
    using r(3) that by (cases r) (auto simp: load_good_def)
  moreover have "(\<exists>n. loadable env paths emb n ns) \<and> stands_for env paths emb ns pack" if "r = Inr pack" for pack
    using r(3) that by (simp add: load_good_def)
  moreover have "LoadPack env ns l = Some (r, l')" using r(1) by (simp add: LoadPack_def)
  ultimately show ?thesis using r(2) by blast
qed

subsection \<open>The loader over time\<close>

lemma NewPackLoader_ok: "loader_ok env (pl_searchPaths l) (pl_enableEmbeddedPacks l) l"
  if "pl_sqlCache l = Map.empty" "pl_manifestCache l = Map.empty" "pl_loadedPacks l = Map.empty"
  using that by (simp add: loader_ok_def sql_ok_def manifests_ok_def packs_ok_def)

lemma InvalidateCache_ok: "loader_ok env paths emb l \<Longrightarrow> loader_ok env paths emb (InvalidateCache ns l)"
  by (auto simp: InvalidateCache_def loader_ok_def sql_ok_def manifests_ok_def packs_ok_def)

text \<open>Clearing every cache makes the loader right for any files.\<close>

lemma InvalidateCache_all_ok:
  "loader_ok env (pl_searchPaths l) (pl_enableEmbeddedPacks l) (InvalidateCache [] l)"
  by (auto simp: InvalidateCache_def loader_ok_def sql_ok_def manifests_ok_def packs_ok_def)

definition later :: "timestamp \<Rightarrow> loader_env \<Rightarrow> loader_env" where
  "later t env = env\<lparr>lenv_Now := t\<rparr>"

lemma later_simps [simp]:
  "lenv_ReadFile (later t env) = lenv_ReadFile env" "lenv_Embedded (later t env) = lenv_Embedded env"
  "lenv_Unmarshal (later t env) = lenv_Unmarshal env" "lenv_Compile (later t env) = lenv_Compile env"
  "lenv_Now (later t env) = t"
  by (simp_all add: later_def)

definition restamp :: "timestamp \<Rightarrow> PackManifest \<Rightarrow> PackManifest" where
  "restamp t m = m\<lparr>mf_LoadedAt := t\<rparr>"

lemma restamp_simps [simp]: "mf_Spec (restamp t m) = mf_Spec m" "mf_Metadata (restamp t m) = mf_Metadata m"
  "mf_LoadedFrom (restamp t m) = mf_LoadedFrom m"
  by (simp_all add: restamp_def)

lemma parsed_manifest_later: "parsed_manifest (later t env) p r = map_sum id (restamp t) (parsed_manifest env p r)"
  by (auto simp: parsed_manifest_def restamp_def split: sum.splits)

lemma search_loop_later: "search_loop (later t env) ns paths =
    map_option (map_sum id (map_prod (restamp t) id)) (search_loop env ns paths)"
proof (induction paths)
  case (Cons p paths)
  then show ?case
    by (cases "loadManifestFromFile env (getManifestPath p ns)")
      (simp_all add: loadManifestFromFile_def parsed_manifest_later)
qed simp

lemma locate_later: "locate (later t env) paths emb ns = map_sum id (map_prod (restamp t) id) (locate env paths emb ns)"
proof (cases "search_loop env ns paths")
  case None
  then show ?thesis
    by (cases "loadManifestFromEmbedded env (embedded_manifest ns)")
      (simp_all add: locate_def search_loop_later loadManifestFromEmbedded_def parsed_manifest_later restamp_def Let_def)
qed (simp add: locate_def search_loop_later)

lemma stamp_stamp [simp]: "stamp t (stamp u p) = stamp t p"
  by (simp add: stamp_def)

lemma ValidatePack_stamp: "ValidatePack c (stamp t p) = map_prod id (stamp t) (ValidatePack c p)"
  by (simp add: ValidatePack_def stamp_def Let_def split: prod.splits)

lemma manifest_pack_later: "manifest_pack (later t env) (restamp u m) p qs = stamp t (manifest_pack env m p qs)"
  by (simp add: manifest_pack_def restamp_def stamp_def)

lemma build_pack_later: "build_pack (later t env) (restamp u m) p = map_option (stamp t) (build_pack env m p)"
proof -
  have "read_query (later t env) p = read_query env p"
    by (rule ext) (simp add: read_query_def read_source_def)
  then show ?thesis
    by (simp add: build_pack_def manifest_pack_later ValidatePack_stamp split: option.split prod.split)
qed

lemma loadable_later: "loadable (later t env) paths emb n ns = loadable env paths emb n ns"
  by (induction n arbitrary: ns)
    (auto simp: locate_later build_pack_later list_all_iff split: sum.splits)

lemma stands_for_later: "stands_for (later t env) paths emb ns pack = stands_for env paths emb ns pack"
  by (cases "locate env paths emb ns") (auto simp: stands_for_def locate_later build_pack_later option.map_comp comp_def)

lemma locate_later_Inr:
  "locate (later t env) paths emb ns = Inr (m, p) \<longleftrightarrow> (\<exists>m0. locate env paths emb ns = Inr (m0, p) \<and> m = restamp t m0)"
  by (cases "locate env paths emb ns") (auto simp: locate_later)

lemma read_source_later: "read_source (later t env) p q = read_source env p q"
  by (simp add: read_source_def)

lemma sql_ok_later: "sql_ok env paths emb c \<Longrightarrow> sql_ok (later t env) paths emb c"
  by (auto simp: sql_ok_def locate_later_Inr read_source_later)

lemma manifests_ok_later: "manifests_ok env paths emb c \<Longrightarrow> manifests_ok (later t env) paths emb c"
  unfolding manifests_ok_def locate_later_Inr by (fastforce simp: same_manifest_def restamp_def)

lemma loader_ok_later: "loader_ok env paths emb l \<Longrightarrow> loader_ok (later t env) paths emb l"
  by (simp add: loader_ok_def packs_ok_def sql_ok_later manifests_ok_later loadable_later stands_for_later)

lemma sources_apart_later: "sources_apart env paths emb \<Longrightarrow> sources_apart (later t env) paths emb"
  unfolding sources_apart_def locate_later_Inr
proof (intro allI impI, elim conjE exE)
  fix ns m p s ns' m' p' s' m0 m0'
  assume h: "\<forall>ns m p s ns' m' p' s'. locate env paths emb ns = Inr (m, p) \<and> s \<in> set (sp_Queries (mf_Spec m)) \<and>
      locate env paths emb ns' = Inr (m', p') \<and> s' \<in> set (sp_Queries (mf_Spec m')) \<and> query_path p s = query_path p' s' \<longrightarrow>
      embedded_path p = embedded_path p'"
    and l: "locate env paths emb ns = Inr (m0, p)" "m = restamp t m0" "s \<in> set (sp_Queries (mf_Spec m))"
      "locate env paths emb ns' = Inr (m0', p')" "m' = restamp t m0'" "s' \<in> set (sp_Queries (mf_Spec m'))" "query_path p s = query_path p' s'"
  show "embedded_path p = embedded_path p'"
    by (rule h[rule_format, of ns m0 p s ns' m0' p' s']) (use l in simp)
qed

lemma later_now: "later (lenv_Now env) (later t env) = env"
  by (simp add: later_def)

text \<open>
  The loaders there are over the files of \<open>env\<close>: a new one with its paths chosen, and what loads at any time and
  invalidations make of it.
\<close>

inductive loader_lives :: "loader_env \<Rightarrow> string list \<Rightarrow> bool \<Rightarrow> PackLoader \<Rightarrow> bool" for env paths emb where
  built: "loader_lives env paths emb (WithCacheExpiry d (WithEmbeddedPacks emb (WithSearchPaths paths (NewPackLoader homeDir))))"
| loaded: "loader_lives env paths emb l \<Longrightarrow> LoadPack (later t env) ns l = Some (r, l') \<Longrightarrow> loader_lives env paths emb l'"
| invalidated: "loader_lives env paths emb l \<Longrightarrow> loader_lives env paths emb (InvalidateCache ns l)"

lemma new_loader_lives: "loader_lives env (pl_searchPaths (NewPackLoader homeDir)) True (NewPackLoader homeDir)"
  using built[of env "pl_searchPaths (NewPackLoader homeDir)" True "30 * 60 * 10 ^ 9" homeDir]
  by (simp add: WithCacheExpiry_def WithEmbeddedPacks_def WithSearchPaths_def NewPackLoader_def)

lemma lives_ok:
  assumes "loader_lives env paths emb l" "sources_apart env paths emb"
  shows "loader_ok env paths emb l"
  using assms(1)
proof induction
  case (built d homeDir)
  show ?case
    by (simp add: WithCacheExpiry_def WithEmbeddedPacks_def WithSearchPaths_def NewPackLoader_def loader_ok_def sql_ok_def manifests_ok_def packs_ok_def)
next
  case (loaded l t ns r l')
  have "loader_ok (later t env) paths emb l'"
    using LoadPack_facts[OF sources_apart_later[OF assms(2)] loader_ok_later[OF loaded.IH], of t ns] loaded.hyps(2) by simp
  from loader_ok_later[OF this, of "lenv_Now env"] show ?case by (simp add: later_now)
next
  case (invalidated l ns)
  then show ?case by (intro InvalidateCache_ok)
qed

lemma LoadPack_lives:
  assumes "sources_apart env paths emb" "loader_lives env paths emb l"
  shows "\<exists>r l'. LoadPack env ns l = Some (r, l') \<and> loader_lives env paths emb l' \<and>
    (\<forall>pack. r = Inr pack \<longrightarrow> (\<exists>n. loadable env paths emb n ns) \<and> stands_for env paths emb ns pack) \<and>
    (loadable env paths emb packDepthMax ns \<longrightarrow> (\<exists>pack. r = Inr pack))"
proof -
  have "later (lenv_Now env) env = env" by (simp add: later_def)
  then show ?thesis
    using LoadPack_facts[OF assms(1) lives_ok[OF assms(2,1)], of ns] loaded[OF assms(2), of "lenv_Now env" ns] by metis
qed

lemma lives_fields: "loader_lives env paths emb l \<Longrightarrow> sources_apart env paths emb \<Longrightarrow> pl_searchPaths l = paths \<and> pl_enableEmbeddedPacks l = emb"
  using lives_ok by (simp add: loader_ok_def)

text \<open>
  C26. Loading a pack through the caches is loading it without them. Take any loader the program can have over
  files that stay as they are: a new one, with its search paths and embedded packs chosen, after any loads at any
  times and any invalidations. If no pack on disk and no embedded pack read a query from the same path, a
  load never panics. A pack it returns is, but for its time stamp, the pack its manifest and query files
  stand for, it is valid, and the packs it requires load, and theirs, down to a finite depth: no
  required dependency is missing, invalid or circular. And it fails only for one of those reasons, or
  because the chain of requirements is deeper than \<open>packDepthMax\<close>: an optional dependency that cannot
  be loaded, or that leads back to the pack, does not matter. The condition on paths holds for absolute search
  paths (\<open>absolute_sources_apart\<close>) and for those of \<open>NewPackLoader\<close>, one of which is \<open>./query-packs\<close>, when
  no namespace and no query file that is found climbs with a double dot (\<open>level_sources_apart\<close>,
  \<open>NewPackLoader_apart\<close>); \<open>sql_cache_confuses_roots\<close> shows what happens without it, and
  \<open>changed_files_not_reread\<close> what happens when files do change.
\<close>

theorem LoadPack_sound_complete:
  assumes "sources_apart env paths emb" "loader_lives env paths emb l"
  shows "\<exists>r l'. LoadPack env ns l = Some (r, l') \<and> loader_lives env paths emb l' \<and>
    (\<forall>pack. r = Inr pack \<longrightarrow> (\<exists>n. loadable env paths emb n ns) \<and> stands_for env paths emb ns pack) \<and>
    (loadable env paths emb packDepthMax ns \<longrightarrow> (\<exists>pack. r = Inr pack))"
  by (rule LoadPack_lives[OF assms])

text \<open>
  While a manifest and its query files stay in the caches, the files are not read again: a pack whose
  files have changed is found out of date by \<open>isCacheValid\<close>, but what is loaded in its place is the old one.
\<close>

lemma convert_queries_cached:
  assumes "\<forall>q \<in> set qs. qs_QueryFile q \<noteq> [] \<longrightarrow> c (filepath_Join [filepath_Dir p, qs_QueryFile q]) \<noteq> None"
  shows "convert_queries env p qs acc c = convert_queries env' p qs acc c"
  using assms by (induction qs arbitrary: acc) (auto simp: loadSQLFile_def Let_def)

lemma changed_files_not_reread:
  assumes "pl_manifestCache l ns = Some m" "sp_DependsOn (mf_Spec m) = []" "\<not> isCacheValid env ns l" "\<not> isCacheValid env' ns l"
    and "\<forall>q \<in> set (sp_Queries (mf_Spec m)). qs_QueryFile q \<noteq> [] \<longrightarrow>
           pl_sqlCache l (filepath_Join [filepath_Dir (mf_LoadedFrom m), qs_QueryFile q]) \<noteq> None"
    and "lenv_Now env' = lenv_Now env" "lenv_Compile env' = lenv_Compile env"
  shows "map_option fst (LoadPack env' ns l) = map_option fst (LoadPack env ns l)"
proof -
  have conv: "convert_queries env' (mf_LoadedFrom m) (sp_Queries (mf_Spec m)) [] (pl_sqlCache l) =
      convert_queries env (mf_LoadedFrom m) (sp_Queries (mf_Spec m)) [] (pl_sqlCache l)"
    by (rule convert_queries_cached[OF assms(5)])
  have "manifest_pack env' = manifest_pack env" using assms(6) by (simp add: manifest_pack_def fun_eq_iff)
  with conv assms(7) have "fst (finish_load env' ns m (mf_LoadedFrom m) [] l) = fst (finish_load env ns m (mf_LoadedFrom m) [] l)"
    by (simp add: finish_load_def manifestToPack_def split: sum.splits prod.splits)
  moreover have "map_option fst (LoadPack e ns l) = Some (fst (finish_load e ns m (mf_LoadedFrom m) [] l))"
    if "\<not> isCacheValid e ns l" for e
    using that assms(1,2)
    by (simp add: LoadPack_def loadPackInternal.simps packDepthMax_def findPackManifest_def split: prod.splits)
  ultimately show ?thesis using assms(3,4) by metis
qed

text \<open>
  The cache of query texts is keyed by path alone, so under a relative search path a query file named
  to escape into \<open>packs/\<close> takes the place of an embedded one.
\<close>

lemma sql_cache_confuses_roots:
  assumes "lenv_ReadFile env ''packs/base/q.sql'' = Inr evil"
  shows "\<exists>c. loadSQLFile env ''../../packs/base/q.sql'' ''query-packs/x/manifest.yaml'' Map.empty = (Inr evil, c) \<and>
    loadSQLFile env ''q.sql'' ''packs/base/manifest.yaml'' c = (Inr evil, c)"
proof -
  have "filepath_Join [filepath_Dir ''query-packs/x/manifest.yaml'', ''../../packs/base/q.sql''] = ''packs/base/q.sql''"
    "filepath_Join [filepath_Dir ''packs/base/manifest.yaml'', ''q.sql''] = ''packs/base/q.sql''"
    "\<not> embedded_path ''query-packs/x/manifest.yaml''"
    by code_simp+
  with assms show ?thesis by (simp add: loadSQLFile_def read_source_def)
qed

subsection \<open>Manifests\<close>

lemma validate_specs_loop_None:
  "validate_specs_loop i seen qs = None \<longleftrightarrow> distinct (map qs_ID qs) \<and> set (map qs_ID qs) \<inter> set seen = {} \<and>
     (\<forall>q \<in> set qs. qs_ID q \<noteq> [] \<and> qs_Title q \<noteq> [] \<and> qs_QueryFile q \<noteq> [] \<and> isValidSeverity (qs_Severity q))"
  by (induction i seen qs rule: validate_specs_loop.induct) auto

lemma ValidateManifest_None:
  "ValidateManifest m = None \<longleftrightarrow> mf_APIVersion m \<noteq> [] \<and> mf_Kind m = ''QueryPack'' \<and> md_Name (mf_Metadata m) \<noteq> [] \<and>
     md_Version (mf_Metadata m) \<noteq> [] \<and> md_Provider (mf_Metadata m) \<noteq> [] \<and> \<not> isl (ParseVersion (md_Version (mf_Metadata m))) \<and>
     distinct (map qs_ID (sp_Queries (mf_Spec m))) \<and>
     (\<forall>q \<in> set (sp_Queries (mf_Spec m)). qs_ID q \<noteq> [] \<and> qs_Title q \<noteq> [] \<and> qs_QueryFile q \<noteq> [] \<and> isValidSeverity (qs_Severity q))"
  by (auto simp: ValidateManifest_def validate_specs_loop_None split: sum.splits)

text \<open>
  Discovery lists every namespace that some search path or the embedded packs hold, once each and
  in order, whatever the order of the search paths and of the walks.
\<close>

lemma DiscoverPacks_sorted_complete:
  "sorted (DiscoverPacks walk_dir embedded l) \<and> distinct (DiscoverPacks walk_dir embedded l) \<and>
   set (DiscoverPacks walk_dir embedded l) = (\<Union>p \<in> set (pl_searchPaths l). set (discoverFromPath walk_dir p)) \<union>
     (if pl_enableEmbeddedPacks l then set (discoverFromEmbedded embedded) else {})"
proof -
  have "set (dedupe_by id [] xs) = set xs" for xs :: "string list"
    using dedupe_by_keys[of id "[]" xs] by simp
  moreover have "distinct (dedupe_by id [] xs)" for xs :: "string list"
    using dedupe_by_distinct[of id "[]" xs] by simp
  ultimately show ?thesis by (auto simp: DiscoverPacks_def)
qed

subsection \<open>An instance\<close>

text \<open>A pack that requires another and would like a third, which is missing.\<close>

definition demo_spec :: QuerySpec where
  "demo_spec = \<lparr>qs_ID = ''Q1'', qs_Title = ''t'', qs_Description = [], qs_Objective = [], qs_Severity = ''HIGH'', qs_Category = [],
     qs_ControlFamily = [], qs_NISTCSF = [], qs_Tags = [], qs_QueryFile = ''q.sql'', qs_Parameters = [], qs_DependsOn = [],
     qs_Threats = [], qs_Remediation = demo_remediation, qs_Enabled = True\<rparr>"

definition demo_manifest :: "string \<Rightarrow> PackDependency list \<Rightarrow> PackManifest" where
  "demo_manifest name deps = \<lparr>mf_APIVersion = ''v1'', mf_Kind = ''QueryPack'', mf_Metadata = (demo_metadata ''1.0.0'')\<lparr>md_Name := name\<rparr>,
     mf_Spec = \<lparr>sp_Queries = [demo_spec], sp_Parameters = [], sp_Includes = [], sp_DependsOn = deps, sp_Resources = []\<rparr>,
     mf_LoadedFrom = [], mf_LoadedAt = 0\<rparr>"

definition demo_dep :: "string \<Rightarrow> bool \<Rightarrow> PackDependency" where
  "demo_dep name required = \<lparr>dep_Name = name, dep_Namespace = [], dep_Version = ''1.0.0'', dep_Required = required\<rparr>"

definition demo_files :: "string \<Rightarrow> file_error + string" where
  "demo_files p = (if p = ''/p/app/manifest.yaml'' then Inr ''app'' else if p = ''/p/base/manifest.yaml'' then Inr ''base''
     else if p = ''/p/app/q.sql'' \<or> p = ''/p/base/q.sql'' then Inr ''select 1'' else Inl NotExist)"

definition demo_loader_env :: loader_env where
  "demo_loader_env = \<lparr>lenv_ReadFile = demo_files, lenv_Stat = (\<lambda>_. None), lenv_Embedded = (\<lambda>_. Inl NotExist),
     lenv_Unmarshal = (\<lambda>data. Inr (if data = ''app'' then demo_manifest ''app'' [demo_dep ''base'' True, demo_dep ''extra'' False]
       else demo_manifest ''base'' [demo_dep ''app'' False])),
     lenv_Compile = (\<lambda>_. None), lenv_Now = 0\<rparr>"

definition demo_loader :: PackLoader where
  "demo_loader = WithSearchPaths [''/p''] (NewPackLoader ''/home/u'')"

lemma demo_loadable: "loadable demo_loader_env [''/p''] True 2 ''app''"
  by code_simp

lemma demo_loader_ok: "loader_ok demo_loader_env [''/p''] True demo_loader"
  using NewPackLoader_ok[of demo_loader] by (simp add: demo_loader_def WithSearchPaths_def NewPackLoader_def)

lemma demo_loadable_max: "loadable demo_loader_env [''/p''] True packDepthMax ''app''"
  by (rule loadable_mono[OF demo_loadable]) (simp add: packDepthMax_def)

lemma demo_sources_apart: "sources_apart demo_loader_env [''/p''] True"
  by (rule absolute_sources_apart) simp

text \<open>The loader the program builds, with a pack in \<open>./query-packs\<close> that requires an embedded one.\<close>

definition demo_default_env :: loader_env where
  "demo_default_env = demo_loader_env\<lparr>
     lenv_ReadFile := (\<lambda>p. if p = ''query-packs/app/manifest.yaml'' then Inr ''app'' else if p = ''query-packs/app/q.sql'' then Inr ''select 1'' else Inl NotExist),
     lenv_Embedded := (\<lambda>p. if p = ''packs/base/manifest.yaml'' then Inr ''base'' else if p = ''packs/base/q.sql'' then Inr ''select 2'' else Inl NotExist),
     lenv_Unmarshal := (\<lambda>data. if data = ''app'' \<or> data = ''base'' then lenv_Unmarshal demo_loader_env data else Inl ''yaml'')\<rparr>"

definition default_paths :: "string list" where
  "default_paths = pl_searchPaths (NewPackLoader ''/home/u'')"

lemma demo_default_located:
  assumes "locate demo_default_env default_paths True ns = Inr (m, p)"
  shows "p \<in> {''query-packs/app/manifest.yaml'', ''packs/base/manifest.yaml''} \<and> sp_Queries (mf_Spec m) = [demo_spec]"
proof -
  have disk: "p = ''query-packs/app/manifest.yaml'' \<and> sp_Queries (mf_Spec m) = [demo_spec]"
    if "loadManifestFromFile demo_default_env p = Inr m" for p m
    using that by (auto simp: loadManifestFromFile_def parsed_manifest_def demo_default_env_def demo_loader_env_def demo_manifest_def split: if_splits)
  have emb: "p = ''packs/base/manifest.yaml'' \<and> sp_Queries (mf_Spec m) = [demo_spec]"
    if "loadManifestFromEmbedded demo_default_env p = Inr m" for p m
    using that by (auto simp: loadManifestFromEmbedded_def parsed_manifest_def demo_default_env_def demo_loader_env_def demo_manifest_def split: if_splits)
  have "search_loop demo_default_env ns paths = Some (Inr (m, p)) \<Longrightarrow> p = ''query-packs/app/manifest.yaml'' \<and> sp_Queries (mf_Spec m) = [demo_spec]" for paths
    by (induction paths) (auto simp: Let_def split: sum.splits if_splits dest: disk)
  then show ?thesis
    using assms by (auto simp: locate_def Let_def split: option.splits sum.splits if_splits dest: emb)
qed

lemma demo_default_apart: "sources_apart demo_default_env default_paths True"
proof -
  have "embedded_path p \<longleftrightarrow> embedded_path p'"
    if "locate demo_default_env default_paths True ns = Inr (m, p)" "s \<in> set (sp_Queries (mf_Spec m))"
      "locate demo_default_env default_paths True ns' = Inr (m', p')" "s' \<in> set (sp_Queries (mf_Spec m'))" "query_path p s = query_path p' s'"
    for ns m p s ns' m' p' s'
  proof -
    have q: "query_path ''query-packs/app/manifest.yaml'' demo_spec = ''query-packs/app/q.sql''"
      "query_path ''packs/base/manifest.yaml'' demo_spec = ''packs/base/q.sql''" by code_simp+
    from demo_default_located[OF that(1)] demo_default_located[OF that(3)] that(2,4,5) q show ?thesis by auto
  qed
  then show ?thesis unfolding sources_apart_def by blast
qed

lemma demo_default_loadable: "loadable demo_default_env default_paths True packDepthMax ''app''"
proof -
  have "loadable demo_default_env default_paths True 2 ''app''" by code_simp
  then show ?thesis by (rule loadable_mono) (simp add: packDepthMax_def)
qed

theorem LoadPack_sound_complete_witness:
  "\<exists>pack l'. LoadPack demo_default_env ''app'' (NewPackLoader ''/home/u'') = Some (Inr pack, l') \<and>
     stands_for demo_default_env default_paths True ''app'' pack"
  using LoadPack_sound_complete[OF demo_default_apart, of "NewPackLoader ''/home/u''" "''app''"] demo_default_loadable
    new_loader_lives[of demo_default_env "''/home/u''"]
  by (auto simp: default_paths_def)

end
