(* ===== verification/Pack_Checksum.thy ===== *)
theory Pack_Checksum imports Prelude Sha256 "HOL-Library.AList" begin

text \<open>
  pkg/query/compliance/registry_checksum.go and registry_lock.go: what a release publishes about its
  pack, the parser of checksum files, and the lockfile of pinned digests. A digest is 64 hexadecimal
  characters; the maps of the lockfile are partial functions with finite domains, which is what JSON
  objects decode to.
\<close>

subsection \<open>Releases\<close>

record GitHubReleaseAsset =
  ga_Name :: string
  ga_Size :: int
  ga_DownloadURL :: string
  ga_ContentType :: string

record GitHubRelease =
  gr_TagName :: string
  gr_Name :: string
  gr_PublishedAt :: int
  gr_TarballURL :: string
  gr_ZipballURL :: string
  gr_Assets :: "GitHubReleaseAsset list"
  gr_Prerelease :: bool
  gr_Draft :: bool

record RegistryPackVersion =
  rv_Version :: string
  rv_Tag :: string
  rv_Commit :: string
  rv_ReleaseDate :: int
  rv_Checksum :: string
  rv_Size :: int
  rv_DownloadURL :: string
  rv_TarballURL :: string
  rv_AssetName :: string
  rv_ChecksumURL :: string
  rv_Deprecated :: bool

definition checksumsAssetName :: string where
  "checksumsAssetName = ''checksums.txt''"

definition checksumAssetSuffix :: string where
  "checksumAssetSuffix = ''.sha256''"

definition packAssetSuffix :: string where
  "packAssetSuffix = ''.tar.gz''"

definition sha256HexLen :: nat where
  "sha256HexLen = 64"

definition checksumFileBytesMax :: nat where
  "checksumFileBytesMax = 65536"

definition checksumLineCountMax :: nat where
  "checksumLineCountMax = 1024"

fun pack_asset_loop :: "GitHubReleaseAsset list \<Rightarrow> GitHubReleaseAsset option \<Rightarrow> nat \<Rightarrow> GitHubReleaseAsset option \<times> nat" where
  "pack_asset_loop [] found cnt = (found, cnt)"
| "pack_asset_loop (a # as) found cnt =
     (if strings_HasSuffix (ga_Name a) packAssetSuffix \<and> ga_DownloadURL a \<noteq> []
      then pack_asset_loop as (Some a) (cnt + 1) else pack_asset_loop as found cnt)"

definition packAsset :: "GitHubReleaseAsset list \<Rightarrow> GitHubReleaseAsset option panics" where
  "packAsset assets = (case pack_asset_loop assets None 0 of
     (found, cnt) \<Rightarrow> if cnt \<noteq> 1 then Some None
       else do {
         assert_That (case found of Some a \<Rightarrow> ga_Name a \<noteq> [] | None \<Rightarrow> False);
         Some found
       })"

fun checksum_url_loop :: "string \<Rightarrow> GitHubReleaseAsset list \<Rightarrow> string \<Rightarrow> string \<Rightarrow> string \<times> string" where
  "checksum_url_loop assetName [] perAsset releaseWide = (perAsset, releaseWide)"
| "checksum_url_loop assetName (a # as) perAsset releaseWide =
     (if ga_Name a = assetName @ checksumAssetSuffix then checksum_url_loop assetName as (ga_DownloadURL a) releaseWide
      else if ga_Name a = checksumsAssetName then checksum_url_loop assetName as perAsset (ga_DownloadURL a)
      else checksum_url_loop assetName as perAsset releaseWide)"

definition checksumAssetURL :: "GitHubReleaseAsset list \<Rightarrow> string \<Rightarrow> string panics" where
  "checksumAssetURL assets assetName = do {
     assert_That (assetName \<noteq> []);
     (case checksum_url_loop assetName assets [] [] of
        (perAsset, releaseWide) \<Rightarrow> Some (if perAsset \<noteq> [] then perAsset else releaseWide))
   }"

definition version_of_release :: "GitHubRelease \<Rightarrow> RegistryPackVersion panics" where
  "version_of_release r = (let v = \<lparr>rv_Version = gr_TagName r, rv_Tag = gr_TagName r, rv_Commit = [],
       rv_ReleaseDate = gr_PublishedAt r, rv_Checksum = [], rv_Size = 0, rv_DownloadURL = [], rv_TarballURL = gr_TarballURL r,
       rv_AssetName = [], rv_ChecksumURL = [], rv_Deprecated = False\<rparr> in do {
     found \<leftarrow> packAsset (gr_Assets r);
     (case found of
        None \<Rightarrow> Some v
      | Some a \<Rightarrow> do {
          url \<leftarrow> checksumAssetURL (gr_Assets r) (ga_Name a);
          Some (v\<lparr>rv_AssetName := ga_Name a, rv_DownloadURL := ga_DownloadURL a, rv_Size := ga_Size a, rv_ChecksumURL := url\<rparr>)
        })
   })"

fun versions_loop :: "GitHubRelease list \<Rightarrow> RegistryPackVersion list \<Rightarrow> RegistryPackVersion list panics" where
  "versions_loop [] versions = Some versions"
| "versions_loop (r # rs) versions =
     (if gr_Draft r \<or> gr_Prerelease r then versions_loop rs versions
      else do {
        v \<leftarrow> version_of_release r;
        versions_loop rs (versions @ [v])
      })"

definition packVersionsFromReleases :: "GitHubRelease list \<Rightarrow> RegistryPackVersion list panics" where
  "packVersionsFromReleases releases = do {
     versions \<leftarrow> versions_loop releases [];
     assert_That (length versions \<le> length releases);
     Some versions
   }"

definition checksumFileIsPerAsset :: "string \<Rightarrow> bool" where
  "checksumFileIsPerAsset url = strings_HasSuffix url checksumAssetSuffix"

subsection \<open>Checksum files\<close>

datatype checksum_error =
    ChecksumMissing
  | ChecksumMalformed

definition hex_char :: "char \<Rightarrow> bool" where
  "hex_char c \<longleftrightarrow> (let n = (of_char c :: nat) in (48 \<le> n \<and> n \<le> 57) \<or> (65 \<le> n \<and> n \<le> 70) \<or> (97 \<le> n \<and> n \<le> 102))"

text \<open>\<open>hex.DecodeString\<close> accepts an even number of hexadecimal digits of either case.\<close>

definition normalizeDigest :: "string \<Rightarrow> string option" where
  "normalizeDigest digest =
     (if length digest \<noteq> sha256HexLen then None
      else if \<not> (even (length digest) \<and> list_all hex_char digest) then None
      else Some (strings_ToLower digest))"

text \<open>A digest and the file name, empty only for a bare digest.\<close>

definition parseChecksumLine :: "string \<Rightarrow> bool \<Rightarrow> (string \<times> string) option panics" where
  "parseChecksumLine line bareAllowed =
     (if length line < sha256HexLen then Some None
      else (case normalizeDigest (take sha256HexLen line) of
          None \<Rightarrow> Some None
        | Some digest \<Rightarrow> (let rest = drop sha256HexLen line in
            if rest = [] then Some (if bareAllowed then Some (digest, []) else None)
            else if \<not> strings_HasPrefix rest ''  '' \<and> \<not> strings_HasPrefix rest '' *'' then Some None
            else if drop 2 rest = [] then Some None
            else do {
              assert_That (length digest = sha256HexLen);
              Some (Some (digest, drop 2 rest))
            })))"

fun checksum_loop :: "string \<Rightarrow> bool \<Rightarrow> string list \<Rightarrow> string \<Rightarrow> (checksum_error + string) panics" where
  "checksum_loop assetName bareAllowed [] found = Some (Inr found)"
| "checksum_loop assetName bareAllowed (line # lines) found =
     (let line = strings_TrimSuffix line [CHR 0x0D] in
      if line = [] then checksum_loop assetName bareAllowed lines found
      else do {
        parsed \<leftarrow> parseChecksumLine line bareAllowed;
        (case parsed of
           None \<Rightarrow> Some (Inl ChecksumMalformed)
         | Some (digest, name) \<Rightarrow>
             if name \<noteq> [] \<and> name \<noteq> assetName then checksum_loop assetName bareAllowed lines found
             else if found \<noteq> [] then Some (Inl ChecksumMalformed)
             else checksum_loop assetName bareAllowed lines digest)
      })"

definition parseChecksumFile :: "string \<Rightarrow> string \<Rightarrow> bool \<Rightarrow> (checksum_error + string) panics" where
  "parseChecksumFile data assetName bareAllowed = do {
     assert_That (assetName \<noteq> []);
     if length data > checksumFileBytesMax then Some (Inl ChecksumMalformed)
     else (let lines = strings_Split data (CHR 0x0A) in
       if length lines > checksumLineCountMax + 1 then Some (Inl ChecksumMalformed)
       else do {
         res \<leftarrow> checksum_loop assetName bareAllowed lines [];
         (case res of
            Inl err \<Rightarrow> Some (Inl err)
          | Inr found \<Rightarrow>
              if found = [] then Some (Inl ChecksumMissing)
              else do {
                assert_That (length found = sha256HexLen);
                Some (Inr found)
              })
       })
   }"

subsection \<open>The lockfile\<close>

record packPin =
  pin_SHA256 :: string
  pin_URL :: string
  pin_Verified :: bool

record packLock =
  lock_Version :: int
  lock_Packs :: "(string \<times> (string \<times> packPin) list) list"

definition packLockVersion :: int where
  "packLockVersion = 1"

definition packLockEntryCountMax :: nat where
  "packLockEntryCountMax = 10000"

definition packLockBytesMax :: nat where
  "packLockBytesMax = 4 * 1048576"

definition newPackLock :: packLock where
  "newPackLock = \<lparr>lock_Version = packLockVersion, lock_Packs = []\<rparr>"

definition source_pins :: "packLock \<Rightarrow> string \<Rightarrow> (string \<times> packPin) list" where
  "source_pins l source = (case map_of (lock_Packs l) source of None \<Rightarrow> [] | Some versions \<Rightarrow> versions)"

definition lookup_pin :: "packLock \<Rightarrow> string \<Rightarrow> string \<Rightarrow> packPin option" where
  "lookup_pin l source version = map_of (source_pins l source) version"

fun entry_count_loop :: "(string \<times> (string \<times> packPin) list) list \<Rightarrow> nat \<Rightarrow> nat" where
  "entry_count_loop [] cnt = cnt"
| "entry_count_loop ((source, versions) # rest) cnt = entry_count_loop rest (cnt + length versions)"

definition entryCount :: "packLock \<Rightarrow> nat" where
  "entryCount l = entry_count_loop (lock_Packs l) 0"

datatype lock_error =
    LockFull
  | TooManyPins
  | EmptySource
  | EmptyVersion string
  | BadDigest string string
  | DigestNotLower string string
  | BadVersion int
  | TrailingData
  | TooLarge
  | LockIO string

definition pin_version :: "string \<Rightarrow> string \<Rightarrow> packPin \<Rightarrow> packLock \<Rightarrow> (lock_error + packLock) panics" where
  "pin_version source version pin l = do {
     assert_That (source \<noteq> []);
     assert_That (version \<noteq> []);
     assert_That (length (pin_SHA256 pin) = sha256HexLen);
     if lookup_pin l source version = None \<and> entryCount l \<ge> packLockEntryCountMax then Some (Inl LockFull)
     else (let l' = l\<lparr>lock_Packs := AList.update source (AList.update version pin (source_pins l source)) (lock_Packs l)\<rparr> in do {
       assert_That (entryCount l' \<le> packLockEntryCountMax);
       Some (Inr l')
     })
   }"

text \<open>
  The order in which the maps are ranged over decides only which of several errors is reported; here
  it is the order of the entries.
\<close>

fun validate_versions_loop :: "string \<Rightarrow> (string \<times> packPin) list \<Rightarrow> lock_error option" where
  "validate_versions_loop source [] = None"
| "validate_versions_loop source ((version, pin) # rest) =
     (if version = [] then Some (EmptyVersion source)
      else (case normalizeDigest (pin_SHA256 pin) of
          None \<Rightarrow> Some (BadDigest source version)
        | Some digest \<Rightarrow> if digest \<noteq> pin_SHA256 pin then Some (DigestNotLower source version)
            else validate_versions_loop source rest))"

fun validate_sources_loop :: "(string \<times> (string \<times> packPin) list) list \<Rightarrow> lock_error option" where
  "validate_sources_loop [] = None"
| "validate_sources_loop ((source, versions) # rest) =
     (if source = [] then Some EmptySource
      else (case validate_versions_loop source versions of
          Some err \<Rightarrow> Some err
        | None \<Rightarrow> validate_sources_loop rest))"

definition validatePackLock :: "packLock \<Rightarrow> lock_error option" where
  "validatePackLock l = (if entryCount l > packLockEntryCountMax then Some TooManyPins
     else validate_sources_loop (lock_Packs l))"

text \<open>
  JSON is a parameter: what the strict decoder makes of the bytes, and whether more data follows the
  object; and the indented text of a lock.
\<close>

type_synonym lock_decoder = "string \<Rightarrow> string + packLock \<times> bool"
type_synonym lock_encoder = "packLock \<Rightarrow> string + string"

definition decodePackLock :: "lock_decoder \<Rightarrow> string \<Rightarrow> lock_error + packLock" where
  "decodePackLock decode data = (case decode data of
     Inl err \<Rightarrow> Inl (LockIO err)
   | Inr (lock, trailing) \<Rightarrow>
       if trailing then Inl TrailingData
       else if lock_Version lock \<noteq> packLockVersion then Inl (BadVersion (lock_Version lock))
       else (case validatePackLock lock of Some err \<Rightarrow> Inl err | None \<Rightarrow> Inr lock))"

text \<open>The lockfile on disk: missing, unreadable, or its bytes.\<close>

datatype lock_file = LockMissing | LockUnreadable string | LockBytes string

definition readPackLock :: "lock_decoder \<Rightarrow> lock_file \<Rightarrow> lock_error + packLock" where
  "readPackLock decode f = (case f of
     LockMissing \<Rightarrow> Inr newPackLock
   | LockUnreadable err \<Rightarrow> Inl (LockIO err)
   | LockBytes bytes \<Rightarrow> (let data = take (packLockBytesMax + 1) bytes in
       if length data > packLockBytesMax then Inl TooLarge else decodePackLock decode data))"

text \<open>The calls that replace the file, each of which may fail; the file changes at the rename alone.\<close>

datatype lock_call = LockCreateTemp | LockWrite | LockSync | LockClose | LockRename | LockRemove

definition first_errors :: "(lock_call \<Rightarrow> string option) \<Rightarrow> lock_call list \<Rightarrow> string list" where
  "first_errors fails calls = List.map_filter fails calls"

definition writePackLock :: "lock_encoder \<Rightarrow> (lock_call \<Rightarrow> string option) \<Rightarrow> packLock \<Rightarrow> lock_file \<Rightarrow>
    (lock_error option \<times> lock_file) panics" where
  "writePackLock encode fails lock f = do {
     assert_That (lock_Version lock = packLockVersion);
     assert_That (entryCount lock \<le> packLockEntryCountMax);
     (case encode lock of
        Inl err \<Rightarrow> Some (Some (LockIO err), f)
      | Inr text \<Rightarrow> (let data = text @ [CHR 0x0A] in
          if length data > packLockBytesMax then Some (Some TooLarge, f)
          else (case fails LockCreateTemp of
              Some err \<Rightarrow> Some (Some (LockIO err), f)
            | None \<Rightarrow> (let writeErr = (case fails LockWrite of Some e \<Rightarrow> Some e | None \<Rightarrow> fails LockSync) in
                if writeErr \<noteq> None \<or> fails LockClose \<noteq> None
                then Some (Some (LockIO (concat (List.map_filter id [writeErr, fails LockClose, fails LockRemove]))), f)
                else (case fails LockRename of
                    Some err \<Rightarrow> Some (Some (LockIO (concat (err # List.map_filter id [fails LockRemove]))), f)
                  | None \<Rightarrow> Some (None, LockBytes data))))))
   }"

subsection \<open>What a checksum file says\<close>

text \<open>
  A well-formed line: a digest in either case, and unless it is alone (where that is allowed) two
  spaces, or a space and an asterisk, and a file name.
\<close>

definition sha_digest :: "string \<Rightarrow> bool" where
  "sha_digest hex \<longleftrightarrow> length hex = sha256HexLen \<and> list_all hex_char hex"

inductive checksum_line :: "bool \<Rightarrow> string \<Rightarrow> string \<Rightarrow> string \<Rightarrow> bool" for bare where
  bare: "bare \<Longrightarrow> sha_digest hex \<Longrightarrow> checksum_line bare hex (strings_ToLower hex) []"
| text_mode: "sha_digest hex \<Longrightarrow> name \<noteq> [] \<Longrightarrow> checksum_line bare (hex @ ''  '' @ name) (strings_ToLower hex) name"
| binary_mode: "sha_digest hex \<Longrightarrow> name \<noteq> [] \<Longrightarrow> checksum_line bare (hex @ '' *'' @ name) (strings_ToLower hex) name"

inductive_simps checksum_line_iff: "checksum_line bare line d n"

definition checksum_lines :: "string \<Rightarrow> string list" where
  "checksum_lines data = filter (\<lambda>l. l \<noteq> []) (map (\<lambda>l. strings_TrimSuffix l [CHR 0x0D]) (strings_Split data (CHR 0x0A)))"

lemma ToLower_length [simp]: "length (strings_ToLower s) = length s"
  by (simp add: strings_ToLower_def)

lemma ToLower_Nil [simp]: "strings_ToLower s = [] \<longleftrightarrow> s = []"
  by (simp add: strings_ToLower_def)

lemma normalizeDigest_Some: "normalizeDigest hex = Some d \<longleftrightarrow> sha_digest hex \<and> d = strings_ToLower hex"
  by (auto simp: normalizeDigest_def sha_digest_def sha256HexLen_def)

lemma normalizeDigest_None: "normalizeDigest hex = None \<longleftrightarrow> \<not> sha_digest hex"
  by (auto simp: normalizeDigest_def sha_digest_def sha256HexLen_def)

lemma checksum_line_split: "checksum_line bare line d n \<longleftrightarrow>
    sha_digest (take sha256HexLen line) \<and> d = strings_ToLower (take sha256HexLen line) \<and>
    (drop sha256HexLen line = [] \<and> bare \<and> n = [] \<or> drop sha256HexLen line = ''  '' @ n \<and> n \<noteq> [] \<or>
     drop sha256HexLen line = '' *'' @ n \<and> n \<noteq> [])" (is "?l \<longleftrightarrow> ?r")
proof
  assume ?l
  then show ?r by cases (auto simp: sha_digest_def)
next
  assume ?r
  moreover define hex where "hex = take sha256HexLen line"
  moreover have "line = hex @ drop sha256HexLen line" by (simp add: hex_def)
  ultimately show ?l
    by (metis append_Nil2 checksum_line.bare checksum_line.text_mode checksum_line.binary_mode)
qed

text \<open>The line parser decides the relation and does not panic.\<close>

lemma parseChecksumLine_spec:
  "\<exists>r. parseChecksumLine line bare = Some r \<and> (\<forall>d n. checksum_line bare line d n \<longleftrightarrow> r = Some (d, n)) \<and>
     (\<forall>d n. r = Some (d, n) \<longrightarrow> length d = sha256HexLen)"
proof (cases "sha_digest (take sha256HexLen line)")
  case False
  then show ?thesis
    by (auto simp: parseChecksumLine_def checksum_line_split normalizeDigest_None[symmetric])
next
  case True
  then have norm: "normalizeDigest (take sha256HexLen line) = Some (strings_ToLower (take sha256HexLen line))"
    and len: "\<not> length line < sha256HexLen" "length (strings_ToLower (take sha256HexLen line)) = sha256HexLen"
    by (auto simp: normalizeDigest_Some sha_digest_def)
  define rest where "rest = drop sha256HexLen line"
  consider "rest = []" | n where "rest = ''  '' @ n \<or> rest = '' *'' @ n"
    | "rest \<noteq> []" "\<not> prefix ''  '' rest" "\<not> prefix '' *'' rest"
    unfolding prefix_def by blast
  then show ?thesis
  proof cases
    case 1
    with norm len True show ?thesis
      by (auto simp: parseChecksumLine_def checksum_line_split rest_def[symmetric])
  next
    case (2 n)
    then have "drop 2 rest = n" "rest \<noteq> []" "prefix ''  '' rest \<or> prefix '' *'' rest" by auto
    with 2 norm len True show ?thesis
      by (auto simp: parseChecksumLine_def checksum_line_split rest_def[symmetric])
  next
    case 3
    with norm len True show ?thesis
      by (auto simp: parseChecksumLine_def checksum_line_split rest_def[symmetric] prefix_def)
  qed
qed

text \<open>The digests the lines give for an asset, in order.\<close>

fun line_hits :: "string \<Rightarrow> (string \<times> string) option list \<Rightarrow> string list" where
  "line_hits a [] = []"
| "line_hits a (Some (d, n) # ps) = (if n = [] \<or> n = a then d # line_hits a ps else line_hits a ps)"
| "line_hits a (None # ps) = line_hits a ps"

lemma line_hits_append [simp]: "line_hits a (xs @ ys) = line_hits a xs @ line_hits a ys"
  by (induction a xs rule: line_hits.induct) auto

definition entry_of :: "bool \<Rightarrow> string \<Rightarrow> (string \<times> string) option" where
  "entry_of bare line = the (parseChecksumLine line bare)"

lemma entry_of_iff: "entry_of bare line = Some (d, n) \<longleftrightarrow> checksum_line bare line d n"
  and parse_entry: "parseChecksumLine line bare = Some (entry_of bare line)"
  and entry_len: "entry_of bare line = Some (d, n) \<Longrightarrow> length d = sha256HexLen"
  using parseChecksumLine_spec[of line bare] by (auto simp: entry_of_def)

definition loop_result :: "string \<Rightarrow> string \<Rightarrow> (string \<times> string) option list \<Rightarrow> checksum_error + string" where
  "loop_result found a es = (let hits = (if found = [] then [] else [found]) @ line_hits a es in
     if None \<in> set es \<or> length hits > 1 then Inl ChecksumMalformed else Inr (concat hits))"

lemma loop_result_other: "n \<noteq> [] \<Longrightarrow> n \<noteq> a \<Longrightarrow> loop_result found a (Some (d, n) # es) = loop_result found a es"
  by (simp add: loop_result_def)

lemma loop_result_hit: "n = [] \<or> n = a \<Longrightarrow> d \<noteq> [] \<Longrightarrow> loop_result [] a (Some (d, n) # es) = loop_result d a es"
  by (auto simp: loop_result_def)

lemma loop_result_again: "n = [] \<or> n = a \<Longrightarrow> found \<noteq> [] \<Longrightarrow> loop_result found a (Some (d, n) # es) = Inl ChecksumMalformed"
  by (auto simp: loop_result_def)

lemma checksum_loop_spec:
  assumes "found = [] \<or> length found = sha256HexLen"
  shows "checksum_loop a bare ls found =
    Some (loop_result found a (map (entry_of bare) (filter (\<lambda>l. l \<noteq> []) (map (\<lambda>l. strings_TrimSuffix l [CHR 0x0D]) ls))))"
  using assms
proof (induction ls arbitrary: found)
  case (Cons l ls)
  define l' where "l' = strings_TrimSuffix l [CHR 0x0D]"
  define es where "es = map (entry_of bare) (filter (\<lambda>l. l \<noteq> []) (map (\<lambda>l. strings_TrimSuffix l [CHR 0x0D]) ls))"
  have goal: ?case if "checksum_loop a bare (l # ls) found = Some (loop_result found a (if l' = [] then es else entry_of bare l' # es))"
    using that by (simp add: l'_def es_def)
  have step: "checksum_loop a bare (l # ls) found = (if l' = [] then checksum_loop a bare ls found
      else case entry_of bare l' of
        None \<Rightarrow> Some (Inl ChecksumMalformed)
      | Some (digest, name) \<Rightarrow>
          if name \<noteq> [] \<and> name \<noteq> a then checksum_loop a bare ls found
          else if found \<noteq> [] then Some (Inl ChecksumMalformed) else checksum_loop a bare ls digest)"
    by (simp add: l'_def[symmetric] parse_entry)
  have IH: "checksum_loop a bare ls f = Some (loop_result f a es)" if "f = [] \<or> length f = sha256HexLen" for f
    using Cons.IH[OF that] by (simp add: es_def)
  show ?case
  proof (rule goal, cases "entry_of bare l'")
    case None
    then show "checksum_loop a bare (l # ls) found = Some (loop_result found a (if l' = [] then es else entry_of bare l' # es))"
      using step IH[OF Cons.prems] by (simp add: loop_result_def)
  next
    case (Some dn)
    then obtain d n where dn: "entry_of bare l' = Some (d, n)" by (cases dn) auto
    have d: "length d = sha256HexLen" using entry_len[OF dn] .
    then have "d \<noteq> []" by (auto simp: sha256HexLen_def)
    then show "checksum_loop a bare (l # ls) found = Some (loop_result found a (if l' = [] then es else entry_of bare l' # es))"
      using step dn IH[OF Cons.prems] IH[of d] d loop_result_other[of n a found d es] loop_result_hit[of n a d es]
        loop_result_again[of n a found d es]
      by (cases "n = [] \<or> n = a"; cases "found = []") simp_all
  qed
qed (simp add: loop_result_def)

definition concerns :: "bool \<Rightarrow> string \<Rightarrow> string \<Rightarrow> bool" where
  "concerns bare a line \<longleftrightarrow> (\<exists>d. checksum_line bare line d [] \<or> checksum_line bare line d a)"

lemma concerns_entry: "entry_of bare line = Some (d, n) \<Longrightarrow> concerns bare a line \<longleftrightarrow> n = [] \<or> n = a"
  by (auto simp: concerns_def simp flip: entry_of_iff)

lemma line_hits_Nil: "None \<notin> set (map (entry_of bare) ls) \<Longrightarrow>
    line_hits a (map (entry_of bare) ls) = [] \<longleftrightarrow> (\<forall>l \<in> set ls. \<not> concerns bare a l)"
proof (induction ls)
  case (Cons l ls)
  then obtain d n where "entry_of bare l = Some (d, n)" by (cases "entry_of bare l") auto
  with Cons show ?case using concerns_entry by auto
qed simp

lemma line_hits_single: "None \<notin> set (map (entry_of bare) ls) \<Longrightarrow>
    line_hits a (map (entry_of bare) ls) = [d] \<longleftrightarrow>
      (\<exists>pre l post n. ls = pre @ l # post \<and> checksum_line bare l d n \<and> (n = [] \<or> n = a) \<and>
         (\<forall>l' \<in> set (pre @ post). \<not> concerns bare a l'))"
proof (induction ls)
  case (Cons l ls)
  then obtain d' n where e: "entry_of bare l = Some (d', n)" by (cases "entry_of bare l") auto
  have c: "concerns bare a l \<longleftrightarrow> n = [] \<or> n = a" by (rule concerns_entry[OF e])
  have i: "checksum_line bare l d2 n2 \<longleftrightarrow> d2 = d' \<and> n2 = n" for d2 n2 using e by (auto simp flip: entry_of_iff)
  have ok: "None \<notin> set (map (entry_of bare) ls)" using Cons.prems by auto
  show ?case
  proof (cases "n = [] \<or> n = a")
    case True
    have "line_hits a (map (entry_of bare) (l # ls)) = [d] \<longleftrightarrow> d' = d \<and> (\<forall>l \<in> set ls. \<not> concerns bare a l)"
      using e True line_hits_Nil[OF ok] by simp
    also have "\<dots> \<longleftrightarrow> (\<exists>pre l1 post n. l # ls = pre @ l1 # post \<and> checksum_line bare l1 d n \<and> (n = [] \<or> n = a) \<and>
         (\<forall>l' \<in> set (pre @ post). \<not> concerns bare a l'))" (is "_ \<longleftrightarrow> ?ex (l # ls)")
    proof
      assume "d' = d \<and> (\<forall>l \<in> set ls. \<not> concerns bare a l)"
      with i True show "?ex (l # ls)" by (intro exI[of _ "[]"] exI[of _ l] exI[of _ ls] exI[of _ n]) simp
    next
      assume "?ex (l # ls)"
      then obtain pre l1 post n1 where p: "l # ls = pre @ l1 # post" "checksum_line bare l1 d n1"
        "\<forall>l' \<in> set (pre @ post). \<not> concerns bare a l'" by blast
      with c True have "pre = []" by (cases pre) auto
      with p i show "d' = d \<and> (\<forall>l \<in> set ls. \<not> concerns bare a l)" by simp
    qed
    finally show ?thesis .
  next
    case False
    have "line_hits a (map (entry_of bare) (l # ls)) = [d] \<longleftrightarrow> line_hits a (map (entry_of bare) ls) = [d]"
      using e False by simp
    also have "\<dots> \<longleftrightarrow> (\<exists>pre l1 post n. l # ls = pre @ l1 # post \<and> checksum_line bare l1 d n \<and> (n = [] \<or> n = a) \<and>
         (\<forall>l' \<in> set (pre @ post). \<not> concerns bare a l'))"
      unfolding Cons.IH[OF ok]
    proof (intro iffI; elim exE conjE)
      fix pre l1 post n1
      assume "ls = pre @ l1 # post" "checksum_line bare l1 d n1" "n1 = [] \<or> n1 = a" "\<forall>l' \<in> set (pre @ post). \<not> concerns bare a l'"
      then show "\<exists>pre l1 post n. l # ls = pre @ l1 # post \<and> checksum_line bare l1 d n \<and> (n = [] \<or> n = a) \<and>
         (\<forall>l' \<in> set (pre @ post). \<not> concerns bare a l')"
        using c False by (intro exI[of _ "l # pre"] exI[of _ l1] exI[of _ post] exI[of _ n1]) simp
    next
      fix pre l1 post n1
      assume p: "l # ls = pre @ l1 # post" "checksum_line bare l1 d n1" "n1 = [] \<or> n1 = a" "\<forall>l' \<in> set (pre @ post). \<not> concerns bare a l'"
      with i False obtain pre' where "pre = l # pre'" by (cases pre) auto
      with p show "\<exists>pre l1 post n. ls = pre @ l1 # post \<and> checksum_line bare l1 d n \<and> (n = [] \<or> n = a) \<and>
         (\<forall>l' \<in> set (pre @ post). \<not> concerns bare a l')" by auto
    qed
    finally show ?thesis .
  qed
qed simp

definition checksum_file_small :: "string \<Rightarrow> bool" where
  "checksum_file_small data \<longleftrightarrow> length data \<le> checksumFileBytesMax \<and>
     length (strings_Split data (CHR 0x0A)) \<le> checksumLineCountMax + 1"

lemma parseChecksumFile_eq:
  assumes "a \<noteq> []"
  shows "parseChecksumFile data a bare = Some
    (let es = map (entry_of bare) (checksum_lines data); hits = line_hits a es in
     if \<not> checksum_file_small data \<or> None \<in> set es \<or> length hits > 1 then Inl ChecksumMalformed
     else case hits of [] \<Rightarrow> Inl ChecksumMissing | d # _ \<Rightarrow> Inr d)"
proof -
  define es where "es = map (entry_of bare) (checksum_lines data)"
  have len: "length d = sha256HexLen" if "line_hits a es = [d]" for d
  proof -
    have "\<forall>d \<in> set (line_hits a ps). \<exists>n. Some (d, n) \<in> set ps" for ps
      by (induction a ps rule: line_hits.induct) auto
    with that obtain n where "Some (d, n) \<in> set es" by (metis list.set_intros(1))
    then obtain line where "entry_of bare line = Some (d, n)" by (auto simp: es_def)
    then show ?thesis by (rule entry_len)
  qed
  have loop: "checksum_loop a bare (strings_Split data (CHR 0x0A)) [] =
      Some (if None \<in> set es \<or> length (line_hits a es) > 1 then Inl ChecksumMalformed else Inr (concat (line_hits a es)))"
    using checksum_loop_spec[of "[]" a bare "strings_Split data (CHR 0x0A)"]
    by (simp add: loop_result_def Let_def es_def checksum_lines_def)
  consider "line_hits a es = []" | d where "line_hits a es = [d]" | "length (line_hits a es) > 1"
    by (cases "line_hits a es" rule: remdups_adj.cases) auto
  then show ?thesis
  proof cases
    case (2 d)
    moreover have "d \<noteq> []" using len[OF 2] by (auto simp: sha256HexLen_def)
    ultimately show ?thesis using assms loop len[OF 2]
      by (auto simp: parseChecksumFile_def checksum_file_small_def Let_def es_def[symmetric])
  qed (use assms loop in \<open>auto simp: parseChecksumFile_def checksum_file_small_def Let_def es_def[symmetric]\<close>)
qed

lemma None_not_in_map: "(\<forall>x \<in> set xs. f x \<noteq> None) \<longleftrightarrow> None \<notin> set (map f xs)"
  by (induction xs) auto

text \<open>
  C28. The parser of checksum files never panics on untrusted bytes, and accepts a digest for an asset
  exactly when the file is within its limits, every line that is not empty is well formed, and one
  line alone is about the asset (it names it, or names nothing where that is allowed); the digest is
  that line's, in lower case. That no digest is published is what it answers exactly when the file is
  well formed and no line is about the asset: a file that is damaged is never taken for one that is
  silent.
\<close>

theorem parseChecksumFile_correct:
  assumes "a \<noteq> []"
  shows "\<exists>r. parseChecksumFile data a bare = Some r \<and>
    (\<forall>d. r = Inr d \<longleftrightarrow> checksum_file_small data \<and> (\<forall>l \<in> set (checksum_lines data). \<exists>d n. checksum_line bare l d n) \<and>
       (\<exists>pre l post n. checksum_lines data = pre @ l # post \<and> checksum_line bare l d n \<and> (n = [] \<or> n = a) \<and>
          (\<forall>l' \<in> set (pre @ post). \<not> concerns bare a l'))) \<and>
    (r = Inl ChecksumMissing \<longleftrightarrow> checksum_file_small data \<and> (\<forall>l \<in> set (checksum_lines data). \<exists>d n. checksum_line bare l d n) \<and>
       (\<forall>l \<in> set (checksum_lines data). \<not> concerns bare a l)) \<and>
    (isl r \<longrightarrow> r = Inl ChecksumMissing \<or> r = Inl ChecksumMalformed)"
proof -
  define es where "es = map (entry_of bare) (checksum_lines data)"
  have some: "(\<exists>d n. checksum_line bare l d n) \<longleftrightarrow> entry_of bare l \<noteq> None" for l
    unfolding entry_of_iff[symmetric] by (cases "entry_of bare l") auto
  have wf: "(\<forall>l \<in> set (checksum_lines data). \<exists>d n. checksum_line bare l d n) \<longleftrightarrow> None \<notin> set es"
    unfolding some es_def by (rule None_not_in_map)
  define r where "r = (if \<not> checksum_file_small data \<or> None \<in> set es \<or> length (line_hits a es) > 1 then Inl ChecksumMalformed
     else case line_hits a es of [] \<Rightarrow> Inl ChecksumMissing | d # _ \<Rightarrow> Inr d)"
  have eq: "parseChecksumFile data a bare = Some r"
    using parseChecksumFile_eq[OF assms] by (simp add: r_def es_def Let_def)
  have single: "r = Inr d \<longleftrightarrow> checksum_file_small data \<and> None \<notin> set es \<and> line_hits a es = [d]" for d
    unfolding r_def by (cases "line_hits a es" rule: remdups_adj.cases) auto
  have missing: "r = Inl ChecksumMissing \<longleftrightarrow> checksum_file_small data \<and> None \<notin> set es \<and> line_hits a es = []"
    unfolding r_def by (cases "line_hits a es" rule: remdups_adj.cases) auto
  have other: "isl r \<longrightarrow> r = Inl ChecksumMissing \<or> r = Inl ChecksumMalformed"
    unfolding r_def by (auto split: list.split)
  have accepted: "r = Inr d \<longleftrightarrow> checksum_file_small data \<and> None \<notin> set es \<and>
       (\<exists>pre l post n. checksum_lines data = pre @ l # post \<and> checksum_line bare l d n \<and> (n = [] \<or> n = a) \<and>
          (\<forall>l' \<in> set (pre @ post). \<not> concerns bare a l'))" for d
    using single[of d] line_hits_single[of bare "checksum_lines data" a d]
    by (cases "None \<in> set es") (simp_all add: es_def)
  have silent: "r = Inl ChecksumMissing \<longleftrightarrow> checksum_file_small data \<and> None \<notin> set es \<and> (\<forall>l \<in> set (checksum_lines data). \<not> concerns bare a l)"
    using missing line_hits_Nil[of bare "checksum_lines data" a]
    by (cases "None \<in> set es") (simp_all add: es_def)
  show ?thesis unfolding wf by (intro exI[of _ r] conjI allI eq accepted silent other)
qed

subsection \<open>The lockfile keeps its form\<close>

definition pin_digest_ok :: "string \<Rightarrow> bool" where
  "pin_digest_ok d \<longleftrightarrow> sha_digest d \<and> strings_ToLower d = d"

definition versions_ok :: "(string \<times> packPin) list \<Rightarrow> bool" where
  "versions_ok versions \<longleftrightarrow> list_all (\<lambda>(version, pin). version \<noteq> [] \<and> pin_digest_ok (pin_SHA256 pin)) versions"

definition lock_wf :: "packLock \<Rightarrow> bool" where
  "lock_wf l \<longleftrightarrow> lock_Version l = packLockVersion \<and> entryCount l \<le> packLockEntryCountMax \<and>
     list_all (\<lambda>(source, versions). source \<noteq> [] \<and> versions_ok versions) (lock_Packs l)"

lemma list_all_update: "list_all P xs \<Longrightarrow> P (k, v) \<Longrightarrow> list_all P (AList.update k v xs)"
  by (induction xs) auto

lemma validate_versions_loop_None: "validate_versions_loop source versions = None \<longleftrightarrow> versions_ok versions"
  by (induction source versions rule: validate_versions_loop.induct)
    (auto simp: versions_ok_def pin_digest_ok_def normalizeDigest_Some normalizeDigest_None split: option.splits)

lemma validate_sources_loop_None: "validate_sources_loop packs = None \<longleftrightarrow>
    list_all (\<lambda>(source, versions). source \<noteq> [] \<and> versions_ok versions) packs"
proof (induction packs rule: validate_sources_loop.induct)
  case (2 source versions rest)
  then show ?case
    using validate_versions_loop_None[of source versions] by (cases "validate_versions_loop source versions") auto
qed simp

lemma validatePackLock_None: "validatePackLock l = None \<and> lock_Version l = packLockVersion \<longleftrightarrow> lock_wf l"
  by (auto simp: validatePackLock_def lock_wf_def validate_sources_loop_None)

lemma entry_count_loop_eq: "entry_count_loop packs n = n + sum_list (map (\<lambda>sv. length (snd sv)) packs)"
  by (induction packs n rule: entry_count_loop.induct) auto

lemma entryCount_eq: "entryCount l = sum_list (map (\<lambda>sv. length (snd sv)) (lock_Packs l))"
  by (simp add: entryCount_def entry_count_loop_eq)

lemma length_update: "length (AList.update k v xs) = length xs + (if map_of xs k = None then 1 else 0)"
  by (induction xs) auto

lemma sum_update: "sum_list (map (\<lambda>sv. length (snd sv)) (AList.update s vs packs)) +
    length (case map_of packs s of None \<Rightarrow> [] | Some old \<Rightarrow> old) = sum_list (map (\<lambda>sv. length (snd sv)) packs) + length vs"
  by (induction packs) auto

definition pinned :: "string \<Rightarrow> string \<Rightarrow> packPin \<Rightarrow> packLock \<Rightarrow> packLock" where
  "pinned source version pin l = l\<lparr>lock_Packs := AList.update source (AList.update version pin (source_pins l source)) (lock_Packs l)\<rparr>"

lemma entryCount_pinned: "entryCount (pinned source version pin l) =
    entryCount l + (if lookup_pin l source version = None then 1 else 0)"
  using sum_update[of source "AList.update version pin (source_pins l source)" "lock_Packs l"]
  by (auto simp: pinned_def entryCount_eq length_update source_pins_def lookup_pin_def split: option.splits if_splits)

lemma lookup_pinned: "lookup_pin (pinned source version pin l) s v =
    (if s = source \<and> v = version then Some pin else lookup_pin l s v)"
  by (auto simp: lookup_pin_def source_pins_def pinned_def update_conv')

lemma lock_wf_pinned:
  assumes "lock_wf l" "source \<noteq> []" "version \<noteq> []" "pin_digest_ok (pin_SHA256 pin)"
    and "lookup_pin l source version = None \<longrightarrow> entryCount l < packLockEntryCountMax"
  shows "lock_wf (pinned source version pin l)"
proof -
  have "versions_ok (source_pins l source)"
  proof (cases "map_of (lock_Packs l) source")
    case None
    then show ?thesis by (simp add: source_pins_def versions_ok_def)
  next
    case (Some vs)
    then have "(source, vs) \<in> set (lock_Packs l)" by (rule map_of_SomeD)
    with assms(1) have "versions_ok vs" by (auto simp: lock_wf_def list_all_iff)
    with Some show ?thesis by (simp add: source_pins_def)
  qed
  then have "versions_ok (AList.update version pin (source_pins l source))"
    unfolding versions_ok_def by (rule list_all_update) (simp add: assms(3,4))
  then have "list_all (\<lambda>(source, versions). source \<noteq> [] \<and> versions_ok versions) (lock_Packs (pinned source version pin l))"
    using assms(1,2) by (auto simp: pinned_def lock_wf_def intro!: list_all_update)
  moreover have "lock_Version (pinned source version pin l) = packLockVersion"
    using assms(1) by (simp add: lock_wf_def pinned_def)
  moreover have "entryCount (pinned source version pin l) \<le> packLockEntryCountMax"
    using assms(1,5) by (auto simp: entryCount_pinned lock_wf_def)
  ultimately show ?thesis unfolding lock_wf_def by blast
qed

text \<open>
  C29. Pinning a version of a named source in a well-formed lockfile with a digest does not panic, and
  keeps the lockfile well formed: the pin is found again, every other pin is as it was, and the only
  refusal is of one more version in a full lockfile.
\<close>

theorem pin_version_correct:
  assumes "lock_wf l" "source \<noteq> []" "version \<noteq> []" "pin_digest_ok (pin_SHA256 pin)"
  shows "(\<exists>l'. pin_version source version pin l = Some (Inr l') \<and> lock_wf l' \<and> validatePackLock l' = None \<and>
      (\<forall>s v. lookup_pin l' s v = (if s = source \<and> v = version then Some pin else lookup_pin l s v))) \<or>
    (pin_version source version pin l = Some (Inl LockFull) \<and> lookup_pin l source version = None \<and>
      entryCount l = packLockEntryCountMax)"
proof (cases "lookup_pin l source version = None \<and> entryCount l \<ge> packLockEntryCountMax")
  case True
  with assms show ?thesis
    by (auto simp: pin_version_def pin_digest_ok_def sha_digest_def lock_wf_def)
next
  case False
  then have wf: "lock_wf (pinned source version pin l)" by (intro lock_wf_pinned assms) auto
  then have "pin_version source version pin l = Some (Inr (pinned source version pin l))"
    using assms False by (simp add: pin_version_def pinned_def[symmetric] pin_digest_ok_def sha_digest_def lock_wf_def)
  with wf validatePackLock_None[of "pinned source version pin l"] show ?thesis by (auto simp: lookup_pinned)
qed

lemma writePackLock_law:
  assumes "lock_wf l" "\<And>out. encode l = Inr out \<Longrightarrow> decode (out @ [CHR 0x0A]) = Inr (l, False)"
  shows "\<exists>err f'. writePackLock encode fails l f = Some (err, f') \<and>
    (err \<noteq> None \<longrightarrow> f' = f) \<and> (err = None \<longrightarrow> readPackLock decode f' = Inr l)"
proof (cases "encode l")
  case (Inl e)
  with assms(1) show ?thesis by (simp add: writePackLock_def lock_wf_def)
next
  case (Inr bs)
  have v: "lock_Version l = packLockVersion" "entryCount l \<le> packLockEntryCountMax" using assms(1) by (simp_all add: lock_wf_def)
  show ?thesis
  proof (cases "length (bs @ [CHR 0x0A]) > packLockBytesMax")
    case True
    with Inr v show ?thesis by (simp add: writePackLock_def Let_def)
  next
    case False
    then have "readPackLock decode (LockBytes (bs @ [CHR 0x0A])) = Inr l"
      using assms(2)[OF Inr] validatePackLock_None[of l] assms(1) v(1)
      by (simp add: readPackLock_def decodePackLock_def Let_def)
    with Inr v False show ?thesis
      by (simp add: writePackLock_def Let_def split: option.split)
  qed
qed

lemma writePackLock_reads:
  assumes "lock_wf l" "writePackLock encode fails l f = Some (None, f')"
    and "\<And>out. encode l = Inr out \<Longrightarrow> decode (out @ [CHR 0x0A]) = Inr (l, False)"
  shows "readPackLock decode f' = Inr l"
  using writePackLock_law[of l encode decode fails f] assms by auto

text \<open>
  Writing the lockfile is all or nothing, and what it writes can be read. Given that the JSON
  decoder reads the encoder's text of this lock back, writing a well-formed lock does not panic, an
  error leaves the file as it was, and without one the next read gives this very lock.
\<close>

lemma writePackLock_roundtrip:
  assumes "lock_wf l" "\<And>out. encode l = Inr out \<Longrightarrow> decode (out @ [CHR 0x0A]) = Inr (l, False)"
  shows "\<exists>err f'. writePackLock encode fails l f = Some (err, f') \<and>
    (err \<noteq> None \<longrightarrow> f' = f) \<and> (err = None \<longrightarrow> readPackLock decode f' = Inr l)"
  by (rule writePackLock_law[of l encode decode, OF assms])

subsection \<open>Instances\<close>

definition demo_digest :: string where
  "demo_digest = ''0123456789ABCDEF0123456789ABCDEF0123456789ABCDEF0123456789ABCDEF''"

definition demo_checksums :: string where
  "demo_checksums = demo_digest @ ''  other.tar.gz'' @ [CHR 0x0D, CHR 0x0A] @ demo_digest @ '' *p.tar.gz'' @ [CHR 0x0A]"

theorem parseChecksumFile_correct_witness:
  "parseChecksumFile demo_checksums ''p.tar.gz'' False = Some (Inr (strings_ToLower demo_digest)) \<and>
   (\<exists>pre l post n. checksum_lines demo_checksums = pre @ l # post \<and> checksum_line False l (strings_ToLower demo_digest) n \<and>
      (n = [] \<or> n = ''p.tar.gz''))"
proof -
  have eq: "parseChecksumFile demo_checksums ''p.tar.gz'' False = Some (Inr (strings_ToLower demo_digest))"
  proof -
    have "map (entry_of False) (checksum_lines demo_checksums) =
        [Some (strings_ToLower demo_digest, ''other.tar.gz''), Some (strings_ToLower demo_digest, ''p.tar.gz'')]" by code_simp
    moreover have "length (strings_Split demo_checksums (CHR 0x0A)) = 3" by code_simp
    moreover have "length demo_checksums = 155" by (simp add: demo_checksums_def demo_digest_def)
    ultimately show ?thesis
      by (simp add: parseChecksumFile_eq checksum_file_small_def checksumFileBytesMax_def checksumLineCountMax_def)
  qed
  obtain r where r: "parseChecksumFile demo_checksums ''p.tar.gz'' False = Some r"
      "\<forall>d. r = Inr d \<longleftrightarrow> checksum_file_small demo_checksums \<and> (\<forall>l \<in> set (checksum_lines demo_checksums). \<exists>d n. checksum_line False l d n) \<and>
       (\<exists>pre l post n. checksum_lines demo_checksums = pre @ l # post \<and> checksum_line False l d n \<and> (n = [] \<or> n = ''p.tar.gz'') \<and>
          (\<forall>l' \<in> set (pre @ post). \<not> concerns False ''p.tar.gz'' l'))"
    using parseChecksumFile_correct[of "''p.tar.gz''" demo_checksums False] by blast
  have rd: "r = Inr (strings_ToLower demo_digest)" using eq r(1) by simp
  obtain pre l post n where p: "checksum_lines demo_checksums = pre @ l # post"
      "checksum_line False l (strings_ToLower demo_digest) n" "n = [] \<or> n = ''p.tar.gz''"
    using iffD1[OF spec[OF r(2), of "strings_ToLower demo_digest"] rd] by (elim conjE exE)
  show ?thesis by (intro conjI eq exI[of _ pre] exI[of _ l] exI[of _ post] exI[of _ n] p)
qed

definition demo_pin :: packPin where
  "demo_pin = \<lparr>pin_SHA256 = strings_ToLower demo_digest, pin_URL = ''u'', pin_Verified = True\<rparr>"

lemma demo_pin_ok: "pin_digest_ok (pin_SHA256 demo_pin)"
  by code_simp

lemma newPackLock_wf: "lock_wf newPackLock"
  by (simp add: lock_wf_def newPackLock_def entryCount_def)

theorem pin_version_correct_witness:
  "\<exists>l'. pin_version ''github.com/a/b'' ''v1'' demo_pin newPackLock = Some (Inr l') \<and> lookup_pin l' ''github.com/a/b'' ''v1'' = Some demo_pin"
  using pin_version_correct[OF newPackLock_wf, of "''github.com/a/b''" "''v1''" demo_pin] demo_pin_ok
  by (auto simp: newPackLock_def entryCount_def packLockEntryCountMax_def)

end
