(* ===== verification/Slice_Sort.thy ===== *)
theory Slice_Sort imports Prelude "HOL-Library.Multiset" begin

text \<open>
  \<open>sort.Slice\<close>: a sorter that is not stable. It permutes any slice, and sorts it if the comparison is a
  strict weak order. The locale is what its clients may rely on; the interpretation is a sorter that runs.
\<close>

type_synonym 'a slice_sorter = "('a \<Rightarrow> 'a \<Rightarrow> bool) \<Rightarrow> 'a list \<Rightarrow> 'a list"

text \<open>What \<open>sort.Slice\<close> promises of a strict weak order.\<close>

definition strict_weak :: "('a \<Rightarrow> 'a \<Rightarrow> bool) \<Rightarrow> bool" where
  "strict_weak lt \<longleftrightarrow> (\<forall>a. \<not> lt a a) \<and> (\<forall>a b c. lt a b \<longrightarrow> lt b c \<longrightarrow> lt a c) \<and>
     (\<forall>a b c. \<not> lt a b \<longrightarrow> \<not> lt b c \<longrightarrow> \<not> lt a c)"

definition sorts_slices :: "'a slice_sorter \<Rightarrow> bool" where
  "sorts_slices sort_Slice \<longleftrightarrow> (\<forall>lt xs. mset (sort_Slice lt xs) = mset xs \<and>
     (strict_weak lt \<longrightarrow> sorted_wrt (\<lambda>a b. \<not> lt b a) (sort_Slice lt xs)))"

lemma sorted_wrt_unique:
  "sorted_wrt P xs \<Longrightarrow> sorted_wrt P ys \<Longrightarrow> mset xs = mset ys \<Longrightarrow>
     (\<And>a b. a \<in> set xs \<Longrightarrow> b \<in> set xs \<Longrightarrow> P a b \<Longrightarrow> P b a \<Longrightarrow> a = b) \<Longrightarrow> xs = ys"
proof (induction xs arbitrary: ys)
  case (Cons x xs)
  then obtain y ys' where ys: "ys = y # ys'" by (cases ys) auto
  have sets: "set (x # xs) = set (y # ys')" using Cons.prems(3) ys by (metis set_mset_mset)
  have "x = y"
  proof (rule ccontr)
    assume "x \<noteq> y"
    then have "x \<in> set ys'" "y \<in> set xs" using sets by auto
    then have "P x y" "P y x" using Cons.prems(1,2) ys by auto
    then show False using \<open>x \<noteq> y\<close> Cons.prems(4)[of x y] \<open>y \<in> set xs\<close> by auto
  qed
  moreover have "xs = ys'"
    by (rule Cons.IH) (use Cons.prems ys calculation in auto)
  ultimately show ?case using ys by simp
qed simp

text \<open>Insertion sort is such a sorter.\<close>

fun insert_by :: "('a \<Rightarrow> 'a \<Rightarrow> bool) \<Rightarrow> 'a \<Rightarrow> 'a list \<Rightarrow> 'a list" where
  "insert_by lt x [] = [x]"
| "insert_by lt x (y # ys) = (if lt y x then y # insert_by lt x ys else x # y # ys)"

definition insertion_sorter :: "'a slice_sorter" where
  "insertion_sorter lt xs = foldr (insert_by lt) xs []"

lemma mset_insert_by [simp]: "mset (insert_by lt x ys) = add_mset x (mset ys)"
  by (induction ys) auto

lemma sorted_insert_by:
  assumes "strict_weak lt" "sorted_wrt (\<lambda>a b. \<not> lt b a) ys"
  shows "sorted_wrt (\<lambda>a b. \<not> lt b a) (insert_by lt x ys)"
  using assms(2)
proof (induction ys)
  case (Cons y ys)
  have elems: "set (insert_by lt x ys) = insert x (set ys)"
    using mset_insert_by[of lt x ys] by (metis set_mset_add_mset_insert set_mset_mset)
  have asym: "lt y x \<Longrightarrow> \<not> lt x y" and trans: "\<not> lt y x \<Longrightarrow> \<not> lt z y \<Longrightarrow> \<not> lt z x" for z
    using assms(1) unfolding strict_weak_def by blast+
  show ?case
  proof (cases "lt y x")
    case True
    with Cons elems asym show ?thesis by simp
  next
    case False
    with Cons.prems trans show ?thesis by simp
  qed
qed simp

lemma insertion_sorter_ok: "sorts_slices (insertion_sorter :: 'a slice_sorter)"
proof -
  have "mset (foldr (insert_by lt) xs []) = mset xs" for lt and xs :: "'a list"
    by (induction xs) simp_all
  moreover have "sorted_wrt (\<lambda>a b. \<not> lt b a) (foldr (insert_by lt) xs [])" if "strict_weak lt" for lt and xs :: "'a list"
    by (induction xs) (simp_all add: sorted_insert_by[OF that])
  ultimately show ?thesis by (simp add: sorts_slices_def insertion_sorter_def)
qed

locale slice_sorting =
  fixes sort_Slice :: "'a slice_sorter"
  assumes sorts: "sorts_slices sort_Slice"
begin

lemma sort_mset [simp]: "mset (sort_Slice lt xs) = mset xs"
  using sorts by (simp add: sorts_slices_def)

lemma sort_set [simp]: "set (sort_Slice lt xs) = set xs"
  using sort_mset by (metis set_mset_mset)

lemma sort_sorted: "strict_weak lt \<Longrightarrow> sorted_wrt (\<lambda>a b. \<not> lt b a) (sort_Slice lt xs)"
  using sorts by (simp add: sorts_slices_def)

text \<open>Where no two different elements are equivalent the result does not depend on the order of the slice, nor on the sorter.\<close>

lemma sort_unique:
  assumes "strict_weak lt" "mset xs = mset ys" "sorts_slices other"
    and "\<And>a b. a \<in> set xs \<Longrightarrow> b \<in> set xs \<Longrightarrow> \<not> lt a b \<Longrightarrow> \<not> lt b a \<Longrightarrow> a = b"
  shows "sort_Slice lt xs = other lt ys"
proof (rule sorted_wrt_unique)
  show "sorted_wrt (\<lambda>a b. \<not> lt b a) (sort_Slice lt xs)" by (rule sort_sorted[OF assms(1)])
  show "sorted_wrt (\<lambda>a b. \<not> lt b a) (other lt ys)" "mset (sort_Slice lt xs) = mset (other lt ys)"
    using assms(1-3) by (simp_all add: sorts_slices_def)
qed (use assms(4) in auto)

text \<open>Elements that are all comparable come out strictly sorted.\<close>

lemma sort_strict:
  assumes "strict_weak lt" "distinct xs" "\<And>a b. a \<in> set xs \<Longrightarrow> b \<in> set xs \<Longrightarrow> \<not> lt a b \<Longrightarrow> \<not> lt b a \<Longrightarrow> a = b"
  shows "sorted_wrt lt (sort_Slice lt xs)"
proof -
  have "distinct (sort_Slice lt xs)" using assms(2) by (metis distinct_count_atmost_1 sort_mset set_mset_mset)
  then have "sorted_wrt (\<lambda>a b. a \<noteq> b) (sort_Slice lt xs)" by (simp add: distinct_conv_nth sorted_wrt_iff_nth_less)
  with sort_sorted[OF assms(1), of xs] have "sorted_wrt (\<lambda>a b. a \<noteq> b \<and> \<not> lt b a) (sort_Slice lt xs)"
    by (auto simp: sorted_wrt_iff_nth_less)
  then show ?thesis
    by (rule sorted_wrt_mono_rel[rotated]) (use assms(3) in auto)
qed

end

interpretation insertion_slices: slice_sorting insertion_sorter
  by unfold_locales (rule insertion_sorter_ok)

end
