(* ===== verification/Registry.thy ===== *)
theory Registry imports Pack_Loader Pack_Checksum Slice_Sort begin

text \<open>
  pkg/query/compliance/registry.go: the registry client's cache of known packs, the search over it
  (filter, sort, page), the choice of a version, the directory a pack is extracted to, and HTTP
  requests with retries. Go ranges over the map of packs in any order and \<open>sort.Slice\<close> is not stable;
  both are parameters. The product of two floats is a parameter of the back-off.
\<close>

subsection \<open>Data\<close>

record PackRepository =
  repo_Type :: string
  repo_Owner :: string
  repo_Name :: string
  repo_Branch :: string
  repo_Path :: string
  repo_URL :: string
  repo_WebURL :: string
  repo_APIURL :: string

record PackDownloadStats =
  dl_Total :: int
  dl_LastMonth :: int
  dl_LastWeek :: int

record PackInfo =
  pi_Name :: string
  pi_Namespace :: string
  pi_Description :: string
  pi_Versions :: "RegistryPackVersion list"
  pi_LatestVersion :: string
  pi_Provider :: string
  pi_Frameworks :: "string list"
  pi_Tags :: "string list"
  pi_Categories :: "string list"
  pi_Maintainers :: "string list"
  pi_Repository :: PackRepository
  pi_Downloads :: PackDownloadStats
  pi_LastUpdated :: timestamp

record RegistryCache =
  rcache_LastUpdated :: timestamp
  rcache_TTL :: int
  rcache_Packs :: "(string, PackInfo) table"
  rcache_Version :: string

record SearchCriteria =
  sc_Query :: string
  sc_Provider :: string
  sc_Framework :: string
  sc_Category :: string
  sc_Tags :: "string list"
  sc_Namespace :: string
  sc_Sort :: string
  sc_Order :: string
  sc_Limit :: int
  sc_Offset :: int

record SearchResult =
  sr_Packs :: "PackInfo list"
  sr_Total :: int
  sr_Limit :: int
  sr_Offset :: int
  sr_Query :: string

definition emptyCache :: RegistryCache where
  "emptyCache = \<lparr>rcache_LastUpdated = 0, rcache_TTL = 24 * 3600 * 10 ^ 9, rcache_Packs = [], rcache_Version = ''1.0''\<rparr>"

subsection \<open>The cache file\<close>

text \<open>What reading the file gives, and what JSON makes of it. An unreadable file leaves the cache unset.\<close>

datatype cache_read = CacheNotExist | CacheUnreadable string | CacheBytes string

definition loadCache :: "(string \<Rightarrow> RegistryCache option) \<Rightarrow> cache_read \<Rightarrow> RegistryCache option \<Rightarrow> string option \<times> RegistryCache option" where
  "loadCache decode f c = (case f of
     CacheNotExist \<Rightarrow> (None, Some emptyCache)
   | CacheUnreadable err \<Rightarrow> (Some err, c)
   | CacheBytes data \<Rightarrow> (case decode data of None \<Rightarrow> (None, Some emptyCache) | Some cache \<Rightarrow> (None, Some cache)))"

text \<open>Whether \<open>UpdateRegistry\<close> asks the network at all.\<close>

definition update_needed :: "bool \<Rightarrow> bool \<Rightarrow> timestamp \<Rightarrow> RegistryCache option \<Rightarrow> bool" where
  "update_needed offlineMode forceRefresh now c \<longleftrightarrow> \<not> offlineMode \<and>
     (forceRefresh \<or> (case c of None \<Rightarrow> True | Some cache \<Rightarrow> \<not> now - rcache_LastUpdated cache < rcache_TTL cache))"

subsection \<open>Search\<close>

definition containsAny :: "string list \<Rightarrow> string \<Rightarrow> bool" where
  "containsAny tags query = list_ex (\<lambda>s. strings_Contains (strings_ToLower s) query) tags"

definition matchesCriteria :: "PackInfo \<Rightarrow> SearchCriteria \<Rightarrow> bool" where
  "matchesCriteria pack c =
     (if sc_Query c \<noteq> [] \<and> (let query = strings_ToLower (sc_Query c) in
         \<not> strings_Contains (strings_ToLower (pi_Name pack)) query \<and>
         \<not> strings_Contains (strings_ToLower (pi_Description pack)) query \<and>
         \<not> containsAny (pi_Tags pack) query) then False
      else if sc_Provider c \<noteq> [] \<and> pi_Provider pack \<noteq> sc_Provider c then False
      else if sc_Framework c \<noteq> [] \<and> sc_Framework c \<notin> set (pi_Frameworks pack) then False
      else if sc_Category c \<noteq> [] \<and> sc_Category c \<notin> set (pi_Categories pack) then False
      else if sc_Namespace c \<noteq> [] \<and> \<not> strings_HasPrefix (pi_Namespace pack) (sc_Namespace c) then False
      else list_all (\<lambda>tag. tag \<in> set (pi_Tags pack)) (sc_Tags c))"

definition pack_less :: "string \<Rightarrow> PackInfo \<Rightarrow> PackInfo \<Rightarrow> bool" where
  "pack_less sortBy p q =
     (if sortBy = ''downloads'' then dl_Total (pi_Downloads p) < dl_Total (pi_Downloads q)
      else if sortBy = ''updated'' then pi_LastUpdated p < pi_LastUpdated q
      else pi_Name p < pi_Name q)"

definition sort_less :: "string \<Rightarrow> string \<Rightarrow> PackInfo \<Rightarrow> PackInfo \<Rightarrow> bool" where
  "sort_less sortBy order p q =
     (let sortBy = (if sortBy = [] then ''name'' else sortBy); order = (if order = [] then ''asc'' else order);
          lt = pack_less sortBy p q
      in if order = ''desc'' then \<not> lt else lt)"

text \<open>\<open>s[lo:hi]\<close> panics out of bounds.\<close>

definition slice_of :: "'a list \<Rightarrow> int \<Rightarrow> int \<Rightarrow> 'a list panics" where
  "slice_of xs lo hi = do {
     assert_That (0 \<le> lo \<and> lo \<le> hi \<and> hi \<le> int (length xs));
     Some (take (nat (hi - lo)) (drop (nat lo) xs))
   }"

definition page :: "int \<Rightarrow> int \<Rightarrow> 'a list \<Rightarrow> 'a list panics" where
  "page limit offset matches =
     (if limit > 0 then (let stop = wrap_int64 (offset + limit) in
        if offset > int (length matches) then Some []
        else if stop > int (length matches) then slice_of matches offset (int (length matches))
        else slice_of matches offset stop)
      else Some matches)"

definition search_cache :: "((string, PackInfo) table \<Rightarrow> (string, PackInfo) table) \<Rightarrow> PackInfo slice_sorter \<Rightarrow> RegistryCache option \<Rightarrow>
    SearchCriteria \<Rightarrow> SearchResult panics" where
  "search_cache order sort_Slice c criteria = (case c of
     None \<Rightarrow> Some \<lparr>sr_Packs = [], sr_Total = 0, sr_Limit = 0, sr_Offset = 0, sr_Query = []\<rparr>
   | Some cache \<Rightarrow> (let found = filter (\<lambda>p. matchesCriteria p criteria) (map snd (order (rcache_Packs cache)));
         sorted_packs = sort_Slice (sort_less (sc_Sort criteria) (sc_Order criteria)) found
       in do {
         shown \<leftarrow> page (sc_Limit criteria) (sc_Offset criteria) sorted_packs;
         Some \<lparr>sr_Packs = shown, sr_Total = int (length sorted_packs), sr_Limit = sc_Limit criteria,
           sr_Offset = sc_Offset criteria, sr_Query = sc_Query criteria\<rparr>
       }))"

subsection \<open>Choosing what to download\<close>

text \<open>The cache must be set: the code reads its map without a check.\<close>

definition chosen_version :: "PackInfo \<Rightarrow> string \<Rightarrow> RegistryPackVersion option" where
  "chosen_version info version =
     (if version = [] \<or> version = ''latest'' then (case pi_Versions info of [] \<Rightarrow> None | v # _ \<Rightarrow> Some v)
      else find (\<lambda>v. rv_Version v = version \<or> rv_Tag v = version) (pi_Versions info))"

text \<open>Where a pack goes: below the destination, whatever its namespace.\<close>

definition abs_of :: "string \<Rightarrow> string \<Rightarrow> string" where
  "abs_of cwd p = (if filepath_IsAbs p then filepath_Clean p else filepath_Join [cwd, p])"

definition packExtractDir :: "string \<Rightarrow> string \<Rightarrow> string \<Rightarrow> string + string" where
  "packExtractDir cwd destDir namespace =
     (let root = abs_of cwd destDir; dir = filepath_Join [root, namespace]; rel = filepath_Rel root dir in
      if rel = ''.'' \<or> rel = ''..'' \<or> strings_HasPrefix rel ''../'' then Inl (''namespace '' @ namespace @ '' is outside '' @ root)
      else Inr dir)"

subsection \<open>Requests with retries\<close>

definition retryDelayMax :: int where
  "retryDelayMax = 30 * 10 ^ 9"

definition retryCountMax :: int where
  "retryCountMax = 10"

record RetryConfig =
  retry_MaxRetries :: int
  retry_RetryDelay :: int
  retry_Backoff :: float64

text \<open>Truncation towards zero, of a finite value that is not negative.\<close>

definition nextRetryDelay :: "(float64 \<Rightarrow> float64 \<Rightarrow> float64) \<Rightarrow> int \<Rightarrow> float64 \<Rightarrow> int" where
  "nextRetryDelay mul delay backoff = (let next_delay = mul (Finite (of_int delay)) backoff in
     case next_delay of
       NaN \<Rightarrow> 0
     | Infinite negative \<Rightarrow> if negative then 0 else retryDelayMax
     | Finite r \<Rightarrow> if \<not> r \<ge> 0 then 0 else if r > of_int retryDelayMax then retryDelayMax else \<lfloor>r\<rfloor>)"

record http_response =
  http_StatusCode :: int
  http_Body :: string
  http_BodyErr :: "string option"

datatype request_error = Cancelled "request_error option" | DoFailed string | HTTPStatus int

text \<open>
  What the network does: the outcome of each attempt, and whether the context is done in the wait before
  it. A result without a response and without an error is the code's \<open>nil, nil\<close>.
\<close>

record net =
  net_Do :: "string \<Rightarrow> nat \<Rightarrow> string + http_response"
  net_Cancelled :: "string \<Rightarrow> nat \<Rightarrow> bool"
  net_mul :: "float64 \<Rightarrow> float64 \<Rightarrow> float64"

fun retry_loop :: "net \<Rightarrow> string \<Rightarrow> float64 \<Rightarrow> nat \<Rightarrow> nat \<Rightarrow> int \<Rightarrow> request_error option \<Rightarrow> int list \<Rightarrow>
    (request_error option + http_response) \<times> int list" where
  "retry_loop n url backoff 0 attempt delay lastErr waits = (Inl lastErr, waits)"
| "retry_loop n url backoff (Suc remaining) attempt delay lastErr waits =
     (if attempt > 0 \<and> net_Cancelled n url attempt then (Inl (Some (Cancelled lastErr)), waits)
      else (let waits = (if attempt > 0 then waits @ [delay] else waits);
                delay = (if attempt > 0 then nextRetryDelay (net_mul n) delay backoff else delay)
        in case net_Do n url attempt of
             Inl err \<Rightarrow> retry_loop n url backoff remaining (attempt + 1) delay (Some (DoFailed err)) waits
           | Inr resp \<Rightarrow>
               if http_StatusCode resp \<ge> 500 \<or> http_StatusCode resp = 429
               then retry_loop n url backoff remaining (attempt + 1) delay (Some (HTTPStatus (http_StatusCode resp))) waits
               else (Inr resp, waits)))"

text \<open>The result, and the times waited between attempts.\<close>

definition doRequestWithRetry :: "net \<Rightarrow> RetryConfig \<Rightarrow> string \<Rightarrow> (request_error option + http_response) \<times> int list" where
  "doRequestWithRetry n cfg url = (let delay = min (retry_RetryDelay cfg) retryDelayMax;
       retries = min (retry_MaxRetries cfg) retryCountMax
     in retry_loop n url (retry_Backoff cfg) (nat (retries + 1)) 0 delay None [])"

datatype fetch_error = RequestFailed "request_error option" | BadStatus int | CopyFailed string | DownloadTooLarge int

text \<open>
  The bytes a fetch writes and its error. The code reads the response after a nil error, so a result
  with neither panics.
\<close>

definition fetch :: "net \<Rightarrow> RetryConfig \<Rightarrow> string \<Rightarrow> int \<Rightarrow> (string \<times> fetch_error option) panics" where
  "fetch n cfg url bytesMax = do {
     assert_That (bytesMax > 0);
     (case fst (doRequestWithRetry n cfg url) of
        Inl None \<Rightarrow> None
      | Inl (Some err) \<Rightarrow> Some ([], Some (RequestFailed (Some err)))
      | Inr resp \<Rightarrow>
          if http_StatusCode resp \<noteq> 200 then Some ([], Some (BadStatus (http_StatusCode resp)))
          else (let copied = take (nat (bytesMax + 1)) (http_Body resp) in
            if length (http_Body resp) < nat (bytesMax + 1) \<and> http_BodyErr resp \<noteq> None
            then Some (copied, map_option CopyFailed (http_BodyErr resp))
            else if int (length copied) > bytesMax then Some (copied, Some (DownloadTooLarge bytesMax))
            else Some (copied, None)))
   }"


subsection \<open>Search results\<close>

lemma strict_weak_asc: "order \<noteq> ''desc'' \<Longrightarrow> strict_weak (sort_less sortBy order)"
  by (auto simp: strict_weak_def sort_less_def pack_less_def Let_def)

text \<open>In descending order the comparison passed to the sorter holds of a pack and itself.\<close>

lemma descending_not_strict: "sort_less sortBy ''desc'' p p \<and> \<not> strict_weak (sort_less sortBy ''desc'')"
  by (auto simp: strict_weak_def sort_less_def pack_less_def Let_def)

lemma page_in_range:
  "0 < limit \<Longrightarrow> 0 \<le> offset \<Longrightarrow> offset + limit < 2 ^ 63 \<Longrightarrow> page limit offset xs = Some (take (nat limit) (drop (nat offset) xs))"
  by (auto simp: page_def slice_of_def wrap_int64_id Let_def)

lemma search_negative_offset_panics:
  "sc_Limit criteria > 0 \<Longrightarrow> sc_Offset criteria < 0 \<Longrightarrow> search_cache order sort_Slice (Some cache) criteria = None"
  by (auto simp: search_cache_def page_def slice_of_def Let_def)

definition cache_matches :: "RegistryCache \<Rightarrow> SearchCriteria \<Rightarrow> PackInfo list" where
  "cache_matches cache criteria = filter (\<lambda>p. matchesCriteria p criteria) (map snd (rcache_Packs cache))"

text \<open>
  A search finds exactly the packs that match, in ascending order of the sort key, and pages cut
  that list. When no two different matches have the same key there is one list \<open>S\<close> such that every
  search with these criteria, in whatever order it ranges over the map and whichever sorter is used,
  returns the page of \<open>S\<close> its limit and offset name, with the total of all matches: following pages
  neither repeat nor miss a pack. Limit and offset are in range; a negative offset panics (above).
\<close>

lemma search_pages:
  assumes "sc_Order criteria \<noteq> ''desc''"
    and "\<And>p q. p \<in> set (cache_matches cache criteria) \<Longrightarrow> q \<in> set (cache_matches cache criteria) \<Longrightarrow>
      \<not> sort_less (sc_Sort criteria) (sc_Order criteria) p q \<Longrightarrow> \<not> sort_less (sc_Sort criteria) (sc_Order criteria) q p \<Longrightarrow> p = q"
  shows "\<exists>S. mset S = mset (cache_matches cache criteria) \<and>
    sorted_wrt (\<lambda>p q. \<not> sort_less (sc_Sort criteria) (sc_Order criteria) q p) S \<and>
    (\<forall>order sort_Slice limit offset. mset (order (rcache_Packs cache)) = mset (rcache_Packs cache) \<and> sorts_slices sort_Slice \<and>
       0 < limit \<and> 0 \<le> offset \<and> offset + limit < 2 ^ 63 \<longrightarrow>
       search_cache order sort_Slice (Some cache) (criteria\<lparr>sc_Limit := limit, sc_Offset := offset\<rparr>) =
         Some \<lparr>sr_Packs = take (nat limit) (drop (nat offset) S), sr_Total = int (length S), sr_Limit = limit,
           sr_Offset = offset, sr_Query = sc_Query criteria\<rparr>)"
proof -
  let ?lt = "sort_less (sc_Sort criteria) (sc_Order criteria)"
  let ?le = "\<lambda>p q. \<not> ?lt q p"
  have weak: "strict_weak ?lt" by (rule strict_weak_asc[OF assms(1)])
  define found where "found = cache_matches cache criteria"
  obtain S where S: "mset S = mset found" "sorted_wrt ?le S"
    using insertion_sorter_ok weak unfolding sorts_slices_def by blast
  have "search_cache order sort_Slice (Some cache) (criteria\<lparr>sc_Limit := limit, sc_Offset := offset\<rparr>) =
      Some \<lparr>sr_Packs = take (nat limit) (drop (nat offset) S), sr_Total = int (length S), sr_Limit = limit,
           sr_Offset = offset, sr_Query = sc_Query criteria\<rparr>"
    if c: "mset (order (rcache_Packs cache)) = mset (rcache_Packs cache)" "sorts_slices sort_Slice"
      "0 < limit" "0 \<le> offset" "offset + limit < 2 ^ 63" for order sort_Slice limit offset
  proof -
    let ?crit = "criteria\<lparr>sc_Limit := limit, sc_Offset := offset\<rparr>"
    have m: "matchesCriteria p ?crit = matchesCriteria p criteria" for p by (simp add: matchesCriteria_def)
    define xs where "xs = filter (\<lambda>p. matchesCriteria p ?crit) (map snd (order (rcache_Packs cache)))"
    have "mset xs = mset found"
      unfolding xs_def found_def cache_matches_def m by (metis c(1) mset_filter mset_map)
    then have T: "mset (sort_Slice ?lt xs) = mset S" "sorted_wrt ?le (sort_Slice ?lt xs)"
      using c(2) weak S(1) by (auto simp: sorts_slices_def)
    have "sort_Slice ?lt xs = S"
      by (rule sorted_wrt_unique[OF T(2) S(2) T(1)]) (use assms(2) T(1) S(1) in \<open>auto simp: found_def dest: mset_eq_setD\<close>)
    then show ?thesis
      using page_in_range[OF c(3-5), of S] by (simp add: search_cache_def xs_def[symmetric] Let_def)
  qed
  with S show ?thesis unfolding found_def by (intro exI[of _ S]) simp
qed

subsection \<open>Retries\<close>

definition retryable :: "net \<Rightarrow> string \<Rightarrow> nat \<Rightarrow> bool" where
  "retryable n url k = (case net_Do n url k of
     Inl _ \<Rightarrow> True | Inr resp \<Rightarrow> http_StatusCode resp \<ge> 500 \<or> http_StatusCode resp = 429)"

lemma nextRetryDelay_bounds: "0 \<le> nextRetryDelay mul delay backoff \<and> nextRetryDelay mul delay backoff \<le> retryDelayMax"
  by (auto simp: nextRetryDelay_def retryDelayMax_def Let_def floor_le_iff split: float64.split)

lemma retry_loop_waits:
  "delay \<le> retryDelayMax \<Longrightarrow> \<exists>ws. snd (retry_loop n url backoff r a delay e waits) = waits @ ws \<and>
     length ws \<le> (if a = 0 then r - 1 else r) \<and> (\<forall>w \<in> set ws. w \<le> retryDelayMax)"
proof (induction r arbitrary: a delay e waits)
  case (Suc r)
  show ?case
  proof (cases "a > 0 \<and> net_Cancelled n url a")
    case False
    let ?w = "if a > 0 then [delay] else []" and ?d = "if a > 0 then nextRetryDelay (net_mul n) delay backoff else delay"
    have d: "?d \<le> retryDelayMax" using Suc.prems nextRetryDelay_bounds by simp
    have step: "snd (retry_loop n url backoff (Suc r) a delay e waits) =
        (if retryable n url a then snd (retry_loop n url backoff r (a + 1) ?d
            (Some (case net_Do n url a of Inl err \<Rightarrow> DoFailed err | Inr resp \<Rightarrow> HTTPStatus (http_StatusCode resp))) (waits @ ?w))
         else waits @ ?w)"
      using False by (cases "net_Do n url a") (auto simp: Let_def retryable_def)
    show ?thesis
    proof (cases "retryable n url a")
      case True
      obtain ws where ws: "snd (retry_loop n url backoff r (a + 1) ?d
            (Some (case net_Do n url a of Inl err \<Rightarrow> DoFailed err | Inr resp \<Rightarrow> HTTPStatus (http_StatusCode resp))) (waits @ ?w)) =
          (waits @ ?w) @ ws" "length ws \<le> r" "\<forall>w \<in> set ws. w \<le> retryDelayMax"
        using Suc.IH[OF d] by fastforce
      with step True Suc.prems show ?thesis by (intro exI[of _ "?w @ ws"]) auto
    next
      case False
      with step Suc.prems show ?thesis by (intro exI[of _ ?w]) auto
    qed
  qed simp
qed simp

text \<open>Attempt \<open>k\<close> is the first, from \<open>a\<close> on, that is not retryable, and it is reached.\<close>

definition settles :: "net \<Rightarrow> string \<Rightarrow> nat \<Rightarrow> nat \<Rightarrow> bool" where
  "settles n url a k \<longleftrightarrow> a \<le> k \<and> \<not> retryable n url k \<and> (\<forall>j. a \<le> j \<and> j < k \<longrightarrow> retryable n url j) \<and>
     (\<forall>j. a \<le> j \<and> j \<le> k \<and> 0 < j \<longrightarrow> \<not> net_Cancelled n url j)"

lemma all_from: "(\<forall>j. a \<le> j \<and> Q j \<longrightarrow> P j) \<longleftrightarrow> (Q a \<longrightarrow> P a) \<and> (\<forall>j. Suc a \<le> j \<and> Q j \<longrightarrow> P j)"
  by (metis Suc_leD Suc_leI le_eq_less_or_eq)

lemma settles_step: "settles n url a k \<longleftrightarrow> \<not> (0 < a \<and> net_Cancelled n url a) \<and>
    (if retryable n url a then settles n url (Suc a) k else k = a)"
proof (cases "retryable n url a")
  case True
  then have "a \<le> k \<and> \<not> retryable n url k \<longleftrightarrow> Suc a \<le> k \<and> \<not> retryable n url k"
    by (metis Suc_leD Suc_leI le_eq_less_or_eq)
  with True show ?thesis
    unfolding settles_def all_from[of a "\<lambda>j. j < k"] all_from[of a "\<lambda>j. j \<le> k \<and> 0 < j"] by auto
next
  case False
  then show ?thesis unfolding settles_def by (auto simp: le_less)
qed

lemma settles_le: "settles n url a k \<Longrightarrow> a \<le> k"
  by (simp add: settles_def)

lemma retry_loop_result:
  "fst (retry_loop n url backoff r a delay e waits) = Inr resp \<longleftrightarrow>
     (\<exists>k < a + r. settles n url a k \<and> net_Do n url k = Inr resp)"
proof (induction r arbitrary: a delay e waits)
  case 0
  then show ?case using settles_le by fastforce
next
  case (Suc r)
  show ?case
  proof (cases "(0 < a \<and> net_Cancelled n url a) \<or> \<not> retryable n url a")
    case True
    then have "(\<exists>k < a + Suc r. settles n url a k \<and> net_Do n url k = Inr resp) \<longleftrightarrow>
        \<not> (0 < a \<and> net_Cancelled n url a) \<and> net_Do n url a = Inr resp"
      using settles_step[of n url a] by auto
    with True show ?thesis by (cases "net_Do n url a") (auto simp: retryable_def Let_def)
  next
    case False
    then have "(\<exists>k < a + Suc r. settles n url a k \<and> net_Do n url k = Inr resp) \<longleftrightarrow>
        (\<exists>k < Suc a + r. settles n url (Suc a) k \<and> net_Do n url k = Inr resp)"
      using settles_step[of n url a] by simp
    with False Suc.IH[of "Suc a"] show ?thesis by (cases "net_Do n url a") (auto simp: retryable_def Let_def)
  qed
qed

lemma retry_loop_silent: "fst (retry_loop n url backoff r a delay e waits) = Inl None \<longleftrightarrow> r = 0 \<and> e = None"
  proof (induction r arbitrary: a delay e waits)
  case (Suc r)
  then show ?case by (cases "net_Do n url a") (simp_all add: Let_def)
qed simp

text \<open>
  C32. Retrying is bounded whatever the configuration: at most ten waits, none longer than 30 seconds,
  whatever the back-off multiplies to (not a number included). The response returned is that of the
  first attempt that is neither an error nor a status worth retrying, among the first eleven at most
  and if no wait before it is cancelled; there is no response exactly when there is no such attempt, and
  then there is an error, unless the configured number of retries is negative.
\<close>

theorem doRequestWithRetry_bounded:
  assumes "doRequestWithRetry n cfg url = (res, waits)"
  shows "length waits \<le> nat retryCountMax \<and> (\<forall>w \<in> set waits. w \<le> retryDelayMax) \<and>
    (\<forall>resp. res = Inr resp \<longleftrightarrow> (\<exists>k. int k \<le> min (retry_MaxRetries cfg) retryCountMax \<and> settles n url 0 k \<and> net_Do n url k = Inr resp)) \<and>
    (res = Inl None \<longleftrightarrow> retry_MaxRetries cfg < 0)"
proof -
  define r where "r = nat (min (retry_MaxRetries cfg) retryCountMax + 1)"
  define d where "d = min (retry_RetryDelay cfg) retryDelayMax"
  have loop: "doRequestWithRetry n cfg url = retry_loop n url (retry_Backoff cfg) r 0 d None []"
    by (simp add: doRequestWithRetry_def r_def d_def Let_def)
  have "d \<le> retryDelayMax" by (simp add: d_def)
  then have w: "length waits \<le> r - 1" "\<forall>w \<in> set waits. w \<le> retryDelayMax"
    using retry_loop_waits[of d n url "retry_Backoff cfg" r 0 None "[]"] assms loop by auto
  have "r - 1 \<le> nat retryCountMax" by (auto simp: r_def retryCountMax_def)
  moreover have "(\<exists>k < 0 + r. settles n url 0 k \<and> net_Do n url k = Inr resp) \<longleftrightarrow>
      (\<exists>k. int k \<le> min (retry_MaxRetries cfg) retryCountMax \<and> settles n url 0 k \<and> net_Do n url k = Inr resp)" for resp
  proof -
    have "k < 0 + r \<longleftrightarrow> int k \<le> min (retry_MaxRetries cfg) retryCountMax" for k
      by (auto simp: r_def retryCountMax_def)
    then show ?thesis by blast
  qed
  moreover have "res = Inr resp \<longleftrightarrow> (\<exists>k < 0 + r. settles n url 0 k \<and> net_Do n url k = Inr resp)" for resp
    using retry_loop_result[of n url "retry_Backoff cfg" r 0 d None "[]" resp] assms loop by simp
  moreover have "res = Inl None \<longleftrightarrow> retry_MaxRetries cfg < 0"
    using retry_loop_silent[of n url "retry_Backoff cfg" r 0 d None "[]"] assms loop by (auto simp: r_def retryCountMax_def)
  ultimately show ?thesis using w by (intro conjI allI) auto
qed

subsection \<open>Where packs go\<close>

lemma abs_of_clean: "filepath_IsAbs cwd \<Longrightarrow> filepath_IsAbs (abs_of cwd p) \<and> filepath_Clean (abs_of cwd p) = abs_of cwd p"
  using Clean_abs_clean Join_abs_clean by (simp add: abs_of_def)

lemma strip_common_rel:
  "strip_common (abs_comps base) (abs_comps dir) = (bs, ts) \<Longrightarrow> filepath_Rel base dir =
     (if bs = [] \<and> ts = [] then ''.'' else strings_Join (replicate (length bs) ''..'' @ ts) ''/'')"
  by (simp add: filepath_Rel_def)

text \<open>The extraction directory is strictly below the destination.\<close>

lemma packExtractDir_below:
  assumes "filepath_IsAbs cwd" "packExtractDir cwd destDir ns = Inr dir"
  shows "filepath_IsAbs dir \<and> filepath_Clean dir = dir \<and>
    (\<exists>rest. rest \<noteq> [] \<and> list_all normal_comp rest \<and> abs_comps dir = abs_comps (abs_of cwd destDir) @ rest)"
proof -
  define root where "root = abs_of cwd destDir"
  have root: "filepath_IsAbs root" using abs_of_clean[OF assms(1)] root_def by blast
  have dir: "dir = filepath_Join [root, ns]"
    "filepath_Rel root dir \<noteq> ''.''" "filepath_Rel root dir \<noteq> ''..''" "\<not> prefix ''../'' (filepath_Rel root dir)"
    using assms(2) by (auto simp: packExtractDir_def root_def[symmetric] Let_def split: if_splits)
  have clean: "filepath_IsAbs dir \<and> filepath_Clean dir = dir" unfolding dir(1) by (rule Join_abs_clean[OF root])
  obtain bs ts where sc: "strip_common (abs_comps root) (abs_comps dir) = (bs, ts)" by fastforce
  obtain common where c: "abs_comps root = common @ bs" "abs_comps dir = common @ ts" using strip_common_spec[OF sc] by blast
  have "bs = []"
  proof (rule ccontr)
    assume "bs \<noteq> []"
    then obtain m where "length bs = Suc m" by (cases bs) auto
    then have rel: "filepath_Rel root dir = strings_Join (''..'' # (replicate m ''..'' @ ts)) ''/''"
      using strip_common_rel[OF sc] \<open>bs \<noteq> []\<close> by simp
    show False using dir(3,4) rel by (cases "replicate m ''..'' @ ts") auto
  qed
  then have "ts \<noteq> []" using strip_common_rel[OF sc] dir(2) by auto
  moreover have "list_all normal_comp ts" using abs_comps_normal[of dir] c(2) by simp
  ultimately show ?thesis using clean c \<open>bs = []\<close> unfolding root_def by auto
qed

subsection \<open>Instances\<close>

definition demo_info :: "string \<Rightarrow> PackInfo" where
  "demo_info name = \<lparr>pi_Name = name, pi_Namespace = ''acme/'' @ name, pi_Description = [], pi_Versions = [], pi_LatestVersion = [],
     pi_Provider = ''aws'', pi_Frameworks = [], pi_Tags = [], pi_Categories = [], pi_Maintainers = [],
     pi_Repository = \<lparr>repo_Type = ''github'', repo_Owner = ''acme'', repo_Name = name, repo_Branch = [], repo_Path = [],
       repo_URL = [], repo_WebURL = [], repo_APIURL = []\<rparr>,
     pi_Downloads = \<lparr>dl_Total = 0, dl_LastMonth = 0, dl_LastWeek = 0\<rparr>, pi_LastUpdated = 0\<rparr>"

definition demo_net :: net where
  "demo_net = \<lparr>net_Do = (\<lambda>url k. if k = 0 then Inl ''reset'' else Inr \<lparr>http_StatusCode = 200, http_Body = url, http_BodyErr = None\<rparr>),
     net_Cancelled = (\<lambda>_ _. False), net_mul = (\<lambda>_ _. NaN)\<rparr>"

definition demo_retry :: RetryConfig where
  "demo_retry = \<lparr>retry_MaxRetries = 3, retry_RetryDelay = 10 ^ 9, retry_Backoff = Finite 2\<rparr>"

theorem doRequestWithRetry_bounded_witness:
  "\<exists>waits. doRequestWithRetry demo_net demo_retry ''u'' =
     (Inr \<lparr>http_StatusCode = 200, http_Body = ''u'', http_BodyErr = None\<rparr>, waits) \<and> (\<forall>w \<in> set waits. w \<le> retryDelayMax)"
proof -
  obtain res waits where r: "doRequestWithRetry demo_net demo_retry ''u'' = (res, waits)" by fastforce
  have "settles demo_net ''u'' 0 1"
    by (auto simp: settles_def retryable_def demo_net_def)
  then have "res = Inr \<lparr>http_StatusCode = 200, http_Body = ''u'', http_BodyErr = None\<rparr>"
    using doRequestWithRetry_bounded[OF r] by (auto simp: demo_retry_def retryCountMax_def demo_net_def intro!: exI[of _ 1])
  with r doRequestWithRetry_bounded[OF r] show ?thesis by blast
qed

end
