(* ===== verification/Pack_Install.thy ===== *)
theory Pack_Install imports Registry Archive begin

text \<open>
  pkg/query/compliance/registry_verify.go: installing one version of a pack. The published checksum is
  resolved, the archive downloaded and hashed, its digest checked against the checksum and against the
  pin of the lockfile, the archive extracted, the digest pinned, and the pack loaded. The effects are the
  calls on the destination directory (theory Archive), the lockfile and the warnings; the network, the
  temporary file, the archive reader, JSON and the files the loader then sees are parameters.
\<close>

datatype install_warning = UnverifiedDownload string string | Repinned string string string string

datatype resolve_error = ChecksumProblem checksum_error | ChecksumFetch fetch_error

datatype download_error = TempFailed string | DownloadFetch fetch_error | TempWrite string | TempClose string

datatype install_error =
    InvalidDestination string
  | CannotReadChecksum resolve_error
  | NoChecksum string
  | NoDownloadURL string
  | DownloadFailed download_error
  | ChecksumMismatch string string
  | CannotReadLock lock_error
  | PinMismatch string string
  | ExtractFailed archive_error
  | CannotPin lock_error
  | CannotWriteLock lock_error
  | LoadFailed loader_error

record install_env =
  ie_cwd :: string
  ie_home :: string
  ie_net :: net
  ie_retry :: RetryConfig
  ie_allowUnverified :: bool
  ie_repin :: bool
  ie_TempErr :: "string option"
  ie_WriteErr :: "string \<Rightarrow> string option"
  ie_CloseErr :: "string option"
  ie_archive :: "string \<Rightarrow> archive_file"
  ie_os :: os_oracle
  ie_decode :: lock_decoder
  ie_encode :: lock_encoder
  ie_lock_fails :: "lock_call \<Rightarrow> string option"
  ie_loader :: "os_call list \<Rightarrow> loader_env"

record install_effects =
  fx_calls :: "os_call list"
  fx_lock :: lock_file
  fx_warnings :: "install_warning list"

record packDownload =
  pd_bytes :: string
  pd_url :: string
  pd_sha256 :: string

definition packDownloadBytesMax :: int where
  "packDownloadBytesMax = 64 * 1048576"

definition pack_limits :: Limits where
  "pack_limits = \<lparr>lim_BytesMax = 64 * 1048576, lim_EntryCountMax = 10000, lim_EntryBytesMax = 16 * 1048576\<rparr>"

definition packSource :: "PackInfo \<Rightarrow> string panics" where
  "packSource info = (let r = pi_Repository info in
     if repo_Type r = ''github'' \<and> repo_Owner r \<noteq> [] \<and> repo_Name r \<noteq> []
     then Some (''github.com/'' @ repo_Owner r @ ''/'' @ repo_Name r)
     else do {
       assert_That (pi_Namespace info \<noteq> []);
       Some (''registry:'' @ pi_Namespace info)
     })"

definition resolveChecksum :: "install_env \<Rightarrow> RegistryPackVersion \<Rightarrow> (resolve_error + string) panics" where
  "resolveChecksum env v =
     (if rv_Checksum v \<noteq> [] then Some (case normalizeDigest (rv_Checksum v) of
          None \<Rightarrow> Inl (ChecksumProblem ChecksumMalformed) | Some digest \<Rightarrow> Inr digest)
      else if rv_ChecksumURL v = [] then Some (Inl (ChecksumProblem ChecksumMissing))
      else if rv_AssetName v = [] then Some (Inl (ChecksumProblem ChecksumMalformed))
      else do {
        (body, err) \<leftarrow> fetch (ie_net env) (ie_retry env) (rv_ChecksumURL v) (int checksumFileBytesMax);
        (case err of
           Some e \<Rightarrow> Some (Inl (ChecksumFetch e))
         | None \<Rightarrow> do {
             res \<leftarrow> parseChecksumFile body (rv_AssetName v) (checksumFileIsPerAsset (rv_ChecksumURL v));
             Some (map_sum ChecksumProblem id res)
           })
      })"

text \<open>The empty string: none is published, and the user allows that.\<close>

definition publishedChecksum :: "install_env \<Rightarrow> PackInfo \<Rightarrow> RegistryPackVersion \<Rightarrow>
    ((install_error + string) \<times> install_warning list) panics" where
  "publishedChecksum env info v = do {
     res \<leftarrow> resolveChecksum env v;
     (case res of
        Inr checksum \<Rightarrow> do {
          assert_That (length checksum = sha256HexLen);
          Some (Inr checksum, [])
        }
      | Inl err \<Rightarrow>
          if err \<noteq> ChecksumProblem ChecksumMissing then Some (Inl (CannotReadChecksum err), [])
          else if \<not> ie_allowUnverified env then Some (Inl (NoChecksum (rv_Version v)), [])
          else Some (Inr [], [UnverifiedDownload (pi_Namespace info) (rv_Version v)]))
   }"

definition downloadToTemp :: "install_env \<Rightarrow> string \<Rightarrow> (download_error + string \<times> string) panics" where
  "downloadToTemp env url = (case ie_TempErr env of
     Some e \<Rightarrow> Some (Inl (TempFailed e))
   | None \<Rightarrow> do {
       (body, err) \<leftarrow> fetch (ie_net env) (ie_retry env) url packDownloadBytesMax;
       (case err of
          Some e \<Rightarrow> Some (Inl (DownloadFetch e))
        | None \<Rightarrow> (case ie_WriteErr env body of
            Some e \<Rightarrow> Some (Inl (TempWrite e))
          | None \<Rightarrow> (case ie_CloseErr env of
              Some e \<Rightarrow> Some (Inl (TempClose e))
            | None \<Rightarrow> Some (Inr (body, sha256_hex body)))))
     })"

definition downloadVerified :: "install_env \<Rightarrow> RegistryPackVersion \<Rightarrow> string \<Rightarrow> (install_error + packDownload) panics" where
  "downloadVerified env v checksum = (let url = (if rv_DownloadURL v = [] then rv_TarballURL v else rv_DownloadURL v) in
     if url = [] then Some (Inl (NoDownloadURL (rv_Version v)))
     else do {
       res \<leftarrow> downloadToTemp env url;
       (case res of
          Inl err \<Rightarrow> Some (Inl (DownloadFailed err))
        | Inr (body, digest) \<Rightarrow> do {
            assert_That (length digest = sha256HexLen);
            if checksum \<noteq> [] \<and> digest \<noteq> checksum then Some (Inl (ChecksumMismatch checksum digest))
            else Some (Inr \<lparr>pd_bytes = body, pd_url = url, pd_sha256 = digest\<rparr>)
          })
     })"

definition checkPin :: "install_env \<Rightarrow> packLock \<Rightarrow> string \<Rightarrow> string \<Rightarrow> string \<Rightarrow>
    (install_error option \<times> install_warning list) panics" where
  "checkPin env lock source version digest = (case lookup_pin lock source version of
     None \<Rightarrow> Some (None, [])
   | Some old \<Rightarrow>
       if pin_SHA256 old = digest then Some (None, [])
       else do {
         assert_That (pin_SHA256 old \<noteq> digest);
         if \<not> ie_repin env then Some (Some (PinMismatch (pin_SHA256 old) digest), [])
         else Some (None, [Repinned source version digest (pin_SHA256 old)])
       })"

definition extractPack :: "install_env \<Rightarrow> string \<Rightarrow> string \<Rightarrow> (install_error option \<times> os_call list) panics" where
  "extractPack env archive_bytes extractDir = do {
     (err, calls) \<leftarrow> ExtractTree (ie_os env) (ie_archive env archive_bytes) extractDir 1 pack_limits;
     Some (map_option ExtractFailed err, calls)
   }"

definition savePin :: "install_env \<Rightarrow> packLock \<Rightarrow> string \<Rightarrow> string \<Rightarrow> packPin \<Rightarrow> lock_file \<Rightarrow>
    (install_error option \<times> lock_file) panics" where
  "savePin env lock source version pin f = do {
     res \<leftarrow> pin_version source version pin lock;
     (case res of
        Inl err \<Rightarrow> Some (Some (CannotPin err), f)
      | Inr lock \<Rightarrow> do {
          (err, f) \<leftarrow> writePackLock (ie_encode env) (ie_lock_fails env) lock f;
          Some (map_option CannotWriteLock err, f)
        })
   }"

text \<open>From the lockfile to the loaded pack.\<close>

definition install_download :: "install_env \<Rightarrow> PackInfo \<Rightarrow> RegistryPackVersion \<Rightarrow> string \<Rightarrow> string \<Rightarrow> string \<Rightarrow> packDownload \<Rightarrow>
    install_effects \<Rightarrow> ((install_error + QueryPack) \<times> install_effects) panics" where
  "install_download env info v destDir extractDir checksum d fx = (case readPackLock (ie_decode env) (fx_lock fx) of
     Inl err \<Rightarrow> Some (Inl (CannotReadLock err), fx)
   | Inr lock \<Rightarrow> do {
       source \<leftarrow> packSource info;
       (pinErr, warnings) \<leftarrow> checkPin env lock source (rv_Version v) (pd_sha256 d);
       let fx = fx\<lparr>fx_warnings := fx_warnings fx @ warnings\<rparr>;
       (case pinErr of
          Some err \<Rightarrow> Some (Inl err, fx)
        | None \<Rightarrow> do {
            (extractErr, calls) \<leftarrow> extractPack env (pd_bytes d) extractDir;
            let fx = fx\<lparr>fx_calls := calls\<rparr>;
            (case extractErr of
               Some err \<Rightarrow> Some (Inl err, fx)
             | None \<Rightarrow> do {
                 (saveErr, lock_bytes) \<leftarrow> savePin env lock source (rv_Version v)
                   \<lparr>pin_SHA256 = pd_sha256 d, pin_URL = pd_url d, pin_Verified = (checksum \<noteq> [])\<rparr> (fx_lock fx);
                 let fx = fx\<lparr>fx_lock := lock_bytes\<rparr>;
                 (case saveErr of
                    Some err \<Rightarrow> Some (Inl err, fx)
                  | None \<Rightarrow> do {
                      (res, _) \<leftarrow> LoadPack (ie_loader env calls) (pi_Namespace info) (WithSearchPaths [destDir] (NewPackLoader (ie_home env)));
                      Some (map_sum LoadFailed id res, fx)
                    })
               })
          })
     })"

definition downloadAndExtract :: "install_env \<Rightarrow> PackInfo \<Rightarrow> RegistryPackVersion \<Rightarrow> string \<Rightarrow> lock_file \<Rightarrow>
    ((install_error + QueryPack) \<times> install_effects) panics" where
  "downloadAndExtract env info v destDir lock0 = (let fx = \<lparr>fx_calls = [], fx_lock = lock0, fx_warnings = []\<rparr> in
     case packExtractDir (ie_cwd env) destDir (pi_Namespace info) of
       Inl err \<Rightarrow> Some (Inl (InvalidDestination err), fx)
     | Inr extractDir \<Rightarrow> do {
         (published, warnings) \<leftarrow> publishedChecksum env info v;
         let fx = fx\<lparr>fx_warnings := warnings\<rparr>;
         (case published of
            Inl err \<Rightarrow> Some (Inl err, fx)
          | Inr checksum \<Rightarrow> do {
              res \<leftarrow> downloadVerified env v checksum;
              (case res of
                 Inl err \<Rightarrow> Some (Inl err, fx)
               | Inr d \<Rightarrow> install_download env info v destDir extractDir checksum d fx)
            })
       })"

datatype download_pack_error = PackNotFound string | VersionNotFound string | InstallError install_error

text \<open>The cache is set; \<open>None\<close> is the panic on a nil cache.\<close>

definition DownloadPack :: "install_env \<Rightarrow> RegistryCache option \<Rightarrow> string \<Rightarrow> string \<Rightarrow> string \<Rightarrow> lock_file \<Rightarrow>
    ((download_pack_error + QueryPack) \<times> install_effects) panics" where
  "DownloadPack env c namespace version destDir lock0 = do {
     cache \<leftarrow> c;
     (let fx = \<lparr>fx_calls = [], fx_lock = lock0, fx_warnings = []\<rparr> in
      case map_of (rcache_Packs cache) namespace of
        None \<Rightarrow> Some (Inl (PackNotFound namespace), fx)
      | Some info \<Rightarrow> (case chosen_version info version of
          None \<Rightarrow> Some (Inl (VersionNotFound version), fx)
        | Some v \<Rightarrow> do {
            (res, fx) \<leftarrow> downloadAndExtract env info v destDir lock0;
            Some (map_sum InstallError id res, fx)
          }))
   }"

subsection \<open>Nothing is written before every check has passed\<close>

text \<open>The path of an installation that gets as far as the destination.\<close>

lemma install_download_trace:
  assumes "install_download env info v destDir extractDir checksum d fx = Some (res, fx')"
  shows "(fx_calls fx' = fx_calls fx \<and> fx_lock fx' = fx_lock fx \<and> isl res) \<or>
    (\<exists>lock source ws err calls. readPackLock (ie_decode env) (fx_lock fx) = Inr lock \<and> packSource info = Some source \<and>
       checkPin env lock source (rv_Version v) (pd_sha256 d) = Some (None, ws) \<and>
       extractPack env (pd_bytes d) extractDir = Some (err, calls) \<and> fx_calls fx' = calls \<and> fx_warnings fx' = fx_warnings fx @ ws \<and>
       (err \<noteq> None \<longrightarrow> isl res \<and> fx_lock fx' = fx_lock fx) \<and>
       (err = None \<longrightarrow> (\<exists>saveErr. savePin env lock source (rv_Version v)
            \<lparr>pin_SHA256 = pd_sha256 d, pin_URL = pd_url d, pin_Verified = (checksum \<noteq> [])\<rparr> (fx_lock fx) = Some (saveErr, fx_lock fx') \<and>
          (saveErr \<noteq> None \<longrightarrow> isl res))))"
proof (cases "readPackLock (ie_decode env) (fx_lock fx)")
  case (Inl e)
  with assms show ?thesis by (auto simp: install_download_def)
next
  case (Inr lock)
  obtain source where source: "packSource info = Some source"
    using assms Inr by (auto simp: install_download_def panics_iff)
  obtain pinErr ws where pin: "checkPin env lock source (rv_Version v) (pd_sha256 d) = Some (pinErr, ws)"
    using assms Inr source by (auto simp: install_download_def panics_iff)
  show ?thesis
  proof (cases pinErr)
    case (Some e)
    with assms Inr source pin show ?thesis by (auto simp: install_download_def Let_def)
  next
    case None
    obtain err calls where ext: "extractPack env (pd_bytes d) extractDir = Some (err, calls)"
      using assms Inr source pin None by (auto simp: install_download_def Let_def panics_iff)
    show ?thesis
    proof (cases err)
      case (Some e)
      with assms Inr source pin None ext have "fx_calls fx' = calls \<and> fx_warnings fx' = fx_warnings fx @ ws \<and> isl res \<and> fx_lock fx' = fx_lock fx"
        by (auto simp: install_download_def Let_def)
      with Inr source pin None ext Some show ?thesis by blast
    next
      case noerr: None
      obtain saveErr f where save: "savePin env lock source (rv_Version v)
          \<lparr>pin_SHA256 = pd_sha256 d, pin_URL = pd_url d, pin_Verified = (checksum \<noteq> [])\<rparr> (fx_lock fx) = Some (saveErr, f)"
        using assms Inr source pin None ext noerr by (auto simp: install_download_def Let_def panics_iff)
      have "fx_calls fx' = calls \<and> fx_warnings fx' = fx_warnings fx @ ws \<and> f = fx_lock fx' \<and> (saveErr \<noteq> None \<longrightarrow> isl res)"
        using assms Inr source pin None ext noerr save
        by (cases saveErr) (auto simp: install_download_def Let_def panics_iff)
      with Inr source pin None ext noerr save show ?thesis by blast
    qed
  qed
qed

definition pack_url :: "RegistryPackVersion \<Rightarrow> string" where
  "pack_url v = (if rv_DownloadURL v = [] then rv_TarballURL v else rv_DownloadURL v)"

lemma downloadVerified_Inr:
  assumes "downloadVerified env v checksum = Some (Inr d)"
  shows "fetch (ie_net env) (ie_retry env) (pack_url v) packDownloadBytesMax = Some (pd_bytes d, None) \<and>
    pd_sha256 d = sha256_hex (pd_bytes d) \<and> pd_url d = pack_url v \<and> (checksum = [] \<or> checksum = pd_sha256 d)"
  using assms
  by (auto simp: downloadVerified_def downloadToTemp_def pack_url_def Let_def panics_iff split: if_splits option.splits sum.splits)

lemma publishedChecksum_Inr:
  assumes "publishedChecksum env info v = Some (Inr checksum, ws)"
  shows "(resolveChecksum env v = Some (Inr checksum) \<and> length checksum = sha256HexLen) \<or>
    (checksum = [] \<and> resolveChecksum env v = Some (Inl (ChecksumProblem ChecksumMissing)) \<and> ie_allowUnverified env \<and>
     UnverifiedDownload (pi_Namespace info) (rv_Version v) \<in> set ws)"
proof -
  obtain r where r: "resolveChecksum env v = Some r" using assms by (auto simp: publishedChecksum_def panics_iff)
  show ?thesis
  proof (cases r)
    case (Inl e)
    with r assms show ?thesis by (auto simp: publishedChecksum_def split: if_splits)
  next
    case (Inr c)
    with r assms show ?thesis by (auto simp: publishedChecksum_def panics_iff)
  qed
qed

lemma checkPin_pass:
  assumes "checkPin env lock source version digest = Some (None, ws)" "lookup_pin lock source version = Some p"
  shows "pin_SHA256 p = digest \<or> (ie_repin env \<and> Repinned source version digest (pin_SHA256 p) \<in> set ws)"
  using assms by (auto simp: checkPin_def split: if_splits)

text \<open>What stands behind anything an installation has done.\<close>

definition checks_passed :: "install_env \<Rightarrow> PackInfo \<Rightarrow> RegistryPackVersion \<Rightarrow> lock_file \<Rightarrow> string \<Rightarrow> install_warning list \<Rightarrow> bool" where
  "checks_passed env info v lock0 body warnings \<longleftrightarrow>
     fetch (ie_net env) (ie_retry env) (pack_url v) packDownloadBytesMax = Some (body, None) \<and>
     (resolveChecksum env v = Some (Inr (sha256_hex body)) \<or>
      (resolveChecksum env v = Some (Inl (ChecksumProblem ChecksumMissing)) \<and> ie_allowUnverified env \<and>
       UnverifiedDownload (pi_Namespace info) (rv_Version v) \<in> set warnings)) \<and>
     (\<exists>lock source. readPackLock (ie_decode env) lock0 = Inr lock \<and> packSource info = Some source \<and>
        (\<forall>p. lookup_pin lock source (rv_Version v) = Some p \<longrightarrow> pin_SHA256 p = sha256_hex body \<or>
           (ie_repin env \<and> Repinned source (rv_Version v) (sha256_hex body) (pin_SHA256 p) \<in> set warnings)))"

lemma downloadAndExtract_trace:
  assumes "downloadAndExtract env info v destDir lock0 = Some (res, fx)"
    and "fx_calls fx \<noteq> [] \<or> fx_lock fx \<noteq> lock0 \<or> \<not> isl res"
  obtains dir checksum ws d where "packExtractDir (ie_cwd env) destDir (pi_Namespace info) = Inr dir"
    "publishedChecksum env info v = Some (Inr checksum, ws)" "downloadVerified env v checksum = Some (Inr d)"
    "install_download env info v destDir dir checksum d \<lparr>fx_calls = [], fx_lock = lock0, fx_warnings = ws\<rparr> = Some (res, fx)"
proof (cases "packExtractDir (ie_cwd env) destDir (pi_Namespace info)")
  case (Inl e)
  with assms show ?thesis by (auto simp: downloadAndExtract_def Let_def)
next
  case (Inr dir)
  obtain pub ws where pub: "publishedChecksum env info v = Some (pub, ws)"
    using assms(1) Inr by (auto simp: downloadAndExtract_def Let_def panics_iff)
  show ?thesis
  proof (cases pub)
    case (Inl e)
    with Inr pub assms show ?thesis by (auto simp: downloadAndExtract_def Let_def)
  next
    case pubr: (Inr checksum)
    obtain r where r: "downloadVerified env v checksum = Some r"
      using assms(1) Inr pub pubr by (auto simp: downloadAndExtract_def Let_def panics_iff)
    show ?thesis
    proof (cases r)
      case (Inl e)
      with Inr pub pubr r assms show ?thesis by (auto simp: downloadAndExtract_def Let_def)
    next
      case (Inr d)
      with \<open>packExtractDir _ _ _ = _\<close> pub pubr r assms(1)
      have "install_download env info v destDir dir checksum d \<lparr>fx_calls = [], fx_lock = lock0, fx_warnings = ws\<rparr> = Some (res, fx)"
        by (simp add: downloadAndExtract_def Let_def)
      with \<open>packExtractDir _ _ _ = _\<close> pub pubr r Inr show ?thesis using that by blast
    qed
  qed
qed

text \<open>
  C33. A pack that fails a check leaves no trace. Whenever an installation makes any call on the file
  system, changes the lockfile or returns a pack, the bytes it extracts are the whole download, their
  SHA-256 is the published checksum, or none is published, the user allowed that and was warned, and it
  is the digest pinned for this source and version, or none is pinned, or the user asked to re-pin and
  was warned. The calls are those of extracting these bytes to the pack's directory and nothing else, and
  the lockfile changes, and a pack is returned, only if the extraction has no error.
\<close>

theorem install_verified:
  assumes "downloadAndExtract env info v destDir lock0 = Some (res, fx)"
    and "fx_calls fx \<noteq> [] \<or> fx_lock fx \<noteq> lock0 \<or> \<not> isl res"
  shows "\<exists>dir body err. packExtractDir (ie_cwd env) destDir (pi_Namespace info) = Inr dir \<and>
    checks_passed env info v lock0 body (fx_warnings fx) \<and>
    ExtractTree (ie_os env) (ie_archive env body) dir 1 pack_limits = Some (err, fx_calls fx) \<and>
    (fx_lock fx \<noteq> lock0 \<or> \<not> isl res \<longrightarrow> err = None)"
proof -
  obtain dir checksum ws d where t: "packExtractDir (ie_cwd env) destDir (pi_Namespace info) = Inr dir"
    "publishedChecksum env info v = Some (Inr checksum, ws)" "downloadVerified env v checksum = Some (Inr d)"
    "install_download env info v destDir dir checksum d \<lparr>fx_calls = [], fx_lock = lock0, fx_warnings = ws\<rparr> = Some (res, fx)"
    using downloadAndExtract_trace[OF assms] by metis
  obtain lock source ws2 err calls where i: "readPackLock (ie_decode env) lock0 = Inr lock" "packSource info = Some source"
    "checkPin env lock source (rv_Version v) (pd_sha256 d) = Some (None, ws2)"
    "extractPack env (pd_bytes d) dir = Some (err, calls)" "fx_calls fx = calls" "fx_warnings fx = ws @ ws2"
    "err \<noteq> None \<longrightarrow> isl res \<and> fx_lock fx = lock0"
    using install_download_trace[OF t(4)] assms(2) by auto
  note d = downloadVerified_Inr[OF t(3)]
  have sha: "sha256HexLen \<noteq> 0" by (simp add: sha256HexLen_def)
  have published: "resolveChecksum env v = Some (Inr (sha256_hex (pd_bytes d))) \<or>
      (resolveChecksum env v = Some (Inl (ChecksumProblem ChecksumMissing)) \<and> ie_allowUnverified env \<and>
       UnverifiedDownload (pi_Namespace info) (rv_Version v) \<in> set (fx_warnings fx))"
    using publishedChecksum_Inr[OF t(2)] d i(6) sha by auto
  have pins: "pin_SHA256 p = sha256_hex (pd_bytes d) \<or>
      (ie_repin env \<and> Repinned source (rv_Version v) (sha256_hex (pd_bytes d)) (pin_SHA256 p) \<in> set (fx_warnings fx))"
    if "lookup_pin lock source (rv_Version v) = Some p" for p
    using checkPin_pass[OF i(3) that] d i(6) by auto
  have "checks_passed env info v lock0 (pd_bytes d) (fx_warnings fx)"
    unfolding checks_passed_def using d published i(1,2) pins by blast
  moreover obtain aerr where "ExtractTree (ie_os env) (ie_archive env (pd_bytes d)) dir 1 pack_limits = Some (aerr, fx_calls fx)"
    "err = map_option ExtractFailed aerr"
    using i(4,5) by (auto simp: extractPack_def panics_iff)
  ultimately show ?thesis using t(1) i(7) by auto
qed

subsection \<open>Installing does not panic\<close>

lemma parseChecksumFile_returns: "a \<noteq> [] \<Longrightarrow> \<exists>r. parseChecksumFile data a bare = Some r"
  by (simp add: parseChecksumFile_eq)

lemma parseChecksumFile_len:
  assumes "parseChecksumFile data a bare = Some (Inr d)"
  shows "length d = sha256HexLen"
proof -
  obtain r where "checksum_loop a bare (strings_Split data (CHR 0x0A)) [] = Some r"
    using assms by (auto simp: parseChecksumFile_def panics_iff Let_def split: if_splits)
  with assms show ?thesis by (cases r) (auto simp: parseChecksumFile_def panics_iff Let_def split: if_splits)
qed

lemma fetch_returns:
  assumes "0 \<le> retry_MaxRetries cfg" "0 < bytesMax"
  shows "\<exists>body err. fetch n cfg url bytesMax = Some (body, err)"
proof -
  have "fst (doRequestWithRetry n cfg url) \<noteq> Inl None"
    using assms(1) by (simp add: doRequestWithRetry_def Let_def retry_loop_silent retryCountMax_def nat_eq_iff min_def)
  then show ?thesis
    using assms(2) by (cases "fst (doRequestWithRetry n cfg url)") (auto simp: fetch_def Let_def split: option.split)
qed

lemma resolveChecksum_returns:
  assumes "0 \<le> retry_MaxRetries (ie_retry env)"
  shows "\<exists>r. resolveChecksum env v = Some r \<and> (\<forall>d. r = Inr d \<longrightarrow> length d = sha256HexLen)"
proof -
  obtain body err where f: "fetch (ie_net env) (ie_retry env) (rv_ChecksumURL v) (int checksumFileBytesMax) = Some (body, err)"
    using fetch_returns[OF assms, of "int checksumFileBytesMax" "ie_net env" "rv_ChecksumURL v"] by (auto simp: checksumFileBytesMax_def)
  show ?thesis
  proof (cases "rv_Checksum v = [] \<and> rv_ChecksumURL v \<noteq> [] \<and> rv_AssetName v \<noteq> []")
    case True
    then obtain r where r: "parseChecksumFile body (rv_AssetName v) (checksumFileIsPerAsset (rv_ChecksumURL v)) = Some r"
      using parseChecksumFile_returns by blast
    have "length d = sha256HexLen" if "r = Inr d" for d using parseChecksumFile_len r that by blast
    with True f r show ?thesis by (cases err; cases r) (auto simp: resolveChecksum_def)
  next
    case False
    then show ?thesis
      by (auto simp: resolveChecksum_def normalizeDigest_Some sha_digest_def split: option.split)
  qed
qed

lemma publishedChecksum_returns:
  "0 \<le> retry_MaxRetries (ie_retry env) \<Longrightarrow> \<exists>r ws. publishedChecksum env info v = Some (r, ws)"
  using resolveChecksum_returns[of env v] by (auto simp: publishedChecksum_def split: sum.split)

lemma downloadVerified_returns:
  assumes "0 \<le> retry_MaxRetries (ie_retry env)"
  shows "\<exists>r. downloadVerified env v checksum = Some r"
proof -
  obtain body err where f: "fetch (ie_net env) (ie_retry env) (if rv_DownloadURL v = [] then rv_TarballURL v else rv_DownloadURL v) packDownloadBytesMax = Some (body, err)"
    using fetch_returns[OF assms, of packDownloadBytesMax "ie_net env" "if rv_DownloadURL v = [] then rv_TarballURL v else rv_DownloadURL v"]
    by (auto simp: packDownloadBytesMax_def)
  then show ?thesis
    by (cases "ie_TempErr env"; cases err; cases "ie_WriteErr env body"; cases "ie_CloseErr env")
      (simp_all add: downloadVerified_def downloadToTemp_def Let_def sha256HexLen_def)
qed

lemma sha256_pin_ok: "pin_digest_ok (sha256_hex s)"
proof -
  have c: "hex_char c \<and> lower_char c = c" if "c \<in> set ''0123456789abcdef''" for c
    using that by (auto simp: hex_char_def lower_char_def Let_def)
  have "\<forall>c \<in> set (sha256_hex s). hex_char c \<and> lower_char c = c" using sha256_hex_chars[of s] c by blast
  then show ?thesis
    by (simp add: pin_digest_ok_def sha_digest_def list_all_iff sha256HexLen_def strings_ToLower_def map_idI)
qed

lemma readPackLock_wf: "readPackLock decode f = Inr l \<Longrightarrow> lock_wf l"
  using validatePackLock_None[of l] newPackLock_wf
  by (auto simp: readPackLock_def decodePackLock_def Let_def split: lock_file.splits if_splits sum.splits option.splits)

lemma packSource_returns: "pi_Namespace info \<noteq> [] \<Longrightarrow> \<exists>s. packSource info = Some s \<and> s \<noteq> []"
  by (auto simp: packSource_def Let_def)

lemma pin_version_returns:
  assumes "lock_wf l" "source \<noteq> []" "version \<noteq> []" "pin_digest_ok (pin_SHA256 pin)"
  obtains "pin_version source version pin l = Some (Inl LockFull)"
  | "pin_version source version pin l = Some (Inr (pinned source version pin l))" "lock_wf (pinned source version pin l)"
proof (cases "lookup_pin l source version = None \<and> entryCount l \<ge> packLockEntryCountMax")
  case True
  with assms that(1) show ?thesis by (auto simp: pin_version_def pin_digest_ok_def sha_digest_def)
next
  case False
  then have wf: "lock_wf (pinned source version pin l)" by (intro lock_wf_pinned assms) auto
  with assms False that(2) show ?thesis
    by (simp add: pin_version_def pinned_def[symmetric] pin_digest_ok_def sha_digest_def lock_wf_def)
qed

lemma writePackLock_returns: "lock_wf l \<Longrightarrow> \<exists>err f'. writePackLock encode fails l f = Some (err, f')"
  by (auto simp: writePackLock_def lock_wf_def Let_def split: sum.split option.split)

lemma savePin_returns:
  assumes "lock_wf l" "source \<noteq> []" "version \<noteq> []" "pin_digest_ok (pin_SHA256 pin)"
  shows "\<exists>err f'. savePin env l source version pin f = Some (err, f')"
proof (rule pin_version_returns[OF assms])
  assume "pin_version source version pin l = Some (Inr (pinned source version pin l))" "lock_wf (pinned source version pin l)"
  then show ?thesis using writePackLock_returns[of "pinned source version pin l" "ie_encode env" "ie_lock_fails env" f]
    by (auto simp: savePin_def)
qed (simp add: savePin_def)

lemma checkPin_returns: "\<exists>err ws. checkPin env lock source version digest = Some (err, ws)"
  by (auto simp: checkPin_def split: option.split)

lemma extractPack_returns:
  assumes "filepath_IsAbs dir" "filepath_Clean dir = dir"
  shows "\<exists>err calls. extractPack env bytes dir = Some (err, calls) \<and> list_all (call_within (abs_comps dir)) calls \<and>
    bytes_written calls \<le> lim_BytesMax pack_limits + 1"
  using ExtractTree_within[OF assms, of pack_limits "ie_os env" "ie_archive env bytes" 1]
  by (auto simp: extractPack_def pack_limits_def)

lemma abs_comps_Clean: "filepath_IsAbs p \<Longrightarrow> abs_comps (filepath_Clean p) = abs_comps p"
  by (simp add: Clean_abs abs_comps_normal)

text \<open>An empty namespace names the destination itself, which is refused.\<close>

lemma packExtractDir_namespace:
  assumes "filepath_IsAbs cwd" "packExtractDir cwd destDir ns = Inr dir"
  shows "ns \<noteq> []"
proof
  assume ns: "ns = []"
  define base where "base = abs_of cwd destDir"
  have abs: "filepath_IsAbs base" using abs_of_clean[OF assms(1)] base_def by blast
  then have "base \<noteq> []" by auto
  then have "dir = filepath_Clean (base @ ''/'')"
    using assms(2) ns by (auto simp: packExtractDir_def base_def[symmetric] filepath_Join_def Let_def split: if_splits)
  moreover have "filepath_IsAbs (base @ ''/'')" using abs \<open>base \<noteq> []\<close> by (simp add: IsAbs_append)
  ultimately have "abs_comps dir = abs_comps (base @ ''/'')" by (simp add: abs_comps_Clean)
  also have "\<dots> = abs_comps base"
    using Split_append[of base "CHR ''/''" "[]"] by (simp add: abs_comps_def clean_loop_append)
  finally show False using packExtractDir_below[OF assms] by (simp add: base_def)
qed

lemma install_download_returns:
  assumes "pi_Namespace info \<noteq> []" "rv_Version v \<noteq> []" "filepath_IsAbs dir" "filepath_Clean dir = dir"
    and "pd_sha256 d = sha256_hex (pd_bytes d)"
  shows "\<exists>res fx'. install_download env info v destDir dir checksum d fx = Some (res, fx')"
proof (cases "readPackLock (ie_decode env) (fx_lock fx)")
  case (Inl e)
  then show ?thesis by (simp add: install_download_def)
next
  case (Inr lock)
  obtain source where source: "packSource info = Some source" "source \<noteq> []" using packSource_returns[OF assms(1)] by blast
  obtain pinErr ws where pin: "checkPin env lock source (rv_Version v) (pd_sha256 d) = Some (pinErr, ws)" using checkPin_returns by blast
  obtain err calls where ext: "extractPack env (pd_bytes d) dir = Some (err, calls)" using extractPack_returns[OF assms(3,4)] by blast
  have "pin_digest_ok (pin_SHA256 \<lparr>pin_SHA256 = pd_sha256 d, pin_URL = pd_url d, pin_Verified = (checksum \<noteq> [])\<rparr>)"
    using sha256_pin_ok assms(5) by simp
  from savePin_returns[OF readPackLock_wf[OF Inr] source(2) assms(2) this, of env "fx_lock fx"] obtain saveErr f where
    save: "savePin env lock source (rv_Version v)
      \<lparr>pin_SHA256 = pd_sha256 d, pin_URL = pd_url d, pin_Verified = (checksum \<noteq> [])\<rparr> (fx_lock fx) = Some (saveErr, f)" by blast
  obtain r l' where "LoadPack (ie_loader env calls) (pi_Namespace info) (WithSearchPaths [destDir] (NewPackLoader (ie_home env))) = Some (r, l')"
    using LoadPack_returns by blast
  with Inr source(1) pin ext save show ?thesis
    by (cases pinErr; cases err; cases saveErr) (simp_all add: install_download_def Let_def)
qed

text \<open>
  C34. Installing does not panic and stays in its place. From an absolute working directory, with a
  number of retries that is not negative and a version that has a name, whatever the network, the
  registry, the archive, the lockfile and the file system give, an installation returns; and all it
  does to the file system, beside the lockfile, is within one directory strictly below the destination,
  with at most one byte more written than the limit on a pack.
\<close>

theorem install_returns_confined:
  assumes "filepath_IsAbs (ie_cwd env)" "0 \<le> retry_MaxRetries (ie_retry env)" "rv_Version v \<noteq> []"
  shows "\<exists>res fx. downloadAndExtract env info v destDir lock0 = Some (res, fx) \<and>
    (fx_calls fx = [] \<or> (\<exists>dir rest. rest \<noteq> [] \<and> list_all normal_comp rest \<and>
       abs_comps dir = abs_comps (abs_of (ie_cwd env) destDir) @ rest \<and>
       list_all (call_within (abs_comps dir)) (fx_calls fx) \<and> bytes_written (fx_calls fx) \<le> 64 * 1048576 + 1))"
proof (cases "packExtractDir (ie_cwd env) destDir (pi_Namespace info)")
  case (Inl e)
  then show ?thesis by (simp add: downloadAndExtract_def)
next
  case (Inr dir)
  note ns = packExtractDir_namespace[OF assms(1) Inr] and below = packExtractDir_below[OF assms(1) Inr]
  obtain pub ws where pub: "publishedChecksum env info v = Some (pub, ws)" using publishedChecksum_returns[OF assms(2)] by blast
  show ?thesis
  proof (cases pub)
    case (Inl e)
    with Inr pub show ?thesis by (simp add: downloadAndExtract_def Let_def)
  next
    case pubr: (Inr checksum)
    obtain r where r: "downloadVerified env v checksum = Some r" using downloadVerified_returns[OF assms(2)] by blast
    show ?thesis
    proof (cases r)
      case (Inl e)
      with Inr pub pubr r show ?thesis by (simp add: downloadAndExtract_def Let_def)
    next
      case rr: (Inr d)
      let ?fx = "\<lparr>fx_calls = [], fx_lock = lock0, fx_warnings = ws\<rparr>"
      have "pd_sha256 d = sha256_hex (pd_bytes d)" using downloadVerified_Inr r rr by blast
      then obtain res fx where i: "install_download env info v destDir dir checksum d ?fx = Some (res, fx)"
        using install_download_returns[OF ns assms(3)] below by blast
      have eq: "downloadAndExtract env info v destDir lock0 = Some (res, fx)"
        using Inr pub pubr r rr i by (simp add: downloadAndExtract_def Let_def)
      have "list_all (call_within (abs_comps dir)) (fx_calls fx) \<and> bytes_written (fx_calls fx) \<le> 64 * 1048576 + 1" if "fx_calls fx \<noteq> []"
        using install_download_trace[OF i] that below extractPack_returns[of dir env "pd_bytes d"] by (auto simp: pack_limits_def)
      with eq below show ?thesis by blast
    qed
  qed
qed

text \<open>
  A version without a name passes every check but the assertion on the pin: the pack is extracted and
  the process then panics, before it is pinned.
\<close>

lemma empty_version_panics:
  assumes "readPackLock (ie_decode env) (fx_lock fx) = Inr lock" "packSource info = Some source" "rv_Version v = []"
    and "checkPin env lock source [] (pd_sha256 d) = Some (None, ws)" "extractPack env (pd_bytes d) dir = Some (None, calls)"
  shows "install_download env info v destDir dir checksum d fx = None"
  using assms by (simp add: install_download_def savePin_def pin_version_def Let_def)

text \<open>With a negative number of retries the request is never made, and the code reads a response that is not there.\<close>

lemma negative_retries_panic: "retry_MaxRetries cfg < 0 \<Longrightarrow> fetch n cfg url bytesMax = None"
  using retry_loop_silent[of n url "retry_Backoff cfg" "nat (min (retry_MaxRetries cfg) retryCountMax + 1)" 0
      "min (retry_RetryDelay cfg) retryDelayMax" None "[]"]
  by (cases "bytesMax > 0") (simp_all add: fetch_def doRequestWithRetry_def Let_def)

text \<open>
  C35. What was installed is pinned. Given that JSON reads back the lockfiles it writes, after an
  installation that returns a pack the lockfile holds for the pack's source and version the digest of the
  very bytes that were extracted, marked verified exactly if a checksum was published, and every other pin
  as before; an installation of this version whose download has another digest is then refused, unless
  the user asks to re-pin.
\<close>

theorem install_pins:
  assumes "downloadAndExtract env info v destDir lock0 = Some (Inr pack, fx)" "filepath_IsAbs (ie_cwd env)" "rv_Version v \<noteq> []"
    and "\<And>l out. lock_wf l \<Longrightarrow> ie_encode env l = Inr out \<Longrightarrow> ie_decode env (out @ [CHR 0x0A]) = Inr (l, False)"
  shows "\<exists>lock lock' source body p. readPackLock (ie_decode env) lock0 = Inr lock \<and> readPackLock (ie_decode env) (fx_lock fx) = Inr lock' \<and>
    packSource info = Some source \<and> fetch (ie_net env) (ie_retry env) (pack_url v) packDownloadBytesMax = Some (body, None) \<and>
    pin_SHA256 p = sha256_hex body \<and> (pin_Verified p \<longleftrightarrow> resolveChecksum env v = Some (Inr (sha256_hex body))) \<and>
    (\<forall>s w. lookup_pin lock' s w = (if s = source \<and> w = rv_Version v then Some p else lookup_pin lock s w)) \<and>
    (\<forall>env' digest. \<not> ie_repin env' \<and> digest \<noteq> sha256_hex body \<longrightarrow>
       checkPin env' lock' source (rv_Version v) digest = Some (Some (PinMismatch (sha256_hex body) digest), []))"
proof -
  obtain dir checksum ws d where t: "packExtractDir (ie_cwd env) destDir (pi_Namespace info) = Inr dir"
    "publishedChecksum env info v = Some (Inr checksum, ws)" "downloadVerified env v checksum = Some (Inr d)"
    "install_download env info v destDir dir checksum d \<lparr>fx_calls = [], fx_lock = lock0, fx_warnings = ws\<rparr> = Some (Inr pack, fx)"
    using downloadAndExtract_trace[OF assms(1)] by (metis sum.disc(2))
  define p where "p = \<lparr>pin_SHA256 = pd_sha256 d, pin_URL = pd_url d, pin_Verified = (checksum \<noteq> [])\<rparr>"
  obtain lock source where i: "readPackLock (ie_decode env) lock0 = Inr lock" "packSource info = Some source"
    "savePin env lock source (rv_Version v) p lock0 = Some (None, fx_lock fx)"
    using install_download_trace[OF t(4)] by (auto simp: p_def)
  note d = downloadVerified_Inr[OF t(3)]
  have "source \<noteq> []" using packSource_returns[OF packExtractDir_namespace[OF assms(2) t(1)]] i(2) by auto
  moreover have "pin_digest_ok (pin_SHA256 p)" using sha256_pin_ok d by (simp add: p_def)
  ultimately consider "pin_version source (rv_Version v) p lock = Some (Inl LockFull)"
    | "pin_version source (rv_Version v) p lock = Some (Inr (pinned source (rv_Version v) p lock))" "lock_wf (pinned source (rv_Version v) p lock)"
    using pin_version_returns[OF readPackLock_wf[OF i(1)] _ assms(3)] by metis
  then have pv: "pin_version source (rv_Version v) p lock = Some (Inr (pinned source (rv_Version v) p lock))"
      "lock_wf (pinned source (rv_Version v) p lock)"
    using i(3) by (cases; simp add: savePin_def)+
  define lock' where "lock' = pinned source (rv_Version v) p lock"
  have w: "writePackLock (ie_encode env) (ie_lock_fails env) lock' lock0 = Some (None, fx_lock fx)"
    using i(3) pv(1) by (auto simp: savePin_def lock'_def panics_iff)
  have read: "readPackLock (ie_decode env) (fx_lock fx) = Inr lock'"
    using writePackLock_reads[OF _ w, of "ie_decode env"] pv(2) assms(4) by (simp add: lock'_def)
  have verified: "checksum \<noteq> [] \<longleftrightarrow> resolveChecksum env v = Some (Inr (sha256_hex (pd_bytes d)))"
    using publishedChecksum_Inr[OF t(2)] d by (auto simp: sha256HexLen_def)
  have lk: "\<forall>s w. lookup_pin lock' s w = (if s = source \<and> w = rv_Version v then Some p else lookup_pin lock s w)"
    by (simp add: lock'_def lookup_pinned)
  then have "\<forall>env' digest. \<not> ie_repin env' \<and> digest \<noteq> sha256_hex (pd_bytes d) \<longrightarrow>
       checkPin env' lock' source (rv_Version v) digest = Some (Some (PinMismatch (sha256_hex (pd_bytes d)) digest), [])"
    using d by (auto simp: checkPin_def p_def)
  with i(1,2) read d verified lk show ?thesis
    by (intro exI[of _ lock] exI[of _ lock'] exI[of _ source] exI[of _ "pd_bytes d"] exI[of _ p] conjI) (simp_all add: p_def)
qed

subsection \<open>An instance\<close>

text \<open>A pack whose release publishes the digest of the three bytes that are served.\<close>

definition demo_release :: RegistryPackVersion where
  "demo_release = \<lparr>rv_Version = ''v1'', rv_Tag = ''v1'', rv_Commit = [], rv_ReleaseDate = 0, rv_Checksum = sha256_hex ''tgz'',
     rv_Size = 3, rv_DownloadURL = ''https://x/p.tar.gz'', rv_TarballURL = [], rv_AssetName = ''p.tar.gz'',
     rv_ChecksumURL = [], rv_Deprecated = False\<rparr>"

definition demo_app :: PackInfo where
  "demo_app = (demo_info ''app'')\<lparr>pi_Namespace := ''app''\<rparr>"

definition demo_lock :: packLock where
  "demo_lock = pinned ''github.com/acme/app'' ''v1''
     \<lparr>pin_SHA256 = sha256_hex ''tgz'', pin_URL = ''https://x/p.tar.gz'', pin_Verified = True\<rparr> newPackLock"

definition demo_install_env :: install_env where
  "demo_install_env = \<lparr>ie_cwd = ''/'', ie_home = ''/home/u'',
     ie_net = \<lparr>net_Do = (\<lambda>_ _. Inr \<lparr>http_StatusCode = 200, http_Body = ''tgz'', http_BodyErr = None\<rparr>),
       net_Cancelled = (\<lambda>_ _. False), net_mul = (\<lambda>_ _. NaN)\<rparr>,
     ie_retry = demo_retry, ie_allowUnverified = False, ie_repin = False, ie_TempErr = None, ie_WriteErr = (\<lambda>_. None),
     ie_CloseErr = None, ie_archive = (\<lambda>_. TarGz (Inr ([], []))), ie_os = (\<lambda>_. None),
     ie_decode = (\<lambda>_. Inr (demo_lock, False)), ie_encode = (\<lambda>l. if l = demo_lock then Inr ''{}'' else Inl ''unsupported''),
     ie_lock_fails = (\<lambda>_. None), ie_loader = (\<lambda>_. demo_loader_env)\<rparr>"

lemma demo_fetch: "0 < bytesMax \<Longrightarrow> 3 \<le> bytesMax \<Longrightarrow> fetch (ie_net demo_install_env) demo_retry url bytesMax = Some (''tgz'', None)"
  by (simp add: fetch_def doRequestWithRetry_def demo_install_env_def demo_retry_def retryCountMax_def Let_def
      nat_add_distrib eval_nat_numeral)

lemma demo_normalize: "normalizeDigest (sha256_hex s) = Some (sha256_hex s)"
  using sha256_pin_ok[of s] by (simp add: normalizeDigest_Some pin_digest_ok_def)

lemma demo_extract_dir: "packExtractDir ''/'' ''/p'' ''app'' = Inr ''/p/app''"
  by code_simp

lemma demo_dir_clean: "filepath_IsAbs ''/p/app'' \<and> filepath_Clean ''/p/app'' = ''/p/app''"
  by code_simp

lemma demo_lock_wf: "lock_wf demo_lock"
  unfolding demo_lock_def
  by (rule lock_wf_pinned[OF newPackLock_wf]) (simp_all add: sha256_pin_ok newPackLock_def entryCount_def packLockEntryCountMax_def)

lemma demo_save: "savePin demo_install_env newPackLock ''github.com/acme/app'' ''v1''
    \<lparr>pin_SHA256 = sha256_hex ''tgz'', pin_URL = ''https://x/p.tar.gz'', pin_Verified = True\<rparr> LockMissing =
    Some (None, LockBytes (''{}'' @ [CHR 0x0A]))"
proof -
  have "pin_version ''github.com/acme/app'' ''v1''
      \<lparr>pin_SHA256 = sha256_hex ''tgz'', pin_URL = ''https://x/p.tar.gz'', pin_Verified = True\<rparr> newPackLock = Some (Inr demo_lock)"
    by (simp add: pin_version_def demo_lock_def pinned_def newPackLock_def entryCount_def source_pins_def lookup_pin_def
        packLockEntryCountMax_def sha256HexLen_def assert_That_def)
  then show ?thesis
    using demo_lock_wf by (simp add: savePin_def writePackLock_def demo_install_env_def lock_wf_def packLockBytesMax_def Let_def)
qed

lemma demo_install: "\<exists>pack fx. downloadAndExtract demo_install_env demo_app demo_release ''/p'' LockMissing = Some (Inr pack, fx)"
proof -
  have published: "publishedChecksum demo_install_env demo_app demo_release = Some (Inr (sha256_hex ''tgz''), [])"
    by (simp add: publishedChecksum_def resolveChecksum_def demo_release_def demo_normalize sha256HexLen_def)
  have retry: "ie_retry demo_install_env = demo_retry" by (simp add: demo_install_env_def)
  have f: "fetch (ie_net demo_install_env) demo_retry url packDownloadBytesMax = Some (''tgz'', None)" for url
    using demo_fetch[of packDownloadBytesMax url] by (simp add: packDownloadBytesMax_def)
  have env: "ie_TempErr demo_install_env = None" "ie_WriteErr demo_install_env = (\<lambda>_. None)" "ie_CloseErr demo_install_env = None"
    by (simp_all add: demo_install_env_def)
  have download: "downloadVerified demo_install_env demo_release (sha256_hex ''tgz'') =
      Some (Inr \<lparr>pd_bytes = ''tgz'', pd_url = ''https://x/p.tar.gz'', pd_sha256 = sha256_hex ''tgz''\<rparr>)"
    using f env by (simp add: downloadVerified_def downloadToTemp_def demo_release_def sha256HexLen_def retry Let_def)
  have source: "packSource demo_app = Some ''github.com/acme/app''"
    by (simp add: packSource_def demo_app_def demo_info_def)
  have pin: "checkPin demo_install_env newPackLock source version digest = Some (None, [])" for source version digest
    by (simp add: checkPin_def lookup_pin_def source_pins_def newPackLock_def)
  have unpacked: "extractPack demo_install_env ''tgz'' ''/p/app'' = Some (None, [OsMkdirAll ''/p/app''])"
    using demo_dir_clean
    by (simp add: extractPack_def ExtractTree_def assertDestination_def demo_install_env_def walk_def limits_validate_def
        pack_limits_def newBudget_def assertBalanced_def wrap_int64_def close_errors_def errors_Join_def map_filter_simps Let_def)
  obtain pack loader2 where loaded: "LoadPack demo_loader_env ''app'' demo_loader = Some (Inr pack, loader2)"
    using LoadPack_facts[of demo_loader_env "[''/p'']" True demo_loader "''app''"] demo_loader_ok demo_loadable_max demo_sources_apart by auto
  have "ie_cwd demo_install_env = ''/''" "pi_Namespace demo_app = ''app''" "rv_Version demo_release = ''v1''"
      "ie_loader demo_install_env = (\<lambda>_. demo_loader_env)" "ie_home demo_install_env = ''/home/u''"
    by (simp_all add: demo_install_env_def demo_app_def demo_release_def)
  then show ?thesis
    using published download source pin unpacked demo_save loaded demo_extract_dir
    by (simp add: downloadAndExtract_def install_download_def readPackLock_def Let_def demo_loader_def)
qed

theorem install_verified_witness:
  "\<exists>pack fx body. downloadAndExtract demo_install_env demo_app demo_release ''/p'' LockMissing = Some (Inr pack, fx) \<and>
     checks_passed demo_install_env demo_app demo_release LockMissing body (fx_warnings fx)"
proof -
  obtain pack fx where i: "downloadAndExtract demo_install_env demo_app demo_release ''/p'' LockMissing = Some (Inr pack, fx)"
    using demo_install by blast
  from install_verified[OF i] show ?thesis using i by auto
qed

theorem install_returns_confined_witness:
  "\<exists>res fx. downloadAndExtract demo_install_env demo_app demo_release ''/p'' LockMissing = Some (res, fx)"
  using install_returns_confined[of demo_install_env demo_release demo_app "''/p''" LockMissing]
  by (auto simp: demo_install_env_def demo_release_def demo_retry_def)

theorem install_pins_witness:
  "\<exists>pack fx lock' p. downloadAndExtract demo_install_env demo_app demo_release ''/p'' LockMissing = Some (Inr pack, fx) \<and>
     readPackLock (ie_decode demo_install_env) (fx_lock fx) = Inr lock' \<and>
     lookup_pin lock' ''github.com/acme/app'' ''v1'' = Some p"
proof -
  obtain pack fx where i: "downloadAndExtract demo_install_env demo_app demo_release ''/p'' LockMissing = Some (Inr pack, fx)"
    using demo_install by blast
  have codec: "ie_decode demo_install_env (out @ [CHR 0x0A]) = Inr (l, False)" if "ie_encode demo_install_env l = Inr out" for l out
    using that by (simp add: demo_install_env_def split: if_splits)
  have source: "packSource demo_app = Some ''github.com/acme/app''" "rv_Version demo_release = ''v1''"
    by (simp_all add: packSource_def demo_app_def demo_info_def demo_release_def)
  have abs: "filepath_IsAbs (ie_cwd demo_install_env)" "rv_Version demo_release \<noteq> []"
    by (simp_all add: demo_install_env_def demo_release_def)
  from install_pins[OF i abs codec] i source show ?thesis by auto
qed

end
