(* ===== verification/Query_Engine.thy ===== *)
theory Query_Engine imports Pack Sql_Guard begin

text \<open>
  pkg/query/engine.go over the read-only part of internal/data/session.go: named parameters become
  positional ones, the statement passes the lexical guard (theory Sql_Guard), runs in a read-only
  transaction that is always rolled back, and its rows are read up to a cap. The database is a
  parameter; \<open>None\<close> for it is a closed session. The state is the list of calls it got.
\<close>

subsection \<open>The database\<close>

text \<open>A value of a result: bytes, a string, or another value with the text \<open>%v\<close> prints, \<open>None\<close> for NULL.\<close>

type_synonym cell = "string option sql_value"

record column =
  col_Name :: string
  col_Type :: string

text \<open>What a statement that runs gives: its columns, its rows one by one, and the error its iteration ends in.\<close>

record cursor =
  cur_Columns :: "string + column list"
  cur_Rows :: "(string + cell list) list"
  cur_Err :: "string option"

record database =
  db_Conn :: "string option"
  db_Begin :: "string option"
  db_Rollback :: "string option"
  db_Query :: "string \<Rightarrow> pvalue list \<Rightarrow> string + cursor"

datatype db_call = BeginReadOnly | RunQuery string "pvalue list" | Rollback

record db_result =
  dr_Columns :: "column list"
  dr_Rows :: "cell list list"

subsection \<open>Running one read-only query\<close>

text \<open>\<open>%q\<close> of a word the tokenizer returns.\<close>

definition quoted :: "string \<Rightarrow> string" where
  "quoted s = [CHR 0x22] @ s @ [CHR 0x22]"

fun sql_error_text :: "sql_error \<Rightarrow> string" where
  "sql_error_text UnterminatedQuote = ''unterminated SQL quote''"
| "sql_error_text UnterminatedComment = ''unterminated SQL comment''"
| "sql_error_text EmptyQuery = ''query cannot be empty''"
| "sql_error_text NotOneStatement = ''exactly one query statement is required''"
| "sql_error_text (NotReadOnly token) = ''query must be read-only; '' @ quoted token @ '' statements are not allowed''"
| "sql_error_text (ForbiddenOperation token) = ''query contains forbidden operation '' @ quoted token"

fun read_error_text :: "read_error \<Rightarrow> string" where
  "read_error_text (RowLimitExceeded maxRows) =
     ''query result exceeds row limit of '' @ strconv_Itoa maxRows @ '' rows; add LIMIT or narrow the query''"
| "read_error_text (ScanFailed e) = ''scan query row: '' @ e"
| "read_error_text (RowsFailed e) = ''iterate query rows: '' @ e"

text \<open>From the query to its rows, within the transaction.\<close>

definition run_query :: "database \<Rightarrow> int \<Rightarrow> string \<Rightarrow> pvalue list \<Rightarrow> string + db_result" where
  "run_query db maxRows statement args = (case db_Query db statement args of
     Inl err \<Rightarrow> Inl (''execute read-only query: '' @ err)
   | Inr cur \<Rightarrow> (case cur_Columns cur of
       Inl err \<Rightarrow> Inl (''read query columns: '' @ err)
     | Inr columns \<Rightarrow> (case scanResultRows (cur_Rows cur) (cur_Err cur) (if maxRows \<le> 0 then MaxReadOnlyRows else maxRows) of
         Inl err \<Rightarrow> Inl (read_error_text err)
       | Inr rows \<Rightarrow> Inr \<lparr>dr_Columns = columns, dr_Rows = rows\<rparr>)))"

definition ReadOnly :: "database option \<Rightarrow> int \<Rightarrow> string \<Rightarrow> pvalue list \<Rightarrow> (string + db_result) \<times> db_call list" where
  "ReadOnly session maxRows statement args = (case session of
     None \<Rightarrow> (Inl ''data session is closed'', [])
   | Some db \<Rightarrow> (case ValidateReadOnlyStatement statement of
       Some err \<Rightarrow> (Inl (sql_error_text err), [])
     | None \<Rightarrow> (case db_Conn db of
         Some err \<Rightarrow> (Inl (''acquire read-only connection: '' @ err), [])
       | None \<Rightarrow> (case db_Begin db of
           Some err \<Rightarrow> (Inl (''begin read-only query: '' @ err), [BeginReadOnly])
         | None \<Rightarrow>
             (let result = run_query db maxRows statement args;
                  result = (case db_Rollback db of
                      None \<Rightarrow> result
                    | Some err \<Rightarrow> if isl result then result else Inl (''rollback read-only query: '' @ err))
              in (result, [BeginReadOnly, RunQuery statement args, Rollback]))))))"

subsection \<open>Named parameters\<close>

definition ident_start :: "char \<Rightarrow> bool" where
  "ident_start c \<longleftrightarrow> (let n = (of_char c :: nat) in (65 \<le> n \<and> n \<le> 90) \<or> (97 \<le> n \<and> n \<le> 122) \<or> n = 95)"

definition ident_char :: "char \<Rightarrow> bool" where
  "ident_char c \<longleftrightarrow> ident_start c \<or> digit_char c"

text \<open>
  The matches of \<open>:([A-Za-z_][A-Za-z0-9_]*)\<close> from the left, each replaced by a question mark if its
  name has a value.
\<close>

function convert_loop :: "(string \<rightharpoonup> pvalue) \<Rightarrow> string \<Rightarrow> string \<times> pvalue list" where
  "convert_loop params [] = ([], [])"
| "convert_loop params (c # cs) =
     (if c = CHR '':'' \<and> cs \<noteq> [] \<and> ident_start (hd cs) then
        (let name = takeWhile ident_char cs; (out, args) = convert_loop params (dropWhile ident_char cs) in
         case params name of
           Some v \<Rightarrow> (CHR ''?'' # out, v # args)
         | None \<Rightarrow> (c # name @ out, args))
      else (let (out, args) = convert_loop params cs in (c # out, args)))"
  by pat_completeness auto
termination
  by (relation "measure (\<lambda>(_, s). length s)") (auto intro: le_imp_less_Suc length_dropWhile_le)

definition convertNamedParams :: "string \<Rightarrow> (string \<rightharpoonup> pvalue) \<Rightarrow> string \<times> pvalue list" where
  "convertNamedParams query params = convert_loop params query"

subsection \<open>The engine\<close>

text \<open>A row by column name; of two columns with one name the later stays.\<close>

type_synonym row = "string \<rightharpoonup> cell"

record QueryResult =
  qr_Columns :: "column list"
  qr_Rows :: "row list"

definition result_row :: "column list \<Rightarrow> cell list \<Rightarrow> row" where
  "result_row columns cells = map_of (rev (zip (map col_Name columns) cells))"

text \<open>\<open>None\<close> for the parameters is the nil map: the statement is then not converted.\<close>

definition ExecuteWithParams :: "database option \<Rightarrow> int \<Rightarrow> string \<Rightarrow> (string \<rightharpoonup> pvalue) option \<Rightarrow>
    (string + QueryResult) \<times> db_call list" where
  "ExecuteWithParams session maxRows query params = (case session of
     None \<Rightarrow> (Inl ''query engine is closed'', [])
   | Some db \<Rightarrow> (case (case params of None \<Rightarrow> (query, []) | Some ps \<Rightarrow> convertNamedParams query ps) of
       (query, args) \<Rightarrow> (case ValidateReadOnlyStatement query of
           Some err \<Rightarrow> (Inl (''query validation failed: '' @ sql_error_text err), [])
         | None \<Rightarrow> (case ReadOnly (Some db) maxRows query args of
             (Inl err, calls) \<Rightarrow> (Inl (''query execution failed: '' @ err), calls)
           | (Inr r, calls) \<Rightarrow> (Inr \<lparr>qr_Columns = dr_Columns r,
               qr_Rows = map (result_row (dr_Columns r)) (dr_Rows r)\<rparr>, calls)))))"

definition Engine_Execute :: "database option \<Rightarrow> int \<Rightarrow> string \<Rightarrow> (string + QueryResult) \<times> db_call list" where
  "Engine_Execute session maxRows query = ExecuteWithParams session maxRows query None"

subsubsection \<open>Validating a statement\<close>

definition dummy_value :: "nat \<Rightarrow> string" where
  "dummy_value i = (if i mod 4 = 0 then [CHR 0x27] @ ''dummy_string'' @ [CHR 0x27] else if i mod 4 = 1 then ''1''
     else if i mod 4 = 2 then ''true'' else ''2023-01-01'')"

text \<open>No dummy holds a question mark, so the loop replaces them from the left.\<close>

fun replacePlaceholders :: "nat \<Rightarrow> string \<Rightarrow> string" where
  "replacePlaceholders i [] = []"
| "replacePlaceholders i (c # cs) =
     (if c = CHR ''?'' then dummy_value i @ replacePlaceholders (i + 1) cs else c # replacePlaceholders i cs)"

definition replacePlaceholdersForValidation :: "string \<Rightarrow> string" where
  "replacePlaceholdersForValidation query = replacePlaceholders 0 query"

definition validateSyntax :: "database option \<Rightarrow> int \<Rightarrow> string \<Rightarrow> string option \<times> db_call list" where
  "validateSyntax session maxRows query = (let validationQuery =
       (if strings_Contains query ''?'' then replacePlaceholdersForValidation query else query)
     in case session of
       None \<Rightarrow> (Some ''query engine is closed'', [])
     | Some db \<Rightarrow> (case ReadOnly (Some db) maxRows (''EXPLAIN '' @ validationQuery) [] of
         (Inl err, calls) \<Rightarrow> (Some (''query syntax validation failed: '' @ err), calls)
       | (Inr _, calls) \<Rightarrow> (None, calls)))"

definition Engine_Validate :: "database option \<Rightarrow> int \<Rightarrow> string \<Rightarrow> string option \<times> db_call list" where
  "Engine_Validate session maxRows query = (case ValidateReadOnlyStatement query of
     Some err \<Rightarrow> (Some (sql_error_text err), [])
   | None \<Rightarrow> validateSyntax session maxRows query)"

subsubsection \<open>Streaming\<close>

text \<open>The times of the statistics are left out: what stays is the number of rows.\<close>

datatype StreamingRow =
    StreamData row "column list"
  | StreamError string
  | StreamEOF nat

fun stream_loop :: "(nat \<Rightarrow> string option) \<Rightarrow> QueryResult \<Rightarrow> nat \<Rightarrow> row list \<Rightarrow> StreamingRow list" where
  "stream_loop done result index [] = [StreamEOF (length (qr_Rows result))]"
| "stream_loop done result index (r # rows) = (case done index of
     Some err \<Rightarrow> [StreamError err]
   | None \<Rightarrow> StreamData r (if index = 0 then qr_Columns result else []) # stream_loop done result (index + 1) rows)"

text \<open>\<open>done\<close> tells whether the context is over before a row is sent; the list is what the channel carries.\<close>

definition ExecuteStreamingWithParams :: "database option \<Rightarrow> int \<Rightarrow> (nat \<Rightarrow> string option) \<Rightarrow> string \<Rightarrow> (string \<rightharpoonup> pvalue) option \<Rightarrow>
    string + StreamingRow list" where
  "ExecuteStreamingWithParams session maxRows done query params = (case ValidateReadOnlyStatement query of
     Some err \<Rightarrow> Inl (''query validation failed: '' @ sql_error_text err)
   | None \<Rightarrow> Inr (case fst (ExecuteWithParams session maxRows query params) of
       Inl err \<Rightarrow> [StreamError err]
     | Inr result \<Rightarrow> stream_loop done result 0 (qr_Rows result)))"

text \<open>The wrapper that returns the rows in the order of the columns (pkg/query/simple_wrapper.go).\<close>

definition Engine_ExecuteQuery :: "database option \<Rightarrow> int \<Rightarrow> string \<Rightarrow> string + (cell option list list \<times> string list)" where
  "Engine_ExecuteQuery session maxRows query = (case fst (Engine_Execute session maxRows query) of
     Inl err \<Rightarrow> Inl err
   | Inr result \<Rightarrow> (let columns = map col_Name (qr_Columns result) in
       Inr (map (\<lambda>r. map r columns) (qr_Rows result), columns)))"

subsection \<open>What reaches the database\<close>

lemma ReadOnly_cases:
  obtains (refused) err where "ReadOnly session maxRows statement args = (Inl err, [])"
  | (not_begun) err where "ReadOnly session maxRows statement args = (Inl err, [BeginReadOnly])"
  | (run) db where "session = Some db" "ValidateReadOnlyStatement statement = None"
      "ReadOnly session maxRows statement args = (case (run_query db maxRows statement args, db_Rollback db) of
         (Inr r, Some err) \<Rightarrow> Inl (''rollback read-only query: '' @ err) | (result, _) \<Rightarrow> result,
       [BeginReadOnly, RunQuery statement args, Rollback])"
proof (cases session)
  case None
  with refused show ?thesis by (simp add: ReadOnly_def)
next
  case (Some db)
  show ?thesis
  proof (cases "ValidateReadOnlyStatement statement = None \<and> db_Conn db = None \<and> db_Begin db = None")
    case True
    then have "ReadOnly session maxRows statement args = (case (run_query db maxRows statement args, db_Rollback db) of
         (Inr r, Some err) \<Rightarrow> Inl (''rollback read-only query: '' @ err) | (result, _) \<Rightarrow> result,
       [BeginReadOnly, RunQuery statement args, Rollback])"
      using Some by (simp add: ReadOnly_def Let_def split: option.split sum.split)
    with run Some True show ?thesis by blast
  next
    case False
    then consider err where "ValidateReadOnlyStatement statement = Some err"
      | err where "ValidateReadOnlyStatement statement = None" "db_Conn db = Some err"
      | err where "ValidateReadOnlyStatement statement = None" "db_Conn db = None" "db_Begin db = Some err"
      by fastforce
    then show ?thesis
      by cases (use Some refused not_begun in \<open>simp_all add: ReadOnly_def\<close>)
  qed
qed

lemma ReadOnly_calls:
  assumes "ReadOnly session maxRows statement args = (res, calls)"
  shows "calls = [] \<or> calls = [BeginReadOnly] \<or> calls = [BeginReadOnly, RunQuery statement args, Rollback] \<and>
      ValidateReadOnlyStatement statement = None"
  by (cases session maxRows statement args rule: ReadOnly_cases) (use assms in auto)

lemma ReadOnly_Inr:
  assumes "ReadOnly session maxRows statement args = (Inr r, calls)"
  obtains db where "session = Some db" "run_query db maxRows statement args = Inr r"
    "calls = [BeginReadOnly, RunQuery statement args, Rollback]" "ValidateReadOnlyStatement statement = None"
    "db_Rollback db = None"
  using assms by (cases session maxRows statement args rule: ReadOnly_cases) (auto split: sum.splits option.splits)

text \<open>Question marks of the statement itself come before and between those put in for the parameters.\<close>

lemma takeWhile_ident_no_mark: "count_list (takeWhile ident_char cs) (CHR ''?'') = 0"
proof -
  have "\<not> ident_char (CHR ''?'')" by (simp add: ident_char_def ident_start_def digit_char_def)
  then show ?thesis by (induction cs) auto
qed

lemma convert_marks: "count_list (fst (convert_loop params s)) (CHR ''?'') =
    count_list s (CHR ''?'') + length (snd (convert_loop params s))"
proof (induction params s rule: convert_loop.induct)
  case (2 params c cs)
  have "count_list cs (CHR ''?'') = count_list (dropWhile ident_char cs) (CHR ''?'')"
    using takeWhile_dropWhile_id[of ident_char cs] takeWhile_ident_no_mark[of cs] by (metis add_0 count_list_append)
  then show ?case
    using 2 takeWhile_ident_no_mark[of cs] by (auto simp: Let_def split: option.splits prod.splits)
qed simp

lemma convert_args: "set (snd (convert_loop params s)) \<subseteq> ran params"
  by (induction params s rule: convert_loop.induct) (auto simp: Let_def ranI split: option.splits prod.splits)

lemma ExecuteWithParams_run:
  assumes "ExecuteWithParams session maxRows query params = (res, calls)"
  obtains (quiet) err where "res = Inl err" "calls = [] \<or> calls = [BeginReadOnly]"
  | (run) db t args where "session = Some db" "(t, args) = (case params of None \<Rightarrow> (query, []) | Some ps \<Rightarrow> convertNamedParams query ps)"
      "ValidateReadOnlyStatement t = None" "calls = [BeginReadOnly, RunQuery t args, Rollback]"
      "res = (case fst (ReadOnly (Some db) maxRows t args) of Inl err \<Rightarrow> Inl (''query execution failed: '' @ err)
         | Inr r \<Rightarrow> Inr \<lparr>qr_Columns = dr_Columns r, qr_Rows = map (result_row (dr_Columns r)) (dr_Rows r)\<rparr>)"
proof -
  obtain t args where ta: "(case params of None \<Rightarrow> (query, []) | Some ps \<Rightarrow> convertNamedParams query ps) = (t, args)"
    by (meson surj_pair)
  obtain result c where ro: "ReadOnly session maxRows t args = (result, c)" by (meson surj_pair)
  show thesis
  proof (cases "session = None \<or> ValidateReadOnlyStatement t \<noteq> None")
    case True
    with assms ta have "isl res \<and> calls = []" by (auto simp: ExecuteWithParams_def split: option.splits)
    with quiet show thesis by (cases res) auto
  next
    case False
    then obtain db where db: "session = Some db" "ValidateReadOnlyStatement t = None" by auto
    with assms ta ro have eq: "calls = c" "res = (case result of Inl err \<Rightarrow> Inl (''query execution failed: '' @ err)
         | Inr r \<Rightarrow> Inr \<lparr>qr_Columns = dr_Columns r, qr_Rows = map (result_row (dr_Columns r)) (dr_Rows r)\<rparr>)"
      by (auto simp: ExecuteWithParams_def split: sum.splits)
    show thesis
    proof (cases "c = [BeginReadOnly, RunQuery t args, Rollback]")
      case True
      with run[OF db(1) ta[symmetric] db(2)] eq ro db(1) show thesis by simp
    next
      case False
      with ReadOnly_calls[OF ro] have "c = [] \<or> c = [BeginReadOnly]" by auto
      moreover from False ReadOnly_Inr[of session maxRows t args] ro have "isl result" by (cases result) auto
      ultimately show thesis using quiet eq by (cases result) auto
    qed
  qed
qed

text \<open>
  C20. The engine only reads. Whatever statement and parameters it is given, all that reaches the
  database is one statement that the guard accepted, between the begin of a read-only transaction and its
  rollback, with no argument that is not a given parameter's value; rows are returned only from such a
  statement, each a row of its cursor and never more than the cap.
\<close>

theorem engine_reads_only:
  assumes "ExecuteWithParams session maxRows query params = (res, calls)"
  shows "(\<forall>t args. RunQuery t args \<in> set calls \<longrightarrow> calls = [BeginReadOnly, RunQuery t args, Rollback] \<and>
       ValidateReadOnlyStatement t = None \<and> (case params of None \<Rightarrow> t = query \<and> args = [] | Some ps \<Rightarrow> set args \<subseteq> ran ps)) \<and>
     (\<forall>r. res = Inr r \<longrightarrow> (\<exists>db t args cur. session = Some db \<and> RunQuery t args \<in> set calls \<and> db_Query db t args = Inr cur \<and>
       cur_Columns cur = Inr (qr_Columns r) \<and> cur_Err cur = None \<and> db_Rollback db = None \<and>
       (\<exists>vs. cur_Rows cur = map Inr vs \<and> qr_Rows r = map (\<lambda>cells. result_row (qr_Columns r) (map scanned_value cells)) vs) \<and>
       int (length (qr_Rows r)) \<le> (if maxRows \<le> 0 then MaxReadOnlyRows else maxRows)))"
proof (cases rule: ExecuteWithParams_run[OF assms])
  case (1 err)
  then show ?thesis by auto
next
  case (2 db t args)
  have args: "case params of None \<Rightarrow> t = query \<and> args = [] | Some ps \<Rightarrow> set args \<subseteq> ran ps"
  proof (cases params)
    case (Some ps)
    with 2(2) show ?thesis using convert_args[of ps query] by (simp add: convertNamedParams_def) (metis snd_conv)
  qed (use 2(2) in simp)
  have "\<exists>cur. db_Query db t args = Inr cur \<and> cur_Columns cur = Inr (qr_Columns r) \<and> cur_Err cur = None \<and> db_Rollback db = None \<and>
      (\<exists>vs. cur_Rows cur = map Inr vs \<and> qr_Rows r = map (\<lambda>cells. result_row (qr_Columns r) (map scanned_value cells)) vs) \<and>
      int (length (qr_Rows r)) \<le> (if maxRows \<le> 0 then MaxReadOnlyRows else maxRows)" if r: "res = Inr r" for r
  proof -
    from r 2(5) obtain d calls' where d: "ReadOnly (Some db) maxRows t args = (Inr d, calls')"
      and rd: "r = \<lparr>qr_Columns = dr_Columns d, qr_Rows = map (result_row (dr_Columns d)) (dr_Rows d)\<rparr>"
      by (cases "ReadOnly (Some db) maxRows t args") (auto split: sum.splits)
    obtain db' where "Some db = Some db'" "run_query db' maxRows t args = Inr d" and rb: "db_Rollback db' = None"
      by (rule ReadOnly_Inr[OF d])
    then have "run_query db maxRows t args = Inr d" "db_Rollback db = None" by simp_all
    then obtain cur where "db_Query db t args = Inr cur" "cur_Columns cur = Inr (dr_Columns d)"
        "scanResultRows (cur_Rows cur) (cur_Err cur) (if maxRows \<le> 0 then MaxReadOnlyRows else maxRows) = Inr (dr_Rows d)"
      unfolding run_query_def by (auto split: sum.splits)
    moreover have "0 \<le> (if maxRows \<le> 0 then MaxReadOnlyRows else maxRows)" by (simp add: MaxReadOnlyRows_def)
    ultimately show ?thesis
      using rd \<open>db_Rollback db = None\<close> by (auto simp: scanResultRows_cap)
  qed
  with 2(1,4) args 2(3) show ?thesis by auto
qed

text \<open>
  The conversion knows neither quotes nor comments nor casts: a name in a string literal is replaced and
  its value bound to a position that the database does not count, and a question mark of the statement
  takes the place of a parameter.
\<close>

lemma conversion_ignores_quotes:
  "convertNamedParams (''select '' @ [CHR 0x27] @ '':id'' @ [CHR 0x27]) [''id'' \<mapsto> v] =
     (''select '' @ [CHR 0x27, CHR ''?'', CHR 0x27], [v])"
  "convertNamedParams ''select tags::json'' [''json'' \<mapsto> v] = (''select tags:?'', [v])"
  by (simp_all add: convertNamedParams_def ident_char_def ident_start_def digit_char_def)

subsection \<open>An instance\<close>

definition demo_database :: database where
  "demo_database = \<lparr>db_Conn = None, db_Begin = None, db_Rollback = None,
     db_Query = (\<lambda>t args. Inr \<lparr>cur_Columns = Inr [\<lparr>col_Name = ''id'', col_Type = ''VARCHAR''\<rparr>],
       cur_Rows = [Inr [SqlBytes ''b1'']], cur_Err = None\<rparr>)\<rparr>"

lemma demo_select_valid: "ValidateReadOnlyStatement ''select id where p = ?'' = None"
  by code_simp

lemma demo_convert: "convertNamedParams ''select id where p = :p'' [''p'' \<mapsto> VInt 1] = (''select id where p = ?'', [VInt 1])"
  by (simp add: convertNamedParams_def ident_char_def ident_start_def digit_char_def)

theorem engine_reads_only_witness:
  "\<exists>r calls t args. ExecuteWithParams (Some demo_database) 10 ''select id where p = :p'' (Some [''p'' \<mapsto> VInt 1]) = (Inr r, calls) \<and>
     RunQuery t args \<in> set calls \<and> ValidateReadOnlyStatement t = None \<and> length (qr_Rows r) \<le> 10"
proof -
  have "scanResultRows [Inr [SqlBytes ''b1'' :: cell]] None 10 = Inr [[SqlString ''b1'']]"
    by (simp add: scanResultRows_def scanned_value_def)
  then obtain r calls where e: "ExecuteWithParams (Some demo_database) 10 ''select id where p = :p'' (Some [''p'' \<mapsto> VInt 1]) = (Inr r, calls)"
    by (simp add: ExecuteWithParams_def demo_convert demo_select_valid ReadOnly_def run_query_def demo_database_def)
  then show ?thesis using engine_reads_only[OF e] by fastforce
qed

end
