(* ===== verification/Compliance_Executor.thy ===== *)
theory Compliance_Executor imports Query_Engine Data_Types begin

text \<open>
  pkg/query/compliance/executor.go: a control's query is given its parameters, run through the engine
  (theory Query_Engine) and its rows read as compliance results; a pack is run or dry-run query by query
  with progress events. Errors are their texts, because \<open>categorizeError\<close> looks at them. A map that may
  be nil is an option; what the code sends on its channel is a list. How a float prints is a parameter.
\<close>

subsection \<open>Text\<close>

text \<open>\<open>strings.ReplaceAll\<close> of a string that is not empty.\<close>

function strings_ReplaceAll :: "string \<Rightarrow> string \<Rightarrow> string \<Rightarrow> string" where
  "strings_ReplaceAll [] old new = []"
| "strings_ReplaceAll (c # cs) old new =
     (if old \<noteq> [] \<and> strings_HasPrefix (c # cs) old then new @ strings_ReplaceAll (drop (length old) (c # cs)) old new
      else c # strings_ReplaceAll cs old new)"
  by pat_completeness auto
termination
  by (relation "measure (\<lambda>(s, _). length s)") (auto simp: neq_Nil_conv)

text \<open>\<open>%v\<close>; a map prints in the order of its keys.\<close>

fun sprint_v :: "(float64 \<Rightarrow> string) \<Rightarrow> pvalue \<Rightarrow> string" where
  "sprint_v ff VNil = ''<nil>''"
| "sprint_v ff (VString s) = s"
| "sprint_v ff (VInt i) = strconv_Itoa i"
| "sprint_v ff (VInt32 i) = strconv_Itoa i"
| "sprint_v ff (VInt64 i) = strconv_Itoa i"
| "sprint_v ff (VFloat f) = ff f"
| "sprint_v ff (VBool b) = (if b then ''true'' else ''false'')"
| "sprint_v ff (VList vs) = ''['' @ strings_Join (map (sprint_v ff) vs) '' '' @ '']''"
| "sprint_v ff (VObject kvs) = ''map['' @ strings_Join (map snd (sort_key fst
     (map (\<lambda>(k, v). (k, k @ '':'' @ sprint_v ff v)) kvs))) '' '' @ '']''"

text \<open>\<open>%v\<close> of a value of a row, if it is not NULL.\<close>

definition cell_text :: "cell \<Rightarrow> string option" where
  "cell_text c = (case c of
     SqlBytes b \<Rightarrow> Some (''['' @ strings_Join (map (\<lambda>c. strconv_Itoa (of_char c)) b) '' '' @ '']'')
   | SqlString s \<Rightarrow> Some s
   | SqlOther t \<Rightarrow> t)"

subsection \<open>Parameters of a query\<close>

definition normalizeSQLParam :: "(float64 \<Rightarrow> string) \<Rightarrow> pvalue \<Rightarrow> pvalue" where
  "normalizeSQLParam ff v = (case v of VList items \<Rightarrow> VString (strings_Join (map (sprint_v ff) items) '','') | _ \<Rightarrow> v)"

definition list_key :: "string \<Rightarrow> nat \<Rightarrow> string" where
  "list_key name i = name @ ''_'' @ strconv_Itoa (int i)"

fun bind_items :: "string \<Rightarrow> nat \<Rightarrow> pvalue list \<Rightarrow> (string \<rightharpoonup> pvalue) \<Rightarrow> (string \<rightharpoonup> pvalue)" where
  "bind_items name i [] sqlParams = sqlParams"
| "bind_items name i (item # items) sqlParams = bind_items name (i + 1) items (sqlParams(list_key name i \<mapsto> item))"

definition list_placeholder :: "string \<Rightarrow> string" where
  "list_placeholder name = ''(:'' @ name @ '')''"

definition list_replacement :: "string \<Rightarrow> nat \<Rightarrow> string" where
  "list_replacement name n = ''('' @ strings_Join (map (\<lambda>i. '':'' @ list_key name i) [0..<n]) '', '' @ '')''"

fun subst_loop :: "(float64 \<Rightarrow> string) \<Rightarrow> (string \<rightharpoonup> pvalue) \<Rightarrow> string list \<Rightarrow> string \<Rightarrow> (string \<rightharpoonup> pvalue) \<Rightarrow>
    string + string \<times> (string \<rightharpoonup> pvalue)" where
  "subst_loop ff provided [] result sqlParams = Inr (result, sqlParams)"
| "subst_loop ff provided (name # names) result sqlParams =
     (if \<not> strings_Contains result ('':'' @ name) then subst_loop ff provided names result sqlParams
      else (case provided name of
          None \<Rightarrow> Inl (''required parameter '' @ [CHR 0x27] @ name @ [CHR 0x27] @ '' not provided'')
        | Some value \<Rightarrow>
            if strings_Contains result (list_placeholder name) then (case value of
                VList items \<Rightarrow> subst_loop ff provided names
                  (strings_ReplaceAll result (list_placeholder name) (list_replacement name (length items)))
                  (bind_items name 0 items sqlParams)
              | _ \<Rightarrow> Inl (''parameter '' @ [CHR 0x27] @ name @ [CHR 0x27] @ '' must be a list for IN clause''))
            else subst_loop ff provided names result (sqlParams(name \<mapsto> normalizeSQLParam ff value))))"

definition substituteParameters :: "(float64 \<Rightarrow> string) \<Rightarrow> string \<Rightarrow> string list \<Rightarrow> (string \<rightharpoonup> pvalue) \<Rightarrow>
    string + string \<times> (string \<rightharpoonup> pvalue)" where
  "substituteParameters ff sqlQuery queryParams provided = subst_loop ff provided queryParams sqlQuery Map.empty"

subsection \<open>Reading rows as results\<close>

definition isValidComplianceStatus :: "string \<Rightarrow> bool" where
  "isValidComplianceStatus status \<longleftrightarrow> status \<in> set [''PASS'', ''FAIL'', ''WARNING'', ''ERROR'']"

fun firstString :: "row \<Rightarrow> string list \<Rightarrow> string" where
  "firstString row [] = []"
| "firstString row (key # keys) = (case row key of
     Some c \<Rightarrow> (case cell_text c of Some t \<Rightarrow> t | None \<Rightarrow> firstString row keys)
   | None \<Rightarrow> firstString row keys)"

definition or_else :: "string \<Rightarrow> string \<Rightarrow> string" where
  "or_else s t = (if s = [] then t else s)"

text \<open>The columns a field is read from, the first that is there and not NULL.\<close>

definition resource_id_keys :: "string list" where
  "resource_id_keys = [''resource_id'', ''id'', ''asset_name'']"

definition resource_name_keys :: "string list" where
  "resource_name_keys = [''resource_name'', ''name'', ''bucket_name'', ''asset_name'']"

definition resource_type_keys :: "string list" where
  "resource_type_keys = [''resource_type'', ''type'', ''asset_type'']"

definition region_keys :: "string list" where
  "region_keys = [''region'', ''location'', ''zone'']"

definition details_keys :: "string list" where
  "details_keys = [''details'', ''issue_description'', ''description'']"

definition status_keys :: "string list" where
  "status_keys = [''status'']"

definition severity_keys :: "string list" where
  "severity_keys = [''severity'']"

definition remediation_keys :: "string list" where
  "remediation_keys = [''remediation'']"

definition control_id_keys :: "string list" where
  "control_id_keys = [''control_id'']"

definition control_name_keys :: "string list" where
  "control_name_keys = [''control_name'']"

definition convert_row :: "ComplianceQuery \<Rightarrow> timestamp \<Rightarrow> row \<Rightarrow> string + ComplianceResult" where
  "convert_row q now row =
     (let resourceID = firstString row resource_id_keys;
          status = strings_ToUpper (firstString row status_keys);
          severity = strings_ToUpper (firstString row severity_keys);
          remediation = firstString row remediation_keys
      in if resourceID = [] then Inl ''missing required field: resource_id''
      else if status \<noteq> [] \<and> \<not> isValidComplianceStatus status
        then Inl (''invalid status value: '' @ status @ '' (must be PASS, FAIL, WARNING, or ERROR)'')
      else if status = [] then Inl ''missing required field: status''
      else if severity \<noteq> [] \<and> \<not> isValidSeverity severity then Inl (''invalid severity value: '' @ severity)
      else Inr \<lparr>cr_ResourceID = resourceID,
          cr_ResourceName = or_else (firstString row resource_name_keys) resourceID,
          cr_ResourceType = or_else (firstString row resource_type_keys) ''resource'',
          cr_Region = firstString row region_keys,
          cr_ControlID = or_else (firstString row control_id_keys) (q_ID q),
          cr_ControlName = or_else (firstString row control_name_keys) (q_Title q),
          cr_Status = status,
          cr_Severity = or_else (or_else severity (strings_ToUpper (q_Severity q))) ''INFO'',
          cr_Details = or_else (firstString row details_keys) (q_Description q),
          cr_Remediation = (if remediation \<noteq> [] then Some remediation
            else if status \<noteq> ''PASS'' \<and> rem_Description (q_Remediation q) \<noteq> [] then Some (rem_Description (q_Remediation q))
            else None),
          cr_Timestamp = now\<rparr>)"

text \<open>The clock is read for every row.\<close>

fun convert_loop_rows :: "ComplianceQuery \<Rightarrow> (nat \<Rightarrow> timestamp) \<Rightarrow> nat \<Rightarrow> row list \<Rightarrow> ComplianceResult list \<Rightarrow> string + ComplianceResult list" where
  "convert_loop_rows q now i [] out = Inr out"
| "convert_loop_rows q now i (r # rs) out = (case convert_row q (now i) r of
     Inl err \<Rightarrow> Inl err
   | Inr c \<Rightarrow> convert_loop_rows q now (i + 1) rs (out @ [c]))"

definition convertToComplianceResults :: "ComplianceQuery \<Rightarrow> (nat \<Rightarrow> timestamp) \<Rightarrow> QueryResult \<Rightarrow> string + ComplianceResult list" where
  "convertToComplianceResults q now result = convert_loop_rows q now 0 (qr_Rows result) []"

subsection \<open>Executing a query\<close>

record exec_env =
  ex_session :: "database option"
  ex_maxRows :: int
  ex_float :: "float64 \<Rightarrow> string"
  ex_now :: "nat \<Rightarrow> timestamp"

definition ExecuteQuery :: "exec_env \<Rightarrow> ComplianceQuery \<Rightarrow> (string \<rightharpoonup> pvalue) \<Rightarrow> (string + ComplianceResult list) \<times> db_call list" where
  "ExecuteQuery env q provided = (case substituteParameters (ex_float env) (q_SQL q) (q_Parameters q) provided of
     Inl err \<Rightarrow> (Inl (''parameter substitution failed: '' @ err), [])
   | Inr (sql, sqlParams) \<Rightarrow> (case ExecuteWithParams (ex_session env) (ex_maxRows env) sql (Some sqlParams) of
       (Inl err, calls) \<Rightarrow> (Inl (''query execution failed: '' @ err), calls)
     | (Inr result, calls) \<Rightarrow> (case convertToComplianceResults q (ex_now env) result of
         Inl err \<Rightarrow> (Inl (''result conversion failed: '' @ err), calls)
       | Inr results \<Rightarrow> (Inr results, calls))))"

definition categorizeError :: "string \<Rightarrow> string" where
  "categorizeError errMsg =
     (if strings_Contains errMsg ''timeout'' \<or> strings_Contains errMsg ''context deadline exceeded'' then ''timeout''
      else if strings_Contains errMsg ''parameter'' then ''parameter''
      else if strings_Contains errMsg ''syntax'' \<or> strings_Contains errMsg ''SQL'' then ''syntax''
      else ''execution'')"

text \<open>The check that a query names its columns, which nothing calls.\<close>

definition required_columns :: "string list" where
  "required_columns = [''resource_id'', ''resource_name'', ''resource_type'', ''control_id'',
     ''control_name'', ''status'', ''severity'', ''details'']"

definition validateQueryColumns :: "string \<Rightarrow> string option" where
  "validateQueryColumns sqlQuery = (let upperSQL = strings_ToUpper sqlQuery;
       quote = (\<lambda>s. [CHR 0x27] @ s @ [CHR 0x27])
     in case find (\<lambda>c. \<not> strings_Contains upperSQL (strings_ToUpper c)) required_columns of
       Some c \<Rightarrow> Some (''query must return required column: '' @ c)
     | None \<Rightarrow>
         if \<not> strings_Contains upperSQL (quote ''PASS'') \<and> \<not> strings_Contains upperSQL (quote ''FAIL'') \<and>
            \<not> strings_Contains upperSQL (quote ''WARNING'') \<and> \<not> strings_Contains upperSQL (quote ''ERROR'')
         then Some ''query must return valid status values: PASS, FAIL, WARNING, or ERROR'' else None)"

subsection \<open>Parameters of a pack\<close>

definition params_of :: "(string \<rightharpoonup> pvalue) option \<Rightarrow> (string \<rightharpoonup> pvalue)" where
  "params_of provided = (case provided of None \<Rightarrow> Map.empty | Some m \<Rightarrow> m)"

definition ValidationError_text :: "(float64 \<Rightarrow> string) \<Rightarrow> ValidationError \<Rightarrow> string" where
  "ValidationError_text ff e = ''validation failed for field '' @ [CHR 0x27] @ ve_Field e @ [CHR 0x27] @ '': '' @ ve_Message e @
     '' (value: '' @ sprint_v ff (ve_Value e) @ '')''"

text \<open>The definitions of the required parameters: of the pack, then of each query's names.\<close>

definition pack_level :: "(string, PackParameter) table \<Rightarrow> PackParameter \<Rightarrow> (string, PackParameter) table" where
  "pack_level required p = (if par_Required p then AList.update (par_Name p) p required else required)"

definition query_level :: "PackParameter list \<Rightarrow> (string, PackParameter) table \<Rightarrow> string \<Rightarrow> (string, PackParameter) table" where
  "query_level params required name = (case find (\<lambda>p. par_Name p = name) params of
     None \<Rightarrow> required
   | Some p \<Rightarrow> if par_Required p then AList.update name p required else required)"

definition required_params :: "QueryPack \<Rightarrow> (string, PackParameter) table" where
  "required_params pack = foldl (query_level (pk_Parameters pack)) (foldl pack_level [] (pk_Parameters pack))
     (concat (map q_Parameters (pk_Queries pack)))"

text \<open>A default is stored in the caller's map; storing into a nil map panics. The map of definitions is ranged over in any order.\<close>

fun check_required :: "(float64 \<Rightarrow> string) \<Rightarrow> (string \<times> PackParameter) list \<Rightarrow> (string \<rightharpoonup> pvalue) option \<Rightarrow>
    (string option \<times> (string \<rightharpoonup> pvalue) option) panics" where
  "check_required ff [] provided = Some (None, provided)"
| "check_required ff ((name, p) # rest) provided = (case params_of provided name of
     None \<Rightarrow>
       if par_Default p \<noteq> VNil then (case provided of
           None \<Rightarrow> None
         | Some m \<Rightarrow> check_required ff rest (Some (m(name \<mapsto> par_Default p))))
       else Some (Some (''required parameter '' @ [CHR 0x27] @ name @ [CHR 0x27] @ '' not provided''), provided)
   | Some v \<Rightarrow> do {
       err \<leftarrow> ValidateParameter p v;
       (case err of
          Some e \<Rightarrow> Some (Some (''parameter '' @ [CHR 0x27] @ name @ [CHR 0x27] @ '' validation failed: '' @ ValidationError_text ff e), provided)
        | None \<Rightarrow> check_required ff rest provided)
     })"

type_synonym param_order = "(string, PackParameter) table \<Rightarrow> (string, PackParameter) table"

definition validatePackParameters :: "(float64 \<Rightarrow> string) \<Rightarrow> param_order \<Rightarrow> QueryPack \<Rightarrow> (string \<rightharpoonup> pvalue) option \<Rightarrow>
    (string option \<times> (string \<rightharpoonup> pvalue) option) panics" where
  "validatePackParameters ff order pack provided = check_required ff (order (required_params pack)) provided"

subsection \<open>Executing a pack\<close>

record ProgressEvent =
  ev_Type :: string
  ev_PackName :: string
  ev_QueryID :: string
  ev_Current :: int
  ev_Total :: int
  ev_Message :: string
  ev_Error :: "string option"
  ev_Result :: "ComplianceResult list"

record ExecutionOptions =
  opt_DryRun :: bool
  opt_Parameters :: "(string \<rightharpoonup> pvalue) option"
  opt_ContinueOnError :: bool

definition pack_event :: "QueryPack \<Rightarrow> string \<Rightarrow> string \<Rightarrow> int \<Rightarrow> string \<Rightarrow> ProgressEvent" where
  "pack_event pack t queryID current message = \<lparr>ev_Type = t, ev_PackName = md_Name (pk_Metadata pack), ev_QueryID = queryID,
     ev_Current = current, ev_Total = int (length (pk_Queries pack)), ev_Message = message, ev_Error = None, ev_Result = []\<rparr>"

text \<open>
  The events of the queries and how many succeeded. The \<open>i\<close>-th query meets the engine as \<open>env i\<close>: its
  own timeout and the state of the database when it runs.
\<close>

fun pack_loop :: "(nat \<Rightarrow> exec_env) \<Rightarrow> QueryPack \<Rightarrow> (string \<rightharpoonup> pvalue) \<Rightarrow> bool \<Rightarrow> nat \<Rightarrow> ComplianceQuery list \<Rightarrow> nat \<Rightarrow>
    ProgressEvent list \<times> nat" where
  "pack_loop env pack provided continueOnError i [] successCount = ([], successCount)"
| "pack_loop env pack provided continueOnError i (q # qs) successCount =
     (if \<not> q_Enabled q then pack_loop env pack provided continueOnError (i + 1) qs successCount
      else (case fst (ExecuteQuery (env i) q provided) of
          Inl err \<Rightarrow>
            (let event = (pack_event pack ''error'' (q_ID q) (int i + 1)
                 (''Query '' @ q_ID q @ '' failed: '' @ err))\<lparr>ev_Error := Some err\<rparr>
             in if \<not> continueOnError then ([event], successCount)
             else (case pack_loop env pack provided continueOnError (i + 1) qs successCount of (es, n) \<Rightarrow> (event # es, n)))
        | Inr results \<Rightarrow>
            (let event = (pack_event pack ''query'' (q_ID q) (int i + 1)
                 (''Completed query '' @ q_ID q @ '' ('' @ strconv_Itoa (int (length results)) @ '' results)''))\<lparr>ev_Result := results\<rparr>
             in case pack_loop env pack provided continueOnError (i + 1) qs (successCount + 1) of (es, n) \<Rightarrow> (event # es, n))))"

definition run_pack :: "(nat \<Rightarrow> exec_env) \<Rightarrow> QueryPack \<Rightarrow> (string \<rightharpoonup> pvalue) \<Rightarrow> bool \<Rightarrow> ProgressEvent list" where
  "run_pack env pack provided continueOnError = (case pack_loop env pack provided continueOnError 0 (pk_Queries pack) 0 of
     (events, successCount) \<Rightarrow>
       [pack_event pack ''start'' [] 0 (''Starting execution of pack '' @ md_Name (pk_Metadata pack))] @ events @
       [pack_event pack ''complete'' [] (int (length (pk_Queries pack))) (''Pack execution completed: '' @
          strconv_Itoa (int successCount) @ ''/'' @ strconv_Itoa (int (length (pk_Queries pack))) @ '' queries successful'')])"

subsection \<open>Dry runs\<close>

record QueryValidation =
  qv_QueryID :: string
  qv_SQL :: string
  qv_IsValid :: bool
  qv_Error :: "string option"
  qv_Plan :: string
  qv_Parameters :: "(string \<rightharpoonup> pvalue) option"

record DryRunResult =
  dry_Valid :: bool
  dry_Queries :: "QueryValidation list"

definition explain_plan :: "string + QueryResult \<Rightarrow> string" where
  "explain_plan planResult = (case planResult of
     Inr r \<Rightarrow> (case qr_Rows r of
         row # _ \<Rightarrow> (case row ''explain_value'' of Some (SqlString plan) \<Rightarrow> plan | _ \<Rightarrow> [])
       | [] \<Rightarrow> [])
   | Inl _ \<Rightarrow> [])"

definition dry_query :: "exec_env \<Rightarrow> ComplianceQuery \<Rightarrow> (string \<rightharpoonup> pvalue) option \<Rightarrow> QueryValidation" where
  "dry_query env q provided =
     (let validation = \<lparr>qv_QueryID = q_ID q, qv_SQL = [], qv_IsValid = False, qv_Error = None, qv_Plan = [], qv_Parameters = provided\<rparr> in
      case substituteParameters (ex_float env) (q_SQL q) (q_Parameters q) (params_of provided) of
        Inl err \<Rightarrow> validation\<lparr>qv_Error := Some (''parameter substitution failed: '' @ err)\<rparr>
      | Inr (sql, sqlParams) \<Rightarrow> (case fst (Engine_Validate (ex_session env) (ex_maxRows env) sql) of
          Some err \<Rightarrow> validation\<lparr>qv_SQL := sql, qv_Error := Some (''SQL validation failed: '' @ err)\<rparr>
        | None \<Rightarrow> validation\<lparr>qv_SQL := sql, qv_IsValid := True, qv_Plan := explain_plan
            (fst (ExecuteWithParams (ex_session env) (ex_maxRows env) (''EXPLAIN '' @ sql) (Some sqlParams)))\<rparr>))"

definition DryRun :: "(nat \<Rightarrow> exec_env) \<Rightarrow> param_order \<Rightarrow> QueryPack \<Rightarrow> (string \<rightharpoonup> pvalue) option \<Rightarrow>
    ((string option \<times> DryRunResult) \<times> (string \<rightharpoonup> pvalue) option) panics" where
  "DryRun env order pack provided = do {
     (err, provided) \<leftarrow> validatePackParameters (ex_float (env 0)) order pack provided;
     (case err of
        Some e \<Rightarrow> Some ((Some e, \<lparr>dry_Valid = False, dry_Queries = []\<rparr>), provided)
      | None \<Rightarrow> (let validations = map (\<lambda>(i, q). dry_query (env i) q provided) (List.enumerate 0 (pk_Queries pack)) in
          Some ((None, \<lparr>dry_Valid = list_all qv_IsValid validations, dry_Queries = validations\<rparr>), provided)))
   }"

definition dry_event :: "QueryPack \<Rightarrow> nat \<times> QueryValidation \<Rightarrow> ProgressEvent" where
  "dry_event pack = (\<lambda>(i, v). (pack_event pack ''query'' (qv_QueryID v) (int i + 1)
     (if qv_IsValid v then ''Query '' @ qv_QueryID v @ '' validation passed''
      else ''Query '' @ qv_QueryID v @ '' validation failed: '' @ the (qv_Error v)))\<lparr>ev_Error := qv_Error v\<rparr>)"

definition dryRunPack :: "(nat \<Rightarrow> exec_env) \<Rightarrow> param_order \<Rightarrow> QueryPack \<Rightarrow> (string \<rightharpoonup> pvalue) option \<Rightarrow> ProgressEvent list panics" where
  "dryRunPack env order pack provided = do {
     ((err, result), _) \<leftarrow> DryRun env order pack provided;
     (let start = pack_event pack ''start'' [] 0 ''Starting dry-run validation'' in
      case err of
        Some e \<Rightarrow> Some [start, (pack_event pack ''error'' [] 0 ''Dry-run validation failed'')\<lparr>ev_Total := 0, ev_Error := Some e\<rparr>]
      | None \<Rightarrow> Some ([start] @ map (dry_event pack) (List.enumerate 0 (dry_Queries result)) @
          [pack_event pack ''complete'' [] (int (length (pk_Queries pack)))
             (if dry_Valid result then ''Dry-run validation completed successfully'' else ''Dry-run validation completed with errors'')]))
   }"

definition ExecutePack :: "(nat \<Rightarrow> exec_env) \<Rightarrow> param_order \<Rightarrow> QueryPack \<Rightarrow> ExecutionOptions \<Rightarrow> (string + ProgressEvent list) panics" where
  "ExecutePack env order pack options = do {
     (err, provided) \<leftarrow> validatePackParameters (ex_float (env 0)) order pack (opt_Parameters options);
     (case err of
        Some e \<Rightarrow> Some (Inl (''pack parameter validation failed: '' @ e))
      | None \<Rightarrow>
          if opt_DryRun options then map_option Inr (dryRunPack env order pack provided)
          else Some (Inr (run_pack env pack (params_of provided) (opt_ContinueOnError options))))
   }"

subsection \<open>Rows that can be read\<close>

definition row_status :: "row \<Rightarrow> string" where
  "row_status row = strings_ToUpper (firstString row status_keys)"

definition row_severity :: "row \<Rightarrow> string" where
  "row_severity row = strings_ToUpper (firstString row severity_keys)"

definition row_resource :: "row \<Rightarrow> string" where
  "row_resource row = firstString row resource_id_keys"

definition readable_row :: "row \<Rightarrow> bool" where
  "readable_row row \<longleftrightarrow> row_resource row \<noteq> [] \<and> isValidComplianceStatus (row_status row) \<and>
     (row_severity row = [] \<or> isValidSeverity (row_severity row))"

text \<open>
  What a result says for a row: the row's own values where it has them, the query's or a constant where it has
  not, and when the severity is one of the five.
\<close>

definition typed_result :: "ComplianceQuery \<Rightarrow> row \<Rightarrow> ComplianceResult \<Rightarrow> bool" where
  "typed_result q row c \<longleftrightarrow> cr_ResourceID c = row_resource row \<and> cr_ResourceID c \<noteq> [] \<and> cr_ResourceName c \<noteq> [] \<and>
     cr_ResourceType c \<noteq> [] \<and> cr_Status c = row_status row \<and> isValidComplianceStatus (cr_Status c) \<and>
     cr_Severity c = (if row_severity row \<noteq> [] then row_severity row
       else if q_Severity q \<noteq> [] then strings_ToUpper (q_Severity q) else ''INFO'') \<and>
     (isValidSeverity (cr_Severity c) \<longleftrightarrow> row_severity row \<noteq> [] \<or> q_Severity q = [] \<or> isValidSeverity (strings_ToUpper (q_Severity q))) \<and>
     cr_ControlID c = (if firstString row control_id_keys \<noteq> [] then firstString row control_id_keys else q_ID q) \<and>
     cr_ControlName c = (if firstString row control_name_keys \<noteq> [] then firstString row control_name_keys else q_Title q) \<and>
     cr_Remediation c = (if firstString row remediation_keys \<noteq> [] then Some (firstString row remediation_keys)
       else if row_status row = ''PASS'' \<or> rem_Description (q_Remediation q) = [] then None
       else Some (rem_Description (q_Remediation q)))"

lemma or_else_simps [simp]: "or_else [] t = t" "s \<noteq> [] \<Longrightarrow> or_else s t = s" "or_else s t = [] \<longleftrightarrow> s = [] \<and> t = []"
  by (simp_all add: or_else_def)

lemma valid_status_not_Nil [simp]: "\<not> isValidComplianceStatus []" "\<not> isValidSeverity []"
  by (simp_all add: isValidComplianceStatus_def isValidSeverity_def)

lemma ToUpper_Nil [simp]: "strings_ToUpper s = [] \<longleftrightarrow> s = []" "strings_ToUpper [] = []"
  by (simp_all add: strings_ToUpper_def)

lemma upper_severity: "isValidSeverity s \<Longrightarrow> strings_ToUpper s = s"
  by (auto simp: isValidSeverity_def strings_ToUpper_def upper_char_def)

lemma convert_row_readable: "\<not> isl (convert_row q t row) \<longleftrightarrow> readable_row row"
  by (auto simp: convert_row_def readable_row_def row_status_def row_severity_def row_resource_def Let_def)

lemma convert_row_typed:
  assumes "convert_row q t row = Inr c"
  shows "typed_result q row c \<and> cr_Timestamp c = t"
proof -
  have r: "row_resource row \<noteq> []" "isValidComplianceStatus (row_status row)"
      "row_severity row = [] \<or> isValidSeverity (row_severity row)"
    using assms convert_row_readable[of q t row] by (simp_all add: readable_row_def)
  then have st: "row_status row \<noteq> []" by auto
  have c: "cr_ResourceID c = row_resource row" "cr_Status c = row_status row" "cr_Timestamp c = t"
      "cr_ResourceName c = or_else (firstString row resource_name_keys) (row_resource row)"
      "cr_ResourceType c = or_else (firstString row resource_type_keys) ''resource''"
      "cr_Severity c = or_else (or_else (row_severity row) (strings_ToUpper (q_Severity q))) ''INFO''"
      "cr_ControlID c = or_else (firstString row control_id_keys) (q_ID q)"
      "cr_ControlName c = or_else (firstString row control_name_keys) (q_Title q)"
      "cr_Remediation c = (if firstString row remediation_keys \<noteq> [] then Some (firstString row remediation_keys)
        else if row_status row \<noteq> ''PASS'' \<and> rem_Description (q_Remediation q) \<noteq> [] then Some (rem_Description (q_Remediation q)) else None)"
    using assms r st
    unfolding convert_row_def Let_def row_resource_def[symmetric] row_status_def[symmetric] row_severity_def[symmetric]
    by (auto split: if_splits)
  have "isValidSeverity ''INFO''" by (simp add: isValidSeverity_def)
  with c r st show ?thesis
    by (cases "row_severity row = []"; cases "q_Severity q = []") (simp_all add: typed_result_def or_else_def)
qed

lemma convert_loop_rows_Inr:
  "convert_loop_rows q now i rows out = Inr cs \<longleftrightarrow> (\<exists>ds. cs = out @ ds \<and> length ds = length rows \<and>
     (\<forall>j < length rows. convert_row q (now (i + j)) (rows ! j) = Inr (ds ! j)))"
proof (induction rows arbitrary: i out)
  case (Cons r rows)
  show ?case
  proof (cases "convert_row q (now i) r")
    case (Inl e)
    then show ?thesis by (force simp: length_Suc_conv)
  next
    case (Inr c)
    have "(\<exists>ds. cs = out @ ds \<and> length ds = Suc (length rows) \<and>
        (\<forall>j < Suc (length rows). convert_row q (now (i + j)) ((r # rows) ! j) = Inr (ds ! j))) \<longleftrightarrow>
      (\<exists>ds. cs = out @ c # ds \<and> length ds = length rows \<and>
        (\<forall>j < length rows. convert_row q (now (i + Suc j)) (rows ! j) = Inr (ds ! j)))"
      using Inr by (auto simp: length_Suc_conv All_less_Suc2)
    with Inr Cons show ?thesis by simp
  qed
qed auto

lemma convert_loop_rows_Inl: "isl (convert_loop_rows q now i rows out) \<longleftrightarrow> \<not> list_all readable_row rows"
proof (induction rows arbitrary: i out)
  case (Cons r rows)
  then show ?case using convert_row_readable[of q "now i" r] by (cases "convert_row q (now i) r") auto
qed auto

lemma convertToComplianceResults_rows:
  "(\<exists>cs. convertToComplianceResults q now result = Inr cs) \<longleftrightarrow> list_all readable_row (qr_Rows result)"
  using convert_loop_rows_Inl[of q now 0 "qr_Rows result" "[]"]
  by (cases "convertToComplianceResults q now result") (auto simp: convertToComplianceResults_def)

lemma convertToComplianceResults_typed:
  "convertToComplianceResults q now result = Inr cs \<Longrightarrow> list_all2 (typed_result q) (qr_Rows result) cs"
  using convert_row_typed by (auto simp: convertToComplianceResults_def convert_loop_rows_Inr list_all2_conv_all_nth)

subsection \<open>Parameter values do not reach the text\<close>

definition same_kind :: "pvalue \<Rightarrow> pvalue \<Rightarrow> bool" where
  "same_kind v w \<longleftrightarrow> (case v of
     VList xs \<Rightarrow> (case w of VList ys \<Rightarrow> length xs = length ys | _ \<Rightarrow> False)
   | _ \<Rightarrow> (case w of VList _ \<Rightarrow> False | _ \<Rightarrow> True))"

definition same_shape :: "string list \<Rightarrow> (string \<rightharpoonup> pvalue) \<Rightarrow> (string \<rightharpoonup> pvalue) \<Rightarrow> bool" where
  "same_shape names p p' \<longleftrightarrow> list_all (\<lambda>n. rel_option same_kind (p n) (p' n)) names"

definition sent_texts :: "db_call list \<Rightarrow> string list" where
  "sent_texts calls = List.map_filter (\<lambda>c. case c of RunQuery t _ \<Rightarrow> Some t | _ \<Rightarrow> None) calls"

lemma bind_items_dom: "length xs = length ys \<Longrightarrow> dom s = dom t \<Longrightarrow> dom (bind_items n i xs s) = dom (bind_items n i ys t)"
  by (induction xs ys arbitrary: i s t rule: list_induct2) auto

lemma subst_loop_shape:
  "same_shape names p p' \<Longrightarrow> dom s = dom s' \<Longrightarrow>
   rel_sum (=) (rel_prod (=) (\<lambda>a b. dom a = dom b)) (subst_loop ff p names sql s) (subst_loop ff p' names sql s')"
proof (induction names arbitrary: sql s s')
  case (Cons n names)
  then have k: "rel_option same_kind (p n) (p' n)" and sh: "same_shape names p p'" by (auto simp: same_shape_def)
  note ih = Cons.IH[OF sh]
  show ?case
  proof (cases "p n")
    case None
    with k show ?thesis using ih[OF Cons.prems(2)] by simp
  next
    case (Some v)
    with k obtain w where w: "p' n = Some w" "same_kind v w" by (auto simp: option_rel_Some1)
    have scalar: "rel_sum (=) (rel_prod (=) (\<lambda>a b. dom a = dom b)) (subst_loop ff p names sql (s(n \<mapsto> normalizeSQLParam ff v)))
        (subst_loop ff p' names sql (s'(n \<mapsto> normalizeSQLParam ff w)))"
      by (rule ih) (simp only: dom_fun_upd option.distinct if_False Cons.prems(2))
    show ?thesis
    proof (cases "\<exists>xs. v = VList xs")
      case True
      then obtain xs where xs: "v = VList xs" by blast
      with w(2) obtain ys where "w = VList ys" "length xs = length ys" by (auto simp: same_kind_def split: pvalue.splits)
      with Some w xs show ?thesis
        using ih[OF Cons.prems(2)] ih[OF bind_items_dom[OF \<open>length xs = length ys\<close> Cons.prems(2)]] scalar by simp
    next
      case False
      with w(2) have "\<nexists>ys. w = VList ys" by (auto simp: same_kind_def split: pvalue.splits)
      with False have "(case v of VList items \<Rightarrow> f items | _ \<Rightarrow> e) = e" "(case w of VList items \<Rightarrow> f items | _ \<Rightarrow> e) = e"
        for f and e :: "string + string \<times> (string \<rightharpoonup> pvalue)" by (auto split: pvalue.splits)
      with Some w show ?thesis using ih[OF Cons.prems(2)] scalar by simp
    qed
  qed
qed simp

lemma convert_dom: "dom a = dom b \<Longrightarrow> fst (convert_loop a s) = fst (convert_loop b s)"
proof (induction a s rule: convert_loop.induct)
  case (2 params c cs)
  have d: "params (takeWhile ident_char cs) = None \<longleftrightarrow> b (takeWhile ident_char cs) = None" using 2(3) by (metis domIff)
  show ?case
  proof (cases "c = CHR '':'' \<and> cs \<noteq> [] \<and> ident_start (hd cs)")
    case True
    with 2(1)[OF True refl 2(3)] d show ?thesis
      by (cases "params (takeWhile ident_char cs)"; cases "b (takeWhile ident_char cs)") (simp_all add: Let_def split_beta)
  next
    case False
    with 2(2)[OF False 2(3)] show ?thesis by (auto simp: split_beta)
  qed
qed simp

lemma substituteParameters_shape:
  assumes "same_shape names p p'"
  shows "(\<exists>e. substituteParameters ff sql names p = Inl e \<and> substituteParameters ff sql names p' = Inl e) \<or>
    (\<exists>t a b. substituteParameters ff sql names p = Inr (t, a) \<and> substituteParameters ff sql names p' = Inr (t, b) \<and> dom a = dom b)"
  using subst_loop_shape[OF assms, of Map.empty Map.empty ff sql]
  by (auto simp: substituteParameters_def elim!: rel_sum.cases)

lemma ExecuteWithParams_converted:
  assumes "convertNamedParams sql a = (t, x)"
  shows "snd (ExecuteWithParams (Some db) m sql (Some a)) =
      (if ValidateReadOnlyStatement t = None then snd (ReadOnly (Some db) m t x) else [])"
    and "fst (ExecuteWithParams (Some db) m sql (Some a)) = (case ValidateReadOnlyStatement t of
       Some err \<Rightarrow> Inl (''query validation failed: '' @ sql_error_text err)
     | None \<Rightarrow> map_sum (\<lambda>err. ''query execution failed: '' @ err)
         (\<lambda>r. \<lparr>qr_Columns = dr_Columns r, qr_Rows = map (result_row (dr_Columns r)) (dr_Rows r)\<rparr>) (fst (ReadOnly (Some db) m t x)))"
  using assms by (auto simp: ExecuteWithParams_def split: option.split sum.split prod.split)

lemma ExecuteWithParams_dom:
  assumes "dom a = dom b"
  shows "sent_texts (snd (ExecuteWithParams session m sql (Some a))) = sent_texts (snd (ExecuteWithParams session m sql (Some b)))"
    and "(\<And>t x y db. session = Some db \<Longrightarrow> db_Query db t x = db_Query db t y) \<Longrightarrow>
      fst (ExecuteWithParams session m sql (Some a)) = fst (ExecuteWithParams session m sql (Some b))"
proof -
  obtain t x y where t: "convertNamedParams sql a = (t, x)" "convertNamedParams sql b = (t, y)"
    using convert_dom[OF assms, of sql] by (metis convertNamedParams_def prod.collapse)
  have calls: "sent_texts (snd (ReadOnly s m t x)) = sent_texts (snd (ReadOnly s m t y))" for s
    by (simp add: ReadOnly_def Let_def sent_texts_def map_filter_simps split: option.split)
  show "sent_texts (snd (ExecuteWithParams session m sql (Some a))) = sent_texts (snd (ExecuteWithParams session m sql (Some b)))"
  proof (cases session)
    case (Some db)
    show ?thesis using calls[of "Some db"] by (simp add: Some ExecuteWithParams_converted[OF t(1)] ExecuteWithParams_converted[OF t(2)])
  qed (simp add: ExecuteWithParams_def)
  assume q: "\<And>t x y db. session = Some db \<Longrightarrow> db_Query db t x = db_Query db t y"
  show "fst (ExecuteWithParams session m sql (Some a)) = fst (ExecuteWithParams session m sql (Some b))"
  proof (cases session)
    case (Some db)
    have "run_query db m t x = run_query db m t y" using q[OF Some, of t x y] by (simp add: run_query_def)
    then have "fst (ReadOnly (Some db) m t x) = fst (ReadOnly (Some db) m t y)"
      by (simp add: ReadOnly_def Let_def split: option.split)
    then show ?thesis
      by (simp only: Some ExecuteWithParams_converted(2)[OF t(1)] ExecuteWithParams_converted(2)[OF t(2)])
  qed (simp add: ExecuteWithParams_def)
qed

lemma ExecuteQuery_snd:
  "substituteParameters (ex_float env) (q_SQL q) (q_Parameters q) p = Inr (t, a) \<Longrightarrow>
   snd (ExecuteQuery env q p) = snd (ExecuteWithParams (ex_session env) (ex_maxRows env) t (Some a))"
  by (simp add: ExecuteQuery_def split: prod.split sum.split)

lemma ExecuteQuery_fst:
  "substituteParameters (ex_float env) (q_SQL q) (q_Parameters q) p = Inr (t, a) \<Longrightarrow>
   fst (ExecuteQuery env q p) = (case fst (ExecuteWithParams (ex_session env) (ex_maxRows env) t (Some a)) of
     Inl err \<Rightarrow> Inl (''query execution failed: '' @ err)
   | Inr result \<Rightarrow> map_sum (\<lambda>err. ''result conversion failed: '' @ err) id (convertToComplianceResults q (ex_now env) result))"
  by (simp add: ExecuteQuery_def split: prod.split sum.split)

lemma sent_texts_valid: "s \<in> set (sent_texts (snd (ExecuteWithParams session m t (Some a)))) \<Longrightarrow> ValidateReadOnlyStatement s = None"
proof (cases session)
  case (Some db)
  assume s: "s \<in> set (sent_texts (snd (ExecuteWithParams session m t (Some a))))"
  obtain u x where u: "convertNamedParams t a = (u, x)" by (meson surj_pair)
  obtain res calls where r: "ReadOnly (Some db) m u x = (res, calls)" by (meson surj_pair)
  from s Some ExecuteWithParams_converted(1)[OF u] r have "s \<in> set (sent_texts calls)"
    by (simp add: sent_texts_def map_filter_simps split: if_splits)
  with ReadOnly_calls[OF r] show ?thesis by (auto simp: sent_texts_def map_filter_simps)
qed (simp add: ExecuteWithParams_def sent_texts_def map_filter_simps)

text \<open>
  C36. The values of parameters are data, never SQL. Two sets of values of one shape (the same parameters
  given, lists where lists, of the same length) make a query send the same statement text to the database,
  one the guard accepted, or fail with the same error; and if what the database answers depends on the text
  alone, the results are equal too: values can only act through bound arguments.
\<close>

theorem ExecuteQuery_values_are_data:
  assumes "same_shape (q_Parameters q) p p'"
  shows "sent_texts (snd (ExecuteQuery env q p)) = sent_texts (snd (ExecuteQuery env q p')) \<and>
    list_all (\<lambda>t. ValidateReadOnlyStatement t = None) (sent_texts (snd (ExecuteQuery env q p))) \<and>
    ((\<forall>db t x y. ex_session env = Some db \<longrightarrow> db_Query db t x = db_Query db t y) \<longrightarrow>
       fst (ExecuteQuery env q p) = fst (ExecuteQuery env q p'))"
  using substituteParameters_shape[OF assms, of "ex_float env" "q_SQL q"]
proof (elim disjE exE conjE)
  fix e
  assume "substituteParameters (ex_float env) (q_SQL q) (q_Parameters q) p = Inl e"
    "substituteParameters (ex_float env) (q_SQL q) (q_Parameters q) p' = Inl e"
  then show ?thesis by (simp add: ExecuteQuery_def sent_texts_def map_filter_simps)
next
  fix t a b
  assume s: "substituteParameters (ex_float env) (q_SQL q) (q_Parameters q) p = Inr (t, a)"
    "substituteParameters (ex_float env) (q_SQL q) (q_Parameters q) p' = Inr (t, b)" and d: "dom a = dom b"
  show ?thesis
    using ExecuteWithParams_dom[OF d, of "ex_session env" "ex_maxRows env" t] sent_texts_valid
    by (auto simp: ExecuteQuery_snd[OF s(1)] ExecuteQuery_snd[OF s(2)] ExecuteQuery_fst[OF s(1)] ExecuteQuery_fst[OF s(2)] list_all_iff)
qed

text \<open>
  C37. Results are well typed. Reading the rows of a query succeeds exactly when every row names a
  resource, has a status of the four and, if it has a severity, one of the five, in any case of letters. Then
  there is one result per row, in order, with a resource id, a name and a type that are not empty and the row's
  status. Its severity is the row's if the row has one, else the query's in upper case if it has one, else INFO;
  so it is one of the five exactly when it is not taken from a query whose own severity is none of them (a pack
  that was validated has no such query). Control and remediation are the row's, else the query's, the
  remediation only if the row did not pass.
\<close>

theorem convertToComplianceResults_type:
  "case convertToComplianceResults q now result of
     Inl err \<Rightarrow> \<not> list_all readable_row (qr_Rows result)
   | Inr cs \<Rightarrow> list_all readable_row (qr_Rows result) \<and> list_all2 (typed_result q) (qr_Rows result) cs"
  using convertToComplianceResults_rows[of q now result] convertToComplianceResults_typed[of q now result]
  by (auto split: sum.split)

subsection \<open>The events of a pack\<close>

lemma pack_loop_events:
  assumes "pack_loop env pack p cont i qs n = (es, m)"
  shows "prefix (map ev_QueryID es) (map q_ID (filter q_Enabled qs)) \<and>
    (cont \<longrightarrow> map ev_QueryID es = map q_ID (filter q_Enabled qs)) \<and>
    m = n + length (filter (\<lambda>e. ev_Type e = ''query'') es) \<and>
    (\<forall>e \<in> set es. ev_Type e = (if ev_Error e = None then ''query'' else ''error'')) \<and>
    (\<not> cont \<longrightarrow> (\<forall>e \<in> set (butlast es). ev_Error e = None) \<and>
       (list_all (\<lambda>e. ev_Error e = None) es \<longrightarrow> map ev_QueryID es = map q_ID (filter q_Enabled qs)))"
  using assms
proof (induction qs arbitrary: i n es m)
  case (Cons q qs)
  show ?case
  proof (cases "q_Enabled q")
    case False
    then show ?thesis using Cons.IH[of "i + 1" n es m] Cons.prems by simp
  next
    case True
    show ?thesis
    proof (cases "fst (ExecuteQuery (env i) q p)")
      case (Inl err)
      define e where "e = (pack_event pack ''error'' (q_ID q) (int i + 1) (''Query '' @ q_ID q @ '' failed: '' @ err))\<lparr>ev_Error := Some err\<rparr>"
      have e: "ev_QueryID e = q_ID q" "ev_Type e = ''error''" "ev_Error e = Some err" by (simp_all add: e_def pack_event_def)
      show ?thesis
      proof (cases cont)
        case False
        with Cons.prems True Inl have "es = [e]" "m = n" by (simp_all add: Let_def e_def)
        then show ?thesis using e True False by simp
      next
        case c: True
        obtain es' m' where l: "pack_loop env pack p cont (i + 1) qs n = (es', m')" by (meson surj_pair)
        with Cons.prems True Inl c have "es = e # es'" "m = m'" by (simp_all add: Let_def e_def)
        then show ?thesis using e True c Cons.IH[OF l] by simp
      qed
    next
      case (Inr results)
      define e where "e = (pack_event pack ''query'' (q_ID q) (int i + 1) (''Completed query '' @ q_ID q @ '' ('' @
        strconv_Itoa (int (length results)) @ '' results)''))\<lparr>ev_Result := results\<rparr>"
      have e: "ev_QueryID e = q_ID q" "ev_Type e = ''query''" "ev_Error e = None" by (simp_all add: e_def pack_event_def)
      obtain es' m' where l: "pack_loop env pack p cont (i + 1) qs (n + 1) = (es', m')" by (meson surj_pair)
      with Cons.prems True Inr have "es = e # es'" "m = m'" by (simp_all add: Let_def e_def)
      then show ?thesis using e True Cons.IH[OF l] by simp
    qed
  qed
qed simp

text \<open>
  A run announces itself, reports every enabled query in order, each once, until the first failure (all
  of them if it is to continue on errors), and always completes.
\<close>

lemma run_pack_events:
  "\<exists>first es last. run_pack env pack p cont = first # es @ [last] \<and> ev_Type first = ''start'' \<and> ev_Type last = ''complete'' \<and>
     prefix (map ev_QueryID es) (map q_ID (filter q_Enabled (pk_Queries pack))) \<and>
     (cont \<or> list_all (\<lambda>e. ev_Error e = None) es \<longrightarrow> map ev_QueryID es = map q_ID (filter q_Enabled (pk_Queries pack)))"
proof -
  obtain es m where l: "pack_loop env pack p cont 0 (pk_Queries pack) 0 = (es, m)" by (meson surj_pair)
  from pack_loop_events[OF l] show ?thesis
    by (intro exI[of _ "hd (run_pack env pack p cont)"] exI[of _ es] exI[of _ "last (run_pack env pack p cont)"])
       (auto simp: run_pack_def l pack_event_def)
qed

text \<open>Without a parameter map, a pack with a required parameter that has a default panics.\<close>

lemma nil_parameters_panic:
  assumes "\<And>t. order t = t" "pk_Parameters pack = [par]" "par_Required par" "par_Default par \<noteq> VNil" "pk_Queries pack = []"
    and "opt_Parameters options = None"
  shows "ExecutePack env order pack options = None"
  using assms by (simp add: ExecutePack_def validatePackParameters_def required_params_def pack_level_def params_of_def)

text \<open>
  Two parameters, one a list whose expansion takes the other's name: the second binding replaces the
  first item's. And a list parameter that is also used outside an \<open>IN\<close> clause has no binding there.
\<close>

lemma digits_of_small: "digits_of 0 = ''0''" "digits_of 1 = ''1''"
  by code_simp+

lemma list_item_overwritten:
  "\<exists>sql ps. substituteParameters ff ''a IN (:p) AND b = :p_0'' [''p'', ''p_0'']
       [''p'' \<mapsto> VList [VInt 1, VInt 3], ''p_0'' \<mapsto> VInt 2] = Inr (sql, ps) \<and> ps ''p_0'' = Some (VInt 2)"
  by (simp add: substituteParameters_def strings_Contains_def list_placeholder_def list_replacement_def list_key_def
      normalizeSQLParam_def strconv_Itoa_def digits_of_small[simplified])

lemma list_outside_in_unbound:
  "\<exists>sql ps. substituteParameters ff ''a IN (:p) AND b = :p'' [''p''] [''p'' \<mapsto> VList [VInt 1]] = Inr (sql, ps) \<and> ps ''p'' = None"
  by (simp add: substituteParameters_def strings_Contains_def list_placeholder_def list_replacement_def list_key_def
      normalizeSQLParam_def strconv_Itoa_def digits_of_small)

subsection \<open>An instance\<close>

definition demo_query :: ComplianceQuery where
  "demo_query = \<lparr>q_ID = ''c1'', q_Title = ''t'', q_Description = [], q_Objective = [], q_Severity = ''HIGH'', q_Category = [],
     q_ControlFamily = [], q_NISTCSF = [], q_Tags = [], q_QueryFile = ''q.sql'', q_SQL = ''select id where p = :p'', q_Parameters = [''p''],
     q_DependsOn = [], q_Threats = [], q_Remediation = \<lparr>rem_Description = [], rem_Steps = [], rem_Links = [], rem_TerraformModule = [],
       rem_TerraformCode = [], rem_Automated = False, rem_Complexity = [], rem_EstimatedTime = [], rem_Risks = [], rem_Prerequisites = [],
       rem_AdditionalInfo = Map.empty\<rparr>, q_Enabled = True\<rparr>"

definition demo_exec_env :: exec_env where
  "demo_exec_env = \<lparr>ex_session = Some demo_database, ex_maxRows = 0, ex_float = (\<lambda>_. ''0''), ex_now = (\<lambda>_. 0)\<rparr>"

theorem ExecuteQuery_values_are_data_witness:
  "sent_texts (snd (ExecuteQuery demo_exec_env demo_query [''p'' \<mapsto> VString ''x''])) =
     sent_texts (snd (ExecuteQuery demo_exec_env demo_query [''p'' \<mapsto> VInt 7]))"
  using ExecuteQuery_values_are_data[of demo_query "[''p'' \<mapsto> VString ''x'']" "[''p'' \<mapsto> VInt 7]" demo_exec_env]
  by (simp add: same_shape_def same_kind_def demo_query_def)

end
