(* ===== verification/Compliance_Run.thy ===== *)
theory Compliance_Run imports Compliance_Executor Pack_Loader begin

text \<open>
  pkg/query/compliance/simple_executor.go: choosing the controls of a compliance run from the installed
  packs and running each with its own result. The packs come from the loader (theory Pack_Loader), the
  queries run through the executor (theory Compliance_Executor).
\<close>

subsection \<open>Choosing queries\<close>

record querySelection =
  sel_pack :: QueryPack
  sel_query :: ComplianceQuery

record ExecuteOptions =
  eo_ControlID :: string
  eo_PackName :: string
  eo_Tags :: "string list"
  eo_Parameters :: "string \<rightharpoonup> pvalue"
  eo_DryRun :: bool

text \<open>What the loader meets: the files of a pack, and the directories searched for packs.\<close>

record run_env =
  run_loader :: loader_env
  run_walk :: dir_walk
  run_embedded :: "(string \<times> bool) list"

datatype select_error =
    LoadFailed string loader_error
  | NotInPack string string
  | ControlNotFound string
  | NothingMatched

definition normal_tag :: "string \<Rightarrow> string" where
  "normal_tag tag = strings_ToLower (strings_TrimSpace tag)"

definition matchesTags :: "QueryPack \<Rightarrow> ComplianceQuery \<Rightarrow> string list \<Rightarrow> bool" where
  "matchesTags pack q tags = (if tags = [] then True
     else (let available = map normal_tag (md_Tags (pk_Metadata pack)) @ map normal_tag (q_Tags q)
           in list_all (\<lambda>tag. normal_tag tag \<in> set available) tags))"

definition queryMatchesControl :: "ComplianceQuery \<Rightarrow> string \<Rightarrow> bool" where
  "queryMatchesControl q controlID \<longleftrightarrow> q_ID q = controlID \<or> strings_HasSuffix controlID (''/'' @ q_ID q)"

definition findQueryInPack :: "QueryPack \<Rightarrow> string \<Rightarrow> select_error + ComplianceQuery" where
  "findQueryInPack pack controlID = (case find (\<lambda>q. queryMatchesControl q controlID) (pk_Queries pack) of
     Some q \<Rightarrow> Inr q
   | None \<Rightarrow> Inl (NotInPack controlID (md_Name (pk_Metadata pack))))"

definition splitControlRef :: "string \<Rightarrow> (string \<times> string) option" where
  "splitControlRef controlRef = (let parts = strings_Split controlRef (CHR ''/'') in
     if length parts < 2 then None else Some (strings_Join (butlast parts) ''/'', last parts))"

text \<open>The first pack of the list that loads and has the control.\<close>

fun find_control_loop :: "loader_env \<Rightarrow> string \<Rightarrow> string list \<Rightarrow> PackLoader \<Rightarrow> (querySelection option \<times> PackLoader) panics" where
  "find_control_loop env controlID [] l = Some (None, l)"
| "find_control_loop env controlID (name # names) l = do {
     (res, l) \<leftarrow> LoadPack env name l;
     (case res of
        Inl _ \<Rightarrow> find_control_loop env controlID names l
      | Inr pack \<Rightarrow> (case findQueryInPack pack controlID of
          Inr q \<Rightarrow> Some (Some \<lparr>sel_pack = pack, sel_query = q\<rparr>, l)
        | Inl _ \<Rightarrow> find_control_loop env controlID names l))
   }"

definition search_control :: "run_env \<Rightarrow> string \<Rightarrow> PackLoader \<Rightarrow> ((select_error + querySelection list) \<times> PackLoader) panics" where
  "search_control env controlID l = do {
     (found, l) \<leftarrow> find_control_loop (run_loader env) controlID (DiscoverPacks (run_walk env) (run_embedded env) l) l;
     (case found of
        Some s \<Rightarrow> Some (Inr [s], l)
      | None \<Rightarrow> Some (Inl (ControlNotFound controlID), l))
   }"

definition selectControl :: "run_env \<Rightarrow> ExecuteOptions \<Rightarrow> PackLoader \<Rightarrow> ((select_error + querySelection list) \<times> PackLoader) panics" where
  "selectControl env options l =
     (if eo_PackName options \<noteq> [] then do {
        (res, l) \<leftarrow> LoadPack (run_loader env) (eo_PackName options) l;
        (case res of
           Inl err \<Rightarrow> Some (Inl (LoadFailed (eo_PackName options) err), l)
         | Inr pack \<Rightarrow> Some (map_sum id (\<lambda>q. [\<lparr>sel_pack = pack, sel_query = q\<rparr>]) (findQueryInPack pack (eo_ControlID options)), l))
      }
      else (case splitControlRef (eo_ControlID options) of
          None \<Rightarrow> search_control env (eo_ControlID options) l
        | Some (packName, controlID) \<Rightarrow> do {
            (res, l) \<leftarrow> LoadPack (run_loader env) packName l;
            (case res of
               Inl _ \<Rightarrow> search_control env (eo_ControlID options) l
             | Inr pack \<Rightarrow> (case findQueryInPack pack controlID of
                 Inr q \<Rightarrow> Some (Inr [\<lparr>sel_pack = pack, sel_query = q\<rparr>], l)
               | Inl _ \<Rightarrow> search_control env (eo_ControlID options) l))
          }))"

definition pack_selections :: "QueryPack \<Rightarrow> string list \<Rightarrow> querySelection list" where
  "pack_selections pack tags = map (\<lambda>q. \<lparr>sel_pack = pack, sel_query = q\<rparr>)
     (filter (\<lambda>q. q_Enabled q \<and> matchesTags pack q tags) (pk_Queries pack))"

fun select_loop :: "loader_env \<Rightarrow> string list \<Rightarrow> string list \<Rightarrow> PackLoader \<Rightarrow> querySelection list \<Rightarrow>
    ((select_error + querySelection list) \<times> PackLoader) panics" where
  "select_loop env tags [] l selections = Some (Inr selections, l)"
| "select_loop env tags (name # names) l selections = do {
     (res, l) \<leftarrow> LoadPack env name l;
     (case res of
        Inl err \<Rightarrow> Some (Inl (LoadFailed name err), l)
      | Inr pack \<Rightarrow> select_loop env tags names l (selections @ pack_selections pack tags))
   }"

definition selectQueries :: "run_env \<Rightarrow> ExecuteOptions \<Rightarrow> PackLoader \<Rightarrow> ((select_error + querySelection list) \<times> PackLoader) panics" where
  "selectQueries env options l =
     (if eo_ControlID options \<noteq> [] then selectControl env options l
      else select_loop (run_loader env) (eo_Tags options)
        (if eo_PackName options \<noteq> [] then [eo_PackName options] else DiscoverPacks (run_walk env) (run_embedded env) l) l [])"

subsection \<open>Running the selected queries\<close>

definition canonicalPackRef :: "QueryPack option \<Rightarrow> string" where
  "canonicalPackRef pack = (case pack of
     None \<Rightarrow> []
   | Some p \<Rightarrow> (let namespace = rev (dropWhile (\<lambda>c. c = CHR ''/'') (rev (dropWhile (\<lambda>c. c = CHR ''/'') (md_Namespace (pk_Metadata p))))) in
       if namespace = [] then md_Name (pk_Metadata p) else namespace @ ''/'' @ md_Name (pk_Metadata p)))"

definition parametersWithDefaults :: "QueryPack \<Rightarrow> (string \<rightharpoonup> pvalue) \<Rightarrow> (string \<rightharpoonup> pvalue)" where
  "parametersWithDefaults pack provided = foldl (\<lambda>merged p.
     if merged (par_Name p) = None \<and> par_Default p \<noteq> VNil then merged(par_Name p \<mapsto> par_Default p) else merged)
     provided (pk_Parameters pack)"

definition failed_resource :: "ComplianceResult \<Rightarrow> string" where
  "failed_resource row = (if cr_ResourceName row \<noteq> [] \<and> cr_ResourceName row \<noteq> cr_ResourceID row
     then cr_ResourceName row @ '' ('' @ cr_ResourceID row @ '')'' else cr_ResourceID row)"

fun record_rows_loop :: "ComplianceResult list \<Rightarrow> SimpleQueryResult \<Rightarrow> SimpleQueryResult" where
  "record_rows_loop [] result = result"
| "record_rows_loop (row # rows) result =
     (if strings_ToUpper (cr_Status row) = ''PASS'' then record_rows_loop rows result
      else record_rows_loop rows (result\<lparr>sq_Passed := False,
        sq_FailedResources := sq_FailedResources result @ [failed_resource row]\<rparr>))"

definition recordComplianceRows :: "SimpleQueryResult \<Rightarrow> ComplianceResult list \<Rightarrow> SimpleQueryResult" where
  "recordComplianceRows result rows = record_rows_loop rows
     (result\<lparr>sq_Rows := sq_Rows result @ rows, sq_ResourceCount := int (length rows)\<rparr>)"

definition dryRunQuery :: "exec_env \<Rightarrow> ComplianceQuery \<Rightarrow> (string \<rightharpoonup> pvalue) \<Rightarrow> string option" where
  "dryRunQuery env q provided = (case substituteParameters (ex_float env) (q_SQL q) (q_Parameters q) provided of
     Inl err \<Rightarrow> Some err
   | Inr (sql, _) \<Rightarrow> fst (Engine_Validate (ex_session env) (ex_maxRows env) sql))"

definition selection_result :: "querySelection \<Rightarrow> SimpleQueryResult" where
  "selection_result s = \<lparr>sq_PackRef = canonicalPackRef (Some (sel_pack s)), sq_ControlID = q_ID (sel_query s),
     sq_Title = q_Title (sel_query s), sq_Description = q_Description (sel_query s), sq_Passed = True, sq_ResourceCount = 0,
     sq_FailedResources = [], sq_Rows = [], sq_Error = None\<rparr>"

text \<open>One selection, met by the engine as it then is.\<close>

definition run_selection :: "exec_env \<Rightarrow> ExecuteOptions \<Rightarrow> querySelection \<Rightarrow> SimpleQueryResult" where
  "run_selection env options s =
     (let result = selection_result s; provided = parametersWithDefaults (sel_pack s) (eo_Parameters options) in
      if eo_DryRun options then (case dryRunQuery env (sel_query s) provided of
          Some err \<Rightarrow> result\<lparr>sq_Passed := False, sq_Error := Some err\<rparr>
        | None \<Rightarrow> result)
      else (case fst (ExecuteQuery env (sel_query s) provided) of
          Inl err \<Rightarrow> result\<lparr>sq_Passed := False, sq_Error := Some err\<rparr>
        | Inr rows \<Rightarrow> recordComplianceRows result rows))"

datatype run_error = SelectionFailed select_error | Stopped string string

text \<open>\<open>cancelled i\<close> is the context's error when the \<open>i\<close>-th selection comes up.\<close>

fun execute_loop :: "(nat \<Rightarrow> exec_env) \<Rightarrow> (nat \<Rightarrow> string option) \<Rightarrow> ExecuteOptions \<Rightarrow> nat \<Rightarrow> querySelection list \<Rightarrow>
    SimpleQueryResult list \<Rightarrow> run_error + SimpleQueryResult list" where
  "execute_loop env cancelled options i [] results = Inr results"
| "execute_loop env cancelled options i (s # ss) results = (case cancelled i of
     Some err \<Rightarrow> Inl (Stopped (q_ID (sel_query s)) err)
   | None \<Rightarrow> execute_loop env cancelled options (i + 1) ss (results @ [run_selection (env i) options s]))"

definition Executor_Execute :: "run_env \<Rightarrow> (nat \<Rightarrow> exec_env) \<Rightarrow> (nat \<Rightarrow> string option) \<Rightarrow> ExecuteOptions \<Rightarrow> PackLoader \<Rightarrow>
    ((run_error + SimpleQueryResult list) \<times> PackLoader) panics" where
  "Executor_Execute renv env cancelled options l = do {
     (selected, l) \<leftarrow> selectQueries renv options l;
     (case selected of
        Inl err \<Rightarrow> Some (Inl (SelectionFailed err), l)
      | Inr selections \<Rightarrow>
          if selections = [] then Some (Inl (SelectionFailed NothingMatched), l)
          else Some (execute_loop env cancelled options 0 selections [], l))
   }"

text \<open>\<open>Loader.ListPacks\<close>: the packs that load.\<close>

fun list_packs_loop :: "loader_env \<Rightarrow> string list \<Rightarrow> PackLoader \<Rightarrow> QueryPack list \<Rightarrow> (QueryPack list \<times> PackLoader) panics" where
  "list_packs_loop env [] l packs = Some (packs, l)"
| "list_packs_loop env (name # names) l packs = do {
     (res, l) \<leftarrow> LoadPack env name l;
     list_packs_loop env names l (case res of Inl _ \<Rightarrow> packs | Inr pack \<Rightarrow> packs @ [pack])
   }"

definition ListPacks :: "run_env \<Rightarrow> PackLoader \<Rightarrow> (QueryPack list \<times> PackLoader) panics" where
  "ListPacks env l = list_packs_loop (run_loader env) (DiscoverPacks (run_walk env) (run_embedded env) l) l []"

subsection \<open>What is selected\<close>

definition selection_ok :: "run_env \<Rightarrow> string list \<Rightarrow> bool \<Rightarrow> ExecuteOptions \<Rightarrow> querySelection \<Rightarrow> bool" where
  "selection_ok renv paths emb options s \<longleftrightarrow> (\<exists>name. stands_for (run_loader renv) paths emb name (sel_pack s)) \<and>
     sel_query s \<in> set (pk_Queries (sel_pack s)) \<and>
     (if eo_ControlID options = [] then q_Enabled (sel_query s) \<and> matchesTags (sel_pack s) (sel_query s) (eo_Tags options)
      else queryMatchesControl (sel_query s) (eo_ControlID options))"

lemma findQueryInPack_Inr: "findQueryInPack pack c = Inr q \<Longrightarrow> q \<in> set (pk_Queries pack) \<and> queryMatchesControl q c"
  by (auto simp: findQueryInPack_def find_Some_iff split: option.splits)

lemma splitControlRef_Some:
  assumes "splitControlRef ref = Some (p, c)" "queryMatchesControl q c"
  shows "queryMatchesControl q ref"
proof -
  let ?parts = "strings_Split ref (CHR ''/'')"
  from assms(1) have c: "c = last ?parts" "\<not> length ?parts < 2" by (auto simp: splitControlRef_def Let_def split: if_splits)
  then have "butlast ?parts \<noteq> []" by (cases ?parts rule: rev_cases) auto
  have "CHR ''/'' \<notin> set c" using Split_no_sep[of c ref "CHR ''/''"] c(1) by simp
  with assms(2) have "q_ID q = c" by (auto simp: queryMatchesControl_def suffix_def)
  moreover have "ref = strings_Join (butlast ?parts @ [c]) ''/''" using c(1) by simp
  ultimately show ?thesis
    using \<open>butlast ?parts \<noteq> []\<close> by (auto simp: queryMatchesControl_def suffix_def strings_Join_snoc)
qed

lemma select_loop_returns:
  assumes "sources_apart lenv paths emb" "loader_lives lenv paths emb l"
  shows "\<exists>res l'. select_loop lenv tags names l sels = Some (res, l') \<and> loader_lives lenv paths emb l' \<and>
    (\<forall>out. res = Inr out \<longrightarrow> (\<exists>packs. list_all2 (stands_for lenv paths emb) names packs \<and>
       out = sels @ concat (map (\<lambda>p. pack_selections p tags) packs))) \<and>
    (list_all (loadable lenv paths emb packDepthMax) names \<longrightarrow> (\<exists>out. res = Inr out))"
  using assms(2)
proof (induction names arbitrary: l sels)
  case (Cons n names)
  obtain r l1 where l1: "LoadPack lenv n l = Some (r, l1)" "loader_lives lenv paths emb l1"
      "\<And>pack. r = Inr pack \<Longrightarrow> stands_for lenv paths emb n pack" "loadable lenv paths emb packDepthMax n \<Longrightarrow> \<exists>pack. r = Inr pack"
    using LoadPack_lives[OF assms(1) Cons.prems, of n] by blast
  show ?case
  proof (cases r)
    case (Inl e)
    with l1 show ?thesis by auto
  next
    case (Inr pack)
    obtain res l' where i: "select_loop lenv tags names l1 (sels @ pack_selections pack tags) = Some (res, l')" "loader_lives lenv paths emb l'"
        "\<And>out. res = Inr out \<Longrightarrow> \<exists>packs. list_all2 (stands_for lenv paths emb) names packs \<and>
           out = (sels @ pack_selections pack tags) @ concat (map (\<lambda>p. pack_selections p tags) packs)"
        "list_all (loadable lenv paths emb packDepthMax) names \<Longrightarrow> \<exists>out. res = Inr out"
      using Cons.IH[OF l1(2), of "sels @ pack_selections pack tags"] by blast
    have "\<exists>packs. list_all2 (stands_for lenv paths emb) (n # names) packs \<and>
        out = sels @ concat (map (\<lambda>p. pack_selections p tags) packs)" if h: "res = Inr out" for out
    proof -
      obtain packs where "list_all2 (stands_for lenv paths emb) names packs"
          "out = (sels @ pack_selections pack tags) @ concat (map (\<lambda>p. pack_selections p tags) packs)"
        using i(3)[OF h] by blast
      then show ?thesis using l1(3)[OF Inr] by (intro exI[of _ "pack # packs"]) simp
    qed
    then show ?thesis using l1(1) Inr i by auto
  qed
qed auto

lemma find_control_loop_returns:
  assumes "sources_apart (run_loader renv) paths emb" "loader_lives (run_loader renv) paths emb l" "eo_ControlID options = c" "c \<noteq> []"
  shows "\<exists>res l'. find_control_loop (run_loader renv) c names l = Some (res, l') \<and> loader_lives (run_loader renv) paths emb l' \<and>
    (\<forall>s. res = Some s \<longrightarrow> selection_ok renv paths emb options s)"
  using assms(2)
proof (induction names arbitrary: l)
  case (Cons n names)
  obtain r l1 where l1: "LoadPack (run_loader renv) n l = Some (r, l1)" "loader_lives (run_loader renv) paths emb l1"
      "\<And>pack. r = Inr pack \<Longrightarrow> stands_for (run_loader renv) paths emb n pack"
    using LoadPack_lives[OF assms(1) Cons.prems, of n] by blast
  note ih = Cons.IH[OF l1(2)]
  show ?case
  proof (cases r)
    case (Inr pack)
    show ?thesis
    proof (cases "findQueryInPack pack c")
      case (Inr q)
      then have "selection_ok renv paths emb options \<lparr>sel_pack = pack, sel_query = q\<rparr>"
        using findQueryInPack_Inr[OF Inr] l1(3)[OF \<open>r = Inr pack\<close>] assms(3,4) by (auto simp: selection_ok_def)
      with l1 Inr \<open>r = Inr pack\<close> show ?thesis by simp
    qed (use l1 Inr ih in simp)
  qed (use l1 ih in simp)
qed simp

lemma search_control_returns:
  assumes "sources_apart (run_loader renv) paths emb" "loader_lives (run_loader renv) paths emb l" "eo_ControlID options = c" "c \<noteq> []"
  shows "\<exists>res l'. search_control renv c l = Some (res, l') \<and> loader_lives (run_loader renv) paths emb l' \<and>
    (\<forall>out. res = Inr out \<longrightarrow> (\<exists>s. out = [s] \<and> selection_ok renv paths emb options s))"
proof -
  obtain res l' where "find_control_loop (run_loader renv) c (DiscoverPacks (run_walk renv) (run_embedded renv) l) l = Some (res, l')"
      "loader_lives (run_loader renv) paths emb l'" "\<And>s. res = Some s \<Longrightarrow> selection_ok renv paths emb options s"
    using find_control_loop_returns[OF assms] by blast
  then show ?thesis by (cases res) (auto simp: search_control_def)
qed

lemma selectControl_returns:
  assumes "sources_apart (run_loader renv) paths emb" "loader_lives (run_loader renv) paths emb l" "eo_ControlID options \<noteq> []"
  shows "\<exists>res l'. selectControl renv options l = Some (res, l') \<and> loader_lives (run_loader renv) paths emb l' \<and>
    (\<forall>out. res = Inr out \<longrightarrow> (\<exists>s. out = [s] \<and> selection_ok renv paths emb options s))"
proof -
  have load: "\<exists>r l1. LoadPack (run_loader renv) n l = Some (r, l1) \<and> loader_lives (run_loader renv) paths emb l1 \<and>
      (\<forall>pack. r = Inr pack \<longrightarrow> stands_for (run_loader renv) paths emb n pack)" for n
    using LoadPack_lives[OF assms(1,2), of n] by blast
  have sel: "selection_ok renv paths emb options \<lparr>sel_pack = pack, sel_query = q\<rparr>"
    if "stands_for (run_loader renv) paths emb n pack" "q \<in> set (pk_Queries pack)" "queryMatchesControl q (eo_ControlID options)" for n pack q
    using that assms(3) by (auto simp: selection_ok_def)
  show ?thesis
  proof (cases "eo_PackName options = []")
    case False
    obtain r l1 where l1: "LoadPack (run_loader renv) (eo_PackName options) l = Some (r, l1)" "loader_lives (run_loader renv) paths emb l1"
        "\<And>pack. r = Inr pack \<Longrightarrow> stands_for (run_loader renv) paths emb (eo_PackName options) pack" using load by blast
    show ?thesis
    proof (cases r)
      case (Inl e)
      with l1 False show ?thesis by (simp add: selectControl_def)
    next
      case (Inr pack)
      then show ?thesis
        using l1 False sel[OF l1(3)[OF Inr]] findQueryInPack_Inr[of pack "eo_ControlID options"]
        by (cases "findQueryInPack pack (eo_ControlID options)") (auto simp: selectControl_def)
    qed
  next
    case True
    show ?thesis
    proof (cases "splitControlRef (eo_ControlID options)")
      case None
      with True search_control_returns[OF assms(1,2) refl assms(3)] show ?thesis by (simp add: selectControl_def)
    next
      case (Some pc)
      obtain pn c where pc: "pc = (pn, c)" by (cases pc)
      obtain r l1 where l1: "LoadPack (run_loader renv) pn l = Some (r, l1)" "loader_lives (run_loader renv) paths emb l1"
          "\<And>pack. r = Inr pack \<Longrightarrow> stands_for (run_loader renv) paths emb pn pack" using load by blast
      note again = search_control_returns[OF assms(1) l1(2) refl assms(3)]
      show ?thesis
      proof (cases "\<exists>pack q. r = Inr pack \<and> findQueryInPack pack c = Inr q")
        case True
        then obtain pack q where pq: "r = Inr pack" "findQueryInPack pack c = Inr q" by blast
        then have "selection_ok renv paths emb options \<lparr>sel_pack = pack, sel_query = q\<rparr>"
          using findQueryInPack_Inr[OF pq(2)] splitControlRef_Some[of "eo_ControlID options" pn c q] Some pc l1(3)[OF pq(1)] sel by blast
        with pq l1 Some pc \<open>eo_PackName options = []\<close> show ?thesis by (simp add: selectControl_def)
      next
        case False
        then have "selectControl renv options l = search_control renv (eo_ControlID options) l1"
          using l1(1) Some pc \<open>eo_PackName options = []\<close>
          by (cases r) (auto simp: selectControl_def split: sum.splits)
        with again show ?thesis by simp
      qed
    qed
  qed
qed

text \<open>The packs whose queries are wanted when no control is named.\<close>

definition wanted_packs :: "run_env \<Rightarrow> ExecuteOptions \<Rightarrow> PackLoader \<Rightarrow> string list" where
  "wanted_packs renv options l = (if eo_PackName options \<noteq> [] then [eo_PackName options]
     else DiscoverPacks (run_walk renv) (run_embedded renv) l)"

lemma selectQueries_returns:
  assumes "sources_apart (run_loader renv) paths emb" "loader_lives (run_loader renv) paths emb l"
  shows "\<exists>res l'. selectQueries renv options l = Some (res, l') \<and> loader_lives (run_loader renv) paths emb l' \<and>
    (\<forall>out. res = Inr out \<longrightarrow> list_all (selection_ok renv paths emb options) out \<and>
       (eo_ControlID options = [] \<longrightarrow> (\<exists>packs. list_all2 (stands_for (run_loader renv) paths emb) (wanted_packs renv options l) packs \<and>
          out = concat (map (\<lambda>p. pack_selections p (eo_Tags options)) packs)))) \<and>
    (eo_ControlID options = [] \<and> list_all (loadable (run_loader renv) paths emb packDepthMax) (wanted_packs renv options l) \<longrightarrow>
       (\<exists>out. res = Inr out))"
proof (cases "eo_ControlID options = []")
  case True
  obtain res l' where r: "select_loop (run_loader renv) (eo_Tags options) (wanted_packs renv options l) l [] = Some (res, l')"
      "loader_lives (run_loader renv) paths emb l'"
      "\<And>out. res = Inr out \<Longrightarrow> \<exists>packs. list_all2 (stands_for (run_loader renv) paths emb) (wanted_packs renv options l) packs \<and>
         out = concat (map (\<lambda>p. pack_selections p (eo_Tags options)) packs)"
      "list_all (loadable (run_loader renv) paths emb packDepthMax) (wanted_packs renv options l) \<Longrightarrow> \<exists>out. res = Inr out"
    using select_loop_returns[OF assms, of "eo_Tags options" "wanted_packs renv options l" "[]"] by auto
  have one: "list_all (selection_ok renv paths emb options) (pack_selections p (eo_Tags options))"
    if "stands_for (run_loader renv) paths emb n p" for n p
    using that True by (auto simp: pack_selections_def list_all_iff selection_ok_def)
  have "list_all (selection_ok renv paths emb options) (concat (map (\<lambda>p. pack_selections p (eo_Tags options)) packs))"
    if "list_all2 (stands_for (run_loader renv) paths emb) names packs" for names packs
    using that by (induction rule: list_all2_induct) (use one in auto)
  with r True show ?thesis by (intro exI[of _ res] exI[of _ l']) (auto simp: selectQueries_def wanted_packs_def)
next
  case False
  with selectControl_returns[OF assms False] show ?thesis by (fastforce simp: selectQueries_def)
qed

subsection \<open>What is reported\<close>

definition control_result_ok :: "ExecuteOptions \<Rightarrow> querySelection \<Rightarrow> SimpleQueryResult \<Rightarrow> bool" where
  "control_result_ok options s r \<longleftrightarrow> sq_ControlID r = q_ID (sel_query s) \<and> sq_PackRef r = canonicalPackRef (Some (sel_pack s)) \<and>
     (sq_Passed r \<longleftrightarrow> sq_Error r = None \<and> list_all (\<lambda>c. cr_Status c = ''PASS'') (sq_Rows r)) \<and>
     (sq_Error r \<noteq> None \<or> eo_DryRun options \<longrightarrow> sq_Rows r = []) \<and> sq_ResourceCount r = int (length (sq_Rows r)) \<and>
     sq_FailedResources r = map failed_resource (filter (\<lambda>c. cr_Status c \<noteq> ''PASS'') (sq_Rows r)) \<and>
     list_all (\<lambda>c. isValidComplianceStatus (cr_Status c) \<and> cr_ResourceID c \<noteq> []) (sq_Rows r)"

lemma upper_status: "isValidComplianceStatus s \<Longrightarrow> strings_ToUpper s = s"
  by (auto simp: isValidComplianceStatus_def strings_ToUpper_def upper_char_def)

lemma record_rows_loop_eq:
  "record_rows_loop rows r = r\<lparr>sq_Passed := sq_Passed r \<and> list_all (\<lambda>c. strings_ToUpper (cr_Status c) = ''PASS'') rows,
     sq_FailedResources := sq_FailedResources r @ map failed_resource (filter (\<lambda>c. strings_ToUpper (cr_Status c) \<noteq> ''PASS'') rows)\<rparr>"
  by (induction rows arbitrary: r) auto

lemma ExecuteQuery_rows:
  assumes "fst (ExecuteQuery env q p) = Inr cs"
  shows "list_all (\<lambda>c. isValidComplianceStatus (cr_Status c) \<and> cr_ResourceID c \<noteq> []) cs"
proof -
  obtain result where "convertToComplianceResults q (ex_now env) result = Inr cs"
    using assms by (auto simp: ExecuteQuery_def split: sum.splits prod.splits)
  from convertToComplianceResults_typed[OF this] show ?thesis
    by (auto simp: list_all2_conv_all_nth list_all_length typed_result_def)
qed

lemma run_selection_ok: "control_result_ok options s (run_selection env options s)"
proof (cases "eo_DryRun options")
  case True
  then show ?thesis
    by (cases "dryRunQuery env (sel_query s) (parametersWithDefaults (sel_pack s) (eo_Parameters options))")
       (simp_all add: run_selection_def control_result_ok_def selection_result_def Let_def)
next
  case False
  show ?thesis
  proof (cases "fst (ExecuteQuery env (sel_query s) (parametersWithDefaults (sel_pack s) (eo_Parameters options)))")
    case (Inl err)
    with False show ?thesis by (simp add: run_selection_def control_result_ok_def selection_result_def Let_def)
  next
    case (Inr rows)
    have v: "list_all (\<lambda>c. isValidComplianceStatus (cr_Status c) \<and> cr_ResourceID c \<noteq> []) rows" by (rule ExecuteQuery_rows[OF Inr])
    then have u: "strings_ToUpper (cr_Status c) = cr_Status c" if "c \<in> set rows" for c
      using that by (auto simp: list_all_iff upper_status)
    then have "list_all (\<lambda>c. strings_ToUpper (cr_Status c) = ''PASS'') rows = list_all (\<lambda>c. cr_Status c = ''PASS'') rows"
      by (simp add: list_all_iff)
    moreover have "filter (\<lambda>c. strings_ToUpper (cr_Status c) \<noteq> ''PASS'') rows = filter (\<lambda>c. cr_Status c \<noteq> ''PASS'') rows"
      by (rule filter_cong) (simp_all add: u)
    ultimately show ?thesis using False Inr v
      by (simp add: run_selection_def control_result_ok_def selection_result_def recordComplianceRows_def record_rows_loop_eq Let_def)
  qed
qed

lemma execute_loop_Inr:
  "execute_loop env cancelled options i ss out = Inr results \<longleftrightarrow>
     (\<forall>j < length ss. cancelled (i + j) = None) \<and>
     results = out @ map (\<lambda>(j, s). run_selection (env j) options s) (List.enumerate i ss)"
proof (induction ss arbitrary: i out)
  case (Cons s ss)
  have "(\<forall>j < Suc (length ss). cancelled (i + j) = None) \<longleftrightarrow> cancelled i = None \<and> (\<forall>j < length ss. cancelled (Suc i + j) = None)"
    by (auto simp: All_less_Suc2)
  with Cons[of "Suc i" "out @ [run_selection (env i) options s]"] show ?case by (auto split: option.split)
qed auto

text \<open>
  C38. One failing control does not hide another. Take the loader of an executor: the one \<open>NewExecutor\<close> builds
  (\<open>new_loader_lives\<close>), after any loads, over files that stay as they are and in which no pack on disk and no
  embedded pack read a query from the same path (see C26; true of the paths of \<open>NewPackLoader\<close> when no
  namespace and no query file climbs). Then a run never panics and leaves such a loader. Results are returned
  exactly when the selection found queries and the context lived on; then there is one result per selected
  query, in order, each the outcome of that query alone: it passed exactly if its query ran without an error and
  every row has status PASS, it lists each row that does not, and an error leaves it without rows. The selection
  is a query that answers to the named control, or, with none named, all enabled queries with the tags of the
  wanted packs, which succeeds if all of them load.
\<close>

theorem Execute_isolates_errors:
  assumes "sources_apart (run_loader renv) paths emb" "loader_lives (run_loader renv) paths emb l"
  shows "\<exists>res l' selected. Executor_Execute renv env cancelled options l = Some (res, l') \<and> loader_lives (run_loader renv) paths emb l' \<and>
    (selected = [] \<or> (\<exists>j < length selected. cancelled j \<noteq> None) \<longleftrightarrow> isl res) \<and>
    list_all (selection_ok renv paths emb options) selected \<and>
    (\<forall>results. res = Inr results \<longrightarrow>
       results = map (\<lambda>(j, s). run_selection (env j) options s) (List.enumerate 0 selected) \<and>
       list_all2 (control_result_ok options) selected results) \<and>
    (eo_ControlID options = [] \<and> list_all (loadable (run_loader renv) paths emb packDepthMax) (wanted_packs renv options l) \<longrightarrow>
       (\<exists>packs. list_all2 (stands_for (run_loader renv) paths emb) (wanted_packs renv options l) packs \<and>
          selected = concat (map (\<lambda>p. pack_selections p (eo_Tags options)) packs)))"
proof -
  obtain sel l' where s: "selectQueries renv options l = Some (sel, l')" "loader_lives (run_loader renv) paths emb l'"
      "\<And>out. sel = Inr out \<Longrightarrow> list_all (selection_ok renv paths emb options) out \<and>
       (eo_ControlID options = [] \<longrightarrow> (\<exists>packs. list_all2 (stands_for (run_loader renv) paths emb) (wanted_packs renv options l) packs \<and>
          out = concat (map (\<lambda>p. pack_selections p (eo_Tags options)) packs)))"
      "eo_ControlID options = [] \<and> list_all (loadable (run_loader renv) paths emb packDepthMax) (wanted_packs renv options l) \<longrightarrow>
       (\<exists>out. sel = Inr out)"
    using selectQueries_returns[OF assms, of options] by blast
  show ?thesis
  proof (cases sel)
    case (Inl err)
    with s have "Executor_Execute renv env cancelled options l = Some (Inl (SelectionFailed err), l')" by (simp add: Executor_Execute_def)
    with s Inl show ?thesis by (intro exI[of _ "Inl (SelectionFailed err)"] exI[of _ l'] exI[of _ "[]"]) auto
  next
    case (Inr out)
    define res where "res = (if out = [] then Inl (SelectionFailed NothingMatched) else execute_loop env cancelled options 0 out [])"
    have e: "Executor_Execute renv env cancelled options l = Some (res, l')"
      using s(1) Inr by (simp add: Executor_Execute_def res_def)
    have iff: "res = Inr results \<longleftrightarrow> out \<noteq> [] \<and> (\<forall>j < length out. cancelled j = None) \<and>
        results = map (\<lambda>(j, s). run_selection (env j) options s) (List.enumerate 0 out)" for results
      by (simp add: res_def execute_loop_Inr)
    have isl: "isl res \<longleftrightarrow> out = [] \<or> (\<exists>j < length out. cancelled j \<noteq> None)"
      using iff by (cases res) auto
    have ok: "list_all2 (control_result_ok options) out (map (\<lambda>(j, s). run_selection (env j) options s) (List.enumerate 0 out))"
      by (simp add: list_all2_conv_all_nth nth_enumerate_eq run_selection_ok)
    from e s(2) s(3)[OF Inr] isl iff ok show ?thesis
      by (intro exI[of _ res] exI[of _ l'] exI[of _ out]) auto
  qed
qed

subsection \<open>An instance\<close>

definition demo_run_env :: run_env where
  "demo_run_env = \<lparr>run_loader = demo_default_env, run_walk = (\<lambda>_. None), run_embedded = []\<rparr>"

definition demo_run_options :: ExecuteOptions where
  "demo_run_options = \<lparr>eo_ControlID = [], eo_PackName = ''app'', eo_Tags = [], eo_Parameters = Map.empty, eo_DryRun = False\<rparr>"

lemma demo_app_queries: "(case locate demo_default_env default_paths True ''app'' of
     Inl _ \<Rightarrow> None
   | Inr (m, p) \<Rightarrow> map_option (\<lambda>pack. map q_ID (filter q_Enabled (pk_Queries pack))) (build_pack demo_default_env m p)) = Some [''Q1'']"
  by code_simp

lemma demo_stands_for:
  assumes "stands_for demo_default_env default_paths True ''app'' pack"
  shows "map q_ID (filter q_Enabled (pk_Queries pack)) = [''Q1'']"
proof -
  obtain m p b where b: "locate demo_default_env default_paths True ''app'' = Inr (m, p)" "build_pack demo_default_env m p = Some b"
      "stamp 0 b = stamp 0 pack"
    using assms by (auto simp: stands_for_def split: sum.splits)
  from b(3) have "pk_Queries (stamp 0 b) = pk_Queries (stamp 0 pack)" by simp
  then have "pk_Queries b = pk_Queries pack" by (simp add: stamp_def)
  with demo_app_queries b show ?thesis by simp
qed

text \<open>The executor with the loader it is built with, whose pack lies below the working directory.\<close>

theorem Execute_isolates_errors_witness:
  "\<exists>results l'. Executor_Execute demo_run_env (\<lambda>_. demo_exec_env) (\<lambda>_. None) demo_run_options (NewPackLoader ''/home/u'') = Some (Inr results, l') \<and>
     map sq_ControlID results = [''Q1'']"
proof -
  let ?l = "NewPackLoader ''/home/u''" and ?lenv = "run_loader demo_run_env"
  have l: "sources_apart ?lenv default_paths True" "loader_lives ?lenv default_paths True ?l"
    using demo_default_apart new_loader_lives by (simp_all add: demo_run_env_def default_paths_def)
  have w: "eo_ControlID demo_run_options = []" "eo_Tags demo_run_options = []" "wanted_packs demo_run_env demo_run_options ?l = [''app'']"
      "list_all (loadable ?lenv default_paths True packDepthMax) [''app'']"
    using demo_default_loadable by (simp_all add: demo_run_options_def demo_run_env_def wanted_packs_def)
  obtain res l' selected where e: "Executor_Execute demo_run_env (\<lambda>_. demo_exec_env) (\<lambda>_. None) demo_run_options ?l = Some (res, l')"
      "selected = [] \<or> (\<exists>j < length selected. (\<lambda>_. None :: string option) j \<noteq> None) \<longleftrightarrow> isl res"
      "\<forall>results. res = Inr results \<longrightarrow>
         results = map (\<lambda>(j, s). run_selection ((\<lambda>_. demo_exec_env) j) demo_run_options s) (List.enumerate 0 selected) \<and>
         list_all2 (control_result_ok demo_run_options) selected results"
      "eo_ControlID demo_run_options = [] \<and> list_all (loadable ?lenv default_paths True packDepthMax)
           (wanted_packs demo_run_env demo_run_options ?l) \<longrightarrow>
         (\<exists>packs. list_all2 (stands_for ?lenv default_paths True) (wanted_packs demo_run_env demo_run_options ?l) packs \<and>
            selected = concat (map (\<lambda>p. pack_selections p (eo_Tags demo_run_options)) packs))"
    using Execute_isolates_errors[OF l, of "\<lambda>_. demo_exec_env" "\<lambda>_. None" demo_run_options] by blast
  from e(4) w obtain packs where ps: "list_all2 (stands_for demo_default_env default_paths True) [''app''] packs"
      "selected = concat (map (\<lambda>p. pack_selections p []) packs)"
    by (auto simp: demo_run_env_def)
  from ps(1) obtain pack where p: "packs = [pack]" "stands_for demo_default_env default_paths True ''app'' pack"
    by (auto simp: list_all2_Cons1)
  from p ps(2) have ids: "map (\<lambda>s. q_ID (sel_query s)) selected = [''Q1'']"
    using demo_stands_for[OF p(2)] by (simp add: pack_selections_def matchesTags_def comp_def)
  then obtain results where r: "res = Inr results" using e(2) by (cases res) auto
  from e(3) r have "list_all2 (control_result_ok demo_run_options) selected results" by blast
  then have "map sq_ControlID results = map (\<lambda>s. q_ID (sel_query s)) selected"
    by (induction rule: list_all2_induct) (auto simp: control_result_ok_def)
  with e(1) r ids show ?thesis by auto
qed

end
