(* ===== verification/History.thy ===== *)
theory History imports Keyed_Table Data_Types "HOL-Library.Product_Lexorder" "HOL-Library.Multiset" begin

text \<open>
  The read side of internal/data: history.go (stored scans, the scan to compare with, stored observations),
  scans.go (recent scans), inventory.go and relationships.go (filtered, paged listings). A table is the list
  of its rows, a NULL is \<open>None\<close>; the queries are written as what their SQL says of those rows, ordered by
  keys that tell any two rows apart. The scan and observation records are in theory Data_Types.
\<close>

subsection \<open>Stored scans\<close>

record scan_row =
  srow_id :: string
  srow_provider :: string
  srow_services :: string
  srow_regions :: string
  srow_scope_key :: "string option"
  srow_status :: string
  srow_snapshot_complete :: "bool option"
  srow_start :: timestamp
  srow_end :: "timestamp option"
  srow_total :: int
  srow_new :: int
  srow_updated :: int
  srow_deleted :: int
  srow_duration_ms :: "int option"

definition COALESCE :: "'a option \<Rightarrow> 'a \<Rightarrow> 'a" where
  "COALESCE v d = (case v of None \<Rightarrow> d | Some x \<Rightarrow> x)"

definition scan_record :: "scan_row \<Rightarrow> ScanRecord" where
  "scan_record r = \<lparr>scan_ID = srow_id r, scan_Provider = srow_provider r, scan_ServicesJSON = srow_services r,
     scan_ScopesJSON = srow_regions r, scan_ScopeKey = COALESCE (srow_scope_key r) [], scan_Status = srow_status r,
     scan_SnapshotComplete = COALESCE (srow_snapshot_complete r) False, scan_StartedAt = srow_start r,
     scan_EndedAt = COALESCE (srow_end r) (srow_start r), scan_TotalResources = srow_total r, scan_NewResources = srow_new r,
     scan_UpdatedResources = srow_updated r, scan_DeletedResources = srow_deleted r\<rparr>"

text \<open>\<open>ORDER BY scan_start_time DESC, id DESC\<close>.\<close>

definition newest_first :: "scan_row list \<Rightarrow> scan_row list" where
  "newest_first rows = rev (sort_key (\<lambda>r. (srow_start r, srow_id r)) rows)"

definition ListScans :: "scan_row list \<Rightarrow> string \<Rightarrow> int \<Rightarrow> ScanRecord list" where
  "ListScans t provider limit = (let limit = (if limit \<le> 0 then 50 else limit) in
     map scan_record (take (nat limit) (newest_first (filter (\<lambda>r. provider = [] \<or> srow_provider r = provider) t))))"

text \<open>\<open>None\<close> is \<open>sql.ErrNoRows\<close>.\<close>

definition GetScan :: "scan_row list \<Rightarrow> string \<Rightarrow> ScanRecord option" where
  "GetScan t i = find (\<lambda>r. scan_ID r = i) (ListScans t [] 1000000)"

text \<open>Only rows whose flag is TRUE, not NULL, are complete.\<close>

definition complete_row :: "scan_row \<Rightarrow> bool" where
  "complete_row r \<longleftrightarrow> srow_snapshot_complete r = Some True \<and> srow_status r = ''completed''"

definition newest_id :: "scan_row list \<Rightarrow> string option" where
  "newest_id rows = (case newest_first rows of [] \<Rightarrow> None | r # _ \<Rightarrow> Some (srow_id r))"

definition LatestCompleteScan :: "scan_row list \<Rightarrow> string \<Rightarrow> ScanRecord option" where
  "LatestCompleteScan t provider = (case newest_id (filter (\<lambda>r. srow_provider r = provider \<and> complete_row r) t) of
     None \<Rightarrow> None | Some i \<Rightarrow> GetScan t i)"

definition comparable_row :: "ScanRecord \<Rightarrow> scan_row \<Rightarrow> bool" where
  "comparable_row scan r \<longleftrightarrow> srow_provider r = scan_Provider scan \<and> srow_scope_key r = Some (scan_ScopeKey scan) \<and>
     complete_row r \<and> srow_id r \<noteq> scan_ID scan \<and> srow_start r \<le> scan_StartedAt scan"

definition PreviousComparableScan :: "scan_row list \<Rightarrow> ScanRecord \<Rightarrow> ScanRecord option" where
  "PreviousComparableScan t scan = (case newest_id (filter (comparable_row scan) t) of
     None \<Rightarrow> None | Some i \<Rightarrow> GetScan t i)"

subsection \<open>Stored observations\<close>

definition Observations :: "Observation list \<Rightarrow> string \<Rightarrow> Observation list" where
  "Observations t scanID = sort_key (\<lambda>o'. (obs_Provider o', obs_ResourceID o')) (filter (\<lambda>o'. obs_ScanID o' = scanID) t)"

record RelationshipObservation =
  ro_ScanID :: string
  ro_Provider :: string
  ro_FromID :: string
  ro_ToID :: string
  ro_Type :: string
  ro_Subtype :: string
  ro_Properties :: string
  ro_FromType :: string
  ro_ToType :: string
  ro_Direction :: string

text \<open>Relationships of one pair of resources have no fixed order: the table's is kept.\<close>

definition RelationshipObservations :: "RelationshipObservation list \<Rightarrow> string \<Rightarrow> RelationshipObservation list" where
  "RelationshipObservations t scanID = sort_key (\<lambda>r. (ro_Provider r, ro_FromID r, ro_ToID r)) (filter (\<lambda>r. ro_ScanID r = scanID) t)"

subsection \<open>Recent scans\<close>

text \<open>Scans that started together have no fixed order: the table's is kept.\<close>

record ScanSummary =
  sum_ID :: string
  sum_Label :: string
  sum_StartedAt :: timestamp
  sum_Resources :: int
  sum_Duration :: int

text \<open>The product with a million nanoseconds wraps.\<close>

definition durationFromMillis :: "int option \<Rightarrow> int" where
  "durationFromMillis millis = (case millis of
     None \<Rightarrow> 0
   | Some ms \<Rightarrow> if ms \<le> 0 then 0 else wrap_int64 (ms * 1000000))"

text \<open>A table before the unified schema has a service and a region and another name for the time.\<close>

record legacy_row =
  leg_id :: string
  leg_service :: string
  leg_region :: string
  leg_time :: timestamp
  leg_total :: int
  leg_duration_ms :: "int option"

datatype scan_table = UnifiedScans "scan_row list" | LegacyScans "legacy_row list" | OtherScans

definition recentUnifiedScans :: "scan_row list \<Rightarrow> int \<Rightarrow> ScanSummary list" where
  "recentUnifiedScans t limit = map (\<lambda>r. \<lparr>sum_ID = srow_id r, sum_Label = srow_provider r, sum_StartedAt = srow_start r,
     sum_Resources = srow_total r, sum_Duration = durationFromMillis (srow_duration_ms r)\<rparr>)
     (take (nat limit) (sort_key (\<lambda>r. - srow_start r) t))"

definition recentLegacyScans :: "legacy_row list \<Rightarrow> int \<Rightarrow> ScanSummary list" where
  "recentLegacyScans t limit = map (\<lambda>r. \<lparr>sum_ID = leg_id r, sum_Label = strings_TrimSpace (leg_service r @ '' '' @ leg_region r),
     sum_StartedAt = leg_time r, sum_Resources = leg_total r, sum_Duration = durationFromMillis (leg_duration_ms r)\<rparr>)
     (take (nat limit) (sort_key (\<lambda>r. - leg_time r) t))"

definition RecentScans :: "scan_table \<Rightarrow> int \<Rightarrow> ScanSummary list" where
  "RecentScans t limit = (let limit = (if limit \<le> 0 then 5 else limit) in
     case t of UnifiedScans rows \<Rightarrow> recentUnifiedScans rows limit | LegacyScans rows \<Rightarrow> recentLegacyScans rows limit | OtherScans \<Rightarrow> [])"

subsection \<open>Filtered and paged listings\<close>

record Page =
  page_Limit :: int
  page_Offset :: int

definition page_rows :: "Page \<Rightarrow> 'a list \<Rightarrow> 'a list" where
  "page_rows page rows =
     (let limit = (if page_Limit page \<le> 0 then 200 else page_Limit page);
          limit = (if limit > 1000 then 1000 else limit);
          offset = (if page_Offset page < 0 then 0 else page_Offset page)
      in take (nat limit) (drop (nat offset) rows))"

record stored_resource =
  stored_provider :: string
  stored_id :: string
  stored_name :: "string option"
  stored_type :: "string option"
  stored_service :: "string option"
  stored_location :: "string option"
  stored_account :: "string option"
  stored_identifier :: "string option"
  stored_parent :: "string option"

record inventory_resource =
  inv_Provider :: string
  inv_ID :: string
  inv_Name :: string
  inv_Type :: string
  inv_Service :: string
  inv_Location :: string
  inv_Account :: string
  inv_ARN :: string
  inv_ParentID :: string

record InventoryFilter =
  ifilter_Provider :: string
  ifilter_Service :: string
  ifilter_Type :: string
  ifilter_Location :: string

definition inventory_match :: "InventoryFilter \<Rightarrow> stored_resource \<Rightarrow> bool" where
  "inventory_match f r \<longleftrightarrow> (ifilter_Provider f = [] \<or> stored_provider r = ifilter_Provider f) \<and>
     (ifilter_Service f = [] \<or> stored_service r = Some (ifilter_Service f)) \<and>
     (ifilter_Type f = [] \<or> stored_type r = Some (ifilter_Type f)) \<and>
     (ifilter_Location f = [] \<or> stored_location r = Some (ifilter_Location f))"

definition inventory_record :: "stored_resource \<Rightarrow> inventory_resource" where
  "inventory_record r = \<lparr>inv_Provider = stored_provider r, inv_ID = stored_id r, inv_Name = COALESCE (stored_name r) [],
     inv_Type = COALESCE (stored_type r) [], inv_Service = COALESCE (stored_service r) [], inv_Location = COALESCE (stored_location r) [],
     inv_Account = COALESCE (stored_account r) [], inv_ARN = COALESCE (stored_identifier r) [], inv_ParentID = COALESCE (stored_parent r) []\<rparr>"

definition Inventory_Count :: "stored_resource list \<Rightarrow> InventoryFilter \<Rightarrow> int" where
  "Inventory_Count t f = int (length (filter (inventory_match f) t))"

definition Inventory_List :: "stored_resource list \<Rightarrow> InventoryFilter \<Rightarrow> Page \<Rightarrow> inventory_resource list" where
  "Inventory_List t f page = map inventory_record (page_rows page
     (sort_key (\<lambda>r. (stored_provider r, stored_id r)) (filter (inventory_match f) t)))"

record stored_relationship =
  srel_provider :: string
  srel_from :: string
  srel_to :: string
  srel_type :: string
  srel_subtype :: "string option"
  srel_direction :: "string option"
  srel_from_type :: "string option"
  srel_to_type :: "string option"
  srel_properties :: "string option"

record inventory_relationship =
  irel_Provider :: string
  irel_FromID :: string
  irel_ToID :: string
  irel_Type :: string
  irel_Subtype :: string
  irel_Direction :: string
  irel_FromType :: string
  irel_ToType :: string
  irel_Properties :: string

record RelationshipFilter =
  rfilter_Provider :: string
  rfilter_Type :: string
  rfilter_ResourceID :: string
  rfilter_Direction :: string

definition relationship_match :: "RelationshipFilter \<Rightarrow> stored_relationship \<Rightarrow> bool" where
  "relationship_match f r \<longleftrightarrow> (rfilter_Provider f = [] \<or> srel_provider r = rfilter_Provider f) \<and>
     (rfilter_Type f = [] \<or> srel_type r = rfilter_Type f) \<and>
     (rfilter_ResourceID f = [] \<or>
      (rfilter_Direction f = ''outbound'' \<and> srel_from r = rfilter_ResourceID f) \<or>
      (rfilter_Direction f = ''inbound'' \<and> srel_to r = rfilter_ResourceID f) \<or>
      (rfilter_Direction f = [] \<and> (srel_from r = rfilter_ResourceID f \<or> srel_to r = rfilter_ResourceID f)))"

definition relationship_record :: "stored_relationship \<Rightarrow> inventory_relationship" where
  "relationship_record r = \<lparr>irel_Provider = srel_provider r, irel_FromID = srel_from r, irel_ToID = srel_to r, irel_Type = srel_type r,
     irel_Subtype = COALESCE (srel_subtype r) [], irel_Direction = COALESCE (srel_direction r) [],
     irel_FromType = COALESCE (srel_from_type r) [], irel_ToType = COALESCE (srel_to_type r) [],
     irel_Properties = COALESCE (srel_properties r) []\<rparr>"

definition Relationships_List :: "stored_relationship list \<Rightarrow> RelationshipFilter \<Rightarrow> Page \<Rightarrow> string + inventory_relationship list" where
  "Relationships_List t f page =
     (if rfilter_Direction f \<noteq> [] \<and> rfilter_Direction f \<noteq> ''outbound'' \<and> rfilter_Direction f \<noteq> ''inbound''
      then Inl (''unknown relationship direction '' @ rfilter_Direction f)
      else Inr (map relationship_record (page_rows page
        (sort_key (\<lambda>r. (srel_provider r, srel_from r, srel_to r, srel_type r)) (filter (relationship_match f) t)))))"

subsection \<open>The scan a query finds\<close>

text \<open>Ids are the primary key, and the table is no longer than the listing \<open>GetScan\<close> searches.\<close>

definition scans_ok :: "scan_row list \<Rightarrow> bool" where
  "scans_ok t \<longleftrightarrow> distinct (map srow_id t) \<and> length t \<le> 1000000"

definition scan_age :: "scan_row \<Rightarrow> timestamp \<times> string" where
  "scan_age r = (srow_start r, srow_id r)"

lemma newest_first_set [simp]: "set (newest_first rows) = set rows"
  by (simp add: newest_first_def)

lemma newest_id_Some: "newest_id rows = Some i \<Longrightarrow> \<exists>r \<in> set rows. srow_id r = i \<and> (\<forall>r' \<in> set rows. scan_age r' \<le> scan_age r)"
proof -
  assume i: "newest_id rows = Some i"
  then obtain r rs where r: "newest_first rows = r # rs" "srow_id r = i" by (auto simp: newest_id_def split: list.splits)
  have "sorted (map scan_age (rev (newest_first rows)))"
    unfolding newest_first_def rev_rev_ident scan_age_def by (rule sorted_sort_key)
  then have "\<forall>r' \<in> set rs. scan_age r' \<le> scan_age r" unfolding r(1) by (simp add: sorted_append)
  moreover have "set rows = insert r (set rs)" using newest_first_set[of rows] r(1) by simp
  ultimately show ?thesis using r(2) by auto
qed

lemma newest_id_None: "newest_id rows = None \<longleftrightarrow> rows = []"
  using newest_first_set[of rows] by (cases "newest_first rows") (auto simp: newest_id_def)

lemma GetScan_Some:
  assumes "scans_ok t" "r \<in> set t"
  shows "GetScan t (srow_id r) = Some (scan_record r)"
proof -
  have "length (newest_first t) = length t" "mset (newest_first t) = mset t" by (simp_all add: newest_first_def)
  with assms(1) have l: "ListScans t [] 1000000 = map scan_record (newest_first t)" and d: "distinct (map srow_id (newest_first t))"
    by (simp_all add: ListScans_def scans_ok_def) (metis distinct_map mset_eq_imp_distinct_iff mset_eq_setD)
  have "find (\<lambda>x. scan_ID x = i) (map scan_record rows) = map_option scan_record (find (\<lambda>r. srow_id r = i) rows)" for i rows
    by (induction rows) (auto simp: scan_record_def)
  with l find_distinct[OF d, of r] assms(2) show ?thesis by (simp add: GetScan_def)
qed

lemma newest_scan:
  assumes "scans_ok t" "newest_id (filter P t) = Some i" "GetScan t i = Some s"
  shows "\<exists>r \<in> set t. P r \<and> s = scan_record r \<and> (\<forall>r' \<in> set t. P r' \<longrightarrow> scan_age r' \<le> scan_age r)"
  using newest_id_Some[OF assms(2)] GetScan_Some[OF assms(1)] assms(3) by fastforce

lemma PreviousComparableScan_newest:
  assumes "scans_ok t" "PreviousComparableScan t scan = Some s"
  shows "\<exists>r \<in> set t. comparable_row scan r \<and> s = scan_record r \<and> (\<forall>r' \<in> set t. comparable_row scan r' \<longrightarrow> scan_age r' \<le> scan_age r)"
  using assms(2) by (auto simp: PreviousComparableScan_def intro: newest_scan[OF assms(1)] split: option.splits)

lemma LatestCompleteScan_newest:
  assumes "scans_ok t" "LatestCompleteScan t provider = Some s"
  shows "\<exists>r \<in> set t. srow_provider r = provider \<and> complete_row r \<and> s = scan_record r \<and>
    (\<forall>r' \<in> set t. srow_provider r' = provider \<and> complete_row r' \<longrightarrow> scan_age r' \<le> scan_age r)"
  using assms(2) newest_scan[OF assms(1), of "\<lambda>r. srow_provider r = provider \<and> complete_row r"]
  by (auto simp: LatestCompleteScan_def split: option.splits)

text \<open>Consecutive pages are consecutive rows.\<close>

lemma page_rows_consecutive:
  assumes "0 < n" "n \<le> 1000" "0 \<le> k"
  shows "take (nat k) rows @ page_rows \<lparr>page_Limit = n, page_Offset = k\<rparr> rows = take (nat (k + n)) rows"
  using assms by (simp add: page_rows_def take_add nat_add_distrib)

end
