(* ===== verification/Drift.thy ===== *)
theory Drift imports History Slice_Sort begin

text \<open>
  internal/app/drift/drift.go: what changed between two scans. The maps from identity to observation are
  ranged over in any order, and \<open>sort.Slice\<close> is any sorter (theory Slice_Sort). The database is the tables
  of scans and observations (theory History).
\<close>

datatype ChangeType = Added | Modified | Removed

fun ChangeType_text :: "ChangeType \<Rightarrow> string" where
  "ChangeType_text Added = ''added''"
| "ChangeType_text Modified = ''modified''"
| "ChangeType_text Removed = ''removed''"

text \<open>A change type is a string, and ordered as one.\<close>

instantiation ChangeType :: linorder
begin

definition less_eq_ChangeType :: "ChangeType \<Rightarrow> ChangeType \<Rightarrow> bool" where
  "less_eq_ChangeType a b \<longleftrightarrow> ChangeType_text a \<le> ChangeType_text b"

definition less_ChangeType :: "ChangeType \<Rightarrow> ChangeType \<Rightarrow> bool" where
  "less_ChangeType a b \<longleftrightarrow> ChangeType_text a < ChangeType_text b"

instance
proof
  fix a b :: ChangeType
  show "a \<le> b \<Longrightarrow> b \<le> a \<Longrightarrow> a = b"
    by (cases a; cases b) (simp_all add: less_eq_ChangeType_def)
qed (auto simp: less_eq_ChangeType_def less_ChangeType_def)

end

record Change =
  ch_Type :: ChangeType
  ch_Provider :: string
  ch_ResourceID :: string
  ch_ChangedFields :: "string list"
  ch_Before :: "Observation option"
  ch_After :: "Observation option"

definition identity_key :: "Observation \<Rightarrow> string" where
  "identity_key x = obs_Provider x @ [CHR 0x00] @ obs_ResourceID x"

definition by_identity :: "Observation list \<Rightarrow> (string, Observation) table" where
  "by_identity items = foldl (\<lambda>t x. AList.update (identity_key x) x t) [] items"

definition observed_fields :: "(string \<times> (Observation \<Rightarrow> string)) list" where
  "observed_fields = [(''name'', obs_Name), (''type'', obs_Type), (''service'', obs_Service), (''location'', obs_Location),
     (''account_id'', obs_AccountID), (''arn'', obs_ARN), (''parent_id'', obs_ParentID), (''tags'', obs_Tags),
     (''attributes'', obs_Attributes), (''raw_data'', obs_RawData)]"

definition changedFields :: "Observation \<Rightarrow> Observation \<Rightarrow> string list" where
  "changedFields before after = map fst (filter (\<lambda>(name, fld). fld before \<noteq> fld after) observed_fields)"

definition removed_change :: "Observation \<Rightarrow> Change" where
  "removed_change old = \<lparr>ch_Type = Removed, ch_Provider = obs_Provider old, ch_ResourceID = obs_ResourceID old,
     ch_ChangedFields = [], ch_Before = Some old, ch_After = None\<rparr>"

definition modified_change :: "Observation \<Rightarrow> Observation \<Rightarrow> Change" where
  "modified_change old current = \<lparr>ch_Type = Modified, ch_Provider = obs_Provider old, ch_ResourceID = obs_ResourceID old,
     ch_ChangedFields = changedFields old current, ch_Before = Some old, ch_After = Some current\<rparr>"

definition added_change :: "Observation \<Rightarrow> Change" where
  "added_change current = \<lparr>ch_Type = Added, ch_Provider = obs_Provider current, ch_ResourceID = obs_ResourceID current,
     ch_ChangedFields = [], ch_Before = None, ch_After = Some current\<rparr>"

text \<open>The two loops.\<close>

definition left_change :: "(string, Observation) table \<Rightarrow> string \<times> Observation \<Rightarrow> Change option" where
  "left_change right kx = (case map_of right (fst kx) of
     None \<Rightarrow> Some (removed_change (snd kx))
   | Some current \<Rightarrow> if obs_SemanticHash (snd kx) \<noteq> obs_SemanticHash current
       then Some (modified_change (snd kx) current) else None)"

definition right_change :: "(string, Observation) table \<Rightarrow> string \<times> Observation \<Rightarrow> Change option" where
  "right_change left kx = (case map_of left (fst kx) of None \<Rightarrow> Some (added_change (snd kx)) | Some _ \<Rightarrow> None)"

definition change_less :: "Change \<Rightarrow> Change \<Rightarrow> bool" where
  "change_less c d =
     (if ch_Provider c \<noteq> ch_Provider d then ch_Provider c < ch_Provider d
      else if ch_Type c \<noteq> ch_Type d then ch_Type c < ch_Type d
      else ch_ResourceID c < ch_ResourceID d)"

type_synonym map_order = "(string, Observation) table \<Rightarrow> (string, Observation) table"

definition compare :: "map_order \<Rightarrow> map_order \<Rightarrow> Change slice_sorter \<Rightarrow> Observation list \<Rightarrow> Observation list \<Rightarrow> Change list" where
  "compare order_left order_right sort_Slice before after =
     (let left = by_identity before; right = by_identity after in
      sort_Slice change_less (List.map_filter (left_change right) (order_left left) @ List.map_filter (right_change left) (order_right right)))"

subsection \<open>Comparing two scans\<close>

record DriftRequest =
  dreq_Provider :: string
  dreq_FromScan :: string
  dreq_ToScan :: string

record DriftResult =
  drift_From :: ScanRecord
  drift_To :: ScanRecord
  drift_Comparable :: bool
  drift_Incomplete :: bool
  drift_Changes :: "Change list"

datatype drift_error = NoTarget | TargetNotFound | NoBaseline string

text \<open>A missing row is the only error of the queries here; a missing \<open>--from\<close> scan is reported as a missing baseline too.\<close>

definition Drift_Run :: "map_order \<Rightarrow> map_order \<Rightarrow> Change slice_sorter \<Rightarrow> scan_row list \<Rightarrow> Observation list \<Rightarrow> DriftRequest \<Rightarrow>
    drift_error + DriftResult" where
  "Drift_Run order_left order_right sort_Slice scans observations request =
     (if dreq_ToScan request = [] \<and> dreq_Provider request = [] then Inl NoTarget
      else (case (if dreq_ToScan request \<noteq> [] then GetScan scans (dreq_ToScan request)
                  else LatestCompleteScan scans (dreq_Provider request)) of
          None \<Rightarrow> Inl TargetNotFound
        | Some to_scan \<Rightarrow> (case (if dreq_FromScan request \<noteq> [] then GetScan scans (dreq_FromScan request)
                                else PreviousComparableScan scans to_scan) of
            None \<Rightarrow> Inl (NoBaseline (scan_ID to_scan))
          | Some from_scan \<Rightarrow>
              (let comparable = scan_Provider from_scan = scan_Provider to_scan \<and> scan_ScopeKey from_scan \<noteq> [] \<and>
                     scan_ScopeKey from_scan = scan_ScopeKey to_scan
               in Inr \<lparr>drift_From = from_scan, drift_To = to_scan, drift_Comparable = comparable,
                 drift_Incomplete = (\<not> comparable \<or> \<not> scan_SnapshotComplete from_scan \<or> \<not> scan_SnapshotComplete to_scan),
                 drift_Changes = compare order_left order_right sort_Slice
                   (Observations observations (scan_ID from_scan)) (Observations observations (scan_ID to_scan))\<rparr>))))"

subsection \<open>Identities\<close>

definition observed_identity :: "Observation \<Rightarrow> string \<times> string" where
  "observed_identity x = (obs_Provider x, obs_ResourceID x)"

text \<open>What the primary key of the table promises of one scan, and no NUL in the name of a provider.\<close>

definition scan_observations :: "Observation list \<Rightarrow> bool" where
  "scan_observations xs \<longleftrightarrow> distinct (map observed_identity xs) \<and> list_all (\<lambda>x. CHR 0x00 \<notin> set (obs_Provider x)) xs"

lemma sep_join: "s \<notin> set a \<Longrightarrow> s \<notin> set c \<Longrightarrow> a @ s # b = c @ s # d \<longleftrightarrow> a = c \<and> b = d"
proof (induction a arbitrary: c)
  case Nil
  then show ?case by (cases c) auto
next
  case (Cons x a)
  then show ?case by (cases c) auto
qed

lemma identity_key_iff:
  "CHR 0x00 \<notin> set (obs_Provider x) \<Longrightarrow> CHR 0x00 \<notin> set (obs_Provider y) \<Longrightarrow>
     identity_key x = identity_key y \<longleftrightarrow> observed_identity x = observed_identity y"
  by (simp add: identity_key_def observed_identity_def sep_join)

lemma distinct_keys: "scan_observations xs \<Longrightarrow> distinct (map identity_key xs)"
  by (auto simp: scan_observations_def distinct_map inj_on_def list_all_iff identity_key_iff)

lemma by_identity_distinct: "distinct (map identity_key xs) \<Longrightarrow> by_identity xs = map (\<lambda>x. (identity_key x, x)) xs"
proof (induction xs rule: rev_induct)
  case (snoc x xs)
  then show ?case by (auto simp: by_identity_def update_new image_iff)
qed (simp add: by_identity_def)

lemma map_of_by_identity:
  assumes "scan_observations xs" "CHR 0x00 \<notin> set (obs_Provider y)"
  shows "map_of (by_identity xs) (identity_key y) = find (\<lambda>x. observed_identity x = observed_identity y) xs"
proof -
  have "map_of (map (\<lambda>x. (identity_key x, x)) zs) (identity_key y) = find (\<lambda>x. observed_identity x = observed_identity y) zs"
    if "list_all (\<lambda>x. CHR 0x00 \<notin> set (obs_Provider x)) zs" for zs
    using that
  proof (induction zs)
    case (Cons z zs)
    then have "identity_key y = identity_key z \<longleftrightarrow> observed_identity z = observed_identity y"
      using identity_key_iff[of y z] assms(2) by auto
    with Cons show ?case by auto
  qed simp
  with assms(1) show ?thesis by (simp add: by_identity_distinct distinct_keys scan_observations_def)
qed

lemma filter_distinct: "distinct (map f xs) \<Longrightarrow> filter (\<lambda>y. f y = k) xs = (case find (\<lambda>y. f y = k) xs of None \<Rightarrow> [] | Some x \<Rightarrow> [x])"
proof (induction xs)
  case (Cons x xs)
  have "filter (\<lambda>y. f y = k) xs = []" if "f x = k" using that Cons.prems by (auto simp: filter_empty_conv image_iff)
  with Cons show ?case by auto
qed simp

subsection \<open>The changes, one per identity\<close>

definition change_of :: "Observation option \<Rightarrow> Observation option \<Rightarrow> Change option" where
  "change_of before after = (case before of
     None \<Rightarrow> map_option added_change after
   | Some old \<Rightarrow> (case after of
       None \<Rightarrow> Some (removed_change old)
     | Some current \<Rightarrow> if obs_SemanticHash old \<noteq> obs_SemanticHash current then Some (modified_change old current) else None))"

definition observation_of :: "Observation list \<Rightarrow> string \<times> string \<Rightarrow> Observation option" where
  "observation_of xs k = find (\<lambda>x. observed_identity x = k) xs"

definition change_identity :: "Change \<Rightarrow> string \<times> string" where
  "change_identity c = (ch_Provider c, ch_ResourceID c)"

definition raw_changes :: "Observation list \<Rightarrow> Observation list \<Rightarrow> Change list" where
  "raw_changes before after = List.map_filter (\<lambda>x. change_of (Some x) (observation_of after (observed_identity x))) before @
     List.map_filter (\<lambda>x. if observation_of before (observed_identity x) = None then Some (added_change x) else None) after"

lemma change_identities [simp]:
  "change_identity (removed_change x) = observed_identity x" "change_identity (modified_change x y) = observed_identity x"
  "change_identity (added_change x) = observed_identity x"
  by (simp_all add: change_identity_def observed_identity_def removed_change_def modified_change_def added_change_def)

lemma change_of_identity: "change_of (Some x) b = Some c \<Longrightarrow> change_identity c = observed_identity x"
  by (auto simp: change_of_def split: option.splits if_splits)

lemma mset_map_filter: "mset xs = mset ys \<Longrightarrow> mset (List.map_filter f xs) = mset (List.map_filter f ys)"
  by (simp add: List.map_filter_def)

lemma map_filter_cong_on: "(\<And>x. x \<in> set xs \<Longrightarrow> f x = g x) \<Longrightarrow> List.map_filter f xs = List.map_filter g xs"
  by (induction xs) (auto simp: map_filter_simps split: option.split)

lemma map_filter_map: "List.map_filter f (map g xs) = List.map_filter (f \<circ> g) xs"
  by (induction xs) (auto simp: map_filter_simps split: option.split)

lemma filter_map_filter:
  "(\<And>x c. f x = Some c \<Longrightarrow> g c = h x) \<Longrightarrow> filter (\<lambda>c. g c = k) (List.map_filter f xs) = List.map_filter f (filter (\<lambda>x. h x = k) xs)"
  by (induction xs) (auto simp: map_filter_simps split: option.splits)

lemma compare_raw:
  assumes "scan_observations before" "scan_observations after"
    and "\<And>t. mset (order_left t) = mset t" "\<And>t. mset (order_right t) = mset t"
  shows "\<exists>xs. compare order_left order_right sort_Slice before after = sort_Slice change_less xs \<and> mset xs = mset (raw_changes before after)"
proof -
  let ?l = "by_identity before" and ?r = "by_identity after"
  have l: "?l = map (\<lambda>x. (identity_key x, x)) before" and r: "?r = map (\<lambda>x. (identity_key x, x)) after"
    using assms(1,2) by (simp_all add: by_identity_distinct distinct_keys)
  have nul: "x \<in> set before \<or> x \<in> set after \<Longrightarrow> CHR 0x00 \<notin> set (obs_Provider x)" for x
    using assms(1,2) by (auto simp: scan_observations_def list_all_iff)
  have 1: "List.map_filter (left_change ?r) ?l = List.map_filter (\<lambda>x. change_of (Some x) (observation_of after (observed_identity x))) before"
    unfolding l map_filter_map
    by (rule map_filter_cong_on)
       (simp add: left_change_def map_of_by_identity[OF assms(2) nul] observation_of_def change_of_def split: option.split)
  have 2: "List.map_filter (right_change ?l) ?r =
      List.map_filter (\<lambda>x. if observation_of before (observed_identity x) = None then Some (added_change x) else None) after"
    unfolding r map_filter_map
    by (rule map_filter_cong_on)
       (simp add: right_change_def map_of_by_identity[OF assms(1) nul] observation_of_def split: option.split)
  have "mset (List.map_filter (left_change ?r) (order_left ?l) @ List.map_filter (right_change ?l) (order_right ?r)) =
      mset (List.map_filter (left_change ?r) ?l @ List.map_filter (right_change ?l) ?r)"
    by (simp add: mset_map_filter[OF assms(3)] mset_map_filter[OF assms(4)])
  then show ?thesis unfolding 1 2 raw_changes_def[symmetric] by (auto simp: compare_def Let_def)
qed

lemma raw_changes_at:
  assumes "scan_observations before" "scan_observations after"
  shows "filter (\<lambda>c. change_identity c = k) (raw_changes before after) =
    (case change_of (observation_of before k) (observation_of after k) of None \<Rightarrow> [] | Some c \<Rightarrow> [c])"
proof -
  have d: "distinct (map observed_identity before)" "distinct (map observed_identity after)"
    using assms by (simp_all add: scan_observations_def)
  have f: "observation_of xs k = Some x \<Longrightarrow> observed_identity x = k" for xs x
    by (auto simp: observation_of_def find_Some_iff)
  have 1: "filter (\<lambda>c. change_identity c = k) (List.map_filter (\<lambda>x. change_of (Some x) (observation_of after (observed_identity x))) before) =
      List.map_filter (\<lambda>x. change_of (Some x) (observation_of after (observed_identity x))) (case observation_of before k of None \<Rightarrow> [] | Some x \<Rightarrow> [x])"
    by (subst filter_map_filter[where h = observed_identity])
       (auto simp: change_of_identity filter_distinct[OF d(1)] observation_of_def)
  have 2: "filter (\<lambda>c. change_identity c = k) (List.map_filter (\<lambda>x. if observation_of before (observed_identity x) = None then Some (added_change x) else None) after) =
      List.map_filter (\<lambda>x. if observation_of before (observed_identity x) = None then Some (added_change x) else None)
        (case observation_of after k of None \<Rightarrow> [] | Some x \<Rightarrow> [x])"
    by (subst filter_map_filter[where h = observed_identity])
       (auto simp: filter_distinct[OF d(2)] observation_of_def split: if_splits)
  show ?thesis
    unfolding raw_changes_def filter_append 1 2
    using f[of before] f[of after]
    by (cases "observation_of before k"; cases "observation_of after k") (auto simp: map_filter_simps change_of_def)
qed

lemma distinct_by_filter: "(\<And>k. length (filter (\<lambda>x. g x = k) xs) \<le> 1) \<Longrightarrow> distinct (map g xs)"
proof (induction xs)
  case (Cons x xs)
  have "length (filter (\<lambda>y. g y = k) xs) \<le> 1" for k using Cons.prems[of k] by (auto split: if_splits)
  moreover have "filter (\<lambda>y. g y = g x) xs = []" using Cons.prems[of "g x"] by simp
  ultimately show ?case using Cons.IH by (auto simp: filter_empty_conv)
qed simp

lemma raw_changes_distinct:
  assumes "scan_observations before" "scan_observations after"
  shows "distinct (map change_identity (raw_changes before after))"
  by (rule distinct_by_filter) (simp add: raw_changes_at[OF assms] split: option.split)

subsection \<open>The order of the changes\<close>

lemma change_less_key: "change_less c d \<longleftrightarrow>
    (ch_Provider c, ch_Type c, ch_ResourceID c) < (ch_Provider d, ch_Type d, ch_ResourceID d)"
  by (auto simp: change_less_def)

lemma change_less_weak: "strict_weak change_less"
  unfolding strict_weak_def change_less_key by (meson less_irrefl less_trans not_less order.trans)

lemma raw_changes_comparable:
  assumes "scan_observations before" "scan_observations after" "c \<in> set (raw_changes before after)" "d \<in> set (raw_changes before after)"
    and "\<not> change_less c d" "\<not> change_less d c"
  shows "c = d"
proof -
  have "change_identity c = change_identity d" using assms(5,6) unfolding change_less_key change_identity_def by auto
  with raw_changes_distinct[OF assms(1,2)] assms(3,4) show ?thesis by (auto simp: distinct_map inj_on_def)
qed

lemma single_mset: "mset xs = mset (case o' of None \<Rightarrow> [] | Some c \<Rightarrow> [c]) \<Longrightarrow> xs = (case o' of None \<Rightarrow> [] | Some c \<Rightarrow> [c])"
  by (cases o') auto

text \<open>
  C39. The drift of two scans is exact. For observations as the table's key keeps them, whatever the order
  in which the maps are ranged over and whichever sorter is used, every identity has the one change that
  its two observations call for: removed if only the older scan has it, added if only the newer, modified
  with the fields that differ if their hashes do, and none otherwise. The changes are strictly ordered by
  provider, type and resource, so the report is one and the same list every time.
\<close>

theorem compare_exact:
  assumes "scan_observations before" "scan_observations after" "slice_sorting sort_Slice"
    and "\<And>t. mset (order_left t) = mset t" "\<And>t. mset (order_right t) = mset t"
  shows "sorted_wrt change_less (compare order_left order_right sort_Slice before after) \<and>
    (\<forall>k. filter (\<lambda>c. change_identity c = k) (compare order_left order_right sort_Slice before after) =
       (case change_of (observation_of before k) (observation_of after k) of None \<Rightarrow> [] | Some c \<Rightarrow> [c])) \<and>
    compare order_left order_right sort_Slice before after = compare id id insertion_sorter before after"
proof -
  obtain xs where xs: "compare order_left order_right sort_Slice before after = sort_Slice change_less xs"
      "mset xs = mset (raw_changes before after)"
    using compare_raw[OF assms(1,2,4,5)] by blast
  obtain ys where ys: "compare id id insertion_sorter before after = insertion_sorter change_less ys"
      "mset ys = mset (raw_changes before after)"
    using compare_raw[OF assms(1,2), of id id] by auto
  have set: "set xs = set (raw_changes before after)" using xs(2) by (metis set_mset_mset)
  have cmp: "c = d" if "c \<in> set xs" "d \<in> set xs" "\<not> change_less c d" "\<not> change_less d c" for c d
    using raw_changes_comparable[OF assms(1,2)] that unfolding set by blast
  have dist: "distinct xs"
    using raw_changes_distinct[OF assms(1,2)] xs(2) by (metis distinct_map mset_eq_imp_distinct_iff)
  have "sorted_wrt change_less (sort_Slice change_less xs)"
    by (rule slice_sorting.sort_strict[OF assms(3) change_less_weak dist cmp])
  moreover have "filter (\<lambda>c. change_identity c = k) (sort_Slice change_less xs) =
      (case change_of (observation_of before k) (observation_of after k) of None \<Rightarrow> [] | Some c \<Rightarrow> [c])" for k
    by (rule single_mset) (simp add: slice_sorting.sort_mset[OF assms(3)] xs(2) raw_changes_at[OF assms(1,2), symmetric])
  moreover have "sort_Slice change_less xs = insertion_sorter change_less ys"
    by (rule slice_sorting.sort_unique[OF assms(3) change_less_weak _ insertion_sorter_ok cmp]) (use xs ys in auto)
  ultimately show ?thesis unfolding xs(1) ys(1) by blast
qed

text \<open>Without named scans, what is compared is two complete scans of one provider and one scope.\<close>

lemma default_drift_complete:
  assumes "scans_ok scans" "dreq_FromScan request = []" "dreq_ToScan request = []"
    and "Drift_Run order_left order_right sort_Slice scans observations request = Inr r" "scan_ScopeKey (drift_To r) \<noteq> []"
  shows "drift_Comparable r \<and> \<not> drift_Incomplete r \<and> scan_Provider (drift_To r) = dreq_Provider request \<and>
    scan_StartedAt (drift_From r) \<le> scan_StartedAt (drift_To r) \<and> scan_ID (drift_From r) \<noteq> scan_ID (drift_To r)"
proof -
  note run = assms(4)[unfolded Drift_Run_def]
  obtain t where t: "LatestCompleteScan scans (dreq_Provider request) = Some t"
    using run assms(2,3) by (cases "LatestCompleteScan scans (dreq_Provider request)") (auto split: if_splits)
  obtain f where f: "PreviousComparableScan scans t = Some f"
    using run assms(2,3) t by (cases "PreviousComparableScan scans t") (auto split: if_splits)
  have "r = \<lparr>drift_From = f, drift_To = t, drift_Comparable = drift_Comparable r, drift_Incomplete = drift_Incomplete r, drift_Changes = drift_Changes r\<rparr>"
      "drift_Comparable r \<longleftrightarrow> scan_Provider f = scan_Provider t \<and> scan_ScopeKey f \<noteq> [] \<and> scan_ScopeKey f = scan_ScopeKey t"
      "drift_Incomplete r \<longleftrightarrow> \<not> drift_Comparable r \<or> \<not> scan_SnapshotComplete f \<or> \<not> scan_SnapshotComplete t"
    using run assms(2,3) t f by (auto simp: Let_def split: if_split_asm)
  then have r: "drift_To r = t" "drift_From r = f"
      "drift_Comparable r \<longleftrightarrow> scan_Provider f = scan_Provider t \<and> scan_ScopeKey f \<noteq> [] \<and> scan_ScopeKey f = scan_ScopeKey t"
      "drift_Incomplete r \<longleftrightarrow> \<not> drift_Comparable r \<or> \<not> scan_SnapshotComplete f \<or> \<not> scan_SnapshotComplete t"
    by (metis DriftResult.select_convs(1,2))+
  obtain tr where "srow_provider tr = dreq_Provider request" "complete_row tr" "t = scan_record tr"
    using LatestCompleteScan_newest[OF assms(1) t] by blast
  moreover obtain fr where "comparable_row t fr" "f = scan_record fr" using PreviousComparableScan_newest[OF assms(1) f] by blast
  ultimately show ?thesis
    using r assms(5) by (auto simp: comparable_row_def complete_row_def scan_record_def COALESCE_def)
qed

subsection \<open>An instance\<close>

definition demo_observation :: "string \<Rightarrow> string \<Rightarrow> Observation" where
  "demo_observation i h = \<lparr>obs_ScanID = ''s'', obs_Provider = ''aws'', obs_ResourceID = i, obs_Name = h, obs_Type = ''t'', obs_Service = [],
     obs_Location = [], obs_AccountID = [], obs_ARN = [], obs_ParentID = [], obs_Tags = [], obs_Attributes = [], obs_RawData = [],
     obs_SemanticHash = h, obs_ObservedAt = 0, obs_CreatedAt = None, obs_ModifiedAt = None\<rparr>"

theorem compare_exact_witness:
  "filter (\<lambda>c. change_identity c = (''aws'', ''b'')) (compare rev id insertion_sorter
     [demo_observation ''a'' ''1'', demo_observation ''b'' ''1''] [demo_observation ''b'' ''2'', demo_observation ''c'' ''1'']) =
   [modified_change (demo_observation ''b'' ''1'') (demo_observation ''b'' ''2'')]"
proof -
  have o: "scan_observations [demo_observation ''a'' ''1'', demo_observation ''b'' ''1'']"
      "scan_observations [demo_observation ''b'' ''2'', demo_observation ''c'' ''1'']"
    by (simp_all add: scan_observations_def observed_identity_def demo_observation_def)
  have c: "change_of (observation_of [demo_observation ''a'' ''1'', demo_observation ''b'' ''1''] (''aws'', ''b''))
      (observation_of [demo_observation ''b'' ''2'', demo_observation ''c'' ''1''] (''aws'', ''b'')) =
      Some (modified_change (demo_observation ''b'' ''1'') (demo_observation ''b'' ''2''))"
    by (simp add: observation_of_def change_of_def observed_identity_def demo_observation_def)
  have orders: "mset (rev t) = mset t" "mset (id t) = mset t" for t :: "(string, Observation) table" by simp_all
  from compare_exact[OF o insertion_slices.slice_sorting_axioms orders, THEN conjunct2, THEN conjunct1, rule_format, of "(''aws'', ''b'')"]
  show ?thesis unfolding c by simp
qed

end
