(* ===== verification/Provider_Manifest.thy ===== *)
theory Provider_Manifest imports Filepath begin

text \<open>
  internal/provider/manifest.go: the manifest by which a provider plugin declares itself, its validation,
  and reading it from a plugin directory. The file system is a record of the answers it gives; decoding
  JSON and YAML is part of that record.
\<close>

subsection \<open>Manifests\<close>

record StorageManifest =
  sm_Mode :: string
  sm_Table :: string

record Manifest =
  pm_SchemaVersion :: string
  pm_Name :: string
  pm_DisplayName :: string
  pm_Description :: string
  pm_Version :: string
  pm_Protocol :: int
  pm_Executable :: string
  pm_Capabilities :: "string list"
  pm_DefaultScopes :: "string list"
  pm_Storage :: StorageManifest

record ResolvedManifest =
  rm_Manifest :: Manifest
  rm_ManifestPath :: string
  rm_ExecutablePath :: string

datatype manifest_error =
    BadSchemaVersion
  | BadProviderName
  | NoManifestVersion
  | BadProtocol
  | BadExecutableName
  | NoCapabilities
  | UnknownCapability string
  | DuplicateCapability string
  | TableWithoutTableMode
  | BadTableName
  | BadStorageMode

definition ManifestSchemaVersion :: string where
  "ManifestSchemaVersion = ''1''"

definition known_capabilities :: "string list" where
  "known_capabilities = [''discover'', ''list'', ''describe'', ''schemas'', ''batch_scan'', ''stream_scan'']"

definition lower_letter :: "char \<Rightarrow> bool" where
  "lower_letter c \<longleftrightarrow> (let n = (of_char c :: nat) in 97 \<le> n \<and> n \<le> 122)"

definition letter_or_underscore :: "char \<Rightarrow> bool" where
  "letter_or_underscore c \<longleftrightarrow> lower_letter c \<or> c = CHR ''_'' \<or> (let n = (of_char c :: nat) in 65 \<le> n \<and> n \<le> 90)"

definition ascii_digit :: "char \<Rightarrow> bool" where
  "ascii_digit c \<longleftrightarrow> (let n = (of_char c :: nat) in 48 \<le> n \<and> n \<le> 57)"

text \<open>\<open>^[a-z][a-z0-9-]*$\<close> and \<open>^[A-Za-z_][A-Za-z0-9_]*$\<close>.\<close>

definition providerNamePattern :: "string \<Rightarrow> bool" where
  "providerNamePattern s \<longleftrightarrow> (case s of [] \<Rightarrow> False
     | c # cs \<Rightarrow> lower_letter c \<and> list_all (\<lambda>d. lower_letter d \<or> ascii_digit d \<or> d = CHR ''-'') cs)"

definition tableNamePattern :: "string \<Rightarrow> bool" where
  "tableNamePattern s \<longleftrightarrow> (case s of [] \<Rightarrow> False
     | c # cs \<Rightarrow> letter_or_underscore c \<and> list_all (\<lambda>d. letter_or_underscore d \<or> ascii_digit d) cs)"

fun check_capabilities :: "string list \<Rightarrow> string list \<Rightarrow> manifest_error option" where
  "check_capabilities seen [] = None"
| "check_capabilities seen (c # cs) =
     (if c \<notin> set known_capabilities then Some (UnknownCapability c)
      else if c \<in> set seen then Some (DuplicateCapability c)
      else check_capabilities (c # seen) cs)"

definition check_storage :: "StorageManifest \<Rightarrow> manifest_error option" where
  "check_storage st = (let mode = (if sm_Mode st = [] then ''generic'' else sm_Mode st) in
     if mode = ''generic'' then (if sm_Table st \<noteq> [] then Some TableWithoutTableMode else None)
     else if mode = ''table'' then (if \<not> tableNamePattern (sm_Table st) then Some BadTableName else None)
     else Some BadStorageMode)"

definition Manifest_Validate :: "Manifest \<Rightarrow> manifest_error option" where
  "Manifest_Validate m =
     (if pm_SchemaVersion m \<noteq> ManifestSchemaVersion then Some BadSchemaVersion
      else if \<not> providerNamePattern (pm_Name m) then Some BadProviderName
      else if strings_TrimSpace (pm_Version m) = [] then Some NoManifestVersion
      else if pm_Protocol m \<noteq> 2 then Some BadProtocol
      else if pm_Executable m = [] \<or> path_Base (pm_Executable m) \<noteq> pm_Executable m \<or> pm_Executable m = ''.''
        then Some BadExecutableName
      else if pm_Capabilities m = [] then Some NoCapabilities
      else (case check_capabilities [] (pm_Capabilities m) of
          Some err \<Rightarrow> Some err
        | None \<Rightarrow> check_storage (pm_Storage m)))"

subsection \<open>Reading a plugin directory\<close>

text \<open>\<open>filepath.Rel\<close> of two paths that are both absolute or both relative, and \<open>filepath.Ext\<close>.\<close>

definition path_comps :: "string \<Rightarrow> string list" where
  "path_comps p = clean_loop (filepath_IsAbs p) [] (strings_Split p (CHR ''/''))"

definition rel_path :: "string \<Rightarrow> string \<Rightarrow> string option" where
  "rel_path base targ = (if filepath_IsAbs base \<noteq> filepath_IsAbs targ then None
     else (case strip_common (path_comps base) (path_comps targ) of
       (bs, ts) \<Rightarrow> if bs = [] \<and> ts = [] then Some ''.''
         else if bs \<noteq> [] \<and> hd bs = ''..'' then None
         else Some (strings_Join (replicate (length bs) ''..'' @ ts) ''/'')))"

definition filepath_Ext :: "string \<Rightarrow> string" where
  "filepath_Ext p = (let base = last (strings_Split p (CHR ''/'')) in
     if CHR ''.'' \<in> set base then CHR ''.'' # last (strings_Split base (CHR ''.'')) else [])"

record file_info =
  fi_IsDir :: bool
  fi_IsRegular :: bool
  fi_Executable :: bool

datatype dir_listing = NoSuchDir | ReadDirFails string | DirEntries "(string \<times> bool) list"

text \<open>
  What the file system answers: \<open>os.Stat\<close> (\<open>None\<close> for a path that does not exist), \<open>os.ReadDir\<close> with
  the directory flag of each entry, \<open>os.ReadFile\<close> and \<open>filepath.EvalSymlinks\<close>; and what the decoders
  make of a file.
\<close>

datatype stat_answer = StatOK file_info | StatMissing | StatFails string

record plugin_files =
  pf_Stat :: "string \<Rightarrow> stat_answer"
  pf_ReadDir :: "string \<Rightarrow> dir_listing"
  pf_ReadFile :: "string \<Rightarrow> string + string"
  pf_EvalSymlinks :: "string \<Rightarrow> string + string"
  pf_decode_json :: "string \<Rightarrow> string + Manifest"
  pf_decode_yaml :: "string \<Rightarrow> string + Manifest"

datatype load_error =
    ReadManifest string
  | ParseJSON string
  | ParseYAML string
  | UnsupportedFormat string
  | InvalidManifest manifest_error
  | NoManifest string
  | MultipleManifests string
  | ResolveDirectory string
  | ResolveExecutable string
  | ExecutableEscapes
  | StatExecutable string
  | NotExecutable

definition parse_manifest :: "plugin_files \<Rightarrow> string \<Rightarrow> string \<Rightarrow> load_error + Manifest" where
  "parse_manifest fs path data = (let ext = filepath_Ext path; kind = strings_ToLower ext in
     if kind = ''.json'' then map_sum ParseJSON id (pf_decode_json fs data)
     else if kind = ''.yaml'' \<or> kind = ''.yml'' then map_sum ParseYAML id (pf_decode_yaml fs data)
     else Inl (UnsupportedFormat ext))"

definition LoadManifest :: "plugin_files \<Rightarrow> string \<Rightarrow> load_error + Manifest" where
  "LoadManifest fs path = (case pf_ReadFile fs path of
     Inl err \<Rightarrow> Inl (ReadManifest err)
   | Inr data \<Rightarrow> (case parse_manifest fs path data of
       Inl err \<Rightarrow> Inl err
     | Inr m \<Rightarrow> (case Manifest_Validate m of Some err \<Rightarrow> Inl (InvalidManifest err) | None \<Rightarrow> Inr m)))"

definition manifestFilenames :: "string list" where
  "manifestFilenames = [''plugin.json'', ''plugin.yaml'', ''plugin.yml'']"

definition is_file :: "plugin_files \<Rightarrow> string \<Rightarrow> bool" where
  "is_file fs path = (case pf_Stat fs path of StatOK info \<Rightarrow> \<not> fi_IsDir info | _ \<Rightarrow> False)"

definition manifestCandidates :: "plugin_files \<Rightarrow> string \<Rightarrow> string list" where
  "manifestCandidates fs dir = filter (is_file fs) (map (\<lambda>name. filepath_Join [dir, name]) manifestFilenames)"

definition FindManifestFile :: "plugin_files \<Rightarrow> string \<Rightarrow> load_error + string" where
  "FindManifestFile fs dir = (case manifestCandidates fs dir of
     [] \<Rightarrow> Inl (NoManifest dir)
   | [p] \<Rightarrow> Inr p
   | _ \<Rightarrow> Inl (MultipleManifests dir))"

definition executable_escapes :: "string option \<Rightarrow> bool" where
  "executable_escapes relative = (case relative of None \<Rightarrow> True
     | Some r \<Rightarrow> r = ''..'' \<or> strings_HasPrefix r ''../'')"

definition check_executable :: "plugin_files \<Rightarrow> string \<Rightarrow> string \<Rightarrow> load_error + string" where
  "check_executable fs dir executablePath = (case pf_EvalSymlinks fs dir of
     Inl err \<Rightarrow> Inl (ResolveDirectory err)
   | Inr resolvedDir \<Rightarrow> (case pf_EvalSymlinks fs executablePath of
       Inl err \<Rightarrow> Inl (ResolveExecutable err)
     | Inr resolvedExecutable \<Rightarrow>
         if executable_escapes (rel_path resolvedDir resolvedExecutable) then Inl ExecutableEscapes
         else (case pf_Stat fs resolvedExecutable of
             StatMissing \<Rightarrow> Inl (StatExecutable ''no such file or directory'')
           | StatFails err \<Rightarrow> Inl (StatExecutable err)
           | StatOK info \<Rightarrow> if \<not> fi_IsRegular info \<or> \<not> fi_Executable info then Inl NotExecutable
               else Inr resolvedExecutable)))"

definition LoadManifestDirectory :: "plugin_files \<Rightarrow> string \<Rightarrow> load_error + ResolvedManifest" where
  "LoadManifestDirectory fs dir = (case FindManifestFile fs dir of
     Inl err \<Rightarrow> Inl err
   | Inr manifestPath \<Rightarrow> (case LoadManifest fs manifestPath of
       Inl err \<Rightarrow> Inl err
     | Inr m \<Rightarrow> (case check_executable fs dir (filepath_Join [dir, pm_Executable m]) of
         Inl err \<Rightarrow> Inl err
       | Inr executable \<Rightarrow> Inr \<lparr>rm_Manifest = m, rm_ManifestPath = manifestPath, rm_ExecutablePath = executable\<rparr>)))"

subsection \<open>What validation promises\<close>

lemma check_capabilities_None:
  "check_capabilities seen cs = None \<longleftrightarrow> set cs \<subseteq> set known_capabilities - set seen \<and> distinct cs"
  by (induction cs arbitrary: seen) auto

lemma check_storage_None:
  "check_storage st = None \<longleftrightarrow> sm_Mode st \<in> {[], ''generic''} \<and> sm_Table st = [] \<or>
     sm_Mode st = ''table'' \<and> tableNamePattern (sm_Table st)"
  by (auto simp: check_storage_def Let_def)

lemma providerName_comp: "providerNamePattern s \<Longrightarrow> normal_comp s"
  unfolding normal_comp_def providerNamePattern_def
  by (auto split: list.splits simp: lower_letter_def ascii_digit_def list_all_iff Let_def)

text \<open>A valid executable is a plain file name, a double dot, or a single slash; the latter two never resolve to a regular file inside the directory.\<close>

lemma Validate_None:
  "Manifest_Validate m = None \<longleftrightarrow> pm_SchemaVersion m = ManifestSchemaVersion \<and> providerNamePattern (pm_Name m) \<and>
     strings_TrimSpace (pm_Version m) \<noteq> [] \<and> pm_Protocol m = 2 \<and>
     pm_Executable m \<notin> {[], ''.''} \<and> path_Base (pm_Executable m) = pm_Executable m \<and>
     pm_Capabilities m \<noteq> [] \<and> set (pm_Capabilities m) \<subseteq> set known_capabilities \<and> distinct (pm_Capabilities m) \<and>
     check_storage (pm_Storage m) = None"
  using check_capabilities_None[of "[]" "pm_Capabilities m"]
  by (cases "check_capabilities [] (pm_Capabilities m)") (auto simp: Manifest_Validate_def)

lemma LoadManifest_valid: "LoadManifest fs path = Inr m \<Longrightarrow> Manifest_Validate m = None"
  by (auto simp: LoadManifest_def split: sum.splits option.splits)

text \<open>The one manifest of a directory.\<close>

lemma FindManifestFile_Inr: "FindManifestFile fs dir = Inr p \<longleftrightarrow> manifestCandidates fs dir = [p]"
  by (auto simp: FindManifestFile_def split: list.splits)

lemma LoadManifestDirectory_Inr:
  assumes "LoadManifestDirectory fs dir = Inr r"
  shows "manifestCandidates fs dir = [rm_ManifestPath r] \<and> Manifest_Validate (rm_Manifest r) = None \<and>
    check_executable fs dir (filepath_Join [dir, pm_Executable (rm_Manifest r)]) = Inr (rm_ExecutablePath r)"
  using assms LoadManifest_valid
  by (auto simp: LoadManifestDirectory_def FindManifestFile_Inr split: sum.splits)

subsection \<open>The executable stays in its directory\<close>

lemma path_comps_abs_path [simp]: "list_all normal_comp cs \<Longrightarrow> path_comps (abs_path cs) = cs"
  using abs_comps_abs_path[of cs] by (simp add: path_comps_def abs_comps_def)

lemma Join_dotdot:
  assumes "n > 0"
  shows "executable_escapes (Some (strings_Join (replicate n ''..'' @ ts) ''/''))"
proof (cases "replicate (n - 1) ''..'' @ ts")
  case Nil
  with assms show ?thesis by (cases n) (auto simp: executable_escapes_def)
next
  case (Cons x xs)
  with assms show ?thesis by (cases n) (auto simp: executable_escapes_def strings_Join_Cons)
qed

text \<open>
  Whatever the symbolic links of a plugin directory are, the executable that is accepted resolves to a
  regular executable file at or below the resolved directory.
\<close>

lemma check_executable_confined:
  assumes "check_executable fs dir path = Inr x"
    and "pf_EvalSymlinks fs dir = Inr (abs_path ds)" "list_all normal_comp ds"
    and "\<And>y. pf_EvalSymlinks fs path = Inr y \<Longrightarrow> \<exists>ts. y = abs_path ts \<and> list_all normal_comp ts"
  shows "\<exists>rest info. x = abs_path (ds @ rest) \<and> pf_Stat fs x = StatOK info \<and> fi_IsRegular info \<and> fi_Executable info"
proof -
  from assms(1,2) obtain y info where y: "pf_EvalSymlinks fs path = Inr y" "x = y" "pf_Stat fs y = StatOK info"
      "fi_IsRegular info" "fi_Executable info" "\<not> executable_escapes (rel_path (abs_path ds) y)"
    by (auto simp: check_executable_def split: sum.splits stat_answer.splits if_splits)
  from assms(4)[OF y(1)] obtain ts where ts: "y = abs_path ts" "list_all normal_comp ts" by blast
  obtain bs es where s: "strip_common ds ts = (bs, es)" by fastforce
  then obtain common where common: "ds = common @ bs" "ts = common @ es"
    using strip_common_spec by blast
  have "bs = []"
  proof (rule ccontr)
    assume ne: "bs \<noteq> []"
    with common assms(3) have "hd bs \<noteq> ''..''" by (cases bs) (auto simp: normal_comp_def)
    with y(6) ne have "\<not> executable_escapes (Some (strings_Join (replicate (length bs) ''..'' @ es) ''/''))"
      using assms(3) ts by (simp add: rel_path_def s)
    with ne Join_dotdot[of "length bs" es] show False by simp
  qed
  with common y ts show ?thesis by auto
qed

end
