(* ===== verification/Provider_Registry.thy ===== *)
theory Provider_Registry imports Provider_Manifest Keyed_Table Slice_Sort begin

text \<open>
  internal/provider/registry.go, internal/provider/default.go and pkg/providers/catalog.go: the catalog of
  shipped providers, discovery of installed plugins in the plugin roots, and the registry that decides
  which provider may use which name and which resource table.
\<close>

subsection \<open>The catalog of shipped providers\<close>

record Provider =
  pr_Name :: string
  pr_Description :: string
  pr_ResourceTable :: string

definition CustomResourceTable :: string where
  "CustomResourceTable = ''custom_provider_resources''"

definition shipped :: "Provider list" where
  "shipped =
     [\<lparr>pr_Name = ''aws'', pr_Description = ''Amazon Web Services provider'', pr_ResourceTable = ''aws_resources''\<rparr>,
      \<lparr>pr_Name = ''azure'', pr_Description = ''Microsoft Azure provider'', pr_ResourceTable = ''azure_resources''\<rparr>,
      \<lparr>pr_Name = ''gcp'', pr_Description = ''Google Cloud Platform provider'', pr_ResourceTable = ''gcp_resources''\<rparr>,
      \<lparr>pr_Name = ''kubernetes'', pr_Description = ''Kubernetes provider'', pr_ResourceTable = ''kubernetes_resources''\<rparr>,
      \<lparr>pr_Name = ''github'', pr_Description = ''GitHub organization and repository posture provider'',
        pr_ResourceTable = ''github_resources''\<rparr>,
      \<lparr>pr_Name = ''cloudflare'', pr_Description = ''Cloudflare edge, Workers, storage, and Zero Trust provider'',
        pr_ResourceTable = ''cloudflare_resources''\<rparr>]"

definition Shipped :: "Provider list" where
  "Shipped = shipped"

definition Provider_Names :: "string list" where
  "Provider_Names = map pr_Name shipped"

definition Lookup :: "string \<Rightarrow> Provider option" where
  "Lookup name = find (\<lambda>p. pr_Name p = strings_ToLower (strings_TrimSpace name)) shipped"

definition LookupByResourceTable :: "string \<Rightarrow> Provider option" where
  "LookupByResourceTable table = find (\<lambda>p. pr_ResourceTable p = strings_TrimSpace table) shipped"

definition IsRegisteredResourceTable :: "string \<Rightarrow> bool" where
  "IsRegisteredResourceTable table \<longleftrightarrow> strings_TrimSpace table = CustomResourceTable \<or> LookupByResourceTable table \<noteq> None"

subsection \<open>Discovering installations\<close>

datatype Origin = OriginOfficial | OriginCustom

record Installation =
  ins_Manifest :: ResolvedManifest
  ins_Origin :: Origin

record Root =
  rt_Path :: string
  rt_Origin :: Origin

datatype discover_error =
    ReadRoot string string
  | LoadDirectory string load_error
  | WrongDirectory string string

definition containsManifest :: "plugin_files \<Rightarrow> string \<Rightarrow> bool" where
  "containsManifest fs dir \<longleftrightarrow> length (manifestCandidates fs dir) > 0"

fun discover_entries :: "plugin_files \<Rightarrow> Root \<Rightarrow> (string \<times> bool) list \<Rightarrow> Installation list \<Rightarrow> discover_error + Installation list" where
  "discover_entries fs r [] result = Inr result"
| "discover_entries fs r ((name, isDir) # entries) result =
     (let providerDir = filepath_Join [rt_Path r, name] in
      if \<not> isDir then discover_entries fs r entries result
      else if \<not> containsManifest fs providerDir then discover_entries fs r entries result
      else (case LoadManifestDirectory fs providerDir of
          Inl err \<Rightarrow> Inl (LoadDirectory name err)
        | Inr resolved \<Rightarrow>
            if pm_Name (rm_Manifest resolved) \<noteq> name then Inl (WrongDirectory name (pm_Name (rm_Manifest resolved)))
            else discover_entries fs r entries (result @ [\<lparr>ins_Manifest = resolved, ins_Origin = rt_Origin r\<rparr>])))"

fun discover_roots :: "plugin_files \<Rightarrow> Root list \<Rightarrow> Installation list \<Rightarrow> discover_error + Installation list" where
  "discover_roots fs [] result = Inr result"
| "discover_roots fs (r # rs) result = (case pf_ReadDir fs (rt_Path r) of
     NoSuchDir \<Rightarrow> discover_roots fs rs result
   | ReadDirFails err \<Rightarrow> Inl (ReadRoot (rt_Path r) err)
   | DirEntries entries \<Rightarrow> (case discover_entries fs r entries result of
       Inl err \<Rightarrow> Inl err
     | Inr result \<Rightarrow> discover_roots fs rs result))"

definition DiscoverInstallations :: "plugin_files \<Rightarrow> Root list \<Rightarrow> discover_error + Installation list" where
  "DiscoverInstallations fs roots = discover_roots fs roots []"

definition ins_name :: "Installation \<Rightarrow> string" where
  "ins_name i = pm_Name (rm_Manifest (ins_Manifest i))"

text \<open>Of two official installations of a name the one in the earlier root is kept.\<close>

fun keep_first_official :: "Root \<Rightarrow> Installation list \<Rightarrow> string list \<Rightarrow> Installation list \<Rightarrow> string list \<times> Installation list" where
  "keep_first_official r [] seen result = (seen, result)"
| "keep_first_official r (i # is) seen result =
     (if rt_Origin r = OriginOfficial \<and> ins_name i \<in> set seen then keep_first_official r is seen result
      else keep_first_official r is (if rt_Origin r = OriginOfficial then ins_name i # seen else seen) (result @ [i]))"

fun discover_default :: "plugin_files \<Rightarrow> Root list \<Rightarrow> string list \<Rightarrow> Installation list \<Rightarrow> discover_error + Installation list" where
  "discover_default fs [] seen result = Inr result"
| "discover_default fs (r # rs) seen result = (case DiscoverInstallations fs [r] of
     Inl err \<Rightarrow> Inl err
   | Inr discovered \<Rightarrow> (case keep_first_official r discovered seen result of
       (seen, result) \<Rightarrow> discover_default fs rs seen result))"

definition discoverDefaultInstallations :: "plugin_files \<Rightarrow> Root list \<Rightarrow> discover_error + Installation list" where
  "discoverDefaultInstallations fs roots = discover_default fs roots [] []"

text \<open>The environment of the process: the home directory and \<open>CORKSCREW_PLUGIN_DIR\<close>.\<close>

record plugin_environment =
  pe_home :: "string + string"
  pe_plugin_dir :: string

definition ManagedPluginRoot :: "plugin_environment \<Rightarrow> string + string" where
  "ManagedPluginRoot pe = map_sum id (\<lambda>home. filepath_Join [home, ''.corkscrew'', ''plugins'']) (pe_home pe)"

definition DefaultRoots :: "plugin_environment \<Rightarrow> plugin_files \<Rightarrow> string + Root list" where
  "DefaultRoots pe fs = (case ManagedPluginRoot pe of
     Inl err \<Rightarrow> Inl err
   | Inr managed \<Rightarrow> (let localOfficial = filepath_Join [''build'', ''bin'', ''plugins'', ''official''];
         isDir = (case pf_Stat fs localOfficial of StatOK info \<Rightarrow> fi_IsDir info | _ \<Rightarrow> False);
         custom = strings_TrimSpace (pe_plugin_dir pe) in
       Inr ([\<lparr>rt_Path = filepath_Join [managed, ''official''], rt_Origin = OriginOfficial\<rparr>] @
         (if isDir then [\<lparr>rt_Path = localOfficial, rt_Origin = OriginOfficial\<rparr>] else []) @
         (if custom \<noteq> [] then [\<lparr>rt_Path = custom, rt_Origin = OriginCustom\<rparr>] else []) @
         [\<lparr>rt_Path = managed, rt_Origin = OriginCustom\<rparr>])))"

subsection \<open>The registry\<close>

record Descriptor =
  pd_Name :: string
  pd_DisplayName :: string
  pd_Description :: string
  pd_Version :: string
  pd_Origin :: Origin
  pd_Installed :: bool
  pd_ExecutablePath :: string
  pd_Capabilities :: "string list"
  pd_DefaultScopes :: "string list"
  pd_ResourceTable :: string

definition Supports :: "Descriptor \<Rightarrow> string \<Rightarrow> bool" where
  "Supports d capability \<longleftrightarrow> list_ex (\<lambda>c. c = capability) (pd_Capabilities d)"

type_synonym provider_registry = "(string, Descriptor) table"

datatype registry_error =
    NoCanonicalTable string
  | InvalidInstallation string manifest_error
  | MultipleInstallations string
  | NotInCatalog string
  | NotCanonicalTable string string
  | ReservedName string
  | UnregisteredTable string string

definition official_descriptor :: "Provider \<Rightarrow> Descriptor" where
  "official_descriptor p = \<lparr>pd_Name = pr_Name p, pd_DisplayName = pr_Name p, pd_Description = pr_Description p,
     pd_Version = [], pd_Origin = OriginOfficial, pd_Installed = False, pd_ExecutablePath = [], pd_Capabilities = [],
     pd_DefaultScopes = [], pd_ResourceTable = pr_ResourceTable p\<rparr>"

text \<open>The maps are built by walking the catalog, so the last provider of a name wins.\<close>

definition catalog_entry :: "Provider list \<Rightarrow> string \<Rightarrow> Provider option" where
  "catalog_entry official name = find (\<lambda>p. pr_Name p = name) (rev official)"

definition resourceTableForRegistration :: "Manifest \<Rightarrow> Origin \<Rightarrow> Provider list \<Rightarrow> registry_error + string" where
  "resourceTableForRegistration m origin official =
     (let registered = (\<lambda>t. t \<noteq> [] \<and> t \<in> set (map pr_ResourceTable official)); st = pm_Storage m in
      if origin = OriginOfficial then (case catalog_entry official (pm_Name m) of
          None \<Rightarrow> Inl (NotInCatalog (pm_Name m))
        | Some p \<Rightarrow> if sm_Mode st \<noteq> ''table'' \<or> sm_Table st \<noteq> pr_ResourceTable p
            then Inl (NotCanonicalTable (pm_Name m) (pr_ResourceTable p)) else Inr (pr_ResourceTable p))
      else if catalog_entry official (pm_Name m) \<noteq> None then Inl (ReservedName (pm_Name m))
      else if sm_Mode st = ''table'' then
        (if \<not> registered (sm_Table st) then Inl (UnregisteredTable (pm_Name m) (sm_Table st)) else Inr (sm_Table st))
      else Inr CustomResourceTable)"

definition installed_descriptor :: "Provider list \<Rightarrow> Installation \<Rightarrow> string \<Rightarrow> Descriptor" where
  "installed_descriptor official i resourceTable =
     (let m = rm_Manifest (ins_Manifest i);
          description = (case catalog_entry official (pm_Name m) of
             Some p \<Rightarrow> if pm_Description m = [] then pr_Description p else pm_Description m
           | None \<Rightarrow> pm_Description m);
          displayName = (if pm_DisplayName m = [] then pm_Name m else pm_DisplayName m) in
      \<lparr>pd_Name = pm_Name m, pd_DisplayName = displayName, pd_Description = description, pd_Version = pm_Version m,
       pd_Origin = ins_Origin i, pd_Installed = True, pd_ExecutablePath = rm_ExecutablePath (ins_Manifest i),
       pd_Capabilities = pm_Capabilities m, pd_DefaultScopes = pm_DefaultScopes m, pd_ResourceTable = resourceTable\<rparr>)"

fun register_official :: "Provider list \<Rightarrow> provider_registry \<Rightarrow> registry_error + provider_registry" where
  "register_official [] t = Inr t"
| "register_official (p # ps) t = (if pr_ResourceTable p = [] then Inl (NoCanonicalTable (pr_Name p))
     else register_official ps (AList.update (pr_Name p) (official_descriptor p) t))"

fun register_installations :: "Provider list \<Rightarrow> Installation list \<Rightarrow> provider_registry \<Rightarrow> registry_error + provider_registry" where
  "register_installations official [] t = Inr t"
| "register_installations official (i # is) t = (let m = rm_Manifest (ins_Manifest i) in
     (case Manifest_Validate m of
        Some err \<Rightarrow> Inl (InvalidInstallation (pm_Name m) err)
      | None \<Rightarrow>
          if (case map_of t (pm_Name m) of Some existing \<Rightarrow> pd_Installed existing | None \<Rightarrow> False)
          then Inl (MultipleInstallations (pm_Name m))
          else (case resourceTableForRegistration m (ins_Origin i) official of
              Inl err \<Rightarrow> Inl err
            | Inr resourceTable \<Rightarrow> register_installations official is
                (AList.update (pm_Name m) (installed_descriptor official i resourceTable) t))))"

definition NewRegistry :: "Provider list \<Rightarrow> Installation list \<Rightarrow> registry_error + provider_registry" where
  "NewRegistry official installations = (case register_official official [] of
     Inl err \<Rightarrow> Inl err
   | Inr t \<Rightarrow> register_installations official installations t)"

definition provider_order :: "Descriptor \<Rightarrow> Descriptor \<Rightarrow> bool" where
  "provider_order a b \<longleftrightarrow> pd_Name a < pd_Name b"

text \<open>\<open>List\<close> ranges over the map in any order, then sorts.\<close>

definition Registry_List :: "(provider_registry \<Rightarrow> provider_registry) \<Rightarrow> Descriptor slice_sorter \<Rightarrow> provider_registry \<Rightarrow> Descriptor list" where
  "Registry_List order sort_Slice t = sort_Slice provider_order (map snd (order t))"

datatype lookup_error = NotRegistered string | NotInstalled string

definition Registry_Resolve :: "provider_registry \<Rightarrow> string \<Rightarrow> lookup_error + Descriptor" where
  "Registry_Resolve t name = (case map_of t name of
     None \<Rightarrow> Inl (NotRegistered name)
   | Some d \<Rightarrow> if pd_Installed d then Inr d else Inl (NotInstalled name))"

datatype default_error = NoHome string | DiscoveryFailed discover_error | RegistryFailed registry_error

text \<open>The registry of \<open>NewDefaultRuntime\<close>.\<close>

definition default_registry :: "plugin_environment \<Rightarrow> plugin_files \<Rightarrow> default_error + provider_registry" where
  "default_registry pe fs = (case DefaultRoots pe fs of
     Inl err \<Rightarrow> Inl (NoHome err)
   | Inr roots \<Rightarrow> (case discoverDefaultInstallations fs roots of
       Inl err \<Rightarrow> Inl (DiscoveryFailed err)
     | Inr installations \<Rightarrow> map_sum RegistryFailed id (NewRegistry Shipped installations)))"

subsection \<open>What is registered\<close>

text \<open>
  The registration rules, as the contract of \<open>resourceTableForRegistration\<close>: an official installation has
  the name of a shipped provider and its canonical table; a custom one has another name and stores its
  resources in a shipped provider's table or in the generic one.
\<close>

definition registers_as :: "Provider list \<Rightarrow> Installation \<Rightarrow> string \<Rightarrow> bool" where
  "registers_as official i table = (let m = rm_Manifest (ins_Manifest i); st = pm_Storage m in
     (case ins_Origin i of
        OriginOfficial \<Rightarrow> list_ex (\<lambda>p. pr_Name p = pm_Name m \<and> sm_Mode st = ''table'' \<and> sm_Table st = pr_ResourceTable p \<and>
          table = pr_ResourceTable p) official
      | OriginCustom \<Rightarrow> pm_Name m \<notin> set (map pr_Name official) \<and>
          (if sm_Mode st = ''table'' then sm_Table st \<noteq> [] \<and> sm_Table st \<in> set (map pr_ResourceTable official) \<and> table = sm_Table st
           else table = CustomResourceTable)))"

lemma catalog_entry_Some:
  assumes "distinct (map pr_Name official)"
  shows "catalog_entry official n = Some p \<longleftrightarrow> p \<in> set official \<and> pr_Name p = n"
proof -
  have "distinct (map pr_Name (rev official))" using assms by (simp add: rev_map [symmetric])
  then have "catalog_entry official (pr_Name q) = Some q" if "q \<in> set official" for q
    using find_distinct[of pr_Name "rev official" q] that by (simp add: catalog_entry_def)
  moreover have "p \<in> set official \<and> pr_Name p = n" if "catalog_entry official n = Some p"
    using that unfolding catalog_entry_def by (metis (mono_tags, lifting) find_Some_iff length_rev nth_mem set_rev)
  ultimately show ?thesis by blast
qed

lemma catalog_entry_None: "catalog_entry official n = None \<longleftrightarrow> n \<notin> pr_Name ` set official"
  by (auto simp: catalog_entry_def find_None_iff)

lemma resourceTable_iff:
  assumes d: "distinct (map pr_Name official)"
  shows "resourceTableForRegistration (rm_Manifest (ins_Manifest i)) (ins_Origin i) official = Inr table \<longleftrightarrow> registers_as official i table"
proof (cases "catalog_entry official (pm_Name (rm_Manifest (ins_Manifest i)))")
  case None
  then have "pm_Name (rm_Manifest (ins_Manifest i)) \<notin> pr_Name ` set official" by (simp add: catalog_entry_None)
  with None show ?thesis
    by (cases "ins_Origin i") (auto simp: resourceTableForRegistration_def registers_as_def Let_def list_ex_iff image_iff)
next
  case (Some p)
  have p: "q \<in> set official \<and> pr_Name q = pm_Name (rm_Manifest (ins_Manifest i)) \<longleftrightarrow> q = p" for q
    using catalog_entry_Some[OF d] Some by (metis option.inject)
  then have "pm_Name (rm_Manifest (ins_Manifest i)) \<in> pr_Name ` set official" by (metis image_eqI)
  moreover have "list_ex (\<lambda>q. pr_Name q = pm_Name (rm_Manifest (ins_Manifest i)) \<and> P q) official \<longleftrightarrow> P p" for P
    unfolding list_ex_iff using p by metis
  ultimately show ?thesis using Some
    by (cases "ins_Origin i") (auto simp: resourceTableForRegistration_def registers_as_def Let_def)
qed

abbreviation enter :: "(string \<times> Descriptor) list \<Rightarrow> provider_registry \<Rightarrow> provider_registry" where
  "enter \<equiv> put_all (\<lambda>_ d. d)"

lemma register_official_iff:
  "register_official ps t = Inr r \<longleftrightarrow> (\<forall>p \<in> set ps. pr_ResourceTable p \<noteq> []) \<and>
     r = enter (map (\<lambda>p. (pr_Name p, official_descriptor p)) ps) t"
  by (induction ps arbitrary: t) (auto simp: put_def)

definition installed_in :: "provider_registry \<Rightarrow> string \<Rightarrow> bool" where
  "installed_in t n \<longleftrightarrow> (case map_of t n of Some existing \<Rightarrow> pd_Installed existing | None \<Rightarrow> False)"

definition reg_entry :: "Provider list \<Rightarrow> Installation \<Rightarrow> string \<times> Descriptor" where
  "reg_entry official i = (ins_name i, installed_descriptor official i
     (projr (resourceTableForRegistration (rm_Manifest (ins_Manifest i)) (ins_Origin i) official)))"

lemma installed_descriptor_simps [simp]:
  "pd_Installed (installed_descriptor official i table)" "pd_Name (installed_descriptor official i table) = ins_name i"
  "pd_Origin (installed_descriptor official i table) = ins_Origin i" "pd_ResourceTable (installed_descriptor official i table) = table"
  by (simp_all add: installed_descriptor_def ins_name_def Let_def)

lemma official_descriptor_simps [simp]:
  "\<not> pd_Installed (official_descriptor p)" "pd_Name (official_descriptor p) = pr_Name p"
  by (simp_all add: official_descriptor_def)

lemma register_installations_iff:
  assumes d: "distinct (map pr_Name official)"
  shows "register_installations official is t = Inr r \<longleftrightarrow>
    (\<forall>i \<in> set is. Manifest_Validate (rm_Manifest (ins_Manifest i)) = None \<and> (\<exists>table. registers_as official i table) \<and>
       \<not> installed_in t (ins_name i)) \<and> distinct (map ins_name is) \<and> r = enter (map (reg_entry official) is) t"
proof (induction "is" arbitrary: t)
  case (Cons i "is")
  let ?m = "rm_Manifest (ins_Manifest i)" and ?res = "resourceTableForRegistration (rm_Manifest (ins_Manifest i)) (ins_Origin i) official"
  show ?case
  proof (cases "Manifest_Validate ?m = None \<and> \<not> installed_in t (ins_name i) \<and> (\<exists>table. ?res = Inr table)")
    case True
    then obtain table where table: "?res = Inr table" by blast
    let ?t = "AList.update (pm_Name ?m) (installed_descriptor official i table) t"
    have e: "put (\<lambda>_ d. d) (reg_entry official i) t = ?t"
      by (simp add: put_def reg_entry_def table ins_name_def)
    have "installed_in ?t n \<longleftrightarrow> n = ins_name i \<or> installed_in t n" for n
      by (simp add: installed_in_def update_conv' ins_name_def)
    moreover have "register_installations official (i # is) t = register_installations official is ?t"
      using True table by (simp add: installed_in_def ins_name_def Let_def)
    moreover have "\<exists>table. registers_as official i table" using table resourceTable_iff[OF d] by blast
    ultimately show ?thesis using True by (simp add: Cons.IH e) (metis (no_types, lifting) image_iff)
  next
    case False
    then have "\<not> (\<exists>r. register_installations official (i # is) t = Inr r)"
      by (auto simp: Let_def installed_in_def ins_name_def split: option.splits sum.splits)
    with False show ?thesis using resourceTable_iff[OF d, of i] by auto
  qed
qed auto

text \<open>The table of a registry: what each name stands for.\<close>

lemma NewRegistry_iff:
  assumes d: "distinct (map pr_Name official)"
  shows "NewRegistry official is = Inr r \<longleftrightarrow> (\<forall>p \<in> set official. pr_ResourceTable p \<noteq> []) \<and> distinct (map ins_name is) \<and>
    (\<forall>i \<in> set is. Manifest_Validate (rm_Manifest (ins_Manifest i)) = None \<and> (\<exists>table. registers_as official i table)) \<and>
    r = enter (map (reg_entry official) is) (enter (map (\<lambda>p. (pr_Name p, official_descriptor p)) official) [])"
proof -
  let ?t = "enter (map (\<lambda>p. (pr_Name p, official_descriptor p)) official) []"
  have "\<not> installed_in ?t n" for n
  proof (cases "n \<in> pr_Name ` set official")
    case True
    then obtain p where p: "p \<in> set official" "pr_Name p = n" by blast
    from d have "distinct (map fst (map (\<lambda>p. (pr_Name p, official_descriptor p)) official))" by (simp add: o_def)
    moreover from p have "(n, official_descriptor p) \<in> set (map (\<lambda>p. (pr_Name p, official_descriptor p)) official)" by auto
    ultimately have "map_of ?t n = Some (official_descriptor p)" by (rule map_of_put_all_distinct)
    then show ?thesis by (simp add: installed_in_def)
  next
    case False
    then have "n \<notin> fst ` set (map (\<lambda>p. (pr_Name p, official_descriptor p)) official)" by auto
    then have "map_of ?t n = None" by (simp add: map_of_put_all_notin)
    then show ?thesis by (simp add: installed_in_def)
  qed
  then have i: "register_installations official is ?t = Inr r \<longleftrightarrow> distinct (map ins_name is) \<and>
    (\<forall>i \<in> set is. Manifest_Validate (rm_Manifest (ins_Manifest i)) = None \<and> (\<exists>table. registers_as official i table)) \<and>
    r = enter (map (reg_entry official) is) ?t"
    by (auto simp: register_installations_iff[OF d])
  show ?thesis
  proof (cases "\<forall>p \<in> set official. pr_ResourceTable p \<noteq> []")
    case True
    then have "register_official official [] = Inr ?t" by (simp add: register_official_iff)
    with True i show ?thesis by (simp add: NewRegistry_def)
  next
    case False
    then have "register_official official [] \<noteq> Inr r'" for r' by (simp add: register_official_iff)
    then obtain err where "register_official official [] = Inl err" by (cases "register_official official []") auto
    with False show ?thesis by (simp add: NewRegistry_def)
  qed
qed

definition registry_names_ok :: "provider_registry \<Rightarrow> bool" where
  "registry_names_ok t \<longleftrightarrow> table_ok t \<and> (\<forall>(n, d) \<in> set t. pd_Name d = n)"

lemma registry_names_ok_put: "registry_names_ok t \<Longrightarrow> pd_Name d = n \<Longrightarrow> registry_names_ok (put (\<lambda>_ d. d) (n, d) t)"
  using set_update_subset[of n d t] unfolding registry_names_ok_def by (auto simp: put_def table_ok_def distinct_update)

lemma registry_names_ok_enter:
  "registry_names_ok t \<Longrightarrow> (\<And>n d. (n, d) \<in> set kps \<Longrightarrow> pd_Name d = n) \<Longrightarrow> registry_names_ok (enter kps t)"
  by (induction kps arbitrary: t) (auto simp: registry_names_ok_put)

text \<open>The registered descriptors: the installed ones and the shipped providers that are not installed.\<close>

definition registered :: "Provider list \<Rightarrow> Installation list \<Rightarrow> Descriptor set" where
  "registered official is = {d. \<exists>i \<in> set is. \<exists>table. registers_as official i table \<and> d = installed_descriptor official i table} \<union>
     {official_descriptor p | p. p \<in> set official \<and> pr_Name p \<notin> ins_name ` set is}"

lemma reg_entry_eq:
  assumes "distinct (map pr_Name official)" "registers_as official i table"
  shows "reg_entry official i = (ins_name i, installed_descriptor official i table)"
  using assms resourceTable_iff[OF assms(1), of i table] by (simp add: reg_entry_def)

lemma registry_entries:
  assumes d: "distinct (map pr_Name official)" and r: "NewRegistry official is = Inr r"
  shows "registry_names_ok r \<and> (map_of r n = Some x \<longleftrightarrow> pd_Name x = n \<and> x \<in> registered official is)"
proof -
  let ?o = "map (\<lambda>p. (pr_Name p, official_descriptor p)) official" and ?i = "map (reg_entry official) is"
  have reg: "\<And>i. i \<in> set is \<Longrightarrow> \<exists>table. registers_as official i table" and dist: "distinct (map ins_name is)"
    and eq: "r = enter ?i (enter ?o [])"
    using r NewRegistry_iff[OF d] by blast+
  have ok: "registry_names_ok r"
    unfolding eq by (intro registry_names_ok_enter) (auto simp: registry_names_ok_def reg_entry_def)
  have fst: "map fst ?i = map ins_name is" "map fst ?o = map pr_Name official" by (simp_all add: reg_entry_def o_def)
  have inst: "map_of r (ins_name i) = Some (installed_descriptor official i table)" if "i \<in> set is" "registers_as official i table" for i table
  proof -
    have "(ins_name i, installed_descriptor official i table) \<in> set ?i"
      using that reg_entry_eq[OF d that(2)] by (metis image_eqI set_map)
    moreover have "distinct (map fst ?i)" using dist fst(1) by metis
    ultimately show ?thesis unfolding eq by (simp only: map_of_put_all_distinct)
  qed
  have off: "map_of r (pr_Name p) = Some (official_descriptor p)" if "p \<in> set official" "pr_Name p \<notin> ins_name ` set is" for p
  proof -
    have "pr_Name p \<notin> fst ` set ?i" using that(2) fst(1) by (metis set_map)
    moreover have "map_of (enter ?o []) (pr_Name p) = Some (official_descriptor p)"
      by (rule map_of_put_all_distinct) (use d that(1) fst(2) in \<open>auto simp: o_def\<close>)
    ultimately show ?thesis unfolding eq by (simp add: map_of_put_all_notin)
  qed
  have cover: "n \<in> ins_name ` set is \<union> pr_Name ` set official" if "map_of r n = Some x" for n x
  proof -
    have "n \<in> fst ` set r" using that by (metis domI dom_map_of_conv_image_fst)
    then show ?thesis unfolding eq keys_put_all using fst by (metis Un_iff empty_iff image_empty set_empty2 set_map)
  qed
  have "map_of r n = Some x \<longleftrightarrow> pd_Name x = n \<and> x \<in> registered official is"
  proof
    assume m: "map_of r n = Some x"
    show "pd_Name x = n \<and> x \<in> registered official is"
    proof (cases "n \<in> ins_name ` set is")
      case True
      then obtain i where i: "i \<in> set is" "n = ins_name i" by blast
      from reg[OF i(1)] obtain table where t: "registers_as official i table" by blast
      from inst[OF i(1) t] m i t show ?thesis unfolding registered_def by auto
    next
      case False
      with cover[OF m] obtain p where p: "p \<in> set official" "n = pr_Name p" by blast
      with off[of p] m False show ?thesis unfolding registered_def by auto
    qed
  next
    assume "pd_Name x = n \<and> x \<in> registered official is"
    then show "map_of r n = Some x" unfolding registered_def using inst off by auto
  qed
  with ok show ?thesis by blast
qed

lemma provider_order_weak: "strict_weak provider_order"
  unfolding strict_weak_def provider_order_def by (meson less_irrefl less_trans not_less order.trans)

lemma Registry_List_sorted:
  assumes "registry_names_ok t" "slice_sorting sort_Slice" "mset (order t) = mset t"
  shows "sorted_wrt provider_order (Registry_List order sort_Slice t) \<and> set (Registry_List order sort_Slice t) = snd ` set t"
proof -
  have names: "map pd_Name (map snd t) = map fst t"
    using assms(1) by (auto simp: registry_names_ok_def)
  have perm: "mset (map snd (order t)) = mset (map snd t)" using assms(3) by (metis mset_map)
  then have dist: "distinct (map pd_Name (map snd (order t)))"
    using assms(1) names by (metis mset_eq_imp_distinct_iff mset_map registry_names_ok_def table_ok_def)
  then have inj: "a = b" if "a \<in> set (map snd (order t))" "b \<in> set (map snd (order t))" "\<not> provider_order a b" "\<not> provider_order b a" for a b
    using that by (auto simp: provider_order_def distinct_map inj_on_def)
  have l: "Registry_List order sort_Slice t = sort_Slice provider_order (map snd (order t))"
    by (simp add: Registry_List_def)
  have "sorted_wrt provider_order (sort_Slice provider_order (map snd (order t)))"
    by (rule slice_sorting.sort_strict[OF assms(2) provider_order_weak _ inj]) (use dist distinct_map in blast)+
  moreover have "set (sort_Slice provider_order (map snd (order t))) = snd ` set t"
    using slice_sorting.sort_set[OF assms(2)] perm by (metis set_map set_mset_mset)
  ultimately show ?thesis by (simp add: l)
qed

text \<open>
  C22. For any catalog of distinct names, the registry can be built exactly when every shipped provider has
  a table, every installation has a valid manifest and a name of its own, and every installation meets the
  registration rules. It then lists, strictly ordered by name whatever the order of the map, exactly the
  installed providers and the shipped ones that are not installed, and resolving a name gives exactly the
  installed provider of that name.
\<close>

theorem registry_exact:
  assumes "distinct (map pr_Name official)" "slice_sorting sort_Slice" "\<And>t. mset (order t) = mset t"
  shows "((\<exists>r. NewRegistry official is = Inr r) \<longleftrightarrow> (\<forall>p \<in> set official. pr_ResourceTable p \<noteq> []) \<and> distinct (map ins_name is) \<and>
      (\<forall>i \<in> set is. Manifest_Validate (rm_Manifest (ins_Manifest i)) = None \<and> (\<exists>table. registers_as official i table))) \<and>
    (\<forall>r. NewRegistry official is = Inr r \<longrightarrow>
      sorted_wrt provider_order (Registry_List order sort_Slice r) \<and>
      set (Registry_List order sort_Slice r) = registered official is \<and>
      (\<forall>n d. Registry_Resolve r n = Inr d \<longleftrightarrow> pd_Name d = n \<and> pd_Installed d \<and> d \<in> registered official is))"
proof (intro conjI allI impI)
  show "(\<exists>r. NewRegistry official is = Inr r) \<longleftrightarrow> (\<forall>p \<in> set official. pr_ResourceTable p \<noteq> []) \<and> distinct (map ins_name is) \<and>
      (\<forall>i \<in> set is. Manifest_Validate (rm_Manifest (ins_Manifest i)) = None \<and> (\<exists>table. registers_as official i table))"
    using NewRegistry_iff[OF assms(1), of "is"] by blast
next
  fix r assume r: "NewRegistry official is = Inr r"
  have ok: "registry_names_ok r" and entry: "map_of r n = Some x \<longleftrightarrow> pd_Name x = n \<and> x \<in> registered official is" for n x
    using registry_entries[OF assms(1) r] by blast+
  note listed = Registry_List_sorted[OF ok assms(2), of order, OF assms(3)]
  show "sorted_wrt provider_order (Registry_List order sort_Slice r)" using listed by blast
  have "snd ` set r = registered official is"
  proof
    show "snd ` set r \<subseteq> registered official is"
      using entry ok unfolding registry_names_ok_def table_ok_def by (auto simp: map_of_eq_Some_iff)
    show "registered official is \<subseteq> snd ` set r"
      using entry by (metis image_eqI map_of_SomeD snd_conv subsetI)
  qed
  then show "set (Registry_List order sort_Slice r) = registered official is" using listed by simp
  fix n d
  show "Registry_Resolve r n = Inr d \<longleftrightarrow> pd_Name d = n \<and> pd_Installed d \<and> d \<in> registered official is"
    using entry[of n d] by (auto simp: Registry_Resolve_def split: option.splits)
qed

subsection \<open>Where an installation comes from\<close>

definition installed_from :: "plugin_files \<Rightarrow> Root \<Rightarrow> Installation \<Rightarrow> bool" where
  "installed_from fs r i \<longleftrightarrow> ins_Origin i = rt_Origin r \<and>
     (\<exists>entries. pf_ReadDir fs (rt_Path r) = DirEntries entries \<and> (ins_name i, True) \<in> set entries) \<and>
     LoadManifestDirectory fs (filepath_Join [rt_Path r, ins_name i]) = Inr (ins_Manifest i)"

lemma discover_entries_from:
  "discover_entries fs r entries result = Inr is \<Longrightarrow> pf_ReadDir fs (rt_Path r) = DirEntries all \<Longrightarrow> set entries \<subseteq> set all \<Longrightarrow>
   i \<in> set is \<Longrightarrow> i \<in> set result \<or> installed_from fs r i"
proof (induction fs r entries result rule: discover_entries.induct)
  case (2 fs r name isDir entries result)
  let ?dir = "filepath_Join [rt_Path r, name]"
  show ?case
  proof (cases "isDir \<and> containsManifest fs ?dir")
    case False
    with 2 show ?thesis by (auto simp: Let_def split: if_splits)
  next
    case True
    with 2(4) obtain resolved where l: "LoadManifestDirectory fs ?dir = Inr resolved" "pm_Name (rm_Manifest resolved) = name"
        "discover_entries fs r entries (result @ [\<lparr>ins_Manifest = resolved, ins_Origin = rt_Origin r\<rparr>]) = Inr is"
      by (auto simp: Let_def split: sum.splits if_splits)
    have "installed_from fs r \<lparr>ins_Manifest = resolved, ins_Origin = rt_Origin r\<rparr>"
      using True l 2(5,6) by (auto simp: installed_from_def ins_name_def)
    moreover have "i \<in> set (result @ [\<lparr>ins_Manifest = resolved, ins_Origin = rt_Origin r\<rparr>]) \<or> installed_from fs r i"
      by (rule 2(3)) (use True l 2(5-) in auto)
    ultimately show ?thesis by auto
  qed
qed simp

lemma DiscoverInstallations_from:
  assumes "DiscoverInstallations fs [r] = Inr is" "i \<in> set is"
  shows "installed_from fs r i"
  using assms discover_entries_from[of fs r _ "[]" "is" _ i]
  by (auto simp: DiscoverInstallations_def split: dir_listing.splits sum.splits)

lemma keep_first_official_subset:
  "keep_first_official r is seen result = (seen', result') \<Longrightarrow> set result' \<subseteq> set result \<union> set is"
  by (induction r "is" seen result rule: keep_first_official.induct) (auto split: if_splits)

lemma discover_default_from:
  "discover_default fs roots seen result = Inr is \<Longrightarrow> i \<in> set is \<Longrightarrow> i \<in> set result \<or> (\<exists>r \<in> set roots. installed_from fs r i)"
proof (induction fs roots seen result rule: discover_default.induct)
  case (2 fs r rs seen result)
  from 2(2) obtain discovered seen' result' where s: "DiscoverInstallations fs [r] = Inr discovered"
      "keep_first_official r discovered seen result = (seen', result')" "discover_default fs rs seen' result' = Inr is"
    by (auto split: sum.splits prod.splits)
  from 2(1)[OF s(1) s(2)[symmetric] s(3) 2(3)] keep_first_official_subset[OF s(2)] DiscoverInstallations_from[OF s(1)]
  show ?case by auto
qed simp

text \<open>An official installation of a name hides those in later roots.\<close>

lemma keep_first_official_distinct:
  assumes "keep_first_official r is seen result = (seen', result')"
    and "\<And>i. i \<in> set is \<Longrightarrow> ins_Origin i = rt_Origin r"
    and "distinct (map ins_name (filter (\<lambda>i. ins_Origin i = OriginOfficial) result))"
    and "set seen = ins_name ` set (filter (\<lambda>i. ins_Origin i = OriginOfficial) result)"
  shows "distinct (map ins_name (filter (\<lambda>i. ins_Origin i = OriginOfficial) result')) \<and>
    set seen' = ins_name ` set (filter (\<lambda>i. ins_Origin i = OriginOfficial) result')"
  using assms
proof (induction r "is" seen result rule: keep_first_official.induct)
  case (2 r i "is" seen result)
  have o: "ins_Origin i = rt_Origin r" by (rule 2(4)) simp
  show ?case
  proof (cases "rt_Origin r = OriginOfficial \<and> ins_name i \<in> set seen")
    case True
    then show ?thesis using 2 by simp
  next
    case False
    show ?thesis
      by (rule 2(2)[OF False]) (use 2(3-) False o in \<open>auto split: if_splits\<close>)
  qed
qed simp

lemma discover_default_distinct:
  assumes "discover_default fs roots seen result = Inr is"
    and "distinct (map ins_name (filter (\<lambda>i. ins_Origin i = OriginOfficial) result))"
    and "set seen = ins_name ` set (filter (\<lambda>i. ins_Origin i = OriginOfficial) result)"
  shows "distinct (map ins_name (filter (\<lambda>i. ins_Origin i = OriginOfficial) is))"
  using assms
proof (induction fs roots seen result rule: discover_default.induct)
  case (2 fs r rs seen result)
  from 2(2) obtain discovered seen' result' where s: "DiscoverInstallations fs [r] = Inr discovered"
      "keep_first_official r discovered seen result = (seen', result')" "discover_default fs rs seen' result' = Inr is"
    by (auto split: sum.splits prod.splits)
  have "\<And>i. i \<in> set discovered \<Longrightarrow> ins_Origin i = rt_Origin r"
    using DiscoverInstallations_from[OF s(1)] by (auto simp: installed_from_def)
  from keep_first_official_distinct[OF s(2) this 2(3,4)]
  show ?case using 2(1)[OF s(1) s(2)[symmetric] s(3)] by blast
qed simp

text \<open>
  One directory of a plugin root that holds a manifest and cannot be loaded, or whose name is not that of its
  manifest, fails the whole discovery, whichever provider is wanted. Interrupted installations leave such a
  directory behind (theory Provider_Install).
\<close>

lemma discovery_all_or_nothing:
  assumes "pf_ReadDir fs (rt_Path r) = DirEntries entries" "(name, True) \<in> set entries"
    and "containsManifest fs (filepath_Join [rt_Path r, name])"
    and "\<And>m. LoadManifestDirectory fs (filepath_Join [rt_Path r, name]) = Inr m \<Longrightarrow> pm_Name (rm_Manifest m) \<noteq> name"
  shows "\<exists>err. DiscoverInstallations fs [r] = Inl err"
proof -
  have "\<exists>err. discover_entries fs r entries result = Inl err" for result
    using assms(2-4)
    by (induction fs r entries result rule: discover_entries.induct) (auto simp: Let_def split: sum.splits)
  from this[of "[]"] show ?thesis using assms(1) by (auto simp: DiscoverInstallations_def)
qed

subsection \<open>Whom the registry trusts\<close>

lemma map_sum_Inr: "map_sum f id x = Inr r \<longleftrightarrow> x = Inr r"
  by (cases x) auto

lemma shipped_distinct: "distinct (map pr_Name Shipped)"
  by (simp add: Shipped_def shipped_def)

text \<open>
  C27. Whatever the plugin roots hold, an installed provider of the default registry was loaded from the
  directory of its own name in one of the roots and has the origin of that root. If the root is official the
  provider is a shipped one and uses that provider's table; if it is custom it never has a shipped provider's
  name, and it uses the generic table or a table of the catalog. A custom root can thus not pass off a plugin
  as an official provider.
\<close>

theorem default_registry_trusted:
  assumes "default_registry pe fs = Inr r" "Registry_Resolve r n = Inr d"
  shows "\<exists>roots root i. DefaultRoots pe fs = Inr roots \<and> root \<in> set roots \<and> installed_from fs root i \<and> ins_name i = n \<and>
    Manifest_Validate (rm_Manifest (ins_Manifest i)) = None \<and> d = installed_descriptor Shipped i (pd_ResourceTable d) \<and>
    (case rt_Origin root of
       OriginOfficial \<Rightarrow> \<exists>p \<in> set Shipped. pr_Name p = n \<and> pd_ResourceTable d = pr_ResourceTable p
     | OriginCustom \<Rightarrow> n \<notin> set Provider_Names \<and> pd_ResourceTable d \<in> insert CustomResourceTable (pr_ResourceTable ` set Shipped))"
proof -
  from assms(1) obtain roots "is" where r: "DefaultRoots pe fs = Inr roots" "discoverDefaultInstallations fs roots = Inr is"
      "NewRegistry Shipped is = Inr r"
    by (auto simp: default_registry_def map_sum_Inr split: sum.splits)
  from assms(2) have m: "map_of r n = Some d" "pd_Installed d" by (auto simp: Registry_Resolve_def split: option.splits if_splits)
  with registry_entries[OF shipped_distinct r(3), of n d] have "pd_Name d = n" "d \<in> registered Shipped is" by blast+
  with m(2) obtain i table where i: "i \<in> set is" "registers_as Shipped i table" "d = installed_descriptor Shipped i table" "ins_name i = n"
    unfolding registered_def by fastforce
  have "discover_default fs roots [] [] = Inr is" using r(2) by (simp only: discoverDefaultInstallations_def)
  from discover_default_from[OF this i(1)] obtain root where root: "root \<in> set roots" "installed_from fs root i" by auto
  have valid: "Manifest_Validate (rm_Manifest (ins_Manifest i)) = None"
    using NewRegistry_iff[OF shipped_distinct] r(3) i(1) by blast
  have o: "ins_Origin i = rt_Origin root" using root(2) by (simp add: installed_from_def)
  have "case rt_Origin root of
       OriginOfficial \<Rightarrow> \<exists>p \<in> set Shipped. pr_Name p = n \<and> pd_ResourceTable d = pr_ResourceTable p
     | OriginCustom \<Rightarrow> n \<notin> set Provider_Names \<and> pd_ResourceTable d \<in> insert CustomResourceTable (pr_ResourceTable ` set Shipped)"
  proof (cases "ins_Origin i")
    case OriginOfficial
    then have "\<exists>p \<in> set Shipped. pr_Name p = n \<and> pd_ResourceTable d = pr_ResourceTable p"
      using i(2-4) by (auto simp: registers_as_def Let_def list_ex_iff ins_name_def)
    then show ?thesis using OriginOfficial o by simp
  next
    case OriginCustom
    then have "n \<notin> set (map pr_Name Shipped)" "pd_ResourceTable d \<in> insert CustomResourceTable (pr_ResourceTable ` set Shipped)"
      using i(2-4) unfolding registers_as_def Let_def ins_name_def by (auto split: if_splits)
    then show ?thesis using OriginCustom o by (simp add: Provider_Names_def Shipped_def)
  qed
  moreover have "d = installed_descriptor Shipped i (pd_ResourceTable d)" using i(3) by simp
  ultimately show ?thesis using r(1) root valid i(4) by blast
qed

subsection \<open>A custom installation\<close>

definition demo_acme :: Manifest where
  "demo_acme = \<lparr>pm_SchemaVersion = ''1'', pm_Name = ''acme'', pm_DisplayName = [], pm_Description = [], pm_Version = ''1'', pm_Protocol = 2,
     pm_Executable = ''run'', pm_Capabilities = [''batch_scan''], pm_DefaultScopes = [], pm_Storage = \<lparr>sm_Mode = [], sm_Table = []\<rparr>\<rparr>"

definition demo_acme_installation :: Installation where
  "demo_acme_installation = \<lparr>ins_Manifest = \<lparr>rm_Manifest = demo_acme, rm_ManifestPath = ''/h/.corkscrew/plugins/acme/plugin.json'',
     rm_ExecutablePath = ''/h/.corkscrew/plugins/acme/run''\<rparr>, ins_Origin = OriginCustom\<rparr>"

definition demo_plugin_files :: plugin_files where
  "demo_plugin_files = \<lparr>
     pf_Stat = (\<lambda>p. if p = ''/h/.corkscrew/plugins/acme/plugin.json'' then StatOK \<lparr>fi_IsDir = False, fi_IsRegular = True, fi_Executable = False\<rparr>
       else if p = ''/h/.corkscrew/plugins/acme/run'' then StatOK \<lparr>fi_IsDir = False, fi_IsRegular = True, fi_Executable = True\<rparr> else StatMissing),
     pf_ReadDir = (\<lambda>p. if p = ''/h/.corkscrew/plugins'' then DirEntries [(''acme'', True)] else NoSuchDir),
     pf_ReadFile = (\<lambda>p. Inr ''{}''), pf_EvalSymlinks = Inr, pf_decode_json = (\<lambda>data. Inr demo_acme), pf_decode_yaml = (\<lambda>data. Inl ''no'')\<rparr>"

definition demo_plugin_environment :: plugin_environment where
  "demo_plugin_environment = \<lparr>pe_home = Inr ''/h'', pe_plugin_dir = []\<rparr>"

lemma demo_acme_valid: "Manifest_Validate demo_acme = None"
  by code_simp

theorem registry_exact_witness: "\<exists>r. NewRegistry Shipped [demo_acme_installation] = Inr r"
proof -
  have "registers_as Shipped demo_acme_installation CustomResourceTable" by code_simp
  moreover have "\<forall>p \<in> set Shipped. pr_ResourceTable p \<noteq> []" by (simp add: Shipped_def shipped_def)
  ultimately show ?thesis
    using registry_exact[OF shipped_distinct insertion_slices.slice_sorting_axioms, of id "[demo_acme_installation]"] demo_acme_valid
    by (auto simp: demo_acme_installation_def)
qed

lemma demo_default_registry:
  "\<exists>r d. default_registry demo_plugin_environment demo_plugin_files = Inr r \<and> Registry_Resolve r ''acme'' = Inr d"
proof -
  have "case default_registry demo_plugin_environment demo_plugin_files of Inl _ \<Rightarrow> False
    | Inr r \<Rightarrow> (case Registry_Resolve r ''acme'' of Inl _ \<Rightarrow> False | Inr d \<Rightarrow> True)"
    by code_simp
  then show ?thesis by (auto split: sum.splits)
qed

theorem default_registry_trusted_witness:
  "\<exists>r d root i. default_registry demo_plugin_environment demo_plugin_files = Inr r \<and> Registry_Resolve r ''acme'' = Inr d \<and>
     installed_from demo_plugin_files root i \<and> d = installed_descriptor Shipped i (pd_ResourceTable d)"
proof -
  obtain r d where r: "default_registry demo_plugin_environment demo_plugin_files = Inr r" "Registry_Resolve r ''acme'' = Inr d"
    using demo_default_registry by blast
  from default_registry_trusted[OF r] r show ?thesis by blast
qed

end
