(* ===== verification/Provider_Install.thy ===== *)
theory Provider_Install imports Provider_Registry begin

text \<open>
  internal/provider/install.go: installing a plugin below a managed root. The disk is a map from absolute
  paths, as their components, to what is there; each operating system call may fail. A run keeps every
  state of the disk, newest first, so that what a crash at any moment would leave is part of the model.
  There are no symbolic links below the managed root.
\<close>

subsection \<open>The disk\<close>

datatype node = Directory | RegularFile string bool

type_synonym disk = "string list \<Rightarrow> node option"
type_synonym run = "disk list"

datatype disk_call =
    CallMkdir "string list"
  | CallStat string
  | CallReadFile string
  | CallEvalSymlinks string
  | CallMkdirTemp string
  | CallOpen string
  | CallCreate string
  | CallCopy string
  | CallClose string
  | CallWriteFile string
  | CallRemove string
  | CallRename string string
  | CallRemoveAll string

text \<open>
  The outcome of each call, the random part of a temporary name, what a failed write leaves of a file and
  what a failed removal leaves of a directory, directory listings, and JSON and YAML.
\<close>

record disk_env =
  de_fault :: "disk_call \<Rightarrow> string option"
  de_random :: "string \<Rightarrow> disk \<Rightarrow> nat"
  de_partial :: "string \<Rightarrow> string \<Rightarrow> string"
  de_keeps :: "string list \<Rightarrow> bool"
  de_listing :: "disk \<Rightarrow> string \<Rightarrow> dir_listing"
  de_encode :: "Manifest \<Rightarrow> string + string"
  de_decode_json :: "string \<Rightarrow> string + Manifest"
  de_decode_yaml :: "string \<Rightarrow> string + Manifest"

definition not_found :: string where
  "not_found = ''no such file or directory''"

definition node_info :: "node \<Rightarrow> file_info" where
  "node_info n = (case n of
     Directory \<Rightarrow> \<lparr>fi_IsDir = True, fi_IsRegular = False, fi_Executable = True\<rparr>
   | RegularFile _ x \<Rightarrow> \<lparr>fi_IsDir = False, fi_IsRegular = True, fi_Executable = x\<rparr>)"

definition os_Stat :: "disk_env \<Rightarrow> disk \<Rightarrow> string \<Rightarrow> stat_answer" where
  "os_Stat env d p = (case de_fault env (CallStat p) of
     Some err \<Rightarrow> StatFails err
   | None \<Rightarrow> (case d (abs_comps p) of None \<Rightarrow> StatMissing | Some n \<Rightarrow> StatOK (node_info n)))"

definition os_ReadFile :: "disk_env \<Rightarrow> disk \<Rightarrow> string \<Rightarrow> string + string" where
  "os_ReadFile env d p = (case de_fault env (CallReadFile p) of
     Some err \<Rightarrow> Inl err
   | None \<Rightarrow> (case d (abs_comps p) of Some (RegularFile data _) \<Rightarrow> Inr data | Some Directory \<Rightarrow> Inl ''is a directory'' | None \<Rightarrow> Inl not_found))"

definition eval_symlinks :: "disk_env \<Rightarrow> disk \<Rightarrow> string \<Rightarrow> string + string" where
  "eval_symlinks env d p = (case de_fault env (CallEvalSymlinks p) of
     Some err \<Rightarrow> Inl err
   | None \<Rightarrow> if d (abs_comps p) = None then Inl not_found else Inr (filepath_Clean p))"

definition disk_files :: "disk_env \<Rightarrow> disk \<Rightarrow> plugin_files" where
  "disk_files env d = \<lparr>pf_Stat = os_Stat env d, pf_ReadDir = de_listing env d, pf_ReadFile = os_ReadFile env d,
     pf_EvalSymlinks = eval_symlinks env d, pf_decode_json = de_decode_json env, pf_decode_yaml = de_decode_yaml env\<rparr>"

text \<open>\<open>os.MkdirAll\<close> makes the missing directories of a path, outermost first.\<close>

fun mkdir_all :: "disk_env \<Rightarrow> string list \<Rightarrow> string list \<Rightarrow> run \<Rightarrow> string option \<times> run" where
  "mkdir_all env made [] r = (None, r)"
| "mkdir_all env made (c # cs) r = (let p = made @ [c] in
     (case hd r p of
        Some Directory \<Rightarrow> mkdir_all env p cs r
      | Some (RegularFile _ _) \<Rightarrow> (Some ''not a directory'', r)
      | None \<Rightarrow> (case de_fault env (CallMkdir p) of
          Some err \<Rightarrow> (Some err, r)
        | None \<Rightarrow> mkdir_all env p cs ((hd r)(p \<mapsto> Directory) # r))))"

text \<open>A call that changes the disk: its error, or the state after it.\<close>

definition os_MkdirTemp :: "disk_env \<Rightarrow> string \<Rightarrow> string \<Rightarrow> run \<Rightarrow> (string + string) \<times> run" where
  "os_MkdirTemp env dir pattern r = (let p = filepath_Join [dir, pattern @ digits_of (de_random env pattern (hd r))]; cs = abs_comps p in
     (case de_fault env (CallMkdirTemp p) of
        Some err \<Rightarrow> (Inl err, r)
      | None \<Rightarrow> if hd r cs \<noteq> None then (Inl ''file exists'', r)
          else (Inr p, (\<lambda>q. if q = cs then Some Directory else if prefix cs q then None else hd r q) # r)))"

definition os_WriteFile :: "disk_env \<Rightarrow> string \<Rightarrow> string \<Rightarrow> run \<Rightarrow> string option \<times> run" where
  "os_WriteFile env p data r = (let cs = abs_comps p;
       mode = (case hd r cs of Some (RegularFile _ x) \<Rightarrow> x | _ \<Rightarrow> False) in
     if hd r cs = Some Directory then (Some ''is a directory'', r)
     else (case de_fault env (CallWriteFile p) of
        Some err \<Rightarrow> (Some err, (hd r)(cs \<mapsto> RegularFile (de_partial env p data) mode) # r)
      | None \<Rightarrow> (None, (hd r)(cs \<mapsto> RegularFile data mode) # r)))"

text \<open>Removes the empty directory just made.\<close>

definition os_Remove :: "disk_env \<Rightarrow> string \<Rightarrow> run \<Rightarrow> string option \<times> run" where
  "os_Remove env p r = (case de_fault env (CallRemove p) of
     Some err \<Rightarrow> (Some err, r)
   | None \<Rightarrow> (None, (hd r)(abs_comps p := None) # r))"

definition move :: "string list \<Rightarrow> string list \<Rightarrow> disk \<Rightarrow> disk" where
  "move src dst d = (\<lambda>q. if prefix dst q then d (src @ drop (length dst) q) else if prefix src q then None else d q)"

text \<open>Renames a directory; an existing target is an error.\<close>

definition os_Rename :: "disk_env \<Rightarrow> string \<Rightarrow> string \<Rightarrow> run \<Rightarrow> string option \<times> run" where
  "os_Rename env src dst r = (case de_fault env (CallRename src dst) of
     Some err \<Rightarrow> (Some err, r)
   | None \<Rightarrow> if hd r (abs_comps src) = None then (Some not_found, r)
       else if hd r (abs_comps dst) \<noteq> None then (Some ''file exists'', r)
       else (None, move (abs_comps src) (abs_comps dst) (hd r) # r))"

definition os_RemoveAll :: "disk_env \<Rightarrow> string \<Rightarrow> run \<Rightarrow> run" where
  "os_RemoveAll env p r = (let keeps = (if de_fault env (CallRemoveAll p) = None then (\<lambda>_. False) else de_keeps env) in
     (\<lambda>q. if prefix (abs_comps p) q \<and> \<not> keeps q then None else hd r q) # r)"

subsection \<open>Installing\<close>

datatype install_failure =
    LoadSource load_error
  | Refused registry_error
  | CreateRoot string
  | NotADirectory string
  | InspectDirectory string
  | CreateTemporary string
  | OpenExecutable string
  | CreateExecutable string
  | CopyExecutable string
  | CloseExecutable string
  | EncodeManifest string
  | WriteManifest string
  | CreateReplacement string
  | PrepareReplacement string
  | Deactivate string
  | Activate string
  | RestoreFailed string string string string
  | LoadInstalled load_error

definition copyExecutable :: "disk_env \<Rightarrow> string \<Rightarrow> string \<Rightarrow> run \<Rightarrow> install_failure option \<times> run" where
  "copyExecutable env source destination r = (let cs = abs_comps destination in
     (case (de_fault env (CallOpen source), hd r (abs_comps source)) of
        (Some err, _) \<Rightarrow> (Some (OpenExecutable err), r)
      | (None, None) \<Rightarrow> (Some (OpenExecutable not_found), r)
      | (None, Some inode) \<Rightarrow>
          if de_fault env (CallCreate destination) \<noteq> None then (Some (CreateExecutable (the (de_fault env (CallCreate destination)))), r)
          else if hd r cs \<noteq> None then (Some (CreateExecutable ''file exists''), r)
          else (let created = (hd r)(cs \<mapsto> RegularFile [] True) # r in
            (case inode of
               Directory \<Rightarrow> (Some (CopyExecutable ''is a directory''), created)
             | RegularFile data _ \<Rightarrow> (case de_fault env (CallCopy destination) of
                 Some err \<Rightarrow> (Some (CopyExecutable err), (hd r)(cs \<mapsto> RegularFile (de_partial env destination data) True) # created)
               | None \<Rightarrow> (let copied = (hd r)(cs \<mapsto> RegularFile data True) # created in
                   (case de_fault env (CallClose destination) of
                      Some err \<Rightarrow> (Some (CloseExecutable err), copied)
                    | None \<Rightarrow> (None, copied))))))))"

text \<open>The new installation in its temporary directory.\<close>

definition stage :: "disk_env \<Rightarrow> ResolvedManifest \<Rightarrow> string \<Rightarrow> run \<Rightarrow> install_failure option \<times> run" where
  "stage env source temporary r =
     (case copyExecutable env (rm_ExecutablePath source) (filepath_Join [temporary, pm_Executable (rm_Manifest source)]) r of
        (Some err, r) \<Rightarrow> (Some err, r)
      | (None, r) \<Rightarrow> (case de_encode env (rm_Manifest source) of
          Inl err \<Rightarrow> (Some (EncodeManifest err), r)
        | Inr data \<Rightarrow> (case os_WriteFile env (filepath_Join [temporary, ''plugin.json'']) (data @ [CHR 0x0A]) r of
            (Some err, r) \<Rightarrow> (Some (WriteManifest err), r)
          | (None, r) \<Rightarrow> (None, r))))"

text \<open>Moves an existing installation out of the way; the path it is at then.\<close>

definition set_aside :: "disk_env \<Rightarrow> string \<Rightarrow> string \<Rightarrow> string \<Rightarrow> run \<Rightarrow> (install_failure + string) \<times> run" where
  "set_aside env destinationRoot name destination r =
     (case os_MkdirTemp env destinationRoot (''.replace-'' @ name @ ''-'') r of
        (Inl err, r) \<Rightarrow> (Inl (CreateReplacement err), r)
      | (Inr backup, r) \<Rightarrow> (case os_Remove env backup r of
          (Some err, r) \<Rightarrow> (Inl (PrepareReplacement err), r)
        | (None, r) \<Rightarrow> (case os_Rename env destination backup r of
            (Some err, r) \<Rightarrow> (Inl (Deactivate err), r)
          | (None, r) \<Rightarrow> (Inr backup, r))))"

definition activate :: "disk_env \<Rightarrow> string \<Rightarrow> string \<Rightarrow> string option \<Rightarrow> run \<Rightarrow> install_failure option \<times> run" where
  "activate env temporary destination backup r = (case os_Rename env temporary destination r of
     (Some err, r) \<Rightarrow> (case backup of
         None \<Rightarrow> (Some (Activate err), r)
       | Some backup \<Rightarrow> (case os_Rename env backup destination r of
           (Some restoreErr, r) \<Rightarrow> (Some (RestoreFailed err backup destination restoreErr), r)
         | (None, r) \<Rightarrow> (Some (Activate err), r)))
   | (None, r) \<Rightarrow> (None, (case backup of None \<Rightarrow> r | Some backup \<Rightarrow> os_RemoveAll env backup r)))"

definition replace :: "disk_env \<Rightarrow> ResolvedManifest \<Rightarrow> string \<Rightarrow> string \<Rightarrow> bool \<Rightarrow> string \<Rightarrow> run \<Rightarrow> install_failure option \<times> run" where
  "replace env source destinationRoot destination destinationExists temporary r =
     (case stage env source temporary r of
        (Some err, r) \<Rightarrow> (Some err, r)
      | (None, r) \<Rightarrow>
          if destinationExists then (case set_aside env destinationRoot (pm_Name (rm_Manifest source)) destination r of
              (Inl err, r) \<Rightarrow> (Some err, r)
            | (Inr backup, r) \<Rightarrow> activate env temporary destination (Some backup) r)
          else activate env temporary destination None r)"

text \<open>
  \<open>LoadManifestDirectory\<close> is called before the deferred removal of the temporary directory, which after the
  activation is no longer there.
\<close>

definition install_into :: "disk_env \<Rightarrow> ResolvedManifest \<Rightarrow> string \<Rightarrow> string \<Rightarrow> bool \<Rightarrow> run \<Rightarrow> (install_failure + ResolvedManifest) \<times> run" where
  "install_into env source destinationRoot destination destinationExists r =
     (case os_MkdirTemp env destinationRoot (''.install-'' @ pm_Name (rm_Manifest source) @ ''-'') r of
        (Inl err, r) \<Rightarrow> (Inl (CreateTemporary err), r)
      | (Inr temporary, r) \<Rightarrow> (case replace env source destinationRoot destination destinationExists temporary r of
          (Some err, r) \<Rightarrow> (Inl err, os_RemoveAll env temporary r)
        | (None, r) \<Rightarrow> (map_sum LoadInstalled id (LoadManifestDirectory (disk_files env (hd r)) destination), os_RemoveAll env temporary r)))"

definition installManaged :: "disk_env \<Rightarrow> ResolvedManifest \<Rightarrow> string \<Rightarrow> run \<Rightarrow> (install_failure + ResolvedManifest) \<times> run" where
  "installManaged env source destinationRoot r = (case mkdir_all env [] (abs_comps destinationRoot) r of
     (Some err, r) \<Rightarrow> (Inl (CreateRoot err), r)
   | (None, r) \<Rightarrow> (let destination = filepath_Join [destinationRoot, pm_Name (rm_Manifest source)] in
       (case os_Stat env (hd r) destination of
          StatOK info \<Rightarrow> if \<not> fi_IsDir info then (Inl (NotADirectory destination), r)
            else install_into env source destinationRoot destination True r
        | StatMissing \<Rightarrow> install_into env source destinationRoot destination False r
        | StatFails err \<Rightarrow> (Inl (InspectDirectory err), r))))"

definition install_as :: "Origin \<Rightarrow> disk_env \<Rightarrow> string \<Rightarrow> string \<Rightarrow> Provider list \<Rightarrow> run \<Rightarrow> (install_failure + ResolvedManifest \<times> ResolvedManifest) \<times> run" where
  "install_as origin env manifestPath destinationRoot official r =
     (case LoadManifestDirectory (disk_files env (hd r)) (filepath_Dir manifestPath) of
        Inl err \<Rightarrow> (Inl (LoadSource err), r)
      | Inr source \<Rightarrow> (case resourceTableForRegistration (rm_Manifest source) origin official of
          Inl err \<Rightarrow> (Inl (Refused err), r)
        | Inr _ \<Rightarrow> (case installManaged env source destinationRoot r of
            (Inl err, r) \<Rightarrow> (Inl err, r)
          | (Inr installed, r) \<Rightarrow> (Inr (source, installed), r))))"

text \<open>A custom installation is announced, naming the provider and the unsigned executable.\<close>

definition InstallCustom :: "disk_env \<Rightarrow> string \<Rightarrow> string \<Rightarrow> Provider list \<Rightarrow> run \<Rightarrow> (install_failure + ResolvedManifest) \<times> (string \<times> string) list \<times> run" where
  "InstallCustom env manifestPath destinationRoot official r = (case install_as OriginCustom env manifestPath destinationRoot official r of
     (Inl err, r) \<Rightarrow> (Inl err, [], r)
   | (Inr (source, installed), r) \<Rightarrow> (Inr installed, [(pm_Name (rm_Manifest source), rm_ExecutablePath source)], r))"

definition InstallOfficial :: "disk_env \<Rightarrow> string \<Rightarrow> string \<Rightarrow> Provider list \<Rightarrow> run \<Rightarrow> (install_failure + ResolvedManifest) \<times> run" where
  "InstallOfficial env manifestPath destinationRoot official r = (case install_as OriginOfficial env manifestPath destinationRoot official r of
     (Inl err, r) \<Rightarrow> (Inl err, r)
   | (Inr (source, installed), r) \<Rightarrow> (Inr installed, r))"

subsection \<open>What a run changes\<close>

definition tree :: "disk \<Rightarrow> string list \<Rightarrow> disk" where
  "tree d p = (\<lambda>q. d (p @ q))"

abbreviation nothing :: disk where
  "nothing \<equiv> (\<lambda>_. None)"

definition outside :: "string list \<Rightarrow> disk \<Rightarrow> disk \<Rightarrow> bool" where
  "outside p d d' \<longleftrightarrow> (\<forall>q. \<not> prefix p q \<longrightarrow> d' q = d q)"

text \<open>A run goes on from the state it is in, and every new state satisfies \<open>P\<close>.\<close>

definition goes_on :: "(disk \<Rightarrow> bool) \<Rightarrow> run \<Rightarrow> run \<Rightarrow> bool" where
  "goes_on P r r' \<longleftrightarrow> (\<exists>new. r' = new @ r \<and> (\<forall>d \<in> set new. P d))"

lemma goes_on_refl [simp]: "goes_on P r r"
  by (simp add: goes_on_def)

lemma goes_on_Cons: "goes_on P r r' \<Longrightarrow> P d \<Longrightarrow> goes_on P r (d # r')"
  unfolding goes_on_def by (metis append_Cons set_ConsD)

lemma goes_on_one: "P d \<Longrightarrow> goes_on P r (d # r)"
  by (simp add: goes_on_Cons)

lemma goes_on_two: "P d \<Longrightarrow> P d' \<Longrightarrow> goes_on P r (d' # d # r)"
  by (simp add: goes_on_Cons)

lemma goes_on_trans: "goes_on P r r' \<Longrightarrow> goes_on P r' r'' \<Longrightarrow> goes_on P r r''"
  unfolding goes_on_def by (metis Un_iff append.assoc set_append)

lemma goes_on_mono: "goes_on P r r' \<Longrightarrow> (\<And>d. P d \<Longrightarrow> Q d) \<Longrightarrow> goes_on Q r r'"
  unfolding goes_on_def by blast

lemma goes_on_hd: "goes_on P r r' \<Longrightarrow> P (hd r) \<Longrightarrow> P (hd r')"
  unfolding goes_on_def by (metis append_self_conv2 hd_append2 list.set_sel(1))

lemma goes_on_all: "goes_on P [d] r \<Longrightarrow> P d \<Longrightarrow> s \<in> set r \<Longrightarrow> P s"
  by (auto simp: goes_on_def)

lemma goes_on_Nil: "goes_on P r r' \<Longrightarrow> r \<noteq> [] \<Longrightarrow> r' \<noteq> []"
  by (auto simp: goes_on_def)

lemma outside_tree: "outside p d d' \<Longrightarrow> \<not> prefix p q \<Longrightarrow> \<not> prefix q p \<Longrightarrow> tree d' q = tree d q"
  unfolding outside_def tree_def by (metis prefix_append prefix_order.trans prefixI prefix_same_cases)

lemma siblings: "prefix (cs @ [a]) (cs @ [b]) \<longleftrightarrow> a = b"
  by simp

lemma outside_refl [simp]: "outside p d d"
  by (simp add: outside_def)

lemma outside_trans: "outside p d d' \<Longrightarrow> outside p d' d'' \<Longrightarrow> outside p d d''"
  by (simp add: outside_def)

lemma outside_upd: "prefix p q \<Longrightarrow> outside p d (d(q := x))"
  by (auto simp: outside_def)

text \<open>Making directories only adds directories on the way.\<close>

definition grown :: "string list \<Rightarrow> disk \<Rightarrow> disk \<Rightarrow> bool" where
  "grown p d d' \<longleftrightarrow> (\<forall>q. d' q = d q \<or> d q = None \<and> d' q = Some Directory \<and> prefix q p)"

lemma mkdir_all_goes_on:
  "mkdir_all env made cs r = (err, r') \<Longrightarrow> grown (made @ cs) d (hd r) \<Longrightarrow> goes_on (grown (made @ cs) d) r r'"
proof (induction env made cs r arbitrary: r' rule: mkdir_all.induct)
  case (2 env made c cs r)
  let ?p = "made @ [c]"
  show ?case
  proof (cases "hd r ?p")
    case None
    show ?thesis
    proof (cases "de_fault env (CallMkdir ?p)")
      case ok: None
      have g: "grown (?p @ cs) d ((hd r)(?p \<mapsto> Directory))"
        using 2(4) None spec[OF 2(4)[unfolded grown_def], of ?p] by (auto simp: grown_def)
      have "mkdir_all env ?p cs ((hd r)(?p \<mapsto> Directory) # r) = (err, r')" using 2(3) None ok by (simp add: Let_def)
      from 2(1)[OF refl None ok this] g
      have "goes_on (grown (?p @ cs) d) ((hd r)(?p \<mapsto> Directory) # r) r'" by (simp only: list.sel)
      then show ?thesis using goes_on_trans[OF goes_on_one[of "grown (?p @ cs) d", OF g, of r]] by simp
    next
      case (Some e)
      with 2(3) None show ?thesis by (simp add: Let_def)
    qed
  next
    case (Some n)
    with 2(2)[OF refl, of n] 2(3,4) show ?thesis by (cases n) (auto simp: Let_def)
  qed
qed simp

lemma grown_tree: "grown p d d' \<Longrightarrow> \<not> prefix q p \<Longrightarrow> tree d' q = tree d q"
  unfolding grown_def tree_def by (metis append_prefixD)

lemma Join_below:
  assumes "list_all normal_comp cs" "normal_comp n"
  shows "filepath_Join [abs_path cs, n] = abs_path (cs @ [n])" "abs_comps (filepath_Join [abs_path cs, n]) = cs @ [n]"
proof -
  have split: "strings_Split n (CHR ''/'') = [n]"
    using Split_Join[of "[n]" "CHR ''/''"] assms(2) by (simp add: normal_comp_def)
  show "filepath_Join [abs_path cs, n] = abs_path (cs @ [n])"
    using assms by (simp add: Join_abs_path split normal_comp_def)
  with assms show "abs_comps (filepath_Join [abs_path cs, n]) = cs @ [n]" by simp
qed

lemma copyExecutable_run:
  assumes "copyExecutable env source destination r = (err, r')" "prefix p (abs_comps destination)"
  shows "goes_on (outside p (hd r)) r r' \<and> (err = None \<longrightarrow> (\<exists>data x. hd r (abs_comps source) = Some (RegularFile data x) \<and>
    hd r' = (hd r)(abs_comps destination \<mapsto> RegularFile data True)))"
proof -
  have o: "outside p (hd r) ((hd r)(abs_comps destination \<mapsto> n))" for n using assms(2) by (rule outside_upd)
  note g = goes_on_one[of "outside p (hd r)", OF o] goes_on_two[of "outside p (hd r)", OF o o]
  show ?thesis
    using assms(1) g by (auto simp: copyExecutable_def Let_def split: option.splits node.splits if_splits)
qed

lemma os_WriteFile_run:
  assumes "os_WriteFile env path data r = (err, r')" "prefix p (abs_comps path)"
  shows "goes_on (outside p (hd r)) r r' \<and> (err = None \<longrightarrow> hd r' = (hd r)(abs_comps path \<mapsto> RegularFile data
    (case hd r (abs_comps path) of Some (RegularFile _ x) \<Rightarrow> x | _ \<Rightarrow> False)))"
proof -
  have o: "outside p (hd r) ((hd r)(abs_comps path \<mapsto> n))" for n using assms(2) by (rule outside_upd)
  show ?thesis
    using assms(1) goes_on_one[of "outside p (hd r)", OF o] by (auto simp: os_WriteFile_def Let_def split: option.splits if_splits)
qed

lemma os_MkdirTemp_run:
  assumes "os_MkdirTemp env (abs_path cs) pattern r = (res, r')" "list_all normal_comp cs" "\<And>n. normal_comp (pattern @ digits_of n)"
  shows "(\<exists>err. res = Inl err \<and> r' = r) \<or> (\<exists>n. res = Inr (abs_path (cs @ [pattern @ digits_of n])) \<and>
    hd r (cs @ [pattern @ digits_of n]) = None \<and> (\<exists>d. r' = d # r \<and> outside (cs @ [pattern @ digits_of n]) (hd r) d \<and>
      tree d (cs @ [pattern @ digits_of n]) = [[] \<mapsto> Directory]))"
proof -
  let ?n = "de_random env pattern (hd r)" and ?p = "cs @ [pattern @ digits_of (de_random env pattern (hd r))]"
  let ?d = "\<lambda>q. if q = ?p then Some Directory else if prefix ?p q then None else hd r q"
  have j: "filepath_Join [abs_path cs, pattern @ digits_of ?n] = abs_path ?p" "abs_comps (abs_path ?p) = ?p"
    using Join_below[OF assms(2,3)] assms(2,3) by simp_all
  have "outside ?p (hd r) ?d" by (auto simp: outside_def)
  moreover have "tree ?d ?p = [[] \<mapsto> Directory]" by (auto simp: tree_def)
  moreover have "(\<exists>err. res = Inl err \<and> r' = r) \<or> res = Inr (abs_path ?p) \<and> hd r ?p = None \<and> r' = ?d # r"
    using assms(1) unfolding os_MkdirTemp_def Let_def j by (auto split: option.splits if_splits)
  ultimately show ?thesis by blast
qed

lemma os_RemoveAll_run: "os_RemoveAll env path r = d # r \<Longrightarrow> outside (abs_comps path) (hd r) d"
  by (auto simp: os_RemoveAll_def Let_def outside_def)

lemma os_RemoveAll_eq: "\<exists>d. os_RemoveAll env path r = d # r \<and> outside (abs_comps path) (hd r) d"
  using os_RemoveAll_run[of env path r] by (simp add: os_RemoveAll_def Let_def)

text \<open>A successful rename moves the whole tree and leaves everything else.\<close>

lemma os_Rename_run:
  assumes "os_Rename env src dst r = (err, r')" "\<not> prefix (abs_comps dst) (abs_comps src)" "\<not> prefix (abs_comps src) (abs_comps dst)"
  shows "(err \<noteq> None \<and> r' = r) \<or> (err = None \<and> hd r (abs_comps dst) = None \<and> (\<exists>d. r' = d # r \<and> tree d (abs_comps dst) = tree (hd r) (abs_comps src) \<and>
    tree d (abs_comps src) = nothing \<and> (\<forall>q. \<not> prefix (abs_comps src) q \<and> \<not> prefix (abs_comps dst) q \<longrightarrow> d q = hd r q)))"
proof -
  let ?d = "move (abs_comps src) (abs_comps dst) (hd r)"
  have "tree ?d (abs_comps dst) = tree (hd r) (abs_comps src)" by (auto simp: tree_def move_def)
  moreover have "tree ?d (abs_comps src) = nothing"
    using assms(2,3) unfolding tree_def move_def by (metis prefix_append prefix_same_cases append_prefixD prefixI)
  moreover have "\<forall>q. \<not> prefix (abs_comps src) q \<and> \<not> prefix (abs_comps dst) q \<longrightarrow> ?d q = hd r q"
    by (simp add: move_def)
  moreover have "(err \<noteq> None \<and> r' = r) \<or> (err = None \<and> hd r (abs_comps dst) = None \<and> r' = ?d # r)"
  proof (cases "de_fault env (CallRename src dst)")
    case None
    then show ?thesis using assms(1) by (auto simp: os_Rename_def split: if_splits)
  next
    case (Some e)
    then have "os_Rename env src dst r = (Some e, r)" by (simp add: os_Rename_def)
    with assms(1) show ?thesis by auto
  qed
  ultimately show ?thesis by blast
qed

subsection \<open>Staging and swapping\<close>

text \<open>A whole installation: the executable as copied and the manifest as encoded, relative to its directory.\<close>

definition package :: "string \<Rightarrow> string \<Rightarrow> string \<Rightarrow> disk" where
  "package executable bytes json = [[] \<mapsto> Directory, [executable] \<mapsto> RegularFile bytes True,
     [''plugin.json''] \<mapsto> RegularFile json (executable = ''plugin.json'')]"

definition new_installation :: "disk_env \<Rightarrow> ResolvedManifest \<Rightarrow> disk \<Rightarrow> disk \<Rightarrow> bool" where
  "new_installation env source d t \<longleftrightarrow> (\<exists>bytes x json. d (abs_comps (rm_ExecutablePath source)) = Some (RegularFile bytes x) \<and>
     de_encode env (rm_Manifest source) = Inr json \<and> t = package (pm_Executable (rm_Manifest source)) bytes (json @ [CHR 0x0A]))"

lemma plugin_json_comp: "normal_comp ''plugin.json''"
  by (simp add: normal_comp_def)

lemma stage_run:
  assumes "stage env source (abs_path t) r = (err, r')" "list_all normal_comp t" "normal_comp (pm_Executable (rm_Manifest source))"
    and "tree (hd r) t = [[] \<mapsto> Directory]"
  shows "goes_on (outside t (hd r)) r r' \<and> (err = None \<longrightarrow> new_installation env source (hd r) (tree (hd r') t))"
proof -
  let ?x = "pm_Executable (rm_Manifest source)" and ?src = "rm_ExecutablePath source"
  have x: "abs_comps (filepath_Join [abs_path t, ?x]) = t @ [?x]" by (rule Join_below(2)[OF assms(2,3)])
  have j: "abs_comps (filepath_Join [abs_path t, ''plugin.json'']) = t @ [''plugin.json'']"
    by (rule Join_below(2)[OF assms(2) plugin_json_comp])
  obtain e1 r1 where c: "copyExecutable env ?src (filepath_Join [abs_path t, ?x]) r = (e1, r1)" by fastforce
  note c1 = copyExecutable_run[OF c, unfolded x, of t]
  then have g1: "goes_on (outside t (hd r)) r r1" by simp
  show ?thesis
  proof (cases "e1 = None \<and> (\<exists>json. de_encode env (rm_Manifest source) = Inr json)")
    case False
    then have "r' = r1 \<and> err \<noteq> None"
      using assms(1) c by (auto simp: stage_def split: option.splits sum.splits)
    with g1 show ?thesis by auto
  next
    case True
    then obtain json where json: "de_encode env (rm_Manifest source) = Inr json" and e1: "e1 = None" by blast
    obtain e2 r2 where w: "os_WriteFile env (filepath_Join [abs_path t, ''plugin.json'']) (json @ [CHR 0x0A]) r1 = (e2, r2)" by fastforce
    have r': "r' = r2" "err = None \<longleftrightarrow> e2 = None"
      using assms(1) c json e1 w by (auto simp: stage_def split: option.splits)
    note w2 = os_WriteFile_run[OF w, unfolded j, of t]
    have o1: "outside t (hd r) (hd r1)" by (rule goes_on_hd[OF g1]) simp
    then have "goes_on (outside t (hd r)) r1 r2"
      using w2 by (auto intro: goes_on_mono outside_trans[OF o1])
    with g1 have g: "goes_on (outside t (hd r)) r r2" by (rule goes_on_trans)
    have "new_installation env source (hd r) (tree (hd r2) t)" if "e2 = None"
    proof -
      from c1 e1 obtain data b where d: "hd r (abs_comps ?src) = Some (RegularFile data b)" "hd r1 = (hd r)(t @ [?x] \<mapsto> RegularFile data True)"
        by auto
      have at: "hd r1 (t @ q) = ([[] \<mapsto> Directory, [?x] \<mapsto> RegularFile data True]) q" for q
        using assms(4) d(2) by (auto simp: tree_def fun_eq_iff)
      have "hd r2 = (hd r1)(t @ [''plugin.json''] \<mapsto> RegularFile (json @ [CHR 0x0A]) (?x = ''plugin.json''))"
        using w2 that at[of "[''plugin.json'']"] by (auto split: if_splits)
      then have "tree (hd r2) t = package ?x data (json @ [CHR 0x0A])"
        using at by (auto simp: tree_def package_def fun_eq_iff)
      with d(1) json show ?thesis unfolding new_installation_def by blast
    qed
    with g r' show ?thesis by simp
  qed
qed

definition same_but :: "string list set \<Rightarrow> disk \<Rightarrow> disk \<Rightarrow> bool" where
  "same_but ps d d' \<longleftrightarrow> (\<forall>q. (\<forall>p \<in> ps. \<not> prefix p q) \<longrightarrow> d' q = d q)"

lemma same_but_outside: "same_but {p} d d' \<longleftrightarrow> outside p d d'"
  by (simp add: same_but_def outside_def)

lemma same_but_trans: "same_but ps d d' \<Longrightarrow> same_but qs d' d'' \<Longrightarrow> ps \<subseteq> rs \<Longrightarrow> qs \<subseteq> rs \<Longrightarrow> same_but rs d d''"
  unfolding same_but_def by (metis subsetD)

lemma same_but_tree: "same_but ps d d' \<Longrightarrow> (\<And>p. p \<in> ps \<Longrightarrow> \<not> prefix p q \<and> \<not> prefix q p) \<Longrightarrow> tree d' q = tree d q"
  unfolding same_but_def tree_def by (metis prefix_append prefix_order.trans prefixI prefix_same_cases)

lemma rename_siblings:
  assumes "os_Rename env (abs_path (cs @ [a])) (abs_path (cs @ [b])) r = (err, r')" "a \<noteq> b" "list_all normal_comp cs" "normal_comp a" "normal_comp b"
  shows "(err \<noteq> None \<and> r' = r) \<or> (err = None \<and> (\<exists>d. r' = d # r \<and> tree d (cs @ [b]) = tree (hd r) (cs @ [a]) \<and>
    tree d (cs @ [a]) = nothing \<and> same_but {cs @ [a], cs @ [b]} (hd r) d))"
proof -
  have c: "abs_comps (abs_path (cs @ [a])) = cs @ [a]" "abs_comps (abs_path (cs @ [b])) = cs @ [b]" using assms(3-5) by simp_all
  from os_Rename_run[OF assms(1), unfolded c] assms(2) show ?thesis by (auto simp: same_but_def)
qed

definition backup_name :: "string \<Rightarrow> nat \<Rightarrow> string" where
  "backup_name name n = ''.replace-'' @ name @ ''-'' @ digits_of n"

lemma digits_of_digit: "c \<in> set (digits_of n) \<Longrightarrow> (of_char c :: nat) \<in> {48..57}"
proof (induction n rule: digits_of.induct)
  case (1 n)
  have m: "n mod 10 < 10" by simp
  show ?case
  proof (cases "n < 10")
    case True
    with 1(2) show ?thesis by (subst (asm) digits_of.simps) simp
  next
    case False
    with 1(2) have "c \<in> set (digits_of (n div 10)) \<or> c = char_of (48 + n mod 10)"
      by (subst (asm) digits_of.simps) auto
    with 1(1)[OF False] m show ?thesis by fastforce
  qed
qed

lemma hidden_comp:
  assumes "normal_comp name" "CHR ''/'' \<notin> set pre"
  shows "normal_comp (pre @ name @ ''-'' @ digits_of n)"
proof -
  let ?s = "pre @ name @ ''-'' @ digits_of n"
  have "CHR ''-'' \<in> set ?s" by simp
  then have "x \<noteq> ?s" if "CHR ''-'' \<notin> set x" for x using that by metis
  from this[of "[]"] this[of "''.''"] this[of "''..''"] have "?s \<noteq> [] \<and> ?s \<noteq> ''.'' \<and> ?s \<noteq> ''..''" by simp
  moreover have "CHR ''/'' \<notin> set ?s" using assms digits_of_digit[of "CHR ''/''" n] by (auto simp: normal_comp_def)
  ultimately show ?thesis by (simp add: normal_comp_def)
qed

lemma backup_name_comp: "normal_comp name \<Longrightarrow> normal_comp (backup_name name n)"
  unfolding backup_name_def by (rule hidden_comp) simp_all

lemma set_aside_run:
  assumes "set_aside env (abs_path cs) name (abs_path (cs @ [name])) r = (res, r')" "list_all normal_comp cs" "normal_comp name"
    and "\<And>n. backup_name name n \<noteq> name"
  shows "(\<exists>n. hd r (cs @ [backup_name name n]) = None \<and>
     ((\<exists>err. res = Inl err \<and> goes_on (outside (cs @ [backup_name name n]) (hd r)) r r') \<or>
      (\<exists>r1 d. res = Inr (abs_path (cs @ [backup_name name n])) \<and> r' = d # r1 \<and> goes_on (outside (cs @ [backup_name name n]) (hd r)) r r1 \<and>
        tree d (cs @ [backup_name name n]) = tree (hd r) (cs @ [name]) \<and> tree d (cs @ [name]) = nothing \<and>
        same_but {cs @ [name], cs @ [backup_name name n]} (hd r) d))) \<or>
    (\<exists>err. res = Inl err \<and> r' = r)"
proof -
  obtain m r1 where t: "os_MkdirTemp env (abs_path cs) (''.replace-'' @ name @ ''-'') r = (m, r1)" by fastforce
  have b: "normal_comp ((''.replace-'' @ name @ ''-'') @ digits_of n)" for n using backup_name_comp[OF assms(3), of n] by (simp add: backup_name_def)
  have eq: "(''.replace-'' @ name @ ''-'') @ digits_of n = backup_name name n" for n by (simp add: backup_name_def)
  from os_MkdirTemp_run[OF t assms(2) b, unfolded eq] consider
      (failed) e where "m = Inl e" "r1 = r"
    | (made) n d1 where "m = Inr (abs_path (cs @ [backup_name name n]))" "hd r (cs @ [backup_name name n]) = None" "r1 = d1 # r"
        "outside (cs @ [backup_name name n]) (hd r) d1"
    by blast
  then show ?thesis
  proof cases
    case failed
    with t assms(1) show ?thesis by (auto simp: set_aside_def)
  next
    case made
    let ?b = "cs @ [backup_name name n]"
    have comps: "abs_comps (abs_path ?b) = ?b" using assms(2) backup_name_comp[OF assms(3)] by simp
    have g1: "goes_on (outside ?b (hd r)) r r1" using made by (simp add: goes_on_one)
    obtain e2 r2 where rm: "os_Remove env (abs_path ?b) r1 = (e2, r2)" by fastforce
    have "outside ?b (hd r) ((hd r1)(?b := None))" using made by (auto simp: outside_def)
    then have g2: "goes_on (outside ?b (hd r)) r r2"
      using rm g1 comps goes_on_Cons[OF g1] by (auto simp: os_Remove_def split: option.splits)
    show ?thesis
    proof (cases e2)
      case (Some e)
      with t made rm assms(1) g2 show ?thesis by (auto simp: set_aside_def)
    next
      case None
      have h2: "outside ?b (hd r) (hd r2)" by (rule goes_on_hd[OF g2]) simp
      obtain e3 r3 where mv: "os_Rename env (abs_path (cs @ [name])) (abs_path ?b) r2 = (e3, r3)" by fastforce
      note ren = rename_siblings[OF mv assms(4)[symmetric] assms(2,3) backup_name_comp[OF assms(3)]]
      show ?thesis
      proof (cases e3)
        case (Some e)
        with ren t made rm None mv assms(1) g2 show ?thesis by (auto simp: set_aside_def)
      next
        case e3: None
        with ren obtain d where d: "r3 = d # r2" "tree d ?b = tree (hd r2) (cs @ [name])" "tree d (cs @ [name]) = nothing"
            "same_but {cs @ [name], ?b} (hd r2) d" by auto
        have "tree (hd r2) (cs @ [name]) = tree (hd r) (cs @ [name])"
          by (rule outside_tree[OF h2]) (use assms(4)[of n] assms(4)[of n, symmetric] in simp_all)
        moreover have "same_but {cs @ [name], ?b} (hd r) d"
          by (rule same_but_trans[OF h2[folded same_but_outside] d(4)]) auto
        moreover have "res = Inr (abs_path ?b)" "r' = r3"
          using t made rm None mv e3 assms(1) by (auto simp: set_aside_def)
        ultimately show ?thesis using d g2 made(2) by auto
      qed
    qed
  qed
qed

lemma activate_new_run:
  assumes "activate env (abs_path (cs @ [a])) (abs_path (cs @ [name])) None r = (err, r')"
    and "a \<noteq> name" "list_all normal_comp cs" "normal_comp a" "normal_comp name"
  shows "(err \<noteq> None \<and> r' = r) \<or> (err = None \<and> (\<exists>d. r' = d # r \<and> tree d (cs @ [name]) = tree (hd r) (cs @ [a]) \<and>
    same_but {cs @ [a], cs @ [name]} (hd r) d))"
proof -
  obtain e r1 where m: "os_Rename env (abs_path (cs @ [a])) (abs_path (cs @ [name])) r = (e, r1)" by fastforce
  with rename_siblings[OF m assms(2-5)] assms(1) show ?thesis by (cases e) (auto simp: activate_def)
qed

text \<open>With a backup: the new installation is in place, or the old one is again, or the error names the backup.\<close>

lemma activate_backup_run:
  assumes "activate env (abs_path (cs @ [a])) (abs_path (cs @ [name])) (Some (abs_path (cs @ [b]))) r = (err, r')"
    and "a \<noteq> name" "b \<noteq> name" "a \<noteq> b" "list_all normal_comp cs" "normal_comp a" "normal_comp name" "normal_comp b"
  shows "(err = None \<and> (\<exists>d d'. r' = d' # d # r \<and> tree d (cs @ [name]) = tree (hd r) (cs @ [a]) \<and>
      same_but {cs @ [a], cs @ [name]} (hd r) d \<and> outside (cs @ [b]) d d')) \<or>
    (err \<noteq> None \<and> (\<exists>d. r' = d # r \<and> tree d (cs @ [name]) = tree (hd r) (cs @ [b]) \<and> same_but {cs @ [b], cs @ [name]} (hd r) d)) \<or>
    (\<exists>e e'. err = Some (RestoreFailed e (abs_path (cs @ [b])) (abs_path (cs @ [name])) e') \<and> r' = r)"
proof -
  obtain e r1 where m: "os_Rename env (abs_path (cs @ [a])) (abs_path (cs @ [name])) r = (e, r1)" by fastforce
  obtain e' r2 where m': "os_Rename env (abs_path (cs @ [b])) (abs_path (cs @ [name])) r1 = (e', r2)" by fastforce
  note ren = rename_siblings[OF m assms(2,5,6,7)] and ren' = rename_siblings[OF m' assms(3,5,8,7)]
  show ?thesis
  proof (cases e)
    case None
    have c: "abs_comps (abs_path (cs @ [b])) = cs @ [b]" using assms(5,8) by simp
    have "err = None" "r' = os_RemoveAll env (abs_path (cs @ [b])) r1" using m None assms(1) by (auto simp: activate_def)
    with ren None os_RemoveAll_eq[of env "abs_path (cs @ [b])" r1] show ?thesis unfolding c by auto
  next
    case (Some x)
    with ren have "r1 = r" by simp
    with ren' m m' Some assms(1) show ?thesis by (cases e') (auto simp: activate_def)
  qed
qed

subsection \<open>Nothing is lost\<close>

definition disk_ok :: "disk \<Rightarrow> bool" where
  "disk_ok d \<longleftrightarrow> (\<forall>p q. d p \<noteq> None \<longrightarrow> strict_prefix q p \<longrightarrow> d q = Some Directory)"

text \<open>Whatever was on the disk outside one path is there unchanged.\<close>

definition untouched :: "string list \<Rightarrow> disk \<Rightarrow> disk \<Rightarrow> bool" where
  "untouched p d s \<longleftrightarrow> (\<forall>q. d q \<noteq> None \<and> \<not> prefix p q \<longrightarrow> s q = d q)"

lemma untouchedI:
  assumes "disk_ok d" "grown p d d'" "same_but ps d' s" "\<And>q. q \<in> ps \<Longrightarrow> q = x \<or> d' q = None"
  shows "untouched x d s"
  unfolding untouched_def
proof (intro allI impI)
  fix q assume q: "d q \<noteq> None \<and> \<not> prefix x q"
  have g: "d' y = d y" if "d y \<noteq> None" for y using assms(2) that unfolding grown_def by metis
  have "\<not> prefix y q" if "y \<in> ps" for y
  proof
    assume p: "prefix y q"
    with q that assms(4) have "d' y = None" by blast
    moreover have "d y \<noteq> None"
      using q p assms(1) unfolding disk_ok_def by (metis option.distinct(1) prefix_order.le_less)
    ultimately show False using g by metis
  qed
  with assms(3) g q show "s q = d q" unfolding same_but_def by metis
qed

text \<open>
  At every moment the destination holds the old installation or the new one, each whole, or it is absent and
  the old one is whole in a directory beside it.
\<close>

definition safe_state :: "disk_env \<Rightarrow> ResolvedManifest \<Rightarrow> string list \<Rightarrow> disk \<Rightarrow> disk \<Rightarrow> bool" where
  "safe_state env source cs d s \<longleftrightarrow> (let dest = cs @ [pm_Name (rm_Manifest source)] in
     untouched dest d s \<and> (tree s dest = tree d dest \<or> new_installation env source d (tree s dest) \<or>
       tree s dest = nothing \<and> (\<exists>b. tree s (cs @ [b]) = tree d dest)))"

text \<open>The states of a run whose temporary directory is \<open>tn\<close>, started from \<open>h\<close>.\<close>

definition changed_fresh :: "string list \<Rightarrow> disk \<Rightarrow> disk \<Rightarrow> bool" where
  "changed_fresh dest h s \<longleftrightarrow> (\<exists>ps. same_but ps h s \<and> (\<forall>q \<in> ps. q = dest \<or> h q = None))"

definition holds_one :: "disk_env \<Rightarrow> ResolvedManifest \<Rightarrow> string list \<Rightarrow> string \<Rightarrow> string \<Rightarrow> disk \<Rightarrow> disk \<Rightarrow> bool" where
  "holds_one env source cs name tn d s \<longleftrightarrow> tree s (cs @ [name]) = tree d (cs @ [name]) \<or>
     new_installation env source d (tree s (cs @ [name])) \<or>
     tree s (cs @ [name]) = nothing \<and> (\<exists>b. b \<noteq> tn \<and> tree s (cs @ [b]) = tree d (cs @ [name]))"

definition reached :: "disk_env \<Rightarrow> ResolvedManifest \<Rightarrow> string list \<Rightarrow> string \<Rightarrow> disk \<Rightarrow> disk \<Rightarrow> disk \<Rightarrow> bool" where
  "reached env source cs tn d h s \<longleftrightarrow> changed_fresh (cs @ [pm_Name (rm_Manifest source)]) h s \<and>
     holds_one env source cs (pm_Name (rm_Manifest source)) tn d s"

lemma reached_safe:
  assumes "reached env source cs tn d h s" "disk_ok d" "grown cs d h"
  shows "safe_state env source cs d s"
proof -
  have "changed_fresh (cs @ [pm_Name (rm_Manifest source)]) h s" using assms(1) unfolding reached_def by (rule conjunct1)
  then obtain ps where ps: "same_but ps h s" "\<forall>q \<in> ps. q = cs @ [pm_Name (rm_Manifest source)] \<or> h q = None"
    unfolding changed_fresh_def by (elim exE conjE)
  have "untouched (cs @ [pm_Name (rm_Manifest source)]) d s" by (rule untouchedI[OF assms(2,3) ps(1)]) (rule bspec[OF ps(2)])
  moreover from assms(1) have "holds_one env source cs (pm_Name (rm_Manifest source)) tn d s" unfolding reached_def by (rule conjunct2)
  then have "tree s (cs @ [pm_Name (rm_Manifest source)]) = tree d (cs @ [pm_Name (rm_Manifest source)]) \<or>
      new_installation env source d (tree s (cs @ [pm_Name (rm_Manifest source)])) \<or>
      tree s (cs @ [pm_Name (rm_Manifest source)]) = nothing \<and> (\<exists>b. tree s (cs @ [b]) = tree d (cs @ [pm_Name (rm_Manifest source)]))"
    unfolding holds_one_def by (elim disjE conjE exE) (simp_all only: simp_thms, metis)
  ultimately show ?thesis unfolding safe_state_def Let_def by (rule conjI)
qed

lemma changed_fresh_outside:
  assumes "changed_fresh dest h s" "outside p s s'" "h p = None"
  shows "changed_fresh dest h s'"
proof -
  obtain ps where ps: "same_but ps h s" "\<forall>q \<in> ps. q = dest \<or> h q = None"
    using assms(1) unfolding changed_fresh_def by blast
  have "same_but (insert p ps) h s'"
    by (rule same_but_trans[OF ps(1) assms(2)[folded same_but_outside]]) auto
  moreover have "\<forall>q \<in> insert p ps. q = dest \<or> h q = None" using ps(2) assms(3) by simp
  ultimately show ?thesis unfolding changed_fresh_def by (intro exI conjI)
qed

lemma holds_one_outside:
  assumes "holds_one env source cs name tn d s" "outside (cs @ [tn]) s s'" "tn \<noteq> name"
  shows "holds_one env source cs name tn d s'"
proof -
  have t: "tree s' (cs @ [b]) = tree s (cs @ [b])" if "b \<noteq> tn" for b
    by (rule outside_tree[OF assms(2)]) (use that in simp_all)
  have n: "tree s' (cs @ [name]) = tree s (cs @ [name])" by (rule t) (use assms(3) in simp)
  have b: "(\<exists>b. b \<noteq> tn \<and> tree s' (cs @ [b]) = x) = (\<exists>b. b \<noteq> tn \<and> tree s (cs @ [b]) = x)" for x
    using t by auto
  from assms(1) show ?thesis unfolding holds_one_def n b .
qed

lemma reached_outside:
  "reached env source cs tn d h s \<Longrightarrow> outside (cs @ [tn]) s s' \<Longrightarrow> h (cs @ [tn]) = None \<Longrightarrow> tn \<noteq> pm_Name (rm_Manifest source) \<Longrightarrow>
   reached env source cs tn d h s'"
  unfolding reached_def by (blast intro: changed_fresh_outside holds_one_outside)

text \<open>Before the swap only fresh directories beside the destination have changed.\<close>

lemma reached_aside:
  assumes "same_but ps h s" "grown cs d h" "\<And>q. q \<in> ps \<Longrightarrow> h q = None \<and> (\<exists>a. a \<noteq> pm_Name (rm_Manifest source) \<and> q = cs @ [a])"
  shows "reached env source cs tn d h s" "tree s (cs @ [pm_Name (rm_Manifest source)]) = tree d (cs @ [pm_Name (rm_Manifest source)])"
proof -
  let ?dest = "cs @ [pm_Name (rm_Manifest source)]"
  have "tree s ?dest = tree h ?dest"
  proof (rule same_but_tree[OF assms(1)])
    fix q assume "q \<in> ps"
    then obtain a where "a \<noteq> pm_Name (rm_Manifest source)" "q = cs @ [a]" using assms(3) by blast
    then show "\<not> prefix q ?dest \<and> \<not> prefix ?dest q" by simp
  qed
  also have "\<dots> = tree d ?dest" by (rule grown_tree[OF assms(2)]) simp
  finally show t: "tree s ?dest = tree d ?dest" .
  have "\<forall>q \<in> ps. q = ?dest \<or> h q = None"
  proof
    fix q assume "q \<in> ps"
    from assms(3)[OF this] show "q = ?dest \<or> h q = None" by (elim conjE) (rule disjI2)
  qed
  with assms(1) have "changed_fresh ?dest h s" unfolding changed_fresh_def by (intro exI conjI)
  moreover have "holds_one env source cs (pm_Name (rm_Manifest source)) tn d s" unfolding holds_one_def by (rule disjI1) (rule t)
  ultimately show "reached env source cs tn d h s" unfolding reached_def by (rule conjI)
qed

lemma new_installation_initial:
  assumes "new_installation env source h' t" "outside p h h'" "tree h' p = [[] \<mapsto> Directory]" "grown cs d h"
  shows "new_installation env source d t"
proof -
  let ?src = "abs_comps (rm_ExecutablePath source)"
  from assms(1) obtain bytes x json where n: "h' ?src = Some (RegularFile bytes x)" "de_encode env (rm_Manifest source) = Inr json"
      "t = package (pm_Executable (rm_Manifest source)) bytes (json @ [CHR 0x0A])"
    unfolding new_installation_def by blast
  have "\<not> prefix p ?src"
  proof
    assume "prefix p ?src"
    then obtain q where q: "?src = p @ q" by (auto simp: prefix_def)
    have "h' (p @ q) = ([[] \<mapsto> Directory] :: disk) q" using assms(3) unfolding tree_def by metis
    with n(1) q show False by (auto split: if_splits)
  qed
  then have "h ?src = Some (RegularFile bytes x)" using n(1) assms(2) unfolding outside_def by metis
  with assms(4) have "d ?src = Some (RegularFile bytes x)" unfolding grown_def by (metis node.distinct(1) option.inject)
  with n show ?thesis unfolding new_installation_def by blast
qed

text \<open>How a run may end: new installation, old installation, or an error that names the backup.\<close>

definition ended :: "disk_env \<Rightarrow> ResolvedManifest \<Rightarrow> string list \<Rightarrow> string \<Rightarrow> disk \<Rightarrow> install_failure option \<Rightarrow> disk \<Rightarrow> bool" where
  "ended env source cs tn d err s \<longleftrightarrow> (let dest = cs @ [pm_Name (rm_Manifest source)] in
     (err = None \<and> new_installation env source d (tree s dest)) \<or>
     (err \<noteq> None \<and> tree s dest = tree d dest) \<or>
     (\<exists>e b e'. b \<noteq> tn \<and> err = Some (RestoreFailed e (abs_path (cs @ [b])) (abs_path dest) e') \<and> tree s (cs @ [b]) = tree d dest))"

lemma ended_old: "tree s (cs @ [pm_Name (rm_Manifest source)]) = tree d (cs @ [pm_Name (rm_Manifest source)]) \<Longrightarrow> ended env source cs tn d (Some e) s"
  by (simp add: ended_def Let_def)

lemma ended_outside:
  assumes "ended env source cs tn d err s" "outside (cs @ [tn]) s s'" "tn \<noteq> pm_Name (rm_Manifest source)"
  shows "ended env source cs tn d err s'"
proof -
  have t: "tree s' (cs @ [b]) = tree s (cs @ [b])" if "b \<noteq> tn" for b
    by (rule outside_tree[OF assms(2)]) (use that in simp_all)
  have n: "tree s' (cs @ [pm_Name (rm_Manifest source)]) = tree s (cs @ [pm_Name (rm_Manifest source)])" by (rule t) (use assms(3) in simp)
  have b: "(\<exists>e b e'. b \<noteq> tn \<and> P e b e' \<and> tree s' (cs @ [b]) = x) = (\<exists>e b e'. b \<noteq> tn \<and> P e b e' \<and> tree s (cs @ [b]) = x)" for P x
    by (simp add: t cong: conj_cong)
  from assms(1) show ?thesis unfolding ended_def Let_def n b .
qed

lemma providerName_hidden: "providerNamePattern name \<Longrightarrow> CHR ''.'' # rest \<noteq> name"
  by (auto simp: providerNamePattern_def lower_letter_def)

definition install_name :: "string \<Rightarrow> nat \<Rightarrow> string" where
  "install_name name n = ''.install-'' @ name @ ''-'' @ digits_of n"

lemma hidden_names:
  assumes "providerNamePattern name"
  shows "install_name name n \<noteq> name" "backup_name name m \<noteq> name" "install_name name n \<noteq> backup_name name m"
    "normal_comp (install_name name n)" "normal_comp (backup_name name m)"
  using providerName_hidden[OF assms] hidden_comp[OF providerName_comp[OF assms], of "''.install-''" n] backup_name_comp[OF providerName_comp[OF assms]]
  by (simp_all add: install_name_def backup_name_def)

lemma new_tree_reached:
  assumes "same_but ps h s" "\<forall>q \<in> ps. q = cs @ [pm_Name (rm_Manifest source)] \<or> h q = None"
    and "holds_one env source cs (pm_Name (rm_Manifest source)) tn d s"
  shows "reached env source cs tn d h s"
proof -
  have "changed_fresh (cs @ [pm_Name (rm_Manifest source)]) h s" unfolding changed_fresh_def using assms(1,2) by (intro exI conjI)
  with assms(3) show ?thesis unfolding reached_def by (intro conjI)
qed

text \<open>The swap, from a state in which the new installation is staged.\<close>

lemma swap_run:
  fixes source :: ResolvedManifest
  defines "name \<equiv> pm_Name (rm_Manifest source)"
  assumes run: "(if ex then (case set_aside env (abs_path cs) name (abs_path (cs @ [name])) r of
        (Inl e, r) \<Rightarrow> (Some e, r)
      | (Inr backup, r) \<Rightarrow> activate env (abs_path (cs @ [tn])) (abs_path (cs @ [name])) (Some backup) r)
    else activate env (abs_path (cs @ [tn])) (abs_path (cs @ [name])) None r) = (err, r')"
    and cs: "list_all normal_comp cs" and nm: "providerNamePattern name" and tn: "tn = install_name name k"
    and g: "grown cs d h" and fresh: "h (cs @ [tn]) = None"
    and st: "outside (cs @ [tn]) h (hd r)" "new_installation env source d (tree (hd r) (cs @ [tn]))"
  shows "goes_on (reached env source cs tn d h) r r' \<and> ended env source cs tn d err (hd r')"
proof -
  note ne = hidden_names[OF nm] and nc = providerName_comp[OF nm]
  let ?D = "cs @ [name]" and ?T = "cs @ [tn]"
  have tnn: "tn \<noteq> name" "name \<noteq> tn" using ne(1)[of k] tn by auto
  have sb: "same_but {?T} h (hd r)" using st(1) by (simp add: same_but_outside)
  have old: "tree (hd r) ?D = tree d ?D"
    by (rule reached_aside(2)[OF sb g, of source, folded name_def]) (use fresh tn ne in auto)
  have aside: "reached env source cs tn d h s \<and> tree s ?D = tree d ?D" if "same_but ps h s" "ps \<subseteq> {?T, cs @ [backup_name name n]}"
      "h (cs @ [backup_name name n]) = None" for ps s n
  proof -
    have "h q = None \<and> (\<exists>a. a \<noteq> pm_Name (rm_Manifest source) \<and> q = cs @ [a])" if "q \<in> ps" for q
      using that \<open>ps \<subseteq> _\<close> \<open>h (cs @ [backup_name name n]) = None\<close> fresh tn ne unfolding name_def by blast
    from reached_aside[OF \<open>same_but ps h s\<close> g this] show ?thesis unfolding name_def by blast
  qed
  show ?thesis
  proof (cases ex)
    case False
    with run have "activate env (abs_path ?T) (abs_path ?D) None r = (err, r')" by simp
    from activate_new_run[OF this _ cs _ nc] ne tn consider
        (failed) e where "err = Some e" "r' = r"
      | (swapped) x where "err = None" "r' = x # r" "tree x ?D = tree (hd r) ?T" "same_but {?T, ?D} (hd r) x"
      by (cases err) auto
    then show ?thesis
    proof cases
      case failed
      then show ?thesis using ended_old[of "hd r" cs source d env tn e] old unfolding name_def by simp
    next
      case swapped
      have "holds_one env source cs name tn d x" unfolding holds_one_def swapped(3) using st(2) by (intro disjI2 disjI1)
      moreover have "same_but {?T, ?D} h x" by (rule same_but_trans[OF sb swapped(4)]) auto
      moreover have "\<forall>q \<in> {?T, ?D}. q = ?D \<or> h q = None" using fresh by simp
      ultimately have "reached env source cs tn d h x" unfolding name_def by (intro new_tree_reached)
      moreover have "ended env source cs tn d err x" unfolding ended_def Let_def name_def[symmetric] swapped(3) using swapped(1) st(2) by simp
      ultimately show ?thesis using swapped by (simp add: goes_on_one)
    qed
  next
    case True
    obtain m r1 where s: "set_aside env (abs_path cs) name (abs_path ?D) r = (m, r1)" by fastforce
    from set_aside_run[OF s cs nc ne(2)] consider
        (early) e where "m = Inl e" "r1 = r"
      | (late) n e where "hd r (cs @ [backup_name name n]) = None" "m = Inl e" "goes_on (outside (cs @ [backup_name name n]) (hd r)) r r1"
      | (moved) n r0 x where "hd r (cs @ [backup_name name n]) = None" "m = Inr (abs_path (cs @ [backup_name name n]))" "r1 = x # r0"
          "goes_on (outside (cs @ [backup_name name n]) (hd r)) r r0" "tree x (cs @ [backup_name name n]) = tree (hd r) ?D"
          "tree x ?D = nothing" "same_but {?D, cs @ [backup_name name n]} (hd r) x"
      by blast
    then show ?thesis
    proof cases
      case early
      with run True s have "err = Some e" "r' = r" by simp_all
      then show ?thesis using ended_old[of "hd r" cs source d env tn e] old unfolding name_def by simp
    next
      case late
      have b0: "h (cs @ [backup_name name n]) = None"
        using late(1) sb tn ne(3)[of k n] unfolding same_but_def by simp
      have all: "reached env source cs tn d h x \<and> tree x ?D = tree d ?D" if "outside (cs @ [backup_name name n]) (hd r) x" for x
        by (rule aside[OF same_but_trans[OF sb that[folded same_but_outside], of "{?T, cs @ [backup_name name n]}"] _ b0]) simp_all
      have e: "err = Some e" "r' = r1" using run True s late(2) by simp_all
      have "outside (cs @ [backup_name name n]) (hd r) (hd r1)" by (rule goes_on_hd[OF late(3) outside_refl])
      then have "tree (hd r1) ?D = tree d ?D" using all by blast
      then have "ended env source cs tn d err (hd r1)" using ended_old[of "hd r1" cs source d env tn e] e(1) unfolding name_def by simp
      moreover have "goes_on (reached env source cs tn d h) r r1" by (rule goes_on_mono[OF late(3)]) (use all in blast)
      ultimately show ?thesis using e(2) by simp
    next
      case moved
      let ?B = "cs @ [backup_name name n]"
      have b0: "h ?B = None" using moved(1) sb tn ne(3)[of k n] unfolding same_but_def by simp
      have all: "reached env source cs tn d h y" if "outside ?B (hd r) y" for y
        using aside[OF same_but_trans[OF sb that[folded same_but_outside], of "{?T, ?B}"] _ b0] by simp
      have g0: "goes_on (reached env source cs tn d h) r r0" by (rule goes_on_mono[OF moved(4) all])
      have olds: "tree x ?B = tree d ?D" using moved(5) old by simp
      have keep: "\<forall>q \<in> {?T, ?D, ?B}. q = ?D \<or> h q = None" using fresh b0 by simp
      have sx: "same_but {?T, ?D, ?B} h x" by (rule same_but_trans[OF sb moved(7)]) auto
      have bt: "backup_name name n \<noteq> tn" using ne(3)[of k n] tn by simp
      have "holds_one env source cs name tn d x" unfolding holds_one_def using moved(6) olds bt by (intro disjI2 conjI exI)
      then have rx: "reached env source cs tn d h x" using new_tree_reached[OF sx] keep unfolding name_def by blast
      have g1: "goes_on (reached env source cs tn d h) r r1" using goes_on_Cons[OF g0 rx] moved(3) by simp
      have tx: "tree x ?T = tree (hd r) ?T"
        by (rule same_but_tree[OF moved(7)]) (use bt bt[symmetric] tnn ne(2)[of n] ne(2)[of n, symmetric] in auto)
      have act: "activate env (abs_path ?T) (abs_path ?D) (Some (abs_path ?B)) r1 = (err, r')" using run True s moved(2) by simp
      note hx = moved(3)
      from activate_backup_run[OF act _ ne(2) _ cs _ nc ne(5)] tn ne(1)[of k] ne(3)[of k n] ne(4)[of k] hx consider
          (swapped) y z where "err = None" "r' = z # y # r1" "tree y ?D = tree x ?T" "same_but {?T, ?D} x y" "outside ?B y z"
        | (restored) e y where "err = Some e" "r' = y # r1" "tree y ?D = tree x ?B" "same_but {?B, ?D} x y"
        | (lost) e e' where "err = Some (RestoreFailed e (abs_path ?B) (abs_path ?D) e')" "r' = r1"
        by (cases err) auto
      then show ?thesis
      proof cases
        case swapped
        have ny: "new_installation env source d (tree y ?D)" using swapped(3) tx st(2) by simp
        have ty: "tree z ?D = tree y ?D" by (rule outside_tree[OF swapped(5)]) (use ne(2)[of n] in auto)
        have sy: "same_but {?T, ?D, ?B} h y" by (rule same_but_trans[OF sx swapped(4)]) auto
        have sz: "same_but {?T, ?D, ?B} h z" by (rule same_but_trans[OF sy swapped(5)[folded same_but_outside]]) auto
        have "holds_one env source cs name tn d y" unfolding holds_one_def using ny by (intro disjI2 disjI1)
        then have ry: "reached env source cs tn d h y" using new_tree_reached[OF sy] keep unfolding name_def by blast
        have "holds_one env source cs name tn d z" unfolding holds_one_def ty using ny by (intro disjI2 disjI1)
        then have rz: "reached env source cs tn d h z" using new_tree_reached[OF sz] keep unfolding name_def by blast
        have "ended env source cs tn d err z" unfolding ended_def Let_def name_def[symmetric] ty using swapped(1) ny by simp
        then show ?thesis using swapped(2) goes_on_Cons[OF goes_on_Cons[OF g1 ry] rz] by simp
      next
        case restored
        have oy: "tree y ?D = tree d ?D" using restored(3) olds by simp
        have sy: "same_but {?T, ?D, ?B} h y" by (rule same_but_trans[OF sx restored(4)]) auto
        have "holds_one env source cs name tn d y" unfolding holds_one_def using oy by (intro disjI1)
        then have ry: "reached env source cs tn d h y" using new_tree_reached[OF sy] keep unfolding name_def by blast
        have "ended env source cs tn d err y" using ended_old[of y cs source d env tn e] oy restored(1) unfolding name_def by simp
        then show ?thesis using restored(2) goes_on_Cons[OF g1 ry] by simp
      next
        case lost
        have "ended env source cs tn d err x" unfolding ended_def Let_def name_def[symmetric] using lost(1) bt olds by blast
        then show ?thesis using lost(2) g1 hx by simp
      qed
    qed
  qed
qed

definition outcome_ok :: "disk_env \<Rightarrow> ResolvedManifest \<Rightarrow> string list \<Rightarrow> disk \<Rightarrow> install_failure + ResolvedManifest \<Rightarrow> disk \<Rightarrow> bool" where
  "outcome_ok env source cs d res s \<longleftrightarrow> (let dest = cs @ [pm_Name (rm_Manifest source)] in
     (case res of
        Inr _ \<Rightarrow> new_installation env source d (tree s dest)
      | Inl err \<Rightarrow> tree s dest = tree d dest \<or> (\<exists>e. err = LoadInstalled e) \<and> new_installation env source d (tree s dest) \<or>
          (\<exists>e b e'. err = RestoreFailed e (abs_path (cs @ [b])) (abs_path dest) e' \<and> tree s (cs @ [b]) = tree d dest)))"

lemma outcome_old:
  "tree s (cs @ [pm_Name (rm_Manifest source)]) = tree d (cs @ [pm_Name (rm_Manifest source)]) \<Longrightarrow> outcome_ok env source cs d (Inl e) s"
  by (simp add: outcome_ok_def Let_def)

lemma ended_outcome_Some: "ended env source cs tn d (Some e) s \<Longrightarrow> outcome_ok env source cs d (Inl e) s"
  by (auto simp: ended_def outcome_ok_def Let_def)

lemma ended_outcome_None: "ended env source cs tn d None s \<Longrightarrow> outcome_ok env source cs d (map_sum LoadInstalled id x) s"
  by (cases x) (auto simp: ended_def outcome_ok_def Let_def)

lemma install_into_run:
  fixes source :: ResolvedManifest
  defines "name \<equiv> pm_Name (rm_Manifest source)"
  assumes run: "install_into env source (abs_path cs) (abs_path (cs @ [name])) ex r = (res, r')"
    and cs: "list_all normal_comp cs" and nm: "providerNamePattern name" and x: "normal_comp (pm_Executable (rm_Manifest source))"
    and g: "grown cs d (hd r)" and ok: "disk_ok d"
  shows "goes_on (safe_state env source cs d) r r' \<and> outcome_ok env source cs d res (hd r')"
proof -
  note ne = hidden_names[OF nm]
  have hn: "normal_comp ((''.install-'' @ name @ ''-'') @ digits_of n)" for n using ne(4)[of n] by (simp add: install_name_def)
  have eq: "(''.install-'' @ name @ ''-'') @ digits_of n = install_name name n" for n by (simp add: install_name_def)
  obtain m r1 where t: "os_MkdirTemp env (abs_path cs) (''.install-'' @ name @ ''-'') r = (m, r1)" by fastforce
  have old: "tree (hd r) (cs @ [name]) = tree d (cs @ [name])" by (rule grown_tree[OF g]) simp
  from os_MkdirTemp_run[OF t cs hn, unfolded eq] consider
      (failed) e where "m = Inl e" "r1 = r"
    | (made) k d1 where "m = Inr (abs_path (cs @ [install_name name k]))" "hd r (cs @ [install_name name k]) = None" "r1 = d1 # r"
        "outside (cs @ [install_name name k]) (hd r) d1" "tree d1 (cs @ [install_name name k]) = [[] \<mapsto> Directory]"
    by blast
  then show ?thesis
  proof cases
    case failed
    then have "res = Inl (CreateTemporary e)" "r' = r" using run t by (simp_all add: install_into_def name_def)
    then show ?thesis using outcome_old[of "hd r" cs source d env] old unfolding name_def by simp
  next
    case made
    let ?tn = "install_name name k" and ?R = "reached env source cs (install_name name k) d (hd r)"
    have tnn: "?tn \<noteq> name" by (rule ne(1))
    have aside: "?R s" if "outside (cs @ [?tn]) (hd r) s" for s
      by (rule reached_aside(1)[OF that[folded same_but_outside] g]) (use made(2) tnn in \<open>auto simp: name_def\<close>)
    have tc: "list_all normal_comp (cs @ [?tn])" using cs ne(4) by simp
    obtain e2 r2 where st: "stage env source (abs_path (cs @ [?tn])) r1 = (e2, r2)" by fastforce
    note staged = stage_run[OF st tc x, unfolded made(3) list.sel, OF made(5)]
    have o2: "outside (cs @ [?tn]) (hd r) s" if "outside (cs @ [?tn]) d1 s" for s by (rule outside_trans[OF made(4) that])
    have g1: "goes_on ?R r r1" unfolding made(3) by (rule goes_on_one) (rule aside[OF made(4)])
    have g2: "goes_on ?R r r2"
      by (rule goes_on_trans[OF g1]) (use goes_on_mono[OF staged[THEN conjunct1]] aside o2 made(3) in blast)
    have h2: "outside (cs @ [?tn]) (hd r) (hd r2)"
      by (rule o2) (rule goes_on_hd[OF staged[THEN conjunct1]], simp)
    obtain e3 r3 where rep: "replace env source (abs_path cs) (abs_path (cs @ [name])) ex (abs_path (cs @ [?tn])) r1 = (e3, r3)" by fastforce
    have swapped: "goes_on ?R r r3 \<and> ended env source cs ?tn d e3 (hd r3)"
    proof (cases e2)
      case (Some e)
      then have "e3 = Some e" "r3 = r2" using rep st by (simp_all add: replace_def)
      moreover have "tree (hd r2) (cs @ [name]) = tree d (cs @ [name])"
        using outside_tree[OF h2, of "cs @ [name]"] tnn tnn[symmetric] old by simp
      ultimately show ?thesis using g2 ended_old[of "hd r2" cs source d env ?tn e] unfolding name_def by simp
    next
      case None
      then have new: "new_installation env source d1 (tree (hd r2) (cs @ [?tn]))" using staged by simp
      have new': "new_installation env source d (tree (hd r2) (cs @ [?tn]))"
        by (rule new_installation_initial[OF new made(4,5) g])
      have "(if ex then (case set_aside env (abs_path cs) name (abs_path (cs @ [name])) r2 of
          (Inl e, r) \<Rightarrow> (Some e, r)
        | (Inr backup, r) \<Rightarrow> activate env (abs_path (cs @ [?tn])) (abs_path (cs @ [name])) (Some backup) r)
        else activate env (abs_path (cs @ [?tn])) (abs_path (cs @ [name])) None r2) = (e3, r3)"
        using rep st None unfolding replace_def name_def by simp
      from swap_run[where source = source, folded name_def, OF this cs nm refl g made(2) h2 new'] have
        "goes_on ?R r2 r3 \<and> ended env source cs ?tn d e3 (hd r3)" .
      then show ?thesis using goes_on_trans[OF g2] by blast
    qed
    obtain d4 where d4: "os_RemoveAll env (abs_path (cs @ [?tn])) r3 = d4 # r3" "outside (cs @ [?tn]) (hd r3) d4"
      using os_RemoveAll_eq[of env "abs_path (cs @ [?tn])" r3] tc by auto
    have r': "r' = d4 # r3" "res = (case e3 of Some e \<Rightarrow> Inl e | None \<Rightarrow> map_sum LoadInstalled id (LoadManifestDirectory (disk_files env (hd r3)) (abs_path (cs @ [name]))))"
      using run t made(1) rep d4(1) by (auto simp: install_into_def name_def split: option.splits)
    have "outside (cs @ [?tn]) (hd r) (hd r)" by simp
    then have "?R (hd r3)" using goes_on_hd[OF swapped[THEN conjunct1]] aside by blast
    from reached_outside[OF this d4(2)] have "?R d4" using made(2) tnn by (simp add: name_def)
    then have "goes_on ?R r r'" unfolding r'(1) by (rule goes_on_Cons[OF swapped[THEN conjunct1]])
    then have "goes_on (safe_state env source cs d) r r'" by (rule goes_on_mono) (rule reached_safe[OF _ ok g])
    moreover have e: "ended env source cs ?tn d e3 d4"
      by (rule ended_outside[OF swapped[THEN conjunct2] d4(2)]) (use tnn in \<open>simp add: name_def\<close>)
    have "outcome_ok env source cs d res d4"
    proof (cases e3)
      case None
      with e r'(2) ended_outcome_None show ?thesis by simp
    next
      case (Some y)
      with e r'(2) ended_outcome_Some show ?thesis by simp
    qed
    ultimately show ?thesis using r'(1) by simp
  qed
qed

text \<open>
  C40. Installing a plugin is atomic whatever call fails and wherever it stops. At every moment of the run the
  provider's directory holds the old installation or the whole new one, or it is absent and the old one is
  whole beside it; nothing else that was on the disk is ever changed. When the call returns, success means the
  new installation is in place, and after an error the old one is, unless the error names the directory that
  holds it, or says that the new installation, which is then in place, does not load.
\<close>

theorem installManaged_atomic:
  assumes "disk_ok d" "list_all normal_comp cs" "providerNamePattern (pm_Name (rm_Manifest source))"
    and "normal_comp (pm_Executable (rm_Manifest source))"
    and "installManaged env source (abs_path cs) [d] = (res, r)"
  shows "(\<forall>s \<in> set r. safe_state env source cs d s) \<and> outcome_ok env source cs d res (hd r)"
proof -
  let ?name = "pm_Name (rm_Manifest source)"
  obtain e r1 where m: "mkdir_all env [] (abs_comps (abs_path cs)) [d] = (e, r1)" by fastforce
  have ac: "abs_comps (abs_path cs) = cs" using assms(2) by simp
  have g0: "grown cs d d" by (simp add: grown_def)
  then have gs: "goes_on (grown cs d) [d] r1" using mkdir_all_goes_on[OF m[unfolded ac], of d] by simp
  then have g1: "grown cs d (hd r1)" using goes_on_hd[of "grown cs d" "[d]" r1] g0 by simp
  have safe: "safe_state env source cs d s \<and> tree s (cs @ [?name]) = tree d (cs @ [?name])" if "grown cs d s" for s
  proof -
    have t: "tree s (cs @ [?name]) = tree d (cs @ [?name])" by (rule grown_tree[OF that]) simp
    have "same_but {} s s" by (simp add: same_but_def)
    from untouchedI[OF assms(1) that this] have "untouched (cs @ [?name]) d s" by simp
    with t show ?thesis by (simp add: safe_state_def Let_def)
  qed
  then have s1: "goes_on (safe_state env source cs d) [d] r1" using goes_on_mono[OF gs] by blast
  have j: "filepath_Join [abs_path cs, ?name] = abs_path (cs @ [?name])" by (rule Join_below(1)[OF assms(2) providerName_comp[OF assms(3)]])
  have main: "goes_on (safe_state env source cs d) [d] r \<and> outcome_ok env source cs d res (hd r)"
  proof (cases "\<exists>ex. install_into env source (abs_path cs) (abs_path (cs @ [?name])) ex r1 = (res, r)")
    case True
    then show ?thesis using install_into_run[OF _ assms(2-4) g1 assms(1)] goes_on_trans[OF s1] by blast
  next
    case False
    then have "r = r1 \<and> (\<exists>err. res = Inl err)"
      using assms(5) m by (auto simp: installManaged_def Let_def j split: option.splits stat_answer.splits if_splits)
    then show ?thesis using s1 outcome_old safe[OF g1] by blast
  qed
  have "safe_state env source cs d d" using safe[OF g0] by blast
  with main show ?thesis using goes_on_all[of "safe_state env source cs d" d r] by blast
qed

subsection \<open>An update\<close>

definition demo_disk :: disk where
  "demo_disk = [[] \<mapsto> Directory, [''s''] \<mapsto> Directory, [''s'', ''run''] \<mapsto> RegularFile ''new'' True,
     [''m''] \<mapsto> Directory, [''m'', ''acme''] \<mapsto> Directory, [''m'', ''acme'', ''run''] \<mapsto> RegularFile ''old'' True]"

definition demo_disk_env :: "Manifest \<Rightarrow> disk_env" where
  "demo_disk_env m = \<lparr>de_fault = (\<lambda>c. case c of CallRename src dst \<Rightarrow> if dst = ''/m/acme'' then Some ''busy'' else None | _ \<Rightarrow> None),
     de_random = (\<lambda>_ _. 7), de_partial = (\<lambda>_ _. []), de_keeps = (\<lambda>_. False), de_listing = (\<lambda>_ _. NoSuchDir),
     de_encode = (\<lambda>_. Inr ''{}''), de_decode_json = (\<lambda>_. Inr m), de_decode_yaml = (\<lambda>_. Inr m)\<rparr>"

definition demo_plugin :: "string \<Rightarrow> ResolvedManifest" where
  "demo_plugin x = \<lparr>rm_Manifest = demo_acme\<lparr>pm_Executable := x\<rparr>, rm_ManifestPath = ''/s/plugin.json'', rm_ExecutablePath = ''/s/run''\<rparr>"

lemma demo_disk_ok: "disk_ok demo_disk"
  by (auto simp: disk_ok_def demo_disk_def strict_prefix_def prefix_Cons)

text \<open>Both the activation and the restoration fail; the old installation is where the error says.\<close>

theorem installManaged_atomic_witness:
  "\<exists>res r. installManaged (demo_disk_env demo_acme) (demo_plugin ''run'') (abs_path [''m'']) [demo_disk] = (res, r) \<and>
     res = Inl (RestoreFailed ''busy'' ''/m/.replace-acme-7'' ''/m/acme'' ''busy'') \<and>
     (\<forall>s \<in> set r. safe_state (demo_disk_env demo_acme) (demo_plugin ''run'') [''m''] demo_disk s)"
proof -
  obtain res r where r: "installManaged (demo_disk_env demo_acme) (demo_plugin ''run'') (abs_path [''m'']) [demo_disk] = (res, r)"
    by (metis surj_pair)
  have "fst (installManaged (demo_disk_env demo_acme) (demo_plugin ''run'') (abs_path [''m'']) [demo_disk]) =
      Inl (RestoreFailed ''busy'' ''/m/.replace-acme-7'' ''/m/acme'' ''busy'')"
    by code_simp
  with r have e: "res = Inl (RestoreFailed ''busy'' ''/m/.replace-acme-7'' ''/m/acme'' ''busy'')" by simp
  have n: "list_all normal_comp [''m'']" "providerNamePattern (pm_Name (rm_Manifest (demo_plugin ''run'')))"
      "normal_comp (pm_Executable (rm_Manifest (demo_plugin ''run'')))"
    by code_simp+
  from installManaged_atomic[OF demo_disk_ok n r] e r show ?thesis by blast
qed

text \<open>
  A plugin whose executable is called as a manifest is: the manifest accepts it, and the new installation, which
  replaces the old one, then has two manifests and does not load. With lemma \<open>discovery_all_or_nothing\<close> no
  provider is found any more.
\<close>

lemma manifest_named_executable:
  "Manifest_Validate (rm_Manifest (demo_plugin ''plugin.yaml'')) = None \<and>
   fst (installManaged (demo_disk_env demo_acme\<lparr>de_fault := \<lambda>_. None\<rparr>) (demo_plugin ''plugin.yaml'') (abs_path [''m'']) [demo_disk]) =
     Inl (LoadInstalled (MultipleManifests ''/m/acme''))"
  by code_simp

text \<open>What an interrupted installation or a failed clean-up leaves is never a valid installation, and holds a manifest.\<close>

lemma leftover_not_loadable:
  assumes "LoadManifestDirectory fs dir = Inr m"
  shows "pm_Name (rm_Manifest m) \<noteq> CHR ''.'' # rest"
  using assms LoadManifestDirectory_Inr[OF assms] providerName_hidden[of "pm_Name (rm_Manifest m)" rest]
  by (auto simp: Validate_None)

end
