(* ===== verification/Provider_Runtime.thy ===== *)
theory Provider_Runtime imports Provider_Registry Sha256 begin

text \<open>
  internal/provider/runtime.go and launcher.go, internal/app/providers: plugin processes are launched on
  demand, initialized with a configuration, cached by name and configuration, and closed together. The
  processes are numbered in the order of the launches; what launching, initializing and closing them answers
  is a parameter, and the calls made are the events of the runtime. A configuration is the list of its
  entries, in the order in which the map happens to be ranged over.
\<close>

subsection \<open>Configurations\<close>

type_synonym config = "(string \<times> string) list"

definition fingerprint_bytes :: "config \<Rightarrow> string" where
  "fingerprint_bytes c = concat (map (\<lambda>k. k @ [CHR 0x00] @ the (map_of c k) @ [CHR 0x00]) (sort (map fst c)))"

definition configurationFingerprint :: "config \<Rightarrow> string" where
  "configurationFingerprint c = sha256_hex (fingerprint_bytes c)"

definition session_key :: "string \<Rightarrow> config \<Rightarrow> string" where
  "session_key name c = name @ '':'' @ configurationFingerprint c"

definition cloneStringMap :: "config \<Rightarrow> config" where
  "cloneStringMap source = foldl (\<lambda>result (k, v). AList.update k v result) [] source"

subsection \<open>Sessions\<close>

record runtimeSession =
  rs_descriptor :: Descriptor
  rs_process :: nat

datatype init_response = NilInit | InitResponse bool string

text \<open>The answers of process \<open>n\<close>: the error of launching it, the reply to \<open>Initialize\<close>, the error of closing it.\<close>

record launcher =
  la_launch :: "nat \<Rightarrow> string \<Rightarrow> string option"
  la_initialize :: "nat \<Rightarrow> string \<Rightarrow> config \<Rightarrow> string + init_response"
  la_close :: "nat \<Rightarrow> string option"

datatype runtime_event =
    Warned string string
  | Launched nat string
  | Initialized nat string config
  | ClosedProcess nat

record Runtime =
  rn_registry :: provider_registry
  rn_sessions :: "(string, runtimeSession) table"
  rn_warned :: "string list"
  rn_closed :: bool
  rn_launches :: nat
  rn_events :: "runtime_event list"

datatype open_error =
    RuntimeClosed
  | Unresolved lookup_error
  | LaunchFailed string string
  | InitializeFailed string string

definition NewRuntime :: "provider_registry \<Rightarrow> Runtime" where
  "NewRuntime reg = \<lparr>rn_registry = reg, rn_sessions = [], rn_warned = [], rn_closed = False, rn_launches = 0, rn_events = []\<rparr>"

definition Runtime_List :: "(provider_registry \<Rightarrow> provider_registry) \<Rightarrow> Descriptor slice_sorter \<Rightarrow> Runtime \<Rightarrow> Descriptor list" where
  "Runtime_List order sort_Slice r = Registry_List order sort_Slice (rn_registry r)"

definition log_event :: "runtime_event \<Rightarrow> Runtime \<Rightarrow> Runtime" where
  "log_event e r = r\<lparr>rn_events := rn_events r @ [e]\<rparr>"

definition warn_once :: "Descriptor \<Rightarrow> string \<Rightarrow> Runtime \<Rightarrow> Runtime" where
  "warn_once d name r = (if pd_Origin d = OriginCustom \<and> name \<notin> set (rn_warned r)
     then (log_event (Warned name (pd_ExecutablePath d)) r)\<lparr>rn_warned := name # rn_warned r\<rparr> else r)"

definition init_detail :: "init_response \<Rightarrow> string option" where
  "init_detail response = (case response of
     NilInit \<Rightarrow> Some ''provider returned an unsuccessful response''
   | InitResponse success err \<Rightarrow> if success then None
       else Some (if strings_TrimSpace err \<noteq> [] then err else ''provider returned an unsuccessful response''))"

definition start_process :: "launcher \<Rightarrow> Descriptor \<Rightarrow> string \<Rightarrow> config \<Rightarrow> Runtime \<Rightarrow> (open_error + runtimeSession) \<times> Runtime" where
  "start_process la d name c r =
     (let n = rn_launches r; r = r\<lparr>rn_launches := n + 1\<rparr> in
      (case la_launch la n (pd_ExecutablePath d) of
         Some err \<Rightarrow> (Inl (LaunchFailed name err), r)
       | None \<Rightarrow>
           (let r = log_event (Initialized n name (cloneStringMap c)) (log_event (Launched n (pd_ExecutablePath d)) r);
                failed = (case la_initialize la n name (cloneStringMap c) of Inl err \<Rightarrow> Some err | Inr response \<Rightarrow> init_detail response) in
            (case failed of
               Some err \<Rightarrow> (Inl (InitializeFailed name err), log_event (ClosedProcess n) r)
             | None \<Rightarrow> (let session = \<lparr>rs_descriptor = d, rs_process = n\<rparr> in
                 (Inr session, r\<lparr>rn_sessions := AList.update (session_key name c) session (rn_sessions r)\<rparr>))))))"

definition Open :: "launcher \<Rightarrow> string \<Rightarrow> config \<Rightarrow> Runtime \<Rightarrow> (open_error + runtimeSession) \<times> Runtime" where
  "Open la name c r =
     (if rn_closed r then (Inl RuntimeClosed, r)
      else (case Registry_Resolve (rn_registry r) name of
          Inl err \<Rightarrow> (Inl (Unresolved err), r)
        | Inr d \<Rightarrow> (case map_of (rn_sessions r) (session_key name c) of
            Some session \<Rightarrow> (Inr session, r)
          | None \<Rightarrow> start_process la d name c (warn_once d name r))))"

fun close_loop :: "launcher \<Rightarrow> (string, runtimeSession) table \<Rightarrow> string list \<Rightarrow> Runtime \<Rightarrow> string list \<times> Runtime" where
  "close_loop la [] errs r = (errs, r)"
| "close_loop la ((key, session) # entries) errs r = (let r = log_event (ClosedProcess (rs_process session)) r in
     (case la_close la (rs_process session) of
        Some err \<Rightarrow> close_loop la entries (errs @ [key @ '': '' @ err]) r
      | None \<Rightarrow> close_loop la entries errs r))"

text \<open>The text of the error, or none; the map is ranged over in the given order.\<close>

definition Runtime_Close :: "launcher \<Rightarrow> ((string, runtimeSession) table \<Rightarrow> (string, runtimeSession) table) \<Rightarrow> Runtime \<Rightarrow> string option \<times> Runtime" where
  "Runtime_Close la order r = (if rn_closed r then (None, r)
     else (case close_loop la (order (rn_sessions r)) [] (r\<lparr>rn_closed := True\<rparr>) of
       (errs, r) \<Rightarrow> (if errs = [] then None else Some (''close provider runtime: '' @ strings_Join (sort errs) ''; ''), r\<lparr>rn_sessions := []\<rparr>)))"

definition Require :: "runtimeSession \<Rightarrow> string \<Rightarrow> (string \<times> string) option" where
  "Require s capability = (if \<not> Supports (rs_descriptor s) capability then Some (pd_Name (rs_descriptor s), capability) else None)"

subsection \<open>The provider workflows\<close>

datatype call_error = OpenFailed open_error | Unsupported "string \<times> string" | CallFailed string string string

text \<open>Opens a session, requires a capability and makes one call.\<close>

definition GetInfo :: "(runtimeSession \<Rightarrow> string + 'info) \<Rightarrow> launcher \<Rightarrow> string \<Rightarrow> config \<Rightarrow> Runtime \<Rightarrow> (call_error + Descriptor \<times> 'info) \<times> Runtime" where
  "GetInfo call la name c r = (case Open la name c r of
     (Inl err, r) \<Rightarrow> (Inl (OpenFailed err), r)
   | (Inr s, r) \<Rightarrow> (case call s of
       Inl err \<Rightarrow> (Inl (CallFailed ''get info'' name err), r)
     | Inr info \<Rightarrow> (Inr (rs_descriptor s, info), r)))"

definition require_and_call :: "string \<Rightarrow> string \<Rightarrow> (runtimeSession \<Rightarrow> string + 'resp) \<Rightarrow> launcher \<Rightarrow> string \<Rightarrow> config \<Rightarrow> Runtime \<Rightarrow>
    (call_error + 'resp) \<times> Runtime" where
  "require_and_call capability what call la name c r = (case Open la name c r of
     (Inl err, r) \<Rightarrow> (Inl (OpenFailed err), r)
   | (Inr s, r) \<Rightarrow> (case Require s capability of
       Some err \<Rightarrow> (Inl (Unsupported err), r)
     | None \<Rightarrow> (case call s of Inl err \<Rightarrow> (Inl (CallFailed what name err), r) | Inr response \<Rightarrow> (Inr response, r))))"

definition DiscoverServices :: "(runtimeSession \<Rightarrow> string + 'resp) \<Rightarrow> launcher \<Rightarrow> string \<Rightarrow> config \<Rightarrow> Runtime \<Rightarrow> (call_error + 'resp) \<times> Runtime" where
  "DiscoverServices = require_and_call ''discover'' ''discover services''"

definition ListResources :: "(runtimeSession \<Rightarrow> string + 'resp) \<Rightarrow> launcher \<Rightarrow> string \<Rightarrow> config \<Rightarrow> Runtime \<Rightarrow> (call_error + 'resp) \<times> Runtime" where
  "ListResources = require_and_call ''list'' ''list resources''"

definition DescribeResource :: "(runtimeSession \<Rightarrow> string + 'resp) \<Rightarrow> launcher \<Rightarrow> string \<Rightarrow> config \<Rightarrow> Runtime \<Rightarrow> (call_error + 'resp) \<times> Runtime" where
  "DescribeResource = require_and_call ''describe'' ''describe resource''"

definition GetSchemas :: "(runtimeSession \<Rightarrow> string + 'resp) \<Rightarrow> launcher \<Rightarrow> string \<Rightarrow> config \<Rightarrow> Runtime \<Rightarrow> (call_error + 'resp) \<times> Runtime" where
  "GetSchemas = require_and_call ''schemas'' ''get schemas''"

datatype status_error = ProviderNotInstalled string | StatusCall call_error

record provider_status =
  ps_Available :: bool
  ps_Initialized :: bool
  ps_Error :: "status_error option"

definition Application_Status :: "Descriptor list \<Rightarrow> (runtimeSession \<Rightarrow> string + 'info) \<Rightarrow> launcher \<Rightarrow> string \<Rightarrow> config \<Rightarrow> Runtime \<Rightarrow>
    provider_status \<times> Runtime" where
  "Application_Status listed call la name c r =
     (case find (\<lambda>d. pd_Name d = name) listed of
        None \<Rightarrow> (\<lparr>ps_Available = False, ps_Initialized = False, ps_Error = Some (ProviderNotInstalled name)\<rparr>, r)
      | Some d \<Rightarrow>
          if \<not> pd_Installed d then (\<lparr>ps_Available = False, ps_Initialized = False, ps_Error = Some (ProviderNotInstalled name)\<rparr>, r)
          else (case GetInfo call la name c r of
              (Inl err, r) \<Rightarrow> (\<lparr>ps_Available = True, ps_Initialized = False, ps_Error = Some (StatusCall err)\<rparr>, r)
            | (Inr _, r) \<Rightarrow> (\<lparr>ps_Available = True, ps_Initialized = True, ps_Error = None\<rparr>, r)))"

subsection \<open>What a plugin prints\<close>

text \<open>
  \<open>plainStderrLines.Write\<close>: complete lines are passed on unless they are JSON log lines; the rest waits. The
  state is the buffer and the lines written so far; \<open>out\<close> may fail, which keeps the failing line buffered.
\<close>

record stderr_lines =
  sl_buf :: string
  sl_out :: "string list"

definition json_log_line :: "string \<Rightarrow> bool" where
  "json_log_line line \<longleftrightarrow> strings_HasPrefix (strings_TrimSpace line) (CHR 0x7B # CHR 0x22 # ''@'')"

function flush_lines :: "(string \<Rightarrow> string option) \<Rightarrow> stderr_lines \<Rightarrow> string option \<times> stderr_lines" where
  "flush_lines out w =
     (if CHR 0x0A \<notin> set (sl_buf w) then (None, w)
      else (let line = takeWhile (\<lambda>c. c \<noteq> CHR 0x0A) (sl_buf w) @ [CHR 0x0A]; rest = drop (length line) (sl_buf w) in
        if json_log_line line then flush_lines out (w\<lparr>sl_buf := rest\<rparr>)
        else (case out line of
            Some err \<Rightarrow> (Some err, w)
          | None \<Rightarrow> flush_lines out \<lparr>sl_buf = rest, sl_out = sl_out w @ [line]\<rparr>)))"
  by pat_completeness auto
termination
  by (relation "measure (\<lambda>(out, w). length (sl_buf w))") (auto simp: Let_def intro!: diff_less length_pos_if_in_set)

declare flush_lines.simps [simp del]

definition stderr_Write :: "(string \<Rightarrow> string option) \<Rightarrow> string \<Rightarrow> stderr_lines \<Rightarrow> string option \<times> stderr_lines" where
  "stderr_Write out p w = flush_lines out (w\<lparr>sl_buf := sl_buf w @ p\<rparr>)"

datatype grpc_status = OK | ResourceExhausted | OtherCode nat

definition MaxPluginMessageBytes :: int where
  "MaxPluginMessageBytes = push_bit 20 256"

datatype rpc_error = RpcError grpc_status string | LimitExplained string int rpc_error

fun rpc_code :: "rpc_error option \<Rightarrow> grpc_status" where
  "rpc_code None = OK"
| "rpc_code (Some (RpcError c msg)) = c"
| "rpc_code (Some (LimitExplained m limit e)) = rpc_code (Some e)"

definition explainMessageLimit :: "int \<Rightarrow> string \<Rightarrow> rpc_error option \<Rightarrow> rpc_error option" where
  "explainMessageLimit limitBytes m err = (if rpc_code err \<noteq> ResourceExhausted then err
     else map_option (LimitExplained m limitBytes) err)"

subsection \<open>Fingerprints\<close>

lemma nul_chunks_inj:
  "concat (map (\<lambda>x. x @ [s]) xs) = concat (map (\<lambda>x. x @ [s]) ys) \<Longrightarrow> s \<notin> \<Union> (set ` set xs) \<Longrightarrow> s \<notin> \<Union> (set ` set ys) \<Longrightarrow> xs = ys"
proof (induction xs arbitrary: ys)
  case Nil
  then show ?case by (cases ys) auto
next
  case (Cons x xs)
  then obtain y ys' where ys: "ys = y # ys'" by (cases ys) auto
  have e: "x @ s # concat (map (\<lambda>x. x @ [s]) xs) = y @ s # concat (map (\<lambda>x. x @ [s]) ys')" using Cons.prems(1) ys by simp
  have "x = takeWhile (\<lambda>c. c \<noteq> s) (x @ s # concat (map (\<lambda>x. x @ [s]) xs))" using Cons.prems(2) by (induction x) auto
  also have "\<dots> = takeWhile (\<lambda>c. c \<noteq> s) (y @ s # concat (map (\<lambda>x. x @ [s]) ys'))" unfolding e ..
  also have "\<dots> = y" using Cons.prems(3) unfolding ys by (induction y) auto
  finally have "x = y" .
  with e Cons ys show ?case by auto
qed

definition config_ok :: "config \<Rightarrow> bool" where
  "config_ok c \<longleftrightarrow> distinct (map fst c)"

definition nul_free :: "config \<Rightarrow> bool" where
  "nul_free c \<longleftrightarrow> (\<forall>(k, v) \<in> set c. CHR 0x00 \<notin> set k \<and> CHR 0x00 \<notin> set v)"

lemma nul_chunks: "concat (map (\<lambda>k. k @ [z] @ f k @ [z]) ks) = concat (map (\<lambda>x. x @ [z]) (concat (map (\<lambda>k. [k, f k]) ks)))"
  by (induction ks) simp_all

lemma key_values_inj: "concat (map (\<lambda>k. [k, f k]) ks) = concat (map (\<lambda>k. [k, g k]) ks') \<Longrightarrow> ks = ks' \<and> (\<forall>k \<in> set ks. f k = g k)"
proof (induction ks arbitrary: ks')
  case Nil
  then show ?case by (cases ks') auto
next
  case (Cons k ks)
  then show ?case by (cases ks') auto
qed

text \<open>Without NUL bytes the hashed bytes determine the configuration; with them they do not.\<close>

lemma fingerprint_bytes_inj:
  assumes "fingerprint_bytes c = fingerprint_bytes c'" "nul_free c" "nul_free c'"
  shows "map_of c = map_of c'"
proof -
  let ?f = "\<lambda>c k. the (map_of c k)" and ?ks = "\<lambda>c :: config. sort (map fst c)"
  have free: "CHR 0x00 \<notin> \<Union> (set ` set (concat (map (\<lambda>k. [k, ?f c k]) (?ks c))))" if "nul_free c" for c
  proof -
    have "CHR 0x00 \<notin> set k \<and> CHR 0x00 \<notin> set (?f c k)" if "k \<in> fst ` set c" for k
    proof -
      from that obtain v where "map_of c k = Some v" by (metis domD dom_map_of_conv_image_fst)
      moreover from this have "(k, v) \<in> set c" by (rule map_of_SomeD)
      ultimately show ?thesis using \<open>nul_free c\<close> by (auto simp: nul_free_def)
    qed
    then show ?thesis by auto
  qed
  have "concat (map (\<lambda>k. [k, ?f c k]) (?ks c)) = concat (map (\<lambda>k. [k, ?f c' k]) (?ks c'))"
    by (rule nul_chunks_inj[OF _ free[OF assms(2)] free[OF assms(3)]])
       (use assms(1) in \<open>simp only: fingerprint_bytes_def nul_chunks\<close>)
  from key_values_inj[OF this] have k: "?ks c = ?ks c'" "\<And>k. k \<in> set (?ks c) \<Longrightarrow> ?f c k = ?f c' k" by blast+
  have dom: "dom (map_of c) = dom (map_of c')"
    using arg_cong[OF k(1), of set] by (simp add: dom_map_of_conv_image_fst)
  show ?thesis
  proof
    fix k
    show "map_of c k = map_of c' k"
    proof (cases "k \<in> dom (map_of c)")
      case True
      then have "k \<in> set (?ks c)" by (simp add: dom_map_of_conv_image_fst)
      with k(2) True dom show ?thesis by (metis domD option.sel)
    next
      case False
      with dom show ?thesis by (metis domIff)
    qed
  qed
qed

text \<open>A Go map has one entry per key; a copy of it is the map, and equal maps have equal fingerprints in whatever order they are ranged over.\<close>

lemma clone_append: "config_ok (a @ c) \<Longrightarrow> foldl (\<lambda>result (k, v). AList.update k v result) a c = a @ c"
proof (induction c arbitrary: a)
  case (Cons e c)
  obtain k v where e: "e = (k, v)" by (cases e)
  from Cons.prems have "k \<notin> fst ` set a" by (simp add: e config_ok_def)
  then have "AList.update k v a = a @ [(k, v)]" by (rule update_new)
  with Cons.IH[of "a @ [(k, v)]"] Cons.prems show ?case by (simp add: e)
qed simp

lemma cloneStringMap_same: "config_ok c \<Longrightarrow> cloneStringMap c = c"
  using clone_append[of "[]" c] by (simp add: cloneStringMap_def)

lemma config_ok_update [simp]: "config_ok c \<Longrightarrow> config_ok (AList.update k v c)"
  by (simp add: config_ok_def distinct_update)

lemma config_ok_clone [simp]: "config_ok (cloneStringMap c)"
proof -
  have "config_ok a \<Longrightarrow> config_ok (foldl (\<lambda>result (k, v). AList.update k v result) a c)" for a
    by (induction c arbitrary: a) (auto split: prod.splits)
  from this[of "[]"] show ?thesis by (simp add: cloneStringMap_def config_ok_def)
qed

lemma fingerprint_bytes_map:
  assumes "config_ok c" "config_ok c'" "map_of c = map_of c'"
  shows "fingerprint_bytes c = fingerprint_bytes c'"
proof -
  have "fst ` set c = fst ` set c'" using arg_cong[OF assms(3), of dom] by (simp add: dom_map_of_conv_image_fst)
  then have "sort (map fst c) = sort (map fst c')"
    using assms(1,2) by (intro sorted_distinct_set_unique) (simp_all add: config_ok_def)
  then show ?thesis by (simp add: fingerprint_bytes_def assms(3))
qed

lemma session_key_map: "config_ok c \<Longrightarrow> config_ok c' \<Longrightarrow> map_of c = map_of c' \<Longrightarrow> session_key name c = session_key name c'"
  by (simp add: session_key_def configurationFingerprint_def fingerprint_bytes_map[of c c'])

lemma fingerprint_collision:
  "configurationFingerprint [(''a'', ''b'' @ [CHR 0x00] @ ''c'' @ [CHR 0x00] @ ''d'')] = configurationFingerprint [(''a'', ''b''), (''c'', ''d'')]"
  by (simp add: configurationFingerprint_def fingerprint_bytes_def)

lemma session_key_inj:
  assumes "session_key n c = session_key n' c'"
  shows "n = n' \<and> configurationFingerprint c = configurationFingerprint c'"
proof -
  have "length (configurationFingerprint c) = length (configurationFingerprint c')" by (simp add: configurationFingerprint_def)
  with assms show ?thesis by (simp add: session_key_def)
qed

definition sha256_collision :: "string \<Rightarrow> string \<Rightarrow> bool" where
  "sha256_collision x y \<longleftrightarrow> x \<noteq> y \<and> sha256_hex x = sha256_hex y"

lemma same_fingerprint:
  assumes "configurationFingerprint c = configurationFingerprint c'"
  shows "map_of c = map_of c' \<or> \<not> nul_free c \<or> \<not> nul_free c' \<or> sha256_collision (fingerprint_bytes c) (fingerprint_bytes c')"
  using assms fingerprint_bytes_inj[of c c'] by (auto simp: configurationFingerprint_def sha256_collision_def)

subsection \<open>Every process is accounted for\<close>

definition running :: "runtime_event list \<Rightarrow> nat set" where
  "running es = {n. (\<exists>p. Launched n p \<in> set es) \<and> ClosedProcess n \<notin> set es}"

fun process_of :: "runtime_event \<Rightarrow> nat option" where
  "process_of (Warned name p) = None"
| "process_of (Launched n p) = Some n"
| "process_of (Initialized n name c) = Some n"
| "process_of (ClosedProcess n) = Some n"

text \<open>Read from the newest event back: a launched executable is a registered one, announced before if it is custom.\<close>

fun announced :: "provider_registry \<Rightarrow> runtime_event list \<Rightarrow> bool" where
  "announced reg [] \<longleftrightarrow> True"
| "announced reg (e # older) \<longleftrightarrow> announced reg older \<and>
     (case e of
        Launched n p \<Rightarrow> \<exists>name d. Registry_Resolve reg name = Inr d \<and> p = pd_ExecutablePath d \<and>
          (pd_Origin d = OriginCustom \<longrightarrow> Warned name p \<in> set older)
      | Warned name p \<Rightarrow> \<forall>q. Warned name q \<notin> set older
      | _ \<Rightarrow> True)"

definition initialized_once :: "runtime_event list \<Rightarrow> bool" where
  "initialized_once es \<longleftrightarrow> (\<forall>n name c name' c'. Initialized n name c \<in> set es \<longrightarrow> Initialized n name' c' \<in> set es \<longrightarrow> name = name' \<and> c = c')"

definition session_ok :: "provider_registry \<Rightarrow> runtime_event list \<Rightarrow> string \<Rightarrow> runtimeSession \<Rightarrow> bool" where
  "session_ok reg es k s \<longleftrightarrow> (\<exists>name c. k = session_key name c \<and> Registry_Resolve reg name = Inr (rs_descriptor s) \<and>
     Launched (rs_process s) (pd_ExecutablePath (rs_descriptor s)) \<in> set es \<and> Initialized (rs_process s) name c \<in> set es)"

definition runtime_ok :: "provider_registry \<Rightarrow> Runtime \<Rightarrow> bool" where
  "runtime_ok reg r \<longleftrightarrow> rn_registry r = reg \<and> table_ok (rn_sessions r) \<and>
     (\<forall>(k, s) \<in> set (rn_sessions r). session_ok reg (rn_events r) k s) \<and>
     running (rn_events r) = rs_process ` snd ` set (rn_sessions r) \<and>
     (\<forall>e \<in> set (rn_events r). \<forall>n. process_of e = Some n \<longrightarrow> n < rn_launches r) \<and>
     initialized_once (rn_events r) \<and> (rn_closed r \<longrightarrow> rn_sessions r = []) \<and>
     (\<forall>name. name \<in> set (rn_warned r) \<longrightarrow> (\<forall>d. Registry_Resolve reg name = Inr d \<longrightarrow> Warned name (pd_ExecutablePath d) \<in> set (rn_events r))) \<and>
     (\<forall>name p. Warned name p \<in> set (rn_events r) \<longrightarrow> name \<in> set (rn_warned r)) \<and>
     announced reg (rev (rn_events r))"

inductive runtime_reachable :: "launcher \<Rightarrow> provider_registry \<Rightarrow> Runtime \<Rightarrow> bool" for la reg where
  new: "runtime_reachable la reg (NewRuntime reg)"
| opened: "runtime_reachable la reg r \<Longrightarrow> config_ok c \<Longrightarrow> runtime_reachable la reg (snd (Open la name c r))"
| closed: "runtime_reachable la reg r \<Longrightarrow> mset (order (rn_sessions r)) = mset (rn_sessions r) \<Longrightarrow>
    runtime_reachable la reg (snd (Runtime_Close la order r))"

lemma session_ok_mono: "session_ok reg es k s \<Longrightarrow> set es \<subseteq> set es' \<Longrightarrow> session_ok reg es' k s"
  unfolding session_ok_def by blast

lemma initialized_once_other [simp]:
  "initialized_once (es @ [Warned name p]) = initialized_once es" "initialized_once (es @ [ClosedProcess n]) = initialized_once es"
  by (simp_all add: initialized_once_def)

lemma initialized_once_new:
  "initialized_once es \<Longrightarrow> \<forall>e \<in> set es. \<forall>m. process_of e = Some m \<longrightarrow> m < n \<Longrightarrow> initialized_once (es @ [Launched n p, Initialized n name c])"
  unfolding initialized_once_def by fastforce

lemma initialized_once_closed: "initialized_once (es @ map (\<lambda>(key, s). ClosedProcess (rs_process s)) entries) = initialized_once es"
  by (induction entries rule: rev_induct) (auto simp flip: append_assoc split: prod.splits)

lemma running_warned [simp]: "running (es @ [Warned name p]) = running es"
  by (simp add: running_def)

lemma running_launched:
  "\<forall>e \<in> set es. \<forall>m. process_of e = Some m \<longrightarrow> m < n \<Longrightarrow> running (es @ [Launched n p, Initialized n name c]) = insert n (running es)"
  by (auto simp: running_def)

lemma running_closed: "running (es @ [ClosedProcess n]) = running es - {n}"
  by (auto simp: running_def)

lemma running_bound: "\<forall>e \<in> set es. \<forall>m. process_of e = Some m \<longrightarrow> m < n \<Longrightarrow> n \<notin> running es"
  by (auto simp: running_def)

lemma warn_once_ok:
  assumes "runtime_ok reg r" "Registry_Resolve reg name = Inr d"
  shows "runtime_ok reg (warn_once d name r)" "rn_closed (warn_once d name r) = rn_closed r" "rn_sessions (warn_once d name r) = rn_sessions r"
    "pd_Origin d = OriginCustom \<longrightarrow> Warned name (pd_ExecutablePath d) \<in> set (rn_events (warn_once d name r))"
proof -
  show "runtime_ok reg (warn_once d name r)"
  proof (cases "pd_Origin d = OriginCustom \<and> name \<notin> set (rn_warned r)")
    case True
    have mono: "session_ok reg (rn_events r @ [Warned name (pd_ExecutablePath d)]) k s" if "session_ok reg (rn_events r) k s" for k s
      by (rule session_ok_mono[OF that]) auto
    show ?thesis using True assms mono
      by (auto simp: runtime_ok_def warn_once_def log_event_def split: prod.splits)
  next
    case False
    then have "warn_once d name r = r" by (simp only: warn_once_def if_False)
    with assms(1) show ?thesis by simp
  qed
  show "rn_closed (warn_once d name r) = rn_closed r" "rn_sessions (warn_once d name r) = rn_sessions r"
    by (simp_all add: warn_once_def log_event_def)
  show "pd_Origin d = OriginCustom \<longrightarrow> Warned name (pd_ExecutablePath d) \<in> set (rn_events (warn_once d name r))"
    using assms by (auto simp: warn_once_def log_event_def runtime_ok_def)
qed

lemma start_process_ok:
  assumes "runtime_ok reg r" "\<not> rn_closed r" "Registry_Resolve reg name = Inr d" "map_of (rn_sessions r) (session_key name c) = None"
    and "pd_Origin d = OriginCustom \<longrightarrow> Warned name (pd_ExecutablePath d) \<in> set (rn_events r)"
    and "start_process la d name c r = (res, r')" "config_ok c"
  shows "runtime_ok reg r' \<and> \<not> rn_closed r' \<and> (\<forall>s. res = Inr s \<longrightarrow> map_of (rn_sessions r') (session_key name c) = Some s)"
proof -
  let ?n = "rn_launches r" and ?c = "cloneStringMap c" and ?es = "rn_events r @ [Launched (rn_launches r) (pd_ExecutablePath d), Initialized (rn_launches r) name (cloneStringMap c)]"
  have bound: "\<forall>e \<in> set (rn_events r). \<forall>m. process_of e = Some m \<longrightarrow> m < ?n" using assms(1) by (simp add: runtime_ok_def)
  then have bound': "\<forall>e \<in> set ?es. \<forall>m. process_of e = Some m \<longrightarrow> m < ?n + 1" by (auto simp: less_Suc_eq)
  have ann: "announced reg (rev ?es)" using assms(1,3,5) by (auto simp: runtime_ok_def)
  have mono: "session_ok reg es k s" if "(k, s) \<in> set (rn_sessions r)" "set (rn_events r) \<subseteq> set es" for es k s
    using that assms(1) session_ok_mono[of reg "rn_events r" k s es] by (auto simp: runtime_ok_def)
  have launch: "running ?es = insert ?n (running (rn_events r))" by (rule running_launched[OF bound])
  have once: "initialized_once ?es" by (rule initialized_once_new[OF _ bound]) (use assms(1) in \<open>simp add: runtime_ok_def\<close>)
  have once': "initialized_once (?es @ [ClosedProcess ?n])" unfolding initialized_once_other by (rule once)
  consider (nolaunch) err where "la_launch la ?n (pd_ExecutablePath d) = Some err"
    | (noinit) err where "la_launch la ?n (pd_ExecutablePath d) = None"
        "(case la_initialize la ?n name ?c of Inl err \<Rightarrow> Some err | Inr response \<Rightarrow> init_detail response) = Some err"
    | (started) "la_launch la ?n (pd_ExecutablePath d) = None"
        "(case la_initialize la ?n name ?c of Inl err \<Rightarrow> Some err | Inr response \<Rightarrow> init_detail response) = None"
    by (metis option.exhaust)
  then show ?thesis
  proof cases
    case nolaunch
    then have r': "r' = r\<lparr>rn_launches := ?n + 1\<rparr>" "res = Inl (LaunchFailed name err)" using assms(6) by (auto simp: start_process_def Let_def)
    show ?thesis using assms(1,2) by (auto simp: r' runtime_ok_def less_Suc_eq)
  next
    case noinit
    then have r': "r' = r\<lparr>rn_launches := ?n + 1, rn_events := ?es @ [ClosedProcess ?n]\<rparr>" "res = Inl (InitializeFailed name err)"
      using assms(6) by (auto simp: start_process_def Let_def log_event_def)
    have run: "running (?es @ [ClosedProcess ?n]) = running (rn_events r)"
      unfolding running_closed launch using running_bound[OF bound] by blast
    have "\<forall>(k, s) \<in> set (rn_sessions r). session_ok reg (?es @ [ClosedProcess ?n]) k s" using mono[of _ _ "?es @ [ClosedProcess ?n]"] by auto
    then show ?thesis using assms(1,2) run ann bound' once'
      unfolding r' runtime_ok_def by (auto simp: less_Suc_eq)
  next
    case started
    let ?s = "\<lparr>rs_descriptor = d, rs_process = ?n\<rparr>"
    let ?t = "AList.update (session_key name c) ?s (rn_sessions r)"
    have r': "r' = r\<lparr>rn_launches := ?n + 1, rn_events := ?es, rn_sessions := ?t\<rparr>" "res = Inr ?s"
      using started assms(6) by (auto simp: start_process_def Let_def log_event_def)
    have "session_key name c \<notin> fst ` set (rn_sessions r)" using assms(4) by (simp add: map_of_eq_None_iff)
    then have t: "?t = rn_sessions r @ [(session_key name c, ?s)]" by (rule update_new)
    have "session_ok reg ?es (session_key name c) ?s" unfolding session_ok_def
      using assms(3) cloneStringMap_same[OF assms(7)] by auto
    then have "\<forall>(k, s) \<in> set ?t. session_ok reg ?es k s" unfolding t using mono[of _ _ ?es] by auto
    moreover have "running ?es = rs_process ` snd ` set ?t" unfolding t launch using assms(1) by (simp add: runtime_ok_def)
    moreover have "table_ok ?t" using assms(1) by (simp add: runtime_ok_def table_ok_def distinct_update)
    ultimately show ?thesis using assms(1,2) ann bound' once
      unfolding r' runtime_ok_def by (auto simp: update_conv')
  qed
qed

lemma Open_ok:
  assumes "runtime_ok reg r" "Open la name c r = (res, r')" "config_ok c"
  shows "runtime_ok reg r' \<and> (\<forall>s. res = Inr s \<longrightarrow> \<not> rn_closed r' \<and> map_of (rn_sessions r') (session_key name c) = Some s)"
proof -
  have reg: "rn_registry r = reg" using assms(1) by (simp add: runtime_ok_def)
  consider (closed) "rn_closed r" | (unresolved) err where "\<not> rn_closed r" "Registry_Resolve reg name = Inl err"
    | (cached) d s where "\<not> rn_closed r" "Registry_Resolve reg name = Inr d" "map_of (rn_sessions r) (session_key name c) = Some s"
    | (fresh) d where "\<not> rn_closed r" "Registry_Resolve reg name = Inr d" "map_of (rn_sessions r) (session_key name c) = None"
    by (metis option.exhaust sum.exhaust)
  then show ?thesis
  proof cases
    case fresh
    note w = warn_once_ok[OF assms(1) fresh(2)]
    have "start_process la d name c (warn_once d name r) = (res, r')" using assms(2) fresh reg by (simp add: Open_def)
    from start_process_ok[OF w(1) _ fresh(2) _ w(4) this assms(3)] w(2,3) fresh show ?thesis by simp
  qed (use assms reg in \<open>auto simp: Open_def\<close>)
qed

lemma close_loop_eq:
  "close_loop la entries errs r = (errs @ List.map_filter (\<lambda>(key, s). map_option (\<lambda>err. key @ '': '' @ err) (la_close la (rs_process s))) entries,
     r\<lparr>rn_events := rn_events r @ map (\<lambda>(key, s). ClosedProcess (rs_process s)) entries\<rparr>)"
  by (induction la entries errs r rule: close_loop.induct)
     (auto simp: Let_def log_event_def List.map_filter_simps split: option.splits)

lemma running_all_closed: "running (es @ map (\<lambda>(key, s). ClosedProcess (rs_process s)) entries) = running es - rs_process ` snd ` set entries"
  by (force simp: running_def)

lemma announced_closed: "announced reg (rev es) \<Longrightarrow> announced reg (rev (es @ map (\<lambda>(key, s). ClosedProcess (rs_process s)) entries))"
  by (induction entries rule: rev_induct) (auto split: prod.splits)

lemma Runtime_Close_ok:
  assumes "runtime_ok reg r" "mset (order (rn_sessions r)) = mset (rn_sessions r)" "Runtime_Close la order r = (err, r')"
  shows "runtime_ok reg r' \<and> rn_closed r' \<and> running (rn_events r') = {} \<and>
    (err = None \<longleftrightarrow> rn_closed r \<or> (\<forall>s \<in> snd ` set (rn_sessions r). la_close la (rs_process s) = None))"
proof (cases "rn_closed r")
  case True
  with assms show ?thesis by (auto simp: Runtime_Close_def runtime_ok_def)
next
  case False
  let ?entries = "order (rn_sessions r)" and ?es = "rn_events r @ map (\<lambda>(key, s). ClosedProcess (rs_process s)) (order (rn_sessions r))"
  have set: "set ?entries = set (rn_sessions r)" using assms(2) by (metis set_mset_mset)
  have r': "r' = r\<lparr>rn_closed := True, rn_events := ?es, rn_sessions := []\<rparr>"
    using assms(3) False by (auto simp: Runtime_Close_def close_loop_eq)
  have run: "running ?es = {}" unfolding running_all_closed set using assms(1) by (simp add: runtime_ok_def)
  have bound: "\<forall>e \<in> set ?es. \<forall>n. process_of e = Some n \<longrightarrow> n < rn_launches r"
  proof -
    have "n < rn_launches r" if "n \<in> rs_process ` snd ` set (rn_sessions r)" for n
    proof -
      have "n \<in> running (rn_events r)" using that assms(1) by (simp add: runtime_ok_def)
      then obtain p where "Launched n p \<in> set (rn_events r)" by (auto simp: running_def)
      with assms(1) show ?thesis unfolding runtime_ok_def by (metis process_of.simps(2))
    qed
    then have "rs_process s < rn_launches r" if "(k, s) \<in> set (rn_sessions r)" for k s using that by force
    then show ?thesis using assms(1) set by (auto simp: runtime_ok_def)
  qed
  have err: "err = None \<longleftrightarrow> (\<forall>s \<in> snd ` set (rn_sessions r). la_close la (rs_process s) = None)"
  proof -
    have "err = None \<longleftrightarrow> List.map_filter (\<lambda>(key, s). map_option (\<lambda>err. key @ '': '' @ err) (la_close la (rs_process s))) ?entries = []"
      using assms(3) False by (auto simp: Runtime_Close_def close_loop_eq split: if_splits)
    also have "\<dots> \<longleftrightarrow> (\<forall>s \<in> snd ` set ?entries. la_close la (rs_process s) = None)"
      by (induction "order (rn_sessions r)") (auto simp: List.map_filter_def filter_empty_conv)
    finally show ?thesis unfolding set .
  qed
  have "runtime_ok reg r'" using assms(1) run bound announced_closed[of reg "rn_events r" ?entries] initialized_once_closed[of "rn_events r" ?entries]
    unfolding r' runtime_ok_def by auto
  then show ?thesis using run err False by (simp add: r')
qed

lemma reachable_ok: "runtime_reachable la reg r \<Longrightarrow> runtime_ok reg r"
proof (induction rule: runtime_reachable.induct)
  case new
  show ?case by (simp add: runtime_ok_def NewRuntime_def running_def table_ok_def initialized_once_def)
next
  case (opened r c name)
  then show ?case using Open_ok[of reg r la name c] by (metis surj_pair snd_conv)
next
  case (closed r order)
  then show ?case using Runtime_Close_ok[of reg r order la] by (metis surj_pair snd_conv)
qed

text \<open>What is known of a session that is returned.\<close>

lemma Open_session:
  assumes "runtime_ok reg r" "Open la name c r = (Inr s, r')" "config_ok c"
  shows "\<not> rn_closed r' \<and> rn_registry r' = reg \<and> map_of (rn_sessions r') (session_key name c) = Some s \<and>
    rs_process s \<in> running (rn_events r') \<and> Registry_Resolve reg name = Inr (rs_descriptor s) \<and>
    Launched (rs_process s) (pd_ExecutablePath (rs_descriptor s)) \<in> set (rn_events r') \<and>
    (\<exists>given. (\<forall>name' c'. Initialized (rs_process s) name' c' \<in> set (rn_events r') \<longleftrightarrow> name' = name \<and> c' = given) \<and>
      configurationFingerprint given = configurationFingerprint c)"
proof -
  from Open_ok[OF assms] have ok: "runtime_ok reg r'" "\<not> rn_closed r'" and m: "map_of (rn_sessions r') (session_key name c) = Some s" by blast+
  from m have e: "(session_key name c, s) \<in> set (rn_sessions r')" by (rule map_of_SomeD)
  with ok(1) have "session_ok reg (rn_events r') (session_key name c) s" by (auto simp: runtime_ok_def)
  then obtain name' given where k: "session_key name c = session_key name' given" "Registry_Resolve reg name' = Inr (rs_descriptor s)"
      "Launched (rs_process s) (pd_ExecutablePath (rs_descriptor s)) \<in> set (rn_events r')"
      "Initialized (rs_process s) name' given \<in> set (rn_events r')"
    unfolding session_ok_def by blast
  note n = session_key_inj[OF k(1)]
  have "initialized_once (rn_events r')" using ok(1) by (simp add: runtime_ok_def)
  with k(4) n have "\<forall>name'' c''. Initialized (rs_process s) name'' c'' \<in> set (rn_events r') \<longleftrightarrow> name'' = name \<and> c'' = given"
    unfolding initialized_once_def by blast
  moreover have "rs_process s \<in> rs_process ` snd ` set (rn_sessions r')" by (rule imageI) (use e in force)
  ultimately show ?thesis using ok m k(2,3) n by (auto simp: runtime_ok_def)
qed

text \<open>
  C7. Whatever calls of \<open>Open\<close> and \<open>Close\<close> a runtime sees, and whatever its plugins answer, the processes that
  run are exactly those of its cached sessions, so no failed start leaves one behind and after \<open>Close\<close> none is
  left. A session that \<open>Open\<close> returns runs the registered executable of the name asked for and was initialized
  once, for that name, with one configuration: the one asked for, unless one of the two holds a NUL byte or
  their bytes are a collision of SHA-256 (the cache keeps only the fingerprint; \<open>fingerprint_collision\<close> shows
  that a NUL byte does confuse it). Asking again, for the same entries in any order, gives the same session and
  starts nothing. Only registered executables are launched; a custom one is announced first, and once.
\<close>

theorem sessions_accounted:
  assumes "runtime_reachable la reg r"
  shows "running (rn_events r) = rs_process ` snd ` set (rn_sessions r) \<and> announced reg (rev (rn_events r)) \<and>
    (\<forall>name c s r'. config_ok c \<longrightarrow> Open la name c r = (Inr s, r') \<longrightarrow> rs_process s \<in> running (rn_events r') \<and>
      Registry_Resolve reg name = Inr (rs_descriptor s) \<and>
      (\<forall>c2. config_ok c2 \<longrightarrow> map_of c2 = map_of c \<longrightarrow> Open la name c2 r' = (Inr s, r')) \<and>
      Launched (rs_process s) (pd_ExecutablePath (rs_descriptor s)) \<in> set (rn_events r') \<and>
      (\<exists>given. (\<forall>name' c'. Initialized (rs_process s) name' c' \<in> set (rn_events r') \<longleftrightarrow> name' = name \<and> c' = given) \<and>
        (map_of given = map_of c \<or> \<not> nul_free given \<or> \<not> nul_free c \<or>
         sha256_collision (fingerprint_bytes given) (fingerprint_bytes c)))) \<and>
    (\<forall>order err r'. mset (order (rn_sessions r)) = mset (rn_sessions r) \<longrightarrow> Runtime_Close la order r = (err, r') \<longrightarrow>
      running (rn_events r') = {} \<and> (\<forall>name c. Open la name c r' = (Inl RuntimeClosed, r')))"
proof (intro conjI allI impI)
  have ok: "runtime_ok reg r" by (rule reachable_ok[OF assms])
  then show "running (rn_events r) = rs_process ` snd ` set (rn_sessions r)" "announced reg (rev (rn_events r))" by (simp_all add: runtime_ok_def)
  fix name c s r' assume c: "config_ok c" and o: "Open la name c r = (Inr s, r')"
  note session = Open_session[OF ok o c]
  show "rs_process s \<in> running (rn_events r')" "Registry_Resolve reg name = Inr (rs_descriptor s)"
    "Launched (rs_process s) (pd_ExecutablePath (rs_descriptor s)) \<in> set (rn_events r')" using session by blast+
  show "Open la name c2 r' = (Inr s, r')" if "config_ok c2" "map_of c2 = map_of c" for c2
    using session that session_key_map[OF that(1) c that(2)] by (simp add: Open_def)
  from session obtain given where "\<And>name' c'. Initialized (rs_process s) name' c' \<in> set (rn_events r') \<longleftrightarrow> name' = name \<and> c' = given"
      "configurationFingerprint given = configurationFingerprint c" by blast
  with same_fingerprint[of given c]
  show "\<exists>given. (\<forall>name' c'. Initialized (rs_process s) name' c' \<in> set (rn_events r') \<longleftrightarrow> name' = name \<and> c' = given) \<and>
      (map_of given = map_of c \<or> \<not> nul_free given \<or> \<not> nul_free c \<or> sha256_collision (fingerprint_bytes given) (fingerprint_bytes c))" by blast
next
  fix order err r' assume o: "mset (order (rn_sessions r)) = mset (rn_sessions r)" "Runtime_Close la order r = (err, r')"
  note cl = Runtime_Close_ok[OF reachable_ok[OF assms] o]
  show "running (rn_events r') = {}" using cl by blast
  show "Open la name c r' = (Inl RuntimeClosed, r')" for name c using cl by (simp add: Open_def)
qed

text \<open>How a plugin's output is cut into writes does not matter.\<close>

lemma takeWhile_shorter: "c \<in> set xs \<Longrightarrow> length (takeWhile (\<lambda>x. x \<noteq> c) xs) < length xs"
  by (induction xs) auto

lemma flush_lines_append:
  "(\<And>line. out line = None) \<Longrightarrow>
   flush_lines out (w\<lparr>sl_buf := sl_buf w @ q\<rparr>) = stderr_Write out q (snd (flush_lines out w)) \<and> fst (flush_lines out w) = None"
proof (induction out w rule: flush_lines.induct)
  case (1 out w)
  let ?line = "takeWhile (\<lambda>c. c \<noteq> CHR 0x0A) (sl_buf w) @ [CHR 0x0A]" and ?nl = "CHR 0x0A \<in> set (sl_buf w)"
  show ?case
  proof (cases ?nl)
    case False
    then have "flush_lines out w = (None, w)" by (subst flush_lines.simps) simp
    then show ?thesis by (simp add: stderr_Write_def)
  next
    case True
    then have tw: "takeWhile (\<lambda>c. c \<noteq> CHR 0x0A) (sl_buf w @ q) = takeWhile (\<lambda>c. c \<noteq> CHR 0x0A) (sl_buf w)" by (rule takeWhile_append1) simp
    have len: "length ?line \<le> length (sl_buf w)"
      using takeWhile_shorter[OF True] by simp
    then have dr: "drop (length ?line) (sl_buf w @ q) = drop (length ?line) (sl_buf w) @ q" by (simp add: drop_append)
    show ?thesis
    proof (cases "json_log_line ?line")
      case j: True
      have "flush_lines out w = flush_lines out (w\<lparr>sl_buf := drop (length ?line) (sl_buf w)\<rparr>)"
        using True j by (subst flush_lines.simps) (simp add: Let_def)
      moreover have "flush_lines out (w\<lparr>sl_buf := sl_buf w @ q\<rparr>) = flush_lines out (w\<lparr>sl_buf := drop (length ?line) (sl_buf w) @ q\<rparr>)"
        using True j tw dr by (subst flush_lines.simps) (simp add: Let_def)
      ultimately show ?thesis using 1(1)[of ?line, OF _ refl refl j 1(3)] True by simp
    next
      case j: False
      have "flush_lines out w = flush_lines out \<lparr>sl_buf = drop (length ?line) (sl_buf w), sl_out = sl_out w @ [?line]\<rparr>"
        using True j 1(3) by (subst flush_lines.simps) (simp add: Let_def)
      moreover have "flush_lines out (w\<lparr>sl_buf := sl_buf w @ q\<rparr>) = flush_lines out \<lparr>sl_buf = drop (length ?line) (sl_buf w) @ q, sl_out = sl_out w @ [?line]\<rparr>"
        using True j tw dr 1(3) by (subst flush_lines.simps) (simp add: Let_def)
      ultimately show ?thesis using 1(2)[of ?line, OF _ refl refl j 1(3) 1(3)] True by simp
    qed
  qed
qed

lemma stderr_Write_chunks:
  assumes "\<And>line. out line = None"
  shows "stderr_Write out q (snd (stderr_Write out p w)) = stderr_Write out (p @ q) w"
  using flush_lines_append[of out "w\<lparr>sl_buf := sl_buf w @ p\<rparr>" q] assms by (simp add: stderr_Write_def)

subsection \<open>A runtime in use\<close>

definition demo_launcher :: launcher where
  "demo_launcher = \<lparr>la_launch = (\<lambda>n p. if n = 1 then Some ''exec format error'' else None), la_initialize = (\<lambda>n name c. Inr (InitResponse (n \<noteq> 2) [])),
     la_close = (\<lambda>n. None)\<rparr>"

definition demo_registry :: provider_registry where
  "demo_registry = [(''acme'', installed_descriptor Shipped demo_acme_installation CustomResourceTable)]"

definition demo_runtime :: Runtime where
  "demo_runtime = snd (Open demo_launcher ''acme'' [(''k'', ''1'')] (NewRuntime demo_registry))"

lemma demo_resolve: "Registry_Resolve demo_registry ''acme'' = Inr (installed_descriptor Shipped demo_acme_installation CustomResourceTable)"
  by (simp add: Registry_Resolve_def demo_registry_def)

theorem sessions_accounted_witness:
  "runtime_reachable demo_launcher demo_registry demo_runtime \<and>
   (\<exists>s. Open demo_launcher ''acme'' [(''k'', ''1'')] demo_runtime = (Inr s, demo_runtime) \<and> running (rn_events demo_runtime) = {rs_process s})"
proof -
  have r: "runtime_reachable demo_launcher demo_registry (NewRuntime demo_registry)" by (rule new)
  have c: "config_ok [(''k'', ''1'')]" by (simp add: config_ok_def)
  have reach: "runtime_reachable demo_launcher demo_registry demo_runtime" unfolding demo_runtime_def by (rule opened[OF r c])
  obtain s where s: "Open demo_launcher ''acme'' [(''k'', ''1'')] (NewRuntime demo_registry) = (Inr s, demo_runtime)"
      "rn_sessions demo_runtime = [(session_key ''acme'' [(''k'', ''1'')], s)]"
    unfolding demo_runtime_def
    by (simp add: Open_def NewRuntime_def demo_resolve start_process_def Let_def warn_once_def log_event_def demo_launcher_def init_detail_def)
  from sessions_accounted[OF r] s(1) c have "Open demo_launcher ''acme'' [(''k'', ''1'')] demo_runtime = (Inr s, demo_runtime)" by blast
  moreover have "running (rn_events demo_runtime) = {rs_process s}"
    using sessions_accounted[OF reach, THEN conjunct1] s(2) by simp
  ultimately show ?thesis using reach by blast
qed

end
