(* ===== verification/Scan_Store.thy ===== *)
theory Scan_Store imports Provider_Registry Drift Sha256 Complex_Main begin

text \<open>
  internal/db/graph_store.go, internal/db/observations.go, internal/data/persistence.go: how the outcome of a
  scan is stored. A scan is one transaction: the resource tables hold the latest state of each resource,
  the observations what each scan saw, and the scan's own row counts what changed since the previous
  comparable complete scan. A table is its rows under their primary key; a statement may fail, and then the
  transaction is rolled back. JSON, the casts of the database, \<open>time.Parse\<close> and the clock are parameters.
\<close>

subsection \<open>What a resource is stored as\<close>

datatype json = JString string | JNumber rat | JArray "json list" | JObject "(string \<times> json) list" | JOther string

datatype canonical = CanonNull | CanonDecoded json | CanonText string

record semantic_payload =
  sp_provider :: string
  sp_id :: string
  sp_name :: string
  sp_type :: string
  sp_service :: string
  sp_location :: string
  sp_account :: string
  sp_arn :: string
  sp_parent :: string
  sp_tags :: strmap
  sp_attributes :: canonical
  sp_raw :: canonical

record resource_row =
  rr_name :: string
  rr_type :: string
  rr_service :: string
  rr_region :: string
  rr_account :: string
  rr_arn :: string
  rr_parent :: string
  rr_tags :: "string option"
  rr_attributes :: "string option"
  rr_raw :: "string option"
  rr_created :: "timestamp option"
  rr_modified :: "timestamp option"
  rr_scanned :: timestamp

record azure_row =
  az_name :: string
  az_type :: string
  az_subscription :: string
  az_group :: string
  az_location :: string
  az_parent :: string
  az_service :: string
  az_sku_name :: string
  az_sku_tier :: string
  az_sku_size :: string
  az_sku_family :: string
  az_sku_capacity :: "int option"
  az_tags :: string
  az_properties :: string
  az_raw :: string
  az_created :: "timestamp option"
  az_changed :: "timestamp option"
  az_etag :: string
  az_api_version :: string
  az_attributes :: "string option"

record gcp_row =
  gr_name :: string
  gr_type :: string
  gr_service :: string
  gr_project :: string
  gr_location :: string
  gr_org :: string
  gr_folder :: string
  gr_tags :: string
  gr_labels :: string
  gr_raw :: string
  gr_discovered :: timestamp
  gr_scan_id :: string
  gr_account :: string
  gr_attributes :: "string option"
  gr_created :: "timestamp option"
  gr_modified :: "timestamp option"

datatype resource_columns = CommonColumns resource_row | AzureColumns azure_row | GcpColumns gcp_row

text \<open>A row of \<open>scan_metadata\<close>: the columns the history reads, and the two it does not.\<close>

record metadata_row =
  mr_row :: scan_row
  mr_failed :: int
  mr_metadata :: string

text \<open>
  Resource tables under the table's name, the provider (for custom resources only) and the id; relationships
  under both ends, type and provider; observations under scan, provider and id.
\<close>

record store_db =
  sd_resources :: "(string \<times> string \<times> string, resource_columns) table"
  sd_relationships :: "(string \<times> string \<times> string \<times> string, stored_relationship) table"
  sd_observations :: "(string \<times> string \<times> string, Observation) table"
  sd_rel_observations :: "(string \<times> string \<times> string \<times> string \<times> string, RelationshipObservation \<times> timestamp) table"
  sd_scans :: "(string, metadata_row) table"

datatype store_stmt =
    DeleteResource string string
  | PutResource string string
  | PutRelationship string string string
  | PutObservation string string
  | PutRelObservation string string string
  | PutScan string
  | CountChanges string

record store_env =
  se_fault :: "store_stmt \<Rightarrow> string option"
  se_begin :: "string option"
  se_commit :: "string option"
  se_now :: timestamp
  se_uuid :: string
  se_cast :: "string \<Rightarrow> string option"
  se_parse_time :: "string \<Rightarrow> timestamp option"
  se_decode :: "string \<Rightarrow> json option"
  se_encode :: "json \<Rightarrow> string"
  se_encode_map :: "strmap \<Rightarrow> string"
  se_encode_list :: "string list \<Rightarrow> string"
  se_encode_failed :: "string list \<Rightarrow> string"
  se_encode_payload :: "semantic_payload \<Rightarrow> string"
  se_encode_scope :: "string \<Rightarrow> string list \<Rightarrow> string list \<Rightarrow> string"

definition scanStringOrFallback :: "string \<Rightarrow> string \<Rightarrow> string" where
  "scanStringOrFallback s fallback = (if strings_TrimSpace s = [] then fallback else s)"

definition scanStringJSONOrNil :: "string \<Rightarrow> string option" where
  "scanStringJSONOrNil s = (if strings_TrimSpace s = [] then None else Some s)"

definition jsonOrNull :: "string \<Rightarrow> string option" where
  "jsonOrNull s = (if strings_TrimSpace s = [] then None else Some s)"

definition scanTagsJSONOrNil :: "store_env \<Rightarrow> strmap \<Rightarrow> string option" where
  "scanTagsJSONOrNil env tags = (if tags = Map.empty then None else Some (se_encode_map env tags))"

definition scanTagsJSONOrDefault :: "store_env \<Rightarrow> strmap \<Rightarrow> string \<Rightarrow> string" where
  "scanTagsJSONOrDefault env tags fallback = (if tags = Map.empty then fallback else se_encode_map env tags)"

definition scanRelationshipPropertiesJSONOrNil :: "store_env \<Rightarrow> strmap \<Rightarrow> string option" where
  "scanRelationshipPropertiesJSONOrNil env properties = (if properties = Map.empty then None else Some (se_encode_map env properties))"

definition scanAnyJSONOrDefault :: "store_env \<Rightarrow> json option \<Rightarrow> string \<Rightarrow> string" where
  "scanAnyJSONOrDefault env v fallback = (case v of None \<Rightarrow> fallback | Some j \<Rightarrow> se_encode env j)"

definition scanMap :: "json option \<Rightarrow> (string \<rightharpoonup> json)" where
  "scanMap v = (case v of Some (JObject kvs) \<Rightarrow> map_of kvs | _ \<Rightarrow> Map.empty)"

definition scanJSONObject :: "store_env \<Rightarrow> string \<Rightarrow> (string \<rightharpoonup> json)" where
  "scanJSONObject env s = (if strings_TrimSpace s = [] then Map.empty else scanMap (se_decode env s))"

definition scanStringValue :: "json option \<Rightarrow> string" where
  "scanStringValue v = (case v of Some (JString s) \<Rightarrow> s | _ \<Rightarrow> [])"

text \<open>Numbers decode as floats and are truncated.\<close>

definition scanIntValue :: "json option \<Rightarrow> int option" where
  "scanIntValue v = (case v of Some (JNumber r) \<Rightarrow> Some (if r < 0 then \<lceil>r\<rceil> else \<lfloor>r\<rfloor>) | _ \<Rightarrow> None)"

text \<open>\<open>strings.EqualFold\<close> on ASCII.\<close>

definition EqualFold :: "string \<Rightarrow> string \<Rightarrow> bool" where
  "EqualFold a b \<longleftrightarrow> strings_ToLower a = strings_ToLower b"

fun segment_after :: "(string \<Rightarrow> bool) \<Rightarrow> string list \<Rightarrow> string" where
  "segment_after hit (p # q # parts) = (if hit p then q else segment_after hit (q # parts))"
| "segment_after hit parts = []"

definition scanAzureResourceGroupFromID :: "string \<Rightarrow> string" where
  "scanAzureResourceGroupFromID resourceID = segment_after (\<lambda>p. EqualFold p ''resourceGroups'') (strings_Split resourceID (CHR ''/''))"

definition scanPathSegmentAfter :: "string \<Rightarrow> string \<Rightarrow> string" where
  "scanPathSegmentAfter resourceID marker = segment_after (\<lambda>p. p = marker) (strings_Split resourceID (CHR ''/''))"

definition scanGCPProjectID :: "string \<Rightarrow> string" where
  "scanGCPProjectID i = scanPathSegmentAfter i ''projects''"

definition scanGCPOrgID :: "string \<Rightarrow> string" where
  "scanGCPOrgID i = scanPathSegmentAfter i ''organizations''"

definition scanGCPFolderID :: "string \<Rightarrow> string" where
  "scanGCPFolderID i = scanPathSegmentAfter i ''folders''"

definition scanRelationshipTargetType :: "pb_Relationship \<Rightarrow> string" where
  "scanRelationshipTargetType rel = (if strings_TrimSpace (rel_TargetType rel) \<noteq> [] then rel_TargetType rel
     else (let parts = strings_Split (rel_TargetId rel) (CHR ''/'') in if length parts \<ge> 3 then parts ! 2 else []))"

definition canonicalJSONValue :: "store_env \<Rightarrow> string \<Rightarrow> canonical" where
  "canonicalJSONValue env v = (let s = strings_TrimSpace v in
     if s = [] then CanonNull else (case se_decode env s of Some j \<Rightarrow> CanonDecoded j | None \<Rightarrow> CanonText s))"

definition resourceSemanticHash :: "store_env \<Rightarrow> pb_Resource \<Rightarrow> string" where
  "resourceSemanticHash env r = sha256_hex (se_encode_payload env \<lparr>
     sp_provider = strings_ToLower (strings_TrimSpace (res_Provider r)), sp_id = res_Id r, sp_name = res_Name r,
     sp_type = res_Type r, sp_service = res_Service r, sp_location = res_Region r, sp_account = res_AccountId r,
     sp_arn = res_Arn r, sp_parent = res_ParentId r, sp_tags = res_Tags r,
     sp_attributes = canonicalJSONValue env (res_Attributes r), sp_raw = canonicalJSONValue env (res_RawData r)\<rparr>)"

subsection \<open>Choosing a table\<close>

datatype table_error = InvalidTableName string | UnregisteredResourceTable string | NoProvider

definition scanValidTableIdentifier :: "string \<Rightarrow> bool" where
  "scanValidTableIdentifier t \<longleftrightarrow> (case t of [] \<Rightarrow> False
     | c # cs \<Rightarrow> letter_or_underscore c \<and> list_all (\<lambda>d. letter_or_underscore d \<or> ascii_digit d) cs)"

definition scanValidatedResourceTable :: "string \<Rightarrow> table_error + string" where
  "scanValidatedResourceTable t = (let t = strings_TrimSpace t in
     if \<not> scanValidTableIdentifier t then Inl (InvalidTableName t)
     else if \<not> IsRegisteredResourceTable t then Inl (UnregisteredResourceTable t) else Inr t)"

definition scanResourceTableForProvider :: "string \<Rightarrow> string" where
  "scanResourceTableForProvider provider = (case Lookup provider of Some p \<Rightarrow> pr_ResourceTable p | None \<Rightarrow> [])"

definition scanResourceTable :: "pb_Resource \<Rightarrow> string \<Rightarrow> table_error + string" where
  "scanResourceTable r override =
     (if strings_TrimSpace override \<noteq> [] then scanValidatedResourceTable (strings_TrimSpace override)
      else if scanResourceTableForProvider (res_Provider r) \<noteq> [] then Inr (scanResourceTableForProvider (res_Provider r))
      else if strings_TrimSpace (res_Provider r) = [] then Inl NoProvider else Inr CustomResourceTable)"

datatype adapter = AdapterGeneric | AdapterAzure | AdapterGCP | AdapterCustom

definition scan_adapter :: "string \<Rightarrow> adapter" where
  "scan_adapter t = (if t = CustomResourceTable then AdapterCustom
     else (case LookupByResourceTable t of
         None \<Rightarrow> AdapterGeneric
       | Some p \<Rightarrow> if pr_Name p = ''azure'' then AdapterAzure else if pr_Name p = ''gcp'' then AdapterGCP else AdapterGeneric))"

subsection \<open>Storing one resource\<close>

datatype store_error =
    BeginFailed string
  | SelectAdapter string table_error
  | StoreResource string string
  | StoreRelationships string string
  | NoScanID
  | StoreObservations string
  | StoreMetadata string
  | CommitFailed string

definition exec :: "store_env \<Rightarrow> store_stmt \<Rightarrow> (store_db \<Rightarrow> store_db) \<Rightarrow> store_db \<Rightarrow> string + store_db" where
  "exec env stmt f db = (case se_fault env stmt of Some err \<Rightarrow> Inl err | None \<Rightarrow> Inr (f db))"

definition put_resource :: "string \<times> string \<times> string \<Rightarrow> (resource_columns option \<Rightarrow> resource_columns) \<Rightarrow> store_db \<Rightarrow> store_db" where
  "put_resource k f db = db\<lparr>sd_resources := AList.update k (f (map_of (sd_resources db) k)) (sd_resources db)\<rparr>"

definition cast_json :: "store_env \<Rightarrow> string option \<Rightarrow> string option" where
  "cast_json env v = (case v of None \<Rightarrow> None | Some s \<Rightarrow> se_cast env s)"

definition custom_columns :: "store_env \<Rightarrow> pb_Resource \<Rightarrow> resource_row" where
  "custom_columns env r = \<lparr>rr_name = scanStringOrFallback (res_Name r) (res_Id r), rr_type = scanStringOrFallback (res_Type r) ''unknown'',
     rr_service = res_Service r, rr_region = res_Region r, rr_account = res_AccountId r,
     rr_arn = scanStringOrFallback (res_Arn r) (res_Id r), rr_parent = res_ParentId r,
     rr_tags = cast_json env (scanTagsJSONOrNil env (res_Tags r)), rr_attributes = cast_json env (scanStringJSONOrNil (res_Attributes r)),
     rr_raw = cast_json env (scanStringJSONOrNil (res_RawData r)), rr_created = res_CreatedAt r, rr_modified = res_ModifiedAt r,
     rr_scanned = se_now env\<rparr>"

definition storeCustomScanResource :: "store_env \<Rightarrow> pb_Resource \<Rightarrow> store_db \<Rightarrow> string + store_db" where
  "storeCustomScanResource env r db = (if strings_TrimSpace (res_Provider r) = [] then Inl ''custom resource provider is required''
     else exec env (PutResource CustomResourceTable (res_Id r))
       (put_resource (CustomResourceTable, res_Provider r, res_Id r) (\<lambda>_. CommonColumns (custom_columns env r))) db)"

definition generic_columns :: "store_env \<Rightarrow> pb_Resource \<Rightarrow> resource_row" where
  "generic_columns env r = (custom_columns env r)\<lparr>rr_service := scanStringOrFallback (res_Service r) ''unknown'', rr_parent := []\<rparr>"

definition storeGenericScanResource :: "store_env \<Rightarrow> string \<Rightarrow> pb_Resource \<Rightarrow> store_db \<Rightarrow> string + store_db" where
  "storeGenericScanResource env t r db =
     (case exec env (DeleteResource t (res_Id r)) (\<lambda>db. db\<lparr>sd_resources := AList.delete (t, [], res_Id r) (sd_resources db)\<rparr>) db of
        Inl err \<Rightarrow> Inl err
      | Inr db \<Rightarrow> exec env (PutResource t (res_Id r)) (put_resource (t, [], res_Id r) (\<lambda>_. CommonColumns (generic_columns env r))) db)"

definition json_time :: "store_env \<Rightarrow> json option \<Rightarrow> timestamp option" where
  "json_time env v = (case v of Some (JString s) \<Rightarrow> se_parse_time env s | _ \<Rightarrow> None)"

definition or_time :: "timestamp option \<Rightarrow> timestamp option \<Rightarrow> timestamp option" where
  "or_time t reported = (case t of None \<Rightarrow> reported | Some _ \<Rightarrow> t)"

definition azure_columns :: "store_env \<Rightarrow> pb_Resource \<Rightarrow> azure_row" where
  "azure_columns env r = (let rawData = scanStringOrFallback (res_RawData r) ''{}''; rawObject = scanJSONObject env rawData;
       properties = (case rawObject ''properties'' of Some (JObject kvs) \<Rightarrow> se_encode env (JObject kvs) | _ \<Rightarrow> ''{}'');
       sku = scanMap (rawObject ''sku'');
       grp = scanAzureResourceGroupFromID (res_Id r);
       resourceGroup = (if grp = [] then res_ParentId r else grp) in
     \<lparr>az_name = scanStringOrFallback (res_Name r) (res_Id r), az_type = scanStringOrFallback (res_Type r) ''unknown'',
      az_subscription = res_AccountId r, az_group = resourceGroup, az_location = res_Region r, az_parent = res_ParentId r,
      az_service = scanStringOrFallback (res_Service r) ''unknown'', az_sku_name = scanStringValue (sku ''name''),
      az_sku_tier = scanStringValue (sku ''tier''), az_sku_size = scanStringValue (sku ''size''),
      az_sku_family = scanStringValue (sku ''family''), az_sku_capacity = scanIntValue (sku ''capacity''),
      az_tags = scanTagsJSONOrDefault env (res_Tags r) ''{}'', az_properties = properties, az_raw = rawData,
      az_created = or_time (json_time env (rawObject ''createdTime'')) (res_CreatedAt r),
      az_changed = or_time (json_time env (rawObject ''changedTime'')) (res_ModifiedAt r),
      az_etag = scanStringValue (rawObject ''etag''), az_api_version = scanStringValue (rawObject ''apiVersion''),
      az_attributes = scanStringJSONOrNil (res_Attributes r)\<rparr>)"

definition storeAzureScanResource :: "store_env \<Rightarrow> pb_Resource \<Rightarrow> store_db \<Rightarrow> string + store_db" where
  "storeAzureScanResource env r db = exec env (PutResource ''azure_resources'' (res_Id r))
     (put_resource (''azure_resources'', [], res_Id r) (\<lambda>_. AzureColumns (azure_columns env r))) db"

definition gcp_columns :: "store_env \<Rightarrow> pb_Resource \<Rightarrow> gcp_row" where
  "gcp_columns env r = (let attrs = scanJSONObject env (res_Attributes r) in
     \<lparr>gr_name = scanStringOrFallback (res_Name r) (res_Id r), gr_type = scanStringOrFallback (res_Type r) ''unknown'',
      gr_service = scanStringOrFallback (res_Service r) ''unknown'',
      gr_project = scanStringOrFallback (scanGCPProjectID (res_Id r)) (scanStringOrFallback (res_AccountId r) ''unknown''),
      gr_location = res_Region r, gr_org = scanGCPOrgID (res_Id r), gr_folder = scanGCPFolderID (res_Id r),
      gr_tags = scanTagsJSONOrDefault env (res_Tags r) ''{}'', gr_labels = scanAnyJSONOrDefault env (attrs ''labels'') ''{}'',
      gr_raw = scanStringOrFallback (res_RawData r) ''{}'', gr_discovered = (case res_DiscoveredAt r of Some t \<Rightarrow> t | None \<Rightarrow> se_now env),
      gr_scan_id = scanStringOrFallback (scanStringValue (attrs ''scan_id'')) (''scan-'' @ strconv_Itoa (se_now env div 1000000000)),
      gr_account = res_AccountId r, gr_attributes = scanStringJSONOrNil (res_Attributes r),
      gr_created = res_CreatedAt r, gr_modified = res_ModifiedAt r\<rparr>)"

text \<open>A stored row keeps its project and its creation time.\<close>

definition storeGCPScanResource :: "store_env \<Rightarrow> pb_Resource \<Rightarrow> store_db \<Rightarrow> string + store_db" where
  "storeGCPScanResource env r db = exec env (PutResource ''gcp_resources'' (res_Id r))
     (put_resource (''gcp_resources'', [], res_Id r) (\<lambda>old. GcpColumns (case old of
        Some (GcpColumns g) \<Rightarrow> (gcp_columns env r)\<lparr>gr_project := gr_project g, gr_created := gr_created g\<rparr>
      | _ \<Rightarrow> gcp_columns env r))) db"

definition store_resource :: "store_env \<Rightarrow> string \<Rightarrow> pb_Resource \<Rightarrow> store_db \<Rightarrow> string + store_db" where
  "store_resource env t r db = (case scan_adapter t of
     AdapterAzure \<Rightarrow> storeAzureScanResource env r db
   | AdapterGCP \<Rightarrow> storeGCPScanResource env r db
   | AdapterCustom \<Rightarrow> storeCustomScanResource env r db
   | AdapterGeneric \<Rightarrow> storeGenericScanResource env t r db)"

subsection \<open>The loops of a scan\<close>

definition relationship_columns :: "store_env \<Rightarrow> pb_Resource \<Rightarrow> pb_Relationship \<Rightarrow> stored_relationship" where
  "relationship_columns env r rel = \<lparr>srel_provider = strings_ToLower (res_Provider r), srel_from = res_Id r, srel_to = rel_TargetId rel,
     srel_type = rel_RelationshipType rel, srel_subtype = Some [], srel_direction = Some ''outbound'', srel_from_type = Some (res_Type r),
     srel_to_type = Some (scanRelationshipTargetType rel),
     srel_properties = cast_json env (scanRelationshipPropertiesJSONOrNil env (rel_Properties rel))\<rparr>"

fun storeScanRelationships :: "store_env \<Rightarrow> pb_Resource \<Rightarrow> string list \<Rightarrow> pb_Relationship option list \<Rightarrow> store_db \<Rightarrow> string + store_db" where
  "storeScanRelationships env r seen [] db = Inr db"
| "storeScanRelationships env r seen (None # rels) db = storeScanRelationships env r seen rels db"
| "storeScanRelationships env r seen (Some rel # rels) db =
     (let key = res_Id r @ ''|'' @ rel_TargetId rel @ ''|'' @ rel_RelationshipType rel;
          k = (res_Id r, rel_TargetId rel, rel_RelationshipType rel, strings_ToLower (res_Provider r)) in
      if rel_TargetId rel = [] \<or> rel_RelationshipType rel = [] \<or> key \<in> set seen then storeScanRelationships env r seen rels db
      else (case exec env (PutRelationship (res_Id r) (rel_TargetId rel) (rel_RelationshipType rel))
                (\<lambda>db. db\<lparr>sd_relationships := AList.update k (relationship_columns env r rel) (sd_relationships db)\<rparr>) db of
          Inl err \<Rightarrow> Inl err
        | Inr db \<Rightarrow> storeScanRelationships env r (key # seen) rels db))"

fun storeScanResources :: "store_env \<Rightarrow> string \<Rightarrow> string list \<Rightarrow> pb_Resource option list \<Rightarrow> store_db \<Rightarrow> store_error + store_db" where
  "storeScanResources env override seen [] db = Inr db"
| "storeScanResources env override seen (None # rs) db = storeScanResources env override seen rs db"
| "storeScanResources env override seen (Some r # rs) db = (case scanResourceTable r override of
     Inl err \<Rightarrow> Inl (SelectAdapter (res_Id r) err)
   | Inr t \<Rightarrow> (let key = t @ ''|'' @ res_Provider r @ ''|'' @ res_Id r in
       if key \<in> set seen then storeScanResources env override seen rs db
       else (case store_resource env t r db of
           Inl err \<Rightarrow> Inl (StoreResource (res_Id r) err)
         | Inr db \<Rightarrow> (case storeScanRelationships env r [] (res_Relationships r) db of
             Inl err \<Rightarrow> Inl (StoreRelationships (res_Id r) err)
           | Inr db \<Rightarrow> storeScanResources env override (key # seen) rs db))))"

record ScanOutcomeMetadata =
  som_ID :: string
  som_Provider :: string
  som_Services :: "string list"
  som_Regions :: "string list"
  som_TotalResources :: int
  som_FailedResources :: int
  som_StartedAt :: "timestamp option"
  som_EndedAt :: "timestamp option"
  som_DurationMS :: int
  som_Metadata :: string
  som_Status :: string
  som_ScopeKey :: string
  som_SnapshotComplete :: bool

text \<open>The zero time, year 1, in nanoseconds; an unset time is \<open>None\<close>.\<close>

definition zero_time :: timestamp where
  "zero_time = - 62135596800 * 1000000000"

definition observed_at :: "ScanOutcomeMetadata \<Rightarrow> timestamp" where
  "observed_at m = (case som_EndedAt m of Some t \<Rightarrow> t | None \<Rightarrow> zero_time)"

definition observation_provider :: "ScanOutcomeMetadata \<Rightarrow> pb_Resource \<Rightarrow> string" where
  "observation_provider m r = (let provider = strings_ToLower (strings_TrimSpace (res_Provider r)) in
     if provider = [] then strings_ToLower (strings_TrimSpace (som_Provider m)) else provider)"

definition observation_columns :: "store_env \<Rightarrow> ScanOutcomeMetadata \<Rightarrow> pb_Resource \<Rightarrow> Observation" where
  "observation_columns env m r = \<lparr>obs_ScanID = som_ID m, obs_Provider = observation_provider m r, obs_ResourceID = res_Id r,
     obs_Name = res_Name r, obs_Type = res_Type r, obs_Service = res_Service r, obs_Location = res_Region r,
     obs_AccountID = res_AccountId r, obs_ARN = res_Arn r, obs_ParentID = res_ParentId r,
     obs_Tags = COALESCE (se_cast env (se_encode_map env (res_Tags r))) [],
     obs_Attributes = COALESCE (cast_json env (jsonOrNull (res_Attributes r))) [],
     obs_RawData = COALESCE (cast_json env (jsonOrNull (res_RawData r))) [],
     obs_SemanticHash = resourceSemanticHash env r, obs_ObservedAt = observed_at m,
     obs_CreatedAt = res_CreatedAt r, obs_ModifiedAt = res_ModifiedAt r\<rparr>"

definition rel_observation_columns :: "store_env \<Rightarrow> ScanOutcomeMetadata \<Rightarrow> pb_Resource \<Rightarrow> pb_Relationship \<Rightarrow> RelationshipObservation" where
  "rel_observation_columns env m r rel = \<lparr>ro_ScanID = som_ID m, ro_Provider = observation_provider m r, ro_FromID = res_Id r,
     ro_ToID = rel_TargetId rel, ro_Type = rel_RelationshipType rel, ro_Subtype = [],
     ro_Properties = COALESCE (se_cast env (se_encode_map env (rel_Properties rel))) [], ro_FromType = res_Type r,
     ro_ToType = rel_TargetType rel, ro_Direction = ''outbound''\<rparr>"

definition observation_key :: "Observation \<Rightarrow> string \<times> string \<times> string" where
  "observation_key x = (obs_ScanID x, obs_Provider x, obs_ResourceID x)"

definition rel_observation_key :: "RelationshipObservation \<Rightarrow> string \<times> string \<times> string \<times> string \<times> string" where
  "rel_observation_key x = (ro_ScanID x, ro_Provider x, ro_FromID x, ro_ToID x, ro_Type x)"

text \<open>The two maps of keys already seen are threaded through; a resource seen before still has its relationships observed.\<close>

fun observe_relationships :: "store_env \<Rightarrow> ScanOutcomeMetadata \<Rightarrow> pb_Resource \<Rightarrow> string list \<Rightarrow> pb_Relationship option list \<Rightarrow>
    store_db \<Rightarrow> string + string list \<times> store_db" where
  "observe_relationships env m r seen [] db = Inr (seen, db)"
| "observe_relationships env m r seen (None # rels) db = observe_relationships env m r seen rels db"
| "observe_relationships env m r seen (Some rel # rels) db =
     (let key = observation_provider m r @ ''|'' @ res_Id r @ ''|'' @ rel_TargetId rel @ ''|'' @ rel_RelationshipType rel;
          x = rel_observation_columns env m r rel in
      if rel_TargetId rel = [] \<or> rel_RelationshipType rel = [] \<or> key \<in> set seen then observe_relationships env m r seen rels db
      else (case exec env (PutRelObservation (res_Id r) (rel_TargetId rel) (rel_RelationshipType rel))
                (\<lambda>db. db\<lparr>sd_rel_observations := AList.update (rel_observation_key x) (x, observed_at m) (sd_rel_observations db)\<rparr>) db of
          Inl err \<Rightarrow> Inl err
        | Inr db \<Rightarrow> observe_relationships env m r (key # seen) rels db))"

definition observed_key :: "ScanOutcomeMetadata \<Rightarrow> pb_Resource \<Rightarrow> string" where
  "observed_key m r = observation_provider m r @ ''|'' @ res_Id r"

definition observe_resource :: "store_env \<Rightarrow> ScanOutcomeMetadata \<Rightarrow> pb_Resource \<Rightarrow> string list \<Rightarrow> store_db \<Rightarrow> string + string list \<times> store_db" where
  "observe_resource env m r seen db = (if observed_key m r \<in> set seen then Inr (seen, db)
     else (case exec env (PutObservation (observation_provider m r) (res_Id r))
         (\<lambda>db. db\<lparr>sd_observations := AList.update (observation_key (observation_columns env m r)) (observation_columns env m r) (sd_observations db)\<rparr>) db of
        Inl err \<Rightarrow> Inl err
      | Inr db \<Rightarrow> Inr (observed_key m r # seen, db)))"

fun observe_resources :: "store_env \<Rightarrow> ScanOutcomeMetadata \<Rightarrow> string list \<Rightarrow> string list \<Rightarrow> pb_Resource option list \<Rightarrow> store_db \<Rightarrow> string + store_db" where
  "observe_resources env m seen seen_rels [] db = Inr db"
| "observe_resources env m seen seen_rels (None # rs) db = observe_resources env m seen seen_rels rs db"
| "observe_resources env m seen seen_rels (Some r # rs) db =
     (if strings_TrimSpace (res_Id r) = [] then observe_resources env m seen seen_rels rs db
      else (case observe_resource env m r seen db of
          Inl err \<Rightarrow> Inl err
        | Inr (seen, db) \<Rightarrow> (case observe_relationships env m r seen_rels (res_Relationships r) db of
            Inl err \<Rightarrow> Inl err
          | Inr (seen_rels, db) \<Rightarrow> observe_resources env m seen seen_rels rs db)))"

definition storeScanObservations :: "store_env \<Rightarrow> pb_Resource option list \<Rightarrow> ScanOutcomeMetadata \<Rightarrow> store_db \<Rightarrow> store_error + store_db" where
  "storeScanObservations env rs m db = (if strings_TrimSpace (som_ID m) = [] then Inl NoScanID
     else (case observe_resources env m [] [] rs db of Inl err \<Rightarrow> Inl (StoreObservations err) | Inr db \<Rightarrow> Inr db))"

subsection \<open>The row of a scan\<close>

definition scan_rows :: "store_db \<Rightarrow> scan_row list" where
  "scan_rows db = map (mr_row \<circ> snd) (sd_scans db)"

definition observation_rows :: "store_db \<Rightarrow> Observation list" where
  "observation_rows db = map snd (sd_observations db)"

text \<open>\<open>Time.Sub\<close> saturates and \<open>Milliseconds\<close> truncates.\<close>

definition elapsed_ms :: "timestamp \<Rightarrow> timestamp \<Rightarrow> int" where
  "elapsed_ms start finish = (let d = max (- (2 ^ 63)) (min (2 ^ 63 - 1) (finish - start)) in
     if d < 0 then - ((- d) div 1000000) else d div 1000000)"

definition outcome_start :: "store_env \<Rightarrow> ScanOutcomeMetadata \<Rightarrow> timestamp" where
  "outcome_start env m = COALESCE (som_StartedAt m) (se_now env)"

definition outcome_row :: "store_env \<Rightarrow> ScanOutcomeMetadata \<Rightarrow> scan_row" where
  "outcome_row env m = (let start = outcome_start env m; finish = COALESCE (som_EndedAt m) start in
     \<lparr>srow_id = (if som_ID m = [] then se_uuid env else som_ID m),
      srow_provider = (if som_Provider m = [] then ''unknown'' else som_Provider m),
      srow_services = se_encode_list env (som_Services m), srow_regions = se_encode_list env (som_Regions m),
      srow_scope_key = Some (som_ScopeKey m), srow_status = (if som_Status m = [] then ''completed'' else som_Status m),
      srow_snapshot_complete = Some (som_SnapshotComplete m), srow_start = start, srow_end = Some finish,
      srow_total = som_TotalResources m, srow_new = 0, srow_updated = 0, srow_deleted = 0,
      srow_duration_ms = Some (if som_DurationMS m = 0 then elapsed_ms start finish else som_DurationMS m)\<rparr>)"

text \<open>A scan stored again keeps its counts.\<close>

definition upsert_scan :: "store_env \<Rightarrow> ScanOutcomeMetadata \<Rightarrow> metadata_row option \<Rightarrow> metadata_row" where
  "upsert_scan env m old = \<lparr>mr_row = (case old of None \<Rightarrow> outcome_row env m
       | Some o' \<Rightarrow> (outcome_row env m)\<lparr>srow_new := srow_new (mr_row o'), srow_updated := srow_updated (mr_row o'),
           srow_deleted := srow_deleted (mr_row o')\<rparr>),
     mr_failed = som_FailedResources m, mr_metadata = som_Metadata m\<rparr>"

text \<open>The joins of the statement that counts the changes; \<open>previous\<close> is \<open>None\<close> when there is no earlier scan, and then nothing joins.\<close>

definition same_resource :: "Observation \<Rightarrow> Observation \<Rightarrow> bool" where
  "same_resource x y \<longleftrightarrow> obs_Provider x = obs_Provider y \<and> obs_ResourceID x = obs_ResourceID y"

definition prior_rows :: "Observation list \<Rightarrow> string option \<Rightarrow> Observation \<Rightarrow> Observation list" where
  "prior_rows t previous current = filter (\<lambda>prior. Some (obs_ScanID prior) = previous \<and> same_resource prior current) t"

definition new_count :: "Observation list \<Rightarrow> string option \<Rightarrow> string \<Rightarrow> int" where
  "new_count t previous i = int (length (filter (\<lambda>current. obs_ScanID current = i \<and> prior_rows t previous current = []) t))"

definition updated_count :: "Observation list \<Rightarrow> string option \<Rightarrow> string \<Rightarrow> int" where
  "updated_count t previous i = int (length (concat (map (\<lambda>current. filter (\<lambda>prior. obs_SemanticHash current \<noteq> obs_SemanticHash prior)
     (prior_rows t previous current)) (filter (\<lambda>current. obs_ScanID current = i) t))))"

definition deleted_count :: "Observation list \<Rightarrow> string option \<Rightarrow> string \<Rightarrow> int" where
  "deleted_count t previous i = int (length (filter (\<lambda>prior. Some (obs_ScanID prior) = previous \<and> prior_rows t (Some i) prior = []) t))"

definition previous_scan :: "scan_row list \<Rightarrow> scan_row \<Rightarrow> string option" where
  "previous_scan t row = newest_id (filter (\<lambda>r. srow_provider r = srow_provider row \<and> srow_scope_key r = srow_scope_key row \<and>
     complete_row r \<and> srow_id r \<noteq> srow_id row \<and> srow_start r \<le> srow_start row) t)"

definition set_counts :: "string \<Rightarrow> int \<Rightarrow> int \<Rightarrow> int \<Rightarrow> (string, metadata_row) table \<Rightarrow> (string, metadata_row) table" where
  "set_counts i a b c t = map (\<lambda>(k, x). (k, if k \<noteq> i then x
     else x\<lparr>mr_row := (mr_row x)\<lparr>srow_new := a, srow_updated := b, srow_deleted := c\<rparr>\<rparr>)) t"

definition count_changes :: "scan_row \<Rightarrow> store_db \<Rightarrow> store_db" where
  "count_changes row db = (let previous = previous_scan (scan_rows db) row; t = observation_rows db; i = srow_id row in
     db\<lparr>sd_scans := set_counts i (new_count t previous i) (updated_count t previous i) (deleted_count t previous i) (sd_scans db)\<rparr>)"

definition put_scan :: "store_env \<Rightarrow> ScanOutcomeMetadata \<Rightarrow> store_db \<Rightarrow> store_db" where
  "put_scan env m db = (let i = srow_id (outcome_row env m) in
     db\<lparr>sd_scans := AList.update i (upsert_scan env m (map_of (sd_scans db) i)) (sd_scans db)\<rparr>)"

definition storeScanOutcomeMetadata :: "store_env \<Rightarrow> ScanOutcomeMetadata \<Rightarrow> store_db \<Rightarrow> string + store_db" where
  "storeScanOutcomeMetadata env m db = (let row = outcome_row env m in
     case exec env (PutScan (srow_id row)) (put_scan env m) db of
       Inl err \<Rightarrow> Inl err
     | Inr db \<Rightarrow> if \<not> som_SnapshotComplete m then Inr db else exec env (CountChanges (srow_id row)) (count_changes row) db)"

subsection \<open>The transaction\<close>

text \<open>A transaction that fails to begin, or is not committed, leaves the database as it was.\<close>

definition transaction :: "store_env \<Rightarrow> (store_db \<Rightarrow> store_error + store_db) \<Rightarrow> store_db \<Rightarrow> store_error option \<times> store_db" where
  "transaction env body db = (case se_begin env of
     Some err \<Rightarrow> (Some (BeginFailed err), db)
   | None \<Rightarrow> (case body db of
       Inl err \<Rightarrow> (Some err, db)
     | Inr db' \<Rightarrow> (case se_commit env of Some err \<Rightarrow> (Some (CommitFailed err), db) | None \<Rightarrow> (None, db'))))"

definition StoreScanResources :: "store_env \<Rightarrow> pb_Resource option list \<Rightarrow> string \<Rightarrow> store_db \<Rightarrow> store_error option \<times> store_db" where
  "StoreScanResources env rs override = transaction env (storeScanResources env override [] rs)"

definition store_outcome_body :: "store_env \<Rightarrow> pb_Resource option list \<Rightarrow> string \<Rightarrow> ScanOutcomeMetadata \<Rightarrow> store_db \<Rightarrow> store_error + store_db" where
  "store_outcome_body env rs override m db = (case storeScanResources env override [] rs db of
     Inl err \<Rightarrow> Inl err
   | Inr db \<Rightarrow> (case storeScanObservations env rs m db of
       Inl err \<Rightarrow> Inl err
     | Inr db \<Rightarrow> (case storeScanOutcomeMetadata env m db of Inl err \<Rightarrow> Inl (StoreMetadata err) | Inr db \<Rightarrow> Inr db)))"

definition StoreScanOutcome :: "store_env \<Rightarrow> pb_Resource option list \<Rightarrow> string \<Rightarrow> ScanOutcomeMetadata \<Rightarrow> store_db \<Rightarrow> store_error option \<times> store_db" where
  "StoreScanOutcome env rs override m = transaction env (store_outcome_body env rs override m)"

text \<open>One statement, outside a transaction.\<close>

definition StoreScanMetadata :: "store_env \<Rightarrow> string \<Rightarrow> string \<Rightarrow> string \<Rightarrow> pb_ScanStats option \<Rightarrow> strmap \<Rightarrow> store_db \<Rightarrow> string option \<times> store_db" where
  "StoreScanMetadata env provider service region stats metadata db =
     (let provider = (if provider = [] then COALESCE (metadata ''provider'') [] else provider);
          provider = (if provider = [] then ''aws'' else provider);
          m = \<lparr>som_ID = se_uuid env, som_Provider = provider, som_Services = [service], som_Regions = [region],
            som_TotalResources = (case stats of None \<Rightarrow> 0 | Some s \<Rightarrow> sint (stats_TotalResources s)),
            som_FailedResources = (case stats of None \<Rightarrow> 0 | Some s \<Rightarrow> sint (stats_FailedResources s)),
            som_StartedAt = None, som_EndedAt = None, som_DurationMS = (case stats of None \<Rightarrow> 0 | Some s \<Rightarrow> sint (stats_DurationMs s)),
            som_Metadata = se_encode_map env metadata, som_Status = ''completed'', som_ScopeKey = [], som_SnapshotComplete = False\<rparr> in
      case storeScanOutcomeMetadata env m db of Inl err \<Rightarrow> (Some err, db) | Inr db \<Rightarrow> (None, db))"

subsection \<open>The outcome of a scan\<close>

datatype ScanStatus = ScanStatusCompleted | ScanStatusPartial | ScanStatusFailed

fun ScanStatus_text :: "ScanStatus \<Rightarrow> string" where
  "ScanStatus_text ScanStatusCompleted = ''completed''"
| "ScanStatus_text ScanStatusPartial = ''partial''"
| "ScanStatus_text ScanStatusFailed = ''failed''"

record ScanOutcome =
  so_ID :: string
  so_Provider :: string
  so_Services :: "string list"
  so_Scopes :: "string list"
  so_FailedScopes :: "string list"
  so_Status :: ScanStatus
  so_StartedAt :: "timestamp option"
  so_EndedAt :: "timestamp option"
  so_Resources :: "pb_Resource option list"

definition normalize_scope :: "string list \<Rightarrow> string list" where
  "normalize_scope vs = sort (filter (\<lambda>v. v \<noteq> []) (map strings_TrimSpace vs))"

definition ScanScopeKey :: "store_env \<Rightarrow> string \<Rightarrow> string list \<Rightarrow> string list \<Rightarrow> string" where
  "ScanScopeKey env provider services scopes = sha256_hex (se_encode_scope env (strings_ToLower (strings_TrimSpace provider))
     (normalize_scope services) (normalize_scope scopes))"

definition outcome_metadata :: "store_env \<Rightarrow> ScanOutcome \<Rightarrow> ScanOutcomeMetadata" where
  "outcome_metadata env out = \<lparr>som_ID = so_ID out, som_Provider = so_Provider out, som_Services = so_Services out,
     som_Regions = so_Scopes out, som_TotalResources = int (length (so_Resources out)),
     som_FailedResources = int (length (so_FailedScopes out)), som_StartedAt = so_StartedAt out, som_EndedAt = so_EndedAt out,
     som_DurationMS = 0, som_Metadata = se_encode_failed env (so_FailedScopes out), som_Status = ScanStatus_text (so_Status out),
     som_ScopeKey = ScanScopeKey env (so_Provider out) (so_Services out) (so_Scopes out),
     som_SnapshotComplete = (so_Status out = ScanStatusCompleted)\<rparr>"

definition PersistScanOutcome :: "store_env \<Rightarrow> ScanOutcome \<Rightarrow> string \<Rightarrow> store_db \<Rightarrow> store_error option \<times> store_db" where
  "PersistScanOutcome env out override = StoreScanOutcome env (so_Resources out) override (outcome_metadata env out)"

subsection \<open>What a transaction keeps\<close>

lemma exec_Inr [simp]: "exec env stmt f db = Inr db' \<longleftrightarrow> se_fault env stmt = None \<and> db' = f db"
  by (auto simp: exec_def split: option.split)

text \<open>The tables of the history: what storing resources leaves alone.\<close>

definition same_history :: "store_db \<Rightarrow> store_db \<Rightarrow> bool" where
  "same_history db db' \<longleftrightarrow> sd_observations db' = sd_observations db \<and> sd_scans db' = sd_scans db \<and>
     sd_rel_observations db' = sd_rel_observations db"

lemma store_resource_history: "store_resource env t r db = Inr db' \<Longrightarrow> same_history db db'"
  by (auto simp: store_resource_def storeAzureScanResource_def storeGCPScanResource_def storeCustomScanResource_def
      storeGenericScanResource_def put_resource_def same_history_def split: adapter.splits if_splits sum.splits)

lemma storeScanRelationships_history: "storeScanRelationships env r seen rels db = Inr db' \<Longrightarrow> same_history db db'"
proof (induction env r seen rels db rule: storeScanRelationships.induct)
  case (3 env r seen rel rels db)
  then show ?case by (fastforce simp: Let_def same_history_def split: if_splits sum.splits)
qed (auto simp: same_history_def)

lemma storeScanResources_history: "storeScanResources env override seen rs db = Inr db' \<Longrightarrow> same_history db db'"
proof (induction env override seen rs db rule: storeScanResources.induct)
  case (3 env override seen r rs db)
  obtain t where t: "scanResourceTable r override = Inr t" using 3(3) by (cases "scanResourceTable r override") auto
  show ?case
  proof (cases "t @ ''|'' @ res_Provider r @ ''|'' @ res_Id r \<in> set seen")
    case True
    with 3(1)[OF t refl] 3(3) t show ?thesis by simp
  next
    case False
    obtain db1 where 1: "store_resource env t r db = Inr db1" using 3(3) t False by (auto split: sum.splits)
    obtain db2 where 2: "storeScanRelationships env r [] (res_Relationships r) db1 = Inr db2"
      using 3(3) t False 1 by (auto split: sum.splits)
    have "same_history db2 db'" using 3(2)[OF t refl False 1 2] 3(3) t False 1 2 by simp
    with store_resource_history[OF 1] storeScanRelationships_history[OF 2] show ?thesis by (simp add: same_history_def)
  qed
qed (auto simp: same_history_def)

text \<open>A GCP resource stored again keeps the creation time of its first scan, whatever the provider reports now.\<close>

lemma gcp_keeps_creation:
  assumes "map_of (sd_resources db) (''gcp_resources'', [], res_Id r) = Some (GcpColumns g)" "storeGCPScanResource env r db = Inr db'"
  shows "\<exists>g'. map_of (sd_resources db') (''gcp_resources'', [], res_Id r) = Some (GcpColumns g') \<and>
    gr_created g' = gr_created g \<and> gr_modified g' = res_ModifiedAt r"
  using assms by (simp add: storeGCPScanResource_def put_resource_def update_conv' gcp_columns_def Let_def)

subsection \<open>What a scan observed\<close>

text \<open>The resources an outcome names, in order, without those that have no id.\<close>

definition named_resources :: "pb_Resource option list \<Rightarrow> pb_Resource list" where
  "named_resources rs = filter (\<lambda>r. strings_TrimSpace (res_Id r) \<noteq> []) (List.map_filter id rs)"

definition observe_writes :: "store_env \<Rightarrow> ScanOutcomeMetadata \<Rightarrow> pb_Resource list \<Rightarrow> ((string \<times> string \<times> string) \<times> Observation) list" where
  "observe_writes env m rs = map (\<lambda>r. (observation_key (observation_columns env m r), observation_columns env m r)) rs"

abbreviation put_observations :: "((string \<times> string \<times> string) \<times> Observation) list \<Rightarrow> (string \<times> string \<times> string, Observation) table \<Rightarrow>
    (string \<times> string \<times> string, Observation) table" where
  "put_observations \<equiv> put_all (\<lambda>_ x. x)"

lemma observe_relationships_history:
  "observe_relationships env m r seen rels db = Inr (seen', db') \<Longrightarrow>
     sd_observations db' = sd_observations db \<and> sd_scans db' = sd_scans db"
proof (induction env m r seen rels db rule: observe_relationships.induct)
  case (3 env m r seen rel rels db)
  then show ?case by (fastforce simp: Let_def split: if_splits sum.splits)
qed auto

lemma observe_resources_history:
  "observe_resources env m seen seen_rels rs db = Inr db' \<Longrightarrow> sd_scans db' = sd_scans db \<and>
     sd_observations db' = put_observations (observe_writes env m (dedupe_by (observed_key m) seen (named_resources rs))) (sd_observations db)"
proof (induction rs arbitrary: seen seen_rels db)
  case (Cons o' rs)
  show ?case
  proof (cases o')
    case None
    with Cons show ?thesis by (simp add: named_resources_def map_filter_simps)
  next
    case (Some r)
    show ?thesis
    proof (cases "strings_TrimSpace (res_Id r) = []")
      case True
      with Some Cons show ?thesis by (simp add: named_resources_def map_filter_simps)
    next
      case False
      obtain seen1 db1 where 1: "observe_resource env m r seen db = Inr (seen1, db1)"
        using Cons.prems Some False by (auto split: sum.splits)
      obtain seen2 db2 where 2: "observe_relationships env m r seen_rels (res_Relationships r) db1 = Inr (seen2, db2)"
        using Cons.prems Some False 1 by (auto split: sum.splits)
      have ih: "sd_scans db' = sd_scans db2 \<and> sd_observations db' =
          put_observations (observe_writes env m (dedupe_by (observed_key m) seen1 (named_resources rs))) (sd_observations db2)"
        using Cons.IH[of seen1 seen2 db2] Cons.prems Some False 1 2 by simp
      have n: "named_resources (o' # rs) = r # named_resources rs" using Some False by (simp add: named_resources_def map_filter_simps)
      from ih observe_relationships_history[OF 2] 1 show ?thesis
        unfolding n by (auto simp: observe_resource_def observe_writes_def put_def split: if_splits sum.splits)
    qed
  qed
qed (simp add: named_resources_def observe_writes_def map_filter_simps)

lemma transaction_None:
  "transaction env body db = (None, db') \<Longrightarrow> body db = Inr db'"
  by (auto simp: transaction_def split: option.splits sum.splits)

lemma transaction_Some: "transaction env body db = (Some err, db') \<Longrightarrow> db' = db"
  by (auto simp: transaction_def split: option.splits sum.splits)

lemma StoreScanOutcome_None:
  assumes "StoreScanOutcome env rs override m db = (None, db')"
  obtains dbo where "sd_scans dbo = sd_scans db" "strings_TrimSpace (som_ID m) \<noteq> []"
    "sd_observations dbo = put_observations (observe_writes env m (dedupe_by (observed_key m) [] (named_resources rs))) (sd_observations db)"
    "storeScanOutcomeMetadata env m dbo = Inr db'"
proof -
  have b: "store_outcome_body env rs override m db = Inr db'"
    using assms by (simp add: StoreScanOutcome_def transaction_None)
  then obtain db1 where 1: "storeScanResources env override [] rs db = Inr db1"
    by (auto simp: store_outcome_body_def split: sum.splits)
  obtain db2 where 2: "storeScanObservations env rs m db1 = Inr db2" using b 1 by (auto simp: store_outcome_body_def split: sum.splits)
  have 3: "storeScanOutcomeMetadata env m db2 = Inr db'" using b 1 2 by (auto simp: store_outcome_body_def split: sum.splits)
  have "strings_TrimSpace (som_ID m) \<noteq> []" "observe_resources env m [] [] rs db1 = Inr db2"
    using 2 by (auto simp: storeScanObservations_def split: if_splits sum.splits)
  with observe_resources_history[of env m "[]" "[]" rs db1 db2] storeScanResources_history[OF 1] 3 show ?thesis
    by (intro that[of db2]) (simp_all add: same_history_def)
qed

subsection \<open>The tables as their keys keep them\<close>

definition store_ok :: "store_db \<Rightarrow> bool" where
  "store_ok db \<longleftrightarrow> table_ok (sd_scans db) \<and> table_ok (sd_observations db) \<and>
     list_all (\<lambda>(k, x). k = srow_id (mr_row x)) (sd_scans db) \<and>
     list_all (\<lambda>(k, x). k = observation_key x \<and> CHR 0x00 \<notin> set (obs_Provider x)) (sd_observations db)"

lemma observation_row:
  assumes "store_ok db"
  shows "x \<in> set (observation_rows db) \<longleftrightarrow> map_of (sd_observations db) (observation_key x) = Some x"
proof -
  have k: "k = observation_key y" if "(k, y) \<in> set (sd_observations db)" for k y
    using assms that by (auto simp: store_ok_def list_all_iff)
  have "x \<in> set (observation_rows db) \<longleftrightarrow> (\<exists>k. (k, x) \<in> set (sd_observations db))" unfolding observation_rows_def set_map by force
  also have "\<dots> \<longleftrightarrow> (observation_key x, x) \<in> set (sd_observations db)" using k[of _ x] by metis
  finally have "x \<in> set (observation_rows db) \<longleftrightarrow> (observation_key x, x) \<in> set (sd_observations db)" .
  with assms show ?thesis by (simp add: store_ok_def table_ok_def map_of_eq_Some_iff)
qed

lemma observation_rows_distinct: "store_ok db \<Longrightarrow> distinct (map observation_key (observation_rows db))"
proof -
  assume ok: "store_ok db"
  then have "map observation_key (observation_rows db) = map fst (sd_observations db)"
    unfolding observation_rows_def by (auto simp: store_ok_def list_all_iff)
  with ok show ?thesis by (simp add: store_ok_def table_ok_def)
qed

lemma Observations_set [simp]: "set (Observations t i) = {x \<in> set t. obs_ScanID x = i}"
  by (auto simp: Observations_def)

lemma Observations_ok:
  assumes "store_ok db"
  shows "scan_observations (Observations (observation_rows db) i)"
proof -
  have "distinct (observation_rows db)" and inj: "inj_on observation_key (set (observation_rows db))"
    using observation_rows_distinct[OF assms] by (simp_all add: distinct_map)
  then have "distinct (Observations (observation_rows db) i)" by (simp add: Observations_def)
  moreover have "inj_on observed_identity (set (Observations (observation_rows db) i))"
    by (rule inj_onI) (use inj in \<open>auto simp: inj_on_def observation_key_def observed_identity_def\<close>)
  moreover have "list_all (\<lambda>x. CHR 0x00 \<notin> set (obs_Provider x)) (Observations (observation_rows db) i)"
    using assms by (auto simp: list_all_iff store_ok_def observation_rows_def)
  ultimately show ?thesis by (simp add: scan_observations_def distinct_map)
qed

lemma observation_of_Some: "scan_observations xs \<Longrightarrow> observation_of xs k = Some x \<longleftrightarrow> x \<in> set xs \<and> observed_identity x = k"
  unfolding observation_of_def scan_observations_def using find_distinct[of observed_identity xs x]
  by (auto simp: find_Some_iff)

lemma observation_lookup:
  assumes "store_ok db"
  shows "observation_of (Observations (observation_rows db) i) k = map_of (sd_observations db) (i, k)"
proof -
  have iff: "observation_of (Observations (observation_rows db) i) k = Some x \<longleftrightarrow> map_of (sd_observations db) (i, k) = Some x" for x
  proof -
    have "observation_of (Observations (observation_rows db) i) k = Some x \<longleftrightarrow> x \<in> set (observation_rows db) \<and> observation_key x = (i, k)"
      by (auto simp: observation_of_Some[OF Observations_ok[OF assms]] observation_key_def observed_identity_def)
    moreover have "observation_key x = (i, k)" if "map_of (sd_observations db) (i, k) = Some x"
      using assms map_of_SomeD[OF that] by (auto simp: store_ok_def list_all_iff)
    ultimately show ?thesis using observation_row[OF assms, of x] by auto
  qed
  show ?thesis
  proof (cases "observation_of (Observations (observation_rows db) i) k")
    case None
    with iff[of "the (map_of (sd_observations db) (i, k))"] show ?thesis by (cases "map_of (sd_observations db) (i, k)") simp_all
  next
    case (Some x)
    with iff[of x] show ?thesis by simp
  qed
qed

text \<open>Two databases with the same observations of a scan under their keys list the same observations.\<close>

lemma Observations_determined:
  assumes "store_ok db" "store_ok db'" "\<And>k. map_of (sd_observations db) (i, k) = map_of (sd_observations db') (i, k)"
  shows "Observations (observation_rows db) i = Observations (observation_rows db') i"
proof -
  let ?xs = "Observations (observation_rows db) i" and ?ys = "Observations (observation_rows db') i"
  have "x \<in> set ?xs \<longleftrightarrow> x \<in> set ?ys" for x
    using observation_of_Some[OF Observations_ok[OF assms(1)], of i "observed_identity x" x]
      observation_of_Some[OF Observations_ok[OF assms(2)], of i "observed_identity x" x]
    unfolding observation_lookup[OF assms(1)] observation_lookup[OF assms(2)] assms(3) by simp
  then have set: "set ?xs = set ?ys" by blast
  have d: "distinct (map observed_identity ?xs)" "distinct (map observed_identity ?ys)"
    using Observations_ok[OF assms(1)] Observations_ok[OF assms(2)] by (simp_all add: scan_observations_def)
  have "mset ?xs = mset ?ys" using set d by (simp add: distinct_map set_eq_iff_mset_eq_distinct[symmetric])
  have eq: "sort_key observed_identity ?xs = ys" if "mset ys = mset ?xs" "sorted (map observed_identity ys)" for ys
    by (rule sort_key_inj_key_eq) (use d that in \<open>simp_all add: distinct_map\<close>)
  have "observed_identity = (\<lambda>x. (obs_Provider x, obs_ResourceID x))" by (simp add: fun_eq_iff observed_identity_def)
  then have sorted: "sorted (map observed_identity (Observations t i))" for t
    unfolding Observations_def by (simp only: sorted_sort_key)
  have "sort_key observed_identity ?xs = ?xs" by (rule eq) (simp_all only: sorted)
  moreover have "sort_key observed_identity ?xs = ?ys" by (rule eq) (simp_all only: sorted \<open>mset ?xs = mset ?ys\<close>)
  ultimately show ?thesis by simp
qed

subsection \<open>Storing the observations\<close>

text \<open>What the code relies on when it joins a provider and an id with a bar, and the drift with a NUL.\<close>

definition plain_name :: "string \<Rightarrow> bool" where
  "plain_name p \<longleftrightarrow> CHR ''|'' \<notin> set p \<and> CHR 0x00 \<notin> set p"

definition plain_providers :: "ScanOutcomeMetadata \<Rightarrow> pb_Resource list \<Rightarrow> bool" where
  "plain_providers m rs \<longleftrightarrow> list_all (\<lambda>r. plain_name (observation_provider m r)) rs"

definition observed_as :: "ScanOutcomeMetadata \<Rightarrow> pb_Resource \<Rightarrow> string \<times> string" where
  "observed_as m r = (observation_provider m r, res_Id r)"

lemma observed_key_iff:
  "plain_name (observation_provider m r) \<Longrightarrow> plain_name (observation_provider m r') \<Longrightarrow>
     observed_key m r = observed_key m r' \<longleftrightarrow> observed_as m r = observed_as m r'"
  by (simp add: observed_key_def observed_as_def plain_name_def sep_join)

lemma observation_columns_simps [simp]:
  "obs_ScanID (observation_columns env m r) = som_ID m" "obs_Provider (observation_columns env m r) = observation_provider m r"
  "observation_key (observation_columns env m r) = (som_ID m, observed_as m r)"
  "observed_identity (observation_columns env m r) = observed_as m r"
  by (simp_all add: observation_columns_def observation_key_def observed_as_def observed_identity_def)

lemma find_key_cong: "(\<And>x. x \<in> set xs \<Longrightarrow> P x = Q x) \<Longrightarrow> find P xs = find Q xs"
  by (induction xs) auto

lemma observed_writes_find:
  assumes "plain_providers m rs"
  shows "map_of (put_observations (observe_writes env m (dedupe_by (observed_key m) [] rs)) t) (som_ID m, k) =
    (case find (\<lambda>r. observed_as m r = k) rs of Some r \<Rightarrow> Some (observation_columns env m r) | None \<Rightarrow> map_of t (som_ID m, k))"
proof -
  let ?ds = "dedupe_by (observed_key m) [] rs"
  have plain: "plain_name (observation_provider m r)" if "r \<in> set rs" for r
    using assms that by (auto simp: plain_providers_def list_all_iff)
  have iff: "observed_key m r = observed_key m r' \<longleftrightarrow> observed_as m r = observed_as m r'" if "r \<in> set rs" "r' \<in> set rs" for r r'
    using observed_key_iff plain that by blast
  have sub: "set ?ds \<subseteq> set rs" by (rule dedupe_by_subset)
  have "distinct (map (observed_as m) ?ds)"
    using dedupe_by_distinct[of "observed_key m" "[]" rs] iff sub unfolding distinct_map inj_on_def by blast
  then have dist: "distinct (map fst (observe_writes env m ?ds))" by (simp add: observe_writes_def comp_def distinct_map inj_on_def)
  show ?thesis
  proof (cases "find (\<lambda>r. observed_as m r = k) rs")
    case None
    then have "(som_ID m, k) \<notin> fst ` set (observe_writes env m ?ds)"
      using sub by (auto simp: observe_writes_def find_None_iff)
    with None show ?thesis by (simp add: map_of_put_all_notin)
  next
    case (Some r)
    then have r: "r \<in> set rs" "observed_as m r = k" by (auto simp: find_Some_iff)
    have "find (\<lambda>y. observed_key m y = observed_key m r) ?ds = find (\<lambda>y. observed_key m y = observed_key m r) rs"
      by (rule dedupe_by_first) simp
    also have "\<dots> = find (\<lambda>y. observed_as m y = k) rs" by (rule find_key_cong) (use iff r in auto)
    finally have "find (\<lambda>y. observed_key m y = observed_key m r) ?ds = Some r" using Some by simp
    then have "r \<in> set ?ds" by (metis find_Some_iff nth_mem)
    then have "((som_ID m, k), observation_columns env m r) \<in> set (observe_writes env m ?ds)"
      using r(2) by (force simp: observe_writes_def)
    from map_of_put_all_distinct[OF dist this, of "\<lambda>_ x. x"] Some show ?thesis by simp
  qed
qed

lemma observed_writes_other:
  "i \<noteq> som_ID m \<Longrightarrow> map_of (put_observations (observe_writes env m ds) t) (i, k) = map_of t (i, k)"
  by (rule map_of_put_all_notin) (auto simp: observe_writes_def)

lemma put_observations_rows:
  assumes "(k, x) \<in> set (put_observations kps t)"
  shows "(k, x) \<in> set kps \<or> (k, x) \<in> set t"
  using assms
proof (induction kps arbitrary: t)
  case (Cons kp kps)
  have "set (put (\<lambda>_ x. x) kp t) \<subseteq> insert kp (set t)" using set_update_subset[of "fst kp" "snd kp" t] by (simp add: put_def)
  with Cons show ?case by auto
qed simp

subsection \<open>Counting the changes\<close>

definition change_count :: "ChangeType \<Rightarrow> Change list \<Rightarrow> int" where
  "change_count c cs = int (length (filter (\<lambda>x. ch_Type x = c) cs))"

lemma length_map_filter: "length (filter P (List.map_filter f xs)) = length (filter (\<lambda>x. case f x of None \<Rightarrow> False | Some y \<Rightarrow> P y) xs)"
  by (induction xs) (auto simp: map_filter_simps split: option.split)

lemma change_types [simp]:
  "ch_Type (removed_change x) = Removed" "ch_Type (modified_change x y) = Modified" "ch_Type (added_change x) = Added"
  by (simp_all add: removed_change_def modified_change_def added_change_def)

lemma raw_counts:
  "length (filter (\<lambda>c. ch_Type c = Added) (raw_changes before after)) =
     length (filter (\<lambda>x. observation_of before (observed_identity x) = None) after)"
  "length (filter (\<lambda>c. ch_Type c = Removed) (raw_changes before after)) =
     length (filter (\<lambda>x. observation_of after (observed_identity x) = None) before)"
  "length (filter (\<lambda>c. ch_Type c = Modified) (raw_changes before after)) =
     length (filter (\<lambda>x. case observation_of after (observed_identity x) of None \<Rightarrow> False | Some y \<Rightarrow> obs_SemanticHash x \<noteq> obs_SemanticHash y) before)"
proof -
  have a: "(case if observation_of before (observed_identity x) = None then Some (added_change x) else None of None \<Rightarrow> False | Some y \<Rightarrow> ch_Type y = c)
      \<longleftrightarrow> c = Added \<and> observation_of before (observed_identity x) = None" for x c by auto
  have b: "(case change_of (Some x) (observation_of after (observed_identity x)) of None \<Rightarrow> False | Some y \<Rightarrow> ch_Type y = c) \<longleftrightarrow>
      (c = Removed \<and> observation_of after (observed_identity x) = None) \<or> (c = Modified \<and>
       (case observation_of after (observed_identity x) of None \<Rightarrow> False | Some y \<Rightarrow> obs_SemanticHash x \<noteq> obs_SemanticHash y))" for x c
    by (auto simp: change_of_def split: option.splits)
  show "length (filter (\<lambda>c. ch_Type c = Added) (raw_changes before after)) =
     length (filter (\<lambda>x. observation_of before (observed_identity x) = None) after)"
    unfolding raw_changes_def filter_append length_append length_map_filter a b by simp
  show "length (filter (\<lambda>c. ch_Type c = Removed) (raw_changes before after)) =
     length (filter (\<lambda>x. observation_of after (observed_identity x) = None) before)"
    unfolding raw_changes_def filter_append length_append length_map_filter a b by simp
  show "length (filter (\<lambda>c. ch_Type c = Modified) (raw_changes before after)) =
     length (filter (\<lambda>x. case observation_of after (observed_identity x) of None \<Rightarrow> False | Some y \<Rightarrow> obs_SemanticHash x \<noteq> obs_SemanticHash y) before)"
    unfolding raw_changes_def filter_append length_append length_map_filter a b by simp
qed

lemma change_count_compare:
  assumes "scan_observations before" "scan_observations after" "slice_sorting sort_Slice"
    and "\<And>t. mset (order_left t) = mset t" "\<And>t. mset (order_right t) = mset t"
  shows "change_count c (compare order_left order_right sort_Slice before after) =
    int (length (filter (\<lambda>x. ch_Type x = c) (raw_changes before after)))"
proof -
  obtain xs where xs: "compare order_left order_right sort_Slice before after = sort_Slice change_less xs"
      "mset xs = mset (raw_changes before after)"
    using compare_raw[OF assms(1,2,4,5)] by blast
  have "mset (sort_Slice change_less xs) = mset (raw_changes before after)" by (simp add: slice_sorting.sort_mset[OF assms(3)] xs(2))
  then have "length (filter P (sort_Slice change_less xs)) = length (filter P (raw_changes before after))" for P
    by (metis mset_filter size_mset)
  then show ?thesis by (simp add: change_count_def xs(1))
qed

definition observations_at :: "Observation list \<Rightarrow> string option \<Rightarrow> Observation list" where
  "observations_at t previous = (case previous of None \<Rightarrow> [] | Some p \<Rightarrow> Observations t p)"

lemma observations_at_ok: "store_ok db \<Longrightarrow> scan_observations (observations_at (observation_rows db) previous)"
  by (simp add: observations_at_def Observations_ok scan_observations_def[of "[]"] split: option.split)

lemma length_Observations: "length (filter P (Observations t i)) = length (filter (\<lambda>x. obs_ScanID x = i \<and> P x) t)"
proof -
  have "mset (filter P (Observations t i)) = mset (filter (\<lambda>x. obs_ScanID x = i \<and> P x) t)"
    by (simp add: Observations_def filter_filter_mset conj_commute)
  then show ?thesis by (metis size_mset)
qed

lemma length_observations_at: "length (filter P (observations_at t previous)) = length (filter (\<lambda>x. Some (obs_ScanID x) = previous \<and> P x) t)"
  by (simp add: observations_at_def length_Observations split: option.split)

lemma distinct_single: "distinct xs \<Longrightarrow> set xs = {x} \<Longrightarrow> xs = [x]"
  by (cases xs; cases "tl xs") auto

lemma prior_rows_eq:
  assumes "store_ok db"
  shows "prior_rows (observation_rows db) previous c =
    (case observation_of (observations_at (observation_rows db) previous) (observed_identity c) of None \<Rightarrow> [] | Some x \<Rightarrow> [x])"
proof -
  let ?t = "observation_rows db"
  let ?xs = "observations_at ?t previous"
  have set: "set (prior_rows ?t previous c) = {x \<in> set ?xs. observed_identity x = observed_identity c}"
    by (auto simp: prior_rows_def observations_at_def same_resource_def observed_identity_def split: option.splits)
  have dist: "distinct (prior_rows ?t previous c)"
    using observation_rows_distinct[OF assms] by (simp add: prior_rows_def distinct_map)
  note iff = observation_of_Some[OF observations_at_ok[OF assms], of previous "observed_identity c"]
  show ?thesis
  proof (cases "observation_of ?xs (observed_identity c)")
    case None
    then have "set (prior_rows ?t previous c) = {}" unfolding set using iff by auto
    with None show ?thesis by simp
  next
    case (Some x)
    have "y = x" if "y \<in> set ?xs" "observed_identity y = observed_identity c" for y using iff[of y] that Some by simp
    with iff[of x] Some have "set (prior_rows ?t previous c) = {x}" unfolding set by auto
    with dist have "prior_rows ?t previous c = [x]" by (rule distinct_single)
    with Some show ?thesis by simp
  qed
qed

lemma length_concat_options:
  "length (concat (map (\<lambda>c. filter (P c) (case f c of None \<Rightarrow> [] | Some x \<Rightarrow> [x])) cs)) =
     length (filter (\<lambda>c. case f c of None \<Rightarrow> False | Some x \<Rightarrow> P c x) cs)"
  by (induction cs) (auto split: option.split)

lemma length_matches:
  assumes "scan_observations xs"
  shows "length (filter P xs) = card {k. \<exists>x. observation_of xs k = Some x \<and> P x}"
proof -
  have "distinct (map observed_identity (filter P xs))" using assms by (simp add: scan_observations_def distinct_map inj_on_def)
  then have "length (filter P xs) = card (observed_identity ` set (filter P xs))" by (metis distinct_card length_map set_map)
  also have "observed_identity ` set (filter P xs) = {k. \<exists>x. observation_of xs k = Some x \<and> P x}"
    using observation_of_Some[OF assms] by (auto simp: image_iff) metis
  finally show ?thesis .
qed

lemma matches_swap:
  assumes "scan_observations before" "scan_observations after"
  shows "length (filter (\<lambda>c. case observation_of before (observed_identity c) of None \<Rightarrow> False | Some x \<Rightarrow> R c x) after) =
    length (filter (\<lambda>x. case observation_of after (observed_identity x) of None \<Rightarrow> False | Some c \<Rightarrow> R c x) before)"
proof -
  have id: "observed_identity x = k" if "observation_of xs k = Some x" "scan_observations xs" for xs x k
    using observation_of_Some[OF that(2)] that(1) by blast
  have "(\<exists>c. observation_of after k = Some c \<and> (case observation_of before (observed_identity c) of None \<Rightarrow> False | Some x \<Rightarrow> R c x)) \<longleftrightarrow>
      (\<exists>x. observation_of before k = Some x \<and> (case observation_of after (observed_identity x) of None \<Rightarrow> False | Some c \<Rightarrow> R c x))" for k
    using id[OF _ assms(1), of k] id[OF _ assms(2), of k] by (cases "observation_of before k"; cases "observation_of after k") simp_all
  then show ?thesis by (simp only: length_matches[OF assms(1)] length_matches[OF assms(2)])
qed

text \<open>The statement counts what the drift of the two scans lists.\<close>

lemma counts_are_changes:
  assumes "store_ok db" "t = observation_rows db"
  shows "new_count t previous i = int (length (filter (\<lambda>c. ch_Type c = Added) (raw_changes (observations_at t previous) (Observations t i))))"
    and "updated_count t previous i = int (length (filter (\<lambda>c. ch_Type c = Modified) (raw_changes (observations_at t previous) (Observations t i))))"
    and "deleted_count t previous i = int (length (filter (\<lambda>c. ch_Type c = Removed) (raw_changes (observations_at t previous) (Observations t i))))"
proof -
  have ok: "scan_observations (observations_at t previous)" "scan_observations (Observations t i)"
    using observations_at_ok Observations_ok assms by blast+
  have some: "observations_at t (Some i) = Observations t i" by (simp add: observations_at_def)
  have empty: "(case o' of None \<Rightarrow> [] | Some x \<Rightarrow> [x]) = [] \<longleftrightarrow> o' = None" for o' :: "Observation option" by (cases o') auto
  note prior = prior_rows_eq[OF assms(1), folded assms(2)]
  show "new_count t previous i = int (length (filter (\<lambda>c. ch_Type c = Added) (raw_changes (observations_at t previous) (Observations t i))))"
    unfolding new_count_def raw_counts prior empty length_Observations ..
  show "deleted_count t previous i = int (length (filter (\<lambda>c. ch_Type c = Removed) (raw_changes (observations_at t previous) (Observations t i))))"
    unfolding deleted_count_def raw_counts prior empty length_observations_at some ..
  have "updated_count t previous i = int (length (filter (\<lambda>c. case observation_of (observations_at t previous) (observed_identity c) of
      None \<Rightarrow> False | Some x \<Rightarrow> obs_SemanticHash c \<noteq> obs_SemanticHash x) (filter (\<lambda>c. obs_ScanID c = i) t)))"
    unfolding updated_count_def prior length_concat_options ..
  also have "\<dots> = int (length (filter (\<lambda>c. case observation_of (observations_at t previous) (observed_identity c) of
      None \<Rightarrow> False | Some x \<Rightarrow> obs_SemanticHash c \<noteq> obs_SemanticHash x) (Observations t i)))"
    by (simp add: length_Observations conj_commute)
  also have "\<dots> = int (length (filter (\<lambda>c. ch_Type c = Modified) (raw_changes (observations_at t previous) (Observations t i))))"
    unfolding raw_counts matches_swap[OF ok] by (rule arg_cong[where f = int], rule arg_cong[where f = length], rule filter_cong)
      (auto split: option.split)
  finally show "updated_count t previous i = int (length (filter (\<lambda>c. ch_Type c = Modified) (raw_changes (observations_at t previous) (Observations t i))))" .
qed

subsection \<open>A stored scan\<close>

lemma outcome_row_id: "strings_TrimSpace (som_ID m) \<noteq> [] \<Longrightarrow> srow_id (outcome_row env m) = som_ID m"
  by (auto simp: outcome_row_def Let_def)

lemma storeScanOutcomeMetadata_Inr:
  "storeScanOutcomeMetadata env m db = Inr db' \<Longrightarrow>
     db' = (if som_SnapshotComplete m then count_changes (outcome_row env m) (put_scan env m db) else put_scan env m db)"
  by (auto simp: storeScanOutcomeMetadata_def Let_def split: sum.splits if_splits)

lemma metadata_observations [simp]:
  "sd_observations (put_scan env m db) = sd_observations db" "sd_observations (count_changes row db) = sd_observations db"
  by (simp_all add: put_scan_def count_changes_def Let_def)

lemma upsert_scan_row:
  "srow_id (mr_row (upsert_scan env m old)) = srow_id (outcome_row env m)"
  "srow_provider (mr_row (upsert_scan env m old)) = srow_provider (outcome_row env m)"
  "srow_scope_key (mr_row (upsert_scan env m old)) = Some (som_ScopeKey m)"
  "srow_start (mr_row (upsert_scan env m old)) = srow_start (outcome_row env m)"
  "srow_status (mr_row (upsert_scan env m old)) = srow_status (outcome_row env m)"
  "srow_snapshot_complete (mr_row (upsert_scan env m old)) = Some (som_SnapshotComplete m)"
  "srow_total (mr_row (upsert_scan env m old)) = som_TotalResources m"
  "mr_failed (upsert_scan env m old) = som_FailedResources m"
  by (simp_all add: upsert_scan_def outcome_row_def Let_def split: option.split)

lemma put_scan_ok: "store_ok db \<Longrightarrow> store_ok (put_scan env m db)"
  using set_update_subset by (fastforce simp: store_ok_def put_scan_def Let_def table_ok_def distinct_update list_all_iff upsert_scan_row)

lemma set_counts_keys [simp]: "map fst (set_counts i a b c t) = map fst t"
  by (auto simp: set_counts_def)

lemma set_counts_ids: "list_all (\<lambda>(k, x). k = srow_id (mr_row x)) t \<Longrightarrow> list_all (\<lambda>(k, x). k = srow_id (mr_row x)) (set_counts i a b c t)"
  by (auto simp: set_counts_def list_all_iff)

lemma set_counts_find: "map_of (set_counts i a b c t) i =
    map_option (\<lambda>x. x\<lparr>mr_row := (mr_row x)\<lparr>srow_new := a, srow_updated := b, srow_deleted := c\<rparr>\<rparr>) (map_of t i)"
  unfolding set_counts_def by (induction t) auto

text \<open>The row that is counted is the only one that changes.\<close>

lemma set_counts_others:
  "list_all (\<lambda>(k, x). k = srow_id (mr_row x)) t \<Longrightarrow>
     filter (\<lambda>r. srow_id r \<noteq> i \<and> P r) (map (mr_row \<circ> snd) (set_counts i a b c t)) = filter (\<lambda>r. srow_id r \<noteq> i \<and> P r) (map (mr_row \<circ> snd) t)"
  unfolding set_counts_def by (induction t) (auto split: if_split_asm)

lemma count_changes_scans: "sd_scans (count_changes row db) = set_counts (srow_id row)
    (new_count (observation_rows db) (previous_scan (scan_rows db) row) (srow_id row))
    (updated_count (observation_rows db) (previous_scan (scan_rows db) row) (srow_id row))
    (deleted_count (observation_rows db) (previous_scan (scan_rows db) row) (srow_id row)) (sd_scans db)"
  by (simp add: count_changes_def Let_def)

lemma count_changes_ok: "store_ok db \<Longrightarrow> store_ok (count_changes row db)"
  by (simp add: store_ok_def table_ok_def count_changes_scans set_counts_ids)

lemma count_changes_others:
  "store_ok db \<Longrightarrow> filter (\<lambda>r. srow_id r \<noteq> srow_id row \<and> P r) (scan_rows (count_changes row db)) =
     filter (\<lambda>r. srow_id r \<noteq> srow_id row \<and> P r) (scan_rows db)"
  unfolding scan_rows_def count_changes_scans by (rule set_counts_others) (simp add: store_ok_def)

lemma put_scan_find: "map_of (sd_scans (put_scan env m db)) (srow_id (outcome_row env m)) =
    Some (upsert_scan env m (map_of (sd_scans db) (srow_id (outcome_row env m))))"
  by (simp add: put_scan_def Let_def update_conv')

lemma put_scan_length: "length (sd_scans (put_scan env m db)) \<le> Suc (length (sd_scans db))"
proof -
  have "length (AList.update k v t) \<le> Suc (length t)" for k v and t :: "(string, metadata_row) table"
    by (induction t) auto
  then show ?thesis by (simp add: put_scan_def Let_def)
qed

lemma scan_row_in: "map_of (sd_scans db) i = Some x \<Longrightarrow> mr_row x \<in> set (scan_rows db)"
  unfolding scan_rows_def set_map by (metis comp_apply image_eqI map_of_SomeD snd_conv)

lemma scan_rows_ids: "store_ok db \<Longrightarrow> map srow_id (scan_rows db) = map fst (sd_scans db)"
  by (auto simp: store_ok_def scan_rows_def list_all_iff)

lemma scan_rows_ok: "store_ok db \<Longrightarrow> length (sd_scans db) \<le> 1000000 \<Longrightarrow> scans_ok (scan_rows db)"
  using scan_rows_ids[of db] by (simp add: scans_ok_def store_ok_def table_ok_def) (simp add: scan_rows_def)

text \<open>The scan the statement compares with is the one the drift takes.\<close>

lemma previous_scan_comparable:
  assumes "store_ok db" "srow_id (mr_row x) = srow_id row" "srow_provider (mr_row x) = srow_provider row"
    "srow_scope_key row = Some k" "srow_scope_key (mr_row x) = Some k" "srow_start (mr_row x) = srow_start row"
  shows "previous_scan (scan_rows db) row = newest_id (filter (comparable_row (scan_record (mr_row x))) (scan_rows (count_changes row db)))"
proof -
  have "filter (comparable_row (scan_record (mr_row x))) t = filter (\<lambda>r. srow_id r \<noteq> srow_id row \<and> (srow_provider r = srow_provider row \<and>
      srow_scope_key r = srow_scope_key row \<and> complete_row r \<and> srow_start r \<le> srow_start row)) t" for t
    using assms(2-) by (intro filter_cong refl) (auto simp: comparable_row_def scan_record_def COALESCE_def)
  then show ?thesis by (auto simp: count_changes_others[OF assms(1)] previous_scan_def intro!: arg_cong[where f = newest_id] filter_cong)
qed

lemma put_observations_ok:
  assumes "store_ok db" "plain_providers m rs" "sd_scans dbo = sd_scans db"
    "sd_observations dbo = put_observations (observe_writes env m (dedupe_by (observed_key m) [] rs)) (sd_observations db)"
  shows "store_ok dbo"
proof -
  have "k = observation_key x \<and> CHR 0x00 \<notin> set (obs_Provider x)" if "(k, x) \<in> set (sd_observations dbo)" for k x
    using put_observations_rows[OF that[unfolded assms(4)]] assms(1,2) dedupe_by_subset[of "observed_key m" "[]" rs]
    by (auto simp: observe_writes_def store_ok_def list_all_iff plain_providers_def plain_name_def)
  then have "list_all (\<lambda>(k, x). k = observation_key x \<and> CHR 0x00 \<notin> set (obs_Provider x)) (sd_observations dbo)"
    by (simp add: list_all_iff split_paired_all)
  moreover have "table_ok (sd_observations dbo)" unfolding assms(4) by (rule table_ok_put_all) (use assms(1) in \<open>simp add: store_ok_def\<close>)
  ultimately show ?thesis using assms(1,3) by (simp add: store_ok_def)
qed

text \<open>What a stored outcome is made of.\<close>

lemma PersistScanOutcome_None:
  assumes "PersistScanOutcome env out override db = (None, db')" "store_ok db" "m = outcome_metadata env out"
    "plain_providers m (named_resources (so_Resources out))"
  obtains dbo where "store_ok dbo" "sd_scans dbo = sd_scans db" "som_ID m = so_ID out" "srow_id (outcome_row env m) = so_ID out"
    "sd_observations dbo = put_observations (observe_writes env m (dedupe_by (observed_key m) [] (named_resources (so_Resources out)))) (sd_observations db)"
    "db' = (if so_Status out = ScanStatusCompleted then count_changes (outcome_row env m) (put_scan env m dbo) else put_scan env m dbo)"
    "store_ok db'"
proof -
  obtain dbo where dbo: "sd_scans dbo = sd_scans db" "strings_TrimSpace (som_ID m) \<noteq> []"
      "sd_observations dbo = put_observations (observe_writes env m (dedupe_by (observed_key m) [] (named_resources (so_Resources out)))) (sd_observations db)"
      "storeScanOutcomeMetadata env m dbo = Inr db'"
    using StoreScanOutcome_None[OF assms(1)[unfolded PersistScanOutcome_def assms(3)[symmetric]]] by blast
  have i: "som_ID m = so_ID out" "som_SnapshotComplete m = (so_Status out = ScanStatusCompleted)"
    by (simp_all add: assms(3) outcome_metadata_def)
  have ok: "store_ok dbo" by (rule put_observations_ok[OF assms(2,4) dbo(1,3)])
  have db': "db' = (if so_Status out = ScanStatusCompleted then count_changes (outcome_row env m) (put_scan env m dbo) else put_scan env m dbo)"
    using storeScanOutcomeMetadata_Inr[OF dbo(4)] i by simp
  have "store_ok db'" unfolding db' using ok by (simp add: put_scan_ok count_changes_ok)
  with that[OF ok dbo(1) i(1) _ dbo(3) db'] outcome_row_id[OF dbo(2)] i(1) show ?thesis by simp
qed

definition stored_row :: "store_db \<Rightarrow> ScanOutcome \<Rightarrow> bool" where
  "stored_row db out \<longleftrightarrow> (case map_of (sd_scans db) (so_ID out) of
     None \<Rightarrow> False
   | Some row \<Rightarrow> srow_id (mr_row row) = so_ID out \<and> srow_status (mr_row row) = ScanStatus_text (so_Status out) \<and>
       srow_snapshot_complete (mr_row row) = Some (so_Status out = ScanStatusCompleted) \<and>
       srow_total (mr_row row) = int (length (so_Resources out)) \<and> mr_failed row = int (length (so_FailedScopes out)))"

lemma persisted_row:
  assumes "PersistScanOutcome env out override db = (None, db')" "store_ok db" "m = outcome_metadata env out"
    "plain_providers m (named_resources (so_Resources out))"
  shows "stored_row db' out"
proof -
  obtain dbo where dbo: "srow_id (outcome_row env m) = so_ID out"
      "db' = (if so_Status out = ScanStatusCompleted then count_changes (outcome_row env m) (put_scan env m dbo) else put_scan env m dbo)"
    using PersistScanOutcome_None[OF assms] by metis
  have s: "srow_status (outcome_row env m) = ScanStatus_text (so_Status out)"
    by (cases "so_Status out") (simp_all add: outcome_row_def Let_def assms(3) outcome_metadata_def)
  note find = put_scan_find[of env m dbo, unfolded dbo(1)]
  have m: "som_SnapshotComplete m = (so_Status out = ScanStatusCompleted)" "som_TotalResources m = int (length (so_Resources out))"
      "som_FailedResources m = int (length (so_FailedScopes out))"
    by (simp_all add: assms(3) outcome_metadata_def)
  show ?thesis
    using find set_counts_find[where i = "so_ID out" and t = "sd_scans (put_scan env m dbo)"]
    by (cases "so_Status out = ScanStatusCompleted")
      (simp_all add: stored_row_def dbo count_changes_scans upsert_scan_row s m)
qed

text \<open>
  C2. A scan is stored whole or not at all. If any statement of the transaction fails, the database is as it
  was. If it is stored, its observations are exactly one per resource it found, the first for each provider
  and id (what an earlier attempt with the same scan id observed is kept for the rest), the observations of
  every other scan are untouched, the scan's row carries its totals and status, and the tables keep one row
  per key.
\<close>

theorem persisted_scan_exact:
  assumes "store_ok db" "m = outcome_metadata env out" "plain_providers m (named_resources (so_Resources out))"
  shows "case PersistScanOutcome env out override db of
      (Some err, db') \<Rightarrow> db' = db
    | (None, db') \<Rightarrow> store_ok db' \<and>
        (\<forall>k. observation_of (Observations (observation_rows db') (so_ID out)) k =
          (case find (\<lambda>r. observed_as m r = k) (named_resources (so_Resources out)) of
             Some r \<Rightarrow> Some (observation_columns env m r)
           | None \<Rightarrow> observation_of (Observations (observation_rows db) (so_ID out)) k)) \<and>
        (\<forall>i. i \<noteq> so_ID out \<longrightarrow> Observations (observation_rows db') i = Observations (observation_rows db) i) \<and>
        stored_row db' out"
proof -
  obtain e db' where r: "PersistScanOutcome env out override db = (e, db')" by fastforce
  show ?thesis
  proof (cases e)
    case (Some err)
    with r show ?thesis by (simp add: PersistScanOutcome_def StoreScanOutcome_def transaction_Some)
  next
    case None
    obtain dbo where dbo: "store_ok dbo" "sd_scans dbo = sd_scans db" "som_ID m = so_ID out" "srow_id (outcome_row env m) = so_ID out"
      "sd_observations dbo = put_observations (observe_writes env m (dedupe_by (observed_key m) [] (named_resources (so_Resources out)))) (sd_observations db)"
      "db' = (if so_Status out = ScanStatusCompleted then count_changes (outcome_row env m) (put_scan env m dbo) else put_scan env m dbo)"
      "store_ok db'"
      using PersistScanOutcome_None[OF _ assms(1,2,3)] r None by metis
    have obs: "sd_observations db' = sd_observations dbo" by (simp add: dbo(6))
    have 1: "observation_of (Observations (observation_rows db') (so_ID out)) k =
          (case find (\<lambda>r. observed_as m r = k) (named_resources (so_Resources out)) of
             Some r \<Rightarrow> Some (observation_columns env m r)
           | None \<Rightarrow> observation_of (Observations (observation_rows db) (so_ID out)) k)" for k
      unfolding observation_lookup[OF dbo(7)] observation_lookup[OF assms(1)] obs dbo(5) dbo(3)[symmetric]
      by (rule observed_writes_find[OF assms(3)])
    have 2: "Observations (observation_rows db') i = Observations (observation_rows db) i" if "i \<noteq> so_ID out" for i
    proof (rule Observations_determined[OF dbo(7) assms(1)])
      show "map_of (sd_observations db') (i, k) = map_of (sd_observations db) (i, k)" for k
        unfolding obs dbo(5) by (rule observed_writes_other) (simp add: dbo(3) that)
    qed
    have 3: "stored_row db' out" using persisted_row[OF _ assms(1,2,3)] r None by metis
    show ?thesis using r None dbo(7) 1 2 3 by simp
  qed
qed

lemma previous_comparable:
  assumes "scans_ok t"
  shows "map_option scan_ID (PreviousComparableScan t s) = newest_id (filter (comparable_row s) t)"
proof (cases "newest_id (filter (comparable_row s) t)")
  case (Some i)
  then obtain r where r: "r \<in> set t" "srow_id r = i" using newest_id_Some by fastforce
  have "GetScan t i = Some (scan_record r)" using GetScan_Some[OF assms r(1)] r(2) by simp
  with Some r(2) show ?thesis by (simp add: PreviousComparableScan_def scan_record_def)
qed (simp add: PreviousComparableScan_def)

definition baseline_observations :: "scan_row list \<Rightarrow> Observation list \<Rightarrow> ScanRecord \<Rightarrow> Observation list" where
  "baseline_observations scans t s = (case PreviousComparableScan scans s of None \<Rightarrow> [] | Some p \<Rightarrow> Observations t (scan_ID p))"

lemma baseline_observations_at:
  "scans_ok scans \<Longrightarrow> baseline_observations scans t s = observations_at t (newest_id (filter (comparable_row s) scans))"
  unfolding baseline_observations_def observations_at_def previous_comparable[symmetric] by (simp split: option.split)

text \<open>
  C23. The counts stored with a complete scan are its drift. When a scan is stored as a complete snapshot, the
  new, updated and deleted resources in its row are the numbers of added, modified and removed changes that
  the drift against the previous comparable scan lists, or, without such a scan, against nothing; whatever
  the order of the maps and whichever sorter the drift uses.
\<close>

theorem persisted_counts_are_drift:
  assumes "store_ok db" "m = outcome_metadata env out" "plain_providers m (named_resources (so_Resources out))"
    "length (sd_scans db) < 1000000" "PersistScanOutcome env out override db = (None, db')" "so_Status out = ScanStatusCompleted"
    "slice_sorting sort_Slice" "\<And>t. mset (order_left t) = mset t" "\<And>t. mset (order_right t) = mset t"
  shows "\<exists>s. GetScan (scan_rows db') (so_ID out) = Some s \<and>
    (let t = observation_rows db'; changes = compare order_left order_right sort_Slice (baseline_observations (scan_rows db') t s)
       (Observations t (so_ID out)) in
     scan_NewResources s = change_count Added changes \<and> scan_UpdatedResources s = change_count Modified changes \<and>
     scan_DeletedResources s = change_count Removed changes)"
proof -
  obtain dbo where dbo: "store_ok dbo" "sd_scans dbo = sd_scans db" "srow_id (outcome_row env m) = so_ID out"
      "db' = count_changes (outcome_row env m) (put_scan env m dbo)" "store_ok db'"
    using PersistScanOutcome_None[OF assms(5,1,2,3)] assms(6) by metis
  let ?mid = "put_scan env m dbo" and ?row = "outcome_row env m"
  let ?x = "upsert_scan env m (map_of (sd_scans dbo) (so_ID out))"
  let ?prev = "previous_scan (scan_rows ?mid) ?row" and ?t = "observation_rows db'"
  have mid: "store_ok ?mid" using dbo(1) by (rule put_scan_ok)
  have t: "observation_rows ?mid = ?t" by (simp add: dbo(4) observation_rows_def)
  have len: "length (sd_scans db') \<le> 1000000"
    using put_scan_length[of env m dbo] assms(4) by (simp add: dbo(4) count_changes_scans set_counts_def dbo(2))
  have scans: "scans_ok (scan_rows db')" by (rule scan_rows_ok[OF dbo(5) len])
  define x where "x = ?x\<lparr>mr_row := (mr_row ?x)\<lparr>srow_new := new_count ?t ?prev (so_ID out), srow_updated := updated_count ?t ?prev (so_ID out),
      srow_deleted := deleted_count ?t ?prev (so_ID out)\<rparr>\<rparr>"
  have x: "map_of (sd_scans db') (so_ID out) = Some x"
    using put_scan_find[of env m dbo] set_counts_find[where i = "so_ID out" and t = "sd_scans ?mid"]
    by (simp add: dbo(3,4) count_changes_scans t x_def)
  have xid: "srow_id (mr_row x) = so_ID out" by (simp add: x_def upsert_scan_row dbo(3))
  have get: "GetScan (scan_rows db') (so_ID out) = Some (scan_record (mr_row x))"
    using GetScan_Some[OF scans scan_row_in[OF x]] by (simp add: xid)
  have "?prev = newest_id (filter (comparable_row (scan_record (mr_row x))) (scan_rows db'))"
    unfolding dbo(4)
    by (rule previous_scan_comparable[OF mid, where k = "som_ScopeKey m"])
       (simp_all add: x_def upsert_scan_row dbo(3) outcome_row_def Let_def)
  then have base: "baseline_observations (scan_rows db') ?t (scan_record (mr_row x)) = observations_at ?t ?prev"
    by (simp add: baseline_observations_at[OF scans])
  note count = change_count_compare[OF observations_at_ok[OF dbo(5)] Observations_ok[OF dbo(5)] assms(7-9)]
  have "scan_NewResources (scan_record (mr_row x)) = new_count ?t ?prev (so_ID out)"
      "scan_UpdatedResources (scan_record (mr_row x)) = updated_count ?t ?prev (so_ID out)"
      "scan_DeletedResources (scan_record (mr_row x)) = deleted_count ?t ?prev (so_ID out)"
    by (simp_all add: x_def scan_record_def)
  then show ?thesis
    by (intro exI[of _ "scan_record (mr_row x)"] conjI get)
       (simp add: Let_def base count counts_are_changes[OF dbo(5) refl])
qed

subsection \<open>An instance\<close>

definition demo_env :: store_env where
  "demo_env = \<lparr>se_fault = (\<lambda>_. None), se_begin = None, se_commit = None, se_now = 5, se_uuid = ''u'', se_cast = Some,
     se_parse_time = (\<lambda>_. None), se_decode = (\<lambda>s. Some (JOther s)), se_encode = (\<lambda>_. ''{}''), se_encode_map = (\<lambda>_. ''{}''),
     se_encode_list = concat, se_encode_failed = concat, se_encode_payload = sp_name, se_encode_scope = (\<lambda>p xs ys. p @ concat xs @ concat ys)\<rparr>"

definition demo_resource :: "string \<Rightarrow> string \<Rightarrow> pb_Resource" where
  "demo_resource i n = pb_Resource_zero\<lparr>res_Provider := ''aws'', res_Id := i, res_Name := n\<rparr>"

definition demo_outcome :: ScanOutcome where
  "demo_outcome = \<lparr>so_ID = ''s2'', so_Provider = ''aws'', so_Services = [''s3''], so_Scopes = [''us-east-1''], so_FailedScopes = [],
     so_Status = ScanStatusCompleted, so_StartedAt = Some 10, so_EndedAt = Some 20,
     so_Resources = [Some (demo_resource ''a'' ''x''), None, Some (demo_resource ''a'' ''y''), Some (demo_resource ''b'' ''z'')]\<rparr>"

definition demo_db :: store_db where
  "demo_db = \<lparr>sd_resources = [], sd_relationships = [],
     sd_observations = [((''s'', ''aws'', ''c''), demo_observation ''c'' ''h'')], sd_rel_observations = [], sd_scans = []\<rparr>"

lemma demo_persisted: "fst (PersistScanOutcome demo_env demo_outcome [] demo_db) = None"
proof -
  have t: "scanResourceTable (demo_resource i n) [] = Inr ''aws_resources''" for i n
  proof -
    have "scanResourceTableForProvider ''aws'' = ''aws_resources''" by code_simp
    then show ?thesis by (simp add: scanResourceTable_def demo_resource_def)
  qed
  have a: "scan_adapter ''aws_resources'' = AdapterGeneric" by code_simp
  show ?thesis
    by (simp add: PersistScanOutcome_def StoreScanOutcome_def transaction_def store_outcome_body_def demo_outcome_def t store_resource_def a
        storeGenericScanResource_def exec_def demo_env_def demo_resource_def pb_Resource_zero_def storeScanObservations_def
        outcome_metadata_def observe_resource_def storeScanOutcomeMetadata_def Let_def strings_TrimSpace_def ascii_space_def
        t[unfolded demo_resource_def pb_Resource_zero_def, simplified])
qed

lemma demo_ok:
  "store_ok demo_db" "plain_providers (outcome_metadata demo_env demo_outcome) (named_resources (so_Resources demo_outcome))"
  "named_resources (so_Resources demo_outcome) = [demo_resource ''a'' ''x'', demo_resource ''a'' ''y'', demo_resource ''b'' ''z'']"
proof -
  show n: "named_resources (so_Resources demo_outcome) = [demo_resource ''a'' ''x'', demo_resource ''a'' ''y'', demo_resource ''b'' ''z'']"
    by (simp add: named_resources_def demo_outcome_def map_filter_simps demo_resource_def pb_Resource_zero_def strings_TrimSpace_def ascii_space_def)
  show "store_ok demo_db"
    by (simp add: store_ok_def demo_db_def table_ok_def observation_key_def demo_observation_def)
  show "plain_providers (outcome_metadata demo_env demo_outcome) (named_resources (so_Resources demo_outcome))"
    unfolding n by (simp add: plain_providers_def plain_name_def observation_provider_def demo_resource_def pb_Resource_zero_def
        strings_TrimSpace_def strings_ToLower_def lower_char_def ascii_space_def Let_def)
qed

theorem persisted_scan_exact_witness:
  "case PersistScanOutcome demo_env demo_outcome [] demo_db of (Some err, db') \<Rightarrow> False
   | (None, db') \<Rightarrow> map (\<lambda>i. map_option obs_Name (observation_of (Observations (observation_rows db') ''s2'') (''aws'', i))) [''a'', ''b'', ''c''] =
       [Some ''x'', Some ''z'', None]"
proof -
  obtain db' where db': "PersistScanOutcome demo_env demo_outcome [] demo_db = (None, db')"
    using demo_persisted by (metis prod.collapse)
  have "so_ID demo_outcome = ''s2''" by (simp add: demo_outcome_def)
  with persisted_scan_exact[OF demo_ok(1) refl demo_ok(2), of "[]", unfolded db' demo_ok(3), simplified] show ?thesis
    unfolding db' by (simp add: observed_as_def observation_provider_def demo_resource_def pb_Resource_zero_def observation_columns_def
        strings_TrimSpace_def strings_ToLower_def lower_char_def ascii_space_def Let_def demo_db_def observation_rows_def demo_observation_def
        Observations_def observation_of_def outcome_metadata_def)
qed

theorem persisted_counts_are_drift_witness:
  "let db' = snd (PersistScanOutcome demo_env demo_outcome [] demo_db) in
   \<exists>s. GetScan (scan_rows db') ''s2'' = Some s \<and> scan_NewResources s =
     change_count Added (compare rev id insertion_sorter (baseline_observations (scan_rows db') (observation_rows db') s)
       (Observations (observation_rows db') ''s2''))"
proof -
  obtain db' where db': "PersistScanOutcome demo_env demo_outcome [] demo_db = (None, db')"
    using demo_persisted by (metis prod.collapse)
  have l: "length (sd_scans demo_db) < 1000000" by (simp add: demo_db_def)
  have c: "so_Status demo_outcome = ScanStatusCompleted" "so_ID demo_outcome = ''s2''" by (simp_all add: demo_outcome_def)
  have orders: "mset (rev t) = mset t" "mset (id t) = mset t" for t :: "(string, Observation) table" by simp_all
  from persisted_counts_are_drift[where order_left = rev and order_right = id, OF demo_ok(1) refl demo_ok(2) l db' c(1) insertion_slices.slice_sorting_axioms orders, unfolded c(2)]
  show ?thesis unfolding db' by (auto simp: Let_def)
qed

end
