(* ===== verification/Db_Connect.thy ===== *)
theory Db_Connect imports Sql_Guard begin

text \<open>
  internal/db/connect.go: where a database target points, and the statements that attach a remote server to a
  connection. A local target is opened as it is. \<open>url.ParseQuery\<close> and \<open>url.QueryEscape\<close> are parameters; a
  connection is the list of the statements it was given, each of which may fail.
\<close>

subsection \<open>Targets\<close>

definition RemoteAlias :: string where
  "RemoteAlias = ''corkscrew_remote''"

definition quackScheme :: string where
  "quackScheme = ''quack:''"

record Target =
  tg_Raw :: string
  tg_IsRemote :: bool
  tg_Endpoint :: string
  tg_Token :: string
  tg_DisableSSL :: bool

datatype target_error = BadQuery string string | MissingHost string | InvalidHost string

definition AttachURI :: "Target \<Rightarrow> string" where
  "AttachURI t = quackScheme @ tg_Endpoint t"

definition IsRemoteTarget :: "string \<Rightarrow> bool" where
  "IsRemoteTarget s \<longleftrightarrow> strings_HasPrefix s quackScheme"

definition invalid_host_chars :: string where
  "invalid_host_chars = [CHR 0x27, CHR 0x22, CHR '' '', CHR 0x09, CHR 0x0A]"

text \<open>What is before the first question mark, and what is after it, if there is one.\<close>

fun cut_query :: "string \<Rightarrow> string \<times> string option" where
  "cut_query [] = ([], None)"
| "cut_query (c # cs) = (if c = CHR ''?'' then ([], Some cs) else (case cut_query cs of (h, q) \<Rightarrow> (c # h, q)))"

definition ParseTarget :: "(string \<Rightarrow> string + (string \<Rightarrow> string)) \<Rightarrow> string \<Rightarrow> target_error + Target" where
  "ParseTarget parse_query s =
     (let t = \<lparr>tg_Raw = s, tg_IsRemote = False, tg_Endpoint = [], tg_Token = [], tg_DisableSSL = False\<rparr> in
      if \<not> IsRemoteTarget s then Inr t
      else (let rest = strings_TrimPrefix s quackScheme in
        (case (case cut_query rest of
             (h, None) \<Rightarrow> Inr (h, t\<lparr>tg_IsRemote := True\<rparr>)
           | (h, Some q) \<Rightarrow> (case parse_query q of
               Inl err \<Rightarrow> Inl (BadQuery s err)
             | Inr vals \<Rightarrow> Inr (h, t\<lparr>tg_IsRemote := True, tg_DisableSSL := vals ''disable_ssl'' \<in> {''true'', ''1'', ''yes''},
                 tg_Token := vals ''token''\<rparr>))) of
           Inl err \<Rightarrow> Inl err
         | Inr (rest, t) \<Rightarrow> (let rest = strings_TrimPrefix rest ''//'' in
             if rest = [] then Inl (MissingHost s)
             else if list_ex (\<lambda>c. c \<in> set invalid_host_chars) rest then Inl (InvalidHost s)
             else Inr (t\<lparr>tg_Endpoint := rest\<rparr>)))))"

subsection \<open>Options\<close>

record connectOptions =
  co_token :: string
  co_disableSSL :: bool
  co_allowUnsigned :: bool

datatype Option = WithToken string | WithDisableSSL bool | WithUnsignedExtensions

fun apply_option :: "Option \<Rightarrow> connectOptions \<Rightarrow> connectOptions" where
  "apply_option (WithToken token) o' = (if token \<noteq> [] then o'\<lparr>co_token := token\<rparr> else o')"
| "apply_option (WithDisableSSL disable) o' = (if disable then o'\<lparr>co_disableSSL := True\<rparr> else o')"
| "apply_option WithUnsignedExtensions o' = o'\<lparr>co_allowUnsigned := True\<rparr>"

definition resolve_options :: "Target \<Rightarrow> Option list \<Rightarrow> connectOptions" where
  "resolve_options t opts = foldl (\<lambda>o' f. apply_option f o') \<lparr>co_token = tg_Token t, co_disableSSL = tg_DisableSSL t, co_allowUnsigned = False\<rparr> opts"

definition withDuckDBOption :: "(string \<Rightarrow> string) \<Rightarrow> string \<Rightarrow> string \<Rightarrow> string \<Rightarrow> string" where
  "withDuckDBOption escape dsn k v = dsn @ (if strings_Contains dsn ''?'' then ''&'' else ''?'') @ escape k @ ''='' @ escape v"

subsection \<open>The statements of a remote connection\<close>

fun SQLEscapeSingleQuotes :: "string \<Rightarrow> string" where
  "SQLEscapeSingleQuotes [] = []"
| "SQLEscapeSingleQuotes (c # cs) = (if c = CHR 0x27 then [CHR 0x27, CHR 0x27] else [c]) @ SQLEscapeSingleQuotes cs"

definition sql_string :: "string \<Rightarrow> string" where
  "sql_string s = [CHR 0x27] @ s @ [CHR 0x27]"

definition attach_options :: "connectOptions \<Rightarrow> string list" where
  "attach_options o' = (if co_token o' \<noteq> [] then [''TOKEN '' @ sql_string (SQLEscapeSingleQuotes (co_token o'))] else []) @
     (if co_disableSSL o' then [''DISABLE_SSL true''] else [])"

definition buildAttachStatement :: "Target \<Rightarrow> connectOptions \<Rightarrow> string" where
  "buildAttachStatement t o' = ''ATTACH IF NOT EXISTS '' @ sql_string (AttachURI t) @ '' AS '' @ RemoteAlias @
     (if attach_options o' \<noteq> [] then '' ('' @ strings_Join (attach_options o') '', '' @ '')'' else []) @ '';''"

datatype connect_error = InstallQuack string | LoadQuack string | AttachRemote string | UseRemote string | TargetError target_error

text \<open>The statements run so far and whether the last one failed; \<open>fails\<close> is asked with the statements before.\<close>

definition run_sql :: "(string list \<Rightarrow> string \<Rightarrow> string option) \<Rightarrow> string \<Rightarrow> string list \<Rightarrow> string option \<times> string list" where
  "run_sql fails q log = (fails log q, log @ [q])"

definition EnsureQuackLoaded :: "(string list \<Rightarrow> string \<Rightarrow> string option) \<Rightarrow> string list \<Rightarrow> connect_error option \<times> string list" where
  "EnsureQuackLoaded fails log =
     (let nightly = (\<lambda>log. case run_sql fails ''INSTALL quack FROM core_nightly;'' log of
            (Some err, log) \<Rightarrow> (Some (InstallQuack err), log)
          | (None, log) \<Rightarrow> (case run_sql fails ''LOAD quack;'' log of
              (Some err, log) \<Rightarrow> (Some (LoadQuack err), log) | (None, log) \<Rightarrow> (None, log))) in
      case run_sql fails ''LOAD quack;'' log of
        (None, log) \<Rightarrow> (None, log)
      | (Some _, log) \<Rightarrow> (case run_sql fails ''INSTALL quack;'' log of
          (None, log) \<Rightarrow> (case run_sql fails ''LOAD quack;'' log of (None, log) \<Rightarrow> (None, log) | (Some _, log) \<Rightarrow> nightly log)
        | (Some _, log) \<Rightarrow> nightly log))"

definition initRemoteConn :: "(string list \<Rightarrow> string \<Rightarrow> string option) \<Rightarrow> string \<Rightarrow> connect_error option \<times> string list" where
  "initRemoteConn fails attach = (case EnsureQuackLoaded fails [] of
     (Some err, log) \<Rightarrow> (Some err, log)
   | (None, log) \<Rightarrow> (case run_sql fails attach log of
       (Some err, log) \<Rightarrow> (Some (AttachRemote err), log)
     | (None, log) \<Rightarrow> (case run_sql fails (''USE '' @ RemoteAlias @ '';'') log of
         (Some err, log) \<Rightarrow> (Some (UseRemote err), log)
       | (None, log) \<Rightarrow> (None, log))))"

text \<open>The source a connection is opened on, and what each pooled connection runs first.\<close>

datatype connection_plan = LocalDatabase string | RemoteDatabase string string

definition OpenDuckDB :: "(string \<Rightarrow> string + (string \<Rightarrow> string)) \<Rightarrow> (string \<Rightarrow> string) \<Rightarrow> string \<Rightarrow> Option list \<Rightarrow> connect_error + connection_plan" where
  "OpenDuckDB parse_query escape target opts = (case ParseTarget parse_query target of
     Inl err \<Rightarrow> Inl (TargetError err)
   | Inr t \<Rightarrow> (let o' = resolve_options t opts in
       if \<not> tg_IsRemote t then Inr (LocalDatabase (if co_allowUnsigned o' then withDuckDBOption escape target ''allow_unsigned_extensions'' ''true'' else target))
       else Inr (RemoteDatabase (if co_allowUnsigned o' then ''?allow_unsigned_extensions=true'' else []) (buildAttachStatement t o'))))"

subsection \<open>How the statement is read\<close>

abbreviation sq :: char where
  "sq \<equiv> CHR 0x27"

text \<open>The value of a quoted part: a doubled quote is one.\<close>

fun sql_value_of :: "string \<Rightarrow> string" where
  "sql_value_of (c # d # cs) = (if c = sq \<and> d = sq then sq # sql_value_of cs else c # sql_value_of (d # cs))"
| "sql_value_of cs = cs"

lemma quoted_body_escape: "quoted_body sq (SQLEscapeSingleQuotes s)"
  by (induction s) (auto intro: quoted_body.intros)

lemma quoted_body_plain: "sq \<notin> set s \<Longrightarrow> quoted_body sq s"
  by (induction s) (auto intro: quoted_body.intros)

lemma sql_value_of_escape: "sql_value_of (SQLEscapeSingleQuotes s) = s"
proof (induction s)
  case (Cons c cs)
  show ?case
  proof (cases "c = sq")
    case False
    with Cons show ?thesis by (cases "SQLEscapeSingleQuotes cs") auto
  qed (use Cons in simp)
qed simp

lemma reads_char: "c \<in> {CHR '' '', CHR ''('', CHR '')'', CHR '',''} \<Longrightarrow> reads s ls \<Longrightarrow> reads (c # s) (Other c # ls)"
  by (rule r_other) (auto simp: sql_quote_def word_char_def latin1_letter_def Let_def)

lemma reads_string: "quoted_body sq b \<Longrightarrow> \<not> starts_with (\<lambda>c. c = sq) s \<Longrightarrow> reads s ls \<Longrightarrow> reads (sql_string b @ s) (Masked (sql_string b) # ls)"
  using r_quoted[of sq b s ls] by (simp add: sql_string_def sql_quote_def)

text \<open>A word and the character after it.\<close>

lemma reads_word_char:
  "w \<noteq> [] \<Longrightarrow> list_all word_char w \<Longrightarrow> c \<in> {CHR '' '', CHR ''('', CHR '')'', CHR '',''} \<Longrightarrow> reads s ls \<Longrightarrow>
     reads (w @ c # s) (Word w # Other c # ls)"
  by (rule r_word[OF _ _ _ reads_char]) (auto simp: starts_with_def word_char_def latin1_letter_def Let_def)

definition option_lexemes :: "connectOptions \<Rightarrow> lexeme list" where
  "option_lexemes o' = (let token = [Word ''TOKEN'', Other (CHR '' ''), Masked (sql_string (SQLEscapeSingleQuotes (co_token o')))];
       ssl = [Word ''DISABLE_SSL'', Other (CHR '' ''), Word ''true''] in
     (if co_token o' = [] \<and> \<not> co_disableSSL o' then []
      else [Other (CHR '' ''), Other (CHR ''('')] @
        (if co_token o' \<noteq> [] then token @ (if co_disableSSL o' then Other (CHR '','') # Other (CHR '' '') # ssl else []) else ssl) @
        [Other (CHR '')'')]) @ [Semicolon])"

definition attach_lexemes :: "Target \<Rightarrow> connectOptions \<Rightarrow> lexeme list" where
  "attach_lexemes t o' = [Word ''ATTACH'', Other (CHR '' ''), Word ''IF'', Other (CHR '' ''), Word ''NOT'', Other (CHR '' ''), Word ''EXISTS'', Other (CHR '' ''),
     Masked (sql_string (AttachURI t)), Other (CHR '' ''), Word ''AS'', Other (CHR '' ''), Word RemoteAlias] @ option_lexemes o'"

definition option_text :: "connectOptions \<Rightarrow> string" where
  "option_text o' = (if attach_options o' \<noteq> [] then '' ('' @ strings_Join (attach_options o') '', '' @ '')'' else []) @ '';''"

lemma words_ok: "list_all word_char ''DISABLE_SSL''" "list_all word_char ''true''" "list_all word_char ''TOKEN''" "list_all word_char ''ATTACH''"
  "list_all word_char ''IF''" "list_all word_char ''NOT''" "list_all word_char ''EXISTS''" "list_all word_char ''AS''" "list_all word_char RemoteAlias"
  unfolding RemoteAlias_def by code_simp+

lemma reads_close: "reads '');'' [Other (CHR '')''), Semicolon]"
  using reads_char[of "CHR '')''" "'';''" "[Semicolon]"] r_semicolon[OF r_end] by simp

lemma reads_ssl: "reads ''DISABLE_SSL true);'' [Word ''DISABLE_SSL'', Other (CHR '' ''), Word ''true'', Other (CHR '')''), Semicolon]"
  using reads_word_char[OF _ words_ok(1), of "CHR '' ''" "''true);''"] reads_word_char[OF _ words_ok(2), of "CHR '')''" "'';''" "[Semicolon]"]
    r_semicolon[OF r_end] by simp

lemma reads_options: "reads (option_text o') (option_lexemes o')"
proof -
  have token: "reads (''TOKEN '' @ sql_string (SQLEscapeSingleQuotes k) @ s) (Word ''TOKEN'' # Other (CHR '' '') # Masked (sql_string (SQLEscapeSingleQuotes k)) # ls)"
    if "reads s ls" "\<not> starts_with (\<lambda>c. c = sq) s" for k s ls
    using reads_word_char[OF _ words_ok(3), of "CHR '' ''"] reads_string[OF quoted_body_escape that(2,1), of k] by simp
  have two: "reads ('', '' @ ''DISABLE_SSL true);'') (Other (CHR '','') # Other (CHR '' '') # [Word ''DISABLE_SSL'', Other (CHR '' ''), Word ''true'', Other (CHR '')''), Semicolon])"
    using reads_char[of "CHR '',''" "'' DISABLE_SSL true);''"] reads_char[of "CHR '' ''" "''DISABLE_SSL true);''"] reads_ssl by simp
  have open_paren: "reads ('' ('' @ s) (Other (CHR '' '') # Other (CHR ''('') # ls)" if "reads s ls" for s ls
    using reads_char[of "CHR '' ''" "CHR ''('' # s"] reads_char[of "CHR ''(''" s] that by simp
  show ?thesis
  proof (cases "co_token o' = []")
    case True
    then show ?thesis
      using open_paren[OF reads_ssl] r_semicolon[OF r_end] by (simp add: option_text_def option_lexemes_def attach_options_def Let_def)
  next
    case False
    then show ?thesis
      using open_paren[OF token[OF reads_close, of "co_token o'"]] open_paren[OF token[OF two, of "co_token o'"]]
      by (simp add: option_text_def option_lexemes_def attach_options_def Let_def starts_with_def)
  qed
qed

lemma option_text_starts: "\<not> starts_with word_char (option_text o') \<and> \<not> starts_with (\<lambda>c. c = sq) (option_text o')"
  by (auto simp: option_text_def starts_with_def word_char_def latin1_letter_def Let_def)

lemma reads_attach:
  assumes "sq \<notin> set (tg_Endpoint t)"
  shows "reads (buildAttachStatement t o') (attach_lexemes t o')"
proof -
  have b: "quoted_body sq (AttachURI t)" by (rule quoted_body_plain) (use assms in \<open>simp add: AttachURI_def quackScheme_def\<close>)
  have 1: "reads (RemoteAlias @ option_text o') (Word RemoteAlias # option_lexemes o')"
    by (rule r_word[OF _ words_ok(9) _ reads_options]) (use option_text_starts in \<open>auto simp: RemoteAlias_def\<close>)
  have 2: "reads ('' AS '' @ RemoteAlias @ option_text o') ([Other (CHR '' ''), Word ''AS'', Other (CHR '' ''), Word RemoteAlias] @ option_lexemes o')"
    using reads_char[OF _ reads_word_char[OF _ words_ok(8) _ 1]] by simp
  have 3: "reads (sql_string (AttachURI t) @ '' AS '' @ RemoteAlias @ option_text o')
      (Masked (sql_string (AttachURI t)) # [Other (CHR '' ''), Word ''AS'', Other (CHR '' ''), Word RemoteAlias] @ option_lexemes o')"
    by (rule reads_string[OF b _ 2]) (simp add: starts_with_def)
  have "reads (''ATTACH '' @ ''IF '' @ ''NOT '' @ ''EXISTS '' @ sql_string (AttachURI t) @ '' AS '' @ RemoteAlias @ option_text o') (attach_lexemes t o')"
    using reads_word_char[OF _ words_ok(4) _ reads_word_char[OF _ words_ok(5) _ reads_word_char[OF _ words_ok(6) _ reads_word_char[OF _ words_ok(7) _ 3]]]]
    by (simp add: attach_lexemes_def)
  then show ?thesis by (simp add: buildAttachStatement_def option_text_def)
qed

lemma cut_query_host: "cut_query s = (h, q) \<Longrightarrow> set h \<subseteq> set s"
  by (induction s arbitrary: h q) (fastforce split: if_splits prod.splits)+

lemma ParseTarget_remote:
  assumes "ParseTarget parse_query s = Inr t" "tg_IsRemote t"
  shows "tg_Endpoint t \<noteq> [] \<and> (\<forall>c \<in> set (tg_Endpoint t). c \<notin> set invalid_host_chars)"
  using assms unfolding ParseTarget_def Let_def list_ex_iff
  by (auto split: if_splits sum.splits prod.splits option.splits)

fun masked_parts :: "lexeme list \<Rightarrow> string list" where
  "masked_parts [] = []"
| "masked_parts (Masked m # ls) = m # masked_parts ls"
| "masked_parts (_ # ls) = masked_parts ls"

lemma lower_words: "strings_ToLower ''ATTACH'' = ''attach''" "strings_ToLower ''IF'' = ''if''" "strings_ToLower ''NOT'' = ''not''"
  "strings_ToLower ''EXISTS'' = ''exists''" "strings_ToLower ''AS'' = ''as''" "strings_ToLower ''corkscrew_remote'' = ''corkscrew_remote''"
  "strings_ToLower ''TOKEN'' = ''token''" "strings_ToLower ''DISABLE_SSL'' = ''disable_ssl''" "strings_ToLower ''true'' = ''true''"
  by code_simp+

lemma attach_lexemes_parts:
  "words_of (attach_lexemes t o') = [''attach'', ''if'', ''not'', ''exists'', ''as'', ''corkscrew_remote''] @
     (if co_token o' \<noteq> [] then [''token''] else []) @ (if co_disableSSL o' then [''disable_ssl'', ''true''] else [])"
  "semicolons_of (attach_lexemes t o') = 1"
  "masked_parts (attach_lexemes t o') = sql_string (AttachURI t) #
     (if co_token o' \<noteq> [] then [sql_string (SQLEscapeSingleQuotes (co_token o'))] else [])"
  by (simp_all add: attach_lexemes_def option_lexemes_def Let_def RemoteAlias_def lower_words)

lemma EnsureQuackLoaded_statements:
  "set (snd (EnsureQuackLoaded fails log)) \<subseteq> set log \<union> {''LOAD quack;'', ''INSTALL quack;'', ''INSTALL quack FROM core_nightly;''}"
  by (auto simp: EnsureQuackLoaded_def run_sql_def Let_def split: option.splits prod.splits)

lemma initRemoteConn_statements:
  "set (snd (initRemoteConn fails attach)) \<subseteq>
     {''LOAD quack;'', ''INSTALL quack;'', ''INSTALL quack FROM core_nightly;'', attach, ''USE corkscrew_remote;''}"
  using EnsureQuackLoaded_statements[of fails "[]"]
  by (auto simp: initRemoteConn_def run_sql_def RemoteAlias_def split: option.splits prod.splits)

text \<open>
  C21. Neither a database target nor a token can smuggle SQL. Whatever target and options a remote connection is
  opened with, the statement that attaches the server has one reading: the fixed words of an ATTACH and one
  semicolon; the host and the token are each one quoted part, the token's value is the token given last (or
  the target's), and the host has no quote or white space. Each pooled connection runs that statement, the
  loading of the extension and the choice of the catalog, and nothing else.
\<close>

theorem attach_no_injection:
  assumes "ParseTarget parse_query target = Inr t" "tg_IsRemote t" "o' = resolve_options t opts"
  shows "\<exists>dsn attach ls. OpenDuckDB parse_query escape target opts = Inr (RemoteDatabase dsn attach) \<and>
    reads attach ls \<and> sqlTokens attach = Inr (words_of ls, 1) \<and>
    words_of ls = [''attach'', ''if'', ''not'', ''exists'', ''as'', ''corkscrew_remote''] @
      (if co_token o' \<noteq> [] then [''token''] else []) @ (if co_disableSSL o' then [''disable_ssl'', ''true''] else []) \<and>
    masked_parts ls = sql_string (''quack:'' @ tg_Endpoint t) # (if co_token o' \<noteq> [] then [sql_string (SQLEscapeSingleQuotes (co_token o'))] else []) \<and>
    sql_value_of (SQLEscapeSingleQuotes (co_token o')) = co_token o' \<and>
    tg_Endpoint t \<noteq> [] \<and> (\<forall>c \<in> set (tg_Endpoint t). c \<notin> set invalid_host_chars) \<and>
    set (snd (initRemoteConn fails attach)) \<subseteq>
      {''LOAD quack;'', ''INSTALL quack;'', ''INSTALL quack FROM core_nightly;'', attach, ''USE corkscrew_remote;''}"
proof -
  note host = ParseTarget_remote[OF assms(1,2)]
  have "sq \<notin> set (tg_Endpoint t)" using host by (auto simp: invalid_host_chars_def)
  note r = reads_attach[OF this, of o']
  have "sqlTokens (buildAttachStatement t o') = Inr (words_of (attach_lexemes t o'), 1)"
    using reads_sql_loop[OF r, of "[]" 0] by (simp add: sqlTokens_def attach_lexemes_parts)
  moreover have "OpenDuckDB parse_query escape target opts =
      Inr (RemoteDatabase (if co_allowUnsigned o' then ''?allow_unsigned_extensions=true'' else []) (buildAttachStatement t o'))"
    by (simp add: OpenDuckDB_def assms Let_def)
  ultimately show ?thesis
    using host r by (intro exI[of _ "if co_allowUnsigned o' then ''?allow_unsigned_extensions=true'' else []"] exI[of _ "buildAttachStatement t o'"]
        exI[of _ "attach_lexemes t o'"])
      (simp add: attach_lexemes_parts AttachURI_def quackScheme_def sql_value_of_escape initRemoteConn_statements)
qed

theorem attach_no_injection_witness:
  "\<exists>dsn attach ls. OpenDuckDB (\<lambda>_. Inl []) (\<lambda>s. s) ''quack:db:1'' [WithToken (''a'' @ [sq] @ ''; drop'')] = Inr (RemoteDatabase dsn attach) \<and>
    reads attach ls \<and> words_of ls = [''attach'', ''if'', ''not'', ''exists'', ''as'', ''corkscrew_remote'', ''token'']"
proof -
  let ?t = "\<lparr>tg_Raw = ''quack:db:1'', tg_IsRemote = True, tg_Endpoint = ''db:1'', tg_Token = [], tg_DisableSSL = False\<rparr>"
  let ?o = "\<lparr>co_token = ''a'' @ [sq] @ ''; drop'', co_disableSSL = False, co_allowUnsigned = False\<rparr>"
  have p: "ParseTarget (\<lambda>_. Inl []) ''quack:db:1'' = Inr ?t" by code_simp
  have r: "?o = resolve_options ?t [WithToken (''a'' @ [sq] @ ''; drop'')]" by code_simp
  have "tg_IsRemote ?t" by simp
  from attach_no_injection[OF p this r, where escape = "\<lambda>s. s" and fails = "\<lambda>_ _. None"] obtain dsn attach ls where
      a: "OpenDuckDB (\<lambda>_. Inl []) (\<lambda>s. s) ''quack:db:1'' [WithToken (''a'' @ [sq] @ ''; drop'')] = Inr (RemoteDatabase dsn attach)" "reads attach ls"
    and w: "words_of ls = [''attach'', ''if'', ''not'', ''exists'', ''as'', ''corkscrew_remote''] @
      (if co_token ?o \<noteq> [] then [''token''] else []) @ (if co_disableSSL ?o then [''disable_ssl'', ''true''] else [])"
    by (elim exE conjE) (rule that)
  from w have "words_of ls = [''attach'', ''if'', ''not'', ''exists'', ''as'', ''corkscrew_remote'', ''token'']" by simp
  with a show ?thesis by blast
qed

end
