(* ===== verification/Corkscrew_Config.thy ===== *)
theory Corkscrew_Config imports Provider_Runtime begin

text \<open>
  internal/config/corkscrew.go: the configuration file, its defaults and what a provider is configured with.
  A Go map is the list of its entries under distinct keys, a nil map \<open>None\<close>. The YAML decoder, the
  environment and the file system are parameters.
\<close>

record CloudProviderConfig =
  cp_Enabled :: bool
  cp_DefaultRegion :: string
  cp_Regions :: "string list"
  cp_Services :: "string list"
  cp_Config :: config

record DependencyConfig =
  dep_Version :: string
  dep_AutoDownload :: bool

record DependenciesConfig =
  deps_Protoc :: DependencyConfig
  deps_DuckDB :: DependencyConfig

record DatabaseConfig =
  dbc_Path :: string
  dbc_AutoCreate :: bool

record QueryConfig =
  qc_Timeout :: string
  qc_StreamingThreshold :: int
  qc_MaxMemory :: string

record ComplianceConfig =
  compc_PacksDir :: string
  compc_AutoUpdate :: bool

record LoggingConfig =
  logc_Level :: string
  logc_Format :: string

record OutputConfig =
  outc_DefaultFormat :: string
  outc_Colors :: bool
  outc_ProgressBars :: bool

record CorkscrewConfig =
  cc_Version :: string
  cc_Providers :: "(string, CloudProviderConfig) table option"
  cc_Dependencies :: DependenciesConfig
  cc_Database :: DatabaseConfig
  cc_Query :: QueryConfig
  cc_Compliance :: ComplianceConfig
  cc_Logging :: LoggingConfig
  cc_Output :: OutputConfig

definition DefaultConfigFileName :: string where
  "DefaultConfigFileName = ''corkscrew.yaml''"

definition defaultConfigYAML :: string where
  "defaultConfigYAML = strings_Join [
    ''# Corkscrew Configuration File'', ''version: \"2.0\"'', [], ''providers:'', ''  aws:'', ''    enabled: true'', ''    regions:'',
    ''      - \"us-east-1\"'', ''      - \"us-west-2\"'', ''    services:'', ''      - s3'', ''      - ec2'', ''      - lambda'',
    ''      - iam'', ''      - rds'', ''      - dynamodb'', [], ''  azure:'', ''    enabled: false'', ''    regions:'',
    ''      - \"eastus\"'', ''    services:'', ''      - storage'', ''      - compute'', [], ''  gcp:'', ''    enabled: false'',
    ''    regions:'', ''      - \"us-central1-a\"'', ''    services:'', ''      - storage'', ''      - compute'', [], ''  kubernetes:'',
    ''    enabled: false'', ''    regions:'', ''      - \"default\"'', ''    services:'', ''      - pods'', ''      - services'', [],
    ''  cloudflare:'', ''    enabled: false'', ''    regions:'', ''      - \"global\"'', ''    services:'', ''      - accounts'',
    ''      - zones'', ''      - dns'', ''      - workers'', ''      - storage'', ''      - data'', [], ''dependencies:'', ''  protoc:'',
    ''    version: \"25.3\"'', ''    auto_download: true'', ''  duckdb:'', ''    version: \"1.5.2\"'', ''    auto_download: true'', [],
    ''database:'', ''  path: \"~/.corkscrew/db/corkscrew.duckdb\"'', ''  auto_create: true'', [], ''output:'',
    ''  default_format: \"table\"'', ''  colors: true'', ''  progress_bars: true'', []] [CHR 0x0A]"

subsection \<open>Defaults\<close>

definition provider_defaults :: "CloudProviderConfig \<Rightarrow> CloudProviderConfig" where
  "provider_defaults p =
     (let p = (if cp_Regions p = [] \<and> cp_DefaultRegion p \<noteq> [] then p\<lparr>cp_Regions := [cp_DefaultRegion p]\<rparr> else p) in
      if cp_DefaultRegion p = [] \<and> cp_Regions p \<noteq> [] then p\<lparr>cp_DefaultRegion := hd (cp_Regions p)\<rparr> else p)"

definition fill_defaults :: "(string, CloudProviderConfig) table \<Rightarrow> CorkscrewConfig \<Rightarrow> CorkscrewConfig" where
  "fill_defaults providers c = (let deps = cc_Dependencies c in
     c\<lparr>cc_Version := (if cc_Version c = [] then ''2.0'' else cc_Version c),
       cc_Providers := Some (map (\<lambda>(name, p). (name, provider_defaults p)) providers),
       cc_Dependencies := \<lparr>
         deps_Protoc = (if dep_Version (deps_Protoc deps) = [] then \<lparr>dep_Version = ''25.3'', dep_AutoDownload = True\<rparr> else deps_Protoc deps),
         deps_DuckDB = (if dep_Version (deps_DuckDB deps) = [] then \<lparr>dep_Version = ''1.5.2'', dep_AutoDownload = True\<rparr> else deps_DuckDB deps)\<rparr>,
       cc_Output := (if outc_DefaultFormat (cc_Output c) = [] then (cc_Output c)\<lparr>outc_DefaultFormat := ''table''\<rparr> else cc_Output c),
       cc_Database := (if dbc_Path (cc_Database c) = [] then (cc_Database c)\<lparr>dbc_Path := ''~/.corkscrew/db/corkscrew.duckdb''\<rparr>
         else cc_Database c)\<rparr>)"

text \<open>
  \<open>ApplyDefaults\<close> and \<open>DefaultCorkscrewConfig\<close> call each other: \<open>None\<close> is the failed assertion on the built-in
  configuration, or never returning if that configuration had no providers.
\<close>

partial_function (option) ApplyDefaults :: "(string \<Rightarrow> string + CorkscrewConfig) \<Rightarrow> CorkscrewConfig \<Rightarrow> CorkscrewConfig panics" where
  "ApplyDefaults unmarshal c = (case cc_Providers c of
     Some providers \<Rightarrow> Some (fill_defaults providers c)
   | None \<Rightarrow> (case unmarshal defaultConfigYAML of
       Inl _ \<Rightarrow> None
     | Inr d \<Rightarrow> (ApplyDefaults unmarshal d) \<bind> (\<lambda>d. Some (fill_defaults (the (cc_Providers d)) c))))"

declare ApplyDefaults.simps [code]

definition DefaultCorkscrewConfig :: "(string \<Rightarrow> string + CorkscrewConfig) \<Rightarrow> CorkscrewConfig panics" where
  "DefaultCorkscrewConfig unmarshal = (case unmarshal defaultConfigYAML of Inl _ \<Rightarrow> None | Inr d \<Rightarrow> ApplyDefaults unmarshal d)"

subsection \<open>Loading\<close>

record config_env =
  ce_config_file :: string
  ce_home :: string
  ce_exists :: "string \<Rightarrow> bool"
  ce_read :: "string \<Rightarrow> string + string"
  ce_unmarshal :: "string \<Rightarrow> string + CorkscrewConfig"

datatype config_error = ConfigFileMissing string | NoConfigFile | ReadConfig string string | ParseConfig string string

definition config_candidates :: "string \<Rightarrow> string list" where
  "config_candidates homeDir = [''corkscrew.yaml'', ''corkscrew.yml'', ''.corkscrew.yaml'', ''.corkscrew.yml'',
     filepath_Join [homeDir, ''.corkscrew'', ''config.yaml'']]"

definition ResolveCorkscrewConfigPath :: "config_env \<Rightarrow> config_error + string" where
  "ResolveCorkscrewConfigPath env = (let configFile = strings_TrimSpace (ce_config_file env) in
     if configFile \<noteq> [] then (if ce_exists env configFile then Inr configFile else Inl (ConfigFileMissing configFile))
     else (case find (ce_exists env) (config_candidates (ce_home env)) of None \<Rightarrow> Inl NoConfigFile | Some c \<Rightarrow> Inr c))"

definition LoadCorkscrewConfig :: "config_env \<Rightarrow> string \<Rightarrow> (config_error + CorkscrewConfig) panics" where
  "LoadCorkscrewConfig env configPath =
     (case (if strings_TrimSpace configPath = [] then ResolveCorkscrewConfigPath env else Inr configPath) of
        Inl err \<Rightarrow> Some (Inl err)
      | Inr path \<Rightarrow> (case ce_read env path of
          Inl err \<Rightarrow> Some (Inl (ReadConfig path err))
        | Inr data \<Rightarrow> (case ce_unmarshal env data of
            Inl err \<Rightarrow> Some (Inl (ParseConfig path err))
          | Inr c \<Rightarrow> map_option Inr (ApplyDefaults (ce_unmarshal env) c))))"

subsection \<open>What a provider is configured with\<close>

datatype provider_config_error = ProviderNotConfigured string | ProviderDisabled string

definition provider_config :: "CorkscrewConfig \<Rightarrow> string \<Rightarrow> CloudProviderConfig option" where
  "provider_config c name = (case cc_Providers c of None \<Rightarrow> None | Some t \<Rightarrow> map_of t name)"

definition enabled_config :: "CorkscrewConfig \<Rightarrow> string \<Rightarrow> provider_config_error + CloudProviderConfig" where
  "enabled_config c name = (case provider_config c name of
     None \<Rightarrow> Inl (ProviderNotConfigured name)
   | Some p \<Rightarrow> if \<not> cp_Enabled p then Inl (ProviderDisabled name) else Inr p)"

definition GetRegionsForProvider :: "CorkscrewConfig \<Rightarrow> string \<Rightarrow> provider_config_error + string list" where
  "GetRegionsForProvider c name = map_sum id cp_Regions (enabled_config c name)"

definition GetServicesForProvider :: "CorkscrewConfig \<Rightarrow> string \<Rightarrow> provider_config_error + string list" where
  "GetServicesForProvider c name = map_sum id cp_Services (enabled_config c name)"

definition IsProviderEnabled :: "CorkscrewConfig \<Rightarrow> string \<Rightarrow> bool" where
  "IsProviderEnabled c name \<longleftrightarrow> (case provider_config c name of None \<Rightarrow> False | Some p \<Rightarrow> cp_Enabled p)"

definition ProviderInitializationConfig :: "CorkscrewConfig \<Rightarrow> string \<Rightarrow> config" where
  "ProviderInitializationConfig c name = (case provider_config c name of None \<Rightarrow> [] | Some p \<Rightarrow> cloneStringMap (cp_Config p))"

subsection \<open>Defaults are complete and stable\<close>

lemma provider_defaults_Regions: "cp_Regions (provider_defaults p) = [] \<longleftrightarrow> cp_Regions p = [] \<and> cp_DefaultRegion p = []"
  by (cases "cp_Regions p = []"; cases "cp_DefaultRegion p = []") (simp_all add: provider_defaults_def Let_def)

lemma provider_defaults_idem: "provider_defaults (provider_defaults p) = provider_defaults p"
  by (cases "cp_Regions p = []"; cases "cp_DefaultRegion p = []"; cases "hd (cp_Regions p) = []")
     (simp_all add: provider_defaults_def Let_def)

text \<open>The parts that are defaulted, one by one.\<close>

lemma fill_defaults_fields [simp]:
  "cc_Providers (fill_defaults t c) = Some (map (\<lambda>(name, p). (name, provider_defaults p)) t)"
  "cc_Version (fill_defaults t c) \<noteq> []" "dbc_Path (cc_Database (fill_defaults t c)) \<noteq> []"
  "outc_DefaultFormat (cc_Output (fill_defaults t c)) \<noteq> []"
  "dep_Version (deps_Protoc (cc_Dependencies (fill_defaults t c))) \<noteq> []"
  "dep_Version (deps_DuckDB (cc_Dependencies (fill_defaults t c))) \<noteq> []"
  by (simp_all add: fill_defaults_def Let_def)

lemma fill_defaults_complete:
  assumes "cc_Version c \<noteq> []" "dbc_Path (cc_Database c) \<noteq> []" "outc_DefaultFormat (cc_Output c) \<noteq> []"
    "dep_Version (deps_Protoc (cc_Dependencies c)) \<noteq> []" "dep_Version (deps_DuckDB (cc_Dependencies c)) \<noteq> []"
    "cc_Providers c = Some t" "map (\<lambda>(name, p). (name, provider_defaults p)) t = t"
  shows "fill_defaults t c = c"
  using assms by (simp add: fill_defaults_def Let_def)

lemma fill_defaults_idem: "cc_Providers (fill_defaults t c) = Some t' \<Longrightarrow> fill_defaults t' (fill_defaults t c) = fill_defaults t c"
proof -
  assume "cc_Providers (fill_defaults t c) = Some t'"
  then have t': "t' = map (\<lambda>(name, p). (name, provider_defaults p)) t" by simp
  have "map (\<lambda>(name, p). (name, provider_defaults p)) t' = t'"
    unfolding t' by (induction t) (auto simp: provider_defaults_idem)
  then show ?thesis by (intro fill_defaults_complete) (simp_all add: t')
qed

lemma ApplyDefaults_returns:
  assumes "unmarshal defaultConfigYAML = Inr d" "cc_Providers d = Some t"
  shows "\<exists>c'. ApplyDefaults unmarshal c = Some c' \<and> cc_Providers c' \<noteq> None \<and> ApplyDefaults unmarshal c' = Some c'"
proof -
  have step: "ApplyDefaults unmarshal x = Some (fill_defaults u x)" if "cc_Providers x = Some u" for x u
    by (subst ApplyDefaults.simps) (simp add: that)
  have "\<exists>u. ApplyDefaults unmarshal c = Some (fill_defaults u c)"
  proof (cases "cc_Providers c")
    case None
    then have "ApplyDefaults unmarshal c = Some (fill_defaults (the (cc_Providers (fill_defaults t d))) c)"
      by (subst ApplyDefaults.simps) (simp add: assms step)
    then show ?thesis by blast
  qed (auto dest: step)
  then obtain u where "ApplyDefaults unmarshal c = Some (fill_defaults u c)" by blast
  moreover have "ApplyDefaults unmarshal (fill_defaults u c) = Some (fill_defaults u c)"
    using step[OF fill_defaults_fields(1)] fill_defaults_idem[OF fill_defaults_fields(1)] by simp
  ultimately show ?thesis by simp
qed

end
