(* ===== verification/Scan_App.thy ===== *)
theory Scan_App imports Db_Connect Corkscrew_Config Scan_Store Scan_Executor Scan_Errors begin

text \<open>
  internal/app/scan/scan.go: the scan command. It resolves scopes and services from the request, the
  configuration and the provider's manifest, opens a plugin session, executes the scan, summarizes its gaps
  and stores it. The database is the target's; what opening a session answers, what the plugin answers and the
  clock are parameters. The observer's events are those of Scan_Executor and not repeated here.
\<close>

record Request =
  rq_Provider :: string
  rq_Services :: string
  rq_Regions :: string
  rq_OutputFormat :: string
  rq_ConfigPath :: string
  rq_MaxConcurrency :: int
  rq_SaveToFile :: bool
  rq_ListResources :: bool
  rq_DatabasePath :: string
  rq_DatabaseExplicit :: bool
  rq_QuackToken :: string
  rq_DBProviderTableOverride :: string
  rq_Namespace :: string
  rq_LabelSelector :: string
  rq_FieldSelector :: string
  rq_KubeconfigPath :: string
  rq_KubeContext :: string
  rq_IncludeRelationships :: bool

record PreparedRequest = Request +
  rq_ProviderName :: string
  rq_ServiceList :: "string list"
  rq_ScopeList :: "string list"

record ServiceGroupExpansion =
  sge_Name :: string
  sge_Services :: "string list"

subsection \<open>Services and scopes\<close>

definition serviceGroups :: "(string \<times> string list) list" where
  "serviceGroups = [
     (''compute'', [''ec2'', ''lambda'', ''ecs'', ''eks'', ''batch'']),
     (''storage'', [''s3'', ''ebs'', ''efs'', ''fsx'', ''backup'']),
     (''database'', [''rds'', ''dynamodb'', ''elasticache'', ''redshift'', ''documentdb'']),
     (''network'', [''vpc'', ''elb'', ''route53'', ''cloudfront'', ''apigateway'']),
     (''security'', [''iam'', ''kms'', ''secretsmanager'', ''acm'', ''guardduty'']),
     (''common'', [''s3'', ''ec2'', ''lambda'', ''rds'', ''iam'']),
     (''monitoring'', [''cloudwatch'', ''logs'', ''xray'', ''sns'', ''sqs''])]"

fun expand_items :: "string \<Rightarrow> string list \<Rightarrow> string list \<Rightarrow> ServiceGroupExpansion list \<Rightarrow> string list \<times> ServiceGroupExpansion list" where
  "expand_items provider [] expanded expansions = (expanded, expansions)"
| "expand_items provider (it # items) expanded expansions = (let it = strings_TrimSpace it in
     if it = [] then expand_items provider items expanded expansions
     else (case map_of serviceGroups it of
         Some members \<Rightarrow> if provider = ''aws''
           then expand_items provider items (expanded @ members) (expansions @ [\<lparr>sge_Name = it, sge_Services = members\<rparr>])
           else expand_items provider items (expanded @ [it]) expansions
       | None \<Rightarrow> expand_items provider items (expanded @ [it]) expansions))"

definition ExpandServices :: "string \<Rightarrow> string \<Rightarrow> string list \<times> ServiceGroupExpansion list" where
  "ExpandServices provider v = (if strings_TrimSpace v = [] then ([], [])
     else (case expand_items provider (strings_Split v (CHR '','')) [] [] of
       (expanded, expansions) \<Rightarrow> (dedupe_by (\<lambda>s. s) [] expanded, expansions)))"

definition ServiceGroupNames :: "string list" where
  "ServiceGroupNames = sort (map fst serviceGroups)"

definition splitList :: "string \<Rightarrow> string list" where
  "splitList v = filter (\<lambda>it. it \<noteq> []) (map strings_TrimSpace (strings_Split v (CHR '','')))"

definition Prepare :: "Request \<Rightarrow> (string \<Rightarrow> string) \<Rightarrow> PreparedRequest \<times> ServiceGroupExpansion list" where
  "Prepare request getenv =
     (let provider = strings_TrimSpace (rq_Provider request);
          se = ExpandServices provider (rq_Services request);
          path = strings_TrimSpace (rq_DatabasePath request);
          path = (if path = [] then strings_TrimSpace (getenv ''CORKSCREW_QUACK_URL'') else path);
          token = strings_TrimSpace (rq_QuackToken request);
          token = (if token = [] \<and> IsRemoteTarget path then strings_TrimSpace (getenv ''CORKSCREW_QUACK_TOKEN'') else token);
          request = request\<lparr>rq_Provider := provider, rq_ConfigPath := strings_TrimSpace (rq_ConfigPath request), rq_DatabasePath := path,
            rq_QuackToken := token, rq_DBProviderTableOverride := strings_TrimSpace (rq_DBProviderTableOverride request),
            rq_Namespace := strings_TrimSpace (rq_Namespace request), rq_LabelSelector := strings_TrimSpace (rq_LabelSelector request),
            rq_FieldSelector := strings_TrimSpace (rq_FieldSelector request), rq_KubeconfigPath := strings_TrimSpace (rq_KubeconfigPath request),
            rq_KubeContext := strings_TrimSpace (rq_KubeContext request)\<rparr> in
      (Request.extend request \<lparr>rq_ProviderName = provider, rq_ServiceList = fst se, rq_ScopeList = splitList (rq_Regions request)\<rparr>,
       snd se))"

text \<open>The token of the environment is read only for a target that the request or the environment names, not for the configuration's.\<close>

lemma config_target_no_env_token:
  "strings_TrimSpace (rq_DatabasePath request) = [] \<Longrightarrow> strings_TrimSpace (getenv ''CORKSCREW_QUACK_URL'') = [] \<Longrightarrow>
     rq_QuackToken (fst (Prepare request getenv)) = strings_TrimSpace (rq_QuackToken request)"
  by (simp add: Prepare_def Let_def Request.defs IsRemoteTarget_def quackScheme_def)

datatype persist_error = OpenSession string | StoreFailed store_error

datatype run_error =
    LoadConfig config_error
  | NotEnabled string
  | LoadRuntime string
  | ProviderMissing string
  | ScopesFromConfig provider_config_error
  | NoDefaultScopes string
  | ServicesFromConfig provider_config_error
  | SessionFailed open_error
  | CapabilityMissing "string \<times> string"
  | ExecutionFailed exec_error
  | ExplicitStore persist_error

definition resolveScopes :: "CorkscrewConfig \<Rightarrow> Descriptor \<Rightarrow> PreparedRequest \<Rightarrow> run_error + string list" where
  "resolveScopes c d request =
     (case (if rq_ScopeList request = [] then GetRegionsForProvider c (rq_ProviderName request) else Inr (rq_ScopeList request)) of
        Inl err \<Rightarrow> Inl (ScopesFromConfig err)
      | Inr scopes \<Rightarrow> (let scopes = (if scopes = [] \<or> scopes = [''all''] then pd_DefaultScopes d else scopes) in
          if scopes = [] then Inl (NoDefaultScopes (rq_ProviderName request)) else Inr scopes))"

definition resolveServices :: "CorkscrewConfig \<Rightarrow> PreparedRequest \<Rightarrow> run_error + string list" where
  "resolveServices c request = (if rq_ServiceList request \<noteq> [] then Inr (rq_ServiceList request)
     else map_sum ServicesFromConfig id (GetServicesForProvider c (rq_ProviderName request)))"

definition initializationConfig :: "CorkscrewConfig \<Rightarrow> PreparedRequest \<Rightarrow> string list \<Rightarrow> config" where
  "initializationConfig c request scopes =
     (let result = ProviderInitializationConfig c (rq_ProviderName request);
          result = (case scopes of [] \<Rightarrow> result | s # _ \<Rightarrow> AList.update ''region'' s result);
          result = (if rq_KubeconfigPath request \<noteq> [] then AList.update ''kubeconfig_path'' (rq_KubeconfigPath request) result else result) in
      if rq_KubeContext request \<noteq> [] then AList.update ''contexts'' (rq_KubeContext request) result else result)"

definition installedDescriptor :: "Descriptor list \<Rightarrow> string \<Rightarrow> Descriptor option" where
  "installedDescriptor ds name = find (\<lambda>d. pd_Name d = name \<and> pd_Installed d) ds"

subsection \<open>Warnings\<close>

datatype Warning =
    WarningPersistence persist_error
  | WarningRuntime string
  | WarningCoverage string
  | WarningIncomplete string

definition warningExamplesMax :: nat where
  "warningExamplesMax = 3"

definition examples :: "string list \<Rightarrow> string" where
  "examples entries = (let shown = (if length entries > warningExamplesMax then take warningExamplesMax entries else entries);
       shown_text = strings_Join shown ''; ''; hidden = length entries - length shown in
     if hidden > 0 then shown_text @ ''; and '' @ strconv_Itoa (int hidden) @ '' more'' else shown_text)"

definition coverage_gaps :: "ScopeResult list \<Rightarrow> string list" where
  "coverage_gaps scopes = concat (map (\<lambda>s. map (\<lambda>n. sr_Scope s @ '': '' @ n) (filter IsCoverageNotice (sr_Notices s))) scopes)"

definition incomplete_entries :: "ScopeResult list \<Rightarrow> string list" where
  "incomplete_entries scopes = concat (map (\<lambda>s. map (\<lambda>e. sr_Scope s @ '': '' @ e) (sr_Errors s)) scopes)"

definition scopeWarnings :: "ScopeResult list \<Rightarrow> Warning list" where
  "scopeWarnings scopes = (let coverage = coverage_gaps scopes; incomplete = incomplete_entries scopes in
     (if coverage \<noteq> [] then [WarningCoverage (strconv_Itoa (int (length coverage)) @
        '' item(s) are not readable with these credentials or are disabled; the scan covers everything else. Grant access to widen it. Examples: ''
        @ examples coverage)] else []) @
     (if incomplete \<noteq> [] then [WarningIncomplete (strconv_Itoa (int (length incomplete)) @
        '' error(s) mean resources may be missing; the scan is partial and will not resolve findings. Examples: ''
        @ examples incomplete)] else []))"

subsection \<open>Running a scan\<close>

text \<open>The scopes of the outcome are those of the execution, less the flag that says a scope was unreachable.\<close>

record app_outcome =
  ao_ID :: string
  ao_Provider :: string
  ao_Status :: Status
  ao_Resources :: "pb_Resource option list"
  ao_Scopes :: "ScopeResult list"
  ao_Stats :: "pb_ScanStats option"
  ao_Duration :: int
  ao_Warnings :: "Warning list"
  ao_Expansions :: "ServiceGroupExpansion list"
  ao_Persisted :: bool
  ao_Database :: string

record scan_world =
  sw_uuid :: string
  sw_getenv :: "string \<Rightarrow> string"
  sw_config :: config_env
  sw_runtime :: "string + Runtime"
  sw_launcher :: launcher
  sw_order :: "provider_registry \<Rightarrow> provider_registry"
  sw_sort :: "Descriptor slice_sorter"
  sw_close_order :: "(string, runtimeSession) table \<Rightarrow> (string, runtimeSession) table"
  sw_results :: "Plan \<Rightarrow> (nat \<times> ScopeResult) list"
  sw_ctx :: "string option"
  sw_elapsed :: int
  sw_runtime_warnings :: string
  sw_open :: "string \<Rightarrow> string option \<Rightarrow> string option"
  sw_now :: timestamp
  sw_store :: store_env

definition scan_plan :: "PreparedRequest \<Rightarrow> string list \<Rightarrow> string list \<Rightarrow> Plan" where
  "scan_plan request scopes services = \<lparr>plan_Provider = rq_ProviderName request, plan_Scopes = scopes, plan_Services = services,
     plan_Filters = [''namespace'' \<mapsto> rq_Namespace request, ''label_selector'' \<mapsto> rq_LabelSelector request,
       ''field_selector'' \<mapsto> rq_FieldSelector request],
     plan_IncludeRelationships = rq_IncludeRelationships request,
     plan_MaxConcurrency = (if rq_MaxConcurrency request \<le> 0 then 3 else rq_MaxConcurrency request),
     plan_ScopeTimeout = 5 * 60 * 1000000000\<rparr>"

definition scan_outcome :: "scan_world \<Rightarrow> string \<Rightarrow> PreparedRequest \<Rightarrow> Outcome \<Rightarrow> string list \<Rightarrow> string list \<Rightarrow> ScanOutcome" where
  "scan_outcome w scanID request execution services scopes = \<lparr>so_ID = scanID, so_Provider = rq_ProviderName request, so_Services = services,
     so_Scopes = scopes, so_FailedScopes = map sr_Scope (filter (\<lambda>s. sr_Errors s \<noteq> []) (out_Scopes execution)),
     so_Status = (if out_Status execution = StatusPartial then ScanStatusPartial
       else if out_Status execution = StatusFailed then ScanStatusFailed else ScanStatusCompleted),
     so_StartedAt = Some (sw_now w - out_Duration execution), so_EndedAt = Some (sw_now w), so_Resources = out_Resources execution\<rparr>"

definition persist :: "scan_world \<Rightarrow> string \<Rightarrow> PreparedRequest \<Rightarrow> Outcome \<Rightarrow> string list \<Rightarrow> string list \<Rightarrow> string \<Rightarrow> string \<Rightarrow> store_db \<Rightarrow>
    persist_error option \<times> store_db" where
  "persist w scanID request execution services scopes target manifestTable db =
     (let token = (if rq_QuackToken request \<noteq> [] \<and> IsRemoteTarget target then Some (rq_QuackToken request) else None) in
      case sw_open w target token of
        Some err \<Rightarrow> (Some (OpenSession err), db)
      | None \<Rightarrow> (let table = strings_TrimSpace (rq_DBProviderTableOverride request);
              table = (if table = [] then manifestTable else table) in
          case PersistScanOutcome (sw_store w) (scan_outcome w scanID request execution services scopes) table db of
            (err, db) \<Rightarrow> (map_option StoreFailed err, db)))"

text \<open>What follows a scan that was executed: the warnings and the database.\<close>

definition finish_scan :: "scan_world \<Rightarrow> PreparedRequest \<Rightarrow> CorkscrewConfig \<Rightarrow> Descriptor \<Rightarrow> string list \<Rightarrow> string list \<Rightarrow>
    Outcome \<times> exec_error option \<Rightarrow> app_outcome \<Rightarrow> store_db \<Rightarrow> run_error option \<times> app_outcome \<times> store_db" where
  "finish_scan w request c d scopes services x outcome db =
     (let execution = fst x; executionErr = map_option ExecutionFailed (snd x); message = strings_TrimSpace (sw_runtime_warnings w);
          outcome = outcome\<lparr>ao_Status := out_Status execution, ao_Resources := out_Resources execution, ao_Scopes := out_Scopes execution,
            ao_Stats := out_Stats execution, ao_Duration := out_Duration execution,
            ao_Warnings := ao_Warnings outcome @ scopeWarnings (out_Scopes execution) @ (if message \<noteq> [] then [WarningRuntime message] else [])\<rparr>;
          target = strings_TrimSpace (rq_DatabasePath request);
          target = (if target = [] then strings_TrimSpace (dbc_Path (cc_Database c)) else target) in
      if target = [] then (executionErr, outcome, db)
      else (case persist w (ao_ID outcome) request execution services scopes target (pd_ResourceTable d) db of
          (Some err, db) \<Rightarrow> if rq_DatabaseExplicit request then (Some (ExplicitStore err), outcome, db)
            else (executionErr, outcome\<lparr>ao_Warnings := ao_Warnings outcome @ [WarningPersistence err]\<rparr>, db)
        | (None, db) \<Rightarrow> (executionErr, outcome\<lparr>ao_Persisted := True, ao_Database := target\<rparr>, db)))"

definition run_with_runtime :: "scan_world \<Rightarrow> PreparedRequest \<Rightarrow> CorkscrewConfig \<Rightarrow> app_outcome \<Rightarrow> Runtime \<Rightarrow> store_db \<Rightarrow>
    (run_error option \<times> app_outcome \<times> Runtime \<times> store_db) panics" where
  "run_with_runtime w request c outcome rt db =
     (case installedDescriptor (Runtime_List (sw_order w) (sw_sort w) rt) (rq_ProviderName request) of
        None \<Rightarrow> Some (Some (ProviderMissing (rq_ProviderName request)), outcome, rt, db)
      | Some d \<Rightarrow> (case resolveScopes c d request of
          Inl err \<Rightarrow> Some (Some err, outcome, rt, db)
        | Inr scopes \<Rightarrow> (case resolveServices c request of
            Inl err \<Rightarrow> Some (Some err, outcome, rt, db)
          | Inr services \<Rightarrow> (case Open (sw_launcher w) (rq_ProviderName request) (initializationConfig c request scopes) rt of
              (Inl err, rt) \<Rightarrow> Some (Some (SessionFailed err), outcome, rt, db)
            | (Inr session, rt) \<Rightarrow> (case Require session ''batch_scan'' of
                Some err \<Rightarrow> Some (Some (CapabilityMissing err), outcome, rt, db)
              | None \<Rightarrow> (let plan = scan_plan request scopes services in
                  case Execute False plan (sw_results w plan) (sw_ctx w) (sw_elapsed w) of
                    None \<Rightarrow> None
                  | Some x \<Rightarrow> (case finish_scan w request c d scopes services x outcome db of
                      (err, outcome, db) \<Rightarrow> Some (err, outcome, rt, db))))))))"

definition Run :: "scan_world \<Rightarrow> Request \<Rightarrow> store_db \<Rightarrow> (run_error option \<times> app_outcome \<times> Runtime option \<times> store_db) panics" where
  "Run w request db =
     (case Prepare request (sw_getenv w) of (prepared, expansions) \<Rightarrow>
       (let outcome = \<lparr>ao_ID = sw_uuid w, ao_Provider = rq_ProviderName prepared, ao_Status = StatusUnset, ao_Resources = [], ao_Scopes = [],
              ao_Stats = None, ao_Duration = 0, ao_Warnings = [], ao_Expansions = expansions, ao_Persisted = False, ao_Database = []\<rparr> in
        case LoadCorkscrewConfig (sw_config w) (rq_ConfigPath prepared) of
          None \<Rightarrow> None
        | Some (Inl err) \<Rightarrow> Some (Some (LoadConfig err), outcome, None, db)
        | Some (Inr c) \<Rightarrow>
            if \<not> IsProviderEnabled c (rq_ProviderName prepared) then Some (Some (NotEnabled (rq_ProviderName prepared)), outcome, None, db)
            else (case sw_runtime w of
                Inl err \<Rightarrow> Some (Some (LoadRuntime err), outcome, None, db)
              | Inr rt \<Rightarrow> map_option (\<lambda>(err, outcome, rt, db). (err, outcome, Some (snd (Runtime_Close (sw_launcher w) (sw_close_order w) rt)), db))
                  (run_with_runtime w prepared c outcome rt db))))"

subsection \<open>What a run comes to\<close>

text \<open>The runtime a scan hands back is the one it was given after at most one \<open>Open\<close> and one \<open>Close\<close>.\<close>

lemma initializationConfig_ok: "config_ok (initializationConfig c request scopes)"
proof -
  have "config_ok (ProviderInitializationConfig c name)" for name
    by (cases "provider_config c name") (simp_all add: ProviderInitializationConfig_def, simp add: config_ok_def)
  then show ?thesis by (simp add: initializationConfig_def Let_def split: list.split)
qed

lemma run_with_runtime_reachable:
  assumes "run_with_runtime w request c outcome rt db = Some (err, out, rt', db')" "runtime_reachable (sw_launcher w) reg rt"
  shows "runtime_reachable (sw_launcher w) reg rt'"
proof -
  have "rt' = rt \<or> (\<exists>scopes. rt' = snd (Open (sw_launcher w) (rq_ProviderName request) (initializationConfig c request scopes) rt))"
    using assms(1) by (auto simp: run_with_runtime_def Let_def split: option.splits sum.splits prod.splits) (metis snd_conv)+
  with opened[OF assms(2) initializationConfig_ok] assms(2) show ?thesis by auto
qed

lemma closed_runtime:
  assumes "runtime_reachable la reg r" "mset (order (rn_sessions r)) = mset (rn_sessions r)"
  shows "rn_closed (snd (Runtime_Close la order r)) \<and> running (rn_events (snd (Runtime_Close la order r))) = {}"
proof -
  obtain err r' where e: "Runtime_Close la order r = (err, r')" by (cases "Runtime_Close la order r")
  from Runtime_Close_ok[OF reachable_ok[OF assms(1)] _ this] assms(2) e show ?thesis by simp
qed

lemma Run_closed:
  assumes "Run w request db = Some (err, out, Some r, db')" "\<And>rt0. sw_runtime w = Inr rt0 \<Longrightarrow> runtime_reachable (sw_launcher w) reg rt0"
    and "\<And>entries. mset (sw_close_order w entries) = mset entries"
  shows "rn_closed r \<and> running (rn_events r) = {}"
proof -
  obtain rt0 prepared c outcome e out' rt' db1 where "sw_runtime w = Inr rt0" "run_with_runtime w prepared c outcome rt0 db = Some (e, out', rt', db1)"
      "r = snd (Runtime_Close (sw_launcher w) (sw_close_order w) rt')"
    using assms(1) by (auto simp: Run_def Let_def split: option.splits sum.splits prod.splits if_splits)
  then show ?thesis
    using closed_runtime[of "sw_launcher w" reg rt' "sw_close_order w"] run_with_runtime_reachable[of w prepared c outcome rt0 db e out' rt' db1 reg]
      assms(2,3) by blast
qed

lemma resolveScopes_ne: "resolveScopes c d request = Inr scopes \<Longrightarrow> scopes \<noteq> []"
  by (auto simp: resolveScopes_def Let_def split: sum.splits if_splits)

definition fresh_outcome :: "app_outcome \<Rightarrow> bool" where
  "fresh_outcome out \<longleftrightarrow> ao_Status out = StatusUnset \<and> ao_Scopes out = [] \<and> \<not> ao_Persisted out \<and> ao_Warnings out = []"

text \<open>A run either stops before the scan, and then stores nothing, or executes it and finishes.\<close>

definition stopped_early :: "run_error option \<Rightarrow> app_outcome \<Rightarrow> store_db \<Rightarrow> store_db \<Rightarrow> bool" where
  "stopped_early err out db db' \<longleftrightarrow> err \<noteq> None \<and> fresh_outcome out \<and> db' = db"

definition finished :: "scan_world \<Rightarrow> PreparedRequest \<Rightarrow> run_error option \<Rightarrow> app_outcome \<Rightarrow> store_db \<Rightarrow> store_db \<Rightarrow> bool" where
  "finished w request err out db db' \<longleftrightarrow> (\<exists>c d scopes services x outcome. scopes \<noteq> [] \<and> fresh_outcome outcome \<and>
     ao_Provider outcome = rq_ProviderName request \<and>
     Execute False (scan_plan request scopes services) (sw_results w (scan_plan request scopes services)) (sw_ctx w) (sw_elapsed w) = Some x \<and>
     finish_scan w request c d scopes services x outcome db = (err, out, db'))"

lemma run_with_runtime_cases:
  assumes "run_with_runtime w request c outcome rt db = Some (err, out, rt', db')" "fresh_outcome outcome"
    "ao_Provider outcome = rq_ProviderName request"
  shows "stopped_early err out db db' \<or> finished w request err out db db'"
proof -
  note run = assms(1)[unfolded run_with_runtime_def]
  obtain d where d: "installedDescriptor (Runtime_List (sw_order w) (sw_sort w) rt) (rq_ProviderName request) = Some d \<or>
      stopped_early err out db db'"
    using run assms(2) by (auto simp: stopped_early_def split: option.splits)
  show ?thesis
  proof (cases "stopped_early err out db db'")
    case False
    with d have d: "installedDescriptor (Runtime_List (sw_order w) (sw_sort w) rt) (rq_ProviderName request) = Some d" by simp
    obtain scopes where sc: "resolveScopes c d request = Inr scopes"
      using run d False assms(2) by (cases "resolveScopes c d request") (auto simp: stopped_early_def)
    obtain services where sv: "resolveServices c request = Inr services"
      using run d sc False assms(2) by (cases "resolveServices c request") (auto simp: stopped_early_def)
    obtain session rt1 where s: "Open (sw_launcher w) (rq_ProviderName request) (initializationConfig c request scopes) rt = (Inr session, rt1)"
      using run d sc sv False assms(2) by (auto simp: stopped_early_def split: prod.splits sum.splits)
    have q: "Require session ''batch_scan'' = None"
      using run d sc sv s False assms(2) by (auto simp: stopped_early_def split: option.splits)
    let ?plan = "scan_plan request scopes services"
    obtain x where "Execute False ?plan (sw_results w ?plan) (sw_ctx w) (sw_elapsed w) = Some x"
        "finish_scan w request c d scopes services x outcome db = (err, out, db')"
      using run d sc sv s q by (auto simp: Let_def split: option.splits prod.splits)
    with resolveScopes_ne[OF sc] assms(2,3) have "finished w request err out db db'" unfolding finished_def by blast
    then show ?thesis ..
  qed simp
qed

lemma Run_cases:
  assumes "Run w request db = Some (err, out, rt, db')"
  shows "stopped_early err out db db' \<or> finished w (fst (Prepare request (sw_getenv w))) err out db db' \<and> rt \<noteq> None"
proof -
  obtain prepared expansions where p: "Prepare request (sw_getenv w) = (prepared, expansions)" by fastforce
  define outcome where "outcome = \<lparr>ao_ID = sw_uuid w, ao_Provider = rq_ProviderName prepared, ao_Status = StatusUnset, ao_Resources = [],
      ao_Scopes = [], ao_Stats = None, ao_Duration = 0, ao_Warnings = [], ao_Expansions = expansions, ao_Persisted = False, ao_Database = []\<rparr>"
  have fresh: "fresh_outcome outcome" "ao_Provider outcome = rq_ProviderName prepared" by (simp_all add: fresh_outcome_def outcome_def)
  note run = assms[unfolded Run_def p prod.case Let_def outcome_def[symmetric]]
  show ?thesis
  proof (cases "stopped_early err out db db'")
    case False
    obtain c where c: "LoadCorkscrewConfig (sw_config w) (rq_ConfigPath prepared) = Some (Inr c)"
      using run False fresh by (auto simp: stopped_early_def split: option.splits sum.splits)
    have e: "IsProviderEnabled c (rq_ProviderName prepared)"
      using run c False fresh by (auto simp: stopped_early_def split: if_splits)
    obtain rt0 where rt0: "sw_runtime w = Inr rt0"
      using run c e False fresh by (auto simp: stopped_early_def split: sum.splits)
    obtain rt1 where "run_with_runtime w prepared c outcome rt0 db = Some (err, out, rt1, db')"
        "rt = Some (snd (Runtime_Close (sw_launcher w) (sw_close_order w) rt1))"
      using run c e rt0 by auto
    with run_with_runtime_cases[OF this(1) fresh] False show ?thesis by (auto simp: p)
  qed simp
qed

lemma scopeWarnings_incomplete:
  "(\<exists>msg. WarningIncomplete msg \<in> set (scopeWarnings scopes)) \<longleftrightarrow> (\<exists>s \<in> set scopes. sr_Errors s \<noteq> [])"
proof -
  have "incomplete_entries scopes \<noteq> [] \<longleftrightarrow> (\<exists>s \<in> set scopes. sr_Errors s \<noteq> [])" by (auto simp: incomplete_entries_def)
  then show ?thesis by (auto simp: scopeWarnings_def Let_def)
qed

text \<open>
  What a finished run did: the outcome is the execution's, and the database holds the scan or is as it was.
\<close>

lemma finish_scan_cases:
  assumes "finish_scan w request c d scopes services x outcome db = (err, out, db')" "fresh_outcome outcome"
  shows "ao_Status out = out_Status (fst x) \<and> ao_Scopes out = out_Scopes (fst x) \<and> ao_Resources out = out_Resources (fst x) \<and>
    ao_ID out = ao_ID outcome \<and> ao_Provider out = ao_Provider outcome \<and>
    set (scopeWarnings (out_Scopes (fst x))) \<subseteq> set (ao_Warnings out) \<and>
    (if ao_Persisted out
     then (\<exists>table. PersistScanOutcome (sw_store w) (scan_outcome w (ao_ID out) request (fst x) services scopes) table db = (None, db')) \<and>
       err = map_option ExecutionFailed (snd x)
     else db' = db \<and> (rq_DatabaseExplicit request \<and> strings_TrimSpace (rq_DatabasePath request) \<noteq> [] \<longrightarrow> err \<noteq> None))"
proof -
  define target where "target = (if strings_TrimSpace (rq_DatabasePath request) = [] then strings_TrimSpace (dbc_Path (cc_Database c))
      else strings_TrimSpace (rq_DatabasePath request))"
  obtain e db1 where p: "persist w (ao_ID outcome) request (fst x) services scopes target (pd_ResourceTable d) db = (e, db1)" by fastforce
  have p1: "db1 = db" if "e \<noteq> None"
    using p that by (auto simp: persist_def PersistScanOutcome_def StoreScanOutcome_def Let_def transaction_Some split: option.splits prod.splits)
  have p2: "\<exists>table. PersistScanOutcome (sw_store w) (scan_outcome w (ao_ID outcome) request (fst x) services scopes) table db = (None, db1)" if "e = None"
    using p that by (auto simp: persist_def Let_def split: option.splits prod.splits)
  note fin = assms(1)[unfolded finish_scan_def Let_def target_def[symmetric]]
  show ?thesis
  proof (cases "target = []")
    case True
    with fin assms(2) show ?thesis by (auto simp: fresh_outcome_def target_def split: if_splits)
  next
    case False
    then show ?thesis
    proof (cases e)
      case None
      with fin False p p2 assms(2) show ?thesis by (auto simp: fresh_outcome_def target_def)
    next
      case (Some a)
      with fin False p p1 assms(2) show ?thesis by (auto simp: fresh_outcome_def target_def split: if_splits)
    qed
  qed
qed

text \<open>The names the store joins and splits again.\<close>

definition plain_outcome :: "app_outcome \<Rightarrow> bool" where
  "plain_outcome out \<longleftrightarrow> plain_name (strings_ToLower (strings_TrimSpace (ao_Provider out))) \<and>
     list_all (\<lambda>r. plain_name (strings_ToLower (strings_TrimSpace (res_Provider r)))) (named_resources (ao_Resources out))"

lemma plain_outcome_providers:
  "plain_outcome out \<Longrightarrow> som_Provider m = ao_Provider out \<Longrightarrow> plain_providers m (named_resources (ao_Resources out))"
  by (auto simp: plain_outcome_def plain_providers_def observation_provider_def list_all_iff Let_def)

text \<open>A run returns whatever the schedule and the answers, unless the built-in configuration does not parse.\<close>

lemma Run_returns:
  assumes "\<And>plan. plan_Scopes plan \<noteq> [] \<Longrightarrow> dispatchScopes plan answers (exec_concurrency plan) (sw_results w plan)"
    and "\<And>path. LoadCorkscrewConfig (sw_config w) path \<noteq> None"
  shows "Run w request db \<noteq> None"
proof -
  have run: "(run_with_runtime w prepared c outcome rt db = None) = False" for prepared c outcome rt
  proof -
    have ex: "(Execute False (scan_plan prepared scopes services) (sw_results w (scan_plan prepared scopes services)) (sw_ctx w) (sw_elapsed w) = None)
        = False" if "scopes \<noteq> []" for scopes services
      using execution_outcome[OF _ assms(1), of "scan_plan prepared scopes services" "sw_ctx w" "sw_elapsed w"] that
      by (auto simp: scan_plan_def)
    show ?thesis
      by (auto simp: run_with_runtime_def Let_def ex dest: resolveScopes_ne split: option.splits sum.splits prod.splits)
  qed
  have load: "(LoadCorkscrewConfig (sw_config w) path = None) = False" for path using assms(2) by simp
  have "\<exists>y. run_with_runtime w prepared c outcome rt db = Some y" for prepared c outcome rt using run by auto
  then have runs: "\<exists>a aa b ab. run_with_runtime w prepared c outcome rt db = Some (a, aa, ab, b)" for prepared c outcome rt
    by (metis prod_cases4)
  show ?thesis by (auto simp: Run_def Let_def load runs split: prod.splits option.splits sum.splits)
qed

text \<open>
  C4. A scan is recorded as what it observed. Whatever the schedule and the answers, if a run stores its scan, the
  row is a complete snapshot exactly when the context was alive and no scope has an error, it counts the scopes
  that failed and the resources found, and the run reports an error exactly when the row is not a complete
  snapshot, also when it was the context that was cancelled. A scope with an error always raises the warning that
  resources may be missing; a cancelled scan in which no scope failed has the error only. If the scan is not
  stored the database is untouched, and an explicitly requested database that was not written is an error. A run
  that got as far as a scan hands back the runtime it used; it is closed, and each plugin process that was ever
  launched in it has been closed, provided the runtime came from its own operations (a new one does) and the
  map of sessions is ranged over once each.
\<close>

theorem scan_recorded_honestly:
  assumes "Run w request db = Some (err, out, rt, db')" "store_ok db" "plain_outcome out"
    and "\<And>plan. plan_Scopes plan \<noteq> [] \<Longrightarrow> dispatchScopes plan answers (exec_concurrency plan) (sw_results w plan)"
    and "\<And>rt0. sw_runtime w = Inr rt0 \<Longrightarrow> runtime_reachable (sw_launcher w) reg rt0"
    and "\<And>entries. mset (sw_close_order w entries) = mset entries"
  shows "(if ao_Persisted out
      then ao_Scopes out \<noteq> [] \<and> store_ok db' \<and>
        (\<exists>row. map_of (sd_scans db') (ao_ID out) = Some row \<and>
          (complete_row (mr_row row) \<longleftrightarrow> sw_ctx w = None \<and> (\<forall>s \<in> set (ao_Scopes out). sr_Errors s = [])) \<and>
          (err = None \<longleftrightarrow> complete_row (mr_row row)) \<and>
          mr_failed row = int (length (filter (\<lambda>s. sr_Errors s \<noteq> []) (ao_Scopes out))) \<and>
          srow_total (mr_row row) = int (length (ao_Resources out)))
      else db' = db \<and> (rq_DatabaseExplicit request \<and> strings_TrimSpace (rq_DatabasePath request) \<noteq> [] \<longrightarrow> err \<noteq> None)) \<and>
    ((\<exists>s \<in> set (ao_Scopes out). sr_Errors s \<noteq> []) \<longrightarrow> (\<exists>msg. WarningIncomplete msg \<in> set (ao_Warnings out))) \<and>
    (ao_Scopes out \<noteq> [] \<longrightarrow> rt \<noteq> None) \<and>
    (\<forall>r. rt = Some r \<longrightarrow> rn_closed r \<and> (\<forall>n path. Launched n path \<in> set (rn_events r) \<longrightarrow> ClosedProcess n \<in> set (rn_events r)))"
proof -
  define prepared where "prepared = fst (Prepare request (sw_getenv w))"
  have prep: "rq_DatabaseExplicit prepared = rq_DatabaseExplicit request"
      "strings_TrimSpace (rq_DatabasePath request) \<noteq> [] \<Longrightarrow> strings_TrimSpace (rq_DatabasePath prepared) \<noteq> []"
    by (simp_all add: prepared_def Prepare_def Let_def Request.defs)
  have "rn_closed r \<and> running (rn_events r) = {}" if "rt = Some r" for r
    using Run_closed[OF assms(1)[unfolded that] assms(5,6)] by blast
  then have closed: "\<forall>r. rt = Some r \<longrightarrow> rn_closed r \<and> (\<forall>n path. Launched n path \<in> set (rn_events r) \<longrightarrow> ClosedProcess n \<in> set (rn_events r))"
    by (auto simp: running_def)
  have runs: "stopped_early err out db db' \<or> finished w prepared err out db db' \<and> rt \<noteq> None" using Run_cases[OF assms(1)] prepared_def by blast
  show ?thesis
  proof (cases "stopped_early err out db db'")
    case True
    with closed show ?thesis by (auto simp: stopped_early_def fresh_outcome_def)
  next
    case False
    with runs have used: "rt \<noteq> None" by blast
    from False runs obtain c d scopes services x outcome where f: "scopes \<noteq> []" "fresh_outcome outcome" "ao_Provider outcome = rq_ProviderName prepared"
        "Execute False (scan_plan prepared scopes services) (sw_results w (scan_plan prepared scopes services)) (sw_ctx w) (sw_elapsed w) = Some x"
        "finish_scan w prepared c d scopes services x outcome db = (err, out, db')"
      unfolding finished_def by blast
    note fin = finish_scan_cases[OF f(5,2)]
    let ?plan = "scan_plan prepared scopes services"
    have ne: "plan_Scopes ?plan \<noteq> []" using f(1) by (simp add: scan_plan_def)
    obtain ex e where x: "x = (ex, e)" by (cases x)
    have o: "map sr_Scope (out_Scopes ex) = scopes" "(out_Status ex = StatusComplete) = (sw_ctx w = None \<and> (\<forall>r \<in> set (out_Scopes ex). sr_Errors r = []))"
        "out_Status ex \<noteq> StatusUnset" "(e = None) = (out_Status ex = StatusComplete)"
      using execution_outcome[OF ne assms(4)[OF ne], of "sw_ctx w" "sw_elapsed w"] f(4) x by (auto simp: scan_plan_def)
    have warn: "(\<exists>s \<in> set (ao_Scopes out). sr_Errors s \<noteq> []) \<longrightarrow> (\<exists>msg. WarningIncomplete msg \<in> set (ao_Warnings out))"
      using fin scopeWarnings_incomplete[of "out_Scopes ex"] by (auto simp: x)
    show ?thesis
    proof (cases "ao_Persisted out")
      case True
      let ?so = "scan_outcome w (ao_ID out) prepared ex services scopes"
      obtain table where per: "PersistScanOutcome (sw_store w) ?so table db = (None, db')" and err: "err = map_option ExecutionFailed e"
        using fin True by (auto simp: x)
      define m where "m = outcome_metadata (sw_store w) ?so"
      have res: "so_Resources ?so = ao_Resources out" using fin by (simp add: scan_outcome_def x)
      have plain: "plain_providers m (named_resources (so_Resources ?so))"
        unfolding res by (rule plain_outcome_providers[OF assms(3)]) (use fin f(3) in \<open>simp add: m_def outcome_metadata_def scan_outcome_def\<close>)
      have ok: "store_ok db'" using PersistScanOutcome_None[OF per assms(2) m_def plain] by metis
      have st: "(so_Status ?so = ScanStatusCompleted) = (out_Status ex = StatusComplete)"
        using o(3) by (cases "out_Status ex") (simp_all add: scan_outcome_def)
      obtain row where row: "map_of (sd_scans db') (ao_ID out) = Some row" "srow_status (mr_row row) = ScanStatus_text (so_Status ?so)"
          "srow_snapshot_complete (mr_row row) = Some (so_Status ?so = ScanStatusCompleted)"
          "srow_total (mr_row row) = int (length (ao_Resources out))" "mr_failed row = int (length (so_FailedScopes ?so))"
        using persisted_row[OF per assms(2) m_def plain] res by (auto simp: stored_row_def scan_outcome_def split: option.splits)
      have cr: "complete_row (mr_row row) \<longleftrightarrow> out_Status ex = StatusComplete"
        using row(2,3) st by (cases "so_Status ?so") (auto simp: complete_row_def)
      have "ao_Scopes out \<noteq> []" using fin o(1) f(1) by (auto simp: x)
      with row cr o ok err closed warn fin True used show ?thesis by (simp add: x scan_outcome_def)
    next
      case False
      with fin prep warn closed used show ?thesis by simp
    qed
  qed
qed

subsection \<open>An instance\<close>

definition demo_request :: Request where
  "demo_request = \<lparr>rq_Provider = ''aws'', rq_Services = ''storage'', rq_Regions = ''eu, us'', rq_OutputFormat = [], rq_ConfigPath = ''c.yaml'',
     rq_MaxConcurrency = 0, rq_SaveToFile = False, rq_ListResources = False, rq_DatabasePath = ''/db'', rq_DatabaseExplicit = True,
     rq_QuackToken = [], rq_DBProviderTableOverride = [], rq_Namespace = [], rq_LabelSelector = [], rq_FieldSelector = [],
     rq_KubeconfigPath = [], rq_KubeContext = [], rq_IncludeRelationships = True\<rparr>"

definition demo_config :: CorkscrewConfig where
  "demo_config = \<lparr>cc_Version = ''2.0'', cc_Providers = Some [(''aws'', \<lparr>cp_Enabled = True, cp_DefaultRegion = [], cp_Regions = [], cp_Services = [],
       cp_Config = []\<rparr>)],
     cc_Dependencies = \<lparr>deps_Protoc = \<lparr>dep_Version = [], dep_AutoDownload = False\<rparr>, deps_DuckDB = \<lparr>dep_Version = [], dep_AutoDownload = False\<rparr>\<rparr>,
     cc_Database = \<lparr>dbc_Path = [], dbc_AutoCreate = True\<rparr>, cc_Query = \<lparr>qc_Timeout = [], qc_StreamingThreshold = 0, qc_MaxMemory = []\<rparr>,
     cc_Compliance = \<lparr>compc_PacksDir = [], compc_AutoUpdate = False\<rparr>, cc_Logging = \<lparr>logc_Level = [], logc_Format = []\<rparr>,
     cc_Output = \<lparr>outc_DefaultFormat = [], outc_Colors = False, outc_ProgressBars = False\<rparr>\<rparr>"

definition demo_descriptor :: Descriptor where
  "demo_descriptor = \<lparr>pd_Name = ''aws'', pd_DisplayName = ''AWS'', pd_Description = [], pd_Version = ''1'', pd_Origin = OriginOfficial,
     pd_Installed = True, pd_ExecutablePath = ''/p/aws'', pd_Capabilities = [''batch_scan''], pd_DefaultScopes = [''us''],
     pd_ResourceTable = ''aws_resources''\<rparr>"

definition demo_world :: "(Plan \<Rightarrow> (nat \<times> ScopeResult) list) \<Rightarrow> scan_world" where
  "demo_world results = \<lparr>sw_uuid = ''s2'', sw_getenv = (\<lambda>_. []),
     sw_config = \<lparr>ce_config_file = [], ce_home = ''/h'', ce_exists = (\<lambda>_. False), ce_read = (\<lambda>_. Inr []), ce_unmarshal = (\<lambda>_. Inr demo_config)\<rparr>,
     sw_runtime = Inr (NewRuntime [(''aws'', demo_descriptor)]),
     sw_launcher = \<lparr>la_launch = (\<lambda>_ _. None), la_initialize = (\<lambda>_ _ _. Inr (InitResponse True [])), la_close = (\<lambda>_. None)\<rparr>,
     sw_order = id, sw_sort = insertion_sorter, sw_close_order = id, sw_results = results, sw_ctx = None, sw_elapsed = 5,
     sw_runtime_warnings = [], sw_open = (\<lambda>_ _. None), sw_now = 20, sw_store = Scan_Store.demo_env\<rparr>"

lemma demo_prepared:
  "fst (Prepare demo_request (\<lambda>_. [])) = Request.extend demo_request
     \<lparr>rq_ProviderName = ''aws'', rq_ServiceList = [''s3'', ''ebs'', ''efs'', ''fsx'', ''backup''], rq_ScopeList = [''eu'', ''us'']\<rparr>"
  by code_simp

lemma demo_config_loads: "LoadCorkscrewConfig (sw_config (demo_world results)) ''c.yaml'' = Some (Inr (fill_defaults (the (cc_Providers demo_config)) demo_config))"
  by (simp add: LoadCorkscrewConfig_def demo_world_def demo_config_def ApplyDefaults.simps strings_TrimSpace_def ascii_space_def)

definition demo_scan_plan :: Plan where
  "demo_scan_plan = scan_plan (fst (Prepare demo_request (\<lambda>_. []))) [''eu'', ''us''] [''s3'', ''ebs'', ''efs'', ''fsx'', ''backup'']"

lemma demo_executes:
  assumes "\<And>plan. plan_Scopes plan \<noteq> [] \<Longrightarrow> dispatchScopes plan (demo_answers []) (exec_concurrency plan) (results plan)"
  shows "\<exists>ex. Execute False demo_scan_plan (results demo_scan_plan) None 5 = Some (ex, None) \<and> out_Resources ex = [Some demo_bucket]"
proof -
  have scopes: "plan_Scopes demo_scan_plan = [''eu'', ''us'']" "exec_concurrency demo_scan_plan = 2"
    unfolding demo_scan_plan_def demo_prepared by (simp_all add: scan_plan_def exec_concurrency_def demo_request_def Request.defs)
  have "plan_Scopes demo_scan_plan \<noteq> []" by (simp add: scopes)
  from collect_dispatched[OF assms[OF this]] obtain reply where r: "\<forall>i < length (plan_Scopes demo_scan_plan). demo_answers [] i (reply i)"
    and coll: "collectScopeResults (results demo_scan_plan) (plan_Scopes demo_scan_plan) =
      Some (map (\<lambda>i. scanScope (plan_Scopes demo_scan_plan ! i) (reply i)) [0..<length (plan_Scopes demo_scan_plan)])" by blast
  from r have "reply 0 = demo_reply [] 0" "reply 1 = demo_reply [] 1" by (simp_all add: scopes)
  with coll have "collectScopeResults (results demo_scan_plan) [''eu'', ''us''] =
      Some [scanScope ''eu'' (demo_reply [] 0), scanScope ''us'' (demo_reply [] 1)]"
    by (simp add: scopes upt_rec)
  then show ?thesis
    unfolding Execute_def scopes
    by (simp add: demo_reply_def aggregateScopes_def assertMergedTotal_def aggregate_scope_def aggregate_zero_def dedupeResources_def
        resource_key_def ScopeResult_zero_def IsScanNotice_def IsCoverageNotice_def scan_prefix_defs Let_def)
qed

lemma demo_store_accepts:
  assumes "so_Resources out = [Some demo_bucket]" "so_ID out = ''s2''"
  shows "fst (PersistScanOutcome Scan_Store.demo_env out ''aws_resources'' db) = None"
proof -
  have t: "scanResourceTable demo_bucket ''aws_resources'' = Inr ''aws_resources''" by code_simp
  have a: "scan_adapter ''aws_resources'' = AdapterGeneric" by code_simp
  show ?thesis
    by (simp add: PersistScanOutcome_def StoreScanOutcome_def transaction_def store_outcome_body_def assms t store_resource_def a
        storeGenericScanResource_def exec_def Scan_Store.demo_env_def demo_bucket_def pb_Resource_zero_def storeScanObservations_def
        outcome_metadata_def observe_resource_def storeScanOutcomeMetadata_def Let_def strings_TrimSpace_def ascii_space_def
        t[unfolded demo_bucket_def pb_Resource_zero_def, simplified])
qed

lemma demo_run:
  assumes "\<And>plan. plan_Scopes plan \<noteq> [] \<Longrightarrow> dispatchScopes plan (demo_answers []) (exec_concurrency plan) (results plan)"
  shows "\<exists>out rt db'. Run (demo_world results) demo_request db = Some (None, out, rt, db') \<and> ao_Persisted out \<and>
    ao_Resources out = [Some demo_bucket] \<and> ao_Provider out = ''aws''"
proof -
  obtain ex where ex: "Execute False demo_scan_plan (results demo_scan_plan) None 5 = Some (ex, None)" "out_Resources ex = [Some demo_bucket]"
    using demo_executes[OF assms] by blast
  define p where "p = fst (Prepare demo_request (\<lambda>_. []))"
  have p: "rq_ProviderName p = ''aws''" "rq_ScopeList p = [''eu'', ''us'']" "rq_ServiceList p = [''s3'', ''ebs'', ''efs'', ''fsx'', ''backup'']"
      "rq_ConfigPath p = ''c.yaml''" "rq_DatabasePath p = ''/db''" "rq_DBProviderTableOverride p = []" "rq_QuackToken p = []"
    unfolding p_def demo_prepared by (simp_all add: demo_request_def Request.defs)
  obtain e where pe: "Prepare demo_request (\<lambda>_. []) = (p, e)" by (simp add: p_def prod_eq_iff)
  let ?c = "fill_defaults (the (cc_Providers demo_config)) demo_config"
  have enabled: "IsProviderEnabled ?c ''aws''"
    by (simp add: IsProviderEnabled_def provider_config_def demo_config_def provider_defaults_def Let_def)
  have list: "installedDescriptor (Runtime_List id insertion_sorter (NewRuntime [(''aws'', demo_descriptor)])) ''aws'' = Some demo_descriptor"
    by code_simp
  have plan: "scan_plan p [''eu'', ''us''] [''s3'', ''ebs'', ''efs'', ''fsx'', ''backup''] = demo_scan_plan" by (simp add: demo_scan_plan_def p_def)
  have sc: "resolveScopes ?c demo_descriptor p = Inr [''eu'', ''us'']" by (simp add: resolveScopes_def p)
  have sv: "resolveServices ?c p = Inr [''s3'', ''ebs'', ''efs'', ''fsx'', ''backup'']" by (simp add: resolveServices_def p)
  let ?w = "demo_world results" and ?rt = "NewRuntime [(''aws'', demo_descriptor)]" and ?s = "\<lparr>rs_descriptor = demo_descriptor, rs_process = 0\<rparr>"
  let ?scopes = "[''eu'', ''us'']" and ?services = "[''s3'', ''ebs'', ''efs'', ''fsx'', ''backup'']"
  have w: "sw_order ?w = id" "sw_sort ?w = insertion_sorter" "sw_results ?w = results" "sw_ctx ?w = None" "sw_elapsed ?w = 5"
      "sw_store ?w = Scan_Store.demo_env" "sw_open ?w t u = None" "sw_uuid ?w = ''s2''" "sw_getenv ?w = (\<lambda>_. [])" "sw_runtime ?w = Inr ?rt" for t u
    by (simp_all add: demo_world_def)
  have "\<exists>rt'. Open (sw_launcher ?w) ''aws'' (initializationConfig ?c p ?scopes) ?rt = (Inr ?s, rt')"
    by (simp add: Open_def NewRuntime_def Registry_Resolve_def start_process_def demo_world_def init_detail_def warn_once_def Let_def demo_descriptor_def)
  then obtain rt' where op: "Open (sw_launcher ?w) ''aws'' (initializationConfig ?c p ?scopes) ?rt = (Inr ?s, rt')" by blast
  have rq: "Require ?s ''batch_scan'' = None" by code_simp
  have "fst (PersistScanOutcome Scan_Store.demo_env (scan_outcome ?w ''s2'' p ex ?services ?scopes) ''aws_resources'' db) = None"
    by (rule demo_store_accepts) (simp_all add: scan_outcome_def ex(2))
  then obtain db' where per: "PersistScanOutcome Scan_Store.demo_env (scan_outcome ?w ''s2'' p ex ?services ?scopes) ''aws_resources'' db = (None, db')"
    by (metis prod.collapse)
  have fin: "\<exists>out. finish_scan ?w p ?c demo_descriptor ?scopes ?services (ex, None) outcome db = (None, out, db') \<and> ao_Persisted out \<and>
      ao_Resources out = [Some demo_bucket] \<and> ao_Provider out = ao_Provider outcome" if "ao_ID outcome = ''s2''" for outcome
    using per that
    by (simp add: finish_scan_def persist_def Let_def p w ex(2) strings_TrimSpace_def ascii_space_def demo_descriptor_def)
  have run: "run_with_runtime ?w p ?c outcome ?rt db =
      (case finish_scan ?w p ?c demo_descriptor ?scopes ?services (ex, None) outcome db of (err, outcome, db) \<Rightarrow> Some (err, outcome, rt', db))" for outcome
    by (simp add: run_with_runtime_def list p sc sv op rq plan ex(1) w Let_def)
  have load: "LoadCorkscrewConfig (sw_config ?w) ''c.yaml'' = Some (Inr ?c)" by (rule demo_config_loads)
  define outcome where "outcome = \<lparr>ao_ID = ''s2'', ao_Provider = ''aws'', ao_Status = StatusUnset, ao_Resources = [], ao_Scopes = [],
      ao_Stats = None, ao_Duration = 0, ao_Warnings = [], ao_Expansions = e, ao_Persisted = False, ao_Database = []\<rparr>"
  obtain out where out: "finish_scan ?w p ?c demo_descriptor ?scopes ?services (ex, None) outcome db = (None, out, db')" "ao_Persisted out"
      "ao_Resources out = [Some demo_bucket]" "ao_Provider out = ''aws''"
    using fin[of outcome] by (auto simp: outcome_def)
  have "Run ?w demo_request db = Some (None, out, Some (snd (Runtime_Close (sw_launcher ?w) (sw_close_order ?w) rt')), db')"
    by (simp add: Run_def w pe p load enabled run out(1) outcome_def[symmetric] Let_def)
  with out(2-) show ?thesis by blast
qed

lemma demo_runtime_reachable:
  "sw_runtime (demo_world results) = Inr rt0 \<Longrightarrow> runtime_reachable (sw_launcher (demo_world results)) [(''aws'', demo_descriptor)] rt0"
  using new[of "sw_launcher (demo_world results)" "[(''aws'', demo_descriptor)]"] by (simp add: demo_world_def)

theorem scan_recorded_honestly_witness:
  "\<exists>results out rt db'. Run (demo_world results) demo_request Scan_Store.demo_db = Some (None, out, rt, db') \<and> ao_Persisted out \<and>
     (\<exists>row. map_of (sd_scans db') (ao_ID out) = Some row \<and> complete_row (mr_row row) \<and> srow_total (mr_row row) = 1)"
proof -
  have "\<exists>results. plan_Scopes plan \<noteq> [] \<longrightarrow> dispatchScopes plan (demo_answers []) (exec_concurrency plan) results" for plan
    using dispatch_exists[of "exec_concurrency plan" "demo_answers []" plan] exec_concurrency_bounds[of plan] by auto
  then obtain results where r: "\<And>plan. plan_Scopes plan \<noteq> [] \<Longrightarrow> dispatchScopes plan (demo_answers []) (exec_concurrency plan) (results plan)"
    by metis
  obtain out rt db' where run: "Run (demo_world results) demo_request Scan_Store.demo_db = Some (None, out, rt, db')" "ao_Persisted out"
      "ao_Resources out = [Some demo_bucket]" "ao_Provider out = ''aws''"
    using demo_run[OF r] by blast
  have n: "named_resources (ao_Resources out) = [demo_bucket]"
    by (simp add: run(3) named_resources_def map_filter_simps demo_bucket_def pb_Resource_zero_def strings_TrimSpace_def ascii_space_def)
  have "plain_name ''aws''" by (simp add: plain_name_def)
  moreover have "strings_ToLower (strings_TrimSpace ''aws'') = ''aws''" by code_simp
  ultimately have plain: "plain_outcome out" by (simp add: plain_outcome_def n run(4) demo_bucket_def)
  have "sw_results (demo_world results) = results" by (simp add: demo_world_def)
  with r have r': "dispatchScopes plan (demo_answers []) (exec_concurrency plan) (sw_results (demo_world results) plan)"
    if "plan_Scopes plan \<noteq> []" for plan using that by simp
  have "\<exists>row. map_of (sd_scans db') (ao_ID out) = Some row \<and> complete_row (mr_row row) \<and> srow_total (mr_row row) = 1"
    using scan_recorded_honestly[OF run(1) Scan_Store.demo_ok(1) plain r' demo_runtime_reachable] run(2,3)
    by (auto simp: demo_world_def)
  with run show ?thesis by blast
qed

end
