(* ===== verification/Evidence.thy ===== *)
theory Evidence imports Scan_Store begin

text \<open>
  pkg/correlation/evidence.go: the correlation evidence a provider attaches to a resource, and what is inferred
  from its raw data. A Go map is the list of its entries under distinct keys, a kind its string, a confidence a
  rational. The JSON decoder and encoder and \<open>net.ParseIP\<close> are parameters.
\<close>

type_synonym evidence_kind = string

definition AttributeKey :: string where
  "AttributeKey = ''corkscrew_correlation''"

definition Version :: string where
  "Version = ''1''"

definition AllKinds :: "evidence_kind list" where
  "AllKinds = [''ip'', ''dns'', ''network'', ''load-balancer'', ''connectivity'', ''security'', ''domain'', ''identity'', ''policy'', ''secret'']"

text \<open>A value of an \<open>any\<close>: what the code tells apart.\<close>

datatype evidence_value = NilValue | TextValue string | RawValue string | NumberValue rat | OtherValue json

record Evidence =
  evi_ID :: string
  evi_Kind :: evidence_kind
  evi_Subtype :: string
  evi_Confidence :: rat
  evi_Method :: string
  evi_Values :: "(string \<times> evidence_value) list"

record Envelope =
  env_Version :: string
  env_Evidence :: "Evidence list"

datatype evidence_error = IDRequired | UnsupportedKind evidence_kind | ConfidenceRange | ValuesRequired | SecretForbidden

definition Evidence_Validate :: "Evidence \<Rightarrow> evidence_error option" where
  "Evidence_Validate e =
     (if strings_TrimSpace (evi_ID e) = [] then Some IDRequired
      else if \<not> list_ex (\<lambda>k. evi_Kind e = k) AllKinds then Some (UnsupportedKind (evi_Kind e))
      else if evi_Confidence e < 0 \<or> evi_Confidence e > 1 then Some ConfidenceRange
      else if evi_Values e = [] then Some ValuesRequired
      else if evi_Kind e = ''secret'' \<and> map_of (evi_Values e) ''secret_value'' \<noteq> None then Some SecretForbidden
      else None)"

fun validate_all :: "nat \<Rightarrow> Evidence list \<Rightarrow> (nat \<times> evidence_error) option" where
  "validate_all i [] = None"
| "validate_all i (e # es) = (case Evidence_Validate e of Some err \<Rightarrow> Some (i, err) | None \<Rightarrow> validate_all (Suc i) es)"

text \<open>
  A decoded object is \<open>None\<close> if the text was \<open>null\<close>: the map is then nil. The decoder of an object into its raw members and of a member into an envelope, the decoder of an object into
  values, and the encoder of the result.
\<close>

record evidence_codec =
  ec_members :: "string \<Rightarrow> string + (string \<rightharpoonup> string)"
  ec_envelope :: "string \<Rightarrow> string + Envelope"
  ec_object :: "string \<Rightarrow> string + (string \<times> json) list option"
  ec_marshal :: "json \<Rightarrow> string"
  ec_with_envelope :: "(string \<times> json) list \<Rightarrow> Envelope \<Rightarrow> string + string"

datatype parse_error = BadAttributes string | BadEnvelope string | BadVersion string | BadEvidence nat evidence_error | BadResult string

definition ParseAttributes :: "evidence_codec \<Rightarrow> string \<Rightarrow> parse_error + Envelope" where
  "ParseAttributes ec attributes =
     (if strings_TrimSpace attributes = [] then Inr \<lparr>env_Version = Version, env_Evidence = []\<rparr>
      else (case ec_members ec attributes of
          Inl err \<Rightarrow> Inl (BadAttributes err)
        | Inr members \<Rightarrow> (case members AttributeKey of
            None \<Rightarrow> Inr \<lparr>env_Version = Version, env_Evidence = []\<rparr>
          | Some raw \<Rightarrow> (case ec_envelope ec raw of
              Inl err \<Rightarrow> Inl (BadEnvelope err)
            | Inr envelope \<Rightarrow>
                if env_Version envelope \<noteq> Version then Inl (BadVersion (env_Version envelope))
                else (case validate_all 0 (env_Evidence envelope) of
                    Some (i, err) \<Rightarrow> Inl (BadEvidence i err)
                  | None \<Rightarrow> Inr envelope)))))"

definition existing_evidence :: "evidence_codec \<Rightarrow> (string \<times> json) list \<Rightarrow> Evidence list" where
  "existing_evidence ec r = (case map_of r AttributeKey of
     None \<Rightarrow> []
   | Some raw \<Rightarrow> (case ec_envelope ec (ec_marshal ec raw) of
       Inl _ \<Rightarrow> []
     | Inr envelope \<Rightarrow> if env_Version envelope = Version then env_Evidence envelope else []))"

text \<open>Attaching to a nil map panics.\<close>

definition Attach :: "evidence_codec \<Rightarrow> string \<Rightarrow> Evidence list \<Rightarrow> (parse_error + string) panics" where
  "Attach ec attributes evidence =
     (case (if strings_TrimSpace attributes = [] then Inr (Some []) else ec_object ec attributes) of
        Inl err \<Rightarrow> Some (Inl (BadAttributes err))
      | Inr decoded \<Rightarrow> (let evidence = (case decoded of None \<Rightarrow> [] | Some r \<Rightarrow> existing_evidence ec r) @ evidence in
          case validate_all 0 evidence of
            Some (i, err) \<Rightarrow> Some (Inl (BadEvidence i err))
          | None \<Rightarrow> (case decoded of
              None \<Rightarrow> None
            | Some r \<Rightarrow> (case ec_with_envelope ec (AList.delete AttributeKey r) \<lparr>env_Version = Version, env_Evidence = evidence\<rparr> of
                Inl err \<Rightarrow> Some (Inl (BadResult err)) | Inr s \<Rightarrow> Some (Inr s)))))"

subsection \<open>Inferred evidence\<close>

definition contains_any :: "string \<Rightarrow> string list \<Rightarrow> bool" where
  "contains_any v needles \<longleftrightarrow> list_ex (strings_Contains v) needles"

definition trim_dots :: "string \<Rightarrow> string" where
  "trim_dots s = rev (dropWhile (\<lambda>c. c = CHR ''.'') (rev (dropWhile (\<lambda>c. c = CHR ''.'') s)))"

text \<open>What \<open>net.ParseIP\<close> finds: whether the address is an IPv4 one and whether it is private.\<close>

type_synonym parse_ip = "string \<Rightarrow> (bool \<times> bool) option"

type_synonym inferred = "string list \<times> Evidence list"

definition add_inferred :: "Evidence \<Rightarrow> inferred \<Rightarrow> inferred" where
  "add_inferred e st = (if evi_ID e \<in> set (fst st) then st else (evi_ID e # fst st, snd st @ [e]))"

definition ip_evidence :: "string \<Rightarrow> string \<Rightarrow> bool \<times> bool \<Rightarrow> Evidence" where
  "ip_evidence path content ip = \<lparr>evi_ID = ''ip:'' @ path @ '':'' @ content, evi_Kind = ''ip'', evi_Subtype = [], evi_Confidence = 8 / 10,
     evi_Method = ''provider_common_fields'', evi_Values = [(''ip_address'', TextValue content),
       (''ip_version'', TextValue (if fst ip then ''ipv4'' else ''ipv6'')), (''ip_type'', TextValue (if snd ip then ''private'' else ''public''))]\<rparr>"

definition dns_evidence :: "string \<Rightarrow> string \<Rightarrow> Evidence" where
  "dns_evidence path name = \<lparr>evi_ID = ''dns:'' @ path @ '':'' @ name, evi_Kind = ''dns'', evi_Subtype = [], evi_Confidence = 7 / 10,
     evi_Method = ''provider_common_fields'', evi_Values = [(''dns_name'', TextValue name), (''record_type'', TextValue ''REFERENCE''),
       (''record_values'', OtherValue (JArray [JString name]))]\<rparr>"

definition infer_text :: "parse_ip \<Rightarrow> string \<Rightarrow> string \<Rightarrow> string \<Rightarrow> inferred \<Rightarrow> inferred" where
  "infer_text ParseIP key path content st =
     (let lower = strings_ToLower key;
          st = (case ParseIP (strings_TrimSpace content) of
              Some ip \<Rightarrow> if contains_any lower [''ip'', ''address''] then add_inferred (ip_evidence path content ip) st else st
            | None \<Rightarrow> st) in
      if strings_Contains content ''.'' \<and> contains_any lower [''dns'', ''hostname'', ''fqdn'', ''domain'']
      then add_inferred (dns_evidence path (strings_TrimSuffix (strings_ToLower (strings_TrimSpace content)) ''.'')) st else st)"

definition member_text :: "parse_ip \<Rightarrow> string \<Rightarrow> string \<Rightarrow> json \<Rightarrow> inferred \<Rightarrow> inferred" where
  "member_text ParseIP key path v st = (case v of JString content \<Rightarrow> infer_text ParseIP key path content st | _ \<Rightarrow> st)"

lemma json_fields_size: "sum_list (map (\<lambda>kv. Suc (size (snd kv))) (sort_key fst kvs)) = sum_list (map (\<lambda>kv. Suc (size (snd kv))) kvs)"
  by (simp only: sum_mset_sum_list[symmetric] mset_map mset_sort)

lemma json_object_size: "sum_list (map (\<lambda>kv. Suc (size (snd kv))) kvs) < size (JObject kvs)"
  by (induction kvs) (auto simp: size_prod_def)

lemma json_array_size: "sum_list (map (\<lambda>x. Suc (size x)) xs) < size (JArray xs)"
  by (induction xs) auto

text \<open>The members of an object are walked in the order of their keys.\<close>

function walk_json :: "parse_ip \<Rightarrow> json \<Rightarrow> string \<Rightarrow> inferred \<Rightarrow> inferred"
  and walk_fields :: "parse_ip \<Rightarrow> (string \<times> json) list \<Rightarrow> string \<Rightarrow> inferred \<Rightarrow> inferred"
  and walk_items :: "parse_ip \<Rightarrow> json list \<Rightarrow> nat \<Rightarrow> string \<Rightarrow> inferred \<Rightarrow> inferred" where
  "walk_json ParseIP (JObject kvs) path st = walk_fields ParseIP (sort_key fst kvs) path st"
| "walk_json ParseIP (JArray xs) path st = walk_items ParseIP xs 0 path st"
| "walk_json ParseIP (JString s) path st = st"
| "walk_json ParseIP (JNumber n) path st = st"
| "walk_json ParseIP (JOther s) path st = st"
| "walk_fields ParseIP [] path st = st"
| "walk_fields ParseIP ((k, v) # kvs) path st = (let childPath = trim_dots (path @ ''.'' @ k) in
     walk_fields ParseIP kvs path (walk_json ParseIP v childPath (member_text ParseIP k childPath v st)))"
| "walk_items ParseIP [] i path st = st"
| "walk_items ParseIP (x # xs) i path st =
     walk_items ParseIP xs (Suc i) path (walk_json ParseIP x (path @ ''['' @ strconv_Itoa (int i) @ '']'') st)"
  by pat_completeness auto
termination
  by (relation "measure (case_sum (\<lambda>(_, v, _). Suc (size v)) (case_sum (\<lambda>(_, kvs, _). Suc (sum_list (map (\<lambda>kv. Suc (size (snd kv))) kvs)))
      (\<lambda>(_, xs, _). Suc (sum_list (map (\<lambda>x. Suc (size x)) xs)))))")
     (use json_object_size json_array_size in \<open>auto simp: json_fields_size\<close>)

definition InferNetworkEvidence :: "(string \<Rightarrow> json option) \<Rightarrow> parse_ip \<Rightarrow> string \<Rightarrow> Evidence list" where
  "InferNetworkEvidence decode ParseIP rawData = (case decode rawData of None \<Rightarrow> [] | Some v \<Rightarrow> snd (walk_json ParseIP v [] ([], [])))"

subsection \<open>What is inferred is valid\<close>

definition inferred_ok :: "inferred \<Rightarrow> bool" where
  "inferred_ok st \<longleftrightarrow> set (fst st) = set (map evi_ID (snd st)) \<and> distinct (map evi_ID (snd st)) \<and>
     (\<forall>e \<in> set (snd st). Evidence_Validate e = None)"

lemma add_inferred_ok: "inferred_ok st \<Longrightarrow> Evidence_Validate e = None \<Longrightarrow> inferred_ok (add_inferred e st)"
  by (auto simp: inferred_ok_def add_inferred_def)

lemma trimmed_letter: "c \<in> set s \<Longrightarrow> \<not> ascii_space c \<Longrightarrow> strings_TrimSpace s \<noteq> []"
  using TrimSpace_eq_Nil by blast

lemma ip_evidence_valid: "Evidence_Validate (ip_evidence path s ip) = None"
proof -
  have "strings_TrimSpace (''ip:'' @ path @ '':'' @ s) \<noteq> []" by (rule trimmed_letter[of "CHR ''i''"]) (simp_all add: ascii_space_def)
  then show ?thesis by (simp add: Evidence_Validate_def ip_evidence_def AllKinds_def)
qed

lemma dns_evidence_valid: "Evidence_Validate (dns_evidence path s) = None"
proof -
  have "strings_TrimSpace (''dns:'' @ path @ '':'' @ s) \<noteq> []" by (rule trimmed_letter[of "CHR ''d''"]) (simp_all add: ascii_space_def)
  then show ?thesis by (simp add: Evidence_Validate_def dns_evidence_def AllKinds_def)
qed

lemma infer_text_ok: "inferred_ok st \<Longrightarrow> inferred_ok (infer_text ParseIP key path s st)"
  by (auto simp: infer_text_def Let_def ip_evidence_valid dns_evidence_valid intro!: add_inferred_ok split: option.split)

lemma member_text_ok: "inferred_ok st \<Longrightarrow> inferred_ok (member_text ParseIP key path v st)"
  by (auto simp: member_text_def infer_text_ok split: json.split)

lemma walk_ok:
  "inferred_ok st \<Longrightarrow> inferred_ok (walk_json ParseIP v path st)"
  "inferred_ok st \<Longrightarrow> inferred_ok (walk_fields ParseIP kvs path st)"
  "inferred_ok st \<Longrightarrow> inferred_ok (walk_items ParseIP xs i path st)"
  by (induction ParseIP v path st and ParseIP kvs path st and ParseIP xs i path st rule: walk_json_walk_fields_walk_items.induct)
     (simp_all add: Let_def member_text_ok)

lemma validate_all_None: "validate_all i es = None \<longleftrightarrow> (\<forall>e \<in> set es. Evidence_Validate e = None)"
  by (induction es arbitrary: i) (auto split: option.split)

text \<open>Inferred evidence has distinct ids and always validates, so attaching it cannot fail on it.\<close>

lemma inferred_valid:
  "distinct (map evi_ID (InferNetworkEvidence decode ParseIP rawData)) \<and> validate_all 0 (InferNetworkEvidence decode ParseIP rawData) = None"
proof -
  have "inferred_ok ([], [])" by (simp add: inferred_ok_def)
  from walk_ok(1)[OF this] show ?thesis
    by (auto simp: InferNetworkEvidence_def validate_all_None inferred_ok_def split: option.split)
qed

text \<open>Attaching valid evidence to the attributes \<open>null\<close> panics.\<close>

lemma Attach_null_panics:
  "ec_object ec attributes = Inr None \<Longrightarrow> strings_TrimSpace attributes \<noteq> [] \<Longrightarrow> validate_all 0 evidence = None \<Longrightarrow>
   Attach ec attributes evidence = None"
  by (simp add: Attach_def)

text \<open>A codec that reads back what it wrote: attached evidence is parsed back behind what was there.\<close>

lemma Attach_parses:
  assumes "Attach ec attributes evidence = Some (Inr s)" "strings_TrimSpace s \<noteq> []"
    and "\<And>r envelope s. ec_with_envelope ec r envelope = Inr s \<Longrightarrow>
      \<exists>members raw. ec_members ec s = Inr members \<and> members AttributeKey = Some raw \<and> ec_envelope ec raw = Inr envelope"
  shows "\<exists>old. ParseAttributes ec s = Inr \<lparr>env_Version = Version, env_Evidence = old @ evidence\<rparr>"
proof -
  obtain r where r: "validate_all 0 (existing_evidence ec r @ evidence) = None"
      "ec_with_envelope ec (AList.delete AttributeKey r) \<lparr>env_Version = Version, env_Evidence = existing_evidence ec r @ evidence\<rparr> = Inr s"
    using assms(1) by (auto simp: Attach_def Let_def split: sum.splits option.splits if_splits)
  from assms(3)[OF r(2)] r(1) assms(2) show ?thesis by (auto simp: ParseAttributes_def)
qed

end
