(* ===== verification/Correlation.thy ===== *)
theory Correlation imports Evidence begin

text \<open>
  internal/app/correlation/materialize.go: the evidence of the stored inventory is written into the correlation
  tables. A refresh replaces what earlier refreshes of the same kinds wrote, which the ledger remembers, in one
  transaction, and records its run. Statements may fail; the columns of a table, the encoder, the clock and the
  run's id are parameters.
\<close>

definition kindTables :: "(evidence_kind \<times> string list) list" where
  "kindTables = [
     (''ip'', [''cross_cloud_ip_addresses'']), (''dns'', [''cross_cloud_dns_records'']),
     (''network'', [''cross_cloud_network_topology'']), (''load-balancer'', [''cross_cloud_loadbalancer_topology'']),
     (''connectivity'', [''cross_cloud_vpn_connections'', ''cross_cloud_network_peering'', ''cross_cloud_direct_connections'']),
     (''security'', [''cross_cloud_security_correlations'']), (''domain'', [''certificate_correlations'']),
     (''identity'', [''identity_federation_relationships'', ''security_role_relationships'']),
     (''policy'', [''policy_similarity_analysis'']), (''secret'', [''shared_secrets_correlation''])]"

definition tables_of :: "evidence_kind \<Rightarrow> string list" where
  "tables_of k = (case map_of kindTables k of None \<Rightarrow> [] | Some ts \<Rightarrow> ts)"

definition normalizeKinds :: "evidence_kind slice_sorter \<Rightarrow> evidence_kind list \<Rightarrow> evidence_kind list" where
  "normalizeKinds sort_Slice kinds = (if kinds = [] then AllKinds
     else sort_Slice (<) (dedupe_by (\<lambda>k. k) [] (filter (\<lambda>k. map_of kindTables k \<noteq> None) kinds)))"

subsection \<open>Candidates\<close>

record sourceResource =
  sres_Provider :: string
  sres_ID :: string
  sres_Name :: string
  sres_Type :: string
  sres_Service :: string
  sres_Region :: string
  sres_AccountID :: string
  sres_Tags :: string
  sres_Attributes :: string

record candidate =
  cand_Kind :: evidence_kind
  cand_Table :: string
  cand_RowID :: string
  cand_Values :: "(string \<times> evidence_value) list"

datatype candidate_error = SubtypeRequired evidence_kind string

definition evidenceTable :: "Evidence \<Rightarrow> candidate_error + string" where
  "evidenceTable e = (let unsupported = Inl (SubtypeRequired (evi_Kind e) (evi_Subtype e)) in
     if evi_Kind e = ''connectivity'' then
       (if evi_Subtype e = ''vpn'' then Inr ''cross_cloud_vpn_connections''
        else if evi_Subtype e = ''peering'' then Inr ''cross_cloud_network_peering''
        else if evi_Subtype e = ''direct'' then Inr ''cross_cloud_direct_connections'' else unsupported)
     else if evi_Kind e = ''identity'' then
       (if evi_Subtype e = ''role'' then Inr ''security_role_relationships''
        else if evi_Subtype e = ''federation'' then Inr ''identity_federation_relationships'' else unsupported)
     else (case tables_of (evi_Kind e) of [t] \<Rightarrow> Inr t | _ \<Rightarrow> unsupported))"

definition candidate_row_id :: "sourceResource \<Rightarrow> Evidence \<Rightarrow> string" where
  "candidate_row_id r e = ''cs:v1:'' @ sha256_hex (sres_Provider r @ [CHR 0x00] @ sres_ID r @ [CHR 0x00] @ evi_Kind e @ [CHR 0x00] @ evi_ID e)"

definition candidate_defaults :: "sourceResource \<Rightarrow> Evidence \<Rightarrow> (string \<times> evidence_value) list" where
  "candidate_defaults r e = [
     (''provider'', TextValue (sres_Provider r)), (''cloud_provider'', TextValue (sres_Provider r)),
     (''resource_id'', TextValue (sres_ID r)), (''resource_type'', TextValue (sres_Type r)), (''resource_name'', TextValue (sres_Name r)),
     (''region'', TextValue (sres_Region r)), (''account_id'', TextValue (sres_AccountID r)), (''service_name'', TextValue (sres_Service r)),
     (''tags'', RawValue (sres_Tags r)), (''correlation_confidence'', NumberValue (evi_Confidence e)),
     (''confidence_score'', NumberValue (evi_Confidence e)), (''correlation_method'', TextValue (evi_Method e))]"

definition buildCandidate :: "sourceResource \<Rightarrow> Evidence \<Rightarrow> candidate_error + candidate" where
  "buildCandidate r e = (case evidenceTable e of
     Inl err \<Rightarrow> Inl err
   | Inr table \<Rightarrow> (let rowID = candidate_row_id r e;
        vals = AList.update ''id'' (TextValue rowID) (evi_Values e) in
      Inr \<lparr>cand_Kind = evi_Kind e, cand_Table = table, cand_RowID = rowID,
        cand_Values = vals @ filter (\<lambda>kv. map_of vals (fst kv) = None) (candidate_defaults r e)\<rparr>))"

subsection \<open>The tables\<close>

datatype db_arg = JsonArg string | ValueArg evidence_value

record tableColumn =
  col_Name :: string
  col_Type :: string
  col_NotNull :: bool
  col_HasDefault :: bool

record run_row =
  run_id :: string
  run_started :: timestamp
  run_ended :: timestamp
  run_status :: string
  run_kinds :: "evidence_kind list"
  run_evidence :: int
  run_rejected :: int
  run_rows :: int
  run_coverage :: "(string \<times> int) list"
  run_error :: bool

text \<open>Rows of the correlation tables under table and id, the ledger under the same keys, the runs.\<close>

record corr_db =
  cd_rows :: "(string \<times> string, (string \<times> db_arg) list) table"
  cd_ledger :: "(string \<times> string, string \<times> evidence_kind) table"
  cd_runs :: "run_row list"

datatype corr_stmt = DeleteOwned evidence_kind string | DeleteLedger evidence_kind | ReadColumns string | InsertRow string string | InsertLedger string string | InsertRun string

record corr_env =
  ce_open :: "string option"
  ce_connect :: "string option"
  ce_load :: "string option"
  ce_begin :: "string option"
  ce_commit :: "string option"
  ce_stmt :: "corr_stmt \<Rightarrow> string option"
  ce_columns :: "string \<Rightarrow> tableColumn list"
  ce_encode :: "evidence_value \<Rightarrow> string + string"
  ce_codec :: evidence_codec
  ce_run_id :: string
  ce_start :: timestamp
  ce_end :: timestamp

datatype corr_error =
    OpenFails string
  | LoadFails string
  | BadAttributesOf string parse_error
  | BadCandidate string candidate_error
  | Statement corr_stmt string
  | MissingField evidence_kind string
  | EncodeField evidence_kind string string
  | DuplicateRow string string
  | TxFails string

definition corr_exec :: "corr_env \<Rightarrow> corr_stmt \<Rightarrow> (corr_db \<Rightarrow> corr_db) \<Rightarrow> corr_db \<Rightarrow> corr_error + corr_db" where
  "corr_exec env stmt f db = (case ce_stmt env stmt of Some err \<Rightarrow> Inl (Statement stmt err) | None \<Rightarrow> Inr (f db))"

text \<open>What of a candidate goes into the columns of its table.\<close>

definition column_arg :: "corr_env \<Rightarrow> evidence_kind \<Rightarrow> tableColumn \<Rightarrow> evidence_value \<Rightarrow> corr_error + db_arg" where
  "column_arg env kind col v = (if strings_ToLower (col_Type col) = ''json'' then
       (case v of TextValue s \<Rightarrow> Inr (JsonArg s) | RawValue s \<Rightarrow> Inr (JsonArg s)
        | _ \<Rightarrow> (case ce_encode env v of Inl err \<Rightarrow> Inl (EncodeField kind (col_Name col) err) | Inr s \<Rightarrow> Inr (JsonArg s)))
     else Inr (ValueArg v))"

fun insert_columns :: "corr_env \<Rightarrow> candidate \<Rightarrow> tableColumn list \<Rightarrow> (string \<times> db_arg) list \<Rightarrow> corr_error + (string \<times> db_arg) list" where
  "insert_columns env item [] row = Inr row"
| "insert_columns env item (col # cols) row =
     (let v = map_of (cand_Values item) (col_Name col) in
      if v = None \<or> v = Some NilValue \<or> v = Some (TextValue []) then
        (if col_NotNull col \<and> \<not> col_HasDefault col then Inl (MissingField (cand_Kind item) (col_Name col))
         else insert_columns env item cols row)
      else (case column_arg env (cand_Kind item) col (the v) of
          Inl err \<Rightarrow> Inl err
        | Inr arg \<Rightarrow> insert_columns env item cols (row @ [(col_Name col, arg)])))"

text \<open>The id of a row is the table's primary key.\<close>

definition insertCandidate :: "corr_env \<Rightarrow> candidate \<Rightarrow> corr_db \<Rightarrow> corr_error + corr_db" where
  "insertCandidate env item db = (case ce_stmt env (ReadColumns (cand_Table item)) of
     Some err \<Rightarrow> Inl (Statement (ReadColumns (cand_Table item)) err)
   | None \<Rightarrow> (case insert_columns env item (ce_columns env (cand_Table item)) [] of
       Inl err \<Rightarrow> Inl err
     | Inr row \<Rightarrow> (let key = (cand_Table item, cand_RowID item) in
         if map_of (cd_rows db) key \<noteq> None then Inl (DuplicateRow (cand_Table item) (cand_RowID item))
         else corr_exec env (InsertRow (cand_Table item) (cand_RowID item)) (\<lambda>db. db\<lparr>cd_rows := cd_rows db @ [(key, row)]\<rparr>) db)))"

definition insert_ledger :: "corr_env \<Rightarrow> candidate \<Rightarrow> corr_db \<Rightarrow> corr_error + corr_db" where
  "insert_ledger env item db = (let key = (cand_Table item, cand_RowID item) in
     if map_of (cd_ledger db) key \<noteq> None then Inl (DuplicateRow ''correlation_materialized_rows'' (cand_RowID item))
     else corr_exec env (InsertLedger (cand_Table item) (cand_RowID item))
       (\<lambda>db. db\<lparr>cd_ledger := cd_ledger db @ [(key, (ce_run_id env, cand_Kind item))]\<rparr>) db)"

text \<open>Rows of a table that the ledger says were written for a kind.\<close>

definition owned :: "corr_db \<Rightarrow> evidence_kind \<Rightarrow> string \<Rightarrow> string \<Rightarrow> bool" where
  "owned db kind table i \<longleftrightarrow> list_ex (\<lambda>(key, run, k). key = (table, i) \<and> k = kind) (cd_ledger db)"

definition delete_owned :: "evidence_kind \<Rightarrow> string \<Rightarrow> corr_db \<Rightarrow> corr_db" where
  "delete_owned kind table db = db\<lparr>cd_rows := filter (\<lambda>(key, row). \<not> (fst key = table \<and> owned db kind table (snd key))) (cd_rows db)\<rparr>"

definition delete_ledger :: "evidence_kind \<Rightarrow> corr_db \<Rightarrow> corr_db" where
  "delete_ledger kind db = db\<lparr>cd_ledger := filter (\<lambda>(key, run, k). k \<noteq> kind) (cd_ledger db)\<rparr>"

fun delete_tables :: "corr_env \<Rightarrow> evidence_kind \<Rightarrow> string list \<Rightarrow> corr_db \<Rightarrow> corr_error + corr_db" where
  "delete_tables env kind [] db = Inr db"
| "delete_tables env kind (t # ts) db = (case corr_exec env (DeleteOwned kind t) (delete_owned kind t) db of
     Inl err \<Rightarrow> Inl err | Inr db \<Rightarrow> delete_tables env kind ts db)"

fun delete_kinds :: "corr_env \<Rightarrow> evidence_kind list \<Rightarrow> corr_db \<Rightarrow> corr_error + corr_db" where
  "delete_kinds env [] db = Inr db"
| "delete_kinds env (k # ks) db = (case delete_tables env k (tables_of k) db of
     Inl err \<Rightarrow> Inl err
   | Inr db \<Rightarrow> (case corr_exec env (DeleteLedger k) (delete_ledger k) db of Inl err \<Rightarrow> Inl err | Inr db \<Rightarrow> delete_kinds env ks db))"

subsection \<open>A refresh\<close>

record Result =
  rr_RunID :: string
  rr_Status :: string
  rr_Kinds :: "evidence_kind list"
  rr_EvidenceCount :: int
  rr_RejectedCount :: int
  rr_RowCount :: int
  rr_Coverage :: "(string \<times> int) list"
  rr_StartedAt :: timestamp
  rr_EndedAt :: timestamp
  rr_Error :: bool

text \<open>The latest observation of each resource, whichever scan it is of.\<close>

definition latest_of :: "Observation list \<Rightarrow> Observation \<Rightarrow> bool" where
  "latest_of t x \<longleftrightarrow> list_all (\<lambda>y. same_resource y x \<longrightarrow> (obs_ObservedAt y, obs_ScanID y) \<le> (obs_ObservedAt x, obs_ScanID x)) t"

definition source_of :: "Observation \<Rightarrow> sourceResource" where
  "source_of x = \<lparr>sres_Provider = obs_Provider x, sres_ID = obs_ResourceID x, sres_Name = obs_Name x, sres_Type = obs_Type x,
     sres_Service = obs_Service x, sres_Region = obs_Location x, sres_AccountID = obs_AccountID x, sres_Tags = obs_Tags x,
     sres_Attributes = obs_Attributes x\<rparr>"

definition loadEvidenceResources :: "Observation list \<Rightarrow> sourceResource list" where
  "loadEvidenceResources t = map source_of (sort_key (\<lambda>x. (obs_Provider x, obs_ResourceID x)) (filter (latest_of t) t))"

definition count_coverage :: "string \<Rightarrow> (string \<times> int) list \<Rightarrow> (string \<times> int) list" where
  "count_coverage k t = AList.update k ((case map_of t k of None \<Rightarrow> 0 | Some n \<Rightarrow> n) + 1) t"

fun collect_evidence :: "evidence_kind list \<Rightarrow> sourceResource \<Rightarrow> Evidence list \<Rightarrow> Result \<times> candidate list \<Rightarrow>
    (corr_error \<times> Result) + Result \<times> candidate list" where
  "collect_evidence kinds r [] st = Inr st"
| "collect_evidence kinds r (e # es) (res, cs) =
     (if evi_Kind e \<notin> set kinds then collect_evidence kinds r es (res, cs)
      else (let res = res\<lparr>rr_EvidenceCount := rr_EvidenceCount res + 1,
              rr_Coverage := count_coverage (evi_Kind e @ '':'' @ sres_Provider r) (rr_Coverage res)\<rparr> in
        case buildCandidate r e of
          Inl err \<Rightarrow> Inl (BadCandidate (sres_ID r) err, res\<lparr>rr_RejectedCount := rr_RejectedCount res + 1\<rparr>)
        | Inr c \<Rightarrow> collect_evidence kinds r es (res, cs @ [c])))"

fun collect :: "corr_env \<Rightarrow> evidence_kind list \<Rightarrow> sourceResource list \<Rightarrow> Result \<times> candidate list \<Rightarrow> (corr_error \<times> Result) + Result \<times> candidate list" where
  "collect env kinds [] st = Inr st"
| "collect env kinds (r # rs) st = (case ParseAttributes (ce_codec env) (sres_Attributes r) of
     Inl err \<Rightarrow> Inl (BadAttributesOf (sres_ID r) err, (fst st)\<lparr>rr_RejectedCount := rr_RejectedCount (fst st) + 1\<rparr>)
   | Inr envelope \<Rightarrow> (case collect_evidence kinds r (env_Evidence envelope) st of
       Inl err \<Rightarrow> Inl err
     | Inr st \<Rightarrow> collect env kinds rs st))"

fun insert_all :: "corr_env \<Rightarrow> candidate list \<Rightarrow> Result \<Rightarrow> corr_db \<Rightarrow> (corr_error \<times> Result) + Result \<times> corr_db" where
  "insert_all env [] res db = Inr (res, db)"
| "insert_all env (c # cs) res db = (case insertCandidate env c db of
     Inl err \<Rightarrow> Inl (err, res\<lparr>rr_RejectedCount := rr_RejectedCount res + 1\<rparr>)
   | Inr db \<Rightarrow> (case insert_ledger env c db of
       Inl err \<Rightarrow> Inl (err, res)
     | Inr db \<Rightarrow> insert_all env cs (res\<lparr>rr_RowCount := rr_RowCount res + 1\<rparr>) db))"

definition run_of :: "Result \<Rightarrow> run_row" where
  "run_of res = \<lparr>run_id = rr_RunID res, run_started = rr_StartedAt res, run_ended = rr_EndedAt res, run_status = rr_Status res,
     run_kinds = rr_Kinds res, run_evidence = rr_EvidenceCount res, run_rejected = rr_RejectedCount res, run_rows = rr_RowCount res,
     run_coverage = rr_Coverage res, run_error = rr_Error res\<rparr>"

definition insertRun :: "corr_env \<Rightarrow> Result \<Rightarrow> corr_db \<Rightarrow> corr_error + corr_db" where
  "insertRun env res = corr_exec env (InsertRun (rr_Status res)) (\<lambda>db. db\<lparr>cd_runs := cd_runs db @ [run_of res]\<rparr>)"

text \<open>The cause, and the error of recording it, if that failed too.\<close>

definition recordFailure :: "corr_env \<Rightarrow> Result \<Rightarrow> corr_error \<Rightarrow> corr_db \<Rightarrow> Result \<times> corr_error list \<times> corr_db" where
  "recordFailure env res cause db = (let res = res\<lparr>rr_Status := ''failed'', rr_EndedAt := ce_end env, rr_Error := True\<rparr> in
     case insertRun env res db of Inl err \<Rightarrow> (res, [cause, err], db) | Inr db \<Rightarrow> (res, [cause], db))"

definition materialize :: "corr_env \<Rightarrow> candidate list \<Rightarrow> Result \<Rightarrow> corr_db \<Rightarrow> Result \<times> corr_error list \<times> corr_db" where
  "materialize env cs res db = (case ce_begin env of
     Some err \<Rightarrow> (res, [TxFails err], db)
   | None \<Rightarrow> (case delete_kinds env (rr_Kinds res) db of
       Inl err \<Rightarrow> recordFailure env res err db
     | Inr db1 \<Rightarrow> (case insert_all env cs res db1 of
         Inl (err, res) \<Rightarrow> recordFailure env res err db
       | Inr (res, db2) \<Rightarrow> (let res = res\<lparr>rr_Status := ''completed'', rr_EndedAt := ce_end env\<rparr> in
           case insertRun env res db2 of
             Inl err \<Rightarrow> (res, [err], db)
           | Inr db3 \<Rightarrow> (case ce_commit env of Some err \<Rightarrow> (res, [TxFails err], db) | None \<Rightarrow> (res, [], db3))))))"

definition Refresh :: "corr_env \<Rightarrow> evidence_kind slice_sorter \<Rightarrow> evidence_kind list \<Rightarrow> Observation list \<Rightarrow> corr_db \<Rightarrow> Result \<times> corr_error list \<times> corr_db" where
  "Refresh env sort_Slice kinds observations db =
     (let res = \<lparr>rr_RunID = ce_run_id env, rr_Status = ''running'', rr_Kinds = normalizeKinds sort_Slice kinds, rr_EvidenceCount = 0,
          rr_RejectedCount = 0, rr_RowCount = 0, rr_Coverage = [], rr_StartedAt = ce_start env, rr_EndedAt = zero_time, rr_Error = False\<rparr> in
      case (case ce_open env of Some err \<Rightarrow> Some err | None \<Rightarrow> ce_connect env) of
        Some err \<Rightarrow> (res, [OpenFails err], db)
      | None \<Rightarrow> (case ce_load env of
          Some err \<Rightarrow> (res, [LoadFails err], db)
        | None \<Rightarrow> (case collect env (rr_Kinds res) (loadEvidenceResources observations) (res, []) of
            Inl (err, res) \<Rightarrow> recordFailure env res err db
          | Inr (res, cs) \<Rightarrow> materialize env cs res db)))"

definition Latest :: "corr_db \<Rightarrow> run_row option" where
  "Latest db = (case sort_key (\<lambda>r. - run_started r) (cd_runs db) of [] \<Rightarrow> None | r # _ \<Rightarrow> Some r)"

end
