(* ===== verification/Correlation_Refresh.thy ===== *)
theory Correlation_Refresh imports Correlation begin

text \<open>
  What a refresh of the correlation tables leaves: an invariant of the ledger, what the deletions and insertions of
  the transaction do to the rows and to the ledger, what is collected, and the whole refresh.
\<close>


subsection \<open>A refresh is exact\<close>

definition cand_key :: "candidate \<Rightarrow> string \<times> string" where
  "cand_key c = (cand_Table c, cand_RowID c)"

definition ledger_ok :: "corr_db \<Rightarrow> bool" where
  "ledger_ok db \<longleftrightarrow> distinct (map fst (cd_ledger db)) \<and>
     (\<forall>x \<in> set (cd_ledger db). fst (fst x) \<in> set (tables_of (snd (snd x))))"

definition owned_by :: "corr_db \<Rightarrow> evidence_kind list \<Rightarrow> string \<times> string \<Rightarrow> bool" where
  "owned_by db ks key \<longleftrightarrow> (\<exists>run k. (key, run, k) \<in> set (cd_ledger db) \<and> k \<in> set ks)"

lemma owned_iff: "owned db k t i \<longleftrightarrow> owned_by db [k] (t, i)"
  by (auto simp: owned_def owned_by_def list_ex_iff)

lemma corr_exec_Inr: "corr_exec env s f db = Inr db' \<longleftrightarrow> ce_stmt env s = None \<and> db' = f db"
  by (auto simp: corr_exec_def split: option.splits)

lemma delete_tables_Inr:
  "delete_tables env k ts db = Inr db' \<Longrightarrow>
   db' = db\<lparr>cd_rows := filter (\<lambda>(key, row). \<not> (fst key \<in> set ts \<and> owned_by db [k] key)) (cd_rows db)\<rparr>"
proof (induction ts arbitrary: db)
  case Nil then show ?case by simp
next
  case (Cons t ts)
  from Cons.prems have s: "delete_tables env k ts (delete_owned k t db) = Inr db'" by (auto simp: corr_exec_Inr split: sum.splits)
  have o: "owned_by (delete_owned k t db) [k] = owned_by db [k]" by (auto simp: owned_by_def delete_owned_def)
  show ?case using Cons.IH[OF s] unfolding o
    by (auto simp: delete_owned_def owned_iff intro!: corr_db.equality filter_cong)
qed

lemma delete_kinds_Inr:
  "delete_kinds env ks db = Inr db' \<Longrightarrow> ledger_ok db \<Longrightarrow>
   db' = db\<lparr>cd_rows := filter (\<lambda>(key, row). \<not> owned_by db ks key) (cd_rows db),
     cd_ledger := filter (\<lambda>(key, run, k). k \<notin> set ks) (cd_ledger db)\<rparr>"
proof (induction ks arbitrary: db)
  case Nil then show ?case by (auto simp: owned_by_def case_prod_beta)
next
  case (Cons k ks)
  let ?d1 = "db\<lparr>cd_rows := filter (\<lambda>(key, row). \<not> owned_by db [k] key) (cd_rows db)\<rparr>"
  let ?d2 = "delete_ledger k ?d1"
  obtain d where d: "delete_tables env k (tables_of k) db = Inr d" "delete_kinds env ks (delete_ledger k d) = Inr db'"
    using Cons.prems(1) by (auto simp: corr_exec_Inr split: sum.splits)
  have own: "owned_by db [k] key \<Longrightarrow> fst key \<in> set (tables_of k)" for key
    using Cons.prems(2) by (force simp: owned_by_def ledger_ok_def)
  have d1: "d = ?d1" unfolding delete_tables_Inr[OF d(1)] using own by (auto intro!: corr_db.equality filter_cong)
  have ok: "ledger_ok ?d2" using Cons.prems(2) by (auto simp: ledger_ok_def delete_ledger_def distinct_map_filter)
  have o: "owned_by ?d2 ks key \<or> owned_by db [k] key \<longleftrightarrow> owned_by db (k # ks) key" for key
    by (auto simp: owned_by_def delete_ledger_def)
  show ?case using Cons.IH[OF d(2)[unfolded d1] ok] o[symmetric]
    by (auto simp: delete_ledger_def case_prod_beta intro!: corr_db.equality filter_cong)
qed

definition stored_columns :: "corr_env \<Rightarrow> candidate \<Rightarrow> (string \<times> db_arg) list" where
  "stored_columns env c = (case insert_columns env c (ce_columns env (cand_Table c)) [] of Inl _ \<Rightarrow> [] | Inr row \<Rightarrow> row)"

lemma insertCandidate_Inr:
  "insertCandidate env c db = Inr db' \<Longrightarrow>
   cand_key c \<notin> fst ` set (cd_rows db) \<and> insert_columns env c (ce_columns env (cand_Table c)) [] = Inr (stored_columns env c) \<and>
   db' = db\<lparr>cd_rows := cd_rows db @ [(cand_key c, stored_columns env c)]\<rparr>"
  by (auto simp: insertCandidate_def cand_key_def stored_columns_def corr_exec_Inr Let_def map_of_eq_None_iff[symmetric]
      split: option.splits sum.splits if_splits)

lemma insert_ledger_Inr:
  "insert_ledger env c db = Inr db' \<Longrightarrow>
   cand_key c \<notin> fst ` set (cd_ledger db) \<and> db' = db\<lparr>cd_ledger := cd_ledger db @ [(cand_key c, ce_run_id env, cand_Kind c)]\<rparr>"
  unfolding map_of_eq_None_iff[symmetric]
  by (cases "map_of (cd_ledger db) (cand_key c)") (auto simp: insert_ledger_def cand_key_def corr_exec_Inr Let_def)

lemma insert_all_Inr:
  "insert_all env cs res db = Inr (res', db') \<Longrightarrow>
   distinct (map cand_key cs) \<and> (\<forall>c \<in> set cs. cand_key c \<notin> fst ` set (cd_rows db) \<and> cand_key c \<notin> fst ` set (cd_ledger db) \<and>
     insert_columns env c (ce_columns env (cand_Table c)) [] = Inr (stored_columns env c)) \<and>
   res' = res\<lparr>rr_RowCount := rr_RowCount res + int (length cs)\<rparr> \<and>
   db' = db\<lparr>cd_rows := cd_rows db @ map (\<lambda>c. (cand_key c, stored_columns env c)) cs,
     cd_ledger := cd_ledger db @ map (\<lambda>c. (cand_key c, ce_run_id env, cand_Kind c)) cs\<rparr>"
proof (induction cs arbitrary: res db)
  case Nil then show ?case by simp
next
  case (Cons c cs)
  obtain d1 d2 where d: "insertCandidate env c db = Inr d1" "insert_ledger env c d1 = Inr d2"
      "insert_all env cs (res\<lparr>rr_RowCount := rr_RowCount res + 1\<rparr>) d2 = Inr (res', db')"
    using Cons.prems by (auto split: sum.splits)
  note a = insertCandidate_Inr[OF d(1)] and b = insert_ledger_Inr[OF d(2)] and i = Cons.IH[OF d(3)]
  have d2: "d2 = db\<lparr>cd_rows := cd_rows db @ [(cand_key c, stored_columns env c)], cd_ledger := cd_ledger db @ [(cand_key c, ce_run_id env, cand_Kind c)]\<rparr>"
    using a b by auto
  have k: "cand_key c \<notin> fst ` set (cd_ledger db)" using a b by auto
  show ?case using i a k unfolding d2 by auto
qed


subsection \<open>What is collected\<close>

definition evidence_of :: "corr_env \<Rightarrow> sourceResource \<Rightarrow> Evidence list" where
  "evidence_of env r = (case ParseAttributes (ce_codec env) (sres_Attributes r) of Inl _ \<Rightarrow> [] | Inr envelope \<Rightarrow> env_Evidence envelope)"

definition selected_candidates :: "corr_env \<Rightarrow> evidence_kind list \<Rightarrow> sourceResource list \<Rightarrow> (candidate_error + candidate) list" where
  "selected_candidates env ks rs =
     concat (map (\<lambda>r. map (buildCandidate r) (filter (\<lambda>e. evi_Kind e \<in> set ks) (evidence_of env r))) rs)"

lemma evidenceTable_kind: "evidenceTable e = Inr t \<Longrightarrow> t \<in> set (tables_of (evi_Kind e))"
  by (auto simp: evidenceTable_def Let_def tables_of_def kindTables_def split: if_splits list.splits option.splits)

lemma buildCandidate_kind: "buildCandidate r e = Inr c \<Longrightarrow> cand_Kind c = evi_Kind e \<and> cand_Table c \<in> set (tables_of (cand_Kind c))"
  by (auto simp: buildCandidate_def Let_def dest: evidenceTable_kind split: sum.splits)

text \<open>What collecting changes of a result.\<close>

definition collected :: "Result \<Rightarrow> nat \<Rightarrow> Result \<Rightarrow> bool" where
  "collected res n res' \<longleftrightarrow> res' = res\<lparr>rr_EvidenceCount := rr_EvidenceCount res + int n, rr_Coverage := rr_Coverage res'\<rparr>"

lemma collected_refl: "collected res 0 res"
  by (simp add: collected_def)

lemma collected_Suc: "collected (res\<lparr>rr_EvidenceCount := rr_EvidenceCount res + 1, rr_Coverage := cov\<rparr>) n res' \<Longrightarrow> collected res (Suc n) res'"
  by (cases res'; cases res) (simp add: collected_def)

lemma collected_add: "collected res m res1 \<Longrightarrow> collected res1 n res2 \<Longrightarrow> collected res (m + n) res2"
  by (cases res; cases res1; cases res2) (simp add: collected_def)

lemma collect_evidence_Inr:
  "collect_evidence kinds r es (res, cs) = Inr (res', cs') \<Longrightarrow>
   \<exists>new. cs' = cs @ new \<and> map Inr new = map (buildCandidate r) (filter (\<lambda>e. evi_Kind e \<in> set kinds) es) \<and> collected res (length new) res'"
proof (induction es arbitrary: res cs)
  case Nil then show ?case by (simp add: collected_refl)
next
  case (Cons e es)
  show ?case
  proof (cases "evi_Kind e \<in> set kinds")
    case False then show ?thesis using Cons by simp
  next
    case True
    then obtain c where c: "buildCandidate r e = Inr c"
        "collect_evidence kinds r es (res\<lparr>rr_EvidenceCount := rr_EvidenceCount res + 1,
           rr_Coverage := count_coverage (evi_Kind e @ '':'' @ sres_Provider r) (rr_Coverage res)\<rparr>, cs @ [c]) = Inr (res', cs')"
      using Cons.prems by (auto simp: Let_def split: sum.splits)
    obtain new where "cs' = (cs @ [c]) @ new" "map Inr new = map (buildCandidate r) (filter (\<lambda>e. evi_Kind e \<in> set kinds) es)"
        "collected res (Suc (length new)) res'"
      using Cons.IH[OF c(2)] collected_Suc by blast
    then show ?thesis using True c(1) by (intro exI[of _ "c # new"]) simp
  qed
qed

lemma collect_Inr:
  "collect env kinds rs (res, cs) = Inr (res', cs') \<Longrightarrow>
   \<exists>new. cs' = cs @ new \<and> map Inr new = selected_candidates env kinds rs \<and> collected res (length new) res' \<and>
     (\<forall>r \<in> set rs. \<exists>envelope. ParseAttributes (ce_codec env) (sres_Attributes r) = Inr envelope)"
proof (induction rs arbitrary: res cs)
  case Nil then show ?case by (simp add: collected_refl selected_candidates_def)
next
  case (Cons r rs)
  obtain envelope res1 cs1 where r: "ParseAttributes (ce_codec env) (sres_Attributes r) = Inr envelope"
      "collect_evidence kinds r (env_Evidence envelope) (res, cs) = Inr (res1, cs1)" "collect env kinds rs (res1, cs1) = Inr (res', cs')"
    using Cons.prems by (auto split: sum.splits)
  obtain a where a: "cs1 = cs @ a" "map Inr a = map (buildCandidate r) (filter (\<lambda>e. evi_Kind e \<in> set kinds) (env_Evidence envelope))"
      "collected res (length a) res1" using collect_evidence_Inr[OF r(2)] by blast
  obtain b where b: "cs' = cs1 @ b" "map Inr b = selected_candidates env kinds rs" "collected res1 (length b) res'"
      "\<forall>r \<in> set rs. \<exists>envelope. ParseAttributes (ce_codec env) (sres_Attributes r) = Inr envelope" using Cons.IH[OF r(3)] by blast
  show ?case using a b r(1) collected_add[OF a(3) b(3)]
    by (intro exI[of _ "a @ b"]) (simp add: selected_candidates_def evidence_of_def)
qed


text \<open>What a refresh that stores its candidates leaves.\<close>

definition refreshed :: "corr_env \<Rightarrow> evidence_kind list \<Rightarrow> candidate list \<Rightarrow> corr_db \<Rightarrow> corr_db \<Rightarrow> bool" where
  "refreshed env ks cs db db' \<longleftrightarrow> distinct (map cand_key cs) \<and>
     (\<forall>c \<in> set cs. cand_Kind c \<in> set ks \<and> insert_columns env c (ce_columns env (cand_Table c)) [] = Inr (stored_columns env c) \<and>
       (map_of (cd_rows db) (cand_key c) = None \<or> owned_by db ks (cand_key c))) \<and>
     map_of (cd_rows db') = (\<lambda>key. if owned_by db ks key then None else map_of (cd_rows db) key) ++
       map_of (map (\<lambda>c. (cand_key c, stored_columns env c)) cs) \<and>
     map_of (cd_ledger db') = (\<lambda>key. if owned_by db ks key then None else map_of (cd_ledger db) key) ++
       map_of (map (\<lambda>c. (cand_key c, (ce_run_id env, cand_Kind c))) cs)"

lemma map_of_filter_key: "map_of (filter (\<lambda>(k, v). P k) xs) k = (if P k then map_of xs k else None)"
  by (induction xs) auto

lemma owned_by_map_of: "ledger_ok db \<Longrightarrow> owned_by db ks key \<longleftrightarrow> (\<exists>run k. map_of (cd_ledger db) key = Some (run, k) \<and> k \<in> set ks)"
  by (auto simp: owned_by_def ledger_ok_def)

lemma map_of_filter_value:
  "distinct (map fst xs) \<Longrightarrow> map_of (filter (\<lambda>(k, v). P v) xs) k = (case map_of xs k of None \<Rightarrow> None | Some v \<Rightarrow> if P v then Some v else None)"
  by (induction xs) (auto simp: map_of_eq_None_iff image_iff split: option.split)

lemma map_of_filter_ledger:
  assumes "ledger_ok db"
  shows "map_of (filter (\<lambda>(key, run, k). k \<notin> set ks) (cd_ledger db)) key = (if owned_by db ks key then None else map_of (cd_ledger db) key)"
  using map_of_filter_value[of "cd_ledger db" "\<lambda>(run, k). k \<notin> set ks" key] assms unfolding owned_by_map_of[OF assms]
  by (cases "map_of (cd_ledger db) key") (auto simp: ledger_ok_def)

lemma disjoint_image: "A \<inter> f ` B = {} \<longleftrightarrow> (\<forall>b \<in> B. f b \<notin> A)"
  by auto

lemma map_of_append_new:
  assumes "\<And>c. c \<in> set cs \<Longrightarrow> k c \<notin> fst ` set xs"
  shows "map_of (xs @ map (\<lambda>c. (k c, v c)) cs) = map_of xs ++ map_of (map (\<lambda>c. (k c, v c)) cs)"
proof -
  have "fst ` set (map (\<lambda>c. (k c, v c)) cs) = k ` set cs" by force
  then have "dom (map_of xs) \<inter> dom (map_of (map (\<lambda>c. (k c, v c)) cs)) = {}" unfolding dom_map_of_conv_image_fst by (simp only: disjoint_image) (intro ballI assms)
  then show ?thesis unfolding map_of_append by (rule map_add_comm[symmetric])
qed

lemma stored_refreshed:
  assumes del: "delete_kinds env ks db = Inr db1" and ins: "insert_all env cs res db1 = Inr (res', db2)" and ok: "ledger_ok db"
    and cs: "\<And>c. c \<in> set cs \<Longrightarrow> cand_Kind c \<in> set ks \<and> cand_Table c \<in> set (tables_of (cand_Kind c))"
  shows "refreshed env ks cs db db2 \<and> ledger_ok db2 \<and> cd_runs db2 = cd_runs db"
proof -
  note i = insert_all_Inr[OF ins]
  have tabs: "cd_rows db2 = cd_rows db1 @ map (\<lambda>c. (cand_key c, stored_columns env c)) cs"
      "cd_ledger db2 = cd_ledger db1 @ map (\<lambda>c. (cand_key c, ce_run_id env, cand_Kind c)) cs" using i by simp_all
  note d = delete_kinds_Inr[OF del ok]
  let ?rows = "map (\<lambda>c. (cand_key c, stored_columns env c)) cs" and ?ledger = "map (\<lambda>c. (cand_key c, ce_run_id env, cand_Kind c)) cs"
  have rows: "map_of (cd_rows db1) = (\<lambda>key. if owned_by db ks key then None else map_of (cd_rows db) key)"
    unfolding d by (rule ext) (simp add: map_of_filter_key[of "\<lambda>key. \<not> owned_by db ks key"])
  have ledger: "map_of (cd_ledger db1) = (\<lambda>key. if owned_by db ks key then None else map_of (cd_ledger db) key)"
    unfolding d by (rule ext) (simp add: map_of_filter_ledger[OF ok])
  have new: "cand_key c \<notin> fst ` set (cd_rows db1)" "cand_key c \<notin> fst ` set (cd_ledger db1)" if "c \<in> set cs" for c
    using i that by blast+
  have r2: "map_of (cd_rows db2) = map_of (cd_rows db1) ++ map_of ?rows"
    unfolding tabs by (rule map_of_append_new) (rule new(1))
  have l2: "map_of (cd_ledger db2) = map_of (cd_ledger db1) ++ map_of ?ledger"
    unfolding tabs by (rule map_of_append_new) (rule new(2))
  have "map_of (cd_rows db) (cand_key c) = None \<or> owned_by db ks (cand_key c)" if "c \<in> set cs" for c
  proof -
    have "map_of (cd_rows db1) (cand_key c) = None" using new(1)[OF that] by (simp add: map_of_eq_None_iff)
    then show ?thesis unfolding rows by (simp split: if_splits)
  qed
  then have "refreshed env ks cs db db2" using i cs unfolding refreshed_def r2 l2 rows ledger by auto
  note refreshed = this
  have "distinct (map fst (cd_ledger db1))" using ok unfolding d by (simp add: ledger_ok_def distinct_map_filter)
  moreover have "fst ` set (cd_ledger db1) \<inter> cand_key ` set cs = {}" unfolding disjoint_image by (intro ballI new)
  ultimately have "distinct (map fst (cd_ledger db2))" using i unfolding tabs by (simp add: comp_def image_image)
  moreover have "\<forall>x \<in> set (cd_ledger db2). fst (fst x) \<in> set (tables_of (snd (snd x)))"
    using cs ok unfolding tabs d by (auto simp: ledger_ok_def cand_key_def)
  ultimately show ?thesis using refreshed i unfolding d by (simp add: ledger_ok_def)
qed


text \<open>A failed refresh leaves the rows and the ledger, and at most its failed run.\<close>

definition kept :: "Result \<Rightarrow> corr_db \<Rightarrow> corr_db \<Rightarrow> bool" where
  "kept res db db' \<longleftrightarrow> cd_rows db' = cd_rows db \<and> cd_ledger db' = cd_ledger db \<and>
     (cd_runs db' = cd_runs db \<or> rr_Status res = ''failed'' \<and> cd_runs db' = cd_runs db @ [run_of res])"

lemma kept_refl [simp]: "kept res db db"
  by (simp add: kept_def)

lemma recordFailure_kept: "recordFailure env res cause db = (res', errs, db') \<Longrightarrow> errs \<noteq> [] \<and> kept res' db db'"
  by (auto simp: recordFailure_def insertRun_def corr_exec_Inr kept_def Let_def split: sum.splits)

text \<open>The result and the run of a refresh that stored \<open>cs\<close>.\<close>

definition completed :: "corr_env \<Rightarrow> evidence_kind list \<Rightarrow> candidate list \<Rightarrow> Result \<Rightarrow> corr_db \<Rightarrow> corr_db \<Rightarrow> bool" where
  "completed env ks cs res db db' \<longleftrightarrow> rr_Status res = ''completed'' \<and> rr_Kinds res = ks \<and> rr_EvidenceCount res = int (length cs) \<and>
     rr_RowCount res = int (length cs) \<and> rr_RejectedCount res = 0 \<and> cd_runs db' = cd_runs db @ [run_of res]"

lemma ledger_ok_runs [simp]: "ledger_ok (db\<lparr>cd_runs := x\<rparr>) = ledger_ok db"
  by (simp add: ledger_ok_def)

lemma refreshed_runs [simp]: "refreshed env ks cs db (db'\<lparr>cd_runs := x\<rparr>) = refreshed env ks cs db db'"
  by (simp add: refreshed_def)

lemma materialize_cases:
  assumes "materialize env cs res db = (res', errs, db')" "ledger_ok db"
    and "\<And>c. c \<in> set cs \<Longrightarrow> cand_Kind c \<in> set (rr_Kinds res) \<and> cand_Table c \<in> set (tables_of (cand_Kind c))"
    and "collected \<lparr>rr_RunID = i, rr_Status = s, rr_Kinds = ks, rr_EvidenceCount = 0, rr_RejectedCount = 0, rr_RowCount = 0, rr_Coverage = [],
      rr_StartedAt = t0, rr_EndedAt = t1, rr_Error = False\<rparr> (length cs) res"
  shows "if errs = [] then refreshed env ks cs db db' \<and> ledger_ok db' \<and> completed env ks cs res' db db' else kept res' db db'"
proof -
  have res: "rr_Kinds res = ks" "rr_EvidenceCount res = int (length cs)" "rr_RejectedCount res = 0" "rr_RowCount res = 0"
    using assms(4) unfolding collected_def by (metis Result.select_convs Result.simps add_0)+
  show ?thesis
  proof (cases "ce_begin env")
    case (Some err) then show ?thesis using assms(1) by (auto simp: materialize_def)
  next
    case None
    show ?thesis
    proof (cases "delete_kinds env (rr_Kinds res) db")
      case (Inl err) then show ?thesis using assms(1) None by (auto simp: materialize_def dest: recordFailure_kept)
    next
      case db1: (Inr db1)
      show ?thesis
      proof (cases "insert_all env cs res db1")
        case (Inl p) then show ?thesis using assms(1) None db1 by (cases p) (auto simp: materialize_def dest: recordFailure_kept)
      next
        case (Inr p)
        obtain res2 db2 where p: "p = (res2, db2)" by (cases p)
        have ins: "insert_all env cs res db1 = Inr (res2, db2)" using Inr p by simp
        have r2: "res2 = res\<lparr>rr_RowCount := int (length cs)\<rparr>" using insert_all_Inr[OF ins] res by simp
        have s: "refreshed env ks cs db db2 \<and> ledger_ok db2 \<and> cd_runs db2 = cd_runs db"
          using stored_refreshed[OF db1 ins assms(2)] assms(3) res(1) by blast
        show ?thesis using assms(1) None db1 ins s res unfolding r2
          by (auto simp: materialize_def insertRun_def corr_exec_Inr completed_def Let_def split: sum.splits option.splits)
      qed
    qed
  qed
qed

lemma Refresh_cases:
  assumes "Refresh env sort_Slice kinds observations db = (res, errs, db')" "ledger_ok db"
  defines "ks \<equiv> normalizeKinds sort_Slice kinds"
  shows "if errs = [] then \<exists>cs. map Inr cs = selected_candidates env ks (loadEvidenceResources observations) \<and>
      refreshed env ks cs db db' \<and> ledger_ok db' \<and> completed env ks cs res db db' else kept res db db'"
proof -
  let ?res0 = "\<lparr>rr_RunID = ce_run_id env, rr_Status = ''running'', rr_Kinds = ks, rr_EvidenceCount = 0, rr_RejectedCount = 0,
    rr_RowCount = 0, rr_Coverage = [], rr_StartedAt = ce_start env, rr_EndedAt = zero_time, rr_Error = False\<rparr>"
  show ?thesis
  proof (cases "ce_open env = None \<and> ce_connect env = None \<and> ce_load env = None")
    case False then show ?thesis using assms(1) by (auto simp: Refresh_def Let_def split: option.splits)
  next
    case True
    show ?thesis
    proof (cases "collect env ks (loadEvidenceResources observations) (?res0, [])")
      case (Inl p)
      then show ?thesis using assms(1) True by (cases p) (auto simp: Refresh_def ks_def dest: recordFailure_kept)
    next
      case (Inr p)
      obtain res1 cs where p: "p = (res1, cs)" by (cases p)
      have cs: "map Inr cs = selected_candidates env ks (loadEvidenceResources observations)" "collected ?res0 (length cs) res1"
        using collect_Inr[OF Inr[unfolded p]] by auto
      have m: "materialize env cs res1 db = (res, errs, db')" using assms(1) True Inr p by (simp add: Refresh_def ks_def)
      have ks1: "rr_Kinds res1 = ks" using cs(2) unfolding collected_def by (metis Result.select_convs Result.simps)
      have "cand_Kind c \<in> set ks \<and> cand_Table c \<in> set (tables_of (cand_Kind c))" if "c \<in> set cs" for c
      proof -
        have "Inr c \<in> set (map Inr cs :: (candidate_error + candidate) list)" using that by simp
        then show ?thesis unfolding cs(1) by (auto simp: selected_candidates_def dest: buildCandidate_kind[OF sym])
      qed
      then show ?thesis using materialize_cases[OF m assms(2) _ cs(2)] cs(1) ks1 by auto
    qed
  qed
qed


lemma normalizeKinds_set:
  assumes "sorts_slices sort_Slice"
  shows "set (normalizeKinds sort_Slice kinds) = (if kinds = [] then set AllKinds else set kinds \<inter> set AllKinds)"
proof -
  have "set (sort_Slice (<) xs) = set xs" for xs :: "evidence_kind list" using assms by (metis sorts_slices_def set_mset_mset)
  moreover have "{k. map_of kindTables k \<noteq> None} = set AllKinds" by (auto simp: kindTables_def AllKinds_def split: if_splits)
  ultimately show ?thesis using dedupe_by_keys[of "\<lambda>k. k" "[]" "filter (\<lambda>k. map_of kindTables k \<noteq> None) kinds"]
    by (auto simp: normalizeKinds_def)
qed

text \<open>A second refresh over the same observations leaves the same rows.\<close>

lemma refreshed_twice:
  assumes "refreshed env ks cs db d1" "refreshed env' ks cs d1 d2" "ledger_ok db" "ledger_ok d1"
    and "\<And>c. c \<in> set cs \<Longrightarrow> stored_columns env' c = stored_columns env c"
  shows "map_of (cd_rows d2) = map_of (cd_rows d1)"
proof
  fix key
  have same: "map (\<lambda>c. (cand_key c, stored_columns env' c)) cs = map (\<lambda>c. (cand_key c, stored_columns env c)) cs" using assms(5) by simp
  show "map_of (cd_rows d2) key = map_of (cd_rows d1) key"
  proof (cases "map_of (map (\<lambda>c. (cand_key c, stored_columns env c)) cs) key")
    case (Some row) then show ?thesis using assms(1,2) unfolding refreshed_def same by (simp add: map_add_Some_iff)
  next
    case None
    then have "key \<notin> cand_key ` set cs" by (simp add: map_of_eq_None_iff image_image)
    then have "map_of (map (\<lambda>c. (cand_key c, (ce_run_id env, cand_Kind c))) cs) key = None" by (simp add: map_of_eq_None_iff image_image)
    then have "map_of (cd_ledger d1) key = (if owned_by db ks key then None else map_of (cd_ledger db) key)"
      using assms(1) by (simp add: refreshed_def map_add_def)
    then have "\<not> owned_by d1 ks key" unfolding owned_by_map_of[OF assms(4)] using owned_by_map_of[OF assms(3)] by (auto split: if_splits)
    then show ?thesis using None assms(2) unfolding refreshed_def same by (simp add: map_add_def)
  qed
qed

text \<open>What a refresh gives, in four parts.\<close>

lemma Refresh_gives:
  assumes "ledger_ok db" "sorts_slices sort_Slice" "Refresh env sort_Slice kinds observations db = (res, errs, db')"
  defines "ks \<equiv> normalizeKinds sort_Slice kinds"
  shows "set ks = (if kinds = [] then set AllKinds else set kinds \<inter> set AllKinds)"
    and "errs \<noteq> [] \<Longrightarrow> kept res db db'"
    and "errs = [] \<Longrightarrow> \<exists>cs. map Inr cs = selected_candidates env ks (loadEvidenceResources observations) \<and>
      refreshed env ks cs db db' \<and> completed env ks cs res db db'"
    and "ledger_ok db'"
proof -
  note r = Refresh_cases[OF assms(3,1), folded ks_def]
  show "set ks = (if kinds = [] then set AllKinds else set kinds \<inter> set AllKinds)" unfolding ks_def by (rule normalizeKinds_set[OF assms(2)])
  show "kept res db db'" if "errs \<noteq> []" using r that by simp
  show "\<exists>cs. map Inr cs = selected_candidates env ks (loadEvidenceResources observations) \<and>
      refreshed env ks cs db db' \<and> completed env ks cs res db db'" if "errs = []" using r that by auto
  show "ledger_ok db'" using r assms(1) by (auto simp: kept_def ledger_ok_def split: if_splits)
qed

text \<open>C31. Refreshing the correlation tables is all or nothing and exact. If it reports an error, every row and the ledger of owned rows are as before, and
  at most a failed run was recorded. Otherwise every evidence of the selected kinds of the latest observations gave a row, under distinct keys, and the
  tables hold exactly these rows beside the rows the selected kinds did not own; a row that no earlier refresh wrote is never touched, the ledger owns
  exactly what the tables hold, the run carries the counts, and the ledger stays consistent.\<close>

theorem refresh_exact:
  assumes "ledger_ok db" "sorts_slices sort_Slice" "Refresh env sort_Slice kinds observations db = (res, errs, db')"
  shows "set (normalizeKinds sort_Slice kinds) = (if kinds = [] then set AllKinds else set kinds \<inter> set AllKinds) \<and>
    (if errs \<noteq> [] then kept res db db'
     else \<exists>cs. map Inr cs = selected_candidates env (normalizeKinds sort_Slice kinds) (loadEvidenceResources observations) \<and>
       refreshed env (normalizeKinds sort_Slice kinds) cs db db' \<and> completed env (normalizeKinds sort_Slice kinds) cs res db db') \<and>
    ledger_ok db'"
  using Refresh_gives[OF assms] by (cases "errs = []") simp_all

subsection \<open>An instance\<close>

definition demo_evidence :: Evidence where
  "demo_evidence = \<lparr>evi_ID = ''e'', evi_Kind = ''ip'', evi_Subtype = [], evi_Confidence = 1, evi_Method = ''m'', evi_Values = [(''ip_address'', TextValue ''10.0.0.1'')]\<rparr>"

definition demo_codec :: evidence_codec where
  "demo_codec = \<lparr>ec_members = (\<lambda>s. Inr [AttributeKey \<mapsto> s]), ec_envelope = (\<lambda>s. Inr \<lparr>env_Version = Version, env_Evidence = [demo_evidence]\<rparr>),
     ec_object = (\<lambda>s. Inl ''no''), ec_marshal = (\<lambda>v. []), ec_with_envelope = (\<lambda>r v. Inl ''no'')\<rparr>"

definition demo_corr_env :: corr_env where
  "demo_corr_env = \<lparr>ce_open = None, ce_connect = None, ce_load = None, ce_begin = None, ce_commit = None, ce_stmt = (\<lambda>s. None),
     ce_columns = (\<lambda>t. [\<lparr>col_Name = ''ip_address'', col_Type = ''VARCHAR'', col_NotNull = True, col_HasDefault = False\<rparr>]),
     ce_encode = (\<lambda>v. Inl ''no''), ce_codec = demo_codec, ce_run_id = ''r2'', ce_start = 7, ce_end = 8\<rparr>"

definition demo_corr_db :: corr_db where
  "demo_corr_db = \<lparr>cd_rows = [((''cross_cloud_ip_addresses'', ''stale''), []), ((''cross_cloud_ip_addresses'', ''other''), [])],
     cd_ledger = [((''cross_cloud_ip_addresses'', ''stale''), (''r1'', ''ip''))], cd_runs = []\<rparr>"

definition demo_seen :: Observation where
  "demo_seen = (demo_observation ''i'' ''h'')\<lparr>obs_Attributes := ''x''\<rparr>"

definition demo_candidate :: candidate where
  "demo_candidate = projr (buildCandidate (source_of demo_seen) demo_evidence)"

lemma demo_candidate_built:
  "buildCandidate (source_of demo_seen) demo_evidence = Inr demo_candidate"
  "cand_key demo_candidate = (''cross_cloud_ip_addresses'', candidate_row_id (source_of demo_seen) demo_evidence)"
  "insert_columns demo_corr_env demo_candidate (ce_columns demo_corr_env (cand_Table demo_candidate)) [] = Inr [(''ip_address'', ValueArg (TextValue ''10.0.0.1''))]"
  by (simp_all add: demo_candidate_def buildCandidate_def evidenceTable_def demo_evidence_def tables_of_def kindTables_def cand_key_def
      demo_corr_env_def column_arg_def strings_ToLower_def Let_def)

lemma demo_parsed:
  "ParseAttributes (ce_codec demo_corr_env) (sres_Attributes (source_of demo_seen)) = Inr \<lparr>env_Version = Version, env_Evidence = [demo_evidence]\<rparr>"
  by (simp add: ParseAttributes_def demo_corr_env_def demo_codec_def source_of_def demo_seen_def
      demo_evidence_def strings_TrimSpace_def ascii_space_def Evidence_Validate_def AllKinds_def)

lemma demo_parts:
  "evi_Kind demo_evidence = ''ip''" "cand_Table demo_candidate = ''cross_cloud_ip_addresses''" "cand_Kind demo_candidate = ''ip''"
  "cand_RowID demo_candidate \<noteq> ''stale''" "cand_RowID demo_candidate \<noteq> ''other''"
  "normalizeKinds insertion_sorter [''ip''] = [''ip'']" "tables_of ''ip'' = [''cross_cloud_ip_addresses'']"
  using demo_candidate_built(2)
  by (simp_all add: demo_candidate_def buildCandidate_def evidenceTable_def demo_evidence_def tables_of_def kindTables_def cand_key_def
      candidate_row_id_def normalizeKinds_def insertion_sorter_def Let_def)

lemma demo_loaded: "loadEvidenceResources [demo_seen] = [source_of demo_seen]"
  by (simp add: loadEvidenceResources_def latest_of_def)

lemma demo_selected: "selected_candidates demo_corr_env [''ip''] [source_of demo_seen] = [Inr demo_candidate]"
  by (simp add: selected_candidates_def evidence_of_def demo_parsed demo_parts demo_candidate_built)

lemma demo_calls:
  "ce_open demo_corr_env = None" "ce_connect demo_corr_env = None" "ce_load demo_corr_env = None" "ce_begin demo_corr_env = None"
  "ce_commit demo_corr_env = None" "ce_stmt demo_corr_env stmt = None"
  by (simp_all add: demo_corr_env_def)

lemma demo_refreshed: "fst (snd (Refresh demo_corr_env insertion_sorter [''ip''] [demo_seen] demo_corr_db)) = []"
proof -
  have "\<exists>res. collect demo_corr_env [''ip''] [source_of demo_seen] (res0, []) = Inr (res, [demo_candidate]) \<and> rr_Kinds res = rr_Kinds res0" for res0
    by (simp add: demo_parsed demo_parts demo_candidate_built)
  moreover have "fst (snd (materialize demo_corr_env [demo_candidate] res demo_corr_db)) = []" if "rr_Kinds res = [''ip'']" for res
    using that demo_candidate_built(3)
    by (simp add: materialize_def demo_calls demo_parts corr_exec_def insertCandidate_def insert_ledger_def insertRun_def Let_def
        delete_owned_def delete_ledger_def owned_def demo_corr_db_def)
  ultimately show ?thesis
    by (simp add: Refresh_def demo_calls demo_parts demo_loaded) (metis Result.select_convs(3) old.sum.simps(6) case_prod_conv)
qed

theorem refresh_exact_witness:
  "case Refresh demo_corr_env insertion_sorter [''ip''] [demo_seen] demo_corr_db of (res, errs, db') \<Rightarrow> errs = [] \<and> rr_RowCount res = 1 \<and>
     map_of (cd_rows db') (cand_key demo_candidate) = Some [(''ip_address'', ValueArg (TextValue ''10.0.0.1''))] \<and>
     map_of (cd_rows db') (''cross_cloud_ip_addresses'', ''stale'') = None \<and>
     map_of (cd_rows db') (''cross_cloud_ip_addresses'', ''other'') = Some []"
proof -
  obtain res db' where r: "Refresh demo_corr_env insertion_sorter [''ip''] [demo_seen] demo_corr_db = (res, [], db')"
    using demo_refreshed by (metis prod.collapse)
  have ok: "ledger_ok demo_corr_db" by (simp add: ledger_ok_def demo_corr_db_def demo_parts)
  obtain cs where cs: "map Inr cs = selected_candidates demo_corr_env [''ip''] [source_of demo_seen]"
      "refreshed demo_corr_env [''ip''] cs demo_corr_db db'" "completed demo_corr_env [''ip''] cs res demo_corr_db db'"
    using refresh_exact[OF ok insertion_sorter_ok r] unfolding demo_parts demo_loaded by auto
  have c: "cs = [demo_candidate]" using cs(1) unfolding demo_selected by (cases cs) auto
  have own: "owned_by demo_corr_db [''ip''] (''cross_cloud_ip_addresses'', i) \<longleftrightarrow> i = ''stale''" for i
    by (simp add: owned_by_def demo_corr_db_def)
  have s: "stored_columns demo_corr_env demo_candidate = [(''ip_address'', ValueArg (TextValue ''10.0.0.1''))]"
    by (simp add: stored_columns_def demo_candidate_built)
  have rows: "map_of (cd_rows db') = (\<lambda>key. if owned_by demo_corr_db [''ip''] key then None else map_of (cd_rows demo_corr_db) key) ++
      [cand_key demo_candidate \<mapsto> [(''ip_address'', ValueArg (TextValue ''10.0.0.1''))]]"
    using cs(2) unfolding refreshed_def c by (simp add: s)
  have "rr_RowCount res = 1" using cs(3) by (simp add: completed_def c)
  then show ?thesis unfolding r using demo_parts(4,5)[symmetric] by (simp add: rows cand_key_def demo_parts own) (simp add: demo_corr_db_def)
qed

end
