(* ===== verification/Query_App.thy ===== *)
theory Query_App imports Query_Engine Data_Types begin

text \<open>
  internal/app/query/query.go: one read query with its failure classified and hints for its repair, and a run of
  compliance controls. The hints for a misspelt table rest on the edit distance of two names, which the code
  fills in as a matrix: it is the length of a shortest sequence of edits.
\<close>

subsection \<open>The edit distance\<close>

text \<open>Reading and writing a cell panics out of range.\<close>

definition list_at :: "'a list \<Rightarrow> nat \<Rightarrow> 'a panics" where
  "list_at xs i = (if i < length xs then Some (xs ! i) else None)"

definition matrix_at :: "nat list list \<Rightarrow> nat \<Rightarrow> nat \<Rightarrow> nat panics" where
  "matrix_at m i j = do { row \<leftarrow> list_at m i; list_at row j }"

definition matrix_set :: "nat \<Rightarrow> nat \<Rightarrow> nat \<Rightarrow> nat list list \<Rightarrow> nat list list panics" where
  "matrix_set i j v m = do { row \<leftarrow> list_at m i; _ \<leftarrow> list_at row j; Some (m[i := row[j := v]]) }"

fun for_each :: "('i \<Rightarrow> 's \<Rightarrow> 's panics) \<Rightarrow> 'i list \<Rightarrow> 's \<Rightarrow> 's panics" where
  "for_each body [] st = Some st"
| "for_each body (i # is) st = do { st \<leftarrow> body i st; for_each body is st }"

definition matrix_cell :: "string \<Rightarrow> string \<Rightarrow> nat \<Rightarrow> nat \<Rightarrow> nat list list \<Rightarrow> nat list list panics" where
  "matrix_cell s1 s2 i j m = do {
     a \<leftarrow> list_at s1 (i - 1);
     b \<leftarrow> list_at s2 (j - 1);
     above \<leftarrow> matrix_at m (i - 1) j;
     left \<leftarrow> matrix_at m i (j - 1);
     diagonal \<leftarrow> matrix_at m (i - 1) (j - 1);
     matrix_set i j (min (above + 1) (min (left + 1) (diagonal + (if a \<noteq> b then 1 else 0)))) m
   }"

definition levenshteinDistance :: "string \<Rightarrow> string \<Rightarrow> nat panics" where
  "levenshteinDistance s1 s2 =
     (if s1 = [] then Some (length s2) else if s2 = [] then Some (length s1)
      else do {
        m \<leftarrow> for_each (\<lambda>i. matrix_set i 0 i) [0..<length s1 + 1] (replicate (length s1 + 1) (replicate (length s2 + 1) 0));
        m \<leftarrow> for_each (\<lambda>j. matrix_set 0 j j) [0..<length s2 + 1] m;
        m \<leftarrow> for_each (\<lambda>i. for_each (\<lambda>j. matrix_cell s1 s2 i j) [1..<length s2 + 1]) [1..<length s1 + 1] m;
        matrix_at m (length s1) (length s2)
      })"

subsection \<open>Classified failures\<close>

definition commonTables :: "string list" where
  "commonTables = [''all_cloud_resources'', ''cloud_relationships'', ''resource_counts_by_provider'', ''scan_metadata'']"

fun suggest_loop :: "string \<Rightarrow> string list \<Rightarrow> string list \<Rightarrow> string list panics" where
  "suggest_loop input [] suggestions = Some suggestions"
| "suggest_loop input (t # ts) suggestions = (let table = strings_ToLower t in
     if strings_Contains table input \<or> strings_Contains input table then suggest_loop input ts (suggestions @ [t])
     else do {
       d \<leftarrow> levenshteinDistance input table;
       suggest_loop input ts (if d \<le> 3 then suggestions @ [t] else suggestions)
     })"

definition suggestTableNames :: "string \<Rightarrow> string list panics" where
  "suggestTableNames tableName = suggest_loop (strings_ToLower tableName) commonTables []"

datatype ErrorKind = ErrorTableNotFound | ErrorSyntax | ErrorOther

record QueryError =
  qerr_SQL :: string
  qerr_Kind :: ErrorKind
  qerr_Cause :: string
  qerr_MissingTable :: string
  qerr_Suggestions :: "string list"
  qerr_AvailableTables :: "string list"
  qerr_Position :: int

text \<open>The first group of the leftmost match; no character of the group may follow it.\<close>

fun find_group :: "string \<Rightarrow> (char \<Rightarrow> bool) \<Rightarrow> (char \<Rightarrow> bool) \<Rightarrow> string \<Rightarrow> string \<Rightarrow> string option" where
  "find_group before first cont after [] = None"
| "find_group before first cont after (c # cs) =
     (let rest = drop (length before) (c # cs); name = takeWhile cont rest in
      if prefix before (c # cs) \<and> name \<noteq> [] \<and> first (hd name) \<and> prefix after (dropWhile cont rest) then Some name
      else find_group before first cont after cs)"

definition tableNotFoundPattern :: "string \<Rightarrow> string option" where
  "tableNotFoundPattern = find_group ''Table with name '' ident_start ident_char '' does not exist''"

definition errorPositionPattern :: "string \<Rightarrow> string option" where
  "errorPositionPattern = find_group ''at or near position '' digit_char digit_char []"

definition extractErrorPosition :: "string \<Rightarrow> int" where
  "extractErrorPosition message = (case errorPositionPattern message of
     None \<Rightarrow> 0 | Some s \<Rightarrow> (case Sscanf_d s of None \<Rightarrow> 0 | Some position \<Rightarrow> position))"

type_synonym query_engine = "string \<Rightarrow> string + (cell option list list \<times> string list)"

fun table_names :: "cell option list list \<Rightarrow> string list panics" where
  "table_names [] = Some []"
| "table_names (row # rows) = do {
     v \<leftarrow> list_at row 0;
     names \<leftarrow> table_names rows;
     Some (case v of Some (SqlString name) \<Rightarrow> name # names | _ \<Rightarrow> names)
   }"

definition tables_query :: string where
  "tables_query = ''SELECT DISTINCT table_name FROM information_schema.tables WHERE table_schema = '' @ [CHR 0x27] @ ''main'' @ [CHR 0x27]"

definition availableTables :: "query_engine \<Rightarrow> string list panics" where
  "availableTables engine = (case engine tables_query of Inl _ \<Rightarrow> Some [] | Inr (rows, columns) \<Rightarrow> table_names rows)"

definition classifyQueryError :: "query_engine \<Rightarrow> string \<Rightarrow> string \<Rightarrow> QueryError panics" where
  "classifyQueryError engine sql cause =
     (let result = \<lparr>qerr_SQL = sql, qerr_Kind = ErrorOther, qerr_Cause = cause, qerr_MissingTable = [], qerr_Suggestions = [],
          qerr_AvailableTables = [], qerr_Position = 0\<rparr> in
      if strings_Contains cause ''no such table'' \<or> strings_Contains cause ''does not exist'' then do {
        tables \<leftarrow> availableTables engine;
        (let result = result\<lparr>qerr_Kind := ErrorTableNotFound, qerr_AvailableTables := tables\<rparr> in
         case tableNotFoundPattern cause of
           None \<Rightarrow> Some result
         | Some name \<Rightarrow> do {
             suggestions \<leftarrow> suggestTableNames name;
             Some (result\<lparr>qerr_MissingTable := name, qerr_Suggestions := suggestions\<rparr>)
           })
      }
      else if strings_Contains cause ''syntax error''
      then Some (result\<lparr>qerr_Kind := ErrorSyntax, qerr_Position := extractErrorPosition cause\<rparr>)
      else Some result)"

datatype query_run_error = CreateEngine string | Classified QueryError

text \<open>What opening an engine gives for the target with or without the sandbox.\<close>

definition Query_Run :: "(bool \<Rightarrow> string \<Rightarrow> string + database option \<times> int) \<Rightarrow> string \<Rightarrow> bool \<Rightarrow> string \<Rightarrow>
    (query_run_error + (string list \<times> cell option list list)) panics" where
  "Query_Run engine_for target sandbox sql = (case engine_for sandbox target of
     Inl err \<Rightarrow> Some (Inl (CreateEngine err))
   | Inr (session, maxRows) \<Rightarrow> (let engine = Engine_ExecuteQuery session maxRows in
      case engine sql of
        Inl err \<Rightarrow> do { e \<leftarrow> classifyQueryError engine sql err; Some (Inl (Classified e)) }
      | Inr (rows, columns) \<Rightarrow> Some (Inr (columns, rows))))"

end
