(* ===== verification/Edit_Distance.thy ===== *)
theory Edit_Distance imports Query_App begin

text \<open>
  The matrix of internal/app/query/query.go computes the edit distance: the length of a shortest sequence of
  single-character edits. First the recursion on two strings is shown to be that length, then the matrix to hold
  the recursion's value for every pair of prefixes; from that, which table names are suggested.
\<close>


subsection \<open>The distance is the length of a shortest edit\<close>

inductive edit :: "'a list \<Rightarrow> 'a list \<Rightarrow> bool" where
  insert_one: "edit (u @ v) (u @ c # v)"
| delete_one: "edit (u @ c # v) (u @ v)"
| replace_one: "edit (u @ c # v) (u @ d # v)"

fun distance :: "'a list \<Rightarrow> 'a list \<Rightarrow> nat" where
  "distance [] ys = length ys"
| "distance (x # xs) [] = Suc (length xs)"
| "distance (x # xs) (y # ys) =
     min (distance xs (y # ys) + 1) (min (distance (x # xs) ys + 1) (distance xs ys + (if x \<noteq> y then 1 else 0)))"

lemma edit_Cons: "edit xs ys \<Longrightarrow> edit (c # xs) (c # ys)"
  by (induction rule: edit.induct) (metis append_Cons edit.intros)+

lemma edits_Cons: "(edit ^^ n) xs ys \<Longrightarrow> (edit ^^ n) (c # xs) (c # ys)"
  by (induction n arbitrary: ys) (auto intro: edit_Cons)

lemma edit_hd: "edit (c # v) v" "edit v (c # v)" "edit (c # v) (d # v)"
  using edit.intros[of "[]"] by simp_all

lemma distance_reached: "(edit ^^ distance xs ys) xs ys"
proof (induction xs ys rule: distance.induct)
  case (1 ys) show ?case by (induction ys) (auto intro: edit_hd)
next
  case (2 x xs)
  have "(edit ^^ length zs) zs []" for zs :: "'a list"
  proof (induction zs)
    case (Cons z zs) then show ?case using relpowp_Suc_I2[of edit "z # zs" zs "length zs" "[]"] edit_hd(1)[of z zs] by simp
  qed simp
  from this[of "x # xs"] show ?case by simp
next
  case (3 x xs y ys)
  have a: "(edit ^^ (distance xs (y # ys) + 1)) (x # xs) (y # ys)"
    using relpowp_Suc_I2[OF edit_hd(1) "3.IH"(1)] by simp
  have b: "(edit ^^ (distance (x # xs) ys + 1)) (x # xs) (y # ys)"
    using relpowp_Suc_I[OF "3.IH"(2) edit_hd(2)] by simp
  have c: "(edit ^^ (distance xs ys + (if x \<noteq> y then 1 else 0))) (x # xs) (y # ys)"
    using edits_Cons[OF "3.IH"(3)] relpowp_Suc_I2[OF edit_hd(3) edits_Cons[OF "3.IH"(3)]] by auto
  show ?case using a b c by (simp only: distance.simps min_def) (simp split: if_split del: relpowp.simps)
qed

lemma distance_insert_right: "distance xs (y # ys) \<le> distance xs ys + 1"
  by (cases xs) auto

lemma distance_insert_left: "distance (x # xs) ys \<le> distance xs ys + 1"
  by (cases ys; cases xs) auto

lemma distance_delete_left: "distance xs ys \<le> distance (x # xs) ys + 1"
proof (induction ys)
  case Nil then show ?case by (cases xs) auto
next
  case (Cons y ys) then show ?case using distance_insert_right[of xs y ys] by (simp add: min_def)
qed

lemma distance_replace_left: "distance (c # xs) ys \<le> distance (d # xs) ys + 1"
  by (induction ys) auto

lemma distance_Cons_mono: "(\<And>zs. distance xs zs \<le> distance ys zs + 1) \<Longrightarrow> distance (a # xs) zs \<le> distance (a # ys) zs + 1"
proof (induction zs)
  case Nil
  from Nil[of "[]"] show ?case by (cases xs; cases ys) auto
next
  case (Cons z zs)
  from Cons.IH[OF Cons.prems] Cons.prems[of "z # zs"] Cons.prems[of zs] show ?case by auto
qed

lemma edit_lipschitz: "edit xs ys \<Longrightarrow> distance xs zs \<le> distance ys zs + 1"
proof (induction arbitrary: zs rule: edit.induct)
  case (insert_one u v c) show ?case
    by (induction u arbitrary: zs) (simp add: distance_delete_left[simplified], metis append_Cons distance_Cons_mono)
next
  case (delete_one u c v) show ?case
    by (induction u arbitrary: zs) (simp add: distance_insert_left[simplified], metis append_Cons distance_Cons_mono)
next
  case (replace_one u c v d) show ?case
    by (induction u arbitrary: zs) (simp add: distance_replace_left[simplified], metis append_Cons distance_Cons_mono)
qed

lemma distance_same [simp]: "distance xs xs = 0"
  by (induction xs) auto

lemma distance_least: "(edit ^^ n) xs ys \<Longrightarrow> distance xs ys \<le> n"
proof (induction n arbitrary: xs)
  case (Suc n)
  obtain ws where "edit xs ws" "(edit ^^ n) ws ys" using relpowp_Suc_D2[OF Suc.prems] by blast
  then show ?case using edit_lipschitz[of xs ws ys] Suc.IH[of ws] by linarith
qed simp

lemma distance_Least: "distance xs ys = (LEAST n. (edit ^^ n) xs ys)"
  by (rule Least_equality[symmetric]) (auto intro: distance_reached distance_least)

lemma edit_rev: "edit xs ys \<Longrightarrow> edit (rev xs) (rev ys)"
  by (induction rule: edit.induct) (auto intro: edit.intros)

lemma edits_rev: "(edit ^^ n) xs ys \<Longrightarrow> (edit ^^ n) (rev xs) (rev ys)"
  by (induction n arbitrary: ys) (auto intro: edit_rev)

lemma distance_rev: "distance (rev xs) (rev ys) = distance xs ys"
proof -
  have "(edit ^^ n) (rev xs) (rev ys) = (edit ^^ n) xs ys" for n using edits_rev[of n "rev xs" "rev ys"] edits_rev[of n xs ys] by auto
  then show ?thesis by (simp add: distance_Least)
qed


subsection \<open>The matrix holds the distances of the prefixes\<close>

definition tab :: "nat \<Rightarrow> nat \<Rightarrow> (nat \<Rightarrow> nat \<Rightarrow> nat) \<Rightarrow> nat list list" where
  "tab a b f = map (\<lambda>i. map (f i) [0..<b + 1]) [0..<a + 1]"

lemma list_at_map_upt: "i < n \<Longrightarrow> list_at (map f [0..<n]) i = Some (f i)"
  by (simp add: list_at_def del: upt_Suc)

lemma tab_at: "i \<le> a \<Longrightarrow> j \<le> b \<Longrightarrow> matrix_at (tab a b f) i j = Some (f i j)"
  by (simp add: matrix_at_def tab_def list_at_map_upt del: upt_Suc)

lemma map_upt_update: "i < n \<Longrightarrow> (map f [0..<n])[i := v] = map (f(i := v)) [0..<n]"
  by (rule nth_equalityI) (auto simp: nth_list_update simp del: upt_Suc)

lemma tab_set:
  "i \<le> a \<Longrightarrow> j \<le> b \<Longrightarrow> matrix_set i j v (tab a b f) = Some (tab a b (\<lambda>i' j'. if i' = i \<and> j' = j then v else f i' j'))"
  by (simp add: matrix_set_def tab_def list_at_map_upt map_upt_update fun_upd_def if_distrib[of "\<lambda>g. map g _"] del: upt_Suc)

lemma for_each_append: "for_each body (xs @ ys) st = do { st \<leftarrow> for_each body xs st; for_each body ys st }"
  by (induction xs arbitrary: st) (auto split: bind_split)

lemma tab_zero: "replicate (a + 1) (replicate (b + 1) 0) = tab a b (\<lambda>i j. 0)"
  by (simp add: tab_def map_replicate_const del: upt_Suc replicate_Suc)

lemma first_column:
  "n \<le> a + 1 \<Longrightarrow> for_each (\<lambda>i. matrix_set i 0 i) [0..<n] (tab a b f) = Some (tab a b (\<lambda>i j. if i < n \<and> j = 0 then i else f i j))"
  by (induction n) (auto simp: for_each_append tab_set intro!: arg_cong[of _ _ "tab a b"] ext)

lemma first_row:
  "n \<le> b + 1 \<Longrightarrow> for_each (\<lambda>j. matrix_set 0 j j) [0..<n] (tab a b f) = Some (tab a b (\<lambda>i j. if i = 0 \<and> j < n then j else f i j))"
  by (induction n) (auto simp: for_each_append tab_set intro!: arg_cong[of _ _ "tab a b"] ext)

definition prefix_distance :: "string \<Rightarrow> string \<Rightarrow> nat \<Rightarrow> nat \<Rightarrow> nat" where
  "prefix_distance s1 s2 i j = distance (rev (take i s1)) (rev (take j s2))"

lemma prefix_distance_Suc:
  "i < length s1 \<Longrightarrow> j < length s2 \<Longrightarrow> prefix_distance s1 s2 (Suc i) (Suc j) =
     min (prefix_distance s1 s2 i (Suc j) + 1) (min (prefix_distance s1 s2 (Suc i) j + 1)
       (prefix_distance s1 s2 i j + (if s1 ! i \<noteq> s2 ! j then 1 else 0)))"
  by (simp add: prefix_distance_def take_Suc_conv_app_nth)

lemma distance_Nil [simp]: "distance xs [] = length xs"
  by (cases xs) auto

lemma prefix_distance_0: "i \<le> length s1 \<Longrightarrow> prefix_distance s1 s2 i 0 = i" "j \<le> length s2 \<Longrightarrow> prefix_distance s1 s2 0 j = j"
  by (simp_all add: prefix_distance_def)

lemma matrix_cell_tab:
  "i < length s1 \<Longrightarrow> j < length s2 \<Longrightarrow> matrix_cell s1 s2 (Suc i) (Suc j) (tab (length s1) (length s2) f) =
    Some (tab (length s1) (length s2) (\<lambda>i' j'. if i' = Suc i \<and> j' = Suc j
      then min (f i (Suc j) + 1) (min (f (Suc i) j + 1) (f i j + (if s1 ! i \<noteq> s2 ! j then 1 else 0))) else f i' j'))"
  by (simp add: matrix_cell_def tab_at tab_set list_at_def del: upt_Suc cong: if_cong)

lemma matrix_row:
  assumes "i < length s1" "\<And>j. j \<le> length s2 \<Longrightarrow> f i j = prefix_distance s1 s2 i j" "f (Suc i) 0 = Suc i"
  shows "n \<le> length s2 \<Longrightarrow> for_each (\<lambda>j. matrix_cell s1 s2 (Suc i) j) [1..<n + 1] (tab (length s1) (length s2) f) =
    Some (tab (length s1) (length s2) (\<lambda>i' j. if i' = Suc i \<and> 0 < j \<and> j \<le> n then prefix_distance s1 s2 i' j else f i' j))"
proof (induction n)
  case 0 show ?case by (auto intro!: arg_cong[of _ _ "tab _ _"] ext)
next
  case (Suc n)
  let ?g = "\<lambda>i' j. if i' = Suc i \<and> 0 < j \<and> j \<le> n then prefix_distance s1 s2 i' j else f i' j"
  have n: "n < length s2" using Suc.prems by simp
  have left: "?g (Suc i) n = prefix_distance s1 s2 (Suc i) n" using assms(1,3) by (cases n) (auto simp: prefix_distance_0)
  have step: "min (?g i (Suc n) + 1) (min (?g (Suc i) n + 1) (?g i n + (if s1 ! i \<noteq> s2 ! n then 1 else 0))) = prefix_distance s1 s2 (Suc i) (Suc n)"
    unfolding left prefix_distance_Suc[OF assms(1) n] using assms(2) Suc.prems by simp
  have "matrix_cell s1 s2 (Suc i) (Suc n) (tab (length s1) (length s2) ?g) =
      Some (tab (length s1) (length s2) (\<lambda>i' j. if i' = Suc i \<and> j = Suc n then prefix_distance s1 s2 (Suc i) (Suc n) else ?g i' j))"
    using matrix_cell_tab[OF assms(1) n, of ?g] unfolding step .
  then show ?case using Suc.IH Suc.prems by (auto simp: for_each_append intro!: arg_cong[of _ _ "tab _ _"] ext)
qed

lemma matrix_rows:
  assumes "\<And>j. j \<le> length s2 \<Longrightarrow> f 0 j = j" "\<And>i. i \<le> length s1 \<Longrightarrow> f i 0 = i"
  shows "n \<le> length s1 \<Longrightarrow>
    for_each (\<lambda>i. for_each (\<lambda>j. matrix_cell s1 s2 i j) [1..<length s2 + 1]) [1..<n + 1] (tab (length s1) (length s2) f) =
    Some (tab (length s1) (length s2) (\<lambda>i j. if 0 < i \<and> i \<le> n \<and> 0 < j \<and> j \<le> length s2 then prefix_distance s1 s2 i j else f i j))"
proof (induction n)
  case 0 show ?case by (auto intro!: arg_cong[of _ _ "tab _ _"] ext)
next
  case (Suc n)
  let ?g = "\<lambda>i j. if 0 < i \<and> i \<le> n \<and> 0 < j \<and> j \<le> length s2 then prefix_distance s1 s2 i j else f i j"
  have "?g n j = prefix_distance s1 s2 n j" if "j \<le> length s2" for j
    using that assms Suc.prems by (cases j; cases n) (auto simp: prefix_distance_0)
  moreover have "?g (Suc n) 0 = Suc n" using assms(2) Suc.prems by simp
  ultimately have "for_each (\<lambda>j. matrix_cell s1 s2 (Suc n) j) [1..<length s2 + 1] (tab (length s1) (length s2) ?g) =
      Some (tab (length s1) (length s2) (\<lambda>i' j. if i' = Suc n \<and> 0 < j \<and> j \<le> length s2 then prefix_distance s1 s2 i' j else ?g i' j))"
    using Suc.prems by (intro matrix_row) auto
  then show ?case using Suc.IH Suc.prems by (auto simp: for_each_append intro!: arg_cong[of _ _ "tab _ _"] ext)
qed

lemma levenshtein_distance: "levenshteinDistance s1 s2 = Some (distance s1 s2)"
proof -
  let ?a = "length s1" and ?b = "length s2"
  consider (empty) "s1 = [] \<or> s2 = []" | (matrix) "s1 \<noteq> []" "s2 \<noteq> []" by blast
  then show ?thesis
  proof cases
    case empty then show ?thesis by (cases s1) (auto simp: levenshteinDistance_def)
  next
    case matrix
    let ?f = "\<lambda>i j. if i = 0 \<and> j < ?b + 1 then j else if i < ?a + 1 \<and> j = 0 then i else 0"
    have "levenshteinDistance s1 s2 = do {
        m \<leftarrow> for_each (\<lambda>i. for_each (\<lambda>j. matrix_cell s1 s2 i j) [1..<?b + 1]) [1..<?a + 1] (tab ?a ?b ?f); matrix_at m ?a ?b }"
      using matrix first_column[of "?a + 1" ?a ?b "\<lambda>i j. 0"] first_row[of "?b + 1" ?b ?a "\<lambda>i j. if i < ?a + 1 \<and> j = 0 then i else 0"]
      unfolding levenshteinDistance_def tab_zero by (simp del: upt_Suc)
    also have "\<dots> = Some (prefix_distance s1 s2 ?a ?b)"
      using matrix matrix_rows[of s2 ?f s1 ?a] by (simp add: tab_at del: upt_Suc)
    finally show ?thesis by (simp add: prefix_distance_def distance_rev)
  qed
qed

subsection \<open>Suggestions\<close>

lemma suggest_loop_filter:
  "suggest_loop input ts acc = Some (acc @ filter (\<lambda>t. strings_Contains (strings_ToLower t) input \<or> strings_Contains input (strings_ToLower t) \<or>
     distance input (strings_ToLower t) \<le> 3) ts)"
  by (induction ts arbitrary: acc) (auto simp: levenshtein_distance Let_def)

lemma distance_le: "distance xs ys \<le> k \<longleftrightarrow> (\<exists>n. n \<le> k \<and> (edit ^^ n) xs ys)"
  using distance_reached[of xs ys] distance_least[of _ xs ys] le_trans by blast

text \<open>A failure is classified without a panic if no answered row is empty.\<close>

lemma table_names_total: "[] \<notin> set rows \<Longrightarrow> table_names rows \<noteq> None"
  by (induction rows) (auto simp: list_at_def split: option.splits)

lemma classifyQueryError_total:
  assumes "\<And>sql rows columns. engine sql = Inr (rows, columns) \<Longrightarrow> [] \<notin> set rows"
  shows "classifyQueryError engine sql cause \<noteq> None"
proof -
  obtain tables where "availableTables engine = Some tables"
    using assms[of tables_query] table_names_total by (cases "engine tables_query") (fastforce simp: availableTables_def)+
  then show ?thesis by (simp add: classifyQueryError_def suggestTableNames_def suggest_loop_filter Let_def split: option.splits)
qed

text \<open>C30. The matrix of \<open>levenshteinDistance\<close> is never read or written out of range, and what it returns is the length of a shortest sequence of
  insertions, deletions and replacements of one character that turns one string into the other. The tables suggested for a misspelt one are therefore
  exactly the common ones that contain it, are contained in it or are at most three such edits away, in their order.\<close>

theorem levenshtein_shortest_edit:
  "levenshteinDistance s1 s2 = Some (LEAST n. (edit ^^ n) s1 s2) \<and> (\<exists>n. (edit ^^ n) s1 s2) \<and>
   suggestTableNames name = Some (filter (\<lambda>t. strings_Contains (strings_ToLower t) (strings_ToLower name) \<or>
     strings_Contains (strings_ToLower name) (strings_ToLower t) \<or>
     (\<exists>n. n \<le> 3 \<and> (edit ^^ n) (strings_ToLower name) (strings_ToLower t))) commonTables)"
  using distance_reached[of s1 s2]
  by (auto simp: levenshtein_distance distance_Least[symmetric] suggestTableNames_def suggest_loop_filter distance_le)

text \<open>Two names with their distance, computed by the matrix.\<close>

lemma levenshtein_example: "levenshteinDistance ''scan_metdata'' ''scan_metadata'' = Some 1"
  by code_simp

end
