(* ===== verification/Secrets.thy ===== *)
theory Secrets imports Filepath Pack begin

text \<open>
  internal/secrets: credentials kept in HashiCorp Vault. config.go reads where a credential is from the
  configuration, vault.go reads the secret, credentials.go picks the fields of the credential out of it. The
  environment, HTTP, the URL parser and the JSON decoder are parameters; a missing key of a Go map reads as the
  empty string.
\<close>

type_synonym string_map = "string \<rightharpoonup> string"

definition map_value :: "string_map \<Rightarrow> string \<Rightarrow> string" where
  "map_value m k = (case m k of None \<Rightarrow> [] | Some v \<Rightarrow> v)"

fun firstNonEmpty :: "string list \<Rightarrow> string" where
  "firstNonEmpty [] = []"
| "firstNonEmpty (v # vs) = (if strings_TrimSpace v \<noteq> [] then strings_TrimSpace v else firstNonEmpty vs)"

subsection \<open>Where a credential is\<close>

record CredentialSource =
  src_Provider :: string
  src_Engine :: string
  src_Address :: string
  src_Token :: string
  src_TokenEnv :: string
  src_Namespace :: string
  src_Mount :: string
  src_Path :: string
  src_Version :: int
  src_Kind :: string
  src_KindField :: string
  src_TokenField :: string
  src_AccessTokenField :: string
  src_RefreshTokenField :: string
  src_APIKeyField :: string
  src_EmailField :: string
  src_BaseURLField :: string
  src_ScopesField :: string
  src_AccountHintsField :: string
  src_ClientIDField :: string
  src_ClientSecretField :: string
  src_TenantIDField :: string
  src_SubscriptionIDField :: string
  src_AccessKeyIDField :: string
  src_SecretAccessKeyField :: string
  src_SessionTokenField :: string
  src_RoleARNField :: string
  src_ExternalIDField :: string
  src_RegionField :: string
  src_ProjectIDField :: string
  src_ServiceAccountJSONField :: string
  src_ClientEmailField :: string
  src_PrivateKeyField :: string
  src_AllowFallback :: bool

record Credential =
  crd_Kind :: string
  crd_Token :: string
  crd_AccessToken :: string
  crd_RefreshToken :: string
  crd_APIKey :: string
  crd_Email :: string
  crd_BaseURL :: string
  crd_Scopes :: "string list"
  crd_AccountHints :: "string list"
  crd_ClientID :: string
  crd_ClientSecret :: string
  crd_TenantID :: string
  crd_SubscriptionID :: string
  crd_AccessKeyID :: string
  crd_SecretAccessKey :: string
  crd_SessionToken :: string
  crd_RoleARN :: string
  crd_ExternalID :: string
  crd_Region :: string
  crd_ProjectID :: string
  crd_ServiceAccountJSON :: string
  crd_ClientEmail :: string
  crd_PrivateKey :: string
  crd_Source :: string
  crd_Raw :: string_map

subsection \<open>The configuration\<close>

definition ProviderVault :: string where
  "ProviderVault = ''vault''"

definition EngineKVV1 :: string where
  "EngineKVV1 = ''kv-v1''"

definition EngineKVV2 :: string where
  "EngineKVV2 = ''kv-v2''"

definition DefaultCredentialSource :: CredentialSource where
  "DefaultCredentialSource = \<lparr>src_Provider = [], src_Engine = EngineKVV2, src_Address = [], src_Token = [], src_TokenEnv = ''VAULT_TOKEN'', src_Namespace = [], src_Mount = [],
     src_Path = [], src_Version = 0, src_Kind = [], src_KindField = ''kind'', src_TokenField = ''api_token'', src_AccessTokenField = [],
     src_RefreshTokenField = [], src_APIKeyField = ''api_key'', src_EmailField = ''email'', src_BaseURLField = ''base_url'', src_ScopesField =
     ''scopes'', src_AccountHintsField = [], src_ClientIDField = [], src_ClientSecretField = [], src_TenantIDField = [], src_SubscriptionIDField = [],
     src_AccessKeyIDField = [], src_SecretAccessKeyField = [], src_SessionTokenField = [], src_RoleARNField = [], src_ExternalIDField = [],
     src_RegionField = [], src_ProjectIDField = [], src_ServiceAccountJSONField = [], src_ClientEmailField = [], src_PrivateKeyField = [],
     src_AllowFallback = False\<rparr>"

fun firstConfigValue :: "string_map \<Rightarrow> string list \<Rightarrow> string" where
  "firstConfigValue config [] = []"
| "firstConfigValue config (k # ks) =
     (let v = strings_TrimSpace (map_value config k) in if v \<noteq> [] then v else firstConfigValue config ks)"

type_synonym source_setting = "((string \<Rightarrow> string) \<Rightarrow> CredentialSource \<Rightarrow> CredentialSource) \<times> string list"

definition setString :: "string_map \<Rightarrow> source_setting \<Rightarrow> CredentialSource \<Rightarrow> CredentialSource" where
  "setString config setting source =
     (let v = firstConfigValue config (snd setting) in if v \<noteq> [] then (fst setting) (\<lambda>_. v) source else source)"

definition location_settings :: "source_setting list" where
  "location_settings = [
     (src_Provider_update, [''auth.secret.provider'', ''secret.provider'', ''auth.vault.provider'', ''vault.provider'', ''auth.secret_provider'', ''secret_provider'']),
     (src_Engine_update, [''auth.secret.engine'', ''secret.engine'', ''auth.vault.engine'', ''vault.engine'']),
     (src_Address_update, [''auth.secret.address'', ''secret.address'', ''auth.vault.address'', ''vault.address'']),
     (src_Token_update, [''auth.secret.token'', ''secret.token'', ''auth.vault.token'', ''vault.token'']),
     (src_TokenEnv_update, [''auth.secret.token_env'', ''secret.token_env'', ''auth.vault.token_env'', ''vault.token_env'']),
     (src_Namespace_update, [''auth.secret.namespace'', ''secret.namespace'', ''auth.vault.namespace'', ''vault.namespace'']),
     (src_Mount_update, [''auth.secret.mount'', ''secret.mount'', ''auth.vault.mount'', ''vault.mount'']),
     (src_Path_update, [''auth.secret.path'', ''secret.path'', ''auth.vault.path'', ''vault.path'', ''auth.secret_ref'', ''secret_ref''])]"

definition field_settings :: "source_setting list" where
  "field_settings = [
     (src_Kind_update, [''auth.secret.kind'', ''secret.kind'', ''auth.secret.method'', ''secret.method'']),
     (src_KindField_update, [''auth.secret.kind_field'', ''secret.kind_field'', ''auth.secret.method_field'', ''secret.method_field'']),
     (src_TokenField_update, [''auth.secret.token_field'', ''secret.token_field'', ''auth.secret.api_token_field'', ''secret.api_token_field'']),
     (src_AccessTokenField_update, [''auth.secret.access_token_field'', ''secret.access_token_field'']),
     (src_RefreshTokenField_update, [''auth.secret.refresh_token_field'', ''secret.refresh_token_field'']),
     (src_APIKeyField_update, [''auth.secret.api_key_field'', ''secret.api_key_field'']),
     (src_EmailField_update, [''auth.secret.email_field'', ''secret.email_field'']),
     (src_BaseURLField_update, [''auth.secret.base_url_field'', ''secret.base_url_field'']),
     (src_ScopesField_update, [''auth.secret.oauth_scopes_field'', ''secret.oauth_scopes_field'', ''auth.secret.scopes_field'', ''secret.scopes_field'']),
     (src_AccountHintsField_update, [''auth.secret.account_hints_field'', ''secret.account_hints_field'', ''auth.secret.account_ids_field'', ''secret.account_ids_field'']),
     (src_ClientIDField_update, [''auth.secret.client_id_field'', ''secret.client_id_field'']),
     (src_ClientSecretField_update, [''auth.secret.client_secret_field'', ''secret.client_secret_field'']),
     (src_TenantIDField_update, [''auth.secret.tenant_id_field'', ''secret.tenant_id_field'']),
     (src_SubscriptionIDField_update, [''auth.secret.subscription_id_field'', ''secret.subscription_id_field'']),
     (src_AccessKeyIDField_update, [''auth.secret.access_key_id_field'', ''secret.access_key_id_field'', ''auth.secret.aws_access_key_id_field'', ''secret.aws_access_key_id_field'']),
     (src_SecretAccessKeyField_update, [''auth.secret.secret_access_key_field'', ''secret.secret_access_key_field'', ''auth.secret.aws_secret_access_key_field'', ''secret.aws_secret_access_key_field'']),
     (src_SessionTokenField_update, [''auth.secret.session_token_field'', ''secret.session_token_field'', ''auth.secret.aws_session_token_field'', ''secret.aws_session_token_field'']),
     (src_RoleARNField_update, [''auth.secret.role_arn_field'', ''secret.role_arn_field'', ''auth.secret.aws_role_arn_field'', ''secret.aws_role_arn_field'']),
     (src_ExternalIDField_update, [''auth.secret.external_id_field'', ''secret.external_id_field'']),
     (src_RegionField_update, [''auth.secret.region_field'', ''secret.region_field'']),
     (src_ProjectIDField_update, [''auth.secret.project_id_field'', ''secret.project_id_field'']),
     (src_ServiceAccountJSONField_update, [''auth.secret.service_account_json_field'', ''secret.service_account_json_field'', ''auth.secret.credentials_json_field'', ''secret.credentials_json_field'']),
     (src_ClientEmailField_update, [''auth.secret.client_email_field'', ''secret.client_email_field'']),
     (src_PrivateKeyField_update, [''auth.secret.private_key_field'', ''secret.private_key_field''])]"

definition strconv_Atoi :: "string \<Rightarrow> int option" where
  "strconv_Atoi s = (let neg = strings_HasPrefix s ''-'';
       ds = (if neg \<or> strings_HasPrefix s ''+'' then tl s else s);
       i = (if neg then - int (digits_value ds) else int (digits_value ds))
     in if ds = [] \<or> \<not> list_all digit_char ds \<or> \<not> in_int64 i then None else Some i)"

definition strconv_ParseBool :: "string \<Rightarrow> bool option" where
  "strconv_ParseBool s =
     (if s \<in> set [''1'', ''t'', ''T'', ''true'', ''TRUE'', ''True''] then Some True
      else if s \<in> set [''0'', ''f'', ''F'', ''false'', ''FALSE'', ''False''] then Some False else None)"

datatype secret_config_error = InvalidVersion string | InvalidAllowFallback string

definition config_version :: "string_map \<Rightarrow> CredentialSource \<Rightarrow> secret_config_error + CredentialSource" where
  "config_version config source =
     (let v = firstConfigValue config [''auth.secret.version'', ''secret.version'', ''auth.vault.version'', ''vault.version''] in
      if v = [] then Inr source
      else (case strconv_Atoi v of
          None \<Rightarrow> Inl (InvalidVersion v)
        | Some version \<Rightarrow> if version < 1 then Inl (InvalidVersion v) else Inr (source\<lparr>src_Version := version\<rparr>)))"

definition config_fallback :: "string_map \<Rightarrow> CredentialSource \<Rightarrow> secret_config_error + CredentialSource" where
  "config_fallback config source =
     (let v = firstConfigValue config [''auth.secret.allow_fallback'', ''secret.allow_fallback''] in
      if v = [] then Inr source
      else (case strconv_ParseBool v of
          None \<Rightarrow> Inl (InvalidAllowFallback v) | Some b \<Rightarrow> Inr (source\<lparr>src_AllowFallback := b\<rparr>)))"

definition default_provider :: "CredentialSource \<Rightarrow> CredentialSource" where
  "default_provider source =
     (if src_Provider source = [] \<and> firstNonEmpty [src_Address source, src_Token source, src_Namespace source, src_Mount source, src_Path source] \<noteq> []
      then source\<lparr>src_Provider := ProviderVault\<rparr> else source)"

definition CredentialSourceFromConfig :: "string_map \<Rightarrow> secret_config_error + CredentialSource" where
  "CredentialSourceFromConfig config = (let source = fold (setString config) location_settings DefaultCredentialSource in
     case config_version config source of
       Inl err \<Rightarrow> Inl err
     | Inr source \<Rightarrow> (case config_fallback config (fold (setString config) field_settings source) of
         Inl err \<Rightarrow> Inl err | Inr source \<Rightarrow> Inr (default_provider source)))"

definition Configured :: "CredentialSource \<Rightarrow> bool" where
  "Configured s \<longleftrightarrow> firstNonEmpty [src_Provider s, src_Address s, src_Token s, src_Namespace s, src_Mount s, src_Path s] \<noteq> []"

subsection \<open>The credential in a secret\<close>

definition trim_slashes :: "string \<Rightarrow> string" where
  "trim_slashes s = rev (dropWhile (\<lambda>c. c = CHR ''/'') (rev (dropWhile (\<lambda>c. c = CHR ''/'') s)))"

definition SourceString :: "CredentialSource \<Rightarrow> string" where
  "SourceString s = (let provider = firstNonEmpty [src_Provider s, ProviderVault];
       secretPath = trim_slashes (filepath_Join [trim_slashes (src_Mount s), trim_slashes (src_Path s)]) in
     if secretPath = [] then ''secret:'' @ provider else ''secret:'' @ provider @ '':'' @ secretPath)"

definition ParseList :: "string \<Rightarrow> string list" where
  "ParseList raw = (if strings_TrimSpace raw = [] then []
     else dedupe_by (\<lambda>v. v) [] (filter (\<lambda>v. v \<noteq> []) (map strings_TrimSpace (strings_Split raw (CHR '','')))))"

fun field_loop :: "string_map \<Rightarrow> string list \<Rightarrow> string list \<Rightarrow> string" where
  "field_loop secret [] seen = []"
| "field_loop secret (k # ks) seen = (let key = strings_TrimSpace k in
     if key = [] \<or> key \<in> set seen then field_loop secret ks seen
     else (let v = strings_TrimSpace (map_value secret key) in if v \<noteq> [] then v else field_loop secret ks (key # seen)))"

definition secretField :: "string_map \<Rightarrow> string \<Rightarrow> string list \<Rightarrow> string" where
  "secretField secret primary aliases =
     field_loop secret ((if strings_TrimSpace primary \<noteq> [] then [strings_TrimSpace primary] else []) @ aliases) []"

definition CredentialFromSecret :: "string_map \<Rightarrow> CredentialSource \<Rightarrow> string \<Rightarrow> Credential" where
  "CredentialFromSecret secret source defaultKind =
     (let kind = firstNonEmpty [src_Kind source, secretField secret (src_KindField source) [''kind'', ''method'', ''auth_method''], defaultKind] in
     \<lparr>crd_Kind = kind,
     crd_Token = secretField secret (src_TokenField source) [''api_token'', ''token'', ''access_token''],
     crd_AccessToken = secretField secret (src_AccessTokenField source) [''access_token'', ''api_token'', ''token''],
     crd_RefreshToken = secretField secret (src_RefreshTokenField source) [''refresh_token''],
     crd_APIKey = secretField secret (src_APIKeyField source) [''api_key'', ''key''],
     crd_Email = secretField secret (src_EmailField source) [''email'', ''api_email'', ''client_email''],
     crd_BaseURL = secretField secret (src_BaseURLField source) [''base_url'', ''endpoint'', ''url''],
     crd_Scopes = ParseList (secretField secret (src_ScopesField source) [''scopes'', ''oauth_scopes'']),
     crd_AccountHints = ParseList (secretField secret (src_AccountHintsField source) [''account_hints'', ''account_ids'']),
     crd_ClientID = secretField secret (src_ClientIDField source) [''client_id'', ''application_id'', ''app_id''],
     crd_ClientSecret = secretField secret (src_ClientSecretField source) [''client_secret'', ''secret''],
     crd_TenantID = secretField secret (src_TenantIDField source) [''tenant_id'', ''directory_id''],
     crd_SubscriptionID = secretField secret (src_SubscriptionIDField source) [''subscription_id''],
     crd_AccessKeyID = secretField secret (src_AccessKeyIDField source) [''access_key_id'', ''aws_access_key_id''],
     crd_SecretAccessKey = secretField secret (src_SecretAccessKeyField source) [''secret_access_key'', ''aws_secret_access_key''],
     crd_SessionToken = secretField secret (src_SessionTokenField source) [''session_token'', ''aws_session_token''],
     crd_RoleARN = secretField secret (src_RoleARNField source) [''role_arn'', ''aws_role_arn''],
     crd_ExternalID = secretField secret (src_ExternalIDField source) [''external_id''],
     crd_Region = secretField secret (src_RegionField source) [''region'', ''aws_region''],
     crd_ProjectID = secretField secret (src_ProjectIDField source) [''project_id''],
     crd_ServiceAccountJSON = secretField secret (src_ServiceAccountJSONField source) [''service_account_json'', ''credentials_json''],
     crd_ClientEmail = secretField secret (src_ClientEmailField source) [''client_email''],
     crd_PrivateKey = secretField secret (src_PrivateKeyField source) [''private_key''],
     crd_Source = SourceString source,
     crd_Raw = secret\<rparr>)"

subsection \<open>Reading a secret from Vault\<close>

record Reference =
  ref_Provider :: string
  ref_Engine :: string
  ref_Address :: string
  ref_Token :: string
  ref_TokenEnv :: string
  ref_Namespace :: string
  ref_Mount :: string
  ref_Path :: string
  ref_Version :: int

definition source_reference :: "CredentialSource \<Rightarrow> Reference" where
  "source_reference s = \<lparr>ref_Provider = firstNonEmpty [src_Provider s, ProviderVault], ref_Engine = src_Engine s, ref_Address = src_Address s,
     ref_Token = src_Token s, ref_TokenEnv = src_TokenEnv s, ref_Namespace = src_Namespace s, ref_Mount = src_Mount s, ref_Path = src_Path s,
     ref_Version = src_Version s\<rparr>"

text \<open>A decoded JSON value with its numbers as text.\<close>

datatype vault_value = VNull | VString string | VBool bool | VNumber string | VList "vault_value list" | VMap "(string \<times> vault_value) list"

record vaultSecretResponse =
  vsr_Data :: "string \<rightharpoonup> vault_value"
  vsr_Errors :: "string list"

record parsed_url =
  url_Scheme :: string
  url_Host :: string
  url_Path :: string
  url_RawQuery :: string

record http_request =
  hreq_URL :: string
  hreq_Headers :: "(string \<times> string) list"

text \<open>
  The environment variables, \<open>url.Parse\<close>, \<open>URL.String\<close>, setting a query parameter, whether a request can be made of a URL,
  the client (the status and the body, which may break off in an error), the decoder, and \<open>json.Marshal\<close> with \<open>fmt.Sprint\<close>
  for what it cannot encode.
\<close>

record vault_env =
  ve_Getenv :: "string \<Rightarrow> string"
  ve_url_Parse :: "string \<Rightarrow> string + parsed_url"
  ve_url_String :: "parsed_url \<Rightarrow> string"
  ve_query_Set :: "string \<Rightarrow> string \<Rightarrow> string \<Rightarrow> string"
  ve_NewRequest :: "string \<Rightarrow> string option"
  ve_Do :: "http_request \<Rightarrow> string + (int \<times> string \<times> string option)"
  ve_Decode :: "string \<Rightarrow> string + vaultSecretResponse"
  ve_Marshal :: "vault_value \<Rightarrow> string"

datatype vault_error =
    UnsupportedProvider string | NoAddress | NoToken | UnsupportedEngine string | NoPath | MountRequired
  | ParseAddress string | InvalidAddress string | BadRequest string | RequestFailed string | ReadFailed string | TooLarge
  | DecodeFailed string | VaultErrors "string list" | VaultStatus int | MissingData

definition maxVaultResponseBytes :: nat where
  "maxVaultResponseBytes = 2 ^ 20"

definition normalizeEngine :: "string \<Rightarrow> vault_error + string" where
  "normalizeEngine engine =
     (let e = strings_ToLower (map (\<lambda>c. if c = CHR ''_'' then CHR ''-'' else c) (strings_TrimSpace engine)) in
      if e \<in> set [[], ''kv'', ''kv2'', EngineKVV2] then Inr EngineKVV2
      else if e \<in> set [''kv1'', EngineKVV1, ''generic''] then Inr EngineKVV1
      else Inl (UnsupportedEngine engine))"

definition cleanPath :: "string \<Rightarrow> string" where
  "cleanPath v = trim_slashes (strings_TrimSpace v)"

definition joinURLPath :: "string \<Rightarrow> string list \<Rightarrow> string" where
  "joinURLPath base parts = (case filter (\<lambda>p. p \<noteq> []) (map cleanPath (base # parts)) of
     [] \<Rightarrow> ''/'' | ps \<Rightarrow> CHR ''/'' # filepath_Join ps)"

definition logical_path :: "string \<Rightarrow> Reference \<Rightarrow> vault_error + string" where
  "logical_path engine r = (let secretPath = cleanPath (ref_Path r); mount = cleanPath (ref_Mount r) in
     if secretPath = [] then Inl NoPath
     else if engine = EngineKVV2 then
       (if mount = [] then (if \<not> strings_Contains secretPath ''/data/'' then Inl MountRequired else Inr secretPath)
        else Inr (filepath_Join [mount, ''data'', secretPath]))
     else Inr (if mount = [] then secretPath else filepath_Join [mount, secretPath]))"

definition vaultSecretURL :: "vault_env \<Rightarrow> string \<Rightarrow> Reference \<Rightarrow> vault_error + string \<times> string" where
  "vaultSecretURL env address r = (case normalizeEngine (ref_Engine r) of
     Inl err \<Rightarrow> Inl err
   | Inr engine \<Rightarrow> (case logical_path engine r of
       Inl err \<Rightarrow> Inl err
     | Inr logicalPath \<Rightarrow> (let address = (if \<not> strings_Contains address ''://'' then ''https://'' @ address else address) in
         case ve_url_Parse env address of
           Inl err \<Rightarrow> Inl (ParseAddress err)
         | Inr parsed \<Rightarrow> if url_Scheme parsed = [] \<or> url_Host parsed = [] then Inl (InvalidAddress address)
             else (let parsed = parsed\<lparr>url_Path := joinURLPath (url_Path parsed) [''v1'', logicalPath]\<rparr>;
                 parsed = (if ref_Version r > 0
                   then parsed\<lparr>url_RawQuery := ve_query_Set env (url_RawQuery parsed) ''version'' (strconv_Itoa (ref_Version r))\<rparr> else parsed)
               in Inr (ve_url_String env parsed, engine)))))"

definition doVaultRequest :: "vault_env \<Rightarrow> http_request \<Rightarrow> vault_error + int \<times> string" where
  "doVaultRequest env req = (case ve_Do env req of
     Inl err \<Rightarrow> Inl (RequestFailed err)
   | Inr (status, body, broken) \<Rightarrow>
       (case (if length body > maxVaultResponseBytes then None else broken) of
          Some err \<Rightarrow> Inl (ReadFailed err)
        | None \<Rightarrow> if length (take (maxVaultResponseBytes + 1) body) > maxVaultResponseBytes then Inl TooLarge else Inr (status, body)))"

fun valueAsString :: "vault_env \<Rightarrow> vault_value \<Rightarrow> string option" where
  "valueAsString env VNull = None"
| "valueAsString env (VString s) = Some s"
| "valueAsString env (VBool b) = Some (if b then ''true'' else ''false'')"
| "valueAsString env (VNumber s) = Some s"
| "valueAsString env (VList vs) = Some (strings_Join (map the (filter (\<lambda>p. p \<noteq> None) (map (valueAsString env) vs))) '','')"
| "valueAsString env (VMap kvs) = Some (ve_Marshal env (VMap kvs))"

definition stringifySecretData :: "vault_env \<Rightarrow> (string \<rightharpoonup> vault_value) \<Rightarrow> string_map" where
  "stringifySecretData env data = (\<lambda>k. Option.bind (data k) (valueAsString env))"

definition secret_data :: "string \<Rightarrow> vaultSecretResponse \<Rightarrow> vault_error + (string \<rightharpoonup> vault_value)" where
  "secret_data engine payload = (if engine = EngineKVV2 then
       (case vsr_Data payload ''data'' of Some (VMap kvs) \<Rightarrow> Inr (map_of kvs) | _ \<Rightarrow> Inl MissingData)
     else Inr (vsr_Data payload))"

definition envValue :: "vault_env \<Rightarrow> string \<Rightarrow> string" where
  "envValue env name = (if strings_TrimSpace name = [] then [] else ve_Getenv env name)"

definition vault_token :: "vault_env \<Rightarrow> Reference \<Rightarrow> string" where
  "vault_token env r = firstNonEmpty [ref_Token r, envValue env (ref_TokenEnv r), ve_Getenv env ''VAULT_TOKEN'']"

definition ReadSecret :: "vault_env \<Rightarrow> Reference \<Rightarrow> vault_error + string_map" where
  "ReadSecret env r = (let provider = strings_TrimSpace (ref_Provider r) in
     if provider \<noteq> [] \<and> provider \<noteq> ProviderVault then Inl (UnsupportedProvider provider)
     else (let address = firstNonEmpty [ref_Address r, ve_Getenv env ''VAULT_ADDR'']; token = vault_token env r in
       if address = [] then Inl NoAddress
       else if token = [] then Inl NoToken
       else (case vaultSecretURL env address r of
           Inl err \<Rightarrow> Inl err
         | Inr (secretURL, engine) \<Rightarrow> (case ve_NewRequest env secretURL of
             Some err \<Rightarrow> Inl (BadRequest err)
           | None \<Rightarrow> (case doVaultRequest env \<lparr>hreq_URL = secretURL, hreq_Headers = (''X-Vault-Token'', token) #
                 (if ref_Namespace r \<noteq> [] then [(''X-Vault-Namespace'', ref_Namespace r)] else [])\<rparr> of
               Inl err \<Rightarrow> Inl err
             | Inr (status, body) \<Rightarrow> (case ve_Decode env body of
                 Inl err \<Rightarrow> Inl (DecodeFailed err)
               | Inr payload \<Rightarrow>
                   if status < 200 \<or> status \<ge> 300
                   then Inl (if vsr_Errors payload \<noteq> [] then VaultErrors (vsr_Errors payload) else VaultStatus status)
                   else (case secret_data engine payload of Inl err \<Rightarrow> Inl err | Inr data \<Rightarrow> Inr (stringifySecretData env data))))))))"

text \<open>A resolver reads with the reader it was given.\<close>

type_synonym 'e secret_reader = "Reference \<Rightarrow> 'e + string_map"

datatype 'e credential_error = NotConfigured | ReaderError 'e

definition ResolveCredential :: "'e secret_reader \<Rightarrow> CredentialSource \<Rightarrow> string \<Rightarrow> 'e credential_error + Credential" where
  "ResolveCredential reader source defaultKind = (if \<not> Configured source then Inl NotConfigured
     else (case reader (source_reference source) of
         Inl err \<Rightarrow> Inl (ReaderError err) | Inr secret \<Rightarrow> Inr (CredentialFromSecret secret source defaultKind)))"

end
