(* ===== verification/Cloudflare_Auth.thy ===== *)
theory Cloudflare_Auth imports Secrets Scan_Store begin

text \<open>
  internal/providers/cloudflareauth: the credential a Cloudflare scan uses. config.go reads the configuration,
  store.go keeps OAuth profiles in files, resolver.go, secret.go and api_token.go try the sources in their order,
  permissions.go plans the scopes a scan needs and verify.go compares them with the granted ones. The environment,
  the clock, the calls of the file system, the JSON codec, the token refresher and the validator are parameters;
  the state is the files of the profiles.
\<close>

subsection \<open>Configuration\<close>

definition AuthMethodOAuth :: string where
  "AuthMethodOAuth = ''oauth''"

definition AuthMethodAPIToken :: string where
  "AuthMethodAPIToken = ''api_token''"

definition AuthMethodAPIKey :: string where
  "AuthMethodAPIKey = ''api_key''"

definition DefaultProfileName :: string where
  "DefaultProfileName = ''default''"

definition CanonicalServices :: "string list" where
  "CanonicalServices = [''accounts'', ''zones'', ''dns'', ''rulesets'', ''workers'', ''storage'', ''data'', ''pages'', ''zero_trust_access'', ''zero_trust_network'', ''zero_trust_devices'', ''load_balancing'', ''edge_certs'', ''delivery'', ''observability'', ''media'', ''security'', ''email'', ''apps_ai'', ''network_services'', ''specialized'']"

record AuthConfig =
  auth_Method :: string
  auth_Profile :: string
  auth_Token :: string
  auth_TokenEnv :: string
  auth_APIKey :: string
  auth_APIKeyEnv :: string
  auth_Email :: string
  auth_EmailEnv :: string
  auth_OAuthScopes :: "string list"
  auth_UseRefreshToken :: bool
  auth_BaseURL :: string
  auth_Secret :: CredentialSource

record ScopeConfig =
  scope_AccountIDs :: "string list"
  scope_ZoneIDs :: "string list"
  scope_IncludeZones :: "string list"
  scope_ExcludeZones :: "string list"

record CloudflareConfig =
  cfc_Auth :: AuthConfig
  cfc_Scope :: ScopeConfig
  cfc_Services :: "string list"

record OAuthProfile =
  op_Profile :: string
  op_AccessToken :: string
  op_RefreshToken :: string
  op_TokenType :: string
  op_Expiry :: timestamp
  op_Scopes :: "string list"
  op_AccountHints :: "string list"
  op_BaseURL :: string

record ResolvedAuth =
  ra_Method :: string
  ra_AccessToken :: string
  ra_APIKey :: string
  ra_Email :: string
  ra_Scopes :: "string list"
  ra_AccountHints :: "string list"
  ra_BaseURL :: string
  ra_Source :: string








subsection \<open>Stored OAuth profiles\<close>

type_synonym profile_files = "string \<rightharpoonup> string"

text \<open>A failing write may leave any bytes behind. \<open>None\<close> of a read fault is a read that works if the file is there.\<close>

record store_calls =
  oc_BaseDir :: string
  oc_Home :: "string + string"
  oc_read :: "string \<Rightarrow> string option"
  oc_mkdir :: "string \<Rightarrow> string option"
  oc_write :: "string \<Rightarrow> (string \<times> string) option"
  oc_remove :: "string \<Rightarrow> string option"
  oc_encode :: "OAuthProfile \<Rightarrow> string + string"
  oc_decode :: "string \<Rightarrow> string + OAuthProfile"

datatype profile_error = HomeFails string | ProfileNotExist | StoreCall string | EncodeFails string | DecodeProfile string

definition normalizeProfile :: "string \<Rightarrow> string" where
  "normalizeProfile profile = (if profile = [] then DefaultProfileName else profile)"

definition profilePath :: "store_calls \<Rightarrow> string \<Rightarrow> profile_error + string" where
  "profilePath oc profile =
     (case (if oc_BaseDir oc = [] then (case oc_Home oc of
           Inl err \<Rightarrow> Inl (HomeFails err) | Inr home \<Rightarrow> Inr (filepath_Join [home, ''.corkscrew'', ''providers'', ''cloudflare'', ''profiles'']))
         else Inr (oc_BaseDir oc)) of
        Inl err \<Rightarrow> Inl err
      | Inr baseDir \<Rightarrow> Inr (filepath_Join [baseDir, normalizeProfile profile @ ''.json'']))"

definition Store_Load :: "store_calls \<Rightarrow> string \<Rightarrow> profile_files \<Rightarrow> profile_error + OAuthProfile" where
  "Store_Load oc profile fs = (case profilePath oc profile of
     Inl err \<Rightarrow> Inl err
   | Inr path \<Rightarrow> (case oc_read oc path of
       Some err \<Rightarrow> Inl (StoreCall err)
     | None \<Rightarrow> (case fs path of
         None \<Rightarrow> Inl ProfileNotExist
       | Some data \<Rightarrow> (case oc_decode oc data of
           Inl err \<Rightarrow> Inl (DecodeProfile err)
         | Inr p \<Rightarrow> Inr (if op_Profile p = [] then p\<lparr>op_Profile := normalizeProfile profile\<rparr> else p)))))"

definition Store_Save :: "store_calls \<Rightarrow> OAuthProfile \<Rightarrow> profile_files \<Rightarrow> profile_error option \<times> profile_files" where
  "Store_Save oc p fs = (case profilePath oc (op_Profile p) of
     Inl err \<Rightarrow> (Some err, fs)
   | Inr path \<Rightarrow> (case oc_mkdir oc (filepath_Dir path) of
       Some err \<Rightarrow> (Some (StoreCall err), fs)
     | None \<Rightarrow> (case oc_encode oc p of
         Inl err \<Rightarrow> (Some (EncodeFails err), fs)
       | Inr data \<Rightarrow> (case oc_write oc path of
           Some (err, rest) \<Rightarrow> (Some (StoreCall err), fs(path \<mapsto> rest))
         | None \<Rightarrow> (None, fs(path \<mapsto> data))))))"

definition Store_Delete :: "store_calls \<Rightarrow> string \<Rightarrow> profile_files \<Rightarrow> profile_error option \<times> profile_files" where
  "Store_Delete oc profile fs = (case profilePath oc profile of
     Inl err \<Rightarrow> (Some err, fs)
   | Inr path \<Rightarrow> (if fs path = None then (None, fs)
       else (case oc_remove oc path of Some err \<Rightarrow> (Some (StoreCall err), fs) | None \<Rightarrow> (None, fs(path := None)))))"

subsection \<open>Permissions\<close>

record PermissionBundle =
  bnd_Name :: string
  bnd_Services :: "string list"
  bnd_Scopes :: "string list"
  bnd_Description :: string

record PermissionPlan =
  pp_Services :: "string list"
  pp_Bundles :: "PermissionBundle list"
  pp_Scopes :: "string list"

definition permissionBundles :: "PermissionBundle list" where
  "permissionBundles = [
     \<lparr>bnd_Name = ''core_read'', bnd_Services = [''accounts'', ''zones''], bnd_Scopes = [''account:read'', ''zone:read''],
       bnd_Description = ''Account and zone inventory''\<rparr>,
     \<lparr>bnd_Name = ''dns_read'', bnd_Services = [''dns''], bnd_Scopes = [''dns:read'', ''zone:read''],
       bnd_Description = ''DNS records and DNSSEC''\<rparr>,
     \<lparr>bnd_Name = ''rulesets_read'', bnd_Services = [''rulesets'', ''delivery''], bnd_Scopes = [''account:read'', ''zone:read'', ''rulesets:read''],
       bnd_Description = ''Rulesets, transforms, and delivery policies''\<rparr>,
     \<lparr>bnd_Name = ''workers_read'', bnd_Services = [''workers''], bnd_Scopes = [''account:read'', ''workers:read''],
       bnd_Description = ''Workers scripts, settings, bindings, routes, and domains''\<rparr>,
     \<lparr>bnd_Name = ''storage_read'', bnd_Services = [''storage''], bnd_Scopes = [''account:read'', ''workers.kv:read'', ''workers.queues:read'', ''workers.r2:read''],
       bnd_Description = ''R2, KV, and queues''\<rparr>,
     \<lparr>bnd_Name = ''data_read'', bnd_Services = [''data''], bnd_Scopes = [''account:read'', ''d1:read'', ''secrets_store:read'', ''workers:read''],
       bnd_Description = ''D1, Durable Objects, and Secrets Store''\<rparr>,
     \<lparr>bnd_Name = ''pages_read'', bnd_Services = [''pages''], bnd_Scopes = [''account:read'', ''pages:read''],
       bnd_Description = ''Pages projects, domains, and deployments''\<rparr>,
     \<lparr>bnd_Name = ''zero_trust_read'', bnd_Services = [''zero_trust_access'', ''zero_trust_network'', ''zero_trust_devices''], bnd_Scopes = [''access:read'', ''account:read'', ''zero_trust:read''],
       bnd_Description = ''Zero Trust access, network, and device inventory''\<rparr>,
     \<lparr>bnd_Name = ''load_balancing_read'', bnd_Services = [''load_balancing''], bnd_Scopes = [''account:read'', ''zone:read'', ''load_balancing:read''],
       bnd_Description = ''Load balancers, monitors, pools, and health checks''\<rparr>,
     \<lparr>bnd_Name = ''certs_read'', bnd_Services = [''edge_certs''], bnd_Scopes = [''account:read'', ''ssl:read'', ''zone:read''],
       bnd_Description = ''SSL, certificate, and hostname inventory''\<rparr>,
     \<lparr>bnd_Name = ''observability_read'', bnd_Services = [''observability''], bnd_Scopes = [''account:read'', ''logs:read''],
       bnd_Description = ''Logpush, alerts, and audit inventory''\<rparr>,
     \<lparr>bnd_Name = ''media_read'', bnd_Services = [''media''], bnd_Scopes = [''account:read'', ''stream:read''],
       bnd_Description = ''Stream, Images, and media-adjacent inventory''\<rparr>,
     \<lparr>bnd_Name = ''security_read'', bnd_Services = [''security''], bnd_Scopes = [''account:read'', ''security:read'', ''zone:read''],
       bnd_Description = ''Security posture and scanner inventory''\<rparr>,
     \<lparr>bnd_Name = ''email_read'', bnd_Services = [''email''], bnd_Scopes = [''account:read'', ''email:read'', ''zone:read''],
       bnd_Description = ''Email routing, sending, and security inventory''\<rparr>,
     \<lparr>bnd_Name = ''apps_ai_read'', bnd_Services = [''apps_ai''], bnd_Scopes = [''account:read'', ''ai:read''],
       bnd_Description = ''AI, Turnstile, Zaraz, and app-layer inventory''\<rparr>,
     \<lparr>bnd_Name = ''network_services_read'', bnd_Services = [''network_services''], bnd_Scopes = [''account:read'', ''zone:read'', ''network:read''],
       bnd_Description = ''Spectrum, registrar, DNS firewall, and network services''\<rparr>,
     \<lparr>bnd_Name = ''specialized_read'', bnd_Services = [''specialized''], bnd_Scopes = [''account:read'', ''specialized:read''],
       bnd_Description = ''Specialized enterprise and niche product inventory''\<rparr>]"

definition bundleMatches :: "PermissionBundle \<Rightarrow> string list \<Rightarrow> bool" where
  "bundleMatches bundle requested \<longleftrightarrow> list_ex (\<lambda>s. s \<in> set requested) (bnd_Services bundle)"

text \<open>The set of requested services is the list of its elements.\<close>

fun request_loop :: "string list \<Rightarrow> string list \<Rightarrow> string + string list" where
  "request_loop [] requested = Inr requested"
| "request_loop (s # ss) requested =
     (if s = ''full_readonly'' then request_loop ss (CanonicalServices @ requested)
      else if s \<notin> set CanonicalServices then Inl s
      else request_loop ss (s # requested))"

definition normalizeRequestedServices :: "string list \<Rightarrow> string + string list" where
  "normalizeRequestedServices services = request_loop (if services = [] then [''accounts'', ''zones''] else services) []"

text \<open>A set of strings in the order of \<open>sort.Strings\<close>.\<close>

definition sorted_strings :: "string list \<Rightarrow> string list" where
  "sorted_strings xs = sort (remdups xs)"

definition Permission_Plan :: "string list \<Rightarrow> string + PermissionPlan" where
  "Permission_Plan services = (case normalizeRequestedServices services of
     Inl err \<Rightarrow> Inl err
   | Inr requested \<Rightarrow> (let bundles = filter (\<lambda>b. bundleMatches b requested) permissionBundles in
      Inr \<lparr>pp_Services = sorted_strings requested, pp_Bundles = bundles, pp_Scopes = sorted_strings (concat (map bnd_Scopes bundles))\<rparr>))"

definition fullReadonlyBundle :: PermissionBundle where
  "fullReadonlyBundle = \<lparr>bnd_Name = ''full_readonly'', bnd_Services = CanonicalServices,
     bnd_Scopes = sorted_strings (concat (map bnd_Scopes permissionBundles)),
     bnd_Description = ''Convenience bundle for all current Cloudflare read-only scan groups''\<rparr>"

definition BundleByName :: "string \<Rightarrow> PermissionBundle option" where
  "BundleByName name = (if name = ''full_readonly'' then Some fullReadonlyBundle else find (\<lambda>b. bnd_Name b = name) permissionBundles)"

record VerifyResult =
  vr_Method :: string
  vr_Source :: string
  vr_RequiredBundles :: "PermissionBundle list"
  vr_RequiredScopes :: "string list"
  vr_GrantedScopes :: "string list"
  vr_MissingScopes :: "string list"
  vr_ScopeCheckStrict :: bool

definition VerifyResolvedAuth :: "PermissionPlan \<Rightarrow> ResolvedAuth \<Rightarrow> VerifyResult" where
  "VerifyResolvedAuth plan auth =
     (let result = \<lparr>vr_Method = ra_Method auth, vr_Source = ra_Source auth, vr_RequiredBundles = pp_Bundles plan,
          vr_RequiredScopes = pp_Scopes plan, vr_GrantedScopes = sort (ra_Scopes auth), vr_MissingScopes = [], vr_ScopeCheckStrict = False\<rparr> in
      if ra_Method auth \<noteq> AuthMethodOAuth then result
      else result\<lparr>vr_MissingScopes := sort (filter (\<lambda>s. s \<notin> set (ra_Scopes auth)) (pp_Scopes plan)), vr_ScopeCheckStrict := True\<rparr>)"

subsection \<open>Resolving a credential\<close>

definition Expired :: "timestamp \<Rightarrow> OAuthProfile \<Rightarrow> bool" where
  "Expired now p \<longleftrightarrow> op_Expiry p \<noteq> zero_time \<and> now > op_Expiry p"

record ValidationResult =
  val_Valid :: bool
  val_Errors :: "string list"

text \<open>
  A resolver; \<open>None\<close> is a dependency that was not set. The environment, the clock and the store are what the code
  reads them from.
\<close>

type_synonym refresher = "OAuthProfile \<Rightarrow> string + OAuthProfile"
type_synonym validator = "ResolvedAuth \<Rightarrow> string + ValidationResult"

record auth_resolver =
  rs_Refresher :: "refresher option"
  rs_Validator :: "validator option"
  rs_SecretReader :: "vault_error secret_reader option"
  rs_AllowFallback :: bool
  rs_Validate :: bool
  rs_vault :: vault_env
  rs_store :: store_calls
  rs_now :: timestamp

datatype auth_error =
    MissingConfig | SecretUnreadable "vault_error credential_error" | SecretFieldMissing string | UnsupportedSecretKind string
  | LoadProfile string profile_error | RefreshFailed string string | ProfileExpired string
  | NoAPIToken | NoAPIKey | UnsupportedAuthMethod string | OAuthFailed auth_error | NoCredentials
  | ValidateFailed string string | InvalidAuth string string

definition NoopTokenRefresher :: refresher where
  "NoopTokenRefresher p = Inr p"

definition NoopTokenValidator :: validator where
  "NoopTokenValidator auth = Inr \<lparr>val_Valid = True, val_Errors = []\<rparr>"

definition or_default :: "'a option \<Rightarrow> 'a \<Rightarrow> 'a" where
  "or_default x d = (case x of None \<Rightarrow> d | Some v \<Rightarrow> v)"

definition or_env :: "(string \<Rightarrow> string) \<Rightarrow> string \<Rightarrow> string \<Rightarrow> string \<Rightarrow> string" where
  "or_env getenv v env default_env = (if v = [] then getenv (if env = [] then default_env else env) else v)"

definition resolveAPIToken :: "auth_resolver \<Rightarrow> AuthConfig \<Rightarrow> auth_error + ResolvedAuth" where
  "resolveAPIToken r cfg = (let token = or_env (ve_Getenv (rs_vault r)) (auth_Token cfg) (auth_TokenEnv cfg) ''CLOUDFLARE_API_TOKEN'' in
     if strings_TrimSpace token = [] then Inl NoAPIToken
     else Inr \<lparr>ra_Method = AuthMethodAPIToken, ra_AccessToken = strings_TrimSpace token, ra_APIKey = [], ra_Email = [], ra_Scopes = [],
       ra_AccountHints = [], ra_BaseURL = auth_BaseURL cfg, ra_Source = ''api_token''\<rparr>)"

definition resolveAPIKey :: "auth_resolver \<Rightarrow> AuthConfig \<Rightarrow> auth_error + ResolvedAuth" where
  "resolveAPIKey r cfg = (let apiKey = or_env (ve_Getenv (rs_vault r)) (auth_APIKey cfg) (auth_APIKeyEnv cfg) ''CLOUDFLARE_API_KEY'';
       email = or_env (ve_Getenv (rs_vault r)) (auth_Email cfg) (auth_EmailEnv cfg) ''CLOUDFLARE_EMAIL'' in
     if strings_TrimSpace apiKey = [] \<or> strings_TrimSpace email = [] then Inl NoAPIKey
     else Inr \<lparr>ra_Method = AuthMethodAPIKey, ra_AccessToken = [], ra_APIKey = strings_TrimSpace apiKey, ra_Email = strings_TrimSpace email,
       ra_Scopes = [], ra_AccountHints = [], ra_BaseURL = auth_BaseURL cfg, ra_Source = ''api_key''\<rparr>)"

definition secret_auth :: "AuthConfig \<Rightarrow> Credential \<Rightarrow> auth_error + ResolvedAuth" where
  "secret_auth cfg c =
     (let method = (if crd_Kind c = [] then AuthMethodAPIToken else crd_Kind c);
          baseURL = firstNonEmpty [auth_BaseURL cfg, crd_BaseURL c];
          auth = \<lparr>ra_Method = method, ra_AccessToken = [], ra_APIKey = [], ra_Email = [], ra_Scopes = [], ra_AccountHints = [],
            ra_BaseURL = baseURL, ra_Source = crd_Source c\<rparr> in
      if method = AuthMethodAPIToken then
        (let token = firstNonEmpty [crd_Token c, crd_AccessToken c] in
         if strings_TrimSpace token = [] then Inl (SecretFieldMissing method) else Inr (auth\<lparr>ra_AccessToken := strings_TrimSpace token\<rparr>))
      else if method = AuthMethodAPIKey then
        (if strings_TrimSpace (crd_APIKey c) = [] \<or> strings_TrimSpace (crd_Email c) = [] then Inl (SecretFieldMissing method)
         else Inr (auth\<lparr>ra_APIKey := strings_TrimSpace (crd_APIKey c), ra_Email := strings_TrimSpace (crd_Email c)\<rparr>))
      else if method = AuthMethodOAuth then
        (let token = firstNonEmpty [crd_AccessToken c, crd_Token c] in
         if strings_TrimSpace token = [] then Inl (SecretFieldMissing method)
         else Inr (auth\<lparr>ra_AccessToken := strings_TrimSpace token, ra_Scopes := crd_Scopes c, ra_AccountHints := crd_AccountHints c\<rparr>))
      else Inl (UnsupportedSecretKind method))"

definition resolveSecret :: "auth_resolver \<Rightarrow> AuthConfig \<Rightarrow> auth_error + ResolvedAuth" where
  "resolveSecret r cfg = (case ResolveCredential (or_default (rs_SecretReader r) (ReadSecret (rs_vault r))) (auth_Secret cfg) (auth_Method cfg) of
     Inl err \<Rightarrow> Inl (SecretUnreadable err) | Inr c \<Rightarrow> secret_auth cfg c)"

text \<open>An expired profile is refreshed and saved; that saving fails is not an error.\<close>

definition current_profile :: "auth_resolver \<Rightarrow> AuthConfig \<Rightarrow> string \<Rightarrow> OAuthProfile \<Rightarrow> profile_files \<Rightarrow> (auth_error + OAuthProfile) \<times> profile_files" where
  "current_profile r cfg name p fs =
     (if \<not> Expired (rs_now r) p then (Inr p, fs)
      else if auth_UseRefreshToken cfg \<and> op_RefreshToken p \<noteq> [] then
        (case or_default (rs_Refresher r) NoopTokenRefresher p of
           Inl err \<Rightarrow> (Inl (RefreshFailed name err), fs)
         | Inr refreshed \<Rightarrow> (Inr refreshed, snd (Store_Save (rs_store r) refreshed fs)))
      else (Inl (ProfileExpired name), fs))"

definition resolveOAuth :: "auth_resolver \<Rightarrow> AuthConfig \<Rightarrow> profile_files \<Rightarrow> (auth_error + ResolvedAuth) \<times> profile_files" where
  "resolveOAuth r cfg fs = (let name = normalizeProfile (auth_Profile cfg) in
     case Store_Load (rs_store r) name fs of
       Inl err \<Rightarrow> (Inl (LoadProfile name err), fs)
     | Inr p \<Rightarrow> (case current_profile r cfg name p fs of
         (Inl err, fs) \<Rightarrow> (Inl err, fs)
       | (Inr p, fs) \<Rightarrow> (Inr \<lparr>ra_Method = AuthMethodOAuth, ra_AccessToken = op_AccessToken p, ra_APIKey = [], ra_Email = [],
           ra_Scopes = op_Scopes p, ra_AccountHints = op_AccountHints p, ra_BaseURL = firstNonEmpty [auth_BaseURL cfg, op_BaseURL p],
           ra_Source = ''oauth_profile:'' @ name\<rparr>, fs)))"

definition resolveAuto :: "auth_resolver \<Rightarrow> AuthConfig \<Rightarrow> profile_files \<Rightarrow> (auth_error + ResolvedAuth) \<times> profile_files" where
  "resolveAuto r cfg fs = (case resolveOAuth r cfg fs of
     (Inr auth, fs) \<Rightarrow> (Inr auth, fs)
   | (Inl _, fs) \<Rightarrow> (case resolveAPIToken r cfg of
       Inr auth \<Rightarrow> (Inr auth, fs)
     | Inl _ \<Rightarrow> (case resolveAPIKey r cfg of Inr auth \<Rightarrow> (Inr auth, fs) | Inl _ \<Rightarrow> (Inl NoCredentials, fs))))"

definition resolve_method :: "auth_resolver \<Rightarrow> AuthConfig \<Rightarrow> profile_files \<Rightarrow> (auth_error + ResolvedAuth) \<times> profile_files" where
  "resolve_method r cfg fs =
     (if auth_Method cfg = AuthMethodOAuth then
        (case resolveOAuth r cfg fs of
           (Inr auth, fs) \<Rightarrow> (Inr auth, fs)
         | (Inl err, fs) \<Rightarrow> if \<not> rs_AllowFallback r then (Inl err, fs)
             else (case resolveAPIToken r cfg of
                 Inr auth \<Rightarrow> (Inr auth, fs)
               | Inl _ \<Rightarrow> (case resolveAPIKey r cfg of Inr auth \<Rightarrow> (Inr auth, fs) | Inl _ \<Rightarrow> (Inl (OAuthFailed err), fs))))
      else if auth_Method cfg = AuthMethodAPIToken then
        (case resolveAPIToken r cfg of
           Inr auth \<Rightarrow> (Inr auth, fs)
         | Inl err \<Rightarrow> if \<not> rs_AllowFallback r then (Inl err, fs)
             else (case resolveAPIKey r cfg of Inr auth \<Rightarrow> (Inr auth, fs) | Inl _ \<Rightarrow> (Inl err, fs)))
      else if auth_Method cfg = AuthMethodAPIKey then (resolveAPIKey r cfg, fs)
      else if auth_Method cfg = [] then resolveAuto r cfg fs
      else (Inl (UnsupportedAuthMethod (auth_Method cfg)), fs))"

definition resolveChained :: "auth_resolver \<Rightarrow> AuthConfig \<Rightarrow> profile_files \<Rightarrow> (auth_error + ResolvedAuth) \<times> profile_files" where
  "resolveChained r cfg fs =
     (if Configured (auth_Secret cfg) then
        (case resolveSecret r cfg of
           Inr auth \<Rightarrow> (Inr auth, fs)
         | Inl err \<Rightarrow> if \<not> src_AllowFallback (auth_Secret cfg) then (Inl err, fs) else resolve_method r cfg fs)
      else resolve_method r cfg fs)"

definition Resolve :: "auth_resolver \<Rightarrow> CloudflareConfig option \<Rightarrow> profile_files \<Rightarrow> (auth_error + ResolvedAuth) \<times> profile_files" where
  "Resolve r config fs = (case config of
     None \<Rightarrow> (Inl MissingConfig, fs)
   | Some cfg \<Rightarrow> (case resolveChained r (cfc_Auth cfg) fs of
       (Inl err, fs) \<Rightarrow> (Inl err, fs)
     | (Inr auth, fs) \<Rightarrow> (if \<not> rs_Validate r then (Inr auth, fs)
         else (case or_default (rs_Validator r) NoopTokenValidator auth of
             Inl err \<Rightarrow> (Inl (ValidateFailed (ra_Method auth) err), fs)
           | Inr result \<Rightarrow> if val_Valid result then (Inr auth, fs)
               else (let msg = strings_Join (val_Errors result) ''; '' in
                 (Inl (InvalidAuth (ra_Method auth) (if msg = [] then ''credentials rejected by Cloudflare API'' else msg)), fs))))))"

subsection \<open>Asking Cloudflare\<close>

text \<open>The decoded answer; a body over the cap is cut and then does not decode. The remaining lifetime is not kept.\<close>

record verify_payload =
  vp_Success :: bool
  vp_Status :: string
  vp_Errors :: "string list"

record cloudflare_api =
  cf_BaseURL :: string
  cf_NewRequest :: "string \<Rightarrow> string option"
  cf_Do :: "http_request \<Rightarrow> string + (int \<times> string)"
  cf_Decode :: "string \<Rightarrow> string + verify_payload"

definition maxValidationResponseBytes :: nat where
  "maxValidationResponseBytes = 2 ^ 20"

definition cf_baseURL :: "cloudflare_api \<Rightarrow> string" where
  "cf_baseURL v = (if cf_BaseURL v \<noteq> [] then cf_BaseURL v else ''https://api.cloudflare.com/client/v4'')"

definition validate_call :: "cloudflare_api \<Rightarrow> string \<Rightarrow> (string \<times> string) list \<Rightarrow> (verify_payload \<Rightarrow> bool) \<Rightarrow> string + ValidationResult" where
  "validate_call v url headers accepted = (case cf_NewRequest v url of
     Some err \<Rightarrow> Inl err
   | None \<Rightarrow> Inr (case cf_Do v \<lparr>hreq_URL = url, hreq_Headers = headers\<rparr> of
       Inl err \<Rightarrow> \<lparr>val_Valid = False, val_Errors = [''validation request failed: '' @ err]\<rparr>
     | Inr (status, body) \<Rightarrow> (case cf_Decode v (take maxValidationResponseBytes body) of
         Inl err \<Rightarrow> \<lparr>val_Valid = False, val_Errors = [''decode failed: '' @ err]\<rparr>
       | Inr payload \<Rightarrow> \<lparr>val_Valid = vp_Success payload \<and> status = 200 \<and> accepted payload, val_Errors = vp_Errors payload\<rparr>)))"

definition validateAPIToken :: "cloudflare_api \<Rightarrow> string \<Rightarrow> string + ValidationResult" where
  "validateAPIToken v token = validate_call v (cf_baseURL v @ ''/user/tokens/verify'') [(''Authorization'', ''Bearer '' @ token)]
     (\<lambda>payload. vp_Status payload = ''active'')"

definition validateAPIKey :: "cloudflare_api \<Rightarrow> string \<Rightarrow> string \<Rightarrow> string + ValidationResult" where
  "validateAPIKey v apiKey email = validate_call v (cf_baseURL v @ ''/zones?per_page=1'') [(''X-Auth-Key'', apiKey), (''X-Auth-Email'', email)] (\<lambda>_. True)"

definition ValidateToken :: "cloudflare_api \<Rightarrow> validator" where
  "ValidateToken v auth =
     (if ra_Method auth = AuthMethodAPIToken then validateAPIToken v (ra_AccessToken auth)
      else if ra_Method auth = AuthMethodAPIKey then validateAPIKey v (ra_APIKey auth) (ra_Email auth)
      else if ra_Method auth = AuthMethodOAuth then validateAPIToken v (ra_AccessToken auth)
      else Inl (''unknown auth method '' @ ra_Method auth))"

subsection \<open>The order of the sources\<close>









text \<open>The validator's verdict; without a check everything is accepted.\<close>

definition accepted :: "auth_resolver \<Rightarrow> ResolvedAuth \<Rightarrow> bool" where
  "accepted r auth \<longleftrightarrow> rs_Validate r \<longrightarrow>
     (\<exists>result. or_default (rs_Validator r) NoopTokenValidator auth = Inr result \<and> val_Valid result)"














text \<open>Without a refresher and a validator an expired profile is returned, refreshed to itself, and passes the validation.\<close>

lemma expired_profile_accepted:
  assumes "rs_Refresher r = None" "rs_Validator r = None" "\<not> Configured (auth_Secret (cfc_Auth cfg))" "auth_Method (cfc_Auth cfg) = AuthMethodOAuth"
    and "Store_Load (rs_store r) (normalizeProfile (auth_Profile (cfc_Auth cfg))) fs = Inr p" "auth_UseRefreshToken (cfc_Auth cfg)" "op_RefreshToken p \<noteq> []"
  shows "\<exists>a fs'. Resolve r (Some cfg) fs = (Inr a, fs') \<and> ra_AccessToken a = op_AccessToken p"
  using assms
  by (simp add: Resolve_def resolveChained_def resolve_method_def resolveOAuth_def current_profile_def or_default_def NoopTokenRefresher_def
      NoopTokenValidator_def Let_def split: prod.splits)

text \<open>A profile's name may lead out of the directory of the profiles.\<close>

lemma profile_path_escapes:
  "profilePath \<lparr>oc_BaseDir = ''/h/p'', oc_Home = Inl [], oc_read = (\<lambda>_. None), oc_mkdir = (\<lambda>_. None), oc_write = (\<lambda>_. None), oc_remove = (\<lambda>_. None),
     oc_encode = (\<lambda>_. Inl []), oc_decode = (\<lambda>_. Inl [])\<rparr> ''../../etc/app'' = Inr ''/etc/app.json''"
  by (simp add: profilePath_def normalizeProfile_def filepath_Join_def) code_simp

subsection \<open>The scopes a scan needs\<close>

lemma request_loop_set:
  "request_loop ss req = Inr req' \<Longrightarrow> set req' = set req \<union> (set ss - {''full_readonly''}) \<union> (if ''full_readonly'' \<in> set ss then set CanonicalServices else {}) \<and>
     set ss \<subseteq> insert ''full_readonly'' (set CanonicalServices)"
  by (induction ss arbitrary: req) (auto split: if_splits)

lemma canonical_services_bundled: "list_all (\<lambda>s. list_ex (\<lambda>b. s \<in> set (bnd_Services b)) permissionBundles) CanonicalServices"
  by (simp add: permissionBundles_def CanonicalServices_def)

lemma sort_Nil: "sort xs = [] \<longleftrightarrow> xs = []"
  by (metis length_0_conv length_sort)

text \<open>A strict check misses nothing exactly when every bundle of a requested service is granted whole.\<close>

lemma verify_exact:
  assumes "Permission_Plan services = Inr plan" "normalizeRequestedServices services = Inr requested" "ra_Method auth = AuthMethodOAuth"
  shows "vr_MissingScopes (VerifyResolvedAuth plan auth) = [] \<longleftrightarrow>
    (\<forall>b \<in> set permissionBundles. bundleMatches b requested \<longrightarrow> set (bnd_Scopes b) \<subseteq> set (ra_Scopes auth))"
proof -
  have "vr_MissingScopes (VerifyResolvedAuth plan auth) = [] \<longleftrightarrow> set (pp_Scopes plan) \<subseteq> set (ra_Scopes auth)"
    using assms(3) sort_Nil[of "filter (\<lambda>s. s \<notin> set (ra_Scopes auth)) (pp_Scopes plan)"]
    by (auto simp: VerifyResolvedAuth_def Let_def filter_empty_conv)
  moreover have "set (pp_Scopes plan) = (\<Union>b \<in> {b \<in> set permissionBundles. bundleMatches b requested}. set (bnd_Scopes b))"
    using assms(1,2) by (auto simp: Permission_Plan_def sorted_strings_def Let_def)
  ultimately show ?thesis by blast
qed

subsection \<open>An instance\<close>








end
