(* ===== verification/Schema_Lifecycle.thy ===== *)
theory Schema_Lifecycle imports Provider_Registry begin

text \<open>
  internal/db/schema_lifecycle.go: the upgrade of a database to the schema this binary understands, in one
  transaction, with a ledger of the versions applied. The database engine is a parameter: what it holds is an
  opaque value, a statement is the constructor that names it (the text of the SQL is DuckDB's to run), and a
  query is a function of what is held. \<open>CreateTable t\<close> stands for the statements that create the table \<open>t\<close> and
  its indexes (unified_schema.go, network_schema.go, security_schema.go).
\<close>

subsection \<open>Statements and the engine\<close>

datatype schema_stmt =
    CreateMigrationTable
  | RecordVersion int string
  | CreateTable string
  | CreateView string
  | DropIndex string
  | RenameTable string string
  | AddColumn string string string
  | BackfillColumns string
  | CopyLegacy string string
  | CopyLegacyRelationships string string
  | CreateRelationshipView string string
  | CreateQueryHelpers
  | CreateObservations
  | CreateMaterialization
  | CreateFindings
  | AddObservationTimes

record 'c schema_engine =
  en_begin :: "string option"
  en_exec :: "schema_stmt \<Rightarrow> 'c \<Rightarrow> string + 'c"
  en_has_ledger :: "'c \<Rightarrow> string + bool"
  en_version :: "'c \<Rightarrow> string + int"
  en_kind :: "string \<Rightarrow> 'c \<Rightarrow> string + string option"
  en_columns :: "string \<Rightarrow> 'c \<Rightarrow> string + string list"
  en_indexes :: "string \<Rightarrow> 'c \<Rightarrow> string + string list"
  en_commit :: "'c \<Rightarrow> string option"

datatype rename_error =
    ListIndexes string
  | DropIndexFailed string string
  | RenameFailed string

datatype migrate_error =
    StatementFailed schema_stmt string
  | InspectObject string string
  | InspectColumns string
  | NotATable string string
  | ArchiveExists string string
  | ArchiveFailed string rename_error

datatype schema_error =
    DatabaseRequired
  | BeginFailed string
  | CreateLedgerFailed string
  | ReadVersionFailed string
  | NewerSchema int
  | MigrateFailed int migrate_error
  | RecordFailed int string
  | HelpersFailed migrate_error
  | CommitFailed string

text \<open>A transaction: what the engine holds inside it, and the statements that succeeded, each with what was
  held before it.\<close>

record 'c schema_tx =
  tx_db :: 'c
  tx_log :: "(schema_stmt \<times> 'c) list"

type_synonym ('c, 'e, 'a) tx_step = "'c schema_tx \<Rightarrow> (('e + 'a) \<times> 'c schema_tx) panics"

definition tx_return :: "'a \<Rightarrow> ('c, 'e, 'a) tx_step" where
  "tx_return a t = Some (Inr a, t)"

definition tx_fail :: "'e \<Rightarrow> ('c, 'e, 'a) tx_step" where
  "tx_fail e t = Some (Inl e, t)"

definition tx_bind :: "('c, 'e, 'a) tx_step \<Rightarrow> ('a \<Rightarrow> ('c, 'e, 'b) tx_step) \<Rightarrow> ('c, 'e, 'b) tx_step" where
  "tx_bind m f t = (case m t of None \<Rightarrow> None | Some (Inl e, u) \<Rightarrow> Some (Inl e, u) | Some (Inr a, u) \<Rightarrow> f a u)"

abbreviation tx_then :: "('c, 'e, unit) tx_step \<Rightarrow> ('c, 'e, 'b) tx_step \<Rightarrow> ('c, 'e, 'b) tx_step" where
  "tx_then m n \<equiv> tx_bind m (\<lambda>_. n)"

definition tx_wrap :: "('e \<Rightarrow> 'f) \<Rightarrow> ('c, 'e, 'a) tx_step \<Rightarrow> ('c, 'f, 'a) tx_step" where
  "tx_wrap w m t = (case m t of None \<Rightarrow> None | Some (Inl e, u) \<Rightarrow> Some (Inl (w e), u) | Some (Inr a, u) \<Rightarrow> Some (Inr a, u))"

definition tx_assert :: "bool \<Rightarrow> ('c, 'e, unit) tx_step" where
  "tx_assert c t = (if c then Some (Inr (), t) else None)"

definition tx_query :: "(string \<Rightarrow> 'e) \<Rightarrow> ('c \<Rightarrow> string + 'a) \<Rightarrow> ('c, 'e, 'a) tx_step" where
  "tx_query w q t = (case q (tx_db t) of Inl err \<Rightarrow> Some (Inl (w err), t) | Inr a \<Rightarrow> Some (Inr a, t))"

definition tx_exec :: "'c schema_engine \<Rightarrow> (string \<Rightarrow> 'e) \<Rightarrow> schema_stmt \<Rightarrow> ('c, 'e, unit) tx_step" where
  "tx_exec en w s t = (case en_exec en s (tx_db t) of
     Inl err \<Rightarrow> Some (Inl (w err), t)
   | Inr d \<Rightarrow> Some (Inr (), \<lparr>tx_db = d, tx_log = tx_log t @ [(s, tx_db t)]\<rparr>))"

definition tx_run :: "'c schema_engine \<Rightarrow> schema_stmt \<Rightarrow> ('c, migrate_error, unit) tx_step" where
  "tx_run en s = tx_exec en (StatementFailed s) s"

primrec tx_each :: "('a \<Rightarrow> ('c, 'e, unit) tx_step) \<Rightarrow> 'a list \<Rightarrow> ('c, 'e, unit) tx_step" where
  "tx_each f [] = tx_return ()"
| "tx_each f (x # xs) = tx_then (f x) (tx_each f xs)"

subsection \<open>Reading the catalog\<close>

definition LatestSchemaVersion :: int where
  "LatestSchemaVersion = 7"

definition quoteSchemaIdentifier :: "string \<Rightarrow> ('c, 'e, unit) tx_step" where
  "quoteSchemaIdentifier name = tx_assert (tableNamePattern name)"

definition kind_name :: "string option \<Rightarrow> string" where
  "kind_name k = (case k of None \<Rightarrow> [] | Some k \<Rightarrow> strings_ToUpper k)"

definition schemaObjectKind :: "'c schema_engine \<Rightarrow> string \<Rightarrow> ('c, migrate_error, string) tx_step" where
  "schemaObjectKind en name = tx_bind (tx_query (InspectObject name) (en_kind en name)) (\<lambda>k. tx_return (kind_name k))"

definition schemaColumns :: "'c schema_engine \<Rightarrow> string \<Rightarrow> ('c, migrate_error, string list) tx_step" where
  "schemaColumns en table = tx_bind (tx_query InspectColumns (en_columns en table)) (\<lambda>cs. tx_return (map strings_ToLower cs))"

definition legacyTableIndexes :: "'c schema_engine \<Rightarrow> string \<Rightarrow> ('c, rename_error, string list) tx_step" where
  "legacyTableIndexes en table = tx_query ListIndexes (en_indexes en table)"

subsection \<open>Archiving legacy tables\<close>

definition renameLegacyTable :: "'c schema_engine \<Rightarrow> string \<Rightarrow> string \<Rightarrow> ('c, rename_error, unit) tx_step" where
  "renameLegacyTable en table archive =
     tx_bind (legacyTableIndexes en table) (\<lambda>indexes.
     tx_then (tx_each (\<lambda>index. tx_then (quoteSchemaIdentifier index) (tx_exec en (DropIndexFailed index) (DropIndex index))) indexes)
     (tx_then (quoteSchemaIdentifier table)
     (tx_then (quoteSchemaIdentifier archive)
     (tx_exec en RenameFailed (RenameTable table archive)))))"

text \<open>What the three callers share: the archive's name must be free.\<close>

definition archive_table :: "'c schema_engine \<Rightarrow> string \<Rightarrow> string \<Rightarrow> ('c, migrate_error, unit) tx_step" where
  "archive_table en table archive =
     tx_bind (schemaObjectKind en archive) (\<lambda>existing.
     if existing \<noteq> [] then tx_fail (ArchiveExists table archive)
     else tx_wrap (ArchiveFailed table) (renameLegacyTable en table archive))"

definition archiveLegacyTable :: "'c schema_engine \<Rightarrow> string \<Rightarrow> string \<Rightarrow> string \<Rightarrow> ('c, migrate_error, bool) tx_step" where
  "archiveLegacyTable en table archive canonicalColumn =
     tx_bind (schemaObjectKind en table) (\<lambda>kind.
     if kind = [] then tx_return False
     else if kind \<noteq> ''BASE TABLE'' then tx_fail (NotATable table kind)
     else tx_bind (schemaColumns en table) (\<lambda>columns.
       if canonicalColumn \<in> set columns then tx_return False
       else tx_then (archive_table en table archive) (tx_return True)))"

definition archiveLegacyNamedTable :: "'c schema_engine \<Rightarrow> string \<Rightarrow> ('c, migrate_error, bool) tx_step" where
  "archiveLegacyNamedTable en table =
     tx_bind (schemaObjectKind en table) (\<lambda>kind.
     if kind = [] then tx_return False
     else if kind \<noteq> ''BASE TABLE'' then tx_fail (NotATable table kind)
     else tx_then (archive_table en table (table @ ''_legacy_v0'')) (tx_return True))"

definition relationship_archive :: "string \<Rightarrow> string" where
  "relationship_archive provider = provider @ ''_relationships_legacy_v0''"

text \<open>The providers whose relationships were kept in a table of their own.\<close>

primrec archive_relationships_loop :: "'c schema_engine \<Rightarrow> string list \<Rightarrow> string list \<Rightarrow> ('c, migrate_error, string list) tx_step" where
  "archive_relationships_loop en [] legacy = tx_return legacy"
| "archive_relationships_loop en (provider # providers) legacy =
     tx_bind (schemaObjectKind en (provider @ ''_relationships'')) (\<lambda>kind.
     if kind = ''BASE TABLE''
     then tx_then (archive_table en (provider @ ''_relationships'') (relationship_archive provider))
       (archive_relationships_loop en providers (legacy @ [provider]))
     else archive_relationships_loop en providers legacy)"

subsection \<open>Creating the schema\<close>

definition unified_table_names :: "string list" where
  "unified_table_names = [''aws_resources'', ''azure_resources'', ''kubernetes_resources'', ''gcp_resources'', ''github_resources'',
     ''cloudflare_resources'', ''cloud_relationships'', ''scan_metadata'', ''api_action_metadata'']"

definition cross_cloud_table_names :: "string list" where
  "cross_cloud_table_names = [''cross_cloud_ip_addresses'', ''cross_cloud_dns_records'', ''cross_cloud_correlations'',
     ''cross_cloud_network_topology'']"

definition security_table_names :: "string list" where
  "security_table_names = [''identity_federation_relationships'', ''security_role_relationships'', ''policy_similarity_analysis'',
     ''certificate_correlations'', ''privilege_escalation_paths'', ''security_risk_assessments'', ''compliance_mappings'',
     ''shared_secrets_correlation'']"

definition network_table_names :: "string list" where
  "network_table_names = [''cross_cloud_vpn_connections'', ''cross_cloud_network_peering'', ''cross_cloud_direct_connections'',
     ''cross_cloud_enhanced_dns'', ''cross_cloud_loadbalancer_topology'', ''cross_cloud_security_correlations'',
     ''cross_cloud_visualization_metadata'']"

definition createCrossCloudTables :: "'c schema_engine \<Rightarrow> ('c, migrate_error, unit) tx_step" where
  "createCrossCloudTables en = tx_each (\<lambda>t. tx_run en (CreateTable t)) cross_cloud_table_names"

definition createSecurityTables :: "'c schema_engine \<Rightarrow> ('c, migrate_error, unit) tx_step" where
  "createSecurityTables en = tx_each (\<lambda>t. tx_run en (CreateTable t)) security_table_names"

definition createUnifiedTables :: "'c schema_engine \<Rightarrow> ('c, migrate_error, unit) tx_step" where
  "createUnifiedTables en = tx_then (tx_each (\<lambda>t. tx_run en (CreateTable t)) unified_table_names)
     (tx_then (createCrossCloudTables en) (createSecurityTables en))"

definition CreateNetworkTopologyExtensions :: "'c schema_engine \<Rightarrow> ('c, migrate_error, unit) tx_step" where
  "CreateNetworkTopologyExtensions en = tx_each (\<lambda>t. tx_run en (CreateTable t)) network_table_names"

definition CreateCrossCloudViews :: "'c schema_engine \<Rightarrow> ('c, migrate_error, unit) tx_step" where
  "CreateCrossCloudViews en = tx_each (\<lambda>v. tx_run en (CreateView v)) [''all_cloud_resources'', ''resource_counts_by_provider'']"

definition CreateSecurityViews :: "'c schema_engine \<Rightarrow> ('c, migrate_error, unit) tx_step" where
  "CreateSecurityViews en = tx_each (\<lambda>v. tx_run en (CreateView v)) [''cross_cloud_security_summary'', ''privilege_escalation_summary'']"

definition CreateNetworkAnalyticsViews :: "'c schema_engine \<Rightarrow> ('c, migrate_error, unit) tx_step" where
  "CreateNetworkAnalyticsViews en = tx_each (\<lambda>v. tx_run en (CreateView v))
     [''vpn_connections_summary'', ''network_peering_summary'', ''cross_cloud_correlation_summary'']"

definition createCompatibilityAggregateTables :: "'c schema_engine \<Rightarrow> ('c, migrate_error, unit) tx_step" where
  "createCompatibilityAggregateTables en = tx_each (\<lambda>t. tx_run en (CreateTable t))
     [''crosscloud_resources'', ''crosscloud_generic_correlations'']"

definition createCustomProviderResources :: "'c schema_engine \<Rightarrow> ('c, migrate_error, unit) tx_step" where
  "createCustomProviderResources en = tx_run en (CreateTable CustomResourceTable)"

definition graph_columns :: "(string \<times> string) list" where
  "graph_columns = [(''service'', ''VARCHAR''), (''region'', ''VARCHAR''), (''account_id'', ''VARCHAR''), (''arn'', ''VARCHAR''),
     (''tags'', ''JSON''), (''attributes'', ''JSON''), (''raw_data'', ''JSON''), (''state'', ''VARCHAR''),
     (''created_at'', ''TIMESTAMP''), (''modified_at'', ''TIMESTAMP''), (''scanned_at'', ''TIMESTAMP'')]"

definition ensureProviderGraphColumns :: "'c schema_engine \<Rightarrow> ('c, migrate_error, unit) tx_step" where
  "ensureProviderGraphColumns en =
     tx_then (tx_each (\<lambda>provider. tx_each (\<lambda>(column, dataType).
        tx_then (quoteSchemaIdentifier (provider @ ''_resources''))
        (tx_then (quoteSchemaIdentifier column) (tx_run en (AddColumn (provider @ ''_resources'') column dataType)))) graph_columns) Provider_Names)
     (tx_each (\<lambda>table. tx_run en (BackfillColumns table))
        [''aws_resources'', ''azure_resources'', ''gcp_resources'', ''kubernetes_resources'', ''github_resources'', ''cloudflare_resources''])"

subsection \<open>Copying legacy rows\<close>

definition copy_legacy :: "'c schema_engine \<Rightarrow> bool \<Rightarrow> string \<Rightarrow> string \<Rightarrow> ('c, migrate_error, unit) tx_step" where
  "copy_legacy en legacy archive table = (if legacy then tx_run en (CopyLegacy archive table) else tx_return ())"

definition migrateLegacyCrossCloudRows :: "'c schema_engine \<Rightarrow> ('c, migrate_error, unit) tx_step" where
  "migrateLegacyCrossCloudRows en =
     tx_bind (archiveLegacyNamedTable en ''crosscloud_ip_addresses'') (\<lambda>legacyIP.
     tx_then (copy_legacy en legacyIP ''crosscloud_ip_addresses_legacy_v0'' ''cross_cloud_ip_addresses'')
     (tx_bind (archiveLegacyNamedTable en ''crosscloud_dns_records'') (\<lambda>legacyDNS.
     tx_then (copy_legacy en legacyDNS ''crosscloud_dns_records_legacy_v0'' ''cross_cloud_dns_records'')
     (tx_bind (archiveLegacyNamedTable en ''crosscloud_correlations'') (\<lambda>legacyCorrelations.
     copy_legacy en legacyCorrelations ''crosscloud_correlations_legacy_v0'' ''cross_cloud_correlations'')))))"

subsection \<open>The versions\<close>

definition migrateSchemaV1 :: "'c schema_engine \<Rightarrow> ('c, migrate_error, unit) tx_step" where
  "migrateSchemaV1 en =
     tx_bind (archiveLegacyTable en ''scan_metadata'' ''scan_metadata_legacy_v0'' ''provider'') (\<lambda>legacyScan.
     tx_bind (archiveLegacyTable en ''api_action_metadata'' ''api_action_metadata_legacy_v0'' ''provider'') (\<lambda>legacyAPI.
     tx_bind (archive_relationships_loop en Provider_Names []) (\<lambda>legacyRelationships.
     tx_then (createUnifiedTables en)
     (tx_then (createCompatibilityAggregateTables en)
     (tx_then (ensureProviderGraphColumns en)
     (tx_then (createCustomProviderResources en)
     (tx_then (CreateNetworkTopologyExtensions en)
     (tx_then (CreateCrossCloudViews en)
     (tx_then (CreateSecurityViews en)
     (tx_then (CreateNetworkAnalyticsViews en)
     (tx_then (copy_legacy en legacyScan ''scan_metadata_legacy_v0'' ''scan_metadata'')
     (tx_then (copy_legacy en legacyAPI ''api_action_metadata_legacy_v0'' ''api_action_metadata'')
     (tx_then (tx_each (\<lambda>provider. tx_then (quoteSchemaIdentifier (relationship_archive provider))
         (tx_run en (CopyLegacyRelationships (relationship_archive provider) provider))) legacyRelationships)
     (tx_then (migrateLegacyCrossCloudRows en)
     (tx_each (\<lambda>provider. tx_then (quoteSchemaIdentifier (provider @ ''_relationships''))
         (tx_run en (CreateRelationshipView (provider @ ''_relationships'') provider))) Provider_Names)))))))))))))))"

definition migrateSchemaV2 :: "'c schema_engine \<Rightarrow> ('c, migrate_error, unit) tx_step" where
  "migrateSchemaV2 en = tx_then (createCustomProviderResources en) (CreateCrossCloudViews en)"

definition migrateSchemaV3 :: "'c schema_engine \<Rightarrow> ('c, migrate_error, unit) tx_step" where
  "migrateSchemaV3 en = tx_run en CreateQueryHelpers"

definition migrateSchemaV4 :: "'c schema_engine \<Rightarrow> ('c, migrate_error, unit) tx_step" where
  "migrateSchemaV4 en = tx_run en CreateObservations"

definition migrateSchemaV5 :: "'c schema_engine \<Rightarrow> ('c, migrate_error, unit) tx_step" where
  "migrateSchemaV5 en = tx_run en CreateMaterialization"

definition migrateSchemaV6 :: "'c schema_engine \<Rightarrow> ('c, migrate_error, unit) tx_step" where
  "migrateSchemaV6 en = tx_run en CreateFindings"

definition migrateSchemaV7 :: "'c schema_engine \<Rightarrow> ('c, migrate_error, unit) tx_step" where
  "migrateSchemaV7 en = tx_run en AddObservationTimes"

text \<open>One block of \<open>EnsureSchema\<close>: the version is recorded after its migration, in the same transaction.\<close>

definition migrate_to :: "'c schema_engine \<Rightarrow> int \<Rightarrow> string \<Rightarrow> ('c, migrate_error, unit) tx_step \<Rightarrow> int \<Rightarrow> ('c, schema_error, int) tx_step" where
  "migrate_to en n name m version =
     (if version < n
      then tx_then (tx_wrap (MigrateFailed n) m) (tx_then (tx_exec en (RecordFailed n) (RecordVersion n name)) (tx_return n))
      else tx_return version)"

definition upgrade_from :: "'c schema_engine \<Rightarrow> int \<Rightarrow> ('c, schema_error, unit) tx_step" where
  "upgrade_from en version =
     tx_bind (migrate_to en 1 ''authoritative_schema_lifecycle'' (migrateSchemaV1 en) version) (\<lambda>version.
     tx_bind (migrate_to en 2 ''custom_provider_resources'' (migrateSchemaV2 en) version) (\<lambda>version.
     tx_bind (migrate_to en 3 ''normalized_query_helpers'' (migrateSchemaV3 en) version) (\<lambda>version.
     tx_bind (migrate_to en 4 ''historical_scan_observations'' (migrateSchemaV4 en) version) (\<lambda>version.
     tx_bind (migrate_to en 5 ''correlation_materialization'' (migrateSchemaV5 en) version) (\<lambda>version.
     tx_bind (migrate_to en 6 ''durable_findings'' (migrateSchemaV6 en) version) (\<lambda>_.
     tx_bind (migrate_to en 7 ''observation_resource_times'' (migrateSchemaV7 en) version) (\<lambda>_.
     tx_wrap HelpersFailed (migrateSchemaV3 en))))))))"

definition upgrade :: "'c schema_engine \<Rightarrow> ('c, schema_error, unit) tx_step" where
  "upgrade en =
     tx_then (tx_exec en CreateLedgerFailed CreateMigrationTable)
     (tx_bind (tx_query ReadVersionFailed (en_version en)) (\<lambda>version.
      if version > LatestSchemaVersion then tx_fail (NewerSchema version) else upgrade_from en version))"

text \<open>How an upgrade ends, with the statements of one that was committed. Whatever ends it otherwise, the
  deferred rollback leaves what was there before the transaction.\<close>

datatype 'c schema_outcome =
    SchemaReady "(schema_stmt \<times> 'c) list"
  | SchemaFailed schema_error
  | SchemaPanicked

definition EnsureSchema :: "'c schema_engine \<Rightarrow> 'c option \<Rightarrow> 'c schema_outcome \<times> 'c option" where
  "EnsureSchema en database = (case database of
     None \<Rightarrow> (SchemaFailed DatabaseRequired, None)
   | Some db \<Rightarrow> (case en_begin en of
       Some err \<Rightarrow> (SchemaFailed (BeginFailed err), Some db)
     | None \<Rightarrow> (case upgrade en \<lparr>tx_db = db, tx_log = []\<rparr> of
         None \<Rightarrow> (SchemaPanicked, Some db)
       | Some (Inl e, t) \<Rightarrow> (SchemaFailed e, Some db)
       | Some (Inr _, t) \<Rightarrow> (case en_commit en (tx_db t) of
           Some err \<Rightarrow> (SchemaFailed (CommitFailed err), Some db)
         | None \<Rightarrow> (SchemaReady (tx_log t), Some (tx_db t))))))"

definition CurrentSchemaVersion :: "'c schema_engine \<Rightarrow> 'c option \<Rightarrow> string option + int" where
  "CurrentSchemaVersion en database = (case database of
     None \<Rightarrow> Inl None
   | Some db \<Rightarrow> (case en_has_ledger en db of
       Inl err \<Rightarrow> Inl (Some err)
     | Inr False \<Rightarrow> Inr 0
     | Inr True \<Rightarrow> (case en_version en db of Inl err \<Rightarrow> Inl (Some err) | Inr v \<Rightarrow> Inr v)))"


subsection \<open>Steps that succeed\<close>

definition ensures :: "('c schema_tx \<Rightarrow> bool) \<Rightarrow> ('c, 'e, 'a) tx_step \<Rightarrow> ('a \<Rightarrow> 'c schema_tx \<Rightarrow> bool) \<Rightarrow> bool" where
  "ensures P m Q \<longleftrightarrow> (\<forall>t a u. P t \<longrightarrow> m t = Some (Inr a, u) \<longrightarrow> Q a u)"

named_theorems ensures_rules

lemma ensures_return [ensures_rules]: "(\<And>t. P t \<Longrightarrow> Q a t) \<Longrightarrow> ensures P (tx_return a) Q"
  by (simp add: ensures_def tx_return_def)

lemma ensures_fail [ensures_rules]: "ensures P (tx_fail e) Q"
  by (simp add: ensures_def tx_fail_def)

lemma ensures_bind: "ensures P m R \<Longrightarrow> (\<And>a. ensures (R a) (f a) Q) \<Longrightarrow> ensures P (tx_bind m f) Q"
  unfolding ensures_def tx_bind_def by (auto split: option.splits sum.splits)

lemma ensures_wrap [ensures_rules]: "ensures P m Q \<Longrightarrow> ensures P (tx_wrap w m) Q"
  by (auto simp: ensures_def tx_wrap_def split: option.splits sum.splits)

lemma ensures_assert: "ensures P (tx_assert c) (\<lambda>_ t. P t \<and> c)"
  by (auto simp: ensures_def tx_assert_def split: if_splits)

lemma ensures_query: "(\<And>t a. P t \<Longrightarrow> q (tx_db t) = Inr a \<Longrightarrow> Q a t) \<Longrightarrow> ensures P (tx_query w q) Q"
  by (auto simp: ensures_def tx_query_def split: sum.splits)

lemma ensures_exec:
  "(\<And>t d. P t \<Longrightarrow> en_exec en s (tx_db t) = Inr d \<Longrightarrow> Q () \<lparr>tx_db = d, tx_log = tx_log t @ [(s, tx_db t)]\<rparr>) \<Longrightarrow> ensures P (tx_exec en w s) Q"
  by (auto simp: ensures_def tx_exec_def split: sum.splits)

lemma ensures_if [ensures_rules]:
  "(c \<Longrightarrow> ensures P m Q) \<Longrightarrow> (\<not> c \<Longrightarrow> ensures P n Q) \<Longrightarrow> ensures P (if c then m else n) Q"
  by simp

lemma ensures_post: "ensures P m R \<Longrightarrow> (\<And>a t. R a t \<Longrightarrow> Q a t) \<Longrightarrow> ensures P m Q"
  unfolding ensures_def by blast

lemma ensures_pre: "ensures R m Q \<Longrightarrow> (\<And>t. P t \<Longrightarrow> R t) \<Longrightarrow> ensures P m Q"
  unfolding ensures_def by blast

lemma ensures_pure: "(c \<Longrightarrow> ensures P m Q) \<Longrightarrow> ensures (\<lambda>t. c \<and> P t) m Q"
  unfolding ensures_def by blast

lemma ensures_each: "(\<And>x. x \<in> set xs \<Longrightarrow> ensures P (f x) (\<lambda>_. P)) \<Longrightarrow> ensures P (tx_each f xs) (\<lambda>_. P)"
  by (induction xs) (auto intro!: ensures_return intro: ensures_bind)

lemma ensures_quote: "ensures P (quoteSchemaIdentifier name) (\<lambda>_. P)"
  unfolding quoteSchemaIdentifier_def by (rule ensures_post[OF ensures_assert]) simp

subsection \<open>What the engine promises\<close>

definition ledger_table :: string where
  "ledger_table = ''corkscrew_schema_migrations''"

type_synonym version_ledger = "(int \<times> string) list"

definition ledger_version :: "version_ledger \<Rightarrow> int" where
  "ledger_version l = (if l = [] then 0 else Max (set (map fst l)))"

definition ledger_rows :: "version_ledger option \<Rightarrow> version_ledger" where
  "ledger_rows l = (case l of None \<Rightarrow> [] | Some l \<Rightarrow> l)"

fun touches_ledger :: "schema_stmt \<Rightarrow> bool" where
  "touches_ledger CreateMigrationTable = True"
| "touches_ledger (RecordVersion n name) = True"
| "touches_ledger (RenameTable table archive) = (table = ledger_table \<or> archive = ledger_table)"
| "touches_ledger s = False"

text \<open>The ledger is a table under the version as its key, that only its own statements change and whose greatest
  version is read; dropping an index changes neither a table's kind nor its columns.\<close>

definition schema_engine_ok :: "'c schema_engine \<Rightarrow> ('c \<Rightarrow> version_ledger option) \<Rightarrow> bool" where
  "schema_engine_ok en ledger \<longleftrightarrow>
     (\<forall>d d'. en_exec en CreateMigrationTable d = Inr d' \<longrightarrow> ledger d' = Some (ledger_rows (ledger d))) \<and>
     (\<forall>d d' l n name. en_exec en (RecordVersion n name) d = Inr d' \<longrightarrow> ledger d = Some l \<longrightarrow> n \<notin> fst ` set l \<and> ledger d' = Some (l @ [(n, name)])) \<and>
     (\<forall>s d d'. en_exec en s d = Inr d' \<longrightarrow> \<not> touches_ledger s \<longrightarrow> ledger d' = ledger d) \<and>
     (\<forall>d l v. ledger d = Some l \<longrightarrow> en_version en d = Inr v \<longrightarrow> v = ledger_version l) \<and>
     (\<forall>i d d' table. en_exec en (DropIndex i) d = Inr d' \<longrightarrow> en_kind en table d' = en_kind en table d \<and> en_columns en table d' = en_columns en table d)"

text \<open>The archives that were made and not yet copied.\<close>

fun unread_after :: "string set \<Rightarrow> schema_stmt \<Rightarrow> string set" where
  "unread_after A (RenameTable table archive) = insert archive A"
| "unread_after A (CopyLegacy archive table) = A - {archive}"
| "unread_after A (CopyLegacyRelationships archive provider) = A - {archive}"
| "unread_after A s = A"

definition unread :: "schema_stmt list \<Rightarrow> string set" where
  "unread ss = foldl unread_after {} ss"

definition has_kind :: "'c schema_engine \<Rightarrow> string \<Rightarrow> string \<Rightarrow> 'c \<Rightarrow> bool" where
  "has_kind en name kind d \<longleftrightarrow> (\<exists>k. en_kind en name d = Inr k \<and> kind_name k = kind)"

definition lacks_column :: "'c schema_engine \<Rightarrow> string \<Rightarrow> string \<Rightarrow> 'c \<Rightarrow> bool" where
  "lacks_column en table column d \<longleftrightarrow> (\<exists>cs. en_columns en table d = Inr cs \<and> column \<notin> set (map strings_ToLower cs))"

text \<open>A table is renamed only in a database without a version, if it is a table of the old shape, to a name nothing has.\<close>

definition rename_safe :: "'c schema_engine \<Rightarrow> ('c \<Rightarrow> version_ledger option) \<Rightarrow> schema_stmt \<times> 'c \<Rightarrow> bool" where
  "rename_safe en ledger = (\<lambda>(s, d). case s of
     RenameTable table archive \<Rightarrow> has_kind en table ''BASE TABLE'' d \<and> has_kind en archive [] d \<and>
       (table \<in> {''scan_metadata'', ''api_action_metadata''} \<longrightarrow> lacks_column en table ''provider'' d) \<and>
       ledger_version (ledger_rows (ledger d)) < 1
   | _ \<Rightarrow> True)"

definition tx_state :: "'c schema_engine \<Rightarrow> ('c \<Rightarrow> version_ledger option) \<Rightarrow> version_ledger \<Rightarrow> string set \<Rightarrow> 'c schema_tx \<Rightarrow> bool" where
  "tx_state en ledger l A t \<longleftrightarrow> ledger (tx_db t) = Some l \<and> list_all (rename_safe en ledger) (tx_log t) \<and> unread (map fst (tx_log t)) = A"

subsection \<open>Steps of an upgrade\<close>

lemma unread_snoc: "unread (ss @ [s]) = unread_after (unread ss) s"
  by (simp add: unread_def)

text \<open>Statements that neither touch the ledger nor archive or read an archive.\<close>

fun plain :: "schema_stmt \<Rightarrow> bool" where
  "plain CreateMigrationTable = False"
| "plain (RecordVersion n name) = False"
| "plain (RenameTable table archive) = False"
| "plain (CopyLegacy archive table) = False"
| "plain (CopyLegacyRelationships archive provider) = False"
| "plain s = True"

lemma plain_steps: "plain s \<Longrightarrow> \<not> touches_ledger s" "plain s \<Longrightarrow> unread_after A s = A" "plain s \<Longrightarrow> rename_safe en ledger (s, d)"
  by (cases s; simp add: rename_safe_def)+

lemma engine_laws:
  assumes "schema_engine_ok en ledger"
  shows engine_creates: "en_exec en CreateMigrationTable d = Inr d' \<Longrightarrow> ledger d' = Some (ledger_rows (ledger d))"
    and engine_records: "en_exec en (RecordVersion n name) d = Inr d' \<Longrightarrow> ledger d = Some l \<Longrightarrow> ledger d' = Some (l @ [(n, name)])"
    and engine_keeps: "en_exec en s d = Inr d' \<Longrightarrow> \<not> touches_ledger s \<Longrightarrow> ledger d' = ledger d"
    and engine_version: "ledger d = Some l \<Longrightarrow> en_version en d = Inr v \<Longrightarrow> v = ledger_version l"
    and engine_drops: "en_exec en (DropIndex i) d = Inr d' \<Longrightarrow> en_kind en table d' = en_kind en table d \<and> en_columns en table d' = en_columns en table d"
  using assms unfolding schema_engine_ok_def by blast+

lemma run_plain:
  assumes "schema_engine_ok en ledger" "plain s"
  shows "ensures (tx_state en ledger l A) (tx_exec en w s) (\<lambda>_. tx_state en ledger l A)"
proof (rule ensures_exec)
  fix t d assume t: "tx_state en ledger l A t" and d: "en_exec en s (tx_db t) = Inr d"
  have "ledger d = ledger (tx_db t)" by (rule engine_keeps[OF assms(1) d]) (simp add: plain_steps[OF assms(2)])
  then show "tx_state en ledger l A \<lparr>tx_db = d, tx_log = tx_log t @ [(s, tx_db t)]\<rparr>"
    using t plain_steps[OF assms(2)] by (simp add: tx_state_def unread_snoc)
qed

lemma run_copy:
  assumes "schema_engine_ok en ledger" "s = CopyLegacy archive x \<or> s = CopyLegacyRelationships archive x"
  shows "ensures (tx_state en ledger l A) (tx_exec en w s) (\<lambda>_. tx_state en ledger l (A - {archive}))"
proof (rule ensures_exec)
  fix t d assume t: "tx_state en ledger l A t" and d: "en_exec en s (tx_db t) = Inr d"
  have "\<not> touches_ledger s" using assms(2) by auto
  then have "ledger d = ledger (tx_db t)" by (rule engine_keeps[OF assms(1) d])
  then show "tx_state en ledger l (A - {archive}) \<lparr>tx_db = d, tx_log = tx_log t @ [(s, tx_db t)]\<rparr>"
    using t assms(2) by (auto simp: tx_state_def unread_snoc rename_safe_def)
qed

lemma run_record:
  assumes "schema_engine_ok en ledger"
  shows "ensures (tx_state en ledger l A) (tx_exec en w (RecordVersion n name)) (\<lambda>_. tx_state en ledger (l @ [(n, name)]) A)"
proof (rule ensures_exec)
  fix t d assume t: "tx_state en ledger l A t" and d: "en_exec en (RecordVersion n name) (tx_db t) = Inr d"
  have "ledger d = Some (l @ [(n, name)])" using engine_records[OF assms d] t by (simp add: tx_state_def)
  then show "tx_state en ledger (l @ [(n, name)]) A \<lparr>tx_db = d, tx_log = tx_log t @ [(RecordVersion n name, tx_db t)]\<rparr>"
    using t by (simp add: tx_state_def unread_snoc rename_safe_def)
qed

text \<open>A table of the old shape whose archive's name is free; dropping its indexes keeps it so.\<close>

definition archivable :: "'c schema_engine \<Rightarrow> string \<Rightarrow> string \<Rightarrow> 'c \<Rightarrow> bool" where
  "archivable en table archive d \<longleftrightarrow> has_kind en table ''BASE TABLE'' d \<and> has_kind en archive [] d \<and>
     (table \<in> {''scan_metadata'', ''api_action_metadata''} \<longrightarrow> lacks_column en table ''provider'' d)"

lemma ensures_drop:
  assumes "schema_engine_ok en ledger"
  shows "ensures (\<lambda>t. tx_state en ledger l A t \<and> archivable en table archive (tx_db t)) (tx_exec en w (DropIndex i))
    (\<lambda>_ t. tx_state en ledger l A t \<and> archivable en table archive (tx_db t))"
proof (rule ensures_exec)
  fix t d assume t: "tx_state en ledger l A t \<and> archivable en table archive (tx_db t)" and d: "en_exec en (DropIndex i) (tx_db t) = Inr d"
  have s: "plain (DropIndex i)" by simp
  have "ledger d = ledger (tx_db t)" by (rule engine_keeps[OF assms d]) (simp add: plain_steps[OF s])
  moreover have "archivable en table archive d" using engine_drops[OF assms d] t by (simp add: archivable_def has_kind_def lacks_column_def)
  ultimately show "tx_state en ledger l A \<lparr>tx_db = d, tx_log = tx_log t @ [(DropIndex i, tx_db t)]\<rparr> \<and>
      archivable en table archive (tx_db \<lparr>tx_db = d, tx_log = tx_log t @ [(DropIndex i, tx_db t)]\<rparr>)"
    using t plain_steps[OF s] by (simp add: tx_state_def unread_snoc)
qed

lemma ensures_rename:
  assumes "schema_engine_ok en ledger" "table \<noteq> ledger_table" "archive \<noteq> ledger_table" "ledger_version l < 1"
  shows "ensures (\<lambda>t. tx_state en ledger l A t \<and> archivable en table archive (tx_db t)) (renameLegacyTable en table archive)
    (\<lambda>_. tx_state en ledger l (insert archive A))"
  (is "ensures ?P _ _")
proof -
  have "ensures ?P (tx_each (\<lambda>i. tx_then (quoteSchemaIdentifier i) (tx_exec en (DropIndexFailed i) (DropIndex i))) indexes) (\<lambda>_. ?P)" for indexes
    by (rule ensures_each, rule ensures_bind[OF ensures_quote], rule ensures_drop[OF assms(1)])
  moreover have "ensures ?P (tx_exec en RenameFailed (RenameTable table archive)) (\<lambda>_. tx_state en ledger l (insert archive A))"
  proof (rule ensures_exec)
    fix t d assume t: "?P t" and d: "en_exec en (RenameTable table archive) (tx_db t) = Inr d"
    have "\<not> touches_ledger (RenameTable table archive)" using assms(2,3) by simp
    then have "ledger d = ledger (tx_db t)" by (rule engine_keeps[OF assms(1) d])
    then show "tx_state en ledger l (insert archive A) \<lparr>tx_db = d, tx_log = tx_log t @ [(RenameTable table archive, tx_db t)]\<rparr>"
      using t assms(4) by (simp add: tx_state_def unread_snoc rename_safe_def archivable_def ledger_rows_def)
  qed
  ultimately show ?thesis unfolding renameLegacyTable_def legacyTableIndexes_def
    by (intro ensures_bind[OF ensures_query[where Q = "\<lambda>_. ?P"]] ensures_bind[OF ensures_quote] ensures_bind) auto
qed

lemma ensures_kind: "ensures P (schemaObjectKind en name) (\<lambda>k t. P t \<and> has_kind en name k (tx_db t))"
  unfolding schemaObjectKind_def
  by (rule ensures_bind[OF ensures_query[where Q = "\<lambda>k t. P t \<and> has_kind en name (kind_name k) (tx_db t)"]])
    (auto simp: has_kind_def intro!: ensures_return)

lemma ensures_columns: "ensures P (schemaColumns en table) (\<lambda>cs t. P t \<and> (column \<notin> set cs \<longrightarrow> lacks_column en table column (tx_db t)))"
  unfolding schemaColumns_def
  by (rule ensures_bind[OF ensures_query[where Q = "\<lambda>cs t. P t \<and> (column \<notin> set (map strings_ToLower cs) \<longrightarrow> lacks_column en table column (tx_db t))"]])
    (auto simp: lacks_column_def intro!: ensures_return)

lemma ensures_archive_table:
  assumes "schema_engine_ok en ledger" "table \<noteq> ledger_table" "archive \<noteq> ledger_table" "ledger_version l < 1"
  shows "ensures (\<lambda>t. tx_state en ledger l A t \<and> has_kind en table ''BASE TABLE'' (tx_db t) \<and>
      (table \<in> {''scan_metadata'', ''api_action_metadata''} \<longrightarrow> lacks_column en table ''provider'' (tx_db t))) (archive_table en table archive)
    (\<lambda>_. tx_state en ledger l (insert archive A))"
  unfolding archive_table_def
  by (rule ensures_bind[OF ensures_kind], rule ensures_if, rule ensures_fail, rule ensures_wrap, rule ensures_pre[OF ensures_rename[OF assms]])
    (auto simp: archivable_def)

lemma ensures_run:
  "schema_engine_ok en ledger \<Longrightarrow> plain s \<Longrightarrow> ensures (tx_state en ledger l A) (tx_run en s) (\<lambda>_. tx_state en ledger l A)"
  unfolding tx_run_def by (rule run_plain)

lemma ensures_run_each:
  assumes "schema_engine_ok en ledger" "\<And>x. plain (f x)"
  shows "ensures (tx_state en ledger l A) (tx_each (\<lambda>x. tx_run en (f x)) xs) (\<lambda>_. tx_state en ledger l A)"
  by (rule ensures_each) (rule ensures_run[OF assms])

lemma ensures_archiveLegacyTable:
  assumes "schema_engine_ok en ledger" "table \<noteq> ledger_table" "archive \<noteq> ledger_table" "ledger_version l < 1"
  shows "ensures (tx_state en ledger l A) (archiveLegacyTable en table archive ''provider'')
    (\<lambda>b. tx_state en ledger l (if b then insert archive A else A))"
  unfolding archiveLegacyTable_def
proof (rule ensures_bind[OF ensures_kind], rule ensures_if)
  fix kind :: string assume k: "\<not> kind = []"
  show "ensures (\<lambda>t. tx_state en ledger l A t \<and> has_kind en table kind (tx_db t))
     (if kind \<noteq> ''BASE TABLE'' then tx_fail (NotATable table kind)
      else tx_bind (schemaColumns en table) (\<lambda>columns. if ''provider'' \<in> set columns then tx_return False
        else tx_then (archive_table en table archive) (tx_return True)))
     (\<lambda>b. tx_state en ledger l (if b then insert archive A else A))"
    by (rule ensures_if, rule ensures_fail, rule ensures_bind[OF ensures_columns[where column = "''provider''"]], rule ensures_if,
        rule ensures_return, simp, rule ensures_bind, rule ensures_pre[OF ensures_archive_table[OF assms, of A]], force, rule ensures_return, simp)
qed (rule ensures_return, simp)

lemma ensures_archiveLegacyNamedTable:
  assumes "schema_engine_ok en ledger" "table \<noteq> ledger_table" "table @ ''_legacy_v0'' \<noteq> ledger_table" "ledger_version l < 1"
    "table \<notin> {''scan_metadata'', ''api_action_metadata''}"
  shows "ensures (tx_state en ledger l A) (archiveLegacyNamedTable en table)
    (\<lambda>b. tx_state en ledger l (if b then insert (table @ ''_legacy_v0'') A else A))"
  unfolding archiveLegacyNamedTable_def
proof (rule ensures_bind[OF ensures_kind], rule ensures_if)
  fix kind :: string assume k: "\<not> kind = []"
  show "ensures (\<lambda>t. tx_state en ledger l A t \<and> has_kind en table kind (tx_db t))
     (if kind \<noteq> ''BASE TABLE'' then tx_fail (NotATable table kind) else tx_then (archive_table en table (table @ ''_legacy_v0'')) (tx_return True))
     (\<lambda>b. tx_state en ledger l (if b then insert (table @ ''_legacy_v0'') A else A))"
    by (rule ensures_if, rule ensures_fail, rule ensures_bind, rule ensures_pre[OF ensures_archive_table[OF assms(1-4), of A]])
      (use assms(5) in force, rule ensures_return, simp)
qed (rule ensures_return, simp)

lemma ends_differ: "\<not> prefix (rev s) (rev u) \<Longrightarrow> p @ s \<noteq> u"
  by (metis prefixI rev_append)

lemma relationship_names:
  "provider @ ''_relationships'' \<noteq> ledger_table" "relationship_archive provider \<noteq> ledger_table"
  "provider @ ''_relationships'' \<notin> {''scan_metadata'', ''api_action_metadata''}"
  unfolding ledger_table_def relationship_archive_def by (auto intro!: ends_differ[THEN notE] simp del: append.simps)

lemma ensures_archive_relationships:
  assumes "schema_engine_ok en ledger" "ledger_version l < 1"
  shows "ensures (tx_state en ledger l (A \<union> relationship_archive ` set legacy)) (archive_relationships_loop en providers legacy)
    (\<lambda>r. tx_state en ledger l (A \<union> relationship_archive ` set r))"
proof (induction providers arbitrary: legacy)
  case (Cons p ps)
  have step: "ensures (\<lambda>t. tx_state en ledger l (A \<union> relationship_archive ` set legacy) t \<and> has_kind en (p @ ''_relationships'') ''BASE TABLE'' (tx_db t))
      (archive_table en (p @ ''_relationships'') (relationship_archive p))
      (\<lambda>_. tx_state en ledger l (A \<union> relationship_archive ` set (legacy @ [p])))"
    using relationship_names(3)[of p]
    by (intro ensures_post[OF ensures_pre[OF ensures_archive_table[OF assms(1) relationship_names(1,2)[of p] assms(2), of "A \<union> relationship_archive ` set legacy"]]])
      (auto simp: insert_commute)
  show ?case unfolding archive_relationships_loop.simps
    by (rule ensures_bind[OF ensures_kind], rule ensures_if, rule ensures_bind[OF ensures_pre[OF step] Cons.IH], simp, rule ensures_pre[OF Cons.IH], simp)
qed (simp add: ensures_return)

lemma ensures_copy_legacy:
  "schema_engine_ok en ledger \<Longrightarrow> ensures (tx_state en ledger l A) (copy_legacy en legacy archive table)
    (\<lambda>_. tx_state en ledger l (if legacy then A - {archive} else A))"
  unfolding copy_legacy_def tx_run_def by (auto intro!: run_copy ensures_return)

lemma ensures_copy_relationships:
  assumes "schema_engine_ok en ledger"
  shows "ensures (tx_state en ledger l A) (tx_each (\<lambda>p. tx_then (quoteSchemaIdentifier (relationship_archive p))
      (tx_run en (CopyLegacyRelationships (relationship_archive p) p))) ps) (\<lambda>_. tx_state en ledger l (A - relationship_archive ` set ps))"
proof (induction ps arbitrary: A)
  case (Cons p ps)
  have e: "A - {relationship_archive p} - relationship_archive ` set ps = A - relationship_archive ` set (p # ps)" by auto
  show ?case unfolding tx_each.simps tx_run_def
    by (rule ensures_bind, rule ensures_bind[OF ensures_quote], rule run_copy[OF assms], blast)
      (use Cons.IH[of "A - {relationship_archive p}"] in \<open>simp only: e tx_run_def\<close>)
qed (simp add: ensures_return)

lemma ensures_named_copied:
  assumes "schema_engine_ok en ledger" "table \<noteq> ledger_table" "table @ ''_legacy_v0'' \<noteq> ledger_table" "ledger_version l < 1"
    "table \<notin> {''scan_metadata'', ''api_action_metadata''}" "\<And>b. ensures (tx_state en ledger l {}) (m b) Q"
  shows "ensures (tx_state en ledger l {}) (tx_bind (archiveLegacyNamedTable en table)
    (\<lambda>b. tx_then (copy_legacy en b (table @ ''_legacy_v0'') into) (m b))) Q"
  by (rule ensures_bind[OF ensures_archiveLegacyNamedTable[OF assms(1-5)]], rule ensures_bind[OF ensures_copy_legacy[OF assms(1)]],
      rule ensures_pre[OF assms(6)]) (simp split: if_splits)

lemma tx_then_return: "tx_bind m tx_return = m"
  by (rule ext) (auto simp: tx_bind_def tx_return_def split: option.splits sum.splits)

lemma ensures_cross_cloud_rows:
  assumes "schema_engine_ok en ledger" "ledger_version l < 1"
  shows "ensures (tx_state en ledger l {}) (migrateLegacyCrossCloudRows en) (\<lambda>_. tx_state en ledger l {})"
proof -
  note named = ensures_named_copied[OF assms(1) _ _ assms(2)]
  show ?thesis
    unfolding migrateLegacyCrossCloudRows_def
    using named[where table = "''crosscloud_correlations''" and into = "''cross_cloud_correlations''" and m = "\<lambda>_. tx_return ()"]
    by (intro named[where table = "''crosscloud_ip_addresses''", simplified] named[where table = "''crosscloud_dns_records''", simplified])
      (simp_all add: ledger_table_def tx_then_return ensures_return)
qed

lemma ensures_created:
  assumes "schema_engine_ok en ledger"
  shows "ensures (tx_state en ledger l A) (createUnifiedTables en) (\<lambda>_. tx_state en ledger l A)"
    "ensures (tx_state en ledger l A) (createCompatibilityAggregateTables en) (\<lambda>_. tx_state en ledger l A)"
    "ensures (tx_state en ledger l A) (createCustomProviderResources en) (\<lambda>_. tx_state en ledger l A)"
    "ensures (tx_state en ledger l A) (CreateNetworkTopologyExtensions en) (\<lambda>_. tx_state en ledger l A)"
    "ensures (tx_state en ledger l A) (CreateCrossCloudViews en) (\<lambda>_. tx_state en ledger l A)"
    "ensures (tx_state en ledger l A) (CreateSecurityViews en) (\<lambda>_. tx_state en ledger l A)"
    "ensures (tx_state en ledger l A) (CreateNetworkAnalyticsViews en) (\<lambda>_. tx_state en ledger l A)"
    "ensures (tx_state en ledger l A) (ensureProviderGraphColumns en) (\<lambda>_. tx_state en ledger l A)"
proof -
  have column: "ensures (tx_state en ledger l A) (case c of (column, dataType) \<Rightarrow> tx_then (quoteSchemaIdentifier (p @ ''_resources''))
      (tx_then (quoteSchemaIdentifier column) (tx_run en (AddColumn (p @ ''_resources'') column dataType)))) (\<lambda>_. tx_state en ledger l A)" for p c
    by (cases c) (auto intro!: ensures_bind[OF ensures_quote] ensures_run[OF assms])
  show "ensures (tx_state en ledger l A) (ensureProviderGraphColumns en) (\<lambda>_. tx_state en ledger l A)"
    unfolding ensureProviderGraphColumns_def
    by (rule ensures_bind[OF ensures_each ensures_run_each[OF assms]], rule ensures_each, rule column, simp)
qed (simp_all add: createUnifiedTables_def createCrossCloudTables_def createSecurityTables_def createCompatibilityAggregateTables_def
    createCustomProviderResources_def CreateNetworkTopologyExtensions_def CreateCrossCloudViews_def CreateSecurityViews_def
    CreateNetworkAnalyticsViews_def ensures_bind[OF ensures_run_each[OF assms]] ensures_run_each[OF assms] ensures_run[OF assms]
    del: tx_each.simps)

lemma nothing_left: "insert a (insert b R) - {b} - {a} - R = {}" "R - X - R = {}"
  by auto

lemma ensures_migrateSchemaV1:
  assumes "schema_engine_ok en ledger" "ledger_version l < 1"
  shows "ensures (tx_state en ledger l {}) (migrateSchemaV1 en) (\<lambda>_. tx_state en ledger l {})"
proof -
  note created = ensures_created[OF assms(1)]
  have view: "ensures (tx_state en ledger l {}) (tx_each (\<lambda>p. tx_then (quoteSchemaIdentifier (p @ ''_relationships''))
      (tx_run en (CreateRelationshipView (p @ ''_relationships'') p))) ps) (\<lambda>_. tx_state en ledger l {})" for ps
    by (rule ensures_each, rule ensures_bind[OF ensures_quote], rule ensures_run[OF assms(1)]) simp
  show ?thesis unfolding migrateSchemaV1_def
    by (rule ensures_bind[OF ensures_archiveLegacyTable[OF assms(1) _ _ assms(2)]], simp add: ledger_table_def, simp add: ledger_table_def,
        rule ensures_bind[OF ensures_archiveLegacyTable[OF assms(1) _ _ assms(2)]], simp add: ledger_table_def, simp add: ledger_table_def,
        rule ensures_bind[OF ensures_pre[OF ensures_archive_relationships[OF assms]]], simp,
        (rule ensures_bind[OF created(1)] ensures_bind[OF created(2)] ensures_bind[OF created(8)] ensures_bind[OF created(3)]
          ensures_bind[OF created(4)] ensures_bind[OF created(5)] ensures_bind[OF created(6)] ensures_bind[OF created(7)])+,
        rule ensures_bind[OF ensures_copy_legacy[OF assms(1)]], rule ensures_bind[OF ensures_copy_legacy[OF assms(1)]],
        rule ensures_bind[OF ensures_copy_relationships[OF assms(1)]], rule ensures_bind[OF ensures_pre[OF ensures_cross_cloud_rows[OF assms]] view])
      (auto split: if_splits simp: nothing_left)
qed

subsection \<open>The upgrade as a whole\<close>

definition schema_versions :: version_ledger where
  "schema_versions = [(1, ''authoritative_schema_lifecycle''), (2, ''custom_provider_resources''), (3, ''normalized_query_helpers''),
     (4, ''historical_scan_observations''), (5, ''correlation_materialization''), (6, ''durable_findings''), (7, ''observation_resource_times'')]"

text \<open>The statements of the versions after the first.\<close>

definition version_statements :: "schema_stmt list list" where
  "version_statements = [[CreateTable CustomResourceTable, CreateView ''all_cloud_resources'', CreateView ''resource_counts_by_provider''],
     [CreateQueryHelpers], [CreateObservations], [CreateMaterialization], [CreateFindings], [AddObservationTimes]]"

definition upgrade_statements :: "int \<Rightarrow> schema_stmt list" where
  "upgrade_statements v = CreateMigrationTable # concat (map (\<lambda>((n, name), ss). if v < n then ss @ [RecordVersion n name] else [])
     (zip (tl schema_versions) version_statements)) @ [CreateQueryHelpers]"

lemma migrate_bind:
  "tx_bind (migrate_to en n name m v) f =
     (if v < n then tx_then (tx_wrap (MigrateFailed n) m) (tx_then (tx_exec en (RecordFailed n) (RecordVersion n name)) (f n)) else f v)"
  by (auto simp: migrate_to_def tx_bind_def tx_return_def fun_eq_iff split: option.splits sum.splits)

lemma migrate_chain:
  assumes "schema_engine_ok en ledger" "v < n \<Longrightarrow> ensures (tx_state en ledger l A) m (\<lambda>_. tx_state en ledger l A)"
    "ensures (tx_state en ledger (l @ (if v < n then [(n, name)] else [])) A) (f (max v n)) Q"
  shows "ensures (tx_state en ledger l A) (tx_bind (migrate_to en n name m v) f) Q"
  using assms(2,3) unfolding migrate_bind
  by (auto intro!: ensures_bind[OF ensures_wrap] ensures_bind[OF run_record[OF assms(1)]] simp: max_def)

lemma ensures_upgrade_from:
  assumes "schema_engine_ok en ledger" "v = ledger_version l"
  shows "ensures (tx_state en ledger l {}) (upgrade_from en v) (\<lambda>_. tx_state en ledger (l @ filter (\<lambda>(n, _). v < n) schema_versions) {})"
proof -
  note steps = migrate_chain[OF assms(1)]
  note plain = ensures_run[OF assms(1)]
  have v2: "ensures (tx_state en ledger k {}) (migrateSchemaV2 en) (\<lambda>_. tx_state en ledger k {})" for k
    unfolding migrateSchemaV2_def by (rule ensures_bind[OF ensures_created(3)[OF assms(1)] ensures_created(5)[OF assms(1)]])
  have "filter (\<lambda>(n, _). v < n) schema_versions = (if v < 1 then [(1, ''authoritative_schema_lifecycle'')] else []) @
      (if v < 2 then [(2, ''custom_provider_resources'')] else []) @ (if v < 3 then [(3, ''normalized_query_helpers'')] else []) @
      (if v < 4 then [(4, ''historical_scan_observations'')] else []) @ (if v < 5 then [(5, ''correlation_materialization'')] else []) @
      (if v < 6 then [(6, ''durable_findings'')] else []) @ (if v < 7 then [(7, ''observation_resource_times'')] else [])"
    by (simp add: schema_versions_def)
  then show ?thesis unfolding upgrade_from_def
    by (intro steps ensures_migrateSchemaV1[OF assms(1)] v2 ensures_wrap)
      (use assms(2) in \<open>simp_all add: migrateSchemaV3_def migrateSchemaV4_def migrateSchemaV5_def migrateSchemaV6_def migrateSchemaV7_def plain\<close>)
qed

definition wrote :: "schema_stmt list \<Rightarrow> 'c schema_tx \<Rightarrow> bool" where
  "wrote ss t \<longleftrightarrow> map fst (tx_log t) = ss"

lemma wrote_exec: "ensures (wrote ss) (tx_exec en w s) (\<lambda>_. wrote (ss @ [s]))"
  by (rule ensures_exec) (simp add: wrote_def)

lemma wrote_chain:
  assumes "v < n \<Longrightarrow> ensures (wrote ss) m (\<lambda>_. wrote (ss @ new))"
    "ensures (wrote (ss @ (if v < n then new @ [RecordVersion n name] else []))) (f (max v n)) Q"
  shows "ensures (wrote ss) (tx_bind (migrate_to en n name m v) f) Q"
  using assms unfolding migrate_bind by (auto intro!: ensures_bind[OF ensures_wrap] ensures_bind[OF wrote_exec] simp: max_def)

lemma ensures_wrote_upgrade:
  assumes "1 \<le> v"
  shows "ensures (wrote [CreateMigrationTable]) (upgrade_from en v) (\<lambda>_. wrote (upgrade_statements v))"
proof -
  have run: "ensures (wrote ss) (tx_run en s) (\<lambda>_. wrote (ss @ [s]))" for ss s unfolding tx_run_def by (rule wrote_exec)
  have v2: "ensures (wrote ss) (migrateSchemaV2 en) (\<lambda>_. wrote (ss @ [CreateTable CustomResourceTable, CreateView ''all_cloud_resources'',
      CreateView ''resource_counts_by_provider'']))" for ss
    unfolding migrateSchemaV2_def createCustomProviderResources_def CreateCrossCloudViews_def tx_each.simps
    by (rule ensures_bind[OF run], rule ensures_bind[OF run], rule ensures_bind[OF run], rule ensures_return) simp
  have eq: "upgrade_statements v = ((((((([CreateMigrationTable] @ (if v < 1 then [] @ [RecordVersion 1 ''authoritative_schema_lifecycle''] else [])) @
      (if v < 2 then [CreateTable CustomResourceTable, CreateView ''all_cloud_resources'', CreateView ''resource_counts_by_provider''] @
        [RecordVersion 2 ''custom_provider_resources''] else [])) @
      (if v < 3 then [CreateQueryHelpers] @ [RecordVersion 3 ''normalized_query_helpers''] else [])) @
      (if v < 4 then [CreateObservations] @ [RecordVersion 4 ''historical_scan_observations''] else [])) @
      (if v < 5 then [CreateMaterialization] @ [RecordVersion 5 ''correlation_materialization''] else [])) @
      (if v < 6 then [CreateFindings] @ [RecordVersion 6 ''durable_findings''] else [])) @
      (if v < 7 then [AddObservationTimes] @ [RecordVersion 7 ''observation_resource_times''] else [])) @ [CreateQueryHelpers]"
    using assms by (simp add: upgrade_statements_def schema_versions_def version_statements_def)
  show ?thesis unfolding upgrade_from_def migrateSchemaV3_def migrateSchemaV4_def migrateSchemaV5_def migrateSchemaV6_def migrateSchemaV7_def
    by (rule wrote_chain[where new = "[]"], use assms in simp, rule wrote_chain, rule v2, (rule wrote_chain, rule run)+,
        rule ensures_wrap, rule ensures_post[OF run]) (simp add: eq)
qed

lemma ensures_helpers: "ensures (\<lambda>_. True) (upgrade_from en v) (\<lambda>_ t. fst (last (tx_log t)) = CreateQueryHelpers)"
proof -
  have any: "ensures P m (\<lambda>_ _. True)" for P :: "'a schema_tx \<Rightarrow> bool" and m :: "('a, 'e, 'b) tx_step" by (simp add: ensures_def)
  have "ensures (\<lambda>_. True) (tx_wrap HelpersFailed (migrateSchemaV3 en)) (\<lambda>_ t. fst (last (tx_log t)) = CreateQueryHelpers)"
    unfolding migrateSchemaV3_def tx_run_def by (rule ensures_wrap, rule ensures_exec) simp
  then show ?thesis unfolding upgrade_from_def by (intro ensures_bind[OF any])
qed

text \<open>A committed upgrade, without the code's chain of versions.\<close>

definition upgraded :: "'c schema_engine \<Rightarrow> ('c \<Rightarrow> version_ledger option) \<Rightarrow> 'c \<Rightarrow> (schema_stmt \<times> 'c) list \<Rightarrow> 'c \<Rightarrow> bool" where
  "upgraded en ledger before log after \<longleftrightarrow> (let l = ledger_rows (ledger before); v = ledger_version l in
     v \<le> LatestSchemaVersion \<and> ledger after = Some (l @ filter (\<lambda>(n, _). v < n) schema_versions) \<and>
     list_all (rename_safe en ledger) log \<and> unread (map fst log) = {} \<and> fst (last log) = CreateQueryHelpers \<and>
     (1 \<le> v \<longrightarrow> map fst log = upgrade_statements v))"

lemma upgrade_upgraded:
  assumes ok: "schema_engine_ok en ledger" and run: "upgrade en \<lparr>tx_db = db, tx_log = []\<rparr> = Some (Inr u, t)"
  shows "upgraded en ledger db (tx_log t) (tx_db t)"
proof -
  obtain d v where d: "en_exec en CreateMigrationTable db = Inr d" and v: "en_version en d = Inr v" "v \<le> LatestSchemaVersion"
    and chain: "upgrade_from en v \<lparr>tx_db = d, tx_log = [(CreateMigrationTable, db)]\<rparr> = Some (Inr u, t)" (is "upgrade_from en v ?s = _")
    using run by (auto simp: upgrade_def tx_bind_def tx_exec_def tx_query_def tx_fail_def split: sum.splits if_splits)
  have l: "ledger d = Some (ledger_rows (ledger db))" by (rule engine_creates[OF ok d])
  have vl: "v = ledger_version (ledger_rows (ledger db))" by (rule engine_version[OF ok l v(1)])
  have "tx_state en ledger (ledger_rows (ledger db)) {} ?s" using l by (simp add: tx_state_def rename_safe_def unread_def)
  then have "tx_state en ledger (ledger_rows (ledger db) @ filter (\<lambda>(n, _). v < n) schema_versions) {} t"
    using ensures_upgrade_from[OF ok vl] chain unfolding ensures_def by blast
  moreover have "fst (last (tx_log t)) = CreateQueryHelpers" using ensures_helpers[of en v] chain unfolding ensures_def by blast
  moreover have "map fst (tx_log t) = upgrade_statements v" if "1 \<le> v"
    using ensures_wrote_upgrade[OF that, of en, unfolded ensures_def wrote_def, rule_format, OF _ chain] by simp
  ultimately show ?thesis using v(2) vl by (simp add: upgraded_def tx_state_def Let_def)
qed

text \<open>An index of a legacy table whose name is not a plain identifier, as in \<open>CREATE INDEX "idx-service"\<close>, stops the upgrade
  with a panic: the name comes from the database, not from the catalog of providers.\<close>

lemma unsafe_index_panics:
  assumes "en_begin en = None" "en_exec en CreateMigrationTable before = Inr d" "en_version en d = Inr v" "v < 1"
    "en_kind en ''scan_metadata'' d = Inr (Some ''BASE TABLE'')" "en_columns en ''scan_metadata'' d = Inr cs" "''provider'' \<notin> strings_ToLower ` set cs"
    "en_kind en ''scan_metadata_legacy_v0'' d = Inr None" "en_indexes en ''scan_metadata'' d = Inr (index # is)" "\<not> tableNamePattern index"
  shows "EnsureSchema en (Some before) = (SchemaPanicked, Some before)"
proof -
  have kind: "kind_name (Some ''BASE TABLE'') = ''BASE TABLE''" "kind_name None = []"
    by (simp_all add: kind_name_def strings_ToUpper_def upper_char_def)
  have "archive_table en ''scan_metadata'' ''scan_metadata_legacy_v0'' \<lparr>tx_db = d, tx_log = log\<rparr> = None" for log
    using assms(8-10) by (simp add: archive_table_def renameLegacyTable_def legacyTableIndexes_def schemaObjectKind_def quoteSchemaIdentifier_def
        tx_bind_def tx_query_def tx_return_def tx_wrap_def tx_assert_def kind)
  then have "migrateSchemaV1 en \<lparr>tx_db = d, tx_log = log\<rparr> = None" for log
    using assms(5-7) by (simp add: migrateSchemaV1_def archiveLegacyTable_def schemaObjectKind_def schemaColumns_def
        tx_bind_def tx_query_def tx_return_def kind)
  then have "upgrade_from en v \<lparr>tx_db = d, tx_log = log\<rparr> = None" for log
    using assms(4) unfolding upgrade_from_def migrate_bind by (simp add: tx_bind_def tx_wrap_def)
  then show ?thesis using assms(1-4) by (simp add: EnsureSchema_def upgrade_def tx_bind_def tx_exec_def tx_query_def LatestSchemaVersion_def)
qed

text \<open>C25. Upgrading a database is all or nothing. Whatever fails, a statement, the commit or an assertion, the database is as it was. A committed
  upgrade started from a version that is understood, recorded exactly the versions above it in order, and ends with the query helpers;
  from version 1 on its statements are exactly those of the missing versions. A table is renamed only in a database without a version,
  only if it is a base table of the old shape, to a name nothing has, and every renamed table is copied before the end.\<close>

theorem EnsureSchema_exact:
  assumes "schema_engine_ok en ledger"
  shows "case EnsureSchema en (Some before) of
      (SchemaReady log, Some after) \<Rightarrow> upgraded en ledger before log after
    | (_, after) \<Rightarrow> after = Some before"
  using upgrade_upgraded[OF assms]
  by (auto simp: EnsureSchema_def split: option.splits sum.splits prod.splits schema_outcome.splits)

subsection \<open>An instance\<close>

text \<open>Tables with their kind, columns and indexes. As in DuckDB a table with indexes can't be renamed.\<close>

record demo_catalog =
  dc_objects :: "(string \<times> string \<times> string list \<times> string list) list"
  dc_ledger :: "version_ledger option"

fun demo_exec :: "schema_stmt \<Rightarrow> demo_catalog \<Rightarrow> string + demo_catalog" where
  "demo_exec CreateMigrationTable d = Inr (d\<lparr>dc_ledger := Some (ledger_rows (dc_ledger d))\<rparr>)"
| "demo_exec (RecordVersion n name) d = (case dc_ledger d of
     None \<Rightarrow> Inl ''no such table''
   | Some l \<Rightarrow> if n \<in> fst ` set l then Inl ''duplicate key'' else Inr (d\<lparr>dc_ledger := Some (l @ [(n, name)])\<rparr>))"
| "demo_exec (DropIndex i) d = Inr (d\<lparr>dc_objects := map (\<lambda>(n, k, cs, is). (n, k, cs, filter (\<lambda>j. j \<noteq> i) is)) (dc_objects d)\<rparr>)"
| "demo_exec (RenameTable table archive) d = (case map_of (dc_objects d) table of
     None \<Rightarrow> Inl ''no such table''
   | Some (k, cs, is) \<Rightarrow> if is \<noteq> [] then Inl ''dependent objects''
       else Inr (d\<lparr>dc_objects := map (\<lambda>(n, x). (if n = table then archive else n, x)) (dc_objects d)\<rparr>))"
| "demo_exec s d = Inr d"

definition demo_engine :: "demo_catalog schema_engine" where
  "demo_engine = \<lparr>en_begin = None, en_exec = demo_exec, en_has_ledger = (\<lambda>d. Inr (dc_ledger d \<noteq> None)),
     en_version = (\<lambda>d. case dc_ledger d of None \<Rightarrow> Inl ''no such table'' | Some l \<Rightarrow> Inr (ledger_version l)),
     en_kind = (\<lambda>n d. Inr (map_option fst (map_of (dc_objects d) n))),
     en_columns = (\<lambda>n d. Inr (case map_of (dc_objects d) n of None \<Rightarrow> [] | Some (k, cs, is) \<Rightarrow> cs)),
     en_indexes = (\<lambda>n d. Inr (case map_of (dc_objects d) n of None \<Rightarrow> [] | Some (k, cs, is) \<Rightarrow> is)),
     en_commit = (\<lambda>d. None)\<rparr>"

lemma demo_drop:
  "map_of (map (\<lambda>(n, k, cs, is). (n, k, cs, filter (\<lambda>j. j \<noteq> i) is)) os) n = map_option (\<lambda>(k, cs, is). (k, cs, filter (\<lambda>j. j \<noteq> i) is)) (map_of os n)"
  by (induction os) auto

lemma demo_engine_ok: "schema_engine_ok demo_engine dc_ledger"
proof -
  have keeps: "dc_ledger d' = dc_ledger d" if "demo_exec s d = Inr d'" "\<not> touches_ledger s" for s d d'
    using that by (cases s) (auto split: option.splits if_splits)
  show ?thesis using keeps unfolding schema_engine_ok_def demo_engine_def
    by (auto simp: demo_drop map_option.compositionality comp_def case_prod_beta split: option.splits if_splits)
qed

text \<open>A database from before the ledger: a scan table of the old shape with an index, and one provider's relationships.\<close>

definition demo_old :: "string \<Rightarrow> demo_catalog" where
  "demo_old index = \<lparr>dc_objects = [(''scan_metadata'', ''BASE TABLE'', [''id'', ''Service''], [index]), (''aws_relationships'', ''base table'', [], [])],
     dc_ledger = None\<rparr>"

text \<open>What a step leads to, whatever was logged before it.\<close>

definition reaches :: "('c, 'e, 'a) tx_step \<Rightarrow> 'c \<Rightarrow> 'a \<Rightarrow> 'c \<Rightarrow> bool" where
  "reaches m d a d' \<longleftrightarrow> (\<forall>log. \<exists>log'. m \<lparr>tx_db = d, tx_log = log\<rparr> = Some (Inr a, \<lparr>tx_db = d', tx_log = log'\<rparr>))"

lemma reaches_return: "reaches (tx_return a) d a d"
  by (simp add: reaches_def tx_return_def)

lemma reaches_bind: "reaches m d a d' \<Longrightarrow> reaches (f a) d' b d'' \<Longrightarrow> reaches (tx_bind m f) d b d''"
  unfolding reaches_def tx_bind_def by (metis (no_types, lifting) option.simps(5) old.prod.case old.sum.simps(6))

lemma reaches_wrap:
  assumes "reaches m d a d'"
  shows "reaches (tx_wrap w m) d a d'"
  unfolding reaches_def tx_wrap_def
proof
  fix log
  obtain log' where "m \<lparr>tx_db = d, tx_log = log\<rparr> = Some (Inr a, \<lparr>tx_db = d', tx_log = log'\<rparr>)" using assms unfolding reaches_def by blast
  then show "\<exists>log'. (case m \<lparr>tx_db = d, tx_log = log\<rparr> of None \<Rightarrow> None | Some (Inl e, u) \<Rightarrow> Some (Inl (w e), u) | Some (Inr a, u) \<Rightarrow> Some (Inr a, u)) =
      Some (Inr a, \<lparr>tx_db = d', tx_log = log'\<rparr>)" by simp
qed

lemma reaches_quote: "tableNamePattern name \<Longrightarrow> reaches (quoteSchemaIdentifier name) d () d"
  by (simp add: reaches_def quoteSchemaIdentifier_def tx_assert_def)

lemma reaches_exec: "en_exec en s d = Inr d' \<Longrightarrow> reaches (tx_exec en w s) d () d'"
  by (simp add: reaches_def tx_exec_def)

lemma reaches_run: "en_exec en s d = Inr d' \<Longrightarrow> reaches (tx_run en s) d () d'"
  unfolding tx_run_def by (rule reaches_exec)

lemma reaches_query: "q d = Inr a \<Longrightarrow> reaches (tx_query w q) d a d"
  by (simp add: reaches_def tx_query_def)

lemma reaches_each: "(\<And>x. x \<in> set xs \<Longrightarrow> reaches (f x) d () d) \<Longrightarrow> reaches (tx_each f xs) d () d"
  by (induction xs) (auto intro: reaches_return reaches_bind)

lemma reaches_kind: "en_kind en name d = Inr k \<Longrightarrow> reaches (schemaObjectKind en name) d (kind_name k) d"
  unfolding schemaObjectKind_def by (rule reaches_bind[OF reaches_query reaches_return])

lemma demo_objects [simp]:
  "en_kind demo_engine n d = Inr (map_option fst (map_of (dc_objects d) n))"
  "en_columns demo_engine n d = Inr (case map_of (dc_objects d) n of None \<Rightarrow> [] | Some (k, cs, is) \<Rightarrow> cs)"
  "en_indexes demo_engine n d = Inr (case map_of (dc_objects d) n of None \<Rightarrow> [] | Some (k, cs, is) \<Rightarrow> is)"
  "en_exec demo_engine = demo_exec"
  by (simp_all add: demo_engine_def)

lemma demo_quotes:
  "p \<in> set Provider_Names \<Longrightarrow> tableNamePattern (p @ ''_resources'') \<and> tableNamePattern (p @ ''_relationships'') \<and> tableNamePattern (relationship_archive p)"
  "(c, y) \<in> set graph_columns \<Longrightarrow> tableNamePattern c"
proof -
  have "list_all (\<lambda>p. tableNamePattern (p @ ''_resources'') \<and> tableNamePattern (p @ ''_relationships'') \<and> tableNamePattern (relationship_archive p)) Provider_Names"
    "list_all (\<lambda>(c, y). tableNamePattern c) graph_columns" by code_simp+
  then show "p \<in> set Provider_Names \<Longrightarrow> tableNamePattern (p @ ''_resources'') \<and> tableNamePattern (p @ ''_relationships'') \<and> tableNamePattern (relationship_archive p)"
    "(c, y) \<in> set graph_columns \<Longrightarrow> tableNamePattern c" by (auto simp: list_all_iff)
qed

lemma demo_created:
  "reaches (createUnifiedTables demo_engine) d () d" "reaches (createCompatibilityAggregateTables demo_engine) d () d"
  "reaches (createCustomProviderResources demo_engine) d () d" "reaches (CreateNetworkTopologyExtensions demo_engine) d () d"
  "reaches (CreateCrossCloudViews demo_engine) d () d" "reaches (CreateSecurityViews demo_engine) d () d"
  "reaches (CreateNetworkAnalyticsViews demo_engine) d () d" "reaches (ensureProviderGraphColumns demo_engine) d () d"
proof -
  have each: "reaches (tx_each (\<lambda>x. tx_run demo_engine (f x)) xs) d () d" if "\<And>x. demo_exec (f x) d = Inr d" for f xs
    by (rule reaches_each, rule reaches_run) (simp add: that)
  show "reaches (ensureProviderGraphColumns demo_engine) d () d" unfolding ensureProviderGraphColumns_def
    by (rule reaches_bind[OF reaches_each each], rule reaches_each)
      (auto intro!: reaches_bind[OF reaches_quote] reaches_run dest: demo_quotes)
qed (auto simp: createUnifiedTables_def createCrossCloudTables_def createSecurityTables_def createCompatibilityAggregateTables_def
    createCustomProviderResources_def CreateNetworkTopologyExtensions_def CreateCrossCloudViews_def CreateSecurityViews_def
    CreateNetworkAnalyticsViews_def intro!: reaches_bind[where d' = d] reaches_each reaches_run simp del: tx_each.simps)

definition demo_archived :: "demo_catalog" where
  "demo_archived = \<lparr>dc_objects = [(''scan_metadata_legacy_v0'', ''BASE TABLE'', [''id'', ''Service''], []), (''aws_relationships'', ''base table'', [], [])],
     dc_ledger = Some []\<rparr>"

definition demo_new :: "version_ledger \<Rightarrow> demo_catalog" where
  "demo_new l = \<lparr>dc_objects = [(''scan_metadata_legacy_v0'', ''BASE TABLE'', [''id'', ''Service''], []), (''aws_relationships_legacy_v0'', ''base table'', [], [])],
     dc_ledger = Some l\<rparr>"

lemma demo_scan_archived:
  "reaches (archiveLegacyTable demo_engine ''scan_metadata'' ''scan_metadata_legacy_v0'' ''provider'')
     ((demo_old ''idx_service'')\<lparr>dc_ledger := Some []\<rparr>) True demo_archived"
  "reaches (archiveLegacyTable demo_engine ''api_action_metadata'' ''api_action_metadata_legacy_v0'' ''provider'') demo_archived False demo_archived"
  "reaches (archive_relationships_loop demo_engine Provider_Names []) demo_archived [''aws''] (demo_new [])"
  unfolding reaches_def by (intro allI exI; code_simp)+
lemma demo_V1: "reaches (migrateSchemaV1 demo_engine) ((demo_old ''idx_service'')\<lparr>dc_ledger := Some []\<rparr>) () (demo_new [])"
proof -
  have views: "reaches (tx_each (\<lambda>p. tx_then (quoteSchemaIdentifier (p @ ''_relationships'')) (tx_run demo_engine (CreateRelationshipView (p @ ''_relationships'') p)))
      Provider_Names) d () d" for d
    by (rule reaches_each, rule reaches_bind[OF reaches_quote reaches_run]) (auto dest: demo_quotes)
  have copies: "reaches (tx_each (\<lambda>p. tx_then (quoteSchemaIdentifier (relationship_archive p))
      (tx_run demo_engine (CopyLegacyRelationships (relationship_archive p) p))) [''aws'']) d () d" for d
    by (rule reaches_each, rule reaches_bind[OF reaches_quote reaches_run]) (auto intro!: demo_quotes(1)[THEN conjunct2, THEN conjunct2] simp: Provider_Names_def shipped_def)
  have copy: "reaches (copy_legacy demo_engine b a x) d () d" for b a x d
    unfolding copy_legacy_def by (auto intro!: reaches_run reaches_return)
  have named: "reaches (archiveLegacyNamedTable demo_engine x) (demo_new []) False (demo_new [])"
    if "x \<notin> {''scan_metadata_legacy_v0'', ''aws_relationships_legacy_v0''}" for x
    unfolding archiveLegacyNamedTable_def
    by (rule reaches_bind[OF reaches_kind]) (use that in \<open>auto simp: demo_new_def kind_name_def intro!: reaches_return\<close>)
  have rows: "reaches (migrateLegacyCrossCloudRows demo_engine) (demo_new []) () (demo_new [])"
    unfolding migrateLegacyCrossCloudRows_def by (intro reaches_bind[OF named] reaches_bind[OF copy] copy) simp_all
  show ?thesis unfolding migrateSchemaV1_def
    by (rule reaches_bind[OF demo_scan_archived(1)], rule reaches_bind[OF demo_scan_archived(2)], rule reaches_bind[OF demo_scan_archived(3)])
      (intro reaches_bind[OF demo_created(1)] reaches_bind[OF demo_created(2)] reaches_bind[OF demo_created(3)] reaches_bind[OF demo_created(4)]
        reaches_bind[OF demo_created(5)] reaches_bind[OF demo_created(6)] reaches_bind[OF demo_created(7)] reaches_bind[OF demo_created(8)]
        reaches_bind[OF copy] reaches_bind[OF copies] reaches_bind[OF rows] views)
qed

lemma reaches_migrate:
  assumes "v < n" "reaches m d () d1" "en_exec en (RecordVersion n name) d1 = Inr d2" "reaches (f n) d2 b d3"
  shows "reaches (tx_bind (migrate_to en n name m v) f) d b d3"
  unfolding migrate_bind using assms(1) by (simp add: reaches_bind[OF reaches_wrap[OF assms(2)] reaches_bind[OF reaches_exec[where w = "RecordFailed n", OF assms(3)] assms(4)]])

lemma demo_records: "n \<notin> fst ` set l \<Longrightarrow> en_exec demo_engine (RecordVersion n name) (demo_new l) = Inr (demo_new (l @ [(n, name)]))"
  by (simp add: demo_new_def)

lemma demo_upgrade: "reaches (upgrade demo_engine) (demo_old ''idx_service'') () (demo_new schema_versions)"
proof -
  have run: "reaches (tx_run demo_engine s) d () d" if "demo_exec s d = Inr d" for s d using that by (simp add: reaches_run)
  have v2: "reaches (migrateSchemaV2 demo_engine) d () d" for d
    unfolding migrateSchemaV2_def by (rule reaches_bind[OF demo_created(3) demo_created(5)])
  have chain: "reaches (upgrade_from demo_engine 0) ((demo_old ''idx_service'')\<lparr>dc_ledger := Some []\<rparr>) () (demo_new schema_versions)"
    unfolding upgrade_from_def schema_versions_def migrateSchemaV3_def migrateSchemaV4_def migrateSchemaV5_def migrateSchemaV6_def migrateSchemaV7_def
    by (rule reaches_migrate[OF _ demo_V1 demo_records], simp, simp, rule reaches_migrate[OF _ v2 demo_records], simp, simp,
        (rule reaches_migrate[OF _ run demo_records], simp, simp, simp)+, rule reaches_wrap, simp, rule run, simp)
  have read: "reaches (tx_query ReadVersionFailed (en_version demo_engine)) (d\<lparr>dc_ledger := Some []\<rparr>) 0 (d\<lparr>dc_ledger := Some []\<rparr>)" for d
    by (rule reaches_query) (simp add: demo_engine_def ledger_version_def)
  have create: "en_exec demo_engine CreateMigrationTable (demo_old i) = Inr ((demo_old i)\<lparr>dc_ledger := Some []\<rparr>)" for i
    by (simp add: demo_old_def ledger_rows_def)
  show ?thesis unfolding upgrade_def
    by (rule reaches_bind[OF reaches_exec[OF create]], rule reaches_bind[OF read]) (simp add: LatestSchemaVersion_def chain)
qed

theorem EnsureSchema_exact_witness:
  "\<exists>log. EnsureSchema demo_engine (Some (demo_old ''idx_service'')) = (SchemaReady log, Some (demo_new schema_versions)) \<and>
     upgraded demo_engine dc_ledger (demo_old ''idx_service'') log (demo_new schema_versions)"
proof -
  obtain log where "EnsureSchema demo_engine (Some (demo_old ''idx_service'')) = (SchemaReady log, Some (demo_new schema_versions))"
    using demo_upgrade[unfolded reaches_def, rule_format, of "[]"] by (auto simp: EnsureSchema_def demo_engine_def)
  then show ?thesis using EnsureSchema_exact[OF demo_engine_ok, of "demo_old ''idx_service''"] by simp
qed

end
