(* ===== verification/Org_Scan.thy ===== *)
theory Org_Scan imports Proto Paging Scan_Errors "HOL-Library.Multiset" begin

text \<open>
  plugins/aws-provider/orgscan/orgscan.go: one scan fanned out across the accounts of an organization. The
  accounts are listed through a page guard, every account has its own scanner (cached while the account is
  listed), a bounded number of accounts are scanned at a time, and the results are joined. The Organizations
  API, the building of a scanner and its answers are parameters. The workers are a step relation, since their
  order is the scheduler's; the operations on the cache run under the mutex and are one step each.
\<close>

subsection \<open>Errors\<close>

text \<open>Go errors as far as \<open>errors.Join\<close> nests them; a joined error may hold nil.\<close>

datatype 'e err_tree = Leaf 'e | Joined "'e err_tree option list"

primrec present :: "'a option list \<Rightarrow> 'a list" where
  "present [] = []"
| "present (c # cs) = (case c of None \<Rightarrow> present cs | Some x \<Rightarrow> x # present cs)"

lemma present_size: "sum_list (map size (present cs)) \<le> size_list (size_option size) cs"
  by (induction cs) (auto split: option.splits)

lemma present_member: "e \<in> set (present cs) \<Longrightarrow> size e < Suc (size_list (size_option size) cs)"
  using present_size[of cs] member_le_sum_list[of "size e" "map size (present cs)"] by auto

function flatten_loop :: "'e err_tree list \<Rightarrow> 'e list \<Rightarrow> 'e list" where
  "flatten_loop [] leaves = leaves"
| "flatten_loop (Leaf e # stack) leaves = flatten_loop stack (leaves @ [e])"
| "flatten_loop (Joined children # stack) leaves = flatten_loop (present children @ stack) leaves"
  by pat_completeness auto
termination
  by (relation "measures [\<lambda>(s, _). sum_list (map size s), \<lambda>(s, _). length s]") (auto simp: le_imp_less_Suc present_size)

definition FlattenErrors :: "'e err_tree option \<Rightarrow> 'e list" where
  "FlattenErrors err = (case err of None \<Rightarrow> [] | Some e \<Rightarrow> flatten_loop [e] [])"

text \<open>The leaves in order, without the stack.\<close>

function err_leaves :: "'e err_tree \<Rightarrow> 'e list" where
  "err_leaves (Leaf e) = [e]"
| "err_leaves (Joined children) = concat (map err_leaves (present children))"
  by pat_completeness auto
termination
  by (relation "measure size") (auto dest: present_member)

lemma flatten_loop_leaves: "flatten_loop stack acc = acc @ concat (map err_leaves stack)"
  by (induction stack acc rule: flatten_loop.induct) auto

lemma FlattenErrors_leaves: "FlattenErrors err = (case err of None \<Rightarrow> [] | Some e \<Rightarrow> err_leaves e)"
  by (simp add: FlattenErrors_def flatten_loop_leaves split: option.splits)

subsection \<open>Options\<close>

record Config =
  oc_RoleName :: string
  oc_ExternalID :: string
  oc_IncludeAccounts :: "string list"
  oc_ExcludeAccounts :: "string list"
  oc_MaxConcurrentAccounts :: int
  oc_SessionName :: string

definition DefaultConfig :: Config where
  "DefaultConfig = \<lparr>oc_RoleName = ''CorkscrewScanRole'', oc_ExternalID = [], oc_IncludeAccounts = [], oc_ExcludeAccounts = [],
     oc_MaxConcurrentAccounts = 5, oc_SessionName = ''corkscrew-org-scan''\<rparr>"

definition org_New :: "Config \<Rightarrow> Config" where
  "org_New opts = opts\<lparr>oc_RoleName := (if oc_RoleName opts = [] then ''CorkscrewScanRole'' else oc_RoleName opts),
     oc_MaxConcurrentAccounts := (if oc_MaxConcurrentAccounts opts \<le> 0 then 5 else oc_MaxConcurrentAccounts opts),
     oc_SessionName := (if oc_SessionName opts = [] then ''corkscrew-org-scan'' else oc_SessionName opts)\<rparr>"

definition envBool :: "string \<Rightarrow> bool" where
  "envBool s \<longleftrightarrow> (let v = strings_ToLower (strings_TrimSpace s) in v = ''1'' \<or> v = ''true'' \<or> v = ''yes'')"

definition splitCSV :: "string \<Rightarrow> string list" where
  "splitCSV s = filter (\<lambda>p. p \<noteq> []) (map strings_TrimSpace (strings_Split s CHR '',''))"

text \<open>\<open>buildScanner\<close>: the options of an organization scan, or none for a scan of one account. \<open>atoi\<close> is
  \<open>strconv.Atoi\<close>.\<close>

definition org_options :: "(string \<Rightarrow> string) \<Rightarrow> (string \<Rightarrow> int option) \<Rightarrow> Config option" where
  "org_options getenv atoi =
     (if \<not> envBool (getenv ''CORKSCREW_AWS_ORG_SCAN'') then None
      else let opts = DefaultConfig;
         role = getenv ''CORKSCREW_AWS_ORG_ROLE''; opts = (if role \<noteq> [] then opts\<lparr>oc_RoleName := role\<rparr> else opts);
         ext = getenv ''CORKSCREW_AWS_ORG_EXTERNAL_ID''; opts = (if ext \<noteq> [] then opts\<lparr>oc_ExternalID := ext\<rparr> else opts);
         inc = getenv ''CORKSCREW_AWS_ORG_INCLUDE_ACCOUNTS''; opts = (if inc \<noteq> [] then opts\<lparr>oc_IncludeAccounts := splitCSV inc\<rparr> else opts);
         exc = getenv ''CORKSCREW_AWS_ORG_EXCLUDE_ACCOUNTS''; opts = (if exc \<noteq> [] then opts\<lparr>oc_ExcludeAccounts := splitCSV exc\<rparr> else opts);
         con = getenv ''CORKSCREW_AWS_ORG_MAX_CONCURRENCY'';
         opts = (if con \<noteq> [] then (case atoi con of Some n \<Rightarrow> if n > 0 then opts\<lparr>oc_MaxConcurrentAccounts := n\<rparr> else opts | None \<Rightarrow> opts) else opts)
       in Some (org_New opts))"

definition string_set :: "string list \<Rightarrow> string list" where
  "string_set items = filter (\<lambda>s. s \<noteq> []) (map strings_TrimSpace items)"

subsection \<open>Listing the accounts\<close>

record org_account =
  oa_Id :: "string option"
  oa_Status :: string

datatype org_error =
    ListAccountsFailed string
  | AccountWithoutID
  | PageGuardFailed page_error
  | NoAccountsMatched

datatype scan_leaf =
    AccessDenied string string
  | ScanFailure string
  | AssumeRole string

type_synonym account_answer = "pb_ResourceRef list \<times> scan_leaf err_tree option \<times> (string \<times> string) list"

record 's org_env =
  oe_config :: Config
  oe_list :: "nat \<Rightarrow> string \<Rightarrow> string + (org_account list \<times> string option)"
  oe_scanner :: "string \<Rightarrow> string + 's option"
  oe_scan :: "'s \<Rightarrow> string \<Rightarrow> account_answer"
  oe_done :: bool

text \<open>What is kept between calls: \<open>accountsListed\<close> as a list without duplicates, \<open>scanners\<close> with its keys.\<close>

record 's org_state =
  os_unsupported :: "string \<rightharpoonup> string"
  os_listed :: "string list"
  os_scanners :: "(string \<times> 's) list"

fun select_accounts :: "string list \<Rightarrow> string list \<Rightarrow> org_account list \<Rightarrow> org_error + string list" where
  "select_accounts include exclude [] = Inr []"
| "select_accounts include exclude (a # as) =
     (if oa_Status a \<noteq> ''ACTIVE'' then select_accounts include exclude as
      else let i = (case oa_Id a of None \<Rightarrow> [] | Some i \<Rightarrow> i) in
        if i = [] then Inl AccountWithoutID
        else if include \<noteq> [] \<and> i \<notin> set include then select_accounts include exclude as
        else if i \<in> set exclude then select_accounts include exclude as
        else (case select_accounts include exclude as of Inl e \<Rightarrow> Inl e | Inr is \<Rightarrow> Inr (i # is)))"

definition next_cursor :: "string option \<Rightarrow> string option" where
  "next_cursor nextToken = (if nextToken = Some [] then None else nextToken)"

definition org_fetch :: "'s org_env \<Rightarrow> nat \<Rightarrow> string \<Rightarrow> (string, org_error) page_reply" where
  "org_fetch env n cursor = (case oe_list env n cursor of
     Inl err \<Rightarrow> \<lparr>reply_items = [], reply_err = Some (ListAccountsFailed err), reply_next = None\<rparr>
   | Inr (accounts, nextToken) \<Rightarrow>
       (case select_accounts (string_set (oc_IncludeAccounts (oe_config env))) (string_set (oc_ExcludeAccounts (oe_config env))) accounts of
          Inl e \<Rightarrow> \<lparr>reply_items = [], reply_err = Some e, reply_next = None\<rparr>
        | Inr is \<Rightarrow> \<lparr>reply_items = is, reply_err = None, reply_next = next_cursor nextToken\<rparr>))"

definition retainAccounts :: "string list \<Rightarrow> 's org_state \<Rightarrow> 's org_state panics" where
  "retainAccounts accounts st = do {
     assert_That (accounts \<noteq> []);
     let listed = remdups accounts;
     let st = st\<lparr>os_listed := listed, os_scanners := filter (\<lambda>(i, _). i \<in> set listed) (os_scanners st)\<rparr>;
     assert_That (length (os_scanners st) \<le> length (os_listed st));
     Some st
   }"

definition targetAccounts :: "'s org_env \<Rightarrow> 's org_state \<Rightarrow> ((org_error + string list) \<times> 's org_state) panics" where
  "targetAccounts env st = do {
     guard \<leftarrow> paging_New ''organizations.ListAccounts'' PagesMax;
     (is, err, _) \<leftarrow> page_loop Guard_Next (org_fetch env) guard 0 [] [];
     (case err of
        Some (CallError e) \<Rightarrow> Some (Inl e, st)
      | Some (GuardError e) \<Rightarrow> Some (Inl (PageGuardFailed e), st)
      | None \<Rightarrow>
          if is = [] then Some (Inl NoAccountsMatched, st)
          else do { st \<leftarrow> retainAccounts is st; Some (Inr is, st) })
   }"

subsection \<open>The scanners of the accounts\<close>

definition accountScanner :: "'s org_env \<Rightarrow> string \<Rightarrow> 's org_state \<Rightarrow> ((string + 's) \<times> 's org_state) panics" where
  "accountScanner env acctID st = do {
     assert_That (acctID \<noteq> []);
     (case map_of (os_scanners st) acctID of
        Some sc \<Rightarrow> Some (Inr sc, st)
      | None \<Rightarrow> (case oe_scanner env acctID of
          Inl err \<Rightarrow> Some (Inl err, st)
        | Inr sc \<Rightarrow> do {
            assert_That (sc \<noteq> None);
            let st = (if acctID \<in> set (os_listed st) then st\<lparr>os_scanners := os_scanners st @ [(acctID, the sc)]\<rparr> else st);
            assert_That (length (os_scanners st) \<le> length (os_listed st));
            Some (Inr (the sc), st)
          }))
   }"

definition mergeUnsupported :: "(string \<times> string) list \<Rightarrow> 's org_state \<Rightarrow> 's org_state" where
  "mergeUnsupported other st = st\<lparr>os_unsupported := foldl (\<lambda>m (k, v). m(k \<mapsto> v)) (os_unsupported st) other\<rparr>"

text \<open>\<open>DescribeResource\<close>; the scanner's own call is a parameter that gives a resource and what it found unsupported.\<close>

datatype describe_error = MissingAccountId | AssumeAccount string string | DescribeFailed string

definition OrgScanner_DescribeResource ::
  "'s org_env \<Rightarrow> ('s \<Rightarrow> pb_ResourceRef \<Rightarrow> string + (pb_Resource \<times> (string \<times> string) list)) \<Rightarrow> pb_ResourceRef \<Rightarrow> 's org_state \<Rightarrow>
     ((describe_error + pb_Resource) \<times> 's org_state) panics" where
  "OrgScanner_DescribeResource env describe ref st =
     (if ref_AccountId ref = [] then Some (Inl MissingAccountId, st)
      else do {
        (res, st) \<leftarrow> accountScanner env (ref_AccountId ref) st;
        (case res of
           Inl err \<Rightarrow> Some (Inl (AssumeAccount (ref_AccountId ref) err), st)
         | Inr sc \<Rightarrow> (case describe sc ref of
             Inl err \<Rightarrow> Some (Inl (DescribeFailed err), st)
           | Inr (r, unsupported) \<Rightarrow> Some (Inr r, mergeUnsupported unsupported st)))
      })"

subsection \<open>The fan-out\<close>

record account_result =
  ar_acctID :: string
  ar_refs :: "pb_ResourceRef list"
  ar_err :: "scan_leaf err_tree option"

definition stamp_account :: "string \<Rightarrow> pb_ResourceRef \<Rightarrow> pb_ResourceRef" where
  "stamp_account acctID r = r\<lparr>ref_AccountId := acctID\<rparr>"

text \<open>A worker has started, or holds its account's scanner.\<close>

datatype 's org_worker = Started | Holding 's

record 's fan =
  fan_queue :: "string list"
  fan_running :: "(string \<times> 's org_worker) list"
  fan_results :: "account_result list"
  fan_cancelled :: bool
  fan_org :: "'s org_state"

definition fan_start :: "string list \<Rightarrow> 's org_state \<Rightarrow> 's fan" where
  "fan_start accounts st = \<lparr>fan_queue = accounts, fan_running = [], fan_results = [], fan_cancelled = False, fan_org = st\<rparr>"

inductive fan_step :: "'s org_env \<Rightarrow> string \<Rightarrow> 's fan \<Rightarrow> 's fan \<Rightarrow> bool"
  for env service where
  dispatch: "fan_queue w = a # q \<Longrightarrow> int (length (fan_running w)) < oc_MaxConcurrentAccounts (oe_config env) \<Longrightarrow>
     fan_step env service w (w\<lparr>fan_queue := q, fan_running := fan_running w @ [(a, Started)]\<rparr>)"
| cancel: "fan_queue w \<noteq> [] \<Longrightarrow> oe_done env \<Longrightarrow> fan_step env service w (w\<lparr>fan_queue := [], fan_cancelled := True\<rparr>)"
| refused: "fan_running w = ws @ (a, Started) # vs \<Longrightarrow> accountScanner env a (fan_org w) = Some (Inl err, st) \<Longrightarrow>
     fan_step env service w (w\<lparr>fan_running := ws @ vs, fan_org := st,
       fan_results := fan_results w @ [\<lparr>ar_acctID = a, ar_refs = [], ar_err = Some (Leaf (AssumeRole err))\<rparr>]\<rparr>)"
| holds: "fan_running w = ws @ (a, Started) # vs \<Longrightarrow> accountScanner env a (fan_org w) = Some (Inr sc, st) \<Longrightarrow>
     fan_step env service w (w\<lparr>fan_running := ws @ (a, Holding sc) # vs, fan_org := st\<rparr>)"
| answers: "fan_running w = ws @ (a, Holding sc) # vs \<Longrightarrow> oe_scan env sc service = (refs, err, unsupported) \<Longrightarrow>
     fan_step env service w (w\<lparr>fan_running := ws @ vs, fan_org := mergeUnsupported unsupported (fan_org w),
       fan_results := fan_results w @ [\<lparr>ar_acctID = a, ar_refs = map (stamp_account a) refs, ar_err = err\<rparr>]\<rparr>)"

inductive fan_reachable :: "'s org_env \<Rightarrow> string \<Rightarrow> string list \<Rightarrow> 's org_state \<Rightarrow> 's fan \<Rightarrow> bool"
  for env service accounts st where
  start: "fan_reachable env service accounts st (fan_start accounts st)"
| step: "fan_reachable env service accounts st w \<Longrightarrow> fan_step env service w w' \<Longrightarrow> fan_reachable env service accounts st w'"

inductive_cases fan_stepE: "fan_step env service w w'"

definition fan_final :: "'s fan \<Rightarrow> bool" where
  "fan_final w \<longleftrightarrow> fan_queue w = [] \<and> fan_running w = []"

datatype service_error = ListingFailed org_error | ScanCancelled string | AccountFailed string scan_leaf

text \<open>The results in the order in which they arrived; no error is \<open>nil\<close>, the join of none.\<close>

definition account_errors :: "account_result \<Rightarrow> service_error list" where
  "account_errors res = map (AccountFailed (ar_acctID res)) (FlattenErrors (ar_err res))"

definition collect_fan :: "string \<Rightarrow> 's fan \<Rightarrow> pb_ResourceRef list \<times> service_error list" where
  "collect_fan service w = (concat (map ar_refs (fan_results w)),
     (if fan_cancelled w then [ScanCancelled service] else []) @ concat (map account_errors (fan_results w)))"

inductive OrgScanner_ScanService :: "'s org_env \<Rightarrow> string \<Rightarrow> 's org_state \<Rightarrow> pb_ResourceRef list \<times> service_error list \<Rightarrow> 's org_state \<Rightarrow> bool"
  for env service st where
  not_listed: "targetAccounts env st = Some (Inl e, st') \<Longrightarrow> OrgScanner_ScanService env service st ([], [ListingFailed e]) st'"
| scanned: "targetAccounts env st = Some (Inr accounts, st') \<Longrightarrow> fan_reachable env service accounts st' w \<Longrightarrow> fan_final w \<Longrightarrow>
     OrgScanner_ScanService env service st (collect_fan service w) (fan_org w)"

text \<open>\<open>Scan.ScanService\<close>: the accounts are listed by the first call of a scan.\<close>

definition scan_once :: "'s org_env \<Rightarrow> (org_error + string list) option \<Rightarrow> 's org_state \<Rightarrow>
    ((org_error + string list) \<times> 's org_state) panics" where
  "scan_once env listed st = do {
     (res, st) \<leftarrow> (case listed of Some res \<Rightarrow> Some (res, st) | None \<Rightarrow> targetAccounts env st);
     (case res of Inl e \<Rightarrow> Some (Inl e, st)
      | Inr accounts \<Rightarrow> do { assert_That (accounts \<noteq> []); Some (Inr accounts, st) })
   }"

text \<open>\<open>serviceErrorEntries\<close> of aws_provider.go; \<open>errors.As\<close> finds the denial below the account's name.\<close>

fun error_entry :: "(service_error \<Rightarrow> string) \<Rightarrow> string \<Rightarrow> service_error \<Rightarrow> string" where
  "error_entry text service (AccountFailed acct (AccessDenied t e)) = AccessDeniedNotice t e"
| "error_entry text service e = ServiceScanError service (text e)"

definition serviceErrorEntries :: "(service_error \<Rightarrow> string) \<Rightarrow> string \<Rightarrow> service_error list \<Rightarrow> string list" where
  "serviceErrorEntries text service errs = map (error_entry text service) errs"

subsection \<open>The cache of scanners\<close>

definition org_ok :: "'s org_state \<Rightarrow> bool" where
  "org_ok st \<longleftrightarrow> distinct (os_listed st) \<and> distinct (map fst (os_scanners st)) \<and> fst ` set (os_scanners st) \<subseteq> set (os_listed st)"

lemma org_ok_bound: "org_ok st \<Longrightarrow> length (os_scanners st) \<le> length (os_listed st)"
  unfolding org_ok_def by (metis card_mono distinct_card finite_set length_map set_map)

definition scanners_built :: "'s org_env \<Rightarrow> bool" where
  "scanners_built env \<longleftrightarrow> (\<forall>a. oe_scanner env a \<noteq> Inr None)"

lemma retainAccounts_ok:
  assumes "accounts \<noteq> []" "org_ok st"
  shows "\<exists>st'. retainAccounts accounts st = Some st' \<and> org_ok st' \<and> set (os_listed st') = set accounts \<and>
    (\<forall>a \<in> set accounts. map_of (os_scanners st') a = map_of (os_scanners st) a) \<and> os_unsupported st' = os_unsupported st"
proof -
  let ?st = "st\<lparr>os_listed := remdups accounts, os_scanners := filter (\<lambda>(i, _). i \<in> set accounts) (os_scanners st)\<rparr>"
  have keys: "map_of (filter (\<lambda>(i, _). i \<in> A) xs) a = map_of xs a" if "a \<in> A" for A a and xs :: "(string \<times> 's) list"
    using that by (induction xs) auto
  have "distinct (map fst (filter (\<lambda>(i, _). i \<in> set accounts) (os_scanners st)))" using assms(2) by (simp add: org_ok_def distinct_map_filter)
  then have ok: "org_ok ?st" by (auto simp: org_ok_def)
  then show ?thesis using assms(1) org_ok_bound[OF ok] keys[of _ "set accounts" "os_scanners st"] by (simp add: retainAccounts_def Let_def)
qed

text \<open>The scanner an account gets: the cached one, or a new one.\<close>

definition scanner_of :: "'s org_env \<Rightarrow> 's org_state \<Rightarrow> string \<Rightarrow> string + 's" where
  "scanner_of env st a = (case map_of (os_scanners st) a of
     Some sc \<Rightarrow> Inr sc
   | None \<Rightarrow> (case oe_scanner env a of Inl err \<Rightarrow> Inl err | Inr sc \<Rightarrow> Inr (the sc)))"

lemma accountScanner_ok:
  assumes "a \<noteq> []" "org_ok st" "scanners_built env"
  shows "\<exists>st'. accountScanner env a st = Some (scanner_of env st a, st') \<and> org_ok st' \<and> os_listed st' = os_listed st \<and>
    scanner_of env st' = scanner_of env st \<and> (\<forall>sc. scanner_of env st a = Inr sc \<and> a \<in> set (os_listed st) \<longrightarrow> map_of (os_scanners st') a = Some sc)"
proof (cases "map_of (os_scanners st) a")
  case (Some sc)
  then show ?thesis using assms by (auto simp: accountScanner_def scanner_of_def)
next
  case None
  show ?thesis
  proof (cases "oe_scanner env a")
    case (Inl err)
    then show ?thesis using assms None by (auto simp: accountScanner_def scanner_of_def)
  next
    case (Inr r)
    then obtain sc where r: "r = Some sc" using assms(3) by (cases r) (auto simp: scanners_built_def)
    let ?st = "if a \<in> set (os_listed st) then st\<lparr>os_scanners := os_scanners st @ [(a, sc)]\<rparr> else st"
    have fresh: "a \<notin> fst ` set (os_scanners st)" using None by (simp add: map_of_eq_None_iff)
    then have ok: "org_ok ?st" using assms(2) by (auto simp: org_ok_def)
    have same: "scanner_of env ?st = scanner_of env st"
      using None Inr r by (auto simp: scanner_of_def fun_eq_iff map_add_def split: option.splits)
    have "accountScanner env a st = Some (scanner_of env st a, ?st)"
      using assms(1) None Inr r org_ok_bound[OF ok] by (auto simp: accountScanner_def scanner_of_def Let_def)
    moreover have "map_of (os_scanners ?st) a = Some sc" if "a \<in> set (os_listed st)" using that None by (simp add: map_add_def)
    ultimately show ?thesis using ok same None Inr r by (auto simp: scanner_of_def)
  qed
qed

text \<open>While an account stays listed its scanner is built once: the next call gets the same one and asks nobody.\<close>

lemma accountScanner_cached:
  assumes "a \<noteq> []" "org_ok st" "scanners_built env" "accountScanner env a st = Some (Inr sc, st')" "a \<in> set (os_listed st)"
  shows "accountScanner env' a st' = Some (Inr sc, st')"
proof -
  have "map_of (os_scanners st') a = Some sc" using accountScanner_ok[OF assms(1-3)] assms(4,5) by auto
  then show ?thesis using assms(1) by (simp add: accountScanner_def)
qed

subsection \<open>Every account is scanned or the scan says it was cancelled\<close>

definition account_outcome :: "'s org_env \<Rightarrow> string \<Rightarrow> 's org_state \<Rightarrow> string \<Rightarrow> account_result" where
  "account_outcome env service st a = (case scanner_of env st a of
     Inl err \<Rightarrow> \<lparr>ar_acctID = a, ar_refs = [], ar_err = Some (Leaf (AssumeRole err))\<rparr>
   | Inr sc \<Rightarrow> (case oe_scan env sc service of (refs, err, _) \<Rightarrow> \<lparr>ar_acctID = a, ar_refs = map (stamp_account a) refs, ar_err = err\<rparr>))"

lemma merge_keeps [simp]:
  "os_listed (mergeUnsupported u st) = os_listed st" "os_scanners (mergeUnsupported u st) = os_scanners st"
  "org_ok (mergeUnsupported u st) = org_ok st" "scanner_of env (mergeUnsupported u st) = scanner_of env st"
  by (simp_all add: mergeUnsupported_def org_ok_def scanner_of_def fun_eq_iff)

definition worker_ok :: "'s org_env \<Rightarrow> 's org_state \<Rightarrow> string \<times> 's org_worker \<Rightarrow> bool" where
  "worker_ok env st = (\<lambda>(a, v). a \<noteq> [] \<and> (case v of Started \<Rightarrow> True | Holding sc \<Rightarrow> scanner_of env st a = Inr sc))"

definition fan_inv :: "'s org_env \<Rightarrow> string \<Rightarrow> string list \<Rightarrow> 's org_state \<Rightarrow> 's fan \<Rightarrow> bool" where
  "fan_inv env service accounts st w \<longleftrightarrow> org_ok (fan_org w) \<and> os_listed (fan_org w) = os_listed st \<and>
     scanner_of env (fan_org w) = scanner_of env st \<and> list_all (worker_ok env st) (fan_running w) \<and>
     int (length (fan_running w)) \<le> oc_MaxConcurrentAccounts (oe_config env) \<and> (fan_cancelled w \<longrightarrow> oe_done env) \<and>
     (\<exists>started. (if fan_cancelled w then fan_queue w = [] \<and> prefix started accounts else accounts = started @ fan_queue w) \<and>
       mset started = mset (map fst (fan_running w)) + mset (map ar_acctID (fan_results w))) \<and>
     (\<forall>r \<in> set (fan_results w). r = account_outcome env service st (ar_acctID r))"

lemma fan_start_inv:
  "org_ok st \<Longrightarrow> 0 < oc_MaxConcurrentAccounts (oe_config env) \<Longrightarrow> fan_inv env service accounts st (fan_start accounts st)"
  by (simp add: fan_inv_def fan_start_def)

lemma fan_step_inv:
  assumes "fan_step env service w w'" "fan_inv env service accounts st w" "scanners_built env" "[] \<notin> set accounts"
  shows "fan_inv env service accounts st w'"
  using assms(1)
proof cases
  case (dispatch a q)
  obtain started where st: "accounts = started @ a # q" "mset started = mset (map fst (fan_running w)) + mset (map ar_acctID (fan_results w))"
      "\<not> fan_cancelled w"
    using assms(2) dispatch(2) by (auto simp: fan_inv_def split: if_splits)
  then have "a \<noteq> []" using assms(4) by auto
  moreover have "accounts = (started @ [a]) @ q \<and> mset (started @ [a]) = mset (map fst (fan_running w @ [(a, Started)])) + mset (map ar_acctID (fan_results w))"
    using st by simp
  ultimately show ?thesis using assms(2) dispatch st(3) unfolding fan_inv_def worker_ok_def by (simp del: append_assoc)
next
  case cancel
  then show ?thesis using assms(2) unfolding fan_inv_def by (auto split: if_splits) (metis prefixI)
next
  case (refused ws a vs err u)
  have a: "a \<noteq> []" and ok: "org_ok (fan_org w)" and same: "scanner_of env (fan_org w) = scanner_of env st"
    using assms(2) refused(2) by (auto simp: fan_inv_def worker_ok_def)
  have u: "scanner_of env st a = Inl err" "org_ok u" "os_listed u = os_listed (fan_org w)" "scanner_of env u = scanner_of env st"
    using accountScanner_ok[OF a ok assms(3)] refused(3) same by auto
  then show ?thesis using assms(2) refused(1,2) unfolding fan_inv_def by (auto simp: account_outcome_def)
next
  case (holds ws a vs sc u)
  have a: "a \<noteq> []" and ok: "org_ok (fan_org w)" and same: "scanner_of env (fan_org w) = scanner_of env st"
    using assms(2) holds(2) by (auto simp: fan_inv_def worker_ok_def)
  have u: "scanner_of env st a = Inr sc" "org_ok u" "os_listed u = os_listed (fan_org w)" "scanner_of env u = scanner_of env st"
    using accountScanner_ok[OF a ok assms(3)] holds(3) same by auto
  then show ?thesis using assms(2) holds(1,2) a unfolding fan_inv_def by (auto simp: worker_ok_def)
next
  case (answers ws a sc vs refs err unsupported)
  have "scanner_of env st a = Inr sc" using assms(2) answers(2) by (auto simp: fan_inv_def worker_ok_def)
  then show ?thesis using assms(2) answers(1,2,3) unfolding fan_inv_def by (auto simp: account_outcome_def)
qed

lemma fan_reachable_inv:
  assumes "fan_reachable env service accounts st w" "org_ok st" "scanners_built env" "[] \<notin> set accounts"
    "0 < oc_MaxConcurrentAccounts (oe_config env)"
  shows "fan_inv env service accounts st w"
  using assms(1)
proof (induction rule: fan_reachable.induct)
  case start
  show ?case by (rule fan_start_inv[OF assms(2,5)])
next
  case (step w w')
  from fan_step_inv[OF step.hyps(2) step.IH assms(3,4)] show ?case .
qed

text \<open>The fan-out never gets stuck, so no assertion of a worker fails, and every run ends.\<close>

lemma fan_can_step:
  assumes "fan_inv env service accounts st w" "scanners_built env" "0 < oc_MaxConcurrentAccounts (oe_config env)" "\<not> fan_final w"
  shows "\<exists>w'. fan_step env service w w'"
proof (cases "fan_running w")
  case Nil
  with assms(4) obtain a q where "fan_queue w = a # q" by (cases "fan_queue w") (auto simp: fan_final_def)
  from fan_step.dispatch[OF this] Nil assms(3) show ?thesis by fastforce
next
  case (Cons x vs)
  obtain a v where x: "x = (a, v)" by (cases x)
  show ?thesis
  proof (cases v)
    case Started
    have "a \<noteq> []" "org_ok (fan_org w)" using assms(1) Cons x by (auto simp: fan_inv_def worker_ok_def)
    from accountScanner_ok[OF this assms(2)] obtain u where "accountScanner env a (fan_org w) = Some (scanner_of env (fan_org w) a, u)" by blast
    then show ?thesis using Cons x Started fan_step.refused[of w "[]"] fan_step.holds[of w "[]"]
      by (cases "scanner_of env (fan_org w) a") (metis append_Nil)+
  next
    case (Holding sc)
    then show ?thesis using Cons x fan_step.answers[of w "[]"] by (metis append_Nil prod_cases3)
  qed
qed

definition fan_left :: "'s fan \<Rightarrow> nat" where
  "fan_left w = 3 * length (fan_queue w) + sum_list (map (\<lambda>(_, v). case v of Started \<Rightarrow> 2 | Holding _ \<Rightarrow> 1) (fan_running w))"

lemma fan_step_left: "fan_step env service w w' \<Longrightarrow> fan_left w' < fan_left w"
  by (induction rule: fan_step.induct) (auto simp: fan_left_def)

lemma fan_step_wf: "wfP (\<lambda>v w. fan_step env service w v)"
  by (rule wfp_if_convertible_to_nat[where f = fan_left]) (rule fan_step_left)

subsection \<open>What a listing gives\<close>

definition wanted :: "Config \<Rightarrow> org_account \<Rightarrow> bool" where
  "wanted c a \<longleftrightarrow> oa_Status a = ''ACTIVE'' \<and> (string_set (oc_IncludeAccounts c) = [] \<or> the (oa_Id a) \<in> set (string_set (oc_IncludeAccounts c))) \<and>
     the (oa_Id a) \<notin> set (string_set (oc_ExcludeAccounts c))"

text \<open>The pages as the API sends them.\<close>

definition raw_fetch :: "'s org_env \<Rightarrow> nat \<Rightarrow> string \<Rightarrow> (org_account, string) page_reply" where
  "raw_fetch env n cursor = (case oe_list env n cursor of
     Inl err \<Rightarrow> \<lparr>reply_items = [], reply_err = Some err, reply_next = None\<rparr>
   | Inr (accounts, nextToken) \<Rightarrow> \<lparr>reply_items = accounts, reply_err = None, reply_next = next_cursor nextToken\<rparr>)"

lemma select_accounts_wanted:
  "select_accounts (string_set (oc_IncludeAccounts c)) (string_set (oc_ExcludeAccounts c)) as = Inr is \<Longrightarrow>
     is = map (\<lambda>a. the (oa_Id a)) (filter (wanted c) as) \<and> [] \<notin> set is"
  by (induction as arbitrary: "is") (auto simp: wanted_def Let_def split: if_splits sum.splits option.splits)

lemma org_listing:
  "listing (org_fetch env) n cursor ts is \<Longrightarrow>
     \<exists>held. listing (raw_fetch env) n cursor ts held \<and> is = map (\<lambda>a. the (oa_Id a)) (filter (wanted (oe_config env)) held) \<and> [] \<notin> set is"
proof (induction rule: listing.induct)
  case (last n c)
  then obtain accounts tok where "oe_list env n c = Inr (accounts, tok)" by (auto simp: org_fetch_def split: sum.splits)
  moreover from this last obtain ids where ids: "select_accounts (string_set (oc_IncludeAccounts (oe_config env))) (string_set (oc_ExcludeAccounts (oe_config env))) accounts = Inr ids"
    by (auto simp: org_fetch_def split: sum.splits)
  ultimately have "listing (raw_fetch env) n c [] accounts" "reply_items (org_fetch env n c) = ids"
    using last listing.last[of "raw_fetch env" n c] by (simp_all add: org_fetch_def raw_fetch_def)
  then show ?case using select_accounts_wanted[OF ids] by metis
next
  case (more n c t ts xs)
  then obtain accounts tok where l: "oe_list env n c = Inr (accounts, tok)" by (auto simp: org_fetch_def split: sum.splits)
  with more obtain ids where ids: "select_accounts (string_set (oc_IncludeAccounts (oe_config env))) (string_set (oc_ExcludeAccounts (oe_config env))) accounts = Inr ids"
    by (auto simp: org_fetch_def split: sum.splits)
  from more.IH obtain held where h: "listing (raw_fetch env) (Suc n) t ts held" "xs = map (\<lambda>a. the (oa_Id a)) (filter (wanted (oe_config env)) held)" "[] \<notin> set xs"
    by blast
  have "listing (raw_fetch env) n c (t # ts) (accounts @ held)"
    using listing.more[of "raw_fetch env" n c t ts held] more.hyps(2) l ids h(1) by (simp add: raw_fetch_def org_fetch_def)
  then show ?case using l ids h(2,3) select_accounts_wanted[OF ids] by (auto simp: org_fetch_def)
qed

lemma targetAccounts_exact:
  assumes "org_ok st"
  shows "\<exists>res st'. targetAccounts env st = Some (res, st') \<and> org_ok st' \<and>
    (case res of Inl _ \<Rightarrow> st' = st | Inr accounts \<Rightarrow> accounts \<noteq> [] \<and> [] \<notin> set accounts \<and> set (os_listed st') = set accounts \<and>
       (\<exists>ts held. listing (raw_fetch env) 0 [] ts held \<and> accounts = map (\<lambda>a. the (oa_Id a)) (filter (wanted (oe_config env)) held)))"
proof -
  have tokens: "tokens_nonempty (org_fetch env)"
    by (auto simp: tokens_nonempty_def org_fetch_def next_cursor_def split: sum.splits)
  from paging_New_ready[of PagesMax] obtain g where g: "paging_New ''organizations.ListAccounts'' PagesMax = Some g" "guard_ready g"
    by (auto simp: PagesMax_def)
  from pg.loop_returns[OF tokens g(2), of 0 "[]" "[]"] obtain accounts err m where
    r: "page_loop Guard_Next (org_fetch env) g 0 [] [] = Some (accounts, err, m)" by blast
  show ?thesis
  proof (cases "err = None \<and> accounts \<noteq> []")
    case True
    then obtain ts ys where l: "listing (org_fetch env) 0 [] ts ys" "accounts = ys"
      using pg.loop_complete[OF tokens g(2)] r by fastforce
    from retainAccounts_ok[of accounts st] True assms obtain st' where st': "retainAccounts accounts st = Some st'" "org_ok st'"
      "set (os_listed st') = set accounts" by blast
    from org_listing[OF l(1)] l(2) True st' g(1) r show ?thesis by (auto simp: targetAccounts_def)
  next
    case False
    with g(1) r assms show ?thesis by (cases err) (auto simp: targetAccounts_def split: list_error.splits)
  qed
qed

text \<open>Later services of one scan ask nobody for the accounts, and its assertion holds.\<close>

lemma scan_once_reuses: "scan_once env listed st = Some (res, st') \<Longrightarrow> scan_once env' (Some res) st'' = Some (res, st'')"
  by (cases res; auto simp: scan_once_def panics_iff split: option.splits sum.split_asm; metis old.sum.exhaust)

lemma scan_once_returns:
  assumes "org_ok st" "listed = None \<or> (\<exists>e. listed = Some (Inl e)) \<or> (\<exists>as. listed = Some (Inr as) \<and> as \<noteq> [])"
  shows "\<exists>res st'. scan_once env listed st = Some (res, st') \<and> org_ok st' \<and> res \<noteq> Inr []"
proof (cases listed)
  case None
  from targetAccounts_exact[OF assms(1), of env] obtain res st' where t: "targetAccounts env st = Some (res, st')" "org_ok st'"
    and "case res of Inl _ \<Rightarrow> st' = st | Inr accounts \<Rightarrow> accounts \<noteq> [] \<and> [] \<notin> set accounts \<and> set (os_listed st') = set accounts \<and>
      (\<exists>ts held. listing (raw_fetch env) 0 [] ts held \<and> accounts = map (\<lambda>a. the (oa_Id a)) (filter (wanted (oe_config env)) held))" by blast
  then show ?thesis using None by (cases res) (auto simp: scan_once_def)
next
  case (Some r)
  then show ?thesis using assms by (cases r) (auto simp: scan_once_def)
qed

lemma mset_concat_map: "mset xs = mset ys \<Longrightarrow> mset (concat (map f xs)) = mset (concat (map f ys))"
  by (metis (no_types, lifting) mset_concat mset_map sum_mset_sum_list)

lemma final_results:
  assumes "fan_inv env service accounts st w" "fan_final w"
  obtains started where "prefix started accounts" "if fan_cancelled w then oe_done env else started = accounts"
    "mset (fan_results w) = mset (map (account_outcome env service st) started)"
proof -
  obtain started where "if fan_cancelled w then fan_queue w = [] \<and> prefix started accounts else accounts = started @ fan_queue w"
      "mset started = mset (map fst (fan_running w)) + mset (map ar_acctID (fan_results w))"
    using assms(1) unfolding fan_inv_def by blast
  then have s: "if fan_cancelled w then prefix started accounts else accounts = started" "mset started = mset (map ar_acctID (fan_results w))"
    using assms(2) by (simp_all add: fan_final_def split: if_splits)
  have "map (account_outcome env service st) (map ar_acctID (fan_results w)) = fan_results w"
    using assms(1) by (auto simp: fan_inv_def intro!: map_idI)
  then have "mset (fan_results w) = mset (map (account_outcome env service st) started)" using s(2) by (metis mset_map)
  moreover have "prefix started accounts" "if fan_cancelled w then oe_done env else started = accounts"
    using s(1) assms(1) by (auto simp: fan_inv_def split: if_splits)
  ultimately show thesis using that by blast
qed

text \<open>C13. Scanning a service across an organization never panics and leaves the cache of scanners within the listed accounts. The accounts are exactly the
  active ones of every page the API holds that the filters want, in order, or the scan is one error and nothing else. Whatever the scheduler does, every
  account before a cancellation is scanned with its own scanner, or its error is the refusal of its role; the refs are exactly those the accounts gave,
  failing ones included, each stamped with its account, the errors are exactly those of the accounts, each with its account's name, and accounts
  are left out only by a scan that reports that it was cancelled.\<close>

theorem ScanService_exact:
  assumes "org_ok st" "scanners_built env" "oe_config env = org_New c" "OrgScanner_ScanService env service st (refs, errs) st'"
  shows "case targetAccounts env st of
      None \<Rightarrow> False
    | Some (Inl e, _) \<Rightarrow> refs = [] \<and> errs = [ListingFailed e] \<and> st' = st
    | Some (Inr accounts, st1) \<Rightarrow> org_ok st' \<and>
        (\<exists>ts held. listing (raw_fetch env) 0 [] ts held \<and> accounts = map (\<lambda>a. the (oa_Id a)) (filter (wanted (oe_config env)) held)) \<and>
        (\<exists>started. prefix started accounts \<and> (if ScanCancelled service \<in> set errs then oe_done env else started = accounts) \<and>
          mset refs = mset (concat (map (\<lambda>a. ar_refs (account_outcome env service st1 a)) started)) \<and>
          mset (filter (\<lambda>e. e \<noteq> ScanCancelled service) errs) = mset (concat (map (\<lambda>a. account_errors (account_outcome env service st1 a)) started)))"
  using assms(4)
proof cases
  case (not_listed e)
  then show ?thesis using targetAccounts_exact[OF assms(1), of env] by auto
next
  case (scanned accounts st1 w)
  have t: "org_ok st1" "[] \<notin> set accounts" "\<exists>ts held. listing (raw_fetch env) 0 [] ts held \<and> accounts = map (\<lambda>a. the (oa_Id a)) (filter (wanted (oe_config env)) held)"
    using targetAccounts_exact[OF assms(1), of env] scanned(3) by auto
  have "0 < oc_MaxConcurrentAccounts (oe_config env)" by (simp add: assms(3) org_New_def)
  then have inv: "fan_inv env service accounts st1 w" using fan_reachable_inv[OF scanned(4) t(1) assms(2) t(2)] by simp
  from final_results[OF inv scanned(5)] obtain started where s: "prefix started accounts" "if fan_cancelled w then oe_done env else started = accounts"
    and r: "mset (fan_results w) = mset (map (account_outcome env service st1) started)" .
  have none: "filter (\<lambda>e. e \<noteq> ScanCancelled service) (concat (map account_errors rs)) = concat (map account_errors rs)"
    "ScanCancelled service \<notin> set (concat (map account_errors rs))" for rs
    by (auto simp: account_errors_def intro!: filter_True)
  have "mset refs = mset (concat (map (\<lambda>a. ar_refs (account_outcome env service st1 a)) started))"
    using mset_concat_map[OF r, of ar_refs] scanned(1) by (simp add: collect_fan_def comp_def)
  moreover have "mset (filter (\<lambda>e. e \<noteq> ScanCancelled service) errs) = mset (concat (map (\<lambda>a. account_errors (account_outcome env service st1 a)) started))"
    using mset_concat_map[OF r, of account_errors] scanned(1) none(1)[of "fan_results w"] by (simp add: collect_fan_def comp_def)
  moreover have "ScanCancelled service \<in> set errs \<longleftrightarrow> fan_cancelled w" using scanned(1) none(2)[of "fan_results w"] by (auto simp: collect_fan_def)
  moreover have "org_ok st'" using inv scanned(2) by (simp add: fan_inv_def)
  ultimately show ?thesis using scanned(3) s t(3) by auto
qed

subsection \<open>An instance\<close>

definition demo_ref :: pb_ResourceRef where
  "demo_ref = \<lparr>ref_Id = ''b'', ref_Name = [], ref_Type = ''Bucket'', ref_Service = ''s3'', ref_Region = [], ref_AccountId = [], ref_BasicAttributes = Map.empty\<rparr>"

definition demo_org :: "unit org_env" where
  "demo_org = \<lparr>oe_config = org_New DefaultConfig,
     oe_list = (\<lambda>n cursor. if n = 0 then Inr ([\<lparr>oa_Id = Some ''1'', oa_Status = ''ACTIVE''\<rparr>, \<lparr>oa_Id = Some ''2'', oa_Status = ''SUSPENDED''\<rparr>], Some ''p'')
       else Inr ([\<lparr>oa_Id = Some ''3'', oa_Status = ''ACTIVE''\<rparr>], None)),
     oe_scanner = (\<lambda>a. if a = ''1'' then Inr (Some ()) else Inl ''denied''), oe_scan = (\<lambda>_ _. ([demo_ref], None, [])), oe_done = False\<rparr>"

definition demo_idle :: "string list \<Rightarrow> (string \<times> unit) list \<Rightarrow> unit org_state" where
  "demo_idle listed scs = \<lparr>os_unsupported = Map.empty, os_listed = listed, os_scanners = scs\<rparr>"

lemma demo_targets: "targetAccounts demo_org (demo_idle [] []) = Some (Inr [''1'', ''3''], demo_idle [''1'', ''3''] [])"
  by (simp add: targetAccounts_def paging_New_def PagesMax_def demo_org_def org_fetch_def next_cursor_def string_set_def DefaultConfig_def org_New_def
      page_loop.simps Guard_Next_def retainAccounts_def demo_idle_def)

lemma demo_org_run:
  "OrgScanner_ScanService demo_org ''s3'' (demo_idle [] [])
     ([stamp_account ''1'' demo_ref], [AccountFailed ''3'' (AssumeRole ''denied'')]) (demo_idle [''1'', ''3''] [(''1'', ())])"
proof -
  let ?st = "demo_idle [''1'', ''3''] []" and ?done = "demo_idle [''1'', ''3''] [(''1'', ())]"
  let ?r1 = "\<lparr>ar_acctID = ''1'', ar_refs = [stamp_account ''1'' demo_ref], ar_err = None\<rparr>"
  let ?r3 = "\<lparr>ar_acctID = ''3'', ar_refs = [], ar_err = Some (Leaf (AssumeRole ''denied''))\<rparr>"
  let ?w = "\<lambda>q ws rs st. \<lparr>fan_queue = q, fan_running = ws, fan_results = rs, fan_cancelled = False, fan_org = st\<rparr>"
  note next_state = fan_reachable.step[of demo_org "''s3''" "[''1'', ''3'']" ?st]
  have "fan_reachable demo_org ''s3'' [''1'', ''3''] ?st (?w [''1'', ''3''] [] [] ?st)"
    using fan_reachable.start[of demo_org "''s3''" "[''1'', ''3'']" ?st] by (simp add: fan_start_def)
  then have "fan_reachable demo_org ''s3'' [''1'', ''3''] ?st (?w [''3''] [(''1'', Started)] [] ?st)"
    using next_state fan_step.dispatch[of "?w [''1'', ''3''] [] [] ?st" "''1''" "[''3'']" demo_org "''s3''"]
    by (simp add: demo_org_def org_New_def DefaultConfig_def)
  then have "fan_reachable demo_org ''s3'' [''1'', ''3''] ?st (?w [''3''] [(''1'', Holding ())] [] ?done)"
    using next_state fan_step.holds[of "?w [''3''] [(''1'', Started)] [] ?st" "[]" "''1''" "[]" demo_org "()" ?done "''s3''"]
    by (simp add: accountScanner_def demo_org_def demo_idle_def)
  then have "fan_reachable demo_org ''s3'' [''1'', ''3''] ?st (?w [''3''] [] [?r1] ?done)"
    using next_state fan_step.answers[of "?w [''3''] [(''1'', Holding ())] [] ?done" "[]" "''1''" "()" "[]" demo_org "''s3''" "[demo_ref]" None "[]"]
    by (simp add: demo_org_def mergeUnsupported_def demo_idle_def)
  then have "fan_reachable demo_org ''s3'' [''1'', ''3''] ?st (?w [] [(''3'', Started)] [?r1] ?done)"
    using next_state fan_step.dispatch[of "?w [''3''] [] [?r1] ?done" "''3''" "[]" demo_org "''s3''"]
    by (simp add: demo_org_def org_New_def DefaultConfig_def)
  then have "fan_reachable demo_org ''s3'' [''1'', ''3''] ?st (?w [] [] [?r1, ?r3] ?done)"
    using next_state fan_step.refused[of "?w [] [(''3'', Started)] [?r1] ?done" "[]" "''3''" "[]" demo_org "''denied''" ?done "''s3''"]
    by (simp add: accountScanner_def demo_org_def demo_idle_def)
  from OrgScanner_ScanService.scanned[OF demo_targets this] show ?thesis
    by (simp add: fan_final_def collect_fan_def account_errors_def FlattenErrors_def)
qed

theorem ScanService_exact_witness:
  "OrgScanner_ScanService demo_org ''s3'' (demo_idle [] []) ([stamp_account ''1'' demo_ref], [AccountFailed ''3'' (AssumeRole ''denied'')]) (demo_idle [''1'', ''3''] [(''1'', ())]) \<and>
   org_ok (demo_idle [''1'', ''3''] [(''1'', ())])"
proof -
  have "org_ok (demo_idle [] [])" "scanners_built demo_org" "oe_config demo_org = org_New DefaultConfig"
    by (simp_all add: org_ok_def demo_idle_def scanners_built_def demo_org_def)
  from ScanService_exact[OF this demo_org_run] demo_org_run show ?thesis by (simp add: demo_targets)
qed

end
