(* ===== verification/Cloudflare_Listing.thy ===== *)
theory Cloudflare_Listing imports Cloudflare_Auth Scan_Errors "HOL-Library.Word" begin

text \<open>
  plugins/cloudflare-provider: how a listing is drained (traversal.go), which zones a scan reads, what a scan
  remembers (list_memo.go) and how ListResources serves pages out of a cache (list.go). The SDK's pager, the
  lookups, the scan, JSON and the clock are parameters.
\<close>

subsection \<open>Draining a listing\<close>

definition repeatCompleteItemsMax :: nat where
  "repeatCompleteItemsMax = 20"

definition listItemsMax :: nat where
  "listItemsMax = 100000"

datatype list_failure = ItemCap nat | Repeated nat | IterFailed string

text \<open>The pager as the SDK gives it: item after item, the error once \<open>Next\<close> is false. \<open>key\<close> is \<open>itemKey\<close>.\<close>

record 'a pager =
  pg_item :: "nat \<Rightarrow> 'a option"
  pg_err :: "string option"

function collect_items_loop :: "('a \<Rightarrow> 'k option) \<Rightarrow> nat \<Rightarrow> 'a pager \<Rightarrow> 'a list \<Rightarrow> 'k list \<Rightarrow> 'a list \<times> list_failure option" where
  "collect_items_loop key itemsMax iter results seen = (case pg_item iter (length results) of
     None \<Rightarrow> (results, map_option IterFailed (pg_err iter))
   | Some item \<Rightarrow>
       if length results \<ge> itemsMax then (results, Some (ItemCap itemsMax))
       else (case key item of
          None \<Rightarrow> collect_items_loop key itemsMax iter (results @ [item]) seen
        | Some k \<Rightarrow>
            if k \<in> set seen
            then (results, if length results < repeatCompleteItemsMax then None else Some (Repeated (length results)))
            else collect_items_loop key itemsMax iter (results @ [item]) (k # seen)))"
  by pat_completeness auto
termination
  by (relation "measure (\<lambda>(_, itemsMax, _, results, _). itemsMax - length results)") auto

declare collect_items_loop.simps [simp del]

definition collectAutoPaging :: "('a \<Rightarrow> 'k option) \<Rightarrow> 'a pager \<Rightarrow> 'a list \<times> list_failure option" where
  "collectAutoPaging key iter = collect_items_loop key listItemsMax iter [] []"

subsection \<open>Accounts and zones\<close>

record Account =
  acc_ID :: string
  acc_Name :: string

record Zone =
  zn_ID :: string
  zn_Name :: string
  zn_Account :: string

definition listAccounts :: "(Account \<Rightarrow> 'k option) \<Rightarrow> ScopeConfig \<Rightarrow> Account pager \<Rightarrow> Account list \<times> list_failure option" where
  "listAccounts key scope iter = (case collectAutoPaging key iter of (listed, err) \<Rightarrow>
     (filter (\<lambda>a. scope_AccountIDs scope = [] \<or> acc_ID a \<in> set (scope_AccountIDs scope)) listed, err))"

text \<open>\<open>strings.EqualFold\<close> on ASCII names.\<close>

definition zone_EqualFold :: "string \<Rightarrow> string \<Rightarrow> bool" where
  "zone_EqualFold s u \<longleftrightarrow> strings_ToLower s = strings_ToLower u"

definition zoneAllowed :: "ScopeConfig \<Rightarrow> Zone \<Rightarrow> bool" where
  "zoneAllowed scope z \<longleftrightarrow>
     (scope_IncludeZones scope \<noteq> [] \<longrightarrow> list_ex (\<lambda>name. zone_EqualFold name (zn_Name z)) (scope_IncludeZones scope)) \<and>
     \<not> list_ex (\<lambda>name. zone_EqualFold name (zn_Name z)) (scope_ExcludeZones scope)"

text \<open>\<open>zoneByID\<close>, whose values are returned in any order, with its keys in the order of their first assignment.\<close>

definition addAllowedZones :: "ScopeConfig \<Rightarrow> (string \<times> Zone) list \<Rightarrow> Zone list \<Rightarrow> (string \<times> Zone) list" where
  "addAllowedZones scope zoneByID listed =
     foldl (\<lambda>m z. if zoneAllowed scope z then AList.update (zn_ID z) z m else m) zoneByID listed"

datatype zone_error = GetFailed string | ListFailed list_failure

record zone_api =
  za_get :: "string \<Rightarrow> string + Zone"
  za_all :: "Zone pager"
  za_account :: "string \<Rightarrow> Zone pager"

fun get_zones_loop :: "zone_api \<Rightarrow> ScopeConfig \<Rightarrow> string list \<Rightarrow> (string \<times> Zone) list \<Rightarrow> (string \<times> Zone) list \<times> zone_error option" where
  "get_zones_loop api scope [] zoneByID = (zoneByID, None)"
| "get_zones_loop api scope (i # is) zoneByID = (case za_get api i of
     Inl err \<Rightarrow> ([], Some (GetFailed err))
   | Inr z \<Rightarrow> get_zones_loop api scope is (if zoneAllowed scope z then AList.update (zn_ID z) z zoneByID else zoneByID))"

fun account_zones_loop :: "(Zone \<Rightarrow> 'k option) \<Rightarrow> zone_api \<Rightarrow> ScopeConfig \<Rightarrow> string list \<Rightarrow> (string \<times> Zone) list \<Rightarrow>
    (string \<times> Zone) list \<times> zone_error option" where
  "account_zones_loop key api scope [] zoneByID = (zoneByID, None)"
| "account_zones_loop key api scope (i # is) zoneByID = (case collectAutoPaging key (za_account api i) of (listed, err) \<Rightarrow>
     let zoneByID = addAllowedZones scope zoneByID listed in
     (case err of Some e \<Rightarrow> (zoneByID, Some (ListFailed e)) | None \<Rightarrow> account_zones_loop key api scope is zoneByID))"

definition listZones :: "(Zone \<Rightarrow> 'k option) \<Rightarrow> zone_api \<Rightarrow> ScopeConfig \<Rightarrow> Zone list \<times> zone_error option" where
  "listZones key api scope = apfst (map snd)
     (if scope_ZoneIDs scope \<noteq> [] then get_zones_loop api scope (scope_ZoneIDs scope) []
      else if scope_AccountIDs scope \<noteq> [] then account_zones_loop key api scope (scope_AccountIDs scope) []
      else (case collectAutoPaging key (za_all api) of (listed, err) \<Rightarrow>
        (addAllowedZones scope [] listed, map_option ListFailed err)))"

subsection \<open>What a scan remembers\<close>

definition memoizedList :: "(string \<rightharpoonup> 'a list) option \<Rightarrow> string \<Rightarrow> 'a list \<times> 'e option \<Rightarrow> ('a list \<times> 'e option) \<times> (string \<rightharpoonup> 'a list) option" where
  "memoizedList memo key fetch = (case memo of
     None \<Rightarrow> (fetch, None)
   | Some entries \<Rightarrow> (case entries key of
       Some items \<Rightarrow> ((items, None), memo)
     | None \<Rightarrow> (case fetch of (items, err) \<Rightarrow> ((items, err), if err = None then Some (entries(key \<mapsto> items)) else memo))))"

subsection \<open>ListResources\<close>

definition listCacheTTL :: int where
  "listCacheTTL = 600000000000"

definition listPageSizeDefault :: nat where
  "listPageSizeDefault = 1000"

record listEntry =
  le_refs :: "pb_ResourceRef list"
  le_errors :: "string list"
  le_expiresAt :: int

record list_request =
  lr_Service :: string
  lr_Filters :: "(string \<times> string) list"
  lr_MaxResults :: int
  lr_NextToken :: string

record list_response =
  lp_Resources :: "pb_ResourceRef list"
  lp_TotalCount :: "32 word"
  lp_NextToken :: string
  lp_Metadata :: "(string \<times> string) list"

text \<open>A map of filters is a list with distinct keys in any order.\<close>

definition listCacheKey :: "string \<Rightarrow> (string \<times> string) list \<Rightarrow> string" where
  "listCacheKey service filters = service @ ''|'' @
     concat (map (\<lambda>k. k @ ''='' @ the (map_of filters k) @ '';'') (sort (map fst filters)))"

definition gcListCache :: "int \<Rightarrow> (string \<times> listEntry) list \<Rightarrow> (string \<times> listEntry) list" where
  "gcListCache now cache = filter (\<lambda>(_, e). \<not> now > le_expiresAt e) cache"

definition decodeAttrs :: "(string \<Rightarrow> (string \<times> string) list option) \<Rightarrow> string \<Rightarrow> (string \<times> string) list option" where
  "decodeAttrs unmarshal raw = (if raw = [] then None else if raw = ''null'' then Some [] else unmarshal raw)"

definition resource_ref :: "(string \<Rightarrow> (string \<times> string) list option) \<Rightarrow> pb_Resource \<Rightarrow> pb_ResourceRef" where
  "resource_ref unmarshal r = \<lparr>ref_Id = res_Id r, ref_Name = res_Name r, ref_Type = res_Type r, ref_Service = res_Service r,
     ref_Region = res_Region r, ref_AccountId = res_AccountId r,
     ref_BasicAttributes = foldl (\<lambda>m (k, v). if v \<noteq> [] then m(k \<mapsto> v) else m) [''provider'' \<mapsto> ''cloudflare'']
       (case decodeAttrs unmarshal (res_Attributes r) of None \<Rightarrow> [] | Some attrs \<Rightarrow> attrs)\<rparr>"

record list_env =
  lv_now :: "nat \<Rightarrow> int"
  lv_scan :: "string \<Rightarrow> (string \<times> string) list \<Rightarrow> string + (pb_Resource list \<times> string list)"
  lv_unmarshal :: "string \<Rightarrow> (string \<times> string) list option"

text \<open>The clock is read to clear the cache, to judge the entry and to date a new one.\<close>

definition refsForKey :: "list_env \<Rightarrow> string \<Rightarrow> list_request \<Rightarrow> (string \<times> listEntry) list \<Rightarrow> (string + listEntry) \<times> (string \<times> listEntry) list" where
  "refsForKey env key req cache =
     (let cache = gcListCache (lv_now env 0) cache;
        usable = (case map_of cache key of None \<Rightarrow> None | Some entry \<Rightarrow>
          if lv_now env 1 < le_expiresAt entry \<and> (fst (SplitScanErrors (le_errors entry)) = [] \<or> lr_NextToken req \<noteq> [])
          then Some entry else None)
      in case usable of
        Some entry \<Rightarrow> (Inr entry, cache)
      | None \<Rightarrow> (let cache = AList.delete key cache in
          (case lv_scan env (lr_Service req) (lr_Filters req) of
             Inl err \<Rightarrow> (Inl err, cache)
           | Inr (resources, errors) \<Rightarrow>
               (let entry = \<lparr>le_refs = map (resource_ref (lv_unmarshal env)) resources, le_errors = errors,
                    le_expiresAt = lv_now env 2 + listCacheTTL\<rparr>
                in (Inr entry, AList.update key entry cache)))))"

definition page_offset :: "string \<Rightarrow> nat \<Rightarrow> nat" where
  "page_offset token len = min len (case strconv_Atoi token of Some n \<Rightarrow> if n \<ge> 0 then nat n else 0 | None \<Rightarrow> 0)"

definition page_size :: "int \<Rightarrow> nat" where
  "page_size maxResults = (if maxResults > 0 then nat maxResults else listPageSizeDefault)"

definition page_of :: "pb_ResourceRef list \<Rightarrow> string \<Rightarrow> int \<Rightarrow> pb_ResourceRef list \<times> string" where
  "page_of refs token maxResults =
     (let offset = page_offset token (length refs); page = drop offset refs; n = page_size maxResults
      in if n < length page then (take n page, strconv_Itoa (int (offset + n))) else (page, []))"

definition listResourcesPaged :: "list_env \<Rightarrow> list_request \<Rightarrow> (string \<times> listEntry) list \<Rightarrow> (string + list_response) \<times> (string \<times> listEntry) list" where
  "listResourcesPaged env req cache = (case refsForKey env (listCacheKey (lr_Service req) (lr_Filters req)) req cache of
     (Inl err, cache) \<Rightarrow> (Inl err, cache)
   | (Inr entry, cache) \<Rightarrow> (case page_of (le_refs entry) (lr_NextToken req) (lr_MaxResults req) of (page, nextToken) \<Rightarrow>
       (Inr \<lparr>lp_Resources = page, lp_TotalCount = word_of_nat (length (le_refs entry)), lp_NextToken = nextToken,
          lp_Metadata = (let scanErrors = fst (SplitScanErrors (le_errors entry)) in
            if scanErrors \<noteq> [] then [(''partial'', ''true''), (''errors'', strings_Join scanErrors [CHR 0x0A])] else [])\<rparr>, cache)))"

subsection \<open>What a drained listing holds\<close>

text \<open>The items returned are the first the pager gave, none twice. Without an error the pager ended without one, or an item of
  a first short page came again; an error says why the items may be incomplete.\<close>

definition drained :: "('a \<Rightarrow> 'k option) \<Rightarrow> nat \<Rightarrow> 'a pager \<Rightarrow> 'a list \<times> list_failure option \<Rightarrow> bool" where
  "drained key itemsMax iter = (\<lambda>(xs, err).
     (\<forall>i < length xs. pg_item iter i = Some (xs ! i)) \<and> length xs \<le> itemsMax \<and> distinct (List.map_filter key xs) \<and>
     (case err of
        None \<Rightarrow> (pg_item iter (length xs) = None \<and> pg_err iter = None) \<or>
          (length xs < repeatCompleteItemsMax \<and> (\<exists>x k. pg_item iter (length xs) = Some x \<and> key x = Some k \<and> k \<in> set (List.map_filter key xs)))
      | Some (IterFailed e) \<Rightarrow> pg_item iter (length xs) = None \<and> pg_err iter = Some e
      | Some (ItemCap n) \<Rightarrow> n = itemsMax \<and> length xs = itemsMax \<and> pg_item iter itemsMax \<noteq> None
      | Some (Repeated n) \<Rightarrow> n = length xs \<and> repeatCompleteItemsMax \<le> n \<and>
          (\<exists>x k. pg_item iter n = Some x \<and> key x = Some k \<and> k \<in> set (List.map_filter key xs))))"

lemma collect_items_loop_drained:
  assumes "\<forall>i < length results. pg_item iter i = Some (results ! i)" "length results \<le> itemsMax" "distinct (List.map_filter key results)"
    "set seen = set (List.map_filter key results)"
  shows "drained key itemsMax iter (collect_items_loop key itemsMax iter results seen)"
  using assms
proof (induction key itemsMax iter results seen rule: collect_items_loop.induct)
  case (1 key itemsMax iter results seen)
  have more: "\<forall>i < length (results @ [x]). pg_item iter i = Some ((results @ [x]) ! i)" if "pg_item iter (length results) = Some x" for x
    using that 1(3) by (auto simp: nth_append less_Suc_eq)
  show ?case
  proof (cases "pg_item iter (length results)")
    case None
    then show ?thesis using 1(3-5) by (cases "pg_err iter") (simp_all add: collect_items_loop.simps[of key itemsMax iter results] drained_def)
  next
    case (Some x)
    show ?thesis
    proof (cases "itemsMax \<le> length results")
      case True
      then have "collect_items_loop key itemsMax iter results seen = (results, Some (ItemCap itemsMax))"
        using Some by (simp add: collect_items_loop.simps[of key itemsMax iter results])
      then show ?thesis using Some True 1(3-5) by (simp add: drained_def)
    next
      case False
      show ?thesis
      proof (cases "key x")
        case None
        have "drained key itemsMax iter (collect_items_loop key itemsMax iter (results @ [x]) seen)"
          using 1(1)[OF Some False None more[OF Some]] False 1(5,6) None by (simp add: map_filter_def)
        then show ?thesis using Some False None by (simp add: collect_items_loop.simps[of key itemsMax iter results])
      next
        case (Some k)
        note k = Some
        show ?thesis
        proof (cases "k \<in> set seen")
          case True
          then show ?thesis using \<open>pg_item iter (length results) = Some x\<close> False Some 1(3-6)
            by (auto simp: collect_items_loop.simps[of key itemsMax iter results] drained_def)
        next
          case fresh: False
          have "drained key itemsMax iter (collect_items_loop key itemsMax iter (results @ [x]) (k # seen))"
            using 1(2)[OF \<open>pg_item iter (length results) = Some x\<close> False k fresh more[OF \<open>pg_item iter (length results) = Some x\<close>]] False 1(5,6) k fresh
            by (simp add: map_filter_def)
          then show ?thesis using \<open>pg_item iter (length results) = Some x\<close> False k fresh by (simp add: collect_items_loop.simps[of key itemsMax iter results])
        qed
      qed
    qed
  qed
qed

lemma collectAutoPaging_drained: "drained key listItemsMax iter (collectAutoPaging key iter)"
  unfolding collectAutoPaging_def by (rule collect_items_loop_drained) (simp_all add: map_filter_simps)

lemma set_update: "(i, y) \<in> set (AList.update k v m) \<Longrightarrow> (i = k \<and> y = v) \<or> (i, y) \<in> set m"
  by (induction m) (auto split: if_splits)

lemma addAllowedZones_keys:
  "distinct (map fst m) \<Longrightarrow> (\<forall>(i, z) \<in> set m. zn_ID z = i \<and> zoneAllowed scope z) \<Longrightarrow>
     distinct (map fst (addAllowedZones scope m listed)) \<and> (\<forall>(i, z) \<in> set (addAllowedZones scope m listed). zn_ID z = i \<and> zoneAllowed scope z) \<and>
     fst ` set (addAllowedZones scope m listed) = fst ` set m \<union> zn_ID ` {z \<in> set listed. zoneAllowed scope z}"
proof (induction listed arbitrary: m)
  case (Cons z zs)
  let ?m = "if zoneAllowed scope z then AList.update (zn_ID z) z m else m"
  have d: "distinct (map fst ?m)" using Cons.prems(1) by (simp add: distinct_update)
  have a: "\<forall>(i, y) \<in> set ?m. zn_ID y = i \<and> zoneAllowed scope y"
  proof (intro ballI, clarify)
    fix i y assume i: "(i, y) \<in> set ?m"
    show "zn_ID y = i \<and> zoneAllowed scope y"
    proof (cases "(i, y) \<in> set m")
      case True
      then show ?thesis using Cons.prems(2) by blast
    next
      case False
      then show ?thesis using i set_update[of i y "zn_ID z" z m] by (cases "zoneAllowed scope z") simp_all
    qed
  qed
  have k: "fst ` set ?m = fst ` set m \<union> (if zoneAllowed scope z then {zn_ID z} else {})"
    by (simp add: dom_update)
  have r: "addAllowedZones scope m (z # zs) = addAllowedZones scope ?m zs" by (simp add: addAllowedZones_def)
  have z: "{y \<in> set (z # zs). zoneAllowed scope y} = (if zoneAllowed scope z then {z} else {}) \<union> {y \<in> set zs. zoneAllowed scope y}" by auto
  show ?case unfolding r z using Cons.IH[OF d a] k by (simp add: image_Un Un_assoc)
qed (auto simp: addAllowedZones_def)

text \<open>A failed or partial listing is never remembered.\<close>

lemma memoizedList_remembers:
  "memoizedList (Some entries) key (items, err) = (res, Some entries') \<Longrightarrow> entries' = entries \<or> (err = None \<and> entries key = None \<and> entries' = entries(key \<mapsto> items) \<and> res = (items, None))"
  by (auto simp: memoizedList_def split: option.splits if_splits)

subsection \<open>Pages\<close>

lemma Atoi_Itoa: "in_int64 i \<Longrightarrow> strconv_Atoi (strconv_Itoa i) = Some i"
proof -
  have np: "\<not> strings_HasPrefix (digits_of n) ''-'' \<and> \<not> strings_HasPrefix (digits_of n) ''+''" for n
    using digit_char_plain[OF digits_of_hd[of n]] by (cases "digits_of n") auto
  assume "in_int64 i"
  with np show ?thesis
    by (cases "i < 0") (simp_all add: strconv_Itoa_def strconv_Atoi_def Let_def digits_of_digits digits_value_of)
qed

lemma page_of_page:
  assumes "length refs < 2 ^ 63" "offset \<le> length refs" "token = (if offset = 0 then [] else strconv_Itoa (int offset))"
  shows "page_of refs token m = (take (page_size m) (drop offset refs),
    if offset + page_size m < length refs then strconv_Itoa (int (offset + page_size m)) else [])"
proof -
  have "strconv_Atoi [] = None" by (simp add: strconv_Atoi_def)
  then have "page_offset token (length refs) = offset"
    using assms Atoi_Itoa[of "int offset"] by (auto simp: page_offset_def in_int64_def)
  then show ?thesis by (auto simp: page_of_def Let_def less_diff_conv add.commute)
qed

lemma page_size_pos: "0 < page_size m"
  by (simp add: page_size_def listPageSizeDefault_def)

text \<open>A client that follows the continuation tokens, with fuel for the requests.\<close>

fun client_pages :: "(nat \<Rightarrow> list_env) \<Rightarrow> list_request \<Rightarrow> nat \<Rightarrow> nat \<Rightarrow> (string \<times> listEntry) list \<Rightarrow> (string + pb_ResourceRef list list) option" where
  "client_pages envs req 0 i cache = None"
| "client_pages envs req (Suc n) i cache = (case listResourcesPaged (envs i) req cache of
     (Inl err, _) \<Rightarrow> Some (Inl err)
   | (Inr resp, cache) \<Rightarrow>
       if lp_NextToken resp = [] then Some (Inr [lp_Resources resp])
       else (case client_pages envs (req\<lparr>lr_NextToken := lp_NextToken resp\<rparr>) n (Suc i) cache of
         Some (Inr ps) \<Rightarrow> Some (Inr (lp_Resources resp # ps)) | r \<Rightarrow> r))"

text \<open>A continuation is served from the entry, partial or not, until it expires.\<close>

lemma continuation_cached:
  assumes "map_of cache key = Some entry" "\<And>j. lv_now env j < le_expiresAt entry" "lr_NextToken req \<noteq> []"
  shows "refsForKey env key req cache = (Inr entry, gcListCache (lv_now env 0) cache)"
    "map_of (gcListCache (lv_now env 0) cache) key = Some entry"
proof -
  have "map_of (filter (\<lambda>(_, e). \<not> now > le_expiresAt e) cs) key = Some entry" if "map_of cs key = Some entry" "now < le_expiresAt entry" for now cs
    using that by (induction cs) (auto split: if_splits)
  then show k: "map_of (gcListCache (lv_now env 0) cache) key = Some entry" using assms(1,2) by (simp add: gcListCache_def)
  then show "refsForKey env key req cache = (Inr entry, gcListCache (lv_now env 0) cache)"
    using assms(2,3) by (simp add: refsForKey_def)
qed

lemma client_continues:
  assumes "map_of cache (listCacheKey (lr_Service req) (lr_Filters req)) = Some entry" "\<And>i j. lv_now (envs i) j < le_expiresAt entry"
    "length (le_refs entry) < 2 ^ 63" "0 < offset" "offset \<le> length (le_refs entry)" "lr_NextToken req = strconv_Itoa (int offset)"
    "length (le_refs entry) < offset + n"
  shows "\<exists>ps. client_pages envs req n i cache = Some (Inr ps) \<and> concat ps = drop offset (le_refs entry) \<and> list_all (\<lambda>p. length p \<le> page_size (lr_MaxResults req)) ps"
  using assms(1,4-7)
proof (induction n arbitrary: i cache req offset)
  case (Suc n)
  let ?m = "page_size (lr_MaxResults req)"
  have page: "page_of (le_refs entry) (lr_NextToken req) (lr_MaxResults req) = (take ?m (drop offset (le_refs entry)),
      if offset + ?m < length (le_refs entry) then strconv_Itoa (int (offset + ?m)) else [])"
    by (rule page_of_page[OF assms(3)]) (use Suc.prems in auto)
  have c: "refsForKey (envs i) (listCacheKey (lr_Service req) (lr_Filters req)) req cache = (Inr entry, gcListCache (lv_now (envs i) 0) cache)"
    "map_of (gcListCache (lv_now (envs i) 0) cache) (listCacheKey (lr_Service req) (lr_Filters req)) = Some entry"
    using continuation_cached[OF Suc.prems(1) assms(2), of req i] Suc.prems(4) by simp_all
  show ?case
  proof (cases "offset + ?m < length (le_refs entry)")
    case False
    then show ?thesis using page c by (simp add: listResourcesPaged_def)
  next
    case True
    let ?req = "req\<lparr>lr_NextToken := strconv_Itoa (int (offset + ?m))\<rparr>"
    have "\<exists>ps. client_pages envs ?req n (Suc i) (gcListCache (lv_now (envs i) 0) cache) = Some (Inr ps) \<and>
        concat ps = drop (offset + ?m) (le_refs entry) \<and> list_all (\<lambda>p. length p \<le> page_size (lr_MaxResults ?req)) ps"
      by (rule Suc.IH) (use c(2) True Suc.prems page_size_pos[of "lr_MaxResults req"] in auto)
    then obtain ps where "client_pages envs ?req n (Suc i) (gcListCache (lv_now (envs i) 0) cache) = Some (Inr ps)"
      "concat ps = drop (offset + ?m) (le_refs entry)" "list_all (\<lambda>p. length p \<le> ?m) ps" by auto
    moreover have "take ?m (drop offset (le_refs entry)) @ drop (offset + ?m) (le_refs entry) = drop offset (le_refs entry)"
      by (metis add.commute append_take_drop_id drop_drop)
    ultimately show ?thesis using page c(1) True by (simp add: listResourcesPaged_def)
  qed
qed simp

lemma gc_absent: "map_of cache key = None \<Longrightarrow> map_of (gcListCache now cache) key = None"
  by (auto simp: gcListCache_def map_of_eq_None_iff)

lemma gc_present: "map_of cache key = Some entry \<Longrightarrow> distinct (map fst cache) \<Longrightarrow>
    map_of (gcListCache now cache) key = (if now > le_expiresAt entry then None else Some entry)"
  by (induction cache) (auto simp: gcListCache_def map_of_eq_None_iff rev_image_eqI split: if_splits)

text \<open>A first page asks again when the listing it would repeat was partial; a complete one is served until it expires.\<close>

lemma first_page:
  assumes "map_of cache key = Some entry" "distinct (map fst cache)" "lr_NextToken req = []" "lv_now env 0 \<le> le_expiresAt entry"
  shows "fst (refsForKey env key req cache) =
    (if lv_now env 1 < le_expiresAt entry \<and> fst (SplitScanErrors (le_errors entry)) = [] then Inr entry
     else (case lv_scan env (lr_Service req) (lr_Filters req) of
       Inl err \<Rightarrow> Inl err
     | Inr (resources, errors) \<Rightarrow> Inr \<lparr>le_refs = map (resource_ref (lv_unmarshal env)) resources, le_errors = errors,
         le_expiresAt = lv_now env 2 + listCacheTTL\<rparr>))"
  using assms(3,4) gc_present[OF assms(1,2), of "lv_now env 0"] by (simp add: refsForKey_def Let_def split: sum.splits)

text \<open>The keys and values of the filters are joined without quoting, so different filters share a listing.\<close>

lemma cache_key_confuses_filters:
  "listCacheKey ''dns'' [(''account'', ''a;zone=z'')] = listCacheKey ''dns'' [(''account'', ''a''), (''zone'', ''z'')]"
  by (simp add: listCacheKey_def)

text \<open>C10. A client that follows the continuation tokens of a listing gets every resource of the one scan that its first page made, exactly once and in order,
  whatever later scans would find and however the page size divides the listing, as long as the entry has not expired; no page is longer than asked
  for, and after at most one request per resource and one more the token is empty.\<close>

theorem client_pages_whole:
  assumes "lr_NextToken req = []" "map_of cache (listCacheKey (lr_Service req) (lr_Filters req)) = None"
    "lv_scan (envs 0) (lr_Service req) (lr_Filters req) = Inr (resources, errors)" "length resources < 2 ^ 63"
    "\<And>i j. lv_now (envs i) j < lv_now (envs 0) 2 + listCacheTTL"
  shows "\<exists>ps. client_pages envs req (Suc (length resources)) 0 cache = Some (Inr ps) \<and>
    concat ps = map (resource_ref (lv_unmarshal (envs 0))) resources \<and> list_all (\<lambda>p. length p \<le> page_size (lr_MaxResults req)) ps"
proof -
  let ?key = "listCacheKey (lr_Service req) (lr_Filters req)" and ?m = "page_size (lr_MaxResults req)"
  define refs where "refs = map (resource_ref (lv_unmarshal (envs 0))) resources"
  define entry where "entry = \<lparr>le_refs = refs, le_errors = errors, le_expiresAt = lv_now (envs 0) 2 + listCacheTTL\<rparr>"
  define cache1 where "cache1 = AList.update ?key entry (AList.delete ?key (gcListCache (lv_now (envs 0) 0) cache))"
  have scanned: "refsForKey (envs 0) ?key req cache = (Inr entry, cache1)"
    using gc_absent[OF assms(2)] assms(3) by (simp add: refsForKey_def Let_def entry_def refs_def cache1_def)
  have stored: "map_of cache1 ?key = Some entry" by (simp add: cache1_def update_conv')
  have len: "length refs < 2 ^ 63" using assms(4) by (simp add: refs_def)
  have page: "page_of refs (lr_NextToken req) (lr_MaxResults req) = (take ?m refs, if ?m < length refs then strconv_Itoa (int ?m) else [])"
    using page_of_page[OF len, of 0 "lr_NextToken req"] assms(1) by simp
  show ?thesis
  proof (cases "?m < length refs")
    case False
    then show ?thesis using scanned page by (simp add: listResourcesPaged_def entry_def refs_def)
  next
    case True
    let ?req = "req\<lparr>lr_NextToken := strconv_Itoa (int ?m)\<rparr>"
    have "\<exists>ps. client_pages envs ?req (length resources) (Suc 0) cache1 = Some (Inr ps) \<and> concat ps = drop ?m (le_refs entry) \<and>
        list_all (\<lambda>p. length p \<le> page_size (lr_MaxResults ?req)) ps"
      by (rule client_continues) (use stored True len assms(5) page_size_pos[of "lr_MaxResults req"] in \<open>auto simp: entry_def refs_def\<close>)
    then obtain ps where "client_pages envs ?req (length resources) (Suc 0) cache1 = Some (Inr ps)" "concat ps = drop ?m refs"
      "list_all (\<lambda>p. length p \<le> ?m) ps" by (auto simp: entry_def)
    then show ?thesis using scanned page True by (simp add: listResourcesPaged_def entry_def flip: refs_def)
  qed
qed

definition demo_clock :: "nat \<Rightarrow> list_env" where
  "demo_clock i = \<lparr>lv_now = (\<lambda>j. if i < 3 then int i else 3), lv_scan = (\<lambda>s fs. if i = 0 then Inr (replicate 5 pb_Resource_zero, []) else Inl ''gone''),
     lv_unmarshal = (\<lambda>_. None)\<rparr>"

definition demo_listing :: list_request where
  "demo_listing = \<lparr>lr_Service = ''dns'', lr_Filters = [], lr_MaxResults = 2, lr_NextToken = []\<rparr>"

theorem client_pages_whole_witness:
  "\<exists>ps. client_pages demo_clock demo_listing 6 0 [] = Some (Inr ps) \<and> length (concat ps) = 5 \<and> list_all (\<lambda>p. length p \<le> 2) ps"
proof -
  have "\<exists>ps. client_pages demo_clock demo_listing (Suc (length (replicate 5 pb_Resource_zero))) 0 [] = Some (Inr ps) \<and>
      concat ps = map (resource_ref (lv_unmarshal (demo_clock 0))) (replicate 5 pb_Resource_zero) \<and>
      list_all (\<lambda>p. length p \<le> page_size (lr_MaxResults demo_listing)) ps"
    by (rule client_pages_whole) (simp_all add: demo_clock_def demo_listing_def listCacheTTL_def)
  then obtain ps where "client_pages demo_clock demo_listing 6 0 [] = Some (Inr ps)"
    "concat ps = map (resource_ref (lv_unmarshal (demo_clock 0))) (replicate 5 pb_Resource_zero)" "list_all (\<lambda>p. length p \<le> 2) ps"
    by (auto simp: demo_listing_def page_size_def)
  then show ?thesis by (metis length_map length_replicate)
qed

end
