(* ===== verification/Spec2Isabelle.thy ===== *)
theory Spec2Isabelle
  imports Proto Scan_Errors Paging Scan_Executor Sha256 Data_Types Keyed_Table Findings Filepath Archive
    Sql_Guard Pack Pack_Loader Pack_Checksum Registry Pack_Install Query_Engine Compliance_Executor Compliance_Run Slice_Sort History Drift
    Provider_Manifest Provider_Registry Provider_Install Provider_Runtime Scan_Store
    Db_Connect Corkscrew_Config Scan_App Evidence Correlation Correlation_Refresh Query_App Edit_Distance Secrets Cloudflare_Auth Schema_Lifecycle Org_Scan Cloudflare_Listing
begin

text \<open>
  Corkscrew scans cloud providers through plugins, stores what it finds in DuckDB, evaluates query packs on
  it and keeps durable findings. This development models the Go code that carries those decisions and proves
  what makes it correct. Each theory follows its source file in order, with the source's names; a Go method
  \<open>T.m\<close> is \<open>T_m\<close> or \<open>m\<close>.

  \<^bold>\<open>Conventions.\<close> Go strings are byte strings. An error is a value: the left of a sum or an \<open>option\<close>. A failed
  assertion, a nil dereference or an index out of range is \<open>None\<close> of \<open>'a panics\<close>, and freedom from panics is
  proved where it is claimed. Maps that are only looked up are partial functions, maps that are ranged over
  come with an arbitrary order. \<open>int\<close> and \<open>int64\<close> are \<open>int\<close> with \<open>wrap_int64\<close> where a value can leave the
  type, hashes are words. Everything outside the sources (network, file system, clock, database engine, YAML
  and JSON decoders, cloud SDKs) is a parameter, a record of functions or an argument of the definitions that
  use it; what is relied on is a hypothesis of the theorem.

  \<^bold>\<open>Shared theories.\<close>
  \<^item> Prelude: assertions, strings, decimal numbers, wrap-around, \<open>dedupe_by\<close> (first occurrence wins).
  \<^item> Keyed_Table: a table under its primary key and the locale \<open>foldable_writes\<close>: a batch of upserts
    coalesced by key is the writes one by one. Interpreted for findings in Findings.
  \<^item> Slice_Sort: the contract of \<open>sort.Slice\<close> as the locale \<open>slice_sorting\<close>, which says nothing of
    stability; insertion sort is an instance.
  \<^item> Filepath: \<open>Clean\<close>, \<open>Join\<close>, \<open>Rel\<close>, \<open>Dir\<close> on path components. Sha256: FIPS 180-4 on 32-bit words.
  \<^item> Proto, Data_Types: the messages and the records that travel between components.

  \<^bold>\<open>Scanning.\<close> Scan_Errors (internal/shared/scan_errors.go) classifies response entries. Paging
  (internal/shared/paging and the plugins' loops) bounds a listing; fuel is the page limit and is shown to be
  enough. Scan_Executor (internal/scanexec) runs one request per scope on a pool of workers: \<open>pool_step\<close> is the
  step relation of dispatcher, workers and collector, and the results do not depend on the schedule. Scan_App
  (internal/app/scan) is the scan command over Corkscrew_Config (internal/config/corkscrew.go), the plugin
  runtime, the executor and the store. Org_Scan (plugins/aws-provider/orgscan) fans a service out across the
  accounts of an AWS organization: another step relation, and a cache of scanners bounded by the listing.
  Cloudflare_Listing (plugins/cloudflare-provider) drains listings and serves them page by page from a cache.

  \<^bold>\<open>Query packs.\<close> Pack (pack.go) holds packs, versions, validation and parameters; Pack_Loader (loader.go)
  loads a pack with its dependencies through three caches and is related to a loader without caches, for every
  loader that \<open>NewPackLoader\<close> and its operations can lead to (\<open>loader_lives\<close>) over files that do not change, as long
  as no pack on disk and no embedded pack read a query from the same path (\<open>sources_apart\<close>); the depth limit of
  the code bounds its recursion. Registry (registry.go) searches and fetches; Pack_Checksum
  (registry_checksum.go, registry_lock.go) reads checksum files and pins digests; Archive (internal/archive)
  extracts within a budget and inside one directory; Pack_Install (registry_verify.go) composes them: nothing
  is written before the bytes are verified.

  \<^bold>\<open>Queries and compliance.\<close> Sql_Guard (internal/data/session.go) tokenizes and guards SQL; Query_Engine
  (pkg/query/engine.go) runs one guarded statement in a read-only transaction; Compliance_Executor
  (executor.go) binds parameters and reads rows; Compliance_Run (simple_executor.go) selects controls and
  isolates their errors; Findings (internal/app/findings) records results as findings with a life cycle.
  Query_App (internal/app/query/query.go) runs one statement for the command line and classifies why it
  failed; Edit_Distance is its suggestion of a table's name, the distance computed by a matrix.

  \<^bold>\<open>Stored data.\<close> Db_Connect (internal/db/connect.go) opens local and remote databases. Schema_Lifecycle
  (internal/db/schema_lifecycle.go) upgrades a database to the newest schema in one transaction and archives
  tables from before the schema was versioned. Scan_Store (internal/db/graph_store.go, observations.go, internal/data/persistence.go) writes
  a scan as one transaction over keyed tables: latest resources, relationships, observations, the scan's row
  with its change counts. History (internal/data) lists scans, resources and relationships; Drift
  (internal/app/drift) compares two scans. That the stored counts are the drift joins the three. Evidence
  (pkg/correlation) reads and infers correlation evidence; Correlation and Correlation_Refresh
  (internal/app/correlation) write it into tables whose owned rows a ledger remembers.

  \<^bold>\<open>Providers.\<close> Provider_Manifest, Provider_Registry and Provider_Install (internal/provider, pkg/providers)
  validate a plugin's manifest, confine its executable, decide which provider may have which name and
  table, and install a plugin so that a crash at any moment loses nothing. Provider_Runtime (runtime.go,
  launcher.go, internal/app/providers) opens, caches and closes plugin sessions, which are cached under a
  fingerprint of their configuration: two configurations share one only if an entry holds a NUL byte or SHA-256 collides. Secrets (internal/secrets)
  reads credentials from the environment and a vault; Cloudflare_Auth (internal/providers/cloudflareauth)
  resolves a credential from its sources in their order, keeps profile files and plans permissions.

  \<^bold>\<open>Lemma groups.\<close> In each theory: equations of the operations, then their invariants (\<open>table_ok\<close>,
  \<open>lock_wf\<close>, \<open>registry_names_ok\<close>), then a specification written without the code's loops (for example
  \<open>listing\<close>, \<open>change_of\<close>, \<open>registers_as\<close>, \<open>safe_state\<close>) and the theorems that the code meets it. A property
  is introduced by its number, and its witness evaluates it on a concrete input. Lemmas that end in a
  surprising behaviour (a panic, a value that is skipped) record what the code does there.

  \<^bold>\<open>Not modelled.\<close> The command line and the terminal interface, which format and print; the output formats of
  queries; the provider plugins' calls of cloud SDKs and their code generators; the text of the SQL schema and
  the graph extension, which DuckDB runs; the API server; the browser flow that creates a GitHub application;
  the building of plugins with the Go compiler; generated protocol accessors. File modes other than the
  executable bit, symbolic links below managed directories, and other processes changing files in between are
  left out where a theory says so. Some library functions are kept simple: \<open>strings.TrimSpace\<close> and the case of
  letters are those of ASCII, making a temporary directory fails on an existing name where Go tries another, the
  working directory is a parameter that is always known, and an HTTP request that cannot be built is one that fails.
\<close>

end
